(* ===== verification/Prelude.thy ===== *)
theory Prelude
  imports
    Main
    "HOL-Library.Char_ord"
    "HOL-Library.List_Lexorder"
    "HOL-Library.AList"
    "HOL-Library.Multiset"
begin

text \<open>
  Shared vocabulary of the development: the parts of the JavaScript language and of its standard
  library that the console's sources use, with the lemmas the component theories rest on.

  \<^item> A JavaScript string is a \<^typ>\<open>string\<close>: a list of code units below 256. The ASCII literals of
    the sources are written as they are; the middle dot and the multiplication sign are the Latin-1
    units \<open>0xB7\<close> and \<open>0xD7\<close>; the few literals outside Latin-1, which are only ever displayed,
    are written as their UTF-8 bytes. Comparison of strings is the code-unit order of \<open><\<close> on
    strings, which is the lexicographic order of \<open>HOL-Library.List_Lexorder\<close>.
  \<^item> Integral numbers (counts, indices, milliseconds, protobuf \<open>int64\<close> values) are \<^typ>\<open>int\<close>.
  \<^item> A \<open>Set\<close> is the list of its elements in insertion order, a \<open>Map\<close> the association list of its
    entries in insertion order, which is the order in which JavaScript iterates over them.
  \<^item> \<open>undefined\<close> and \<open>null\<close> are \<^const>\<open>None\<close>.
\<close>

named_theorems js_string_simps \<open>rewriting with the string operations\<close>
named_theorems js_container_simps \<open>rewriting with sets, maps and search parameters\<close>

type_synonym ('k, 'v) js_map = "('k \<times> 'v) list"
type_synonym search_params = "(string \<times> string) list"

section \<open>Strings\<close>

definition js_space :: "char \<Rightarrow> bool" where
  "js_space c \<longleftrightarrow> c \<in> set [CHR 0x09, CHR 0x0A, CHR 0x0B, CHR 0x0C, CHR 0x0D, CHR 0x20, CHR 0xA0]"

definition trim :: "string \<Rightarrow> string" where
  "trim s = rev (dropWhile js_space (rev (dropWhile js_space s)))"

text \<open>\<open>a || b\<close> on strings: the empty string is falsy.\<close>

definition js_or :: "string \<Rightarrow> string \<Rightarrow> string" where
  "js_or a b = (if a = [] then b else a)"

text \<open>\<open>s.split(c)\<close> for a separator of one code unit, and \<open>parts.join(sep)\<close>.\<close>

fun split_on :: "char \<Rightarrow> string \<Rightarrow> string list" where
  "split_on c [] = [[]]"
| "split_on c (x # xs) =
     (if x = c then [] # split_on c xs
      else (case split_on c xs of [] \<Rightarrow> [[x]] | p # ps \<Rightarrow> (x # p) # ps))"

fun js_join :: "string \<Rightarrow> string list \<Rightarrow> string" where
  "js_join sep [] = []"
| "js_join sep [p] = p"
| "js_join sep (p # ps) = p @ sep @ js_join sep ps"

definition middot :: string where
  "middot = [CHR 0xB7]"

text \<open>The separator \<open>" \<cdot> "\<close> of the console's labels.\<close>

definition dot_sep :: string where
  "dot_sep = '' '' @ middot @ '' ''"

text \<open>Decimal printing of an integral number, as a template literal prints it.\<close>

definition digit_char :: "nat \<Rightarrow> char" where
  "digit_char d = char_of (48 + d)"

fun nat_str :: "nat \<Rightarrow> string" where
  "nat_str n = (if n < 10 then [digit_char n] else nat_str (n div 10) @ [digit_char (n mod 10)])"

declare nat_str.simps [simp del]

definition int_str :: "int \<Rightarrow> string" where
  "int_str i = (if i < 0 then ''-'' @ nat_str (nat (- i)) else nat_str (nat i))"

lemma dropWhile_id_hd: "xs = [] \<or> \<not> P (hd xs) \<Longrightarrow> dropWhile P xs = xs"
  by (cases xs) auto

lemma hd_dropWhile_not: "dropWhile P xs \<noteq> [] \<Longrightarrow> \<not> P (hd (dropWhile P xs))"
  by (rule hd_dropWhile)

lemma trim_id:
  assumes "s = [] \<or> (\<not> js_space (hd s) \<and> \<not> js_space (last s))"
  shows "trim s = s"
proof -
  have "dropWhile js_space s = s" using assms by (auto intro: dropWhile_id_hd)
  moreover have "dropWhile js_space (rev s) = rev s"
    using assms by (auto intro!: dropWhile_id_hd simp: hd_rev)
  ultimately show ?thesis by (simp add: trim_def)
qed

lemma trim_Nil [simp]: "trim [] = []"
  by (simp add: trim_def)

lemma last_dropWhile_eq: "dropWhile P xs \<noteq> [] \<Longrightarrow> last (dropWhile P xs) = last xs"
  by (induction xs) (auto split: if_splits)

lemma trim_ends:
  assumes "trim s \<noteq> []"
  shows "\<not> js_space (hd (trim s))" and "\<not> js_space (last (trim s))"
proof -
  let ?l = "dropWhile js_space s"
  let ?r = "dropWhile js_space (rev ?l)"
  have ne: "?r \<noteq> []" using assms unfolding trim_def by (metis rev.simps(1))
  then have "?l \<noteq> []" by (metis dropWhile.simps(1) rev.simps(1))
  then have "\<not> js_space (hd ?l)" by (rule hd_dropWhile)
  moreover have "hd (trim s) = hd ?l"
    using ne last_dropWhile_eq [OF ne] \<open>?l \<noteq> []\<close> by (simp add: trim_def hd_rev last_rev)
  ultimately show "\<not> js_space (hd (trim s))" by simp
  have "last (trim s) = hd ?r" using ne by (simp add: trim_def last_rev)
  then show "\<not> js_space (last (trim s))" using hd_dropWhile [OF ne] by simp
qed

lemma trim_trim [simp]: "trim (trim s) = trim s"
  using trim_ends [of s] by (auto intro: trim_id)

lemma set_trim: "set (trim s) \<subseteq> set s"
proof
  fix x
  assume "x \<in> set (trim s)"
  then have "x \<in> set (dropWhile js_space (rev (dropWhile js_space s)))" by (simp add: trim_def)
  then have "x \<in> set (dropWhile js_space s)" using set_dropWhileD by fastforce
  then show "x \<in> set s" using set_dropWhileD by fastforce
qed

lemma split_on_not_Nil [simp]: "split_on c s \<noteq> []"
  by (induction s) (auto split: list.splits)

lemma split_on_absent: "c \<notin> set s \<Longrightarrow> split_on c s = [s]"
  by (induction s) auto

lemma split_on_sep: "c \<notin> set p \<Longrightarrow> split_on c (p @ c # s) = p # split_on c s"
  by (induction p) auto

lemma js_join_Cons: "ps \<noteq> [] \<Longrightarrow> js_join sep (p # ps) = p @ sep @ js_join sep ps"
  by (cases ps) auto

lemma js_join_split_on [simp]: "js_join [c] (split_on c s) = s"
proof (induction s)
  case (Cons x s)
  show ?case
  proof (cases "x = c")
    case True
    then show ?thesis using Cons by (simp add: js_join_Cons)
  next
    case False
    obtain p ps where "split_on c s = p # ps" by (cases "split_on c s") auto
    then show ?thesis using Cons False by (cases ps) auto
  qed
qed simp

lemma split_on_parts: "p \<in> set (split_on c s) \<Longrightarrow> c \<notin> set p"
  by (induction s arbitrary: p) (auto split: if_splits list.splits)

lemma split_on_chars: "p \<in> set (split_on c s) \<Longrightarrow> set p \<subseteq> set s"
  by (induction s arbitrary: p) (fastforce split: if_splits list.splits)+

lemma chars_split_on: "x \<in> set s \<Longrightarrow> x \<noteq> c \<Longrightarrow> \<exists>p \<in> set (split_on c s). x \<in> set p"
  by (induction s) (force split: list.splits)+

lemma js_or_assoc_simps [js_string_simps]:
  "js_or [] b = b" "a \<noteq> [] \<Longrightarrow> js_or a b = a" "js_or a [] = a"
  by (auto simp: js_or_def)

lemma js_or_eq_Nil: "js_or a b = [] \<longleftrightarrow> a = [] \<and> b = []"
  by (auto simp: js_or_def)

lemma nat_str_not_Nil [simp]: "nat_str n \<noteq> []"
  by (subst nat_str.simps) simp

lemma int_str_not_Nil [simp]: "int_str i \<noteq> []"
  by (simp add: int_str_def)

section \<open>Sets, maps and search parameters\<close>

text \<open>\<open>new Set(values)\<close>: first occurrences, in order.\<close>

definition js_set_add :: "'a list \<Rightarrow> 'a \<Rightarrow> 'a list" where
  "js_set_add s x = (if x \<in> set s then s else s @ [x])"

definition js_set :: "'a list \<Rightarrow> 'a list" where
  "js_set xs = foldl js_set_add [] xs"

text \<open>\<open>map.set(k, v)\<close> keeps the position of a key that is present and appends a new one.\<close>

definition js_map_set :: "'k \<Rightarrow> 'v \<Rightarrow> ('k, 'v) js_map \<Rightarrow> ('k, 'v) js_map" where
  "js_map_set k v m = AList.update k v m"

definition js_map_get :: "('k, 'v) js_map \<Rightarrow> 'k \<Rightarrow> 'v option" where
  "js_map_get m k = map_of m k"

text \<open>\<open>URLSearchParams\<close>: \<open>getAll\<close>, \<open>append\<close>, \<open>set\<close>.\<close>

definition params_getAll :: "search_params \<Rightarrow> string \<Rightarrow> string list" where
  "params_getAll ps k = map snd (filter (\<lambda>p. fst p = k) ps)"

definition params_append :: "string \<Rightarrow> string \<Rightarrow> search_params \<Rightarrow> search_params" where
  "params_append k v ps = ps @ [(k, v)]"

fun params_set :: "string \<Rightarrow> string \<Rightarrow> search_params \<Rightarrow> search_params" where
  "params_set k v [] = [(k, v)]"
| "params_set k v (p # ps) =
     (if fst p = k then (k, v) # filter (\<lambda>p. fst p \<noteq> k) ps else p # params_set k v ps)"

lemma foldl_js_set_add:
  "distinct s \<Longrightarrow> distinct (foldl js_set_add s xs) \<and> set (foldl js_set_add s xs) = set s \<union> set xs"
  by (induction xs arbitrary: s) (auto simp: js_set_add_def)

lemma distinct_js_set [simp]: "distinct (js_set xs)"
  using foldl_js_set_add [of "[]" xs] by (simp add: js_set_def)

lemma set_js_set [simp]: "set (js_set xs) = set xs"
  using foldl_js_set_add [of "[]" xs] by (simp add: js_set_def)

lemma foldl_js_set_add_distinct:
  "distinct (s @ xs) \<Longrightarrow> foldl js_set_add s xs = s @ xs"
  by (induction xs arbitrary: s) (auto simp: js_set_add_def)

lemma js_set_distinct [simp]: "distinct xs \<Longrightarrow> js_set xs = xs"
  by (simp add: js_set_def foldl_js_set_add_distinct)

lemma js_map_get_set [js_container_simps]:
  "js_map_get (js_map_set k v m) k' = (if k' = k then Some v else js_map_get m k')"
  by (simp add: js_map_get_def js_map_set_def update_conv')

lemma js_map_get_Nil [simp]: "js_map_get [] k = None"
  by (simp add: js_map_get_def)

lemma distinct_keys_js_map_set [simp]:
  "distinct (map fst m) \<Longrightarrow> distinct (map fst (js_map_set k v m))"
  by (simp add: js_map_set_def distinct_update)

lemma js_map_get_in: "js_map_get m k = Some v \<Longrightarrow> (k, v) \<in> set m"
  by (simp add: js_map_get_def map_of_SomeD)

lemma js_map_get_iff: "distinct (map fst m) \<Longrightarrow> js_map_get m k = Some v \<longleftrightarrow> (k, v) \<in> set m"
  by (auto simp: js_map_get_def dest: map_of_SomeD)

lemma js_map_set_new: "k \<notin> fst ` set m \<Longrightarrow> js_map_set k v m = m @ [(k, v)]"
  by (induction m) (auto simp: js_map_set_def)

lemma foldl_js_map_set_new:
  "distinct (map fst m0 @ map f xs) \<Longrightarrow>
     foldl (\<lambda>m x. js_map_set (f x) (g x) m) m0 xs = m0 @ map (\<lambda>x. (f x, g x)) xs"
proof (induction xs arbitrary: m0)
  case (Cons x xs)
  then have "js_map_set (f x) (g x) m0 = m0 @ [(f x, g x)]" by (intro js_map_set_new) auto
  then show ?case using Cons by simp
qed simp

lemma set_js_map_set: "p \<in> set (js_map_set k v m) \<Longrightarrow> p = (k, v) \<or> p \<in> set m"
  by (induction m) (auto simp: js_map_set_def split: if_splits)

lemma fst_set_js_map_set: "fst ` set (js_map_set k v m) = insert k (fst ` set m)"
  by (induction m) (auto simp: js_map_set_def)

lemma params_getAll_simps [simp]:
  "params_getAll [] k = []"
  "params_getAll (p # ps) k = (if fst p = k then [snd p] else []) @ params_getAll ps k"
  "params_getAll (ps @ qs) k = params_getAll ps k @ params_getAll qs k"
  by (auto simp: params_getAll_def)

lemma params_getAll_append [simp]:
  "params_getAll (params_append k v ps) k' =
     params_getAll ps k' @ (if k = k' then [v] else [])"
  by (simp add: params_append_def)

lemma params_getAll_filter_neq: "k \<noteq> k' \<Longrightarrow> params_getAll (filter (\<lambda>p. fst p \<noteq> k) ps) k' = params_getAll ps k'"
  by (induction ps) auto

lemma params_getAll_filter_same [simp]: "params_getAll (filter (\<lambda>p. fst p \<noteq> k) ps) k = []"
  by (induction ps) auto

lemma params_getAll_set [simp]:
  "params_getAll (params_set k v ps) k' = (if k = k' then [v] else params_getAll ps k')"
  by (induction k v ps rule: params_set.induct) (auto simp: params_getAll_filter_neq)

lemma params_set_absent: "params_getAll ps k = [] \<Longrightarrow> params_set k v ps = ps @ [(k, v)]"
  by (induction k v ps rule: params_set.induct) (auto split: if_splits)

text \<open>A loop that sends each element to one of two growing lists.\<close>

lemma foldl_partition:
  "foldl (\<lambda>(vs, ns) x. if P x then (vs @ [g x], ns) else (vs, ns @ [h x])) (vs, ns) xs =
     (vs @ map g (filter P xs), ns @ map h (filter (\<lambda>x. \<not> P x) xs))"
  by (induction xs arbitrary: vs ns) auto

lemma foldl_partition_option:
  "foldl (\<lambda>(vs, ns) x. case f x of Some y \<Rightarrow> (vs @ [y], ns) | None \<Rightarrow> (vs, ns @ [h x])) (vs, ns) xs =
     (vs @ List.map_filter f xs, ns @ map h (filter (\<lambda>x. f x = None) xs))"
  by (induction xs arbitrary: vs ns) (auto simp: List.map_filter_simps split: option.splits)

text \<open>A loop that keeps the last accepted element and lists the others.\<close>

lemma foldl_last_accepted:
  "snd (foldl (\<lambda>(r, ns) x. case f x of Some y \<Rightarrow> (Some y, ns) | None \<Rightarrow> (r, ns @ [h x])) (r, ns) xs) =
     ns @ map h (filter (\<lambda>x. f x = None) xs)"
  by (induction xs arbitrary: r ns) (auto split: option.splits)

lemma foldl_last_matching:
  "snd (foldl (\<lambda>(r, ns) x. if P x then (g x, ns) else (r, ns @ [h x])) (r, ns) xs) =
     ns @ map h (filter (\<lambda>x. \<not> P x) xs)"
  "fst (foldl (\<lambda>(r, ns) x. if P x then (g x, ns) else (r, ns @ [h x])) (r, ns) xs) =
     (if filter P xs = [] then r else g (last (filter P xs)))"
  by (induction xs arbitrary: r ns) auto

text \<open>\<open>Array.prototype.find\<close>.\<close>

lemma find_Some_in: "List.find P xs = Some b \<Longrightarrow> b \<in> set xs \<and> P b"
  by (induction xs) (auto split: if_splits)

lemma find_rev_distinct:
  assumes "distinct (map f xs)"
  shows "List.find (\<lambda>x. f x = c) (rev xs) = List.find (\<lambda>x. f x = c) xs"
proof (cases "List.find (\<lambda>x. f x = c) xs")
  case None
  then have "List.find (\<lambda>x. f x = c) (rev xs) = None" by (simp add: find_None_iff)
  then show ?thesis using None by simp
next
  case (Some a)
  then have a: "a \<in> set xs" "f a = c" by (auto dest: find_Some_in)
  then obtain b where b: "List.find (\<lambda>x. f x = c) (rev xs) = Some b"
    by (metis (mono_tags, lifting) find_None_iff not_Some_eq set_rev)
  then have "b \<in> set xs" "f b = c" by (auto dest: find_Some_in)
  then have "b = a" using a assms by (metis distinct_map inj_onD)
  then show ?thesis using Some b by simp
qed

section \<open>Sorting with a comparator\<close>

text \<open>
  \<open>Array.prototype.sort(compare)\<close> is stable. On a consistent comparator the stable sorted
  permutation is unique; it is computed here by inserting each element in front of the elements
  that do not precede it.
\<close>

fun insort_by :: "('a \<Rightarrow> 'a \<Rightarrow> int) \<Rightarrow> 'a \<Rightarrow> 'a list \<Rightarrow> 'a list" where
  "insort_by cmp x [] = [x]"
| "insort_by cmp x (y # ys) = (if cmp x y \<le> 0 then x # y # ys else y # insort_by cmp x ys)"

definition sort_by :: "('a \<Rightarrow> 'a \<Rightarrow> int) \<Rightarrow> 'a list \<Rightarrow> 'a list" where
  "sort_by cmp xs = foldr (insort_by cmp) xs []"

text \<open>The comparator \<open>left < right ? -1 : left > right ? 1 : 0\<close>.\<close>

definition cmp_ord :: "'a::linorder \<Rightarrow> 'a \<Rightarrow> int" where
  "cmp_ord a b = (if a < b then -1 else if b < a then 1 else 0)"

lemma sort_by_simps [simp]:
  "sort_by cmp [] = []" "sort_by cmp (x # xs) = insort_by cmp x (sort_by cmp xs)"
  by (simp_all add: sort_by_def)

lemma mset_insort_by [simp]: "mset (insort_by cmp x xs) = add_mset x (mset xs)"
  by (induction xs) auto

lemma mset_sort_by [simp]: "mset (sort_by cmp xs) = mset xs"
  by (induction xs) auto

lemma set_sort_by [simp]: "set (sort_by cmp xs) = set xs"
  using mset_sort_by by (metis set_mset_mset)

lemma length_sort_by [simp]: "length (sort_by cmp xs) = length xs"
  using mset_sort_by by (metis size_mset)

lemma distinct_map_sort_by [simp]: "distinct (map f (sort_by cmp xs)) = distinct (map f xs)"
  by (metis mset_map mset_sort_by mset_eq_imp_distinct_iff)

lemma distinct_sort_by [simp]: "distinct (sort_by cmp xs) = distinct xs"
  by (metis mset_sort_by mset_eq_imp_distinct_iff)

lemma sort_by_eq_Nil [simp]: "sort_by cmp xs = [] \<longleftrightarrow> xs = []"
  by (metis length_0_conv length_sort_by)

lemma hd_sort_by_in: "xs \<noteq> [] \<Longrightarrow> hd (sort_by cmp xs) \<in> set xs"
  by (metis hd_in_set set_sort_by sort_by_eq_Nil)

text \<open>What a caller of \<open>sort\<close> owes: a comparator that is a total preorder.\<close>

lemma insort_by_cong:
  "(\<And>y. y \<in> set ys \<Longrightarrow> cmp x y = cmp' x y) \<Longrightarrow> insort_by cmp x ys = insort_by cmp' x ys"
  by (induction ys) auto

lemma sort_by_cong:
  assumes "\<And>x y. x \<in> set xs \<Longrightarrow> y \<in> set xs \<Longrightarrow> cmp x y = cmp' x y"
  shows "sort_by cmp xs = sort_by cmp' xs"
  using assms
proof (induction xs)
  case (Cons x xs)
  then have "sort_by cmp xs = sort_by cmp' xs" by simp
  then show ?case using Cons.prems by (auto intro: insort_by_cong)
qed simp

locale consistent_comparator =
  fixes cmp :: "'a \<Rightarrow> 'a \<Rightarrow> int"
  assumes cmp_total: "cmp x y \<le> 0 \<or> cmp y x \<le> 0"
    and cmp_trans: "cmp x y \<le> 0 \<Longrightarrow> cmp y z \<le> 0 \<Longrightarrow> cmp x z \<le> 0"
begin

lemma sorted_insort_by:
  "sorted_wrt (\<lambda>a b. cmp a b \<le> 0) ys \<Longrightarrow> sorted_wrt (\<lambda>a b. cmp a b \<le> 0) (insort_by cmp x ys)"
proof (induction ys)
  case (Cons y ys)
  have "set (insort_by cmp x ys) = insert x (set ys)"
    by (metis mset_insort_by set_mset_add_mset_insert set_mset_mset)
  then show ?case using Cons cmp_total [of x y] by (auto intro: cmp_trans)
qed simp

lemma sort_by_sorted: "sorted_wrt (\<lambda>a b. cmp a b \<le> 0) (sort_by cmp xs)"
  by (induction xs) (auto intro: sorted_insort_by)

lemma sort_by_id: "sorted_wrt (\<lambda>a b. cmp a b \<le> 0) xs \<Longrightarrow> sort_by cmp xs = xs"
proof (induction xs)
  case (Cons x xs)
  then have "sort_by cmp xs = xs" by simp
  then show ?case using Cons.prems by (cases xs) auto
qed simp

lemma insort_by_equiv:
  "filter (\<lambda>b. cmp a b \<le> 0 \<and> cmp b a \<le> 0) (insort_by cmp x ys) =
     filter (\<lambda>b. cmp a b \<le> 0 \<and> cmp b a \<le> 0) (x # ys)"
proof (induction ys)
  case (Cons y ys)
  show ?case
  proof (cases "cmp x y \<le> 0")
    case False
    then have "\<not> (cmp a x \<le> 0 \<and> cmp x a \<le> 0 \<and> cmp a y \<le> 0 \<and> cmp y a \<le> 0)"
      using cmp_trans by blast
    with False Cons show ?thesis by auto
  qed simp
qed simp

text \<open>Elements that compare equal keep their order.\<close>

lemma sort_by_stable:
  "filter (\<lambda>b. cmp a b \<le> 0 \<and> cmp b a \<le> 0) (sort_by cmp xs) =
     filter (\<lambda>b. cmp a b \<le> 0 \<and> cmp b a \<le> 0) xs"
  by (induction xs) (simp_all add: insort_by_equiv)

end

interpretation ord_cmp: consistent_comparator "\<lambda>x y. cmp_ord (f x) (f y)"
  for f :: "'a \<Rightarrow> 'b::linorder"
  by unfold_locales (auto simp: cmp_ord_def split: if_splits)

lemma cmp_ord_le: "cmp_ord a b \<le> 0 \<longleftrightarrow> a \<le> b"
  by (auto simp: cmp_ord_def)

end
