(* ===== verification/FleetQuery.thy ===== *)
theory FleetQuery
  imports Prelude
begin

text \<open>
  The fleet query state of the console and its URL form (\<open>ui/src/lib/fleet-query.ts\<close>): parsing
  search parameters into a canonical state with notices for what was dropped, serializing a state
  back, merging a patch and reconciling a state with the facets that exist. The TypeScript types
  of the enumerated fields are unions of string literals that the code checks at run time
  (\<open>oneOf\<close>), so the fields are strings here and every check is part of the model.
\<close>

section \<open>Data\<close>

record NamespacedKey =
  key_namespace :: string
  key_name :: string

definition FLEET_HEALTH_VALUES :: "string list" where
  "FLEET_HEALTH_VALUES =
     [''healthy'', ''progressing'', ''degraded'', ''failed'', ''unknown'', ''missing'']"

definition FLEET_SYNC_VALUES :: "string list" where
  "FLEET_SYNC_VALUES = [''synced'', ''out_of_sync'', ''unknown'']"

definition FLEET_RELEASE_VALUES :: "string list" where
  "FLEET_RELEASE_VALUES =
     [''pending'', ''promoting'', ''canarying'', ''verifying'', ''complete'', ''failed'',
      ''rolled_back'', ''superseded'', ''awaiting_approval'']"

definition FLEET_ROLLOUT_VALUES :: "string list" where
  "FLEET_ROLLOUT_VALUES =
     [''pending'', ''progressing'', ''paused'', ''healthy'', ''degraded'', ''failed'',
      ''rolled_back'', ''aborted'']"

definition FLEET_SOURCE_VALUES :: "string list" where
  "FLEET_SOURCE_VALUES = [''git'', ''helm'', ''kustomize'', ''s3'', ''oci'', ''inline'']"

definition FLEET_SORT_VALUES :: "string list" where
  "FLEET_SORT_VALUES =
     [''name'', ''project'', ''cluster'', ''stage'', ''health'', ''sync'', ''release'', ''rollout'',
      ''resource_count'', ''last_transition'', ''impact'', ''relevance'']"

definition FLEET_DIRECTION_VALUES :: "string list" where
  "FLEET_DIRECTION_VALUES = [''asc'', ''desc'']"

definition FLEET_VIEW_VALUES :: "string list" where
  "FLEET_VIEW_VALUES = [''treemap'', ''matrix'', ''table'', ''queue'']"

definition FLEET_GROUP_VALUES :: "string list" where
  "FLEET_GROUP_VALUES = [''project'', ''cluster'', ''stage'', ''health'']"

definition FLEET_SIZE_VALUES :: "string list" where
  "FLEET_SIZE_VALUES = [''resource_count'', ''request_rate'']"

definition FLEET_RANGE_VALUES :: "string list" where
  "FLEET_RANGE_VALUES =
     [''15m'', ''30m'', ''1h'', ''2h'', ''6h'', ''12h'', ''24h'', ''3d'', ''7d'']"

record FleetQueryState =
  fq_projects :: "NamespacedKey list"
  fq_clusters :: "NamespacedKey list"
  fq_stages :: "string list"
  fq_namespaces :: "string list"
  fq_health :: "string list"
  fq_sync :: "string list"
  fq_release :: "string list"
  fq_rollout :: "string list"
  fq_sources :: "string list"
  fq_q :: string
  fq_sort :: string
  fq_direction :: string
  fq_view :: string
  fq_group :: string
  fq_rows :: string
  fq_columns :: string
  fq_size :: string
  fq_zoom :: string
  fq_selected :: "NamespacedKey option"
  fq_range :: string

text \<open>\<open>Partial<FleetQueryState>\<close>: a field that is present replaces the current one.\<close>

record FleetQueryPatch =
  patch_projects :: "NamespacedKey list option"
  patch_clusters :: "NamespacedKey list option"
  patch_stages :: "string list option"
  patch_namespaces :: "string list option"
  patch_health :: "string list option"
  patch_sync :: "string list option"
  patch_release :: "string list option"
  patch_rollout :: "string list option"
  patch_sources :: "string list option"
  patch_q :: "string option"
  patch_sort :: "string option"
  patch_direction :: "string option"
  patch_view :: "string option"
  patch_group :: "string option"
  patch_rows :: "string option"
  patch_columns :: "string option"
  patch_size :: "string option"
  patch_zoom :: "string option"
  patch_selected :: "NamespacedKey option option"
  patch_range :: "string option"

datatype notice_reason = Invalid | Not_available

record FleetQueryNotice =
  notice_field :: string
  notice_value :: string
  notice_reason :: notice_reason
  notice_message :: string

record ParsedFleetQuery =
  parsed_state :: FleetQueryState
  parsed_notices :: "FleetQueryNotice list"

record FleetFacetAvailability =
  avail_projects :: "NamespacedKey list option"
  avail_clusters :: "NamespacedKey list option"
  avail_stages :: "string list option"
  avail_namespaces :: "string list option"
  avail_health :: "string list option"
  avail_sync :: "string list option"
  avail_release :: "string list option"
  avail_rollout :: "string list option"
  avail_sources :: "string list option"

definition DEFAULT_FLEET_QUERY :: FleetQueryState where
  "DEFAULT_FLEET_QUERY =
     \<lparr>fq_projects = [], fq_clusters = [], fq_stages = [], fq_namespaces = [], fq_health = [],
      fq_sync = [], fq_release = [], fq_rollout = [], fq_sources = [], fq_q = [],
      fq_sort = ''name'', fq_direction = ''asc'', fq_view = ''treemap'', fq_group = ''project'',
      fq_rows = ''project'', fq_columns = ''cluster'', fq_size = ''resource_count'', fq_zoom = [],
      fq_selected = None, fq_range = ''2h''\<rparr>"

section \<open>Keys and enumerations\<close>

definition lower_alnum :: "char \<Rightarrow> bool" where
  "lower_alnum c \<longleftrightarrow> (CHR ''a'' \<le> c \<and> c \<le> CHR ''z'') \<or> (CHR ''0'' \<le> c \<and> c \<le> CHR ''9'')"

text \<open>The regular expression \<open>/^[a-z0-9](?:[-a-z0-9]*[a-z0-9])?$/\<close>.\<close>

definition dnsLabel :: "string \<Rightarrow> bool" where
  "dnsLabel s \<longleftrightarrow>
     (case s of
        [] \<Rightarrow> False
      | c # cs \<Rightarrow> lower_alnum c \<and>
          (cs = [] \<or>
           (list_all (\<lambda>x. x = CHR ''-'' \<or> lower_alnum x) (butlast cs) \<and> lower_alnum (last cs))))"

definition oneOf :: "string \<Rightarrow> string list \<Rightarrow> bool" where
  "oneOf value allowed \<longleftrightarrow> value \<in> set allowed"

definition namespacedKey :: "NamespacedKey \<Rightarrow> string" where
  "namespacedKey k = key_namespace k @ ''/'' @ key_name k"

definition validNamespacedKey :: "NamespacedKey \<Rightarrow> bool" where
  "validNamespacedKey k \<longleftrightarrow>
     length (key_namespace k) > 0 \<and>
     length (key_namespace k) \<le> 63 \<and>
     dnsLabel (key_namespace k) \<and>
     length (key_name k) > 0 \<and>
     length (key_name k) \<le> 253 \<and>
     list_all (\<lambda>part. length part \<le> 63 \<and> dnsLabel part) (split_on CHR ''.'' (key_name k))"

definition parseNamespacedKey :: "string \<Rightarrow> NamespacedKey option" where
  "parseNamespacedKey value =
     (case split_on CHR ''/'' value of
        [namespace, name] \<Rightarrow>
          (let key = \<lparr>key_namespace = namespace, key_name = name\<rparr>
           in if validNamespacedKey key then Some key else None)
      | _ \<Rightarrow> None)"

text \<open>The loop of \<open>canonicalNamespaced\<close>: its body, and the map from printed key to key it fills.\<close>

definition addUnique ::
  "(string, NamespacedKey) js_map \<Rightarrow> NamespacedKey \<Rightarrow> (string, NamespacedKey) js_map" where
  "addUnique unique value =
     (if validNamespacedKey value then js_map_set (namespacedKey value) value unique else unique)"

definition uniqueNamespaced :: "NamespacedKey list \<Rightarrow> (string, NamespacedKey) js_map" where
  "uniqueNamespaced values = foldl addUnique [] values"

definition canonicalNamespaced :: "NamespacedKey list \<Rightarrow> NamespacedKey list" where
  "canonicalNamespaced values =
     map snd (sort_by (\<lambda>l r. cmp_ord (fst l) (fst r)) (uniqueNamespaced values))"

definition canonicalStrings :: "string list \<Rightarrow> string list" where
  "canonicalStrings values = sort_by cmp_ord (js_set (filter (\<lambda>v. v \<noteq> []) (map trim values)))"

definition canonicalEnums :: "string list \<Rightarrow> string list \<Rightarrow> string list" where
  "canonicalEnums values allowed = filter (\<lambda>v. oneOf v allowed) (canonicalStrings values)"

definition defaultFleetQuery :: FleetQueryState where
  "defaultFleetQuery = DEFAULT_FLEET_QUERY
     \<lparr>fq_projects := [], fq_clusters := [], fq_stages := [], fq_namespaces := [], fq_health := [],
      fq_sync := [], fq_release := [], fq_rollout := [], fq_sources := [], fq_selected := None\<rparr>"

definition canonicalizeFleetQuery :: "FleetQueryState \<Rightarrow> FleetQueryState" where
  "canonicalizeFleetQuery input =
     \<lparr>fq_projects = canonicalNamespaced (fq_projects input),
      fq_clusters = canonicalNamespaced (fq_clusters input),
      fq_stages = canonicalStrings (fq_stages input),
      fq_namespaces = canonicalStrings (fq_namespaces input),
      fq_health = canonicalEnums (fq_health input) FLEET_HEALTH_VALUES,
      fq_sync = canonicalEnums (fq_sync input) FLEET_SYNC_VALUES,
      fq_release = canonicalEnums (fq_release input) FLEET_RELEASE_VALUES,
      fq_rollout = canonicalEnums (fq_rollout input) FLEET_ROLLOUT_VALUES,
      fq_sources = canonicalEnums (fq_sources input) FLEET_SOURCE_VALUES,
      fq_q = trim (fq_q input),
      fq_sort = (if oneOf (fq_sort input) FLEET_SORT_VALUES then fq_sort input
                 else fq_sort defaultFleetQuery),
      fq_direction = (if oneOf (fq_direction input) FLEET_DIRECTION_VALUES then fq_direction input
                      else fq_direction defaultFleetQuery),
      fq_view = (if oneOf (fq_view input) FLEET_VIEW_VALUES then fq_view input
                 else fq_view defaultFleetQuery),
      fq_group = (if oneOf (fq_group input) FLEET_GROUP_VALUES then fq_group input
                  else fq_group defaultFleetQuery),
      fq_rows = (if oneOf (fq_rows input) FLEET_GROUP_VALUES then fq_rows input
                 else fq_rows defaultFleetQuery),
      fq_columns = (if oneOf (fq_columns input) FLEET_GROUP_VALUES then fq_columns input
                    else fq_columns defaultFleetQuery),
      fq_size = (if oneOf (fq_size input) FLEET_SIZE_VALUES then fq_size input
                 else fq_size defaultFleetQuery),
      fq_zoom = trim (fq_zoom input),
      fq_selected = (case fq_selected input of
          None \<Rightarrow> None
        | Some k \<Rightarrow> if validNamespacedKey k then Some k else None),
      fq_range = (if oneOf (fq_range input) FLEET_RANGE_VALUES then fq_range input
                  else fq_range defaultFleetQuery)\<rparr>"

section \<open>Notices\<close>

text \<open>The curly quotes U+201C and U+201D of the messages, as UTF-8 bytes.\<close>

definition quoted :: "string \<Rightarrow> string" where
  "quoted s = [CHR 0xE2, CHR 0x80, CHR 0x9C] @ s @ [CHR 0xE2, CHR 0x80, CHR 0x9D]"

definition invalidNotice :: "string \<Rightarrow> string \<Rightarrow> FleetQueryNotice" where
  "invalidNotice field value =
     \<lparr>notice_field = field, notice_value = value, notice_reason = Invalid,
      notice_message =
        ''Dropped invalid '' @ field @ '' value '' @ quoted (js_or value ''(empty)'') @ ''.''\<rparr>"

definition notAvailableNotice :: "string \<Rightarrow> string \<Rightarrow> FleetQueryNotice" where
  "notAvailableNotice field value =
     \<lparr>notice_field = field, notice_value = value, notice_reason = Not_available,
      notice_message = ''Removed unavailable '' @ field @ '' value '' @ quoted value @ ''.''\<rparr>"

section \<open>Parsing\<close>

text \<open>
  Each parser takes the notices pushed so far and returns its value with the extended list, as the
  loops of the source push onto the shared array.
\<close>

definition parseNamespacedValues ::
  "search_params \<Rightarrow> string \<Rightarrow> FleetQueryNotice list \<Rightarrow> NamespacedKey list \<times> FleetQueryNotice list" where
  "parseNamespacedValues parameters field notices =
     (let (values, notices') =
        foldl (\<lambda>(values, notices) rawValue.
            let value = trim rawValue in
            (case parseNamespacedKey value of
               Some parsed \<Rightarrow> (values @ [parsed], notices)
             | None \<Rightarrow> (values, notices @ [invalidNotice field value])))
          ([], notices) (params_getAll parameters field)
      in (canonicalNamespaced values, notices'))"

definition parseStringValues ::
  "search_params \<Rightarrow> string \<Rightarrow> FleetQueryNotice list \<Rightarrow> string list \<times> FleetQueryNotice list" where
  "parseStringValues parameters field notices =
     (let (values, notices') =
        foldl (\<lambda>(values, notices) rawValue.
            let value = trim rawValue in
            if value \<noteq> [] then (values @ [value], notices)
            else (values, notices @ [invalidNotice field value]))
          ([], notices) (params_getAll parameters field)
      in (canonicalStrings values, notices'))"

definition parseEnumValues ::
  "search_params \<Rightarrow> string \<Rightarrow> string list \<Rightarrow> FleetQueryNotice list \<Rightarrow>
     string list \<times> FleetQueryNotice list" where
  "parseEnumValues parameters field allowed notices =
     (let (values, notices') =
        foldl (\<lambda>(values, notices) rawValue.
            let value = trim rawValue in
            if oneOf value allowed then (values @ [value], notices)
            else (values, notices @ [invalidNotice field value]))
          ([], notices) (params_getAll parameters field)
      in (canonicalEnums values allowed, notices'))"

definition parseScalarEnum ::
  "search_params \<Rightarrow> string \<Rightarrow> string list \<Rightarrow> string \<Rightarrow> FleetQueryNotice list \<Rightarrow>
     string \<times> FleetQueryNotice list" where
  "parseScalarEnum parameters field allowed fallback notices =
     foldl (\<lambda>(result, notices) rawValue.
         let value = trim rawValue in
         if oneOf value allowed then (value, notices)
         else (result, notices @ [invalidNotice field value]))
       (fallback, notices) (params_getAll parameters field)"

definition parseSelected ::
  "search_params \<Rightarrow> FleetQueryNotice list \<Rightarrow> NamespacedKey option \<times> FleetQueryNotice list" where
  "parseSelected parameters notices =
     foldl (\<lambda>(selected, notices) rawValue.
         let value = trim rawValue in
         (case parseNamespacedKey value of
            Some parsed \<Rightarrow> (Some parsed, notices)
          | None \<Rightarrow> (selected, notices @ [invalidNotice ''selected'' value])))
       (None, notices) (params_getAll parameters ''selected'')"

definition lastTrimmed :: "search_params \<Rightarrow> string \<Rightarrow> string" where
  "lastTrimmed parameters field =
     (let values = params_getAll parameters field
      in if length values = 0 then [] else trim (last values))"

text \<open>
  \<open>parseFleetQuery\<close> takes a query string or an object with \<open>get\<close>/\<open>getAll\<close>. The constructor
  \<open>new URLSearchParams(text)\<close> of the browser is the parameter \<open>urlSearchParams\<close>.
\<close>

datatype query_input = QueryString string | QueryParameters search_params

definition parseFleetQuery :: "(string \<Rightarrow> search_params) \<Rightarrow> query_input \<Rightarrow> ParsedFleetQuery" where
  "parseFleetQuery urlSearchParams input =
     (let parameters =
            (case input of QueryString s \<Rightarrow> urlSearchParams s | QueryParameters ps \<Rightarrow> ps);
          (projects, n1) = parseNamespacedValues parameters ''project'' [];
          (clusters, n2) = parseNamespacedValues parameters ''cluster'' n1;
          (stages, n3) = parseStringValues parameters ''stage'' n2;
          (namespaces, n4) = parseStringValues parameters ''namespace'' n3;
          (health, n5) = parseEnumValues parameters ''health'' FLEET_HEALTH_VALUES n4;
          (sync, n6) = parseEnumValues parameters ''sync'' FLEET_SYNC_VALUES n5;
          (release, n7) = parseEnumValues parameters ''release'' FLEET_RELEASE_VALUES n6;
          (rollout, n8) = parseEnumValues parameters ''rollout'' FLEET_ROLLOUT_VALUES n7;
          (sources, n9) = parseEnumValues parameters ''source'' FLEET_SOURCE_VALUES n8;
          (sort, n10) = parseScalarEnum parameters ''sort'' FLEET_SORT_VALUES
             (fq_sort DEFAULT_FLEET_QUERY) n9;
          (direction, n11) = parseScalarEnum parameters ''direction'' FLEET_DIRECTION_VALUES
             (fq_direction DEFAULT_FLEET_QUERY) n10;
          (view, n12) = parseScalarEnum parameters ''view'' FLEET_VIEW_VALUES
             (fq_view DEFAULT_FLEET_QUERY) n11;
          (group, n13) = parseScalarEnum parameters ''group'' FLEET_GROUP_VALUES
             (fq_group DEFAULT_FLEET_QUERY) n12;
          (rows, n14) = parseScalarEnum parameters ''rows'' FLEET_GROUP_VALUES
             (fq_rows DEFAULT_FLEET_QUERY) n13;
          (columns, n15) = parseScalarEnum parameters ''columns'' FLEET_GROUP_VALUES
             (fq_columns DEFAULT_FLEET_QUERY) n14;
          (size, n16) = parseScalarEnum parameters ''size'' FLEET_SIZE_VALUES
             (fq_size DEFAULT_FLEET_QUERY) n15;
          (selected, n17) = parseSelected parameters n16;
          (range, n18) = parseScalarEnum parameters ''range'' FLEET_RANGE_VALUES
             (fq_range DEFAULT_FLEET_QUERY) n17
      in \<lparr>parsed_state = canonicalizeFleetQuery
            \<lparr>fq_projects = projects, fq_clusters = clusters, fq_stages = stages,
             fq_namespaces = namespaces, fq_health = health, fq_sync = sync, fq_release = release,
             fq_rollout = rollout, fq_sources = sources, fq_q = lastTrimmed parameters ''q'',
             fq_sort = sort, fq_direction = direction, fq_view = view, fq_group = group,
             fq_rows = rows, fq_columns = columns, fq_size = size,
             fq_zoom = lastTrimmed parameters ''zoom'', fq_selected = selected,
             fq_range = range\<rparr>,
          parsed_notices = n18\<rparr>)"

section \<open>Serializing\<close>

definition appendNamespaced :: "string \<Rightarrow> NamespacedKey list \<Rightarrow> search_params \<Rightarrow> search_params" where
  "appendNamespaced field values parameters =
     foldl (\<lambda>ps value. params_append field (namespacedKey value) ps) parameters values"

definition appendValues :: "string \<Rightarrow> string list \<Rightarrow> search_params \<Rightarrow> search_params" where
  "appendValues field values parameters =
     foldl (\<lambda>ps value. params_append field value ps) parameters values"

definition appendNonDefault :: "string \<Rightarrow> string \<Rightarrow> string \<Rightarrow> search_params \<Rightarrow> search_params" where
  "appendNonDefault field value fallback parameters =
     (if value \<noteq> fallback then params_set field value parameters else parameters)"

definition appendSelected :: "NamespacedKey option \<Rightarrow> search_params \<Rightarrow> search_params" where
  "appendSelected selected parameters =
     (case selected of
        Some key \<Rightarrow> params_set ''selected'' (namespacedKey key) parameters
      | None \<Rightarrow> parameters)"

definition serializeFleetQuery :: "FleetQueryState \<Rightarrow> search_params" where
  "serializeFleetQuery input =
     (let state = canonicalizeFleetQuery input;
          ps = appendNamespaced ''project'' (fq_projects state) [];
          ps = appendNamespaced ''cluster'' (fq_clusters state) ps;
          ps = appendValues ''stage'' (fq_stages state) ps;
          ps = appendValues ''namespace'' (fq_namespaces state) ps;
          ps = appendValues ''health'' (fq_health state) ps;
          ps = appendValues ''sync'' (fq_sync state) ps;
          ps = appendValues ''release'' (fq_release state) ps;
          ps = appendValues ''rollout'' (fq_rollout state) ps;
          ps = appendValues ''source'' (fq_sources state) ps;
          ps = appendNonDefault ''q'' (fq_q state) (fq_q DEFAULT_FLEET_QUERY) ps;
          ps = appendNonDefault ''sort'' (fq_sort state) (fq_sort DEFAULT_FLEET_QUERY) ps;
          ps = appendNonDefault ''direction'' (fq_direction state) (fq_direction DEFAULT_FLEET_QUERY) ps;
          ps = appendNonDefault ''view'' (fq_view state) (fq_view DEFAULT_FLEET_QUERY) ps;
          ps = appendNonDefault ''group'' (fq_group state) (fq_group DEFAULT_FLEET_QUERY) ps;
          ps = appendNonDefault ''rows'' (fq_rows state) (fq_rows DEFAULT_FLEET_QUERY) ps;
          ps = appendNonDefault ''columns'' (fq_columns state) (fq_columns DEFAULT_FLEET_QUERY) ps;
          ps = appendNonDefault ''size'' (fq_size state) (fq_size DEFAULT_FLEET_QUERY) ps;
          ps = appendNonDefault ''zoom'' (fq_zoom state) (fq_zoom DEFAULT_FLEET_QUERY) ps;
          ps = appendSelected (fq_selected state) ps
      in appendNonDefault ''range'' (fq_range state) (fq_range DEFAULT_FLEET_QUERY) ps)"

definition FLEET_QUERY_PARAM_KEYS :: "string list" where
  "FLEET_QUERY_PARAM_KEYS =
     [''project'', ''cluster'', ''stage'', ''namespace'', ''health'', ''sync'', ''release'',
      ''rollout'', ''source'', ''q'', ''sort'', ''direction'', ''view'', ''group'', ''rows'',
      ''columns'', ''size'', ''zoom'', ''selected'', ''range'']"

definition serializeFleetQueryPreserving ::
  "(string \<Rightarrow> search_params) \<Rightarrow> FleetQueryState \<Rightarrow> query_input \<Rightarrow> search_params" where
  "serializeFleetQueryPreserving urlSearchParams state current =
     (let existing =
            (case current of QueryString s \<Rightarrow> urlSearchParams s | QueryParameters ps \<Rightarrow> ps)
      in foldl (\<lambda>next (key, value).
           if key \<in> set FLEET_QUERY_PARAM_KEYS then next else params_append key value next)
         (serializeFleetQuery state) existing)"

section \<open>Merging and reconciling\<close>

text \<open>The spread \<open>{ ...current, ...patch }\<close>.\<close>

definition patched :: "'a option \<Rightarrow> 'a \<Rightarrow> 'a" where
  "patched p c = (case p of None \<Rightarrow> c | Some v \<Rightarrow> v)"

definition applyPatch :: "FleetQueryState \<Rightarrow> FleetQueryPatch \<Rightarrow> FleetQueryState" where
  "applyPatch current patch =
     \<lparr>fq_projects = patched (patch_projects patch) (fq_projects current),
      fq_clusters = patched (patch_clusters patch) (fq_clusters current),
      fq_stages = patched (patch_stages patch) (fq_stages current),
      fq_namespaces = patched (patch_namespaces patch) (fq_namespaces current),
      fq_health = patched (patch_health patch) (fq_health current),
      fq_sync = patched (patch_sync patch) (fq_sync current),
      fq_release = patched (patch_release patch) (fq_release current),
      fq_rollout = patched (patch_rollout patch) (fq_rollout current),
      fq_sources = patched (patch_sources patch) (fq_sources current),
      fq_q = patched (patch_q patch) (fq_q current),
      fq_sort = patched (patch_sort patch) (fq_sort current),
      fq_direction = patched (patch_direction patch) (fq_direction current),
      fq_view = patched (patch_view patch) (fq_view current),
      fq_group = patched (patch_group patch) (fq_group current),
      fq_rows = patched (patch_rows patch) (fq_rows current),
      fq_columns = patched (patch_columns patch) (fq_columns current),
      fq_size = patched (patch_size patch) (fq_size current),
      fq_zoom = patched (patch_zoom patch) (fq_zoom current),
      fq_selected = patched (patch_selected patch) (fq_selected current),
      fq_range = patched (patch_range patch) (fq_range current)\<rparr>"

definition mergeFleetQuery :: "FleetQueryState \<Rightarrow> FleetQueryPatch \<Rightarrow> FleetQueryState" where
  "mergeFleetQuery current patch = canonicalizeFleetQuery (applyPatch current patch)"

definition reconcileNamespaced ::
  "NamespacedKey list \<Rightarrow> NamespacedKey list option \<Rightarrow> string \<Rightarrow> FleetQueryNotice list \<Rightarrow>
     NamespacedKey list \<times> FleetQueryNotice list" where
  "reconcileNamespaced selected available field notices =
     (case available of
        None \<Rightarrow> (selected, notices)
      | Some av \<Rightarrow>
          (let allowed = js_set (map namespacedKey (canonicalNamespaced av)) in
           foldl (\<lambda>(kept, notices) value.
               let key = namespacedKey value in
               if key \<in> set allowed then (kept @ [value], notices)
               else (kept, notices @ [notAvailableNotice field key]))
             ([], notices) selected))"

definition reconcileValues ::
  "string list \<Rightarrow> string list option \<Rightarrow> string \<Rightarrow> FleetQueryNotice list \<Rightarrow>
     string list \<times> FleetQueryNotice list" where
  "reconcileValues selected available field notices =
     (case available of
        None \<Rightarrow> (selected, notices)
      | Some av \<Rightarrow>
          (let allowed = js_set av in
           foldl (\<lambda>(kept, notices) value.
               if value \<in> set allowed then (kept @ [value], notices)
               else (kept, notices @ [notAvailableNotice field value]))
             ([], notices) selected))"

definition reconcileFleetQuery ::
  "FleetQueryState \<Rightarrow> FleetFacetAvailability \<Rightarrow> ParsedFleetQuery" where
  "reconcileFleetQuery current available =
     (let state = canonicalizeFleetQuery current;
          (projects, n1) = reconcileNamespaced (fq_projects state) (avail_projects available) ''project'' [];
          (clusters, n2) = reconcileNamespaced (fq_clusters state) (avail_clusters available) ''cluster'' n1;
          (stages, n3) = reconcileValues (fq_stages state) (avail_stages available) ''stage'' n2;
          (namespaces, n4) = reconcileValues (fq_namespaces state) (avail_namespaces available) ''namespace'' n3;
          (health, n5) = reconcileValues (fq_health state) (avail_health available) ''health'' n4;
          (sync, n6) = reconcileValues (fq_sync state) (avail_sync available) ''sync'' n5;
          (release, n7) = reconcileValues (fq_release state) (avail_release available) ''release'' n6;
          (rollout, n8) = reconcileValues (fq_rollout state) (avail_rollout available) ''rollout'' n7;
          (sources, n9) = reconcileValues (fq_sources state) (avail_sources available) ''source'' n8
      in \<lparr>parsed_state = state
            \<lparr>fq_projects := projects, fq_clusters := clusters, fq_stages := stages,
             fq_namespaces := namespaces, fq_health := health, fq_sync := sync,
             fq_release := release, fq_rollout := rollout, fq_sources := sources\<rparr>,
          parsed_notices = n9\<rparr>)"

section \<open>Keys\<close>

lemma lower_alnum_facts:
  "lower_alnum c \<Longrightarrow> \<not> js_space c \<and> c \<noteq> CHR ''/'' \<and> c \<noteq> CHR ''.''"
  by (auto simp: lower_alnum_def js_space_def less_eq_char_def)

lemma dnsLabel_iff:
  "dnsLabel s \<longleftrightarrow> s \<noteq> [] \<and> lower_alnum (hd s) \<and> lower_alnum (last s) \<and>
     list_all (\<lambda>x. x = CHR ''-'' \<or> lower_alnum x) s"
proof (cases s)
  case (Cons c cs)
  show ?thesis
  proof (cases cs rule: rev_cases)
    case Nil
    then show ?thesis using Cons by (auto simp: dnsLabel_def)
  next
    case (snoc ds d)
    then show ?thesis using Cons by (auto simp: dnsLabel_def)
  qed
qed (simp add: dnsLabel_def)

lemma dnsLabel_chars: "dnsLabel s \<Longrightarrow> x \<in> set s \<Longrightarrow> x = CHR ''-'' \<or> lower_alnum x"
  by (auto simp: dnsLabel_iff list_all_iff)

lemma dnsLabel_no_sep: "dnsLabel s \<Longrightarrow> CHR ''/'' \<notin> set s"
  using dnsLabel_chars [of s "CHR ''/''"] lower_alnum_facts by auto

lemma validNamespacedKey_name_chars:
  assumes "validNamespacedKey k" and "x \<in> set (key_name k)"
  shows "x = CHR ''.'' \<or> x = CHR ''-'' \<or> lower_alnum x"
proof (cases "x = CHR ''.''")
  case False
  then obtain part where "part \<in> set (split_on CHR ''.'' (key_name k))" and "x \<in> set part"
    using chars_split_on assms(2) by blast
  moreover from this have "dnsLabel part"
    using assms(1) by (auto simp: validNamespacedKey_def list_all_iff)
  ultimately show ?thesis using dnsLabel_chars by blast
qed simp

lemma validNamespacedKey_no_sep:
  assumes "validNamespacedKey k"
  shows "CHR ''/'' \<notin> set (key_namespace k)" and "CHR ''/'' \<notin> set (key_name k)"
  using assms dnsLabel_no_sep lower_alnum_facts validNamespacedKey_name_chars
  by (auto simp: validNamespacedKey_def)

lemma not_space_key_char: "x = CHR ''.'' \<or> x = CHR ''-'' \<or> lower_alnum x \<Longrightarrow> \<not> js_space x"
  using lower_alnum_facts by (auto simp: js_space_def)

lemma trim_namespacedKey:
  assumes "validNamespacedKey k"
  shows "trim (namespacedKey k) = namespacedKey k"
proof (rule trim_id, rule disjI2, rule conjI)
  have ne: "key_namespace k \<noteq> []" "key_name k \<noteq> []" and dns: "dnsLabel (key_namespace k)"
    using assms by (auto simp: validNamespacedKey_def)
  then show "\<not> js_space (hd (namespacedKey k))"
    by (auto simp: namespacedKey_def dnsLabel_iff lower_alnum_facts)
  have "last (namespacedKey k) = last (key_name k)" using ne by (simp add: namespacedKey_def)
  then show "\<not> js_space (last (namespacedKey k))"
    using ne assms validNamespacedKey_name_chars [of k "last (key_name k)"]
      not_space_key_char [of "last (key_name k)"] by simp
qed

lemma split_namespacedKey:
  assumes "validNamespacedKey k"
  shows "split_on CHR ''/'' (namespacedKey k) = [key_namespace k, key_name k]"
  using validNamespacedKey_no_sep [OF assms]
  by (simp add: namespacedKey_def split_on_sep split_on_absent)

lemma parseNamespacedKey_namespacedKey:
  "validNamespacedKey k \<Longrightarrow> parseNamespacedKey (namespacedKey k) = Some k"
  by (cases k) (simp add: parseNamespacedKey_def split_namespacedKey Let_def)

lemma parseNamespacedKey_Some:
  assumes "parseNamespacedKey value = Some k"
  shows "validNamespacedKey k \<and> namespacedKey k = value"
proof -
  obtain ns nm where sp: "split_on CHR ''/'' value = [ns, nm]"
    and k: "k = \<lparr>key_namespace = ns, key_name = nm\<rparr>" and v: "validNamespacedKey k"
    using assms by (auto simp: parseNamespacedKey_def Let_def split: list.splits if_splits)
  have "value = js_join [CHR ''/''] [ns, nm]" using sp js_join_split_on by metis
  then show ?thesis using k v by (simp add: namespacedKey_def)
qed

lemma namespacedKey_inj:
  "validNamespacedKey j \<Longrightarrow> validNamespacedKey k \<Longrightarrow> namespacedKey j = namespacedKey k \<Longrightarrow> j = k"
  using parseNamespacedKey_namespacedKey by (metis option.inject)

section \<open>Canonical values\<close>

definition canonical_keys :: "NamespacedKey list \<Rightarrow> bool" where
  "canonical_keys ks \<longleftrightarrow> list_all validNamespacedKey ks \<and> sorted_wrt (<) (map namespacedKey ks)"

definition canonical_strings :: "string list \<Rightarrow> bool" where
  "canonical_strings vs \<longleftrightarrow> sorted_wrt (<) vs \<and> list_all (\<lambda>v. v \<noteq> [] \<and> trim v = v) vs"

definition canonical_enums :: "string list \<Rightarrow> string list \<Rightarrow> bool" where
  "canonical_enums allowed vs \<longleftrightarrow> canonical_strings vs \<and> list_all (\<lambda>v. oneOf v allowed) vs"

lemma sort_by_cmp_ord_sorted: "sorted (sort_by cmp_ord (xs :: 'a::linorder list))"
  using ord_cmp.sort_by_sorted [of "\<lambda>x. x" xs] by (simp add: cmp_ord_le)

lemma sort_by_cmp_ord_id: "sorted xs \<Longrightarrow> sort_by cmp_ord xs = (xs :: 'a::linorder list)"
  using ord_cmp.sort_by_id [of "\<lambda>x. x" xs] by (simp add: cmp_ord_le)

lemma canonicalStrings_canonical: "canonical_strings (canonicalStrings values)"
  by (auto simp: canonical_strings_def canonicalStrings_def strict_sorted_iff list_all_iff
      sort_by_cmp_ord_sorted)

lemma canonicalStrings_id:
  assumes "canonical_strings vs"
  shows "canonicalStrings vs = vs"
proof -
  have "map trim vs = vs" "filter (\<lambda>v. v \<noteq> []) vs = vs"
    using assms by (auto simp: canonical_strings_def list_all_iff map_idI)
  moreover have "sorted vs" "distinct vs"
    using assms by (auto simp: canonical_strings_def strict_sorted_iff)
  ultimately show ?thesis by (simp add: canonicalStrings_def sort_by_cmp_ord_id)
qed

lemma canonical_strings_filter: "canonical_strings vs \<Longrightarrow> canonical_strings (filter P vs)"
  by (auto simp: canonical_strings_def list_all_iff sorted_wrt_filter)

lemma canonicalEnums_canonical: "canonical_enums allowed (canonicalEnums values allowed)"
  by (auto simp: canonical_enums_def canonicalEnums_def list_all_iff
      intro: canonical_strings_filter canonicalStrings_canonical)

lemma canonicalEnums_id: "canonical_enums allowed vs \<Longrightarrow> canonicalEnums vs allowed = vs"
  by (auto simp: canonical_enums_def canonicalEnums_def canonicalStrings_id list_all_iff
      intro: filter_True)

definition keyed :: "string \<times> NamespacedKey \<Rightarrow> bool" where
  "keyed p \<longleftrightarrow> validNamespacedKey (snd p) \<and> fst p = namespacedKey (snd p)"

lemma addUnique_inv:
  assumes "distinct (map fst m) \<and> list_all keyed m"
  shows "distinct (map fst (addUnique m v)) \<and> list_all keyed (addUnique m v)"
  using assms by (auto simp: addUnique_def list_all_iff keyed_def dest!: set_js_map_set)

lemma foldl_addUnique_inv:
  "distinct (map fst m) \<and> list_all keyed m \<Longrightarrow>
     distinct (map fst (foldl addUnique m vs)) \<and> list_all keyed (foldl addUnique m vs)"
  using addUnique_inv by (induction vs arbitrary: m) auto

lemma uniqueNamespaced_inv:
  "distinct (map fst (uniqueNamespaced vs))" "list_all keyed (uniqueNamespaced vs)"
  using foldl_addUnique_inv [of "[]" vs] by (auto simp: uniqueNamespaced_def)

lemma map_fst_keyed: "list_all keyed m \<Longrightarrow> map fst m = map namespacedKey (map snd m)"
  by (induction m) (auto simp: keyed_def)

lemma canonicalNamespaced_canonical: "canonical_keys (canonicalNamespaced vs)"
proof -
  let ?u = "sort_by (\<lambda>l r. cmp_ord (fst l) (fst r)) (uniqueNamespaced vs)"
  have inv: "list_all keyed ?u"
    using uniqueNamespaced_inv(2) [of vs] by (simp add: list_all_iff)
  have "sorted_wrt (\<lambda>l r. fst l \<le> fst r) ?u"
    using ord_cmp.sort_by_sorted [of fst] by (simp add: cmp_ord_le)
  then have "sorted (map fst ?u)" by (simp add: sorted_map)
  moreover have "mset (map fst ?u) = mset (map fst (uniqueNamespaced vs))" by simp
  then have "distinct (map fst ?u)"
    using uniqueNamespaced_inv(1) [of vs] mset_eq_imp_distinct_iff by blast
  ultimately have "sorted_wrt (<) (map fst ?u)" by (simp only: strict_sorted_iff)
  then have "sorted_wrt (<) (map namespacedKey (canonicalNamespaced vs))"
    by (simp only: map_fst_keyed [OF inv] canonicalNamespaced_def)
  moreover have "list_all validNamespacedKey (canonicalNamespaced vs)"
    using inv by (auto simp: canonicalNamespaced_def list_all_iff keyed_def)
  ultimately show ?thesis by (simp only: canonical_keys_def)
qed

lemma foldl_addUnique_fresh:
  "list_all validNamespacedKey vs \<Longrightarrow> distinct (map fst m @ map namespacedKey vs) \<Longrightarrow>
     foldl addUnique m vs = m @ map (\<lambda>v. (namespacedKey v, v)) vs"
  by (induction vs arbitrary: m) (auto simp: addUnique_def js_map_set_new)

lemma canonicalNamespaced_id:
  assumes "canonical_keys ks"
  shows "canonicalNamespaced ks = ks"
proof -
  let ?m = "map (\<lambda>v. (namespacedKey v, v)) ks"
  have strict: "sorted_wrt (<) (map namespacedKey ks)" and valid: "list_all validNamespacedKey ks"
    using assms by (auto simp: canonical_keys_def)
  then have "sorted (map namespacedKey ks)" "distinct (map namespacedKey ks)"
    by (auto simp only: strict_sorted_iff)
  then have "uniqueNamespaced ks = ?m"
    using foldl_addUnique_fresh [of ks "[]"] valid by (simp add: uniqueNamespaced_def)
  moreover have "sorted_wrt (\<lambda>l r. fst l \<le> fst r) ?m"
    using \<open>sorted (map namespacedKey ks)\<close> by (simp add: sorted_map sorted_wrt_map)
  then have "sort_by (\<lambda>l r. cmp_ord (fst l) (fst r)) ?m = ?m"
    using ord_cmp.sort_by_id [of fst ?m] by (simp add: cmp_ord_le)
  ultimately show ?thesis by (simp add: canonicalNamespaced_def comp_def)
qed

section \<open>The contract of a query field\<close>

text \<open>
  Every field of the query has a reader over search parameters and a writer onto them. What the
  whole-query theorems need of a field: its reader looks at its own parameter only, reports
  exactly the values it does not accept, in order, and returns a canonical value; its writer
  touches its own parameter only; and reading back a written canonical value returns it without a
  notice.
\<close>

locale query_field =
  fixes field :: string
    and parse :: "search_params \<Rightarrow> FleetQueryNotice list \<Rightarrow> 'a \<times> FleetQueryNotice list"
    and emit :: "'a \<Rightarrow> search_params \<Rightarrow> search_params"
    and canonical :: "'a \<Rightarrow> bool"
    and accepts :: "string \<Rightarrow> bool"
  assumes parse_local:
      "params_getAll ps field = params_getAll qs field \<Longrightarrow> parse ps ns = parse qs ns"
    and parse_notices:
      "snd (parse ps ns) =
         ns @ map (invalidNotice field) (filter (\<lambda>v. \<not> accepts v) (map trim (params_getAll ps field)))"
    and parse_canonical: "canonical (fst (parse ps ns))"
    and emit_frame: "k \<noteq> field \<Longrightarrow> params_getAll (emit v ps) k = params_getAll ps k"
    and emit_own:
      "params_getAll ps field = [] \<Longrightarrow>
         params_getAll (emit v ps) field = params_getAll (emit v []) field"
    and parse_emit: "canonical v \<Longrightarrow> parse (emit v []) ns = (v, ns)"
begin

lemma parse_written:
  assumes "canonical v" and "params_getAll ps field = params_getAll (emit v []) field"
  shows "parse ps ns = (v, ns)"
  using parse_local [OF assms(2)] parse_emit [OF assms(1)] by simp

lemma parse_emit_anywhere:
  assumes "canonical v" and "params_getAll ps field = []"
  shows "parse (emit v ps) ns = (v, ns)"
  by (rule parse_written [OF assms(1) emit_own [OF assms(2)]])

text \<open>Parsing and writing again is the identity on what parsing returned.\<close>

lemma parse_emit_parse: "parse (emit (fst (parse ps ns)) []) ms = (fst (parse ps ns), ms)"
  by (rule parse_emit [OF parse_canonical])

end

lemma getAll_appendNamespaced:
  "params_getAll (appendNamespaced field vs ps) k =
     params_getAll ps k @ (if k = field then map namespacedKey vs else [])"
  unfolding appendNamespaced_def by (induction vs arbitrary: ps) auto

lemma getAll_appendValues:
  "params_getAll (appendValues field vs ps) k = params_getAll ps k @ (if k = field then vs else [])"
  unfolding appendValues_def by (induction vs arbitrary: ps) auto

lemma getAll_appendNonDefault:
  "params_getAll (appendNonDefault field v fallback ps) k =
     (if k = field \<and> v \<noteq> fallback then [v] else params_getAll ps k)"
  by (simp add: appendNonDefault_def)

lemma getAll_appendSelected:
  "params_getAll (appendSelected sel ps) k =
     (case sel of None \<Rightarrow> params_getAll ps k
      | Some key \<Rightarrow> if k = ''selected'' then [namespacedKey key] else params_getAll ps k)"
  by (simp add: appendSelected_def split: option.splits)

lemmas getAll_emit = getAll_appendNamespaced getAll_appendValues getAll_appendNonDefault
  getAll_appendSelected

lemma parseNamespacedValues_eq:
  "parseNamespacedValues ps field ns =
     (canonicalNamespaced (List.map_filter (\<lambda>r. parseNamespacedKey (trim r)) (params_getAll ps field)),
      ns @ map (\<lambda>r. invalidNotice field (trim r))
             (filter (\<lambda>r. parseNamespacedKey (trim r) = None) (params_getAll ps field)))"
  by (simp add: parseNamespacedValues_def Let_def foldl_partition_option)

lemma parseStringValues_eq:
  "parseStringValues ps field ns =
     (canonicalStrings (map trim (filter (\<lambda>r. trim r \<noteq> []) (params_getAll ps field))),
      ns @ map (\<lambda>r. invalidNotice field (trim r))
             (filter (\<lambda>r. \<not> trim r \<noteq> []) (params_getAll ps field)))"
  unfolding parseStringValues_def Let_def foldl_partition by simp

lemma parseEnumValues_eq:
  "parseEnumValues ps field allowed ns =
     (canonicalEnums (map trim (filter (\<lambda>r. oneOf (trim r) allowed) (params_getAll ps field))) allowed,
      ns @ map (\<lambda>r. invalidNotice field (trim r))
             (filter (\<lambda>r. \<not> oneOf (trim r) allowed) (params_getAll ps field)))"
  unfolding parseEnumValues_def Let_def foldl_partition by simp

lemma parseScalarEnum_snd:
  "snd (parseScalarEnum ps field allowed fallback ns) =
     ns @ map (\<lambda>r. invalidNotice field (trim r))
            (filter (\<lambda>r. \<not> oneOf (trim r) allowed) (params_getAll ps field))"
  unfolding parseScalarEnum_def Let_def by (rule foldl_last_matching(1))

lemma parseScalarEnum_fst:
  "fst (parseScalarEnum ps field allowed fallback ns) =
     (let good = filter (\<lambda>r. oneOf (trim r) allowed) (params_getAll ps field)
      in if good = [] then fallback else trim (last good))"
  unfolding parseScalarEnum_def Let_def by (rule foldl_last_matching(2))

lemma parseSelected_snd:
  "snd (parseSelected ps ns) =
     ns @ map (\<lambda>r. invalidNotice ''selected'' (trim r))
            (filter (\<lambda>r. parseNamespacedKey (trim r) = None) (params_getAll ps ''selected''))"
  unfolding parseSelected_def Let_def by (rule foldl_last_accepted)

lemma parseSelected_valid:
  "pred_option validNamespacedKey (fst (parseSelected ps ns))"
proof -
  have "pred_option validNamespacedKey r \<Longrightarrow>
    pred_option validNamespacedKey (fst (foldl (\<lambda>(selected, notices) rawValue.
      case parseNamespacedKey (trim rawValue) of
        Some parsed \<Rightarrow> (Some parsed, notices)
      | None \<Rightarrow> (selected, notices @ [invalidNotice ''selected'' (trim rawValue)])) (r, ns) vs))" for r ns vs
    by (induction vs arbitrary: r ns)
       (auto split: option.splits dest: parseNamespacedKey_Some)
  then show ?thesis by (simp add: parseSelected_def Let_def)
qed

lemma filter_map_trim:
  "map (\<lambda>r. h (trim r)) (filter (\<lambda>r. P (trim r)) rs) = map h (filter P (map trim rs))"
  by (induction rs) auto

lemma map_filter_namespacedKey:
  "list_all validNamespacedKey vs \<Longrightarrow>
     List.map_filter (\<lambda>r. parseNamespacedKey (trim r)) (map namespacedKey vs) = vs"
  by (induction vs)
     (auto simp: List.map_filter_simps trim_namespacedKey parseNamespacedKey_namespacedKey)

interpretation key_field: query_field field "\<lambda>ps. parseNamespacedValues ps field"
    "appendNamespaced field" canonical_keys "\<lambda>v. parseNamespacedKey v \<noteq> None"
  for field :: string
proof unfold_locales
  fix v :: "NamespacedKey list" and ns
  assume "canonical_keys v"
  then show "parseNamespacedValues (appendNamespaced field v []) field ns = (v, ns)"
    by (auto simp: parseNamespacedValues_eq getAll_emit map_filter_namespacedKey
        canonicalNamespaced_id canonical_keys_def list_all_iff trim_namespacedKey
        parseNamespacedKey_namespacedKey)
qed (simp_all add: parseNamespacedValues_eq canonicalNamespaced_canonical getAll_emit
    filter_map_trim [of "invalidNotice field" "\<lambda>v. parseNamespacedKey v = None"])

interpretation string_field: query_field field "\<lambda>ps. parseStringValues ps field"
    "appendValues field" canonical_strings "\<lambda>v. v \<noteq> []"
  for field :: string
proof unfold_locales
  fix v :: "string list" and ns
  assume can: "canonical_strings v"
  then have "filter (\<lambda>r. trim r \<noteq> []) v = v" "map trim v = v" "filter (\<lambda>r. trim r = []) v = []"
    by (auto simp: canonical_strings_def list_all_iff map_idI)
  then show "parseStringValues (appendValues field v []) field ns = (v, ns)"
    by (simp add: parseStringValues_eq getAll_emit canonicalStrings_id [OF can])
qed (simp_all add: parseStringValues_eq canonicalStrings_canonical getAll_emit
    filter_map_trim [of "invalidNotice field" "\<lambda>v. v = []"])

interpretation enum_field: query_field field "\<lambda>ps. parseEnumValues ps field allowed"
    "appendValues field" "canonical_enums allowed" "\<lambda>v. oneOf v allowed"
  for field :: string and allowed :: "string list"
proof unfold_locales
  fix v :: "string list" and ns
  assume can: "canonical_enums allowed v"
  then have "filter (\<lambda>r. oneOf (trim r) allowed) v = v" "map trim v = v"
    "filter (\<lambda>r. \<not> oneOf (trim r) allowed) v = []"
    by (auto simp: canonical_enums_def canonical_strings_def list_all_iff map_idI)
  then show "parseEnumValues (appendValues field v []) field allowed ns = (v, ns)"
    by (simp add: parseEnumValues_eq getAll_emit canonicalEnums_id [OF can])
qed (simp_all add: parseEnumValues_eq canonicalEnums_canonical getAll_emit
    filter_map_trim [of "invalidNotice field" "\<lambda>v. \<not> oneOf v allowed"])

interpretation scalar_field: query_field field "\<lambda>ps. parseScalarEnum ps field allowed fallback"
    "\<lambda>v. appendNonDefault field v fallback"
    "\<lambda>v. v = fallback \<or> (oneOf v allowed \<and> trim v = v)" "\<lambda>v. oneOf v allowed"
  for field :: string and allowed :: "string list" and fallback :: string
proof unfold_locales
  fix ps ns
  show "fst (parseScalarEnum ps field allowed fallback ns) = fallback \<or>
      (oneOf (fst (parseScalarEnum ps field allowed fallback ns)) allowed \<and>
       trim (fst (parseScalarEnum ps field allowed fallback ns)) =
         fst (parseScalarEnum ps field allowed fallback ns))"
    using last_in_set [of "filter (\<lambda>r. oneOf (trim r) allowed) (params_getAll ps field)"]
    by (auto simp: parseScalarEnum_fst Let_def)
next
  fix v ns
  assume "v = fallback \<or> (oneOf v allowed \<and> trim v = v)"
  then show "parseScalarEnum (appendNonDefault field v fallback []) field allowed fallback ns = (v, ns)"
    by (auto simp: parseScalarEnum_def getAll_emit)
qed (simp_all add: parseScalarEnum_def [abs_def] parseScalarEnum_snd [unfolded parseScalarEnum_def]
    getAll_emit filter_map_trim [of "invalidNotice field" "\<lambda>v. \<not> oneOf v allowed"])

interpretation selected_field: query_field "''selected''" parseSelected appendSelected
    "pred_option validNamespacedKey" "\<lambda>v. parseNamespacedKey v \<noteq> None"
proof unfold_locales
  fix v :: "NamespacedKey option" and ns
  assume "pred_option validNamespacedKey v"
  then show "parseSelected (appendSelected v []) ns = (v, ns)"
    by (cases v) (simp_all add: parseSelected_def getAll_emit trim_namespacedKey
        parseNamespacedKey_namespacedKey)
next
  fix ps qs :: search_params and ns
  assume "params_getAll ps ''selected'' = params_getAll qs ''selected''"
  then show "parseSelected ps ns = parseSelected qs ns" by (simp add: parseSelected_def)
qed (simp_all add: parseSelected_valid parseSelected_snd getAll_emit
    filter_map_trim [of "invalidNotice ''selected''" "\<lambda>v. parseNamespacedKey v = None"]
    split: option.splits)

interpretation text_field: query_field field "\<lambda>ps ns. (lastTrimmed ps field, ns)"
    "\<lambda>v. appendNonDefault field v []" "\<lambda>v. trim v = v" "\<lambda>v. True"
  for field :: string
  by unfold_locales (auto simp: lastTrimmed_def Let_def getAll_emit)

section \<open>Canonical states\<close>

definition canonical_state :: "FleetQueryState \<Rightarrow> bool" where
  "canonical_state s \<longleftrightarrow>
     canonical_keys (fq_projects s) \<and> canonical_keys (fq_clusters s) \<and>
     canonical_strings (fq_stages s) \<and> canonical_strings (fq_namespaces s) \<and>
     canonical_enums FLEET_HEALTH_VALUES (fq_health s) \<and>
     canonical_enums FLEET_SYNC_VALUES (fq_sync s) \<and>
     canonical_enums FLEET_RELEASE_VALUES (fq_release s) \<and>
     canonical_enums FLEET_ROLLOUT_VALUES (fq_rollout s) \<and>
     canonical_enums FLEET_SOURCE_VALUES (fq_sources s) \<and>
     trim (fq_q s) = fq_q s \<and> trim (fq_zoom s) = fq_zoom s \<and>
     oneOf (fq_sort s) FLEET_SORT_VALUES \<and> oneOf (fq_direction s) FLEET_DIRECTION_VALUES \<and>
     oneOf (fq_view s) FLEET_VIEW_VALUES \<and> oneOf (fq_group s) FLEET_GROUP_VALUES \<and>
     oneOf (fq_rows s) FLEET_GROUP_VALUES \<and> oneOf (fq_columns s) FLEET_GROUP_VALUES \<and>
     oneOf (fq_size s) FLEET_SIZE_VALUES \<and> oneOf (fq_range s) FLEET_RANGE_VALUES \<and>
     pred_option validNamespacedKey (fq_selected s)"

lemmas fleet_values = FLEET_HEALTH_VALUES_def FLEET_SYNC_VALUES_def FLEET_RELEASE_VALUES_def
  FLEET_ROLLOUT_VALUES_def FLEET_SOURCE_VALUES_def FLEET_SORT_VALUES_def FLEET_DIRECTION_VALUES_def
  FLEET_VIEW_VALUES_def FLEET_GROUP_VALUES_def FLEET_SIZE_VALUES_def FLEET_RANGE_VALUES_def

lemma default_oneOf [simp]:
  "oneOf (fq_sort DEFAULT_FLEET_QUERY) FLEET_SORT_VALUES"
  "oneOf (fq_direction DEFAULT_FLEET_QUERY) FLEET_DIRECTION_VALUES"
  "oneOf (fq_view DEFAULT_FLEET_QUERY) FLEET_VIEW_VALUES"
  "oneOf (fq_group DEFAULT_FLEET_QUERY) FLEET_GROUP_VALUES"
  "oneOf (fq_rows DEFAULT_FLEET_QUERY) FLEET_GROUP_VALUES"
  "oneOf (fq_columns DEFAULT_FLEET_QUERY) FLEET_GROUP_VALUES"
  "oneOf (fq_size DEFAULT_FLEET_QUERY) FLEET_SIZE_VALUES"
  "oneOf (fq_range DEFAULT_FLEET_QUERY) FLEET_RANGE_VALUES"
  by (simp_all add: oneOf_def fleet_values DEFAULT_FLEET_QUERY_def)

lemma canonicalizeFleetQuery_canonical: "canonical_state (canonicalizeFleetQuery s)"
  unfolding canonical_state_def canonicalizeFleetQuery_def defaultFleetQuery_def
  by (auto simp: canonicalNamespaced_canonical canonicalStrings_canonical canonicalEnums_canonical
      split: option.splits)

lemma canonicalizeFleetQuery_id: "canonical_state s \<Longrightarrow> canonicalizeFleetQuery s = s"
  by (cases s) (auto simp: canonical_state_def canonicalizeFleetQuery_def canonicalNamespaced_id
      canonicalStrings_id canonicalEnums_id split: option.splits)

lemma trim_oneOf:
  "oneOf v FLEET_SORT_VALUES \<Longrightarrow> trim v = v" "oneOf v FLEET_DIRECTION_VALUES \<Longrightarrow> trim v = v"
  "oneOf v FLEET_VIEW_VALUES \<Longrightarrow> trim v = v" "oneOf v FLEET_GROUP_VALUES \<Longrightarrow> trim v = v"
  "oneOf v FLEET_SIZE_VALUES \<Longrightarrow> trim v = v" "oneOf v FLEET_RANGE_VALUES \<Longrightarrow> trim v = v"
  by (auto simp: oneOf_def fleet_values trim_def js_space_def)

section \<open>The serialized query\<close>

text \<open>What the serializer writes under each of its parameters.\<close>

lemma getAll_serializeFleetQuery:
  fixes s :: FleetQueryState
  defines "p \<equiv> serializeFleetQuery s" and "c \<equiv> canonicalizeFleetQuery s"
  shows
  "params_getAll p ''project'' = params_getAll (appendNamespaced ''project'' (fq_projects c) []) ''project''"
  "params_getAll p ''cluster'' = params_getAll (appendNamespaced ''cluster'' (fq_clusters c) []) ''cluster''"
  "params_getAll p ''stage'' = params_getAll (appendValues ''stage'' (fq_stages c) []) ''stage''"
  "params_getAll p ''namespace'' = params_getAll (appendValues ''namespace'' (fq_namespaces c) []) ''namespace''"
  "params_getAll p ''health'' = params_getAll (appendValues ''health'' (fq_health c) []) ''health''"
  "params_getAll p ''sync'' = params_getAll (appendValues ''sync'' (fq_sync c) []) ''sync''"
  "params_getAll p ''release'' = params_getAll (appendValues ''release'' (fq_release c) []) ''release''"
  "params_getAll p ''rollout'' = params_getAll (appendValues ''rollout'' (fq_rollout c) []) ''rollout''"
  "params_getAll p ''source'' = params_getAll (appendValues ''source'' (fq_sources c) []) ''source''"
  "params_getAll p ''q'' = params_getAll (appendNonDefault ''q'' (fq_q c) [] []) ''q''"
  "params_getAll p ''sort'' =
     params_getAll (appendNonDefault ''sort'' (fq_sort c) (fq_sort DEFAULT_FLEET_QUERY) []) ''sort''"
  "params_getAll p ''direction'' =
     params_getAll (appendNonDefault ''direction'' (fq_direction c) (fq_direction DEFAULT_FLEET_QUERY) []) ''direction''"
  "params_getAll p ''view'' =
     params_getAll (appendNonDefault ''view'' (fq_view c) (fq_view DEFAULT_FLEET_QUERY) []) ''view''"
  "params_getAll p ''group'' =
     params_getAll (appendNonDefault ''group'' (fq_group c) (fq_group DEFAULT_FLEET_QUERY) []) ''group''"
  "params_getAll p ''rows'' =
     params_getAll (appendNonDefault ''rows'' (fq_rows c) (fq_rows DEFAULT_FLEET_QUERY) []) ''rows''"
  "params_getAll p ''columns'' =
     params_getAll (appendNonDefault ''columns'' (fq_columns c) (fq_columns DEFAULT_FLEET_QUERY) []) ''columns''"
  "params_getAll p ''size'' =
     params_getAll (appendNonDefault ''size'' (fq_size c) (fq_size DEFAULT_FLEET_QUERY) []) ''size''"
  "params_getAll p ''zoom'' = params_getAll (appendNonDefault ''zoom'' (fq_zoom c) [] []) ''zoom''"
  "params_getAll p ''selected'' = params_getAll (appendSelected (fq_selected c) []) ''selected''"
  "params_getAll p ''range'' =
     params_getAll (appendNonDefault ''range'' (fq_range c) (fq_range DEFAULT_FLEET_QUERY) []) ''range''"
  unfolding p_def c_def serializeFleetQuery_def Let_def getAll_emit
  by (simp_all add: DEFAULT_FLEET_QUERY_def split: option.splits)

lemma serializeFleetQuery_keys:
  assumes "k \<notin> set FLEET_QUERY_PARAM_KEYS"
  shows "params_getAll (serializeFleetQuery s) k = []"
  using assms unfolding serializeFleetQuery_def Let_def getAll_emit FLEET_QUERY_PARAM_KEYS_def
  by (simp split: option.splits)

text \<open>
  Parameters that agree with a serialized state on the parameters the fleet layer owns parse to
  that state in canonical form, without a notice.
\<close>

lemma parseFleetQuery_agrees:
  assumes agree: "\<And>k. k \<in> set FLEET_QUERY_PARAM_KEYS \<Longrightarrow>
    params_getAll ps k = params_getAll (serializeFleetQuery s) k"
  shows "parseFleetQuery u (QueryParameters ps) =
    \<lparr>parsed_state = canonicalizeFleetQuery s, parsed_notices = []\<rparr>"
proof -
  let ?c = "canonicalizeFleetQuery s"
  have can: "canonical_state ?c" by (rule canonicalizeFleetQuery_canonical)
  note c = can [unfolded canonical_state_def]
  have own: "params_getAll ps k = params_getAll (serializeFleetQuery s) k"
    if "oneOf k FLEET_QUERY_PARAM_KEYS" for k
    using agree that by (simp add: oneOf_def)
  note written = own [unfolded oneOf_def FLEET_QUERY_PARAM_KEYS_def, simplified]
    getAll_serializeFleetQuery [of s]
  note lists = key_field.parse_written string_field.parse_written enum_field.parse_written
  have "parseNamespacedValues ps ''project'' ns = (fq_projects ?c, ns)"
       "parseNamespacedValues ps ''cluster'' ns = (fq_clusters ?c, ns)"
       "parseStringValues ps ''stage'' ns = (fq_stages ?c, ns)"
       "parseStringValues ps ''namespace'' ns = (fq_namespaces ?c, ns)"
       "parseEnumValues ps ''health'' FLEET_HEALTH_VALUES ns = (fq_health ?c, ns)"
       "parseEnumValues ps ''sync'' FLEET_SYNC_VALUES ns = (fq_sync ?c, ns)"
       "parseEnumValues ps ''release'' FLEET_RELEASE_VALUES ns = (fq_release ?c, ns)"
       "parseEnumValues ps ''rollout'' FLEET_ROLLOUT_VALUES ns = (fq_rollout ?c, ns)"
       "parseEnumValues ps ''source'' FLEET_SOURCE_VALUES ns = (fq_sources ?c, ns)" for ns
    using c by (auto intro!: lists simp: written)
  moreover have
    "parseScalarEnum ps ''sort'' FLEET_SORT_VALUES (fq_sort DEFAULT_FLEET_QUERY) ns = (fq_sort ?c, ns)"
    "parseScalarEnum ps ''direction'' FLEET_DIRECTION_VALUES (fq_direction DEFAULT_FLEET_QUERY) ns = (fq_direction ?c, ns)"
    "parseScalarEnum ps ''view'' FLEET_VIEW_VALUES (fq_view DEFAULT_FLEET_QUERY) ns = (fq_view ?c, ns)"
    "parseScalarEnum ps ''group'' FLEET_GROUP_VALUES (fq_group DEFAULT_FLEET_QUERY) ns = (fq_group ?c, ns)"
    "parseScalarEnum ps ''rows'' FLEET_GROUP_VALUES (fq_rows DEFAULT_FLEET_QUERY) ns = (fq_rows ?c, ns)"
    "parseScalarEnum ps ''columns'' FLEET_GROUP_VALUES (fq_columns DEFAULT_FLEET_QUERY) ns = (fq_columns ?c, ns)"
    "parseScalarEnum ps ''size'' FLEET_SIZE_VALUES (fq_size DEFAULT_FLEET_QUERY) ns = (fq_size ?c, ns)"
    "parseScalarEnum ps ''range'' FLEET_RANGE_VALUES (fq_range DEFAULT_FLEET_QUERY) ns = (fq_range ?c, ns)" for ns
    using c by (auto intro!: scalar_field.parse_written simp: written trim_oneOf)
  moreover have "parseSelected ps ns = (fq_selected ?c, ns)" for ns
    using c by (auto intro!: selected_field.parse_written simp: written)
  moreover have "lastTrimmed ps ''q'' = fq_q ?c" "lastTrimmed ps ''zoom'' = fq_zoom ?c"
    using c text_field.parse_written [of "fq_q ?c" ps "''q''" "[]"]
      text_field.parse_written [of "fq_zoom ?c" ps "''zoom''" "[]"] by (auto simp: written)
  ultimately show ?thesis
    using canonicalizeFleetQuery_id [OF can]
    by (cases ?c) (simp add: parseFleetQuery_def Let_def)
qed

lemma parseFleetQuery_canonical: "canonical_state (parsed_state (parseFleetQuery u input))"
  by (simp add: parseFleetQuery_def Let_def canonicalizeFleetQuery_canonical split: prod.splits)

lemma serializeFleetQueryPreserving_eq:
  "serializeFleetQueryPreserving u s (QueryParameters ps) =
     serializeFleetQuery s @ filter (\<lambda>p. fst p \<notin> set FLEET_QUERY_PARAM_KEYS) ps"
proof -
  have "foldl (\<lambda>next (key, value).
      if key \<in> set FLEET_QUERY_PARAM_KEYS then next else params_append key value next) acc ps =
    acc @ filter (\<lambda>p. fst p \<notin> set FLEET_QUERY_PARAM_KEYS) ps" for acc
    by (induction ps arbitrary: acc) (auto simp: params_append_def)
  then show ?thesis by (simp add: serializeFleetQueryPreserving_def)
qed

lemma params_getAll_filter_keys:
  "params_getAll (filter (\<lambda>p. P (fst p)) ps) k = (if P k then params_getAll ps k else [])"
  by (induction ps) auto

section \<open>Theorems on parsing and serializing\<close>

text \<open>
  C12: writing any query state to search parameters and parsing them back gives the canonical form
  of that state and no notice.
\<close>

theorem parse_serialize_roundtrip:
  "parseFleetQuery u (QueryParameters (serializeFleetQuery s)) =
     \<lparr>parsed_state = canonicalizeFleetQuery s, parsed_notices = []\<rparr>"
  by (rule parseFleetQuery_agrees) simp

text \<open>
  Canonicalizing is idempotent and parsing only ever returns canonical states, so a parsed URL
  that is written back and parsed again is a fixed point: same state, no notice.
\<close>

theorem parsed_state_is_fixpoint:
  "let state = parsed_state (parseFleetQuery u input) in
     canonicalizeFleetQuery (canonicalizeFleetQuery s) = canonicalizeFleetQuery s \<and>
     canonicalizeFleetQuery state = state \<and>
     parseFleetQuery v (QueryParameters (serializeFleetQuery state)) =
       \<lparr>parsed_state = state, parsed_notices = []\<rparr>"
proof -
  have "canonicalizeFleetQuery (parsed_state (parseFleetQuery u input)) =
      parsed_state (parseFleetQuery u input)"
    by (rule canonicalizeFleetQuery_id [OF parseFleetQuery_canonical])
  then show ?thesis
    using parseFleetQuery_agrees
    by (simp add: Let_def canonicalizeFleetQuery_id [OF canonicalizeFleetQuery_canonical])
qed

definition rejected :: "search_params \<Rightarrow> string \<Rightarrow> (string \<Rightarrow> bool) \<Rightarrow> FleetQueryNotice list" where
  "rejected ps field accepts =
     map (invalidNotice field) (filter (\<lambda>v. \<not> accepts v) (map trim (params_getAll ps field)))"

text \<open>
  C28: the notices of a parsed query are exactly the rejected values, one each, trimmed, field by
  field in the order in which the fields are read and in URL order inside a field: nothing is
  dropped silently and nothing accepted is reported.
\<close>

theorem parse_notices_exact:
  "parsed_notices (parseFleetQuery u (QueryParameters ps)) =
     concat (map (\<lambda>field. rejected ps field (\<lambda>v. parseNamespacedKey v \<noteq> None)) [''project'', ''cluster'']) @
     concat (map (\<lambda>field. rejected ps field (\<lambda>v. v \<noteq> [])) [''stage'', ''namespace'']) @
     concat (map (\<lambda>(field, allowed). rejected ps field (\<lambda>v. oneOf v allowed))
       [(''health'', FLEET_HEALTH_VALUES), (''sync'', FLEET_SYNC_VALUES),
        (''release'', FLEET_RELEASE_VALUES), (''rollout'', FLEET_ROLLOUT_VALUES),
        (''source'', FLEET_SOURCE_VALUES), (''sort'', FLEET_SORT_VALUES),
        (''direction'', FLEET_DIRECTION_VALUES), (''view'', FLEET_VIEW_VALUES),
        (''group'', FLEET_GROUP_VALUES), (''rows'', FLEET_GROUP_VALUES),
        (''columns'', FLEET_GROUP_VALUES), (''size'', FLEET_SIZE_VALUES)]) @
     rejected ps ''selected'' (\<lambda>v. parseNamespacedKey v \<noteq> None) @
     rejected ps ''range'' (\<lambda>v. oneOf v FLEET_RANGE_VALUES)"
proof -
  have n: "r = (a, b) \<Longrightarrow> b = snd r" for r :: "'a \<times> FleetQueryNotice list" and a b by simp
  show ?thesis
    unfolding parseFleetQuery_def Let_def
    by (simp split: prod.splits)
       (auto dest!: n simp: key_field.parse_notices string_field.parse_notices
         enum_field.parse_notices scalar_field.parse_notices selected_field.parse_notices
         rejected_def)
qed

text \<open>
  Changing the scope on any route keeps the route's own parameters. The preserving serializer
  leaves every parameter outside the owned list with exactly its values in order, writes none of
  the old owned ones, and parses to the canonical new state.
\<close>

theorem serialize_preserving_route:
  "let next = serializeFleetQueryPreserving u s (QueryParameters current) in
     parseFleetQuery v (QueryParameters next) =
       \<lparr>parsed_state = canonicalizeFleetQuery s, parsed_notices = []\<rparr> \<and>
     filter (\<lambda>p. fst p \<notin> set FLEET_QUERY_PARAM_KEYS) next =
       filter (\<lambda>p. fst p \<notin> set FLEET_QUERY_PARAM_KEYS) current"
proof -
  let ?own = "\<lambda>p :: string \<times> string. fst p \<notin> set FLEET_QUERY_PARAM_KEYS"
  let ?next = "serializeFleetQuery s @ filter ?own current"
  have "params_getAll ?next k = params_getAll (serializeFleetQuery s) k"
    if "k \<in> set FLEET_QUERY_PARAM_KEYS" for k
    using that params_getAll_filter_keys [of "\<lambda>k. k \<notin> set FLEET_QUERY_PARAM_KEYS" current k] by simp
  then have parse: "parseFleetQuery v (QueryParameters ?next) =
      \<lparr>parsed_state = canonicalizeFleetQuery s, parsed_notices = []\<rparr>"
    by (rule parseFleetQuery_agrees)
  have "filter ?own (serializeFleetQuery s) = []"
  proof -
    have "fst p \<in> set FLEET_QUERY_PARAM_KEYS" if "p \<in> set (serializeFleetQuery s)" for p
    proof (rule ccontr)
      assume "fst p \<notin> set FLEET_QUERY_PARAM_KEYS"
      then have "params_getAll (serializeFleetQuery s) (fst p) = []"
        by (rule serializeFleetQuery_keys)
      then show False using that by (auto simp: params_getAll_def filter_empty_conv)
    qed
    then show ?thesis by (auto simp: filter_empty_conv)
  qed
  then show ?thesis using parse by (simp add: Let_def serializeFleetQueryPreserving_eq)
qed

section \<open>Theorems on merging and reconciling\<close>

lemma addUnique_values:
  assumes "distinct (map fst m) \<and> list_all keyed m"
  shows "snd ` set (addUnique m v) = snd ` set m \<union> (if validNamespacedKey v then {v} else {})"
proof (cases "validNamespacedKey v \<and> namespacedKey v \<in> fst ` set m")
  case True
  then obtain w where w: "(namespacedKey v, w) \<in> set m" by auto
  then have "w = v"
    using assms True namespacedKey_inj by (fastforce simp: list_all_iff keyed_def)
  then have "js_map_get m (namespacedKey v) = Some v" and "v \<in> snd ` set m"
    using w assms by (auto simp: js_map_get_iff intro: rev_image_eqI)
  then show ?thesis
    using True by (auto simp: addUnique_def js_map_set_def js_map_get_def update_triv)
next
  case False
  then show ?thesis by (auto simp: addUnique_def js_map_set_new)
qed

lemma set_canonicalNamespaced: "set (canonicalNamespaced vs) = {v \<in> set vs. validNamespacedKey v}"
proof -
  have "distinct (map fst m) \<and> list_all keyed m \<Longrightarrow>
    snd ` set (foldl addUnique m vs) = snd ` set m \<union> {v \<in> set vs. validNamespacedKey v}" for m
  proof (induction vs arbitrary: m)
    case (Cons v vs)
    from addUnique_inv [OF Cons.prems] Cons.IH addUnique_values [OF Cons.prems]
    show ?case by auto
  qed simp
  from this [of "[]"] show ?thesis
    by (simp add: canonicalNamespaced_def uniqueNamespaced_def)
qed

text \<open>A facet value survives when availability is unknown or lists it.\<close>

definition survives :: "'a list option \<Rightarrow> 'a \<Rightarrow> bool" where
  "survives available = (\<lambda>v. case available of None \<Rightarrow> True | Some av \<Rightarrow> v \<in> set av)"

lemma reconcileValues_eq:
  "reconcileValues selected available field ns =
     (filter (survives available) selected,
      ns @ map (notAvailableNotice field) (filter (\<lambda>v. \<not> survives available v) selected))"
proof (cases available)
  case (Some av)
  then show ?thesis
    using foldl_partition [of "\<lambda>v. v \<in> set av" "\<lambda>v. v" "notAvailableNotice field" "[]" ns selected]
    by (simp add: reconcileValues_def survives_def Let_def cong: if_cong)
qed (simp add: reconcileValues_def survives_def)

lemma reconcileNamespaced_eq:
  assumes "list_all validNamespacedKey selected"
  shows "reconcileNamespaced selected available field ns =
     (filter (survives available) selected,
      ns @ map (\<lambda>k. notAvailableNotice field (namespacedKey k))
             (filter (\<lambda>v. \<not> survives available v) selected))"
proof (cases available)
  case (Some av)
  let ?ok = "\<lambda>v. namespacedKey v \<in> set (js_set (map namespacedKey (canonicalNamespaced av)))"
  have "?ok v \<longleftrightarrow> survives available v" if "v \<in> set selected" for v
    using assms that Some namespacedKey_inj
    by (auto simp: survives_def set_canonicalNamespaced list_all_iff)
  then have "filter ?ok selected = filter (survives available) selected"
    and "filter (\<lambda>v. \<not> ?ok v) selected = filter (\<lambda>v. \<not> survives available v) selected"
    using filter_cong [OF refl, of selected ?ok "survives available"]
      filter_cong [OF refl, of selected "\<lambda>v. \<not> ?ok v" "\<lambda>v. \<not> survives available v"] by blast+
  then show ?thesis
    using Some foldl_partition [of ?ok "\<lambda>v. v"
        "\<lambda>v. notAvailableNotice field (namespacedKey v)" "[]" ns selected]
    by (simp add: reconcileNamespaced_def Let_def cong: if_cong)
qed (simp add: reconcileNamespaced_def survives_def)

lemma canonical_keys_filter: "canonical_keys ks \<Longrightarrow> canonical_keys (filter P ks)"
  by (auto simp: canonical_keys_def list_all_iff sorted_wrt_map sorted_wrt_filter)

lemma canonical_enums_filter: "canonical_enums allowed vs \<Longrightarrow> canonical_enums allowed (filter P vs)"
  by (auto simp: canonical_enums_def list_all_iff canonical_strings_filter)

text \<open>
  Reconciling keeps, in every facet, exactly the canonical values that are available, in their
  order; it reports each of the others once, under its field; and no other field changes.
\<close>

theorem reconcile_exact:
  "let c = canonicalizeFleetQuery s; r = reconcileFleetQuery s av in
     parsed_state r = c
       \<lparr>fq_projects := filter (survives (avail_projects av)) (fq_projects c),
        fq_clusters := filter (survives (avail_clusters av)) (fq_clusters c),
        fq_stages := filter (survives (avail_stages av)) (fq_stages c),
        fq_namespaces := filter (survives (avail_namespaces av)) (fq_namespaces c),
        fq_health := filter (survives (avail_health av)) (fq_health c),
        fq_sync := filter (survives (avail_sync av)) (fq_sync c),
        fq_release := filter (survives (avail_release av)) (fq_release c),
        fq_rollout := filter (survives (avail_rollout av)) (fq_rollout c),
        fq_sources := filter (survives (avail_sources av)) (fq_sources c)\<rparr> \<and>
     parsed_notices r =
       concat (map (\<lambda>(field, available, ks).
           map (\<lambda>k. notAvailableNotice field (namespacedKey k)) (filter (\<lambda>v. \<not> survives available v) ks))
         [(''project'', avail_projects av, fq_projects c), (''cluster'', avail_clusters av, fq_clusters c)]) @
       concat (map (\<lambda>(field, available, vs).
           map (notAvailableNotice field) (filter (\<lambda>v. \<not> survives available v) vs))
         [(''stage'', avail_stages av, fq_stages c), (''namespace'', avail_namespaces av, fq_namespaces c),
          (''health'', avail_health av, fq_health c), (''sync'', avail_sync av, fq_sync c),
          (''release'', avail_release av, fq_release c), (''rollout'', avail_rollout av, fq_rollout c),
          (''source'', avail_sources av, fq_sources c)])"
proof -
  have "list_all validNamespacedKey (fq_projects (canonicalizeFleetQuery s))"
    "list_all validNamespacedKey (fq_clusters (canonicalizeFleetQuery s))"
    using canonicalizeFleetQuery_canonical [of s]
    by (auto simp: canonical_state_def canonical_keys_def)
  then show ?thesis
    by (simp add: reconcileFleetQuery_def Let_def reconcileNamespaced_eq reconcileValues_eq)
qed

lemma reconcileFleetQuery_canonical: "canonical_state (parsed_state (reconcileFleetQuery s av))"
proof -
  have c: "canonical_state (canonicalizeFleetQuery s)" by (rule canonicalizeFleetQuery_canonical)
  then have "list_all validNamespacedKey (fq_projects (canonicalizeFleetQuery s))"
    "list_all validNamespacedKey (fq_clusters (canonicalizeFleetQuery s))"
    by (auto simp: canonical_state_def canonical_keys_def)
  then show ?thesis
    using c by (simp add: reconcileFleetQuery_def Let_def reconcileNamespaced_eq reconcileValues_eq
        canonical_state_def canonical_keys_filter canonical_strings_filter canonical_enums_filter)
qed

text \<open>
  Reconciling is idempotent: a reconciled state is canonical, and reconciling it again with the
  same facets changes nothing and reports nothing.
\<close>

theorem reconcile_idempotent:
  "let state = parsed_state (reconcileFleetQuery s av) in
     canonical_state state \<and>
     reconcileFleetQuery state av = \<lparr>parsed_state = state, parsed_notices = []\<rparr>"
proof -
  define t where "t = parsed_state (reconcileFleetQuery s av)"
  have can: "canonical_state t" unfolding t_def by (rule reconcileFleetQuery_canonical)
  then have keys: "list_all validNamespacedKey (fq_projects t)" "list_all validNamespacedKey (fq_clusters t)"
    by (auto simp: canonical_state_def canonical_keys_def)
  let ?c = "canonicalizeFleetQuery s"
  have "canonical_state ?c" by (rule canonicalizeFleetQuery_canonical)
  then have "list_all validNamespacedKey (fq_projects ?c)" "list_all validNamespacedKey (fq_clusters ?c)"
    by (auto simp: canonical_state_def canonical_keys_def)
  then have "fq_projects t = filter (survives (avail_projects av)) (fq_projects ?c)"
    "fq_clusters t = filter (survives (avail_clusters av)) (fq_clusters ?c)"
    "fq_stages t = filter (survives (avail_stages av)) (fq_stages ?c)"
    "fq_namespaces t = filter (survives (avail_namespaces av)) (fq_namespaces ?c)"
    "fq_health t = filter (survives (avail_health av)) (fq_health ?c)"
    "fq_sync t = filter (survives (avail_sync av)) (fq_sync ?c)"
    "fq_release t = filter (survives (avail_release av)) (fq_release ?c)"
    "fq_rollout t = filter (survives (avail_rollout av)) (fq_rollout ?c)"
    "fq_sources t = filter (survives (avail_sources av)) (fq_sources ?c)"
    by (simp_all add: t_def reconcileFleetQuery_def Let_def reconcileNamespaced_eq reconcileValues_eq)
  then have "reconcileFleetQuery t av = \<lparr>parsed_state = t, parsed_notices = []\<rparr>"
    using keys can
    by (cases t) (simp add: reconcileFleetQuery_def Let_def reconcileNamespaced_eq reconcileValues_eq
        canonicalizeFleetQuery_id)
  then show ?thesis using can by (simp add: Let_def t_def)
qed

end
