(* ===== verification/JsNumber.thy ===== *)
theory JsNumber
  imports Complex_Main Prelude
begin

text \<open>
  JavaScript numbers that are not integral: IEEE 754 binary64. A finite number is the rational it
  denotes, and every operation rounds the exact result to the nearest double, ties to even
  (\<^term>\<open>fl\<close>). The two zeros are not distinguished: the sources print or compare them only.
\<close>

datatype js_number = NaN | PosInf | NegInf | Fin rat

section \<open>Rounding to binary64\<close>

fun ilog2 :: "nat \<Rightarrow> nat" where
  "ilog2 n = (if n < 2 then 0 else Suc (ilog2 (n div 2)))"

declare ilog2.simps [simp del]

definition two_pow :: "int \<Rightarrow> rat" where
  "two_pow e = (if 0 \<le> e then 2 ^ nat e else 1 / 2 ^ nat (- e))"

text \<open>\<open>rat_exponent m\<close> is the \<open>k\<close> with \<open>2^k \<le> m < 2^(k+1)\<close>, for positive \<open>m\<close>.\<close>

definition rat_exponent :: "rat \<Rightarrow> int" where
  "rat_exponent m =
     (let (a, b) = quotient_of m; k = int (ilog2 (nat a)) - int (ilog2 (nat b))
      in if two_pow k \<le> m then k else k - 1)"

definition half_even :: "rat \<Rightarrow> int" where
  "half_even y =
     (let n = \<lfloor>y\<rfloor>; d = y - of_int n
      in if d < 1 / 2 then n else if 1 / 2 < d then n + 1 else if even n then n else n + 1)"

definition fl :: "rat \<Rightarrow> js_number" where
  "fl x =
     (if x = 0 then Fin 0
      else let m = \<bar>x\<bar>;
               e = max (rat_exponent m - 52) (- 1074);
               r = of_int (half_even (m / two_pow e)) * two_pow e
           in if two_pow 1024 \<le> r then (if x < 0 then NegInf else PosInf)
              else Fin (if x < 0 then - r else r))"

section \<open>Operations the sources use\<close>

fun js_mul_const :: "js_number \<Rightarrow> rat \<Rightarrow> js_number" where
  "js_mul_const (Fin a) c = fl (a * c)"
| "js_mul_const NaN c = NaN"
| "js_mul_const PosInf c = PosInf"
| "js_mul_const NegInf c = NegInf"

fun js_div_const :: "js_number \<Rightarrow> rat \<Rightarrow> js_number" where
  "js_div_const (Fin a) c = fl (a / c)"
| "js_div_const NaN c = NaN"
| "js_div_const PosInf c = PosInf"
| "js_div_const NegInf c = NegInf"

text \<open>Subtraction; \<open>Number(b)\<close> of a \<open>bigint\<close>; \<open>Math.max(0, x)\<close>.\<close>

fun js_sub :: "js_number \<Rightarrow> js_number \<Rightarrow> js_number" where
  "js_sub (Fin a) (Fin b) = fl (a - b)"
| "js_sub NaN y = NaN"
| "js_sub x NaN = NaN"
| "js_sub PosInf y = (if y = PosInf then NaN else PosInf)"
| "js_sub NegInf y = (if y = NegInf then NaN else NegInf)"
| "js_sub (Fin a) PosInf = NegInf"
| "js_sub (Fin a) NegInf = PosInf"

definition js_Number :: "int \<Rightarrow> js_number" where
  "js_Number b = fl (of_int b)"

fun js_max0 :: "js_number \<Rightarrow> js_number" where
  "js_max0 (Fin a) = Fin (max 0 a)"
| "js_max0 NaN = NaN"
| "js_max0 PosInf = PosInf"
| "js_max0 NegInf = Fin 0"

fun js_is_finite :: "js_number \<Rightarrow> bool" where
  "js_is_finite (Fin a) = True"
| "js_is_finite _ = False"

fun js_le_zero :: "js_number \<Rightarrow> bool" where
  "js_le_zero (Fin a) = (a \<le> 0)"
| "js_le_zero NegInf = True"
| "js_le_zero _ = False"

text \<open>\<open>Math.round\<close>: the nearest integer, a tie towards positive infinity.\<close>

definition js_round :: "rat \<Rightarrow> int" where
  "js_round x = \<lfloor>x + 1 / 2\<rfloor>"

text \<open>
  \<open>Math.floor(x)\<close> and \<open>Math.round(x)\<close> where \<open>x\<close> is a quotient of finite numbers by a constant,
  which is finite; and the two for a quotient of integers.
\<close>

fun js_floor_int :: "js_number \<Rightarrow> int" where
  "js_floor_int (Fin x) = \<lfloor>x\<rfloor>"
| "js_floor_int _ = 0"

fun js_round_int :: "js_number \<Rightarrow> int" where
  "js_round_int (Fin x) = js_round x"
| "js_round_int _ = 0"

definition floor_div :: "int \<Rightarrow> int \<Rightarrow> int" where
  "floor_div n d = js_floor_int (fl (of_int n / of_int d))"

definition round_div :: "int \<Rightarrow> int \<Rightarrow> int" where
  "round_div n d = js_round_int (fl (of_int n / of_int d))"

text \<open>
  A template literal prints \<open>Math.round(x)\<close> as an integer (below \<open>1e21\<close>) or as one of the
  three names.
\<close>

fun js_round_str :: "js_number \<Rightarrow> string" where
  "js_round_str (Fin x) = int_str (js_round x)"
| "js_round_str NaN = ''NaN''"
| "js_round_str PosInf = ''Infinity''"
| "js_round_str NegInf = ''-Infinity''"

text \<open>
  \<open>x.toFixed(d)\<close> for \<open>d \<in> {0, 1}\<close> and \<open>\<bar>x\<bar> < 1e21\<close>: the integer \<open>n\<close> with \<open>n / 10^d\<close> nearest
  to \<open>\<bar>x\<bar>\<close>, the larger one of two, printed with \<open>d\<close> decimals behind the sign.
\<close>

definition fixed_digits :: "nat \<Rightarrow> nat \<Rightarrow> string" where
  "fixed_digits d n =
     (if d = 0 then nat_str n else nat_str (n div 10 ^ d) @ ''.'' @
        (let t = nat_str (n mod 10 ^ d) in replicate (d - length t) CHR ''0'' @ t))"

fun js_toFixed :: "js_number \<Rightarrow> nat \<Rightarrow> string" where
  "js_toFixed (Fin x) d =
     (if x < 0 then ''-'' else []) @ fixed_digits d (nat \<lfloor>\<bar>x\<bar> * 10 ^ d + 1 / 2\<rfloor>)"
| "js_toFixed NaN d = ''NaN''"
| "js_toFixed PosInf d = ''Infinity''"
| "js_toFixed NegInf d = ''-Infinity''"

text \<open>The comparisons \<open><\<close> and \<open>>=\<close>, addition, \<open>Math.max\<close>, \<open>Math.min\<close> and \<open>Math.floor\<close>.\<close>

fun js_less :: "js_number \<Rightarrow> js_number \<Rightarrow> bool" where
  "js_less (Fin a) (Fin b) = (a < b)"
| "js_less NegInf (Fin b) = True"
| "js_less NegInf PosInf = True"
| "js_less (Fin a) PosInf = True"
| "js_less _ _ = False"

definition js_ge :: "js_number \<Rightarrow> js_number \<Rightarrow> bool" where
  "js_ge a b \<longleftrightarrow> js_less b a \<or> a = b \<and> a \<noteq> NaN"

fun js_add :: "js_number \<Rightarrow> js_number \<Rightarrow> js_number" where
  "js_add (Fin a) (Fin b) = fl (a + b)"
| "js_add NaN y = NaN"
| "js_add x NaN = NaN"
| "js_add PosInf y = (if y = NegInf then NaN else PosInf)"
| "js_add NegInf y = (if y = PosInf then NaN else NegInf)"
| "js_add (Fin a) PosInf = PosInf"
| "js_add (Fin a) NegInf = NegInf"

definition js_max :: "js_number \<Rightarrow> js_number \<Rightarrow> js_number" where
  "js_max a b = (if a = NaN \<or> b = NaN then NaN else if js_less a b then b else a)"

definition js_min :: "js_number \<Rightarrow> js_number \<Rightarrow> js_number" where
  "js_min a b = (if a = NaN \<or> b = NaN then NaN else if js_less b a then b else a)"

fun js_floor :: "js_number \<Rightarrow> js_number" where
  "js_floor (Fin x) = Fin (of_int \<lfloor>x\<rfloor>)"
| "js_floor n = n"

fun js_abs :: "js_number \<Rightarrow> js_number" where
  "js_abs (Fin x) = Fin \<bar>x\<bar>"
| "js_abs NaN = NaN"
| "js_abs _ = PosInf"

text \<open>\<open>(a, b) => a - b\<close> as a comparator: a difference that is not a number counts as zero.\<close>

definition num_order :: "js_number \<Rightarrow> js_number \<Rightarrow> int" where
  "num_order a b = (if js_less a b then - 1 else if js_less b a then 1 else 0)"

fun finite_part :: "js_number \<Rightarrow> rat" where
  "finite_part (Fin x) = x"
| "finite_part _ = 0"

lemma num_order_finite: "js_is_finite a \<Longrightarrow> js_is_finite b \<Longrightarrow> num_order a b = cmp_ord (finite_part a) (finite_part b)"
  by (cases a; cases b) (auto simp: num_order_def cmp_ord_def)

section \<open>Correctness of the rounding\<close>

lemma ilog2_bounds: "0 < n \<Longrightarrow> 2 ^ ilog2 n \<le> n \<and> n < 2 ^ Suc (ilog2 n)"
proof (induction n rule: ilog2.induct)
  case (1 n)
  show ?case
  proof (cases "n < 2")
    case True
    then have "n = 1" using 1 by simp
    then show ?thesis by (simp add: ilog2.simps)
  next
    case False
    then have "2 ^ ilog2 (n div 2) \<le> n div 2 \<and> n div 2 < 2 ^ Suc (ilog2 (n div 2))"
      using 1 by simp
    then show ?thesis using False by (subst (1 2) ilog2.simps) auto
  qed
qed

lemma two_pow_pos [simp]: "0 < two_pow e"
  by (simp add: two_pow_def)

lemma two_pow_nz [simp]: "two_pow e \<noteq> 0"
  using two_pow_pos [of e] by linarith

lemma two_pow_Suc: "two_pow (e + 1) = 2 * two_pow e"
proof (cases "0 \<le> e")
  case True
  then show ?thesis by (simp add: two_pow_def nat_add_distrib)
next
  case False
  then obtain k where "e = - int (Suc k)" by (metis not_le negD)
  then show ?thesis by (simp add: two_pow_def nat_add_distrib)
qed

lemma two_pow_add_nat: "two_pow (e + int n) = 2 ^ n * two_pow e"
proof (induction n)
  case (Suc n)
  have "two_pow (e + int (Suc n)) = two_pow ((e + int n) + 1)" by (simp add: algebra_simps)
  then show ?case using Suc by (simp add: two_pow_Suc)
qed simp

lemma half_even_int [simp]: "half_even (of_int n) = n"
  by (simp add: half_even_def)

lemma half_even_near: "\<bar>of_int (half_even y) - y\<bar> \<le> 1 / 2"
proof -
  have "of_int \<lfloor>y\<rfloor> \<le> y" "y < of_int \<lfloor>y\<rfloor> + 1" by (auto intro: floor_less_cancel)
  then show ?thesis by (auto simp: half_even_def Let_def)
qed

lemma two_pow_diff: "two_pow (int a - int b) = 2 ^ a / 2 ^ b"
proof -
  have "two_pow (int a - int b + int b) = 2 ^ b * two_pow (int a - int b)" by (rule two_pow_add_nat)
  then have "2 ^ a = 2 ^ b * two_pow (int a - int b)" by (simp add: two_pow_def)
  then show ?thesis by (simp add: field_simps)
qed

lemma two_pow_mono: "d \<le> e \<Longrightarrow> two_pow d \<le> two_pow e"
proof -
  assume "d \<le> e"
  then have "two_pow e = 2 ^ nat (e - d) * two_pow d"
    using two_pow_add_nat [of d "nat (e - d)"] by simp
  moreover have "(1::rat) \<le> 2 ^ nat (e - d)" by simp
  ultimately show ?thesis using mult_right_mono [of 1 "2 ^ nat (e - d)" "two_pow d"] by (simp add: less_imp_le)
qed

lemma two_pow_less_cancel: "two_pow d < two_pow e \<Longrightarrow> d < e"
  using two_pow_mono [of e d] by linarith

lemma rat_exponent_bounds:
  assumes "0 < m"
  shows "two_pow (rat_exponent m) \<le> m" and "m < two_pow (rat_exponent m + 1)"
proof -
  obtain a b where q: "quotient_of m = (a, b)" by fastforce
  have b: "0 < b" using q quotient_of_denom_pos by blast
  have m: "m = of_int a / of_int b" using q quotient_of_div by blast
  have a: "0 < a" using assms b m by (simp add: zero_less_divide_iff)
  define la lb where "la = ilog2 (nat a)" and "lb = ilog2 (nat b)"
  have "2 ^ la \<le> nat a" "nat a < 2 ^ Suc la" "2 ^ lb \<le> nat b" "nat b < 2 ^ Suc lb"
    using ilog2_bounds [of "nat a"] ilog2_bounds [of "nat b"] a b by (auto simp: la_def lb_def)
  then have ai: "2 ^ la \<le> a" "a < 2 ^ Suc la" and bi: "2 ^ lb \<le> b" "b < 2 ^ Suc lb"
    using a b by (auto simp: le_nat_iff nat_less_iff)
  have ar: "(2::rat) ^ la \<le> of_int a" "of_int a < (2::rat) ^ Suc la"
    and br: "(2::rat) ^ lb \<le> of_int b" "of_int b < (2::rat) ^ Suc lb"
    using ai bi by (metis of_int_le_iff of_int_less_iff of_int_numeral of_int_power)+
  have lo: "two_pow (int la - int (Suc lb)) \<le> m"
    unfolding two_pow_diff m using ar br b a by (intro frac_le) auto
  have hi: "m < two_pow (int (Suc la) - int lb)"
    unfolding two_pow_diff m using ar br b a by (intro frac_less) auto
  have k: "rat_exponent m = (let k = int la - int lb in if two_pow k \<le> m then k else k - 1)"
    by (simp add: rat_exponent_def q la_def lb_def)
  have eq: "int la - int (Suc lb) = int la - int lb - 1" "int (Suc la) - int lb = int la - int lb + 1"
    by auto
  show "two_pow (rat_exponent m) \<le> m" "m < two_pow (rat_exponent m + 1)"
    using lo hi unfolding eq by (auto simp: k Let_def)
qed

lemma half_even_ge: "of_int k \<le> y \<Longrightarrow> k \<le> half_even y"
proof -
  assume "of_int k \<le> y"
  then have "k \<le> \<lfloor>y\<rfloor>" by (simp add: le_floor_iff)
  then show ?thesis by (auto simp: half_even_def Let_def)
qed

lemma half_even_scaled_near: "0 < u \<Longrightarrow> \<bar>of_int (half_even (x / u)) * u - x\<bar> \<le> u / 2"
proof -
  assume u: "0 < u"
  have "of_int (half_even (x / u)) * u - x = (of_int (half_even (x / u)) - x / u) * u"
    using u by (simp add: left_diff_distrib)
  then have "\<bar>of_int (half_even (x / u)) * u - x\<bar> = \<bar>of_int (half_even (x / u)) - x / u\<bar> * u"
    using u by (simp add: abs_mult)
  also have "\<dots> \<le> 1 / 2 * u" using u by (intro mult_right_mono half_even_near) simp
  finally show ?thesis by simp
qed

text \<open>Every positive number in the normal range is rounded to a multiple of \<open>2^(k - 52)\<close>.\<close>

lemma fl_form:
  assumes "two_pow (- 1000) \<le> x" and "x < two_pow 1000"
  obtains k where "two_pow k \<le> x" and "x < two_pow (k + 1)"
    and "fl x = Fin (of_int (half_even (x / two_pow (k - 52))) * two_pow (k - 52))"
    and "two_pow k = 2 ^ 52 * two_pow (k - 52)"
proof -
  have pos: "0 < x" using assms(1) two_pow_pos [of "- 1000"] by linarith
  define k where "k = rat_exponent x"
  have kb: "two_pow k \<le> x" "x < two_pow (k + 1)" using rat_exponent_bounds [OF pos] by (auto simp: k_def)
  have "two_pow (- 1000) < two_pow (k + 1)" using assms(1) kb(2) by linarith
  then have kl: "- 1000 < k + 1" by (rule two_pow_less_cancel)
  have e: "max (rat_exponent x - 52) (- 1074) = k - 52" using kl by (simp add: k_def)
  have split: "two_pow k = 2 ^ 52 * two_pow (k - 52)" using two_pow_add_nat [of "k - 52" 52] by simp
  let ?r = "of_int (half_even (x / two_pow (k - 52))) * two_pow (k - 52)"
  have "two_pow (k - 52) \<le> two_pow k" by (rule two_pow_mono) simp
  then have "?r \<le> 2 * x"
    using half_even_scaled_near [OF two_pow_pos, of x "k - 52"] kb(1) by linarith
  also have "\<dots> < two_pow 1001" using assms(2) two_pow_Suc [of 1000] by simp
  also have "\<dots> \<le> two_pow 1024" by (rule two_pow_mono) simp
  finally have "fl x = Fin ?r" using pos e by (simp add: fl_def Let_def)
  then show thesis using kb split that by blast
qed

text \<open>
  Rounding has a relative error of at most \<open>2^-53\<close>; below \<open>2^52\<close> it never drops below a half
  integer; and a number that fits 53 bits is kept.
\<close>

lemma fl_near:
  assumes "two_pow (- 1000) \<le> x" and "x < two_pow 1000"
  shows "\<exists>r. fl x = Fin r \<and> \<bar>r - x\<bar> \<le> x / 2 ^ 53"
proof -
  obtain k where k: "two_pow k \<le> x"
    "fl x = Fin (of_int (half_even (x / two_pow (k - 52))) * two_pow (k - 52))" "two_pow k = 2 ^ 52 * two_pow (k - 52)"
    using fl_form [OF assms] by blast
  have "two_pow (k - 52) / 2 \<le> x / 2 ^ 53" using k(1,3) by simp
  then show ?thesis using k(2) half_even_scaled_near [OF two_pow_pos, of x "k - 52"] by fastforce
qed

lemma small_range: "x < 2 ^ 52 \<Longrightarrow> x < two_pow 1000"
  using two_pow_mono [of 52 1000] by (simp add: two_pow_def)

lemma fl_between:
  assumes "two_pow (- 1000) \<le> x" and "x < 2 ^ 52"
  obtains r where "fl x = Fin r" and "\<And>j. of_int j / 2 \<le> x \<Longrightarrow> of_int j / 2 \<le> r"
    and "r \<le> x + x / 2 ^ 53"
proof -
  obtain k where k: "two_pow k \<le> x"
    "fl x = Fin (of_int (half_even (x / two_pow (k - 52))) * two_pow (k - 52))"
    using fl_form [OF assms(1) small_range [OF assms(2)]] by blast
  let ?r = "of_int (half_even (x / two_pow (k - 52))) * two_pow (k - 52)"
  obtain r where r: "fl x = Fin r" "\<bar>r - x\<bar> \<le> x / 2 ^ 53" using fl_near [OF assms(1) small_range [OF assms(2)]] by blast
  have "r \<le> x + x / 2 ^ 53" using r(2) by linarith
  then have up: "?r \<le> x + x / 2 ^ 53" using k(2) r(1) by (simp only: js_number.inject)
  have "two_pow k < two_pow 52" using k(1) assms(2) by (simp add: two_pow_def)
  then have k52: "k < 52" by (rule two_pow_less_cancel)
  have "of_int j / 2 \<le> ?r" if "of_int j / 2 \<le> x" for j
  proof -
    have "two_pow (k - 52 + int (nat (51 - k))) = 2 ^ nat (51 - k) * two_pow (k - 52)"
      by (rule two_pow_add_nat)
    moreover have "k - 52 + int (nat (51 - k)) = - 1" using k52 by simp
    ultimately have h: "1 / 2 = 2 ^ nat (51 - k) * two_pow (k - 52)" using two_pow_def [of "- 1"] by simp
    define g where "g = j * 2 ^ nat (51 - k)"
    have gj: "of_int g * two_pow (k - 52) = of_int j / 2"
      using h by (simp add: g_def mult.assoc flip: h)
    then have "of_int g \<le> x / two_pow (k - 52)" using that by (simp add: pos_le_divide_eq)
    then have "(of_int g :: rat) \<le> of_int (half_even (x / two_pow (k - 52)))" by (simp add: half_even_ge)
    then have "of_int g * two_pow (k - 52) \<le> ?r" by (intro mult_right_mono) (simp_all add: less_imp_le)
    then show ?thesis using gj by simp
  qed
  then show thesis using k(2) up that by blast
qed

lemma fl_dyadic:
  assumes "0 < n" "n < 2 ^ 53" "- 1000 \<le> e" "e \<le> 900"
  shows "fl (of_int n * two_pow e) = Fin (of_int n * two_pow e)"
proof -
  let ?x = "of_int n * two_pow e"
  have nb: "(1::rat) \<le> of_int n" "of_int n < (2::rat) ^ 53"
    using assms(1,2) by (simp, metis of_int_less_iff of_int_numeral of_int_power)
  have "?x < 2 ^ 53 * two_pow e" using nb by simp
  also have "\<dots> = two_pow (e + 53)" using two_pow_add_nat [of e 53] by simp
  finally have xb: "?x < two_pow (e + 53)" .
  have xl: "two_pow e \<le> ?x" using nb by simp
  have "two_pow (- 1000) \<le> ?x" "?x < two_pow 1000"
    using xb xl two_pow_mono [of "e + 53" 1000] two_pow_mono [of "- 1000" e] assms(3,4) by linarith+
  then obtain k where k: "two_pow k \<le> ?x"
    "fl ?x = Fin (of_int (half_even (?x / two_pow (k - 52))) * two_pow (k - 52))"
    using fl_form by blast
  have "two_pow k < two_pow (e + 53)" using k(1) xb by linarith
  then have ku: "k < e + 53" by (rule two_pow_less_cancel)
  have "two_pow (k - 52 + int (nat (e + 52 - k))) = 2 ^ nat (e + 52 - k) * two_pow (k - 52)"
    by (rule two_pow_add_nat)
  moreover have "k - 52 + int (nat (e + 52 - k)) = e" using ku by simp
  ultimately have h: "two_pow e = 2 ^ nat (e + 52 - k) * two_pow (k - 52)" by simp
  then have "?x / two_pow (k - 52) = of_int (n * 2 ^ nat (e + 52 - k))" by (simp add: field_simps)
  then have "half_even (?x / two_pow (k - 52)) = n * 2 ^ nat (e + 52 - k)" by (simp only: half_even_int)
  then show ?thesis using k(2) h by (simp add: mult.assoc)
qed

lemma two_pow_small: "0 < n \<Longrightarrow> 0 < d \<Longrightarrow> d \<le> 2 ^ 53 \<Longrightarrow> two_pow (- 1000) \<le> of_int n / of_int d"
proof -
  assume n: "0 < n" and d: "0 < d" "d \<le> 2 ^ 53"
  have "two_pow (- 1000) \<le> two_pow (- 53)" by (rule two_pow_mono) simp
  also have "\<dots> = 1 / 2 ^ 53" by (simp add: two_pow_def)
  also have "\<dots> \<le> of_int n / of_int d"
  proof (rule frac_le)
    show "of_int d \<le> (2::rat) ^ 53" using d(2) by (metis of_int_le_iff of_int_numeral of_int_power)
  qed (use n d in auto)
  finally show ?thesis .
qed

text \<open>
  So dividing integral milliseconds or counts and taking \<open>Math.floor\<close> or \<open>Math.round\<close> gives the
  exact integer quotient.
\<close>

lemma div_step: "0 < d \<Longrightarrow> n + 1 \<le> (n div d + 1) * d" for n d :: int
proof -
  assume "0 < d"
  then have "n mod d < d" by simp
  moreover have "n = n div d * d + n mod d" by simp
  ultimately have "n + 1 \<le> n div d * d + d" by linarith
  then show ?thesis by (simp add: distrib_right)
qed

lemma floor_fl_div:
  assumes "0 < d" "d \<le> 2 ^ 53" "0 \<le> n" "n < 2 ^ 52"
  shows "\<exists>r. fl (of_int n / of_int d) = Fin r \<and> \<lfloor>r\<rfloor> = n div d"
    and "\<exists>r. fl (of_int n / of_int d) = Fin r \<and> js_round r = (2 * n + d) div (2 * d)"
proof -
  have "\<exists>r. fl (of_int n / of_int d) = Fin r \<and> \<lfloor>r\<rfloor> = n div d \<and> js_round r = (2 * n + d) div (2 * d)"
  proof (cases "n = 0")
    case True
    have "(0 + d) div (2 * d) = 0" using assms by simp
    then show ?thesis using True by (simp add: fl_def js_round_def floor_eq_iff)
  next
    case False
    let ?x = "of_int n / of_int d :: rat"
    have dr: "(1::rat) \<le> of_int d" using assms(1) by simp
    have "?x \<le> of_int n" using False assms dr by (simp add: divide_le_eq mult_le_cancel_left1)
    moreover have nb: "of_int n < (2::rat) ^ 52"
      using assms(4) by (metis of_int_less_iff of_int_numeral of_int_power)
    ultimately have "?x < 2 ^ 52" by linarith
    moreover have "two_pow (- 1000) \<le> ?x" using False assms two_pow_small by simp
    ultimately obtain r where r: "fl ?x = Fin r" and lo: "\<And>j. of_int j / 2 \<le> ?x \<Longrightarrow> of_int j / 2 \<le> r"
      and up: "r \<le> ?x + ?x / 2 ^ 53"
      using fl_between by blast
    have "?x / 2 ^ 53 < 1 / (2 * of_int d)"
      using nb dr by (simp add: field_simps)
    then have up': "r < ?x + 1 / (2 * of_int d)" using up by linarith
    have f: "\<lfloor>r\<rfloor> = n div d"
    proof (rule floor_unique)
      let ?q = "n div d"
      have "?q * d \<le> n" using assms(1) by (simp add: minus_mod_eq_div_mult [symmetric])
      then have "of_int ?q * of_int d \<le> (of_int n :: rat)" by (metis of_int_le_iff of_int_mult)
      then have "of_int (2 * ?q) / 2 \<le> ?x" using dr by (simp add: pos_le_divide_eq)
      from lo [OF this] show "of_int ?q \<le> r" by simp
      have "n + 1 \<le> (?q + 1) * d" using assms(1)
        by (simp add: div_step)
      then have "of_int (n + 1) \<le> (of_int ((?q + 1) * d) :: rat)" by (simp only: of_int_le_iff)
      then have "?x + 1 / of_int d \<le> of_int ?q + 1" using dr by (simp add: field_simps)
      moreover have "1 / (2 * of_int d) \<le> 1 / (of_int d :: rat)" using dr by (simp add: field_simps)
      ultimately show "r < of_int ?q + 1" using up' by linarith
    qed
    have "js_round r = (2 * n + d) div (2 * d)"
      unfolding js_round_def
    proof (rule floor_unique)
      let ?q = "(2 * n + d) div (2 * d)"
      have "?q * (2 * d) \<le> 2 * n + d"
        by (simp only: minus_mod_eq_div_mult [symmetric]) (use assms(1) in simp)
      then have "of_int (?q * (2 * d)) \<le> (of_int (2 * n + d) :: rat)" by (simp only: of_int_le_iff)
      then have "of_int (2 * ?q - 1) / 2 \<le> ?x" using dr by (simp add: field_simps)
      from lo [OF this] show "of_int ?q \<le> r + 1 / 2" by simp
      have "2 * n + d + 1 \<le> (?q + 1) * (2 * d)" using assms(1)
        by (intro div_step) simp
      then have "of_int (2 * n + d + 1) \<le> (of_int ((?q + 1) * (2 * d)) :: rat)"
        by (simp only: of_int_le_iff)
      then have "?x + 1 / 2 + 1 / (2 * of_int d) \<le> of_int ?q + 1" using dr by (simp add: field_simps)
      then show "r + 1 / 2 < of_int ?q + 1" using up' by linarith
    qed
    then show ?thesis using r f by blast
  qed
  then show "\<exists>r. fl (of_int n / of_int d) = Fin r \<and> \<lfloor>r\<rfloor> = n div d"
    "\<exists>r. fl (of_int n / of_int d) = Fin r \<and> js_round r = (2 * n + d) div (2 * d)" by blast+
qed

lemma floor_div_eq: "0 < d \<Longrightarrow> d \<le> 2 ^ 53 \<Longrightarrow> 0 \<le> n \<Longrightarrow> n < 2 ^ 52 \<Longrightarrow> floor_div n d = n div d"
  using floor_fl_div(1) [of d n] by (auto simp: floor_div_def)

lemma round_div_eq:
  "0 < d \<Longrightarrow> d \<le> 2 ^ 53 \<Longrightarrow> 0 \<le> n \<Longrightarrow> n < 2 ^ 52 \<Longrightarrow> round_div n d = (2 * n + d) div (2 * d)"
  using floor_fl_div(2) [of d n] by (auto simp: round_div_def)

text \<open>Integers below \<open>2^52\<close> are doubles.\<close>

lemma fl_nonneg_int: "0 \<le> n \<Longrightarrow> n < 2 ^ 52 \<Longrightarrow> fl (of_int n) = Fin (of_int n)"
  using fl_dyadic [of n 0] by (cases "n = 0") (simp_all add: two_pow_def, simp add: fl_def)

lemma fl_minus: "fl (- x) = (case fl x of Fin r \<Rightarrow> Fin (- r) | PosInf \<Rightarrow> NegInf | NegInf \<Rightarrow> PosInf | NaN \<Rightarrow> NaN)"
  by (auto simp: fl_def Let_def)

lemma fl_int: "\<bar>n\<bar> < 2 ^ 52 \<Longrightarrow> fl (of_int n) = Fin (of_int n)"
  using fl_nonneg_int [of n] fl_nonneg_int [of "- n"] fl_minus [of "of_int (- n)"]
  by (cases "0 \<le> n") auto

lemma js_Number_int [simp]: "\<bar>n\<bar> < 2 ^ 52 \<Longrightarrow> js_Number n = Fin (of_int n)"
  by (simp add: js_Number_def fl_int)

lemma js_sub_int: "\<bar>a - b\<bar> < 2 ^ 52 \<Longrightarrow> js_sub (Fin (of_int a)) (Fin (of_int b)) = Fin (of_int (a - b))"
  using fl_int [of "a - b"] by simp

text \<open>Integer division by a positive constant.\<close>

lemma div_le_int: "0 < d \<Longrightarrow> 0 \<le> n \<Longrightarrow> n div d \<le> n" for n d :: int
  by (metis div_by_1 int_one_le_iff_zero_less zdiv_mono2 zero_less_one)

lemma div_less_iff_int: "0 < d \<Longrightarrow> n div d < k \<longleftrightarrow> n < k * d" for n d k :: int
proof
  assume "0 < d" "n div d < k"
  then have "(n div d + 1) * d \<le> k * d" by (intro mult_right_mono) simp_all
  then show "n < k * d" using div_step [OF \<open>0 < d\<close>, of n] by linarith
next
  assume d: "0 < d" and "n < k * d"
  then have "n div d * d < k * d" using div_mult_mod_eq [of n d] pos_mod_sign [OF d, of n] by linarith
  then show "n div d < k" using d by simp
qed

lemma div_eq_0_iff_int: "0 < d \<Longrightarrow> 0 \<le> n \<Longrightarrow> n div d = 0 \<longleftrightarrow> n < d" for n d :: int
  using div_less_iff_int [of d n 1] pos_imp_zdiv_nonneg_iff [of d n] by auto

end
