(* ===== verification/Wire.thy ===== *)
theory Wire
  imports JsNumber
begin

text \<open>
  The protobuf enums and messages of the control plane's API that the console reads and writes
  (\<open>ui/src/gen/paprika/v1/api_pb.d.ts\<close>). Enums are open on the wire: a newer server may send a
  number this console has no name for, so every enum has a last constructor for such a value.
  Messages keep the fields the modelled code reads; \<open>int64\<close> fields (\<open>bigint\<close>) and \<open>int32\<close>
  fields are \<^typ>\<open>int\<close>, \<open>double\<close> fields are \<^typ>\<open>js_number\<close>, optional fields are options.
\<close>

section \<open>Enums\<close>

datatype FleetHealthProto = FleetHealth_UNSPECIFIED | FleetHealth_HEALTHY | FleetHealth_PROGRESSING
  | FleetHealth_DEGRADED | FleetHealth_FAILED | FleetHealth_UNKNOWN | FleetHealth_MISSING
  | FleetHealth_other int

datatype FleetSyncStateProto = FleetSync_UNSPECIFIED | FleetSync_SYNCED | FleetSync_OUT_OF_SYNC
  | FleetSync_UNKNOWN | FleetSync_other int

datatype FleetSourceTypeProto = FleetSource_UNSPECIFIED | FleetSource_GIT | FleetSource_HELM
  | FleetSource_KUSTOMIZE | FleetSource_S3 | FleetSource_OCI | FleetSource_INLINE
  | FleetSource_other int

datatype FleetReleaseStateProto = FleetRelease_UNSPECIFIED | FleetRelease_PENDING
  | FleetRelease_PROMOTING | FleetRelease_CANARYING | FleetRelease_VERIFYING
  | FleetRelease_COMPLETE | FleetRelease_FAILED | FleetRelease_ROLLED_BACK
  | FleetRelease_SUPERSEDED | FleetRelease_AWAITING_APPROVAL | FleetRelease_other int

datatype FleetRolloutStateProto = FleetRollout_UNSPECIFIED | FleetRollout_PENDING
  | FleetRollout_PROGRESSING | FleetRollout_PAUSED | FleetRollout_HEALTHY
  | FleetRollout_DEGRADED | FleetRollout_FAILED | FleetRollout_ROLLED_BACK
  | FleetRollout_ABORTED | FleetRollout_other int

datatype FleetSortFieldProto = FleetSort_UNSPECIFIED | FleetSort_NAME | FleetSort_PROJECT
  | FleetSort_CLUSTER | FleetSort_STAGE | FleetSort_HEALTH | FleetSort_SYNC | FleetSort_RELEASE
  | FleetSort_ROLLOUT | FleetSort_RESOURCE_COUNT | FleetSort_LAST_TRANSITION | FleetSort_IMPACT
  | FleetSort_RELEVANCE | FleetSort_other int

datatype FleetSortDirectionProto = FleetDirection_UNSPECIFIED | FleetDirection_ASC
  | FleetDirection_DESC | FleetDirection_other int

datatype FleetGroupDimensionProto = FleetGroup_UNSPECIFIED | FleetGroup_PROJECT
  | FleetGroup_CLUSTER | FleetGroup_STAGE | FleetGroup_HEALTH | FleetGroup_other int

datatype FleetSizeMetricProto = FleetSize_UNSPECIFIED | FleetSize_RESOURCE_COUNT
  | FleetSize_REQUEST_RATE | FleetSize_other int

datatype FleetFacetDimensionProto = FleetFacet_UNSPECIFIED | FleetFacet_PROJECT
  | FleetFacet_NAMESPACE | FleetFacet_CLUSTER | FleetFacet_STAGE | FleetFacet_HEALTH
  | FleetFacet_SYNC | FleetFacet_RELEASE | FleetFacet_ROLLOUT | FleetFacet_SOURCE_TYPE
  | FleetFacet_other int

datatype FleetCapabilityProto = FleetCapability_UNSPECIFIED | FleetCapability_APPLICATION_SYNC
  | FleetCapability_RELEASE_ROLLBACK | FleetCapability_GATE_APPROVE
  | FleetCapability_PIPELINE_RETRY | FleetCapability_ROLLOUT_HOLD
  | FleetCapability_RESOURCE_PATCH | FleetCapability_DRIFT_IGNORE | FleetCapability_other int

datatype FleetConnectionStateProto = FleetConnection_UNSPECIFIED | FleetConnection_HEALTHY
  | FleetConnection_UNHEALTHY | FleetConnection_DISABLED | FleetConnection_NOT_CONFIGURED
  | FleetConnection_other int

datatype FleetMapNodeKindProto = FleetMapNodeKind_UNSPECIFIED | FleetMapNodeKind_GROUP
  | FleetMapNodeKind_APPLICATION | FleetMapNodeKind_other int

datatype DataState = DataState_UNSPECIFIED | DataState_OK | DataState_NOT_CONFIGURED
  | DataState_NOT_AVAILABLE | DataState_STALE | DataState_ERROR | DataState_FORBIDDEN
  | DataState_other int

datatype DataClass = DataClass_UNSPECIFIED | CLUSTER_INVENTORY | CLUSTER_CAPACITY
  | APPLICATION_SIGNALS | COST | SOURCE_EVENTS | ROLLOUT_HISTORY | PIPELINE_RUNS
  | COMMIT_METADATA | OWNERSHIP | DRIFT_DETAIL | LIFECYCLE | DataClass_other int

datatype CostBasis = CostBasis_UNSPECIFIED | RATE_CARD_REQUESTED | RATE_CARD_ALLOCATABLE | BILLING
  | CostBasis_other int

datatype RolloutOutcome = RolloutOutcome_UNSPECIFIED | RolloutOutcome_SUCCEEDED
  | RolloutOutcome_ABORTED | RolloutOutcome_FAILED | RolloutOutcome_ROLLED_BACK
  | RolloutOutcome_SUPERSEDED | RolloutOutcome_other int

datatype PipelineRunOutcome = PipelineRunOutcome_UNSPECIFIED | PipelineRunOutcome_SUCCEEDED
  | PipelineRunOutcome_FAILED | PipelineRunOutcome_CANCELLED | PipelineRunOutcome_other int

datatype ComputeBasis = ComputeBasis_UNSPECIFIED | ComputeBasis_REQUESTED | ComputeBasis_MEASURED
  | ComputeBasis_other int

section \<open>Messages of the fleet index\<close>

record FleetObjectKeyMessage =
  okey_namespace :: string
  okey_name :: string

record FleetFilterMessage =
  filter_projects :: "FleetObjectKeyMessage list"
  filter_namespaces :: "string list"
  filter_clusters :: "FleetObjectKeyMessage list"
  filter_stages :: "string list"
  filter_health :: "FleetHealthProto list"
  filter_sync :: "FleetSyncStateProto list"
  filter_releaseStates :: "FleetReleaseStateProto list"
  filter_rolloutStates :: "FleetRolloutStateProto list"
  filter_sourceTypes :: "FleetSourceTypeProto list"

record StageTargetSummaryMessage =
  stm_stableId :: string
  stm_stage :: string
  stm_ring :: int
  stm_cluster :: "FleetObjectKeyMessage option"
  stm_clusterLabel :: string
  stm_health :: FleetHealthProto
  stm_clusterConnection :: FleetConnectionStateProto
  stm_unmanagedInlineCluster :: bool

record ApplicationSummaryMessage =
  asm_identity :: "FleetObjectKeyMessage option"
  asm_project :: "FleetObjectKeyMessage option"
  asm_targets :: "StageTargetSummaryMessage list"
  asm_currentStage :: string
  asm_currentCluster :: "FleetObjectKeyMessage option"
  asm_currentClusterLabel :: string
  asm_sourceType :: FleetSourceTypeProto
  asm_sourceRevision :: string
  asm_health :: FleetHealthProto
  asm_sync :: FleetSyncStateProto
  asm_driftCount :: int
  asm_missingResourceCount :: int
  asm_releaseState :: FleetReleaseStateProto
  asm_rolloutState :: FleetRolloutStateProto
  asm_resourceCount :: int
  asm_repository :: "FleetObjectKeyMessage option"
  asm_repositoryConnection :: FleetConnectionStateProto
  asm_effectiveObservabilitySource :: "FleetObjectKeyMessage option"
  asm_observabilityConnection :: FleetConnectionStateProto
  asm_blockedGateCount :: int
  asm_lastTransitionUnixMs :: int
  asm_capabilities :: "FleetCapabilityProto list"
  asm_attentionLabel :: string
  asm_attentionDetail :: string
  asm_attentionResource :: string

text \<open>The two \<open>oneof\<close> keys: an object, a string, or nothing.\<close>

datatype oneof_key = KeyObject FleetObjectKeyMessage | KeyValue string | KeyUnset

record FleetFacetBucketMessage =
  fbm_dimension :: FleetFacetDimensionProto
  fbm_key :: oneof_key
  fbm_label :: string
  fbm_count :: int

record FleetHealthBucketMessage =
  hbm_health :: FleetHealthProto
  hbm_count :: int

record QueryApplicationsResponse =
  qar_applications :: "ApplicationSummaryMessage list"
  qar_total :: int
  qar_nextCursor :: string
  qar_indexGeneration :: int
  qar_facets :: "FleetFacetBucketMessage list"

datatype FleetMapNodeMessage = FleetMapNodeMessage
  (mnm_stableId: string)
  (mnm_kind: FleetMapNodeKindProto)
  (mnm_label: string)
  (mnm_application: "FleetObjectKeyMessage option")
  (mnm_groupKey: oneof_key)
  (mnm_applicationCount: int)
  (mnm_targetCount: int)
  (mnm_health: "FleetHealthBucketMessage list")
  (mnm_resourceWeight: int)
  (mnm_requestRateWeight: js_number)
  (mnm_effectiveWeight: js_number)
  (mnm_usedResourceFallback: bool)
  (mnm_children: "FleetMapNodeMessage list")

record QueryFleetMapResponse =
  qmr_roots :: "FleetMapNodeMessage list"
  qmr_total :: int
  qmr_indexGeneration :: int
  qmr_facets :: "FleetFacetBucketMessage list"

record FleetMatrixHeaderMessage =
  mhm_stableId :: string
  mhm_label :: string
  mhm_key :: oneof_key

record FleetMatrixCellMessage =
  mcm_rowId :: string
  mcm_columnId :: string
  mcm_applicationCount :: int
  mcm_targetCount :: int
  mcm_health :: "FleetHealthBucketMessage list"
  mcm_resourceWeight :: int
  mcm_requestRateWeight :: js_number
  mcm_usedResourceFallback :: bool

record QueryFleetMatrixResponse =
  qxr_rows :: "FleetMatrixHeaderMessage list"
  qxr_columns :: "FleetMatrixHeaderMessage list"
  qxr_cells :: "FleetMatrixCellMessage list"
  qxr_total :: int
  qxr_indexGeneration :: int
  qxr_facets :: "FleetFacetBucketMessage list"

record QueryApplicationsRequest =
  qaq_filter :: FleetFilterMessage
  qaq_search :: string
  qaq_sort :: FleetSortFieldProto
  qaq_direction :: FleetSortDirectionProto
  qaq_pageSize :: int
  qaq_cursor :: string

record QueryFleetMapRequest =
  qmq_filter :: FleetFilterMessage
  qmq_search :: string
  qmq_group :: FleetGroupDimensionProto
  qmq_sizeMetric :: FleetSizeMetricProto

record QueryFleetMatrixRequest =
  qxq_filter :: FleetFilterMessage
  qxq_search :: string
  qxq_rowGroup :: FleetGroupDimensionProto
  qxq_columnGroup :: FleetGroupDimensionProto
  qxq_sizeMetric :: FleetSizeMetricProto

section \<open>Data sources\<close>

record DataSourceStatus =
  dss_dataClass :: DataClass
  dss_state :: DataState
  dss_provider :: string
  dss_observedAtUnixMs :: int
  dss_stalenessBudgetMs :: int
  dss_unavailableReason :: string
  dss_retentionLimit :: int
  dss_retentionWindowMs :: int

end
