(* ===== verification/FleetClient.thy ===== *)
theory FleetClient
  imports FleetQuery Wire
begin

text \<open>
  The boundary between the console's fleet vocabulary and the protobuf messages
  (\<open>ui/src/lib/fleet-client.ts\<close>): the requests built from a query state and the views built from
  the responses. The view types are unions of string literals, so their fields are strings. A
  \<open>switch\<close> over such a union that falls off its end returns \<open>undefined\<close>: the encoders return an
  option, and a request that would contain \<open>undefined\<close> is \<^const>\<open>None\<close>. The Connect client is a
  parameter: a function from a request to an error or a response.
\<close>

section \<open>Views\<close>

record FleetStageTarget =
  target_stableId :: string
  target_stage :: string
  target_ring :: int
  target_cluster :: "NamespacedKey option"
  target_clusterLabel :: string
  target_health :: string
  target_clusterConnection :: string
  target_unmanagedInlineCluster :: bool

record FleetApplicationSummary =
  app_identity :: "NamespacedKey option"
  app_project :: "NamespacedKey option"
  app_targets :: "FleetStageTarget list"
  app_currentStage :: string
  app_currentCluster :: "NamespacedKey option"
  app_currentClusterLabel :: string
  app_sourceType :: string
  app_sourceRevision :: string
  app_health :: string
  app_sync :: string
  app_driftCount :: int
  app_missingResourceCount :: int
  app_releaseState :: string
  app_rolloutState :: string
  app_resourceCount :: int
  app_repository :: "NamespacedKey option"
  app_repositoryConnection :: string
  app_effectiveObservabilitySource :: "NamespacedKey option"
  app_observabilityConnection :: string
  app_blockedGateCount :: int
  app_lastTransitionUnixMs :: int
  app_attentionLabel :: string
  app_attentionDetail :: string
  app_attentionResource :: string
  app_capabilities :: "string list"

record FleetFacetBucket =
  facet_dimension :: string
  facet_object :: "NamespacedKey option"
  facet_value :: "string option"
  facet_label :: string
  facet_count :: int

record FleetApplicationsPage =
  page_applications :: "FleetApplicationSummary list"
  page_total :: int
  page_nextCursor :: string
  page_indexGeneration :: int
  page_facets :: "FleetFacetBucket list"

record FleetHealthBucket =
  bucket_health :: string
  bucket_count :: int

datatype FleetMapNode = FleetMapNode
  (node_stableId: string)
  (node_kind: string)
  (node_label: string)
  (node_application: "NamespacedKey option")
  (node_groupObject: "NamespacedKey option")
  (node_groupValue: "string option")
  (node_applicationCount: int)
  (node_targetCount: int)
  (node_health: "FleetHealthBucket list")
  (node_resourceWeight: int)
  (node_requestRateWeight: js_number)
  (node_effectiveWeight: js_number)
  (node_usedResourceFallback: bool)
  (node_children: "FleetMapNode list")

record FleetMapResult =
  map_roots :: "FleetMapNode list"
  map_total :: int
  map_indexGeneration :: int
  map_facets :: "FleetFacetBucket list"

record FleetMatrixHeader =
  header_stableId :: string
  header_label :: string
  header_object :: "NamespacedKey option"
  header_value :: "string option"

record FleetMatrixCell =
  cell_rowId :: string
  cell_columnId :: string
  cell_applicationCount :: int
  cell_targetCount :: int
  cell_health :: "FleetHealthBucket list"
  cell_resourceWeight :: int
  cell_requestRateWeight :: js_number
  cell_usedResourceFallback :: bool

record FleetMatrixResult =
  matrix_rows :: "FleetMatrixHeader list"
  matrix_columns :: "FleetMatrixHeader list"
  matrix_cells :: "FleetMatrixCell list"
  matrix_total :: int
  matrix_indexGeneration :: int
  matrix_facets :: "FleetFacetBucket list"

record QueryApplicationsOptions =
  options_cursor :: "string option"
  options_pageSize :: "int option"

section \<open>Requests\<close>

definition toObjectKey :: "NamespacedKey \<Rightarrow> FleetObjectKeyMessage" where
  "toObjectKey key = \<lparr>okey_namespace = key_namespace key, okey_name = key_name key\<rparr>"

definition fromObjectKey :: "FleetObjectKeyMessage option \<Rightarrow> NamespacedKey option" where
  "fromObjectKey key =
     map_option (\<lambda>k. \<lparr>key_namespace = okey_namespace k, key_name = okey_name k\<rparr>) key"

definition toHealth :: "string \<Rightarrow> FleetHealthProto option" where
  "toHealth value =
     map_of
       [(''healthy'', FleetHealth_HEALTHY),
        (''progressing'', FleetHealth_PROGRESSING),
        (''degraded'', FleetHealth_DEGRADED),
        (''failed'', FleetHealth_FAILED),
        (''unknown'', FleetHealth_UNKNOWN),
        (''missing'', FleetHealth_MISSING)] value"

definition toSync :: "string \<Rightarrow> FleetSyncStateProto option" where
  "toSync value =
     map_of
       [(''synced'', FleetSync_SYNCED),
        (''out_of_sync'', FleetSync_OUT_OF_SYNC),
        (''unknown'', FleetSync_UNKNOWN)] value"

definition toSource :: "string \<Rightarrow> FleetSourceTypeProto option" where
  "toSource value =
     map_of
       [(''git'', FleetSource_GIT),
        (''helm'', FleetSource_HELM),
        (''kustomize'', FleetSource_KUSTOMIZE),
        (''s3'', FleetSource_S3),
        (''oci'', FleetSource_OCI),
        (''inline'', FleetSource_INLINE)] value"

definition toRelease :: "string \<Rightarrow> FleetReleaseStateProto option" where
  "toRelease value =
     map_of
       [(''pending'', FleetRelease_PENDING),
        (''promoting'', FleetRelease_PROMOTING),
        (''canarying'', FleetRelease_CANARYING),
        (''verifying'', FleetRelease_VERIFYING),
        (''complete'', FleetRelease_COMPLETE),
        (''failed'', FleetRelease_FAILED),
        (''rolled_back'', FleetRelease_ROLLED_BACK),
        (''superseded'', FleetRelease_SUPERSEDED),
        (''awaiting_approval'', FleetRelease_AWAITING_APPROVAL)] value"

definition toRollout :: "string \<Rightarrow> FleetRolloutStateProto option" where
  "toRollout value =
     map_of
       [(''pending'', FleetRollout_PENDING),
        (''progressing'', FleetRollout_PROGRESSING),
        (''paused'', FleetRollout_PAUSED),
        (''healthy'', FleetRollout_HEALTHY),
        (''degraded'', FleetRollout_DEGRADED),
        (''failed'', FleetRollout_FAILED),
        (''rolled_back'', FleetRollout_ROLLED_BACK),
        (''aborted'', FleetRollout_ABORTED)] value"

definition toSortField :: "string \<Rightarrow> FleetSortFieldProto option" where
  "toSortField value =
     map_of
       [(''name'', FleetSort_NAME),
        (''project'', FleetSort_PROJECT),
        (''cluster'', FleetSort_CLUSTER),
        (''stage'', FleetSort_STAGE),
        (''health'', FleetSort_HEALTH),
        (''sync'', FleetSort_SYNC),
        (''release'', FleetSort_RELEASE),
        (''rollout'', FleetSort_ROLLOUT),
        (''resource_count'', FleetSort_RESOURCE_COUNT),
        (''last_transition'', FleetSort_LAST_TRANSITION),
        (''impact'', FleetSort_IMPACT),
        (''relevance'', FleetSort_RELEVANCE)] value"

definition toSortDirection :: "string \<Rightarrow> FleetSortDirectionProto" where
  "toSortDirection value = (if value = ''desc'' then FleetDirection_DESC else FleetDirection_ASC)"

definition toGroupDimension :: "string \<Rightarrow> FleetGroupDimensionProto option" where
  "toGroupDimension value =
     map_of
       [(''project'', FleetGroup_PROJECT),
        (''cluster'', FleetGroup_CLUSTER),
        (''stage'', FleetGroup_STAGE),
        (''health'', FleetGroup_HEALTH)] value"

definition toSizeMetric :: "string \<Rightarrow> FleetSizeMetricProto" where
  "toSizeMetric value = (if value = ''request_rate'' then FleetSize_REQUEST_RATE else FleetSize_RESOURCE_COUNT)"

definition toFleetFilter :: "FleetQueryState \<Rightarrow> FleetFilterMessage option" where
  "toFleetFilter state =
     (case (those (map toHealth (fq_health state)), those (map toSync (fq_sync state)),
            those (map toRelease (fq_release state)), those (map toRollout (fq_rollout state)),
            those (map toSource (fq_sources state))) of
        (Some health, Some sync, Some release, Some rollout, Some sources) \<Rightarrow>
          Some \<lparr>filter_projects = map toObjectKey (fq_projects state),
                filter_namespaces = fq_namespaces state,
                filter_clusters = map toObjectKey (fq_clusters state),
                filter_stages = fq_stages state,
                filter_health = health,
                filter_sync = sync,
                filter_releaseStates = release,
                filter_rolloutStates = rollout,
                filter_sourceTypes = sources\<rparr>
      | _ \<Rightarrow> None)"

definition toQueryApplicationsRequest ::
    "FleetQueryState \<Rightarrow> QueryApplicationsOptions \<Rightarrow> QueryApplicationsRequest option" where
  "toQueryApplicationsRequest state options =
     (case (toFleetFilter state, toSortField (fq_sort state)) of
        (Some filter', Some field) \<Rightarrow>
          Some \<lparr>qaq_filter = filter',
                qaq_search = fq_q state,
                qaq_sort = field,
                qaq_direction = toSortDirection (fq_direction state),
                qaq_pageSize = (case options_pageSize options of Some n \<Rightarrow> n | None \<Rightarrow> 100),
                qaq_cursor = (case options_cursor options of Some c \<Rightarrow> c | None \<Rightarrow> [])\<rparr>
      | _ \<Rightarrow> None)"

definition toQueryFleetMapRequest :: "FleetQueryState \<Rightarrow> QueryFleetMapRequest option" where
  "toQueryFleetMapRequest state =
     (case (toFleetFilter state, toGroupDimension (fq_group state)) of
        (Some filter', Some dimension) \<Rightarrow>
          Some \<lparr>qmq_filter = filter',
                qmq_search = fq_q state,
                qmq_group = dimension,
                qmq_sizeMetric = toSizeMetric (fq_size state)\<rparr>
      | _ \<Rightarrow> None)"

definition toQueryFleetMatrixRequest :: "FleetQueryState \<Rightarrow> QueryFleetMatrixRequest option" where
  "toQueryFleetMatrixRequest state =
     (case (toFleetFilter state, toGroupDimension (fq_rows state), toGroupDimension (fq_columns state)) of
        (Some filter', Some rowGroup, Some columnGroup) \<Rightarrow>
          Some \<lparr>qxq_filter = filter',
                qxq_search = fq_q state,
                qxq_rowGroup = rowGroup,
                qxq_columnGroup = columnGroup,
                qxq_sizeMetric = toSizeMetric (fq_size state)\<rparr>
      | _ \<Rightarrow> None)"

section \<open>Responses\<close>

definition fromHealth :: "FleetHealthProto \<Rightarrow> string" where
  "fromHealth value =
     (case value of
        FleetHealth_HEALTHY \<Rightarrow> ''healthy''
      | FleetHealth_PROGRESSING \<Rightarrow> ''progressing''
      | FleetHealth_DEGRADED \<Rightarrow> ''degraded''
      | FleetHealth_FAILED \<Rightarrow> ''failed''
      | FleetHealth_UNKNOWN \<Rightarrow> ''unknown''
      | FleetHealth_MISSING \<Rightarrow> ''missing''
      | _ \<Rightarrow> ''unspecified'')"

definition fromSync :: "FleetSyncStateProto \<Rightarrow> string" where
  "fromSync value =
     (case value of
        FleetSync_SYNCED \<Rightarrow> ''synced''
      | FleetSync_OUT_OF_SYNC \<Rightarrow> ''out_of_sync''
      | FleetSync_UNKNOWN \<Rightarrow> ''unknown''
      | _ \<Rightarrow> ''unspecified'')"

definition fromSource :: "FleetSourceTypeProto \<Rightarrow> string" where
  "fromSource value =
     (case value of
        FleetSource_GIT \<Rightarrow> ''git''
      | FleetSource_HELM \<Rightarrow> ''helm''
      | FleetSource_KUSTOMIZE \<Rightarrow> ''kustomize''
      | FleetSource_S3 \<Rightarrow> ''s3''
      | FleetSource_OCI \<Rightarrow> ''oci''
      | FleetSource_INLINE \<Rightarrow> ''inline''
      | _ \<Rightarrow> ''unspecified'')"

definition fromRelease :: "FleetReleaseStateProto \<Rightarrow> string" where
  "fromRelease value =
     (case value of
        FleetRelease_PENDING \<Rightarrow> ''pending''
      | FleetRelease_PROMOTING \<Rightarrow> ''promoting''
      | FleetRelease_CANARYING \<Rightarrow> ''canarying''
      | FleetRelease_VERIFYING \<Rightarrow> ''verifying''
      | FleetRelease_COMPLETE \<Rightarrow> ''complete''
      | FleetRelease_FAILED \<Rightarrow> ''failed''
      | FleetRelease_ROLLED_BACK \<Rightarrow> ''rolled_back''
      | FleetRelease_SUPERSEDED \<Rightarrow> ''superseded''
      | FleetRelease_AWAITING_APPROVAL \<Rightarrow> ''awaiting_approval''
      | _ \<Rightarrow> ''unspecified'')"

definition fromRollout :: "FleetRolloutStateProto \<Rightarrow> string" where
  "fromRollout value =
     (case value of
        FleetRollout_PENDING \<Rightarrow> ''pending''
      | FleetRollout_PROGRESSING \<Rightarrow> ''progressing''
      | FleetRollout_PAUSED \<Rightarrow> ''paused''
      | FleetRollout_HEALTHY \<Rightarrow> ''healthy''
      | FleetRollout_DEGRADED \<Rightarrow> ''degraded''
      | FleetRollout_FAILED \<Rightarrow> ''failed''
      | FleetRollout_ROLLED_BACK \<Rightarrow> ''rolled_back''
      | FleetRollout_ABORTED \<Rightarrow> ''aborted''
      | _ \<Rightarrow> ''unspecified'')"

definition fromConnection :: "FleetConnectionStateProto \<Rightarrow> string" where
  "fromConnection value =
     (case value of
        FleetConnection_HEALTHY \<Rightarrow> ''healthy''
      | FleetConnection_UNHEALTHY \<Rightarrow> ''unhealthy''
      | FleetConnection_DISABLED \<Rightarrow> ''disabled''
      | FleetConnection_NOT_CONFIGURED \<Rightarrow> ''not_configured''
      | _ \<Rightarrow> ''unspecified'')"

definition fromCapability :: "FleetCapabilityProto \<Rightarrow> string" where
  "fromCapability value =
     (case value of
        FleetCapability_APPLICATION_SYNC \<Rightarrow> ''application_sync''
      | FleetCapability_RELEASE_ROLLBACK \<Rightarrow> ''release_rollback''
      | FleetCapability_GATE_APPROVE \<Rightarrow> ''gate_approve''
      | FleetCapability_PIPELINE_RETRY \<Rightarrow> ''pipeline_retry''
      | _ \<Rightarrow> ''unspecified'')"

definition fromFacetDimension :: "FleetFacetDimensionProto \<Rightarrow> string" where
  "fromFacetDimension value =
     (case value of
        FleetFacet_PROJECT \<Rightarrow> ''project''
      | FleetFacet_NAMESPACE \<Rightarrow> ''namespace''
      | FleetFacet_CLUSTER \<Rightarrow> ''cluster''
      | FleetFacet_STAGE \<Rightarrow> ''stage''
      | FleetFacet_HEALTH \<Rightarrow> ''health''
      | FleetFacet_SYNC \<Rightarrow> ''sync''
      | FleetFacet_RELEASE \<Rightarrow> ''release''
      | FleetFacet_ROLLOUT \<Rightarrow> ''rollout''
      | FleetFacet_SOURCE_TYPE \<Rightarrow> ''source_type''
      | _ \<Rightarrow> ''unspecified'')"

definition fromMapNodeKind :: "FleetMapNodeKindProto \<Rightarrow> string" where
  "fromMapNodeKind value =
     (case value of
        FleetMapNodeKind_GROUP \<Rightarrow> ''group''
      | FleetMapNodeKind_APPLICATION \<Rightarrow> ''application''
      | _ \<Rightarrow> ''unspecified'')"

definition fromStageTarget :: "StageTargetSummaryMessage \<Rightarrow> FleetStageTarget" where
  "fromStageTarget message =
     \<lparr>target_stableId = stm_stableId message,
      target_stage = stm_stage message,
      target_ring = stm_ring message,
      target_cluster = fromObjectKey (stm_cluster message),
      target_clusterLabel = stm_clusterLabel message,
      target_health = fromHealth (stm_health message),
      target_clusterConnection = fromConnection (stm_clusterConnection message),
      target_unmanagedInlineCluster = stm_unmanagedInlineCluster message\<rparr>"

definition fromApplicationSummary :: "ApplicationSummaryMessage \<Rightarrow> FleetApplicationSummary" where
  "fromApplicationSummary message =
     \<lparr>app_identity = fromObjectKey (asm_identity message),
      app_project = fromObjectKey (asm_project message),
      app_targets = map fromStageTarget (asm_targets message),
      app_currentStage = asm_currentStage message,
      app_currentCluster = fromObjectKey (asm_currentCluster message),
      app_currentClusterLabel = asm_currentClusterLabel message,
      app_sourceType = fromSource (asm_sourceType message),
      app_sourceRevision = asm_sourceRevision message,
      app_health = fromHealth (asm_health message),
      app_sync = fromSync (asm_sync message),
      app_driftCount = asm_driftCount message,
      app_missingResourceCount = asm_missingResourceCount message,
      app_releaseState = fromRelease (asm_releaseState message),
      app_rolloutState = fromRollout (asm_rolloutState message),
      app_resourceCount = asm_resourceCount message,
      app_repository = fromObjectKey (asm_repository message),
      app_repositoryConnection = fromConnection (asm_repositoryConnection message),
      app_effectiveObservabilitySource = fromObjectKey (asm_effectiveObservabilitySource message),
      app_observabilityConnection = fromConnection (asm_observabilityConnection message),
      app_blockedGateCount = asm_blockedGateCount message,
      app_lastTransitionUnixMs = asm_lastTransitionUnixMs message,
      app_attentionLabel = asm_attentionLabel message,
      app_attentionDetail = asm_attentionDetail message,
      app_attentionResource = asm_attentionResource message,
      app_capabilities = map fromCapability (asm_capabilities message)\<rparr>"

definition oneof_object :: "oneof_key \<Rightarrow> NamespacedKey option" where
  "oneof_object key = (case key of KeyObject k \<Rightarrow> fromObjectKey (Some k) | _ \<Rightarrow> None)"

definition oneof_value :: "oneof_key \<Rightarrow> string option" where
  "oneof_value key = (case key of KeyValue v \<Rightarrow> Some v | _ \<Rightarrow> None)"

definition fromFacetBucket :: "FleetFacetBucketMessage \<Rightarrow> FleetFacetBucket" where
  "fromFacetBucket message =
     \<lparr>facet_dimension = fromFacetDimension (fbm_dimension message),
      facet_object = oneof_object (fbm_key message),
      facet_value = oneof_value (fbm_key message),
      facet_label = fbm_label message,
      facet_count = fbm_count message\<rparr>"

definition fromHealthBucket :: "FleetHealthBucketMessage \<Rightarrow> FleetHealthBucket" where
  "fromHealthBucket message =
     \<lparr>bucket_health = fromHealth (hbm_health message), bucket_count = hbm_count message\<rparr>"

primrec fromMapNode :: "FleetMapNodeMessage \<Rightarrow> FleetMapNode" where
  "fromMapNode (FleetMapNodeMessage stableId kind label application groupKey applicationCount targetCount
       health resourceWeight requestRateWeight effectiveWeight usedResourceFallback children) =
     FleetMapNode stableId (fromMapNodeKind kind) label (fromObjectKey application)
       (oneof_object groupKey) (oneof_value groupKey) applicationCount targetCount
       (map fromHealthBucket health) resourceWeight requestRateWeight effectiveWeight
       usedResourceFallback (map fromMapNode children)"

definition fromMatrixHeader :: "FleetMatrixHeaderMessage \<Rightarrow> FleetMatrixHeader" where
  "fromMatrixHeader message =
     \<lparr>header_stableId = mhm_stableId message,
      header_label = mhm_label message,
      header_object = oneof_object (mhm_key message),
      header_value = oneof_value (mhm_key message)\<rparr>"

definition fromMatrixCell :: "FleetMatrixCellMessage \<Rightarrow> FleetMatrixCell" where
  "fromMatrixCell message =
     \<lparr>cell_rowId = mcm_rowId message,
      cell_columnId = mcm_columnId message,
      cell_applicationCount = mcm_applicationCount message,
      cell_targetCount = mcm_targetCount message,
      cell_health = map fromHealthBucket (mcm_health message),
      cell_resourceWeight = mcm_resourceWeight message,
      cell_requestRateWeight = mcm_requestRateWeight message,
      cell_usedResourceFallback = mcm_usedResourceFallback message\<rparr>"

definition fromQueryApplicationsResponse :: "QueryApplicationsResponse \<Rightarrow> FleetApplicationsPage" where
  "fromQueryApplicationsResponse response =
     \<lparr>page_applications = map fromApplicationSummary (qar_applications response),
      page_total = qar_total response,
      page_nextCursor = qar_nextCursor response,
      page_indexGeneration = qar_indexGeneration response,
      page_facets = map fromFacetBucket (qar_facets response)\<rparr>"

definition fromQueryFleetMapResponse :: "QueryFleetMapResponse \<Rightarrow> FleetMapResult" where
  "fromQueryFleetMapResponse response =
     \<lparr>map_roots = map fromMapNode (qmr_roots response),
      map_total = qmr_total response,
      map_indexGeneration = qmr_indexGeneration response,
      map_facets = map fromFacetBucket (qmr_facets response)\<rparr>"

definition fromQueryFleetMatrixResponse :: "QueryFleetMatrixResponse \<Rightarrow> FleetMatrixResult" where
  "fromQueryFleetMatrixResponse response =
     \<lparr>matrix_rows = map fromMatrixHeader (qxr_rows response),
      matrix_columns = map fromMatrixHeader (qxr_columns response),
      matrix_cells = map fromMatrixCell (qxr_cells response),
      matrix_total = qxr_total response,
      matrix_indexGeneration = qxr_indexGeneration response,
      matrix_facets = map fromFacetBucket (qxr_facets response)\<rparr>"

section \<open>Calls\<close>

text \<open>\<open>rpc\<close> is the Connect client's method; its failure is passed on.\<close>

definition queryApplications ::
    "(QueryApplicationsRequest option \<Rightarrow> 'e + QueryApplicationsResponse) \<Rightarrow> FleetQueryState \<Rightarrow>
     QueryApplicationsOptions \<Rightarrow> 'e + FleetApplicationsPage" where
  "queryApplications rpc state options =
     map_sum id fromQueryApplicationsResponse (rpc (toQueryApplicationsRequest state options))"

definition queryFleetMap ::
    "(QueryFleetMapRequest option \<Rightarrow> 'e + QueryFleetMapResponse) \<Rightarrow> FleetQueryState \<Rightarrow>
     'e + FleetMapResult" where
  "queryFleetMap rpc state = map_sum id fromQueryFleetMapResponse (rpc (toQueryFleetMapRequest state))"

definition queryFleetMatrix ::
    "(QueryFleetMatrixRequest option \<Rightarrow> 'e + QueryFleetMatrixResponse) \<Rightarrow> FleetQueryState \<Rightarrow>
     'e + FleetMatrixResult" where
  "queryFleetMatrix rpc state =
     map_sum id fromQueryFleetMatrixResponse (rpc (toQueryFleetMatrixRequest state))"

section \<open>The enum codecs\<close>

text \<open>
  What an encoder and a decoder of one enum owe: every value of the vocabulary has a code that
  decodes to it, and a code that decodes to anything but \<open>unspecified\<close> is the code of that value.
\<close>

locale enum_codec =
  fixes vocabulary :: "string list" and encode :: "string \<Rightarrow> 'p option" and decode :: "'p \<Rightarrow> string"
  assumes encode_values: "v \<in> set vocabulary \<Longrightarrow> \<exists>p. encode v = Some p \<and> decode p = v"
    and decode_known: "decode p \<noteq> ''unspecified'' \<Longrightarrow> decode p \<in> set vocabulary \<and> encode (decode p) = Some p"
    and unspecified: "''unspecified'' \<notin> set vocabulary"
begin

lemma encode_list:
  "set vs \<subseteq> set vocabulary \<Longrightarrow> \<exists>ps. those (map encode vs) = Some ps \<and> map decode ps = vs"
proof (induction vs)
  case (Cons v vs)
  obtain p where "encode v = Some p" "decode p = v" using encode_values [of v] Cons.prems by auto
  then show ?case using Cons by auto
qed simp

lemma decode_inj: "decode p = decode q \<Longrightarrow> decode p \<noteq> ''unspecified'' \<Longrightarrow> p = q"
  by (metis decode_known option.inject)

end

interpretation health_codec: enum_codec FLEET_HEALTH_VALUES toHealth fromHealth
  by unfold_locales
    (auto simp: FLEET_HEALTH_VALUES_def toHealth_def fromHealth_def split: FleetHealthProto.splits)

interpretation sync_codec: enum_codec FLEET_SYNC_VALUES toSync fromSync
  by unfold_locales
    (auto simp: FLEET_SYNC_VALUES_def toSync_def fromSync_def split: FleetSyncStateProto.splits)

interpretation source_codec: enum_codec FLEET_SOURCE_VALUES toSource fromSource
  by unfold_locales
    (auto simp: FLEET_SOURCE_VALUES_def toSource_def fromSource_def split: FleetSourceTypeProto.splits)

interpretation release_codec: enum_codec FLEET_RELEASE_VALUES toRelease fromRelease
  by unfold_locales
    (auto simp: FLEET_RELEASE_VALUES_def toRelease_def fromRelease_def split: FleetReleaseStateProto.splits)

interpretation rollout_codec: enum_codec FLEET_ROLLOUT_VALUES toRollout fromRollout
  by unfold_locales
    (auto simp: FLEET_ROLLOUT_VALUES_def toRollout_def fromRollout_def split: FleetRolloutStateProto.splits)

lemma fromObjectKey_toObjectKey [simp]: "fromObjectKey (Some (toObjectKey k)) = Some k"
  by (simp add: fromObjectKey_def toObjectKey_def)

lemma toSortField_total: "oneOf v FLEET_SORT_VALUES \<Longrightarrow> toSortField v \<noteq> None"
  by (auto simp: oneOf_def FLEET_SORT_VALUES_def toSortField_def)

lemma toGroupDimension_total: "oneOf v FLEET_GROUP_VALUES \<Longrightarrow> toGroupDimension v \<noteq> None"
  by (auto simp: oneOf_def FLEET_GROUP_VALUES_def toGroupDimension_def)

lemma toSortField_inj: "toSortField v = Some p \<Longrightarrow> toSortField w = Some p \<Longrightarrow> v = w"
  by (auto simp: toSortField_def split: if_splits)

lemma toGroupDimension_inj: "toGroupDimension v = Some p \<Longrightarrow> toGroupDimension w = Some p \<Longrightarrow> v = w"
  by (auto simp: toGroupDimension_def split: if_splits)

lemma canonical_enums_subset: "canonical_enums allowed vs \<Longrightarrow> set vs \<subseteq> set allowed"
  by (auto simp: canonical_enums_def list_all_iff oneOf_def)

text \<open>What the filter message says, read back with the decoders.\<close>

definition filter_decodes :: "FleetFilterMessage \<Rightarrow> FleetQueryState \<Rightarrow> bool" where
  "filter_decodes f s \<longleftrightarrow>
     map (\<lambda>k. fromObjectKey (Some k)) (filter_projects f) = map Some (fq_projects s) \<and>
     map (\<lambda>k. fromObjectKey (Some k)) (filter_clusters f) = map Some (fq_clusters s) \<and>
     filter_namespaces f = fq_namespaces s \<and> filter_stages f = fq_stages s \<and>
     map fromHealth (filter_health f) = fq_health s \<and> map fromSync (filter_sync f) = fq_sync s \<and>
     map fromRelease (filter_releaseStates f) = fq_release s \<and>
     map fromRollout (filter_rolloutStates f) = fq_rollout s \<and>
     map fromSource (filter_sourceTypes f) = fq_sources s"

lemma toFleetFilter_decodes:
  assumes "canonical_state s"
  shows "\<exists>f. toFleetFilter s = Some f \<and> filter_decodes f s"
proof -
  have c: "canonical_enums FLEET_HEALTH_VALUES (fq_health s)" "canonical_enums FLEET_SYNC_VALUES (fq_sync s)"
    "canonical_enums FLEET_RELEASE_VALUES (fq_release s)" "canonical_enums FLEET_ROLLOUT_VALUES (fq_rollout s)"
    "canonical_enums FLEET_SOURCE_VALUES (fq_sources s)"
    using assms by (simp_all add: canonical_state_def)
  obtain h where h: "those (map toHealth (fq_health s)) = Some h" "map fromHealth h = fq_health s"
    using health_codec.encode_list [OF canonical_enums_subset [OF c(1)]] by blast
  obtain y where y: "those (map toSync (fq_sync s)) = Some y" "map fromSync y = fq_sync s"
    using sync_codec.encode_list [OF canonical_enums_subset [OF c(2)]] by blast
  obtain r where r: "those (map toRelease (fq_release s)) = Some r" "map fromRelease r = fq_release s"
    using release_codec.encode_list [OF canonical_enums_subset [OF c(3)]] by blast
  obtain o' where o: "those (map toRollout (fq_rollout s)) = Some o'" "map fromRollout o' = fq_rollout s"
    using rollout_codec.encode_list [OF canonical_enums_subset [OF c(4)]] by blast
  obtain t where t: "those (map toSource (fq_sources s)) = Some t" "map fromSource t = fq_sources s"
    using source_codec.encode_list [OF canonical_enums_subset [OF c(5)]] by blast
  show ?thesis
    unfolding toFleetFilter_def h(1) y(1) r(1) o(1) t(1)
    by (simp add: filter_decodes_def h(2) y(2) r(2) o(2) t(2))
qed

text \<open>
  C37: every query parsed from a URL becomes the three requests, none of which contains an
  \<open>undefined\<close> enum, and the filter of each request decodes to exactly the state's filters.
\<close>

theorem parsed_query_requests:
  "let s = parsed_state (parseFleetQuery u input) in
   (\<exists>q. toQueryApplicationsRequest s options = Some q \<and> filter_decodes (qaq_filter q) s \<and>
        qaq_search q = fq_q s) \<and>
   (\<exists>q. toQueryFleetMapRequest s = Some q \<and> filter_decodes (qmq_filter q) s \<and> qmq_search q = fq_q s) \<and>
   (\<exists>q. toQueryFleetMatrixRequest s = Some q \<and> filter_decodes (qxq_filter q) s \<and> qxq_search q = fq_q s)"
proof -
  let ?s = "parsed_state (parseFleetQuery u input)"
  have c: "canonical_state ?s" by (rule parseFleetQuery_canonical)
  obtain f where f: "toFleetFilter ?s = Some f" "filter_decodes f ?s"
    using toFleetFilter_decodes [OF c] by blast
  have "oneOf (fq_sort ?s) FLEET_SORT_VALUES" "oneOf (fq_group ?s) FLEET_GROUP_VALUES"
    "oneOf (fq_rows ?s) FLEET_GROUP_VALUES" "oneOf (fq_columns ?s) FLEET_GROUP_VALUES"
    using c by (simp_all add: canonical_state_def)
  then obtain a b d e where "toSortField (fq_sort ?s) = Some a" "toGroupDimension (fq_group ?s) = Some b"
    "toGroupDimension (fq_rows ?s) = Some d" "toGroupDimension (fq_columns ?s) = Some e"
    using toSortField_total toGroupDimension_total by (metis option.exhaust)
  then show ?thesis
    using f by (simp add: Let_def toQueryApplicationsRequest_def toQueryFleetMapRequest_def
        toQueryFleetMatrixRequest_def)
qed

lemma filter_decodes_unique:
  assumes "filter_decodes f s" "filter_decodes f t"
  shows "fq_projects s = fq_projects t \<and> fq_clusters s = fq_clusters t \<and> fq_stages s = fq_stages t \<and>
    fq_namespaces s = fq_namespaces t \<and> fq_health s = fq_health t \<and> fq_sync s = fq_sync t \<and>
    fq_release s = fq_release t \<and> fq_rollout s = fq_rollout t \<and> fq_sources s = fq_sources t"
  using assms by (auto simp: filter_decodes_def dest: map_injective)

text \<open>
  Two canonical states send the same applications request, at the same cursor and page size,
  only when they agree on every filter, on the search text, the sort field and the direction: no
  filter is lost on the way to the server.
\<close>

theorem request_determines_query:
  assumes "canonical_state s" "canonical_state t"
    and "toQueryApplicationsRequest s options = toQueryApplicationsRequest t options"
  shows "fq_projects s = fq_projects t \<and> fq_clusters s = fq_clusters t \<and> fq_stages s = fq_stages t \<and>
    fq_namespaces s = fq_namespaces t \<and> fq_health s = fq_health t \<and> fq_sync s = fq_sync t \<and>
    fq_release s = fq_release t \<and> fq_rollout s = fq_rollout t \<and> fq_sources s = fq_sources t \<and>
    fq_q s = fq_q t \<and> fq_sort s = fq_sort t \<and> fq_direction s = fq_direction t"
proof -
  obtain f where f: "toFleetFilter s = Some f" "filter_decodes f s" using toFleetFilter_decodes assms(1) by blast
  obtain g where g: "toFleetFilter t = Some g" "filter_decodes g t" using toFleetFilter_decodes assms(2) by blast
  have os: "oneOf (fq_sort s) FLEET_SORT_VALUES" "oneOf (fq_sort t) FLEET_SORT_VALUES"
    and od: "oneOf (fq_direction s) FLEET_DIRECTION_VALUES" "oneOf (fq_direction t) FLEET_DIRECTION_VALUES"
    using assms by (simp_all add: canonical_state_def)
  obtain a b where ab: "toSortField (fq_sort s) = Some a" "toSortField (fq_sort t) = Some b"
    using os toSortField_total by blast
  have eq: "f = g" "fq_q s = fq_q t" "a = b" "toSortDirection (fq_direction s) = toSortDirection (fq_direction t)"
    using assms(3) f g ab by (auto simp: toQueryApplicationsRequest_def)
  have "fq_direction s = fq_direction t"
    using od eq(4) by (auto simp: oneOf_def FLEET_DIRECTION_VALUES_def toSortDirection_def split: if_splits)
  then show ?thesis using eq ab f(2) g(2) filter_decodes_unique toSortField_inj by blast
qed

theorem request_determines_query_witness:
  "canonical_state DEFAULT_FLEET_QUERY \<and>
   fq_sort DEFAULT_FLEET_QUERY = fq_sort (DEFAULT_FLEET_QUERY\<lparr>fq_zoom := ''project:payments''\<rparr>)"
  using request_determines_query [of DEFAULT_FLEET_QUERY "DEFAULT_FLEET_QUERY\<lparr>fq_zoom := ''project:payments''\<rparr>"
      "\<lparr>options_cursor = None, options_pageSize = None\<rparr>"]
  by (simp add: canonical_state_def DEFAULT_FLEET_QUERY_def canonical_keys_def canonical_strings_def
      canonical_enums_def oneOf_def fleet_values trim_def js_space_def toQueryApplicationsRequest_def
      toFleetFilter_def)

text \<open>
  the decoder of capabilities names exactly the first four of the seven capabilities of the
  protocol; holding a rollout, patching a resource and ignoring a drift all decode to
  \<open>unspecified\<close>, as does every code the protocol does not have.
\<close>

theorem fromCapability_exact:
  "fromCapability c \<noteq> ''unspecified'' \<longleftrightarrow>
     c \<in> {FleetCapability_APPLICATION_SYNC, FleetCapability_RELEASE_ROLLBACK,
          FleetCapability_GATE_APPROVE, FleetCapability_PIPELINE_RETRY}"
  by (cases c) (simp_all add: fromCapability_def)

section \<open>The map tree\<close>

primrec message_ids :: "FleetMapNodeMessage \<Rightarrow> string list" where
  "message_ids (FleetMapNodeMessage stableId kind label application groupKey applicationCount targetCount
       health resourceWeight requestRateWeight effectiveWeight usedResourceFallback children) =
     stableId # concat (map message_ids children)"

primrec node_ids :: "FleetMapNode \<Rightarrow> string list" where
  "node_ids (FleetMapNode stableId kind label application groupObject groupValue applicationCount targetCount
       health resourceWeight requestRateWeight effectiveWeight usedResourceFallback children) =
     stableId # concat (map node_ids children)"

lemma node_ids_fromMapNode: "node_ids (fromMapNode m) = message_ids m"
proof (induction m)
  case (FleetMapNodeMessage a b c d e f g h i j k l children)
  then have "map (node_ids \<circ> fromMapNode) children = map message_ids children"
    by (intro map_cong) simp_all
  then show ?case by (simp del: map_eq_conv)
qed

end
