(* ===== verification/FleetPages.thy ===== *)
theory FleetPages
  imports FleetClient
begin

text \<open>
  Cursor pages of the application list (\<open>ui/src/lib/fleet-pages.ts\<close>): merging the pages read so
  far into one list without repeated applications, and the page loader that restarts from the first
  page when the server rejects a cursor. The loader is an \<open>async\<close> closure over the set of cursors
  it has already recovered; a call is a control point that each settled promise moves on, and any
  number of calls may be in flight over the same set. \<open>fetchPage\<close> and \<open>resetFleetPages\<close> are
  supplied by the caller, so what they settle with is an input of the step.
\<close>

section \<open>Errors of a call\<close>

datatype Code = Code_InvalidArgument | Code_Unauthenticated | Code_PermissionDenied
  | Code_Unavailable | Code_Canceled | Code_other int

datatype call_error = ConnectError Code | OtherError string

section \<open>Merging pages\<close>

text \<open>The \<open>Set\<close> key \<open>JSON.stringify([namespace, name])\<close> is the pair.\<close>

fun merge_applications ::
    "FleetApplicationSummary list \<Rightarrow> FleetApplicationSummary list \<times> (string \<times> string) list \<Rightarrow>
     FleetApplicationSummary list \<times> (string \<times> string) list" where
  "merge_applications [] acc = acc"
| "merge_applications (application # rest) (applications, seenIdentities) =
     (case app_identity application of
        None \<Rightarrow> merge_applications rest (applications @ [application], seenIdentities)
      | Some identity \<Rightarrow>
          let key = (key_namespace identity, key_name identity) in
          if key \<in> set seenIdentities then merge_applications rest (applications, seenIdentities)
          else merge_applications rest (applications @ [application], js_set_add seenIdentities key))"

definition mergeFleetApplicationPages :: "FleetApplicationsPage list \<Rightarrow> FleetApplicationSummary list" where
  "mergeFleetApplicationPages pages =
     fst (foldl (\<lambda>acc page. merge_applications (page_applications page) acc) ([], []) pages)"

section \<open>The page loader\<close>

datatype 'p loader_point =
    Fetching string
  | Resetting string
  | Refetching
  | Returned 'p
  | Threw call_error

datatype 'p settled = PageResolved 'p | PageRejected call_error | ResetResolved | ResetRejected call_error

definition loader_call :: "string option \<Rightarrow> 'p loader_point" where
  "loader_call cursor = Fetching (case cursor of Some c \<Rightarrow> c | None \<Rightarrow> [])"

definition canRecover :: "string \<Rightarrow> call_error \<Rightarrow> string list \<Rightarrow> bool" where
  "canRecover cursor error recoveredCursors \<longleftrightarrow>
     0 < length cursor \<and> error = ConnectError Code_InvalidArgument \<and> cursor \<notin> set recoveredCursors"

text \<open>
  One resumption of a call: the control point it was at, the promise it awaited as it settled, and
  the recovered cursors before and after. A promise of the wrong kind is not awaited there.
\<close>

fun loader_resume ::
    "'p loader_point \<Rightarrow> 'p settled \<Rightarrow> string list \<Rightarrow> ('p loader_point \<times> string list) option" where
  "loader_resume (Fetching cursor) (PageResolved page) recovered =
     Some (Returned page, removeAll cursor recovered)"
| "loader_resume (Fetching cursor) (PageRejected error) recovered =
     (if canRecover cursor error recovered then Some (Resetting cursor, js_set_add recovered cursor)
      else Some (Threw error, recovered))"
| "loader_resume (Resetting cursor) ResetResolved recovered = Some (Refetching, recovered)"
| "loader_resume (Resetting cursor) (ResetRejected error) recovered =
     Some (Threw error, removeAll cursor recovered)"
| "loader_resume Refetching (PageResolved page) recovered = Some (Returned page, recovered)"
| "loader_resume Refetching (PageRejected error) recovered = Some (Threw error, recovered)"
| "loader_resume _ _ _ = None"

fun_cases loader_resume_elim: "loader_resume point s recovered = Some r"

section \<open>Merging\<close>

text \<open>The reference: the first application of every identity, and all without an identity.\<close>

fun first_of_identity :: "(string \<times> string) set \<Rightarrow> FleetApplicationSummary list \<Rightarrow> FleetApplicationSummary list" where
  "first_of_identity seen [] = []"
| "first_of_identity seen (a # as) =
     (case app_identity a of
        None \<Rightarrow> a # first_of_identity seen as
      | Some k \<Rightarrow>
          if (key_namespace k, key_name k) \<in> seen then first_of_identity seen as
          else a # first_of_identity (insert (key_namespace k, key_name k) seen) as)"

definition identity_pair :: "FleetApplicationSummary \<Rightarrow> (string \<times> string) option" where
  "identity_pair a = map_option (\<lambda>k. (key_namespace k, key_name k)) (app_identity a)"

lemma first_of_identity_Cons:
  "first_of_identity seen (a # as) =
     (case identity_pair a of
        None \<Rightarrow> a # first_of_identity seen as
      | Some k \<Rightarrow> if k \<in> seen then first_of_identity seen as else a # first_of_identity (insert k seen) as)"
  by (simp add: identity_pair_def split: option.splits)

declare first_of_identity.simps(2) [simp del]

lemma merge_applications_eq:
  "merge_applications xs (as, seen) = (bs, seen') \<Longrightarrow>
     bs = as @ first_of_identity (set seen) xs \<and> set seen' = set seen \<union> set (List.map_filter identity_pair xs)"
proof (induction xs "(as, seen)" arbitrary: as seen rule: merge_applications.induct)
  case (2 a xs as seen)
  then show ?case
    by (cases "app_identity a")
      (auto simp: first_of_identity_Cons identity_pair_def js_set_add_def Let_def List.map_filter_simps
        insert_absorb split: if_splits)
qed (simp add: List.map_filter_simps)

lemma first_of_identity_append:
  "first_of_identity seen (xs @ ys) =
     first_of_identity seen xs @ first_of_identity (seen \<union> set (List.map_filter identity_pair xs)) ys"
  by (induction xs arbitrary: seen)
    (auto simp: first_of_identity_Cons List.map_filter_simps insert_absorb Un_insert_left split: option.splits)

lemma foldl_merge_applications:
  "foldl (\<lambda>acc page. merge_applications (page_applications page) acc) (as, seen) pages = (bs, seen') \<Longrightarrow>
     bs = as @ first_of_identity (set seen) (concat (map page_applications pages))"
proof (induction pages arbitrary: as seen)
  case (Cons p pages)
  obtain cs seen1 where m: "merge_applications (page_applications p) (as, seen) = (cs, seen1)" by fastforce
  have f: "foldl (\<lambda>acc page. merge_applications (page_applications page) acc) (cs, seen1) pages = (bs, seen')"
    using Cons.prems m by simp
  show ?case using Cons.IH [OF f] merge_applications_eq [OF m] by (simp add: first_of_identity_append)
qed simp

lemma mergeFleetApplicationPages_eq:
  "mergeFleetApplicationPages pages = first_of_identity {} (concat (map page_applications pages))"
proof -
  obtain bs seen where
    f: "foldl (\<lambda>acc page. merge_applications (page_applications page) acc) ([], []) pages = (bs, seen)"
    by fastforce
  then show ?thesis using foldl_merge_applications [OF f] by (simp add: mergeFleetApplicationPages_def)
qed

lemma map_filter_first_of_identity:
  "distinct (List.map_filter identity_pair (first_of_identity seen as)) \<and>
   set (List.map_filter identity_pair (first_of_identity seen as)) =
     set (List.map_filter identity_pair as) - seen"
  by (induction as arbitrary: seen)
    (auto simp: first_of_identity_Cons List.map_filter_simps split: option.splits)

lemma filter_None_first_of_identity:
  "filter (\<lambda>a. identity_pair a = None) (first_of_identity seen as) = filter (\<lambda>a. identity_pair a = None) as"
  by (induction as arbitrary: seen) (auto simp: first_of_identity_Cons split: option.splits)

lemma subset_first_of_identity: "set (first_of_identity seen as) \<subseteq> set as"
  by (induction as arbitrary: seen) (auto simp: first_of_identity_Cons split: option.splits if_splits)

lemma first_of_identity_distinct:
  "distinct (List.map_filter identity_pair as) \<Longrightarrow>
   set (List.map_filter identity_pair as) \<inter> seen = {} \<Longrightarrow> first_of_identity seen as = as"
  by (induction as arbitrary: seen) (auto simp: first_of_identity_Cons List.map_filter_simps split: option.splits)

text \<open>
  The merged list repeats no identified application, holds every identity that occurs on some
  page, keeps all applications without an identity in order, and invents nothing; merging is the
  concatenation of the pages when no application is repeated.
\<close>

theorem merge_pages_correct:
  "let merged = mergeFleetApplicationPages pages; all = concat (map page_applications pages) in
   distinct (List.map_filter identity_pair merged) \<and>
   set (List.map_filter identity_pair merged) = set (List.map_filter identity_pair all) \<and>
   filter (\<lambda>a. identity_pair a = None) merged = filter (\<lambda>a. identity_pair a = None) all \<and>
   set merged \<subseteq> set all \<and>
   (distinct (List.map_filter identity_pair all) \<longrightarrow> merged = all)"
proof -
  let ?all = "concat (map page_applications pages)"
  show ?thesis
    unfolding Let_def mergeFleetApplicationPages_eq
    using map_filter_first_of_identity [of "{}" ?all] filter_None_first_of_identity [of "{}" ?all]
      subset_first_of_identity [of "{}" ?all] first_of_identity_distinct [of ?all "{}"]
    by (intro conjI impI) simp_all
qed

definition app_named :: "string \<Rightarrow> string \<Rightarrow> FleetApplicationSummary" where
  "app_named ns n = fromApplicationSummary \<lparr>asm_identity = Some \<lparr>okey_namespace = ns, okey_name = n\<rparr>,
     asm_project = None, asm_targets = [], asm_currentStage = [], asm_currentCluster = None,
     asm_currentClusterLabel = [], asm_sourceType = FleetSource_GIT, asm_sourceRevision = [],
     asm_health = FleetHealth_HEALTHY, asm_sync = FleetSync_SYNCED, asm_driftCount = 0,
     asm_missingResourceCount = 0, asm_releaseState = FleetRelease_COMPLETE,
     asm_rolloutState = FleetRollout_HEALTHY, asm_resourceCount = 1, asm_repository = None,
     asm_repositoryConnection = FleetConnection_HEALTHY, asm_effectiveObservabilitySource = None,
     asm_observabilityConnection = FleetConnection_HEALTHY, asm_blockedGateCount = 0,
     asm_lastTransitionUnixMs = 0, asm_capabilities = [], asm_attentionLabel = [],
     asm_attentionDetail = [], asm_attentionResource = []\<rparr>"

definition page_of :: "FleetApplicationSummary list \<Rightarrow> string \<Rightarrow> FleetApplicationsPage" where
  "page_of as cursor = \<lparr>page_applications = as, page_total = 3, page_nextCursor = cursor,
     page_indexGeneration = 7, page_facets = []\<rparr>"

lemma identity_app_named [simp]: "identity_pair (app_named ns n) = Some (ns, n)"
  by (simp add: app_named_def fromApplicationSummary_def identity_pair_def fromObjectKey_def)

lemma page_of_simps [simp]: "page_applications (page_of as c) = as" "page_nextCursor (page_of as c) = c"
  "page_indexGeneration (page_of as c) = 7" "page_total (page_of as c) = 3" "page_facets (page_of as c) = []"
  by (simp_all add: page_of_def)

theorem merge_pages_correct_witness:
  "mergeFleetApplicationPages [page_of [app_named ''a'' ''x''] ''k'', page_of [app_named ''a'' ''y''] []] =
     [app_named ''a'' ''x'', app_named ''a'' ''y'']"
  using merge_pages_correct [of "[page_of [app_named ''a'' ''x''] ''k'', page_of [app_named ''a'' ''y''] []]"]
  by (simp add: Let_def List.map_filter_simps)

section \<open>Concurrent calls of one loader\<close>

text \<open>
  All calls made of one loader so far, and its recovered cursors. A step starts a call or settles
  the promise one of the calls awaits; its label is what happened to which cursor.
\<close>

record 'p loader_state =
  calls :: "'p loader_point list"
  recoveredCursors :: "string list"

datatype loader_event = Called string | Recovered string | Cleared string | Moved

definition loader_init :: "'p loader_state" where
  "loader_init = \<lparr>calls = [], recoveredCursors = []\<rparr>"

definition event_of :: "'p loader_point \<Rightarrow> 'p settled \<Rightarrow> string list \<Rightarrow> loader_event" where
  "event_of point s recovered =
     (case (point, s) of
        (Fetching c, PageResolved _) \<Rightarrow> Cleared c
      | (Fetching c, PageRejected e) \<Rightarrow> if canRecover c e recovered then Recovered c else Moved
      | (Resetting c, ResetRejected _) \<Rightarrow> Cleared c
      | _ \<Rightarrow> Moved)"

inductive loader_step :: "'p loader_state \<Rightarrow> loader_event \<Rightarrow> 'p loader_state \<Rightarrow> bool" where
  call: "loader_step st (Called c) (st\<lparr>calls := calls st @ [loader_call (Some c)]\<rparr>)"
| resume: "i < length (calls st) \<Longrightarrow>
     loader_resume (calls st ! i) s (recoveredCursors st) = Some (point, recovered) \<Longrightarrow>
     loader_step st (event_of (calls st ! i) s (recoveredCursors st))
       (st\<lparr>calls := (calls st)[i := point], recoveredCursors := recovered\<rparr>)"

inductive_cases loader_stepE: "loader_step st e st'"

inductive loader_run :: "loader_event list \<Rightarrow> 'p loader_state \<Rightarrow> bool" where
  start: "loader_run [] loader_init"
| more: "loader_run tr st \<Longrightarrow> loader_step st e st' \<Longrightarrow> loader_run (tr @ [e]) st'"

definition recovered_effect :: "loader_event \<Rightarrow> string list \<Rightarrow> string list \<Rightarrow> bool" where
  "recovered_effect e rs rs' \<longleftrightarrow>
     (case e of
        Recovered c \<Rightarrow> c \<noteq> [] \<and> c \<notin> set rs \<and> set rs' = insert c (set rs)
      | Cleared c \<Rightarrow> set rs' = set rs - {c}
      | _ \<Rightarrow> set rs' = set rs)"

lemma loader_resume_effect:
  "loader_resume point s rs = Some (point', rs') \<Longrightarrow> recovered_effect (event_of point s rs) rs rs'"
  by (cases point; cases s)
    (auto simp: event_of_def recovered_effect_def canRecover_def js_set_add_def split: if_splits)

lemma loader_step_effect:
  "loader_step st e st' \<Longrightarrow> recovered_effect e (recoveredCursors st) (recoveredCursors st')"
  by (erule loader_stepE) (simp_all add: loader_resume_effect, simp add: recovered_effect_def)

lemma loader_run_inv:
  "loader_run tr st \<Longrightarrow>
     count_list tr (Recovered c) \<le> count_list tr (Cleared c) + (if c \<in> set (recoveredCursors st) then 1 else 0) \<and>
     count_list tr (Recovered []) = 0"
proof (induction rule: loader_run.induct)
  case (more tr st e st')
  then show ?case using loader_step_effect [OF more(2)]
    by (cases e) (auto simp: recovered_effect_def split: if_splits)
qed (simp add: loader_init_def)

text \<open>
  C30: whatever calls are in flight and in whatever order their promises settle, the loader
  restarts for a cursor at most once more often than that cursor was cleared by a page read with it
  or by a reset that failed, so a server that keeps rejecting a cursor cannot make it reset the
  pages for ever; and it never restarts for the first page.
\<close>

theorem loader_restarts_bounded:
  assumes "loader_run tr st"
  shows "count_list tr (Recovered c) \<le> count_list tr (Cleared c) + 1 \<and>
         count_list tr (Recovered []) = 0"
  using loader_run_inv [OF assms, of c] by (auto split: if_splits)

definition rejected_twice :: "nat loader_state" where
  "rejected_twice = \<lparr>calls = [Resetting ''k'', Threw (ConnectError Code_InvalidArgument)],
     recoveredCursors = [''k'']\<rparr>"

lemma rejected_twice_run:
  "loader_run [Called ''k'', Called ''k'', Recovered ''k'', Moved] rejected_twice"
proof -
  let ?rej = "PageRejected (ConnectError Code_InvalidArgument) :: nat settled"
  let ?s1 = "\<lparr>calls = [Fetching ''k''], recoveredCursors = []\<rparr> :: nat loader_state"
  let ?s2 = "\<lparr>calls = [Fetching ''k'', Fetching ''k''], recoveredCursors = []\<rparr> :: nat loader_state"
  let ?s3 = "\<lparr>calls = [Resetting ''k'', Fetching ''k''], recoveredCursors = [''k'']\<rparr> :: nat loader_state"
  have "loader_run [Called ''k''] ?s1"
    using loader_run.more [OF loader_run.start loader_step.call [of loader_init "''k''"]]
    by (simp add: loader_init_def loader_call_def)
  then have "loader_run [Called ''k'', Called ''k''] ?s2"
    using loader_run.more [OF _ loader_step.call [of ?s1 "''k''"], of "[Called ''k'']"]
    by (simp add: loader_call_def)
  moreover have "loader_step ?s2 (Recovered ''k'') ?s3"
    using loader_step.resume [of 0 ?s2 ?rej "Resetting ''k''" "[''k'']"]
    by (simp add: canRecover_def event_of_def js_set_add_def)
  ultimately have "loader_run [Called ''k'', Called ''k'', Recovered ''k''] ?s3"
    using loader_run.more by fastforce
  moreover have "loader_step ?s3 Moved rejected_twice"
    using loader_step.resume [of 1 ?s3 ?rej "Threw (ConnectError Code_InvalidArgument)" "[''k'']"]
    by (simp add: canRecover_def event_of_def rejected_twice_def)
  ultimately show ?thesis using loader_run.more by fastforce
qed

theorem loader_restarts_bounded_witness:
  "loader_run [Called ''k'', Called ''k'', Recovered ''k'', Moved] rejected_twice \<and>
   count_list [Called ''k'', Called ''k'', Recovered ''k'', Moved] (Recovered ''k'') \<le> 1"
  using rejected_twice_run loader_restarts_bounded [OF rejected_twice_run, of "''k''"] by simp

end
