(* ===== verification/FleetData.thy ===== *)
theory FleetData
  imports FleetPages
begin

text \<open>
  The data behind the fleet views (\<open>ui/src/lib/use-fleet-data.ts\<close>): which request a query state
  makes and under which cache key, the data kept for it, and the two writers of the cache entry,
  refresh and "load more". The hook runs them concurrently over one react-query entry; the last
  section models that entry as a state machine, with an \<open>===\<close> comparison of page arrays as a
  comparison of array identities. The JSON printer of protobuf messages is a parameter.
\<close>

definition APPLICATION_PAGE_SIZE :: int where
  "APPLICATION_PAGE_SIZE = 100"

section \<open>Data\<close>

text \<open>\<open>apps_pagesRef\<close> is the identity of the array \<open>pages\<close>.\<close>

record FleetApplicationsData =
  apps_view :: string
  apps_pagesRef :: nat
  apps_pages :: "FleetApplicationsPage list"
  apps_applications :: "FleetApplicationSummary list"
  apps_facets :: "FleetFacetBucket list"
  apps_total :: int
  apps_indexGeneration :: int

datatype FleetPresentationData =
    ApplicationsData FleetApplicationsData
  | MapData FleetMapResult
  | MatrixData FleetMatrixResult

datatype FleetDataStatus = Status_loading | Status_ready | Status_empty | Status_stale
  | Status_partial | Status_unauthorized | Status_unavailable | Status_error

record ApplicationPageBase =
  base_pagesRef :: nat
  base_pages :: "FleetApplicationsPage list"
  base_generation :: int
  base_pageCount :: nat
  base_cursor :: string

definition page_at_end :: "FleetApplicationsPage list \<Rightarrow> FleetApplicationsPage option" where
  "page_at_end pages = (if pages = [] then None else Some (last pages))"

definition applicationData :: "string \<Rightarrow> nat \<Rightarrow> FleetApplicationsPage list \<Rightarrow> FleetApplicationsData" where
  "applicationData view ref pages =
     \<lparr>apps_view = view,
      apps_pagesRef = ref,
      apps_pages = pages,
      apps_applications = mergeFleetApplicationPages pages,
      apps_facets = (case pages of first # _ \<Rightarrow> page_facets first | [] \<Rightarrow> []),
      apps_total = (case page_at_end pages of Some latest \<Rightarrow> page_total latest | None \<Rightarrow> 0),
      apps_indexGeneration = (case page_at_end pages of Some latest \<Rightarrow> page_indexGeneration latest | None \<Rightarrow> 0)\<rparr>"

section \<open>Requests and keys\<close>

datatype request_kind = Kind_applications | Kind_map | Kind_matrix

record 'j ActiveRequest =
  request_kind :: request_kind
  request_view :: string
  request_state :: FleetQueryState
  request_key :: "request_kind \<times> string \<times> 'j"

definition canonicalizeState :: "(string \<Rightarrow> search_params) \<Rightarrow> FleetQueryState \<Rightarrow> FleetQueryState" where
  "canonicalizeState u state = parsed_state (parseFleetQuery u (QueryParameters (serializeFleetQuery state)))"

definition activeRequest ::
    "(QueryApplicationsRequest \<Rightarrow> 'j) \<Rightarrow> (QueryFleetMapRequest \<Rightarrow> 'j) \<Rightarrow> (QueryFleetMatrixRequest \<Rightarrow> 'j) \<Rightarrow>
     FleetQueryState \<Rightarrow> 'j ActiveRequest option" where
  "activeRequest appsJson mapJson matrixJson state =
     (if fq_view state = ''table'' \<or> fq_view state = ''queue'' then
        let requestState =
          (if fq_view state = ''queue'' then state\<lparr>fq_sort := ''impact'', fq_direction := ''desc''\<rparr> else state)
        in map_option (\<lambda>req.
             \<lparr>request_kind = Kind_applications, request_view = fq_view state, request_state = requestState,
              request_key = (Kind_applications, fq_view state, appsJson req)\<rparr>)
             (toQueryApplicationsRequest requestState
               \<lparr>options_cursor = None, options_pageSize = Some APPLICATION_PAGE_SIZE\<rparr>)
      else if fq_view state = ''treemap'' then
        map_option (\<lambda>req.
             \<lparr>request_kind = Kind_map, request_view = ''treemap'', request_state = state,
              request_key = (Kind_map, ''treemap'', mapJson req)\<rparr>)
             (toQueryFleetMapRequest state)
      else if fq_view state = ''matrix'' then
        map_option (\<lambda>req.
             \<lparr>request_kind = Kind_matrix, request_view = ''matrix'', request_state = state,
              request_key = (Kind_matrix, ''matrix'', matrixJson req)\<rparr>)
             (toQueryFleetMatrixRequest state)
      else None)"

section \<open>Refresh and load more\<close>

definition canRetainLaterPages :: "FleetApplicationsData option \<Rightarrow> FleetApplicationsPage \<Rightarrow> bool" where
  "canRetainLaterPages cached firstPage =
     (case cached of
        None \<Rightarrow> False
      | Some data \<Rightarrow>
          (case apps_pages data of
             [] \<Rightarrow> False
           | cachedFirstPage # _ \<Rightarrow>
               1 < length (apps_pages data) \<and>
               0 < length (page_nextCursor firstPage) \<and>
               apps_indexGeneration data = page_indexGeneration firstPage \<and>
               page_indexGeneration cachedFirstPage = page_indexGeneration firstPage \<and>
               apps_total data = page_total firstPage \<and>
               list_all (\<lambda>page. page_indexGeneration page = page_indexGeneration firstPage \<and>
                                page_total page = page_total firstPage) (apps_pages data) \<and>
               page_nextCursor cachedFirstPage = page_nextCursor firstPage))"

definition AbortError :: call_error where
  "AbortError = OtherError ''AbortError''"

text \<open>\<open>requireActiveLoadSignal\<close>: a signal is absent, or it is there and aborted or not.\<close>

definition requireActiveLoadSignal :: "bool option \<Rightarrow> call_error + unit" where
  "requireActiveLoadSignal aborted = (if aborted = Some False then Inr () else Inl AbortError)"

definition refreshedPages ::
    "FleetApplicationsData option \<Rightarrow> FleetApplicationsPage \<Rightarrow> FleetApplicationsPage list" where
  "refreshedPages cached firstPage =
     (if canRetainLaterPages cached firstPage
      then firstPage # drop 1 (case cached of Some data \<Rightarrow> apps_pages data | None \<Rightarrow> [])
      else [firstPage])"

text \<open>
  The signal as it is before and after the call, what the call settles with, and the identity of
  the array the result is built with.
\<close>

definition refreshApplicationData ::
    "string \<Rightarrow> nat \<Rightarrow> FleetApplicationsData option \<Rightarrow> bool \<Rightarrow> call_error + FleetApplicationsPage \<Rightarrow> bool \<Rightarrow>
     call_error + FleetApplicationsData" where
  "refreshApplicationData view ref cached abortedBefore answer abortedAfter =
     (case requireActiveLoadSignal (Some abortedBefore) of
        Inl error \<Rightarrow> Inl error
      | Inr _ \<Rightarrow>
          (case answer of
             Inl error \<Rightarrow> Inl error
           | Inr firstPage \<Rightarrow>
               (case requireActiveLoadSignal (Some abortedAfter) of
                  Inl error \<Rightarrow> Inl error
                | Inr _ \<Rightarrow> Inr (applicationData view ref (refreshedPages cached firstPage)))))"

definition applicationPageBase :: "FleetApplicationsData \<Rightarrow> ApplicationPageBase" where
  "applicationPageBase data =
     \<lparr>base_pagesRef = apps_pagesRef data,
      base_pages = apps_pages data,
      base_generation = apps_indexGeneration data,
      base_pageCount = length (apps_pages data),
      base_cursor = (case page_at_end (apps_pages data) of Some p \<Rightarrow> page_nextCursor p | None \<Rightarrow> [])\<rparr>"

definition sameApplicationPageBase :: "FleetPresentationData option \<Rightarrow> ApplicationPageBase \<Rightarrow> bool" where
  "sameApplicationPageBase data base =
     (case data of
        Some (ApplicationsData d) \<Rightarrow>
          apps_pagesRef d = base_pagesRef base \<and>
          apps_indexGeneration d = base_generation base \<and>
          length (apps_pages d) = base_pageCount base \<and>
          (case page_at_end (apps_pages d) of Some p \<Rightarrow> page_nextCursor p | None \<Rightarrow> []) = base_cursor base
      | _ \<Rightarrow> False)"

definition isEmptyApplicationReset :: "FleetPresentationData option \<Rightarrow> bool" where
  "isEmptyApplicationReset data =
     (case data of
        Some (ApplicationsData d) \<Rightarrow> length (apps_pages d) = 0 \<and> apps_indexGeneration d = 0
      | _ \<Rightarrow> False)"

text \<open>The updater that \<open>loadMore\<close> hands to \<open>setQueryData\<close>.\<close>

definition loadMore_update ::
    "string \<Rightarrow> nat \<Rightarrow> ApplicationPageBase \<Rightarrow> FleetApplicationsPage \<Rightarrow> bool \<Rightarrow> FleetPresentationData option \<Rightarrow>
     FleetPresentationData option" where
  "loadMore_update view ref base page restarted latest =
     (if restarted then
        if isEmptyApplicationReset latest then Some (ApplicationsData (applicationData view ref [page])) else latest
      else
        case latest of
          Some (ApplicationsData d) \<Rightarrow>
            if sameApplicationPageBase latest base
            then Some (ApplicationsData (applicationData view ref (apps_pages d @ [page])))
            else latest
        | _ \<Rightarrow> latest)"

section \<open>Status\<close>

record fleet_query_result =
  query_isPending :: bool
  query_isError :: bool
  query_isPlaceholderData :: bool
  query_data :: "FleetPresentationData option"
  query_error :: "call_error option"

definition errorStatus :: "call_error option \<Rightarrow> FleetDataStatus" where
  "errorStatus error =
     (case error of
        Some (ConnectError code) \<Rightarrow>
          if code = Code_Unauthenticated \<or> code = Code_PermissionDenied then Status_unauthorized
          else if code = Code_Unavailable then Status_unavailable
          else Status_error
      | _ \<Rightarrow> Status_error)"

definition isEmptyData :: "FleetPresentationData \<Rightarrow> bool" where
  "isEmptyData data =
     (case data of
        ApplicationsData d \<Rightarrow> apps_total d = 0
      | MapData r \<Rightarrow> map_total r = 0
      | MatrixData r \<Rightarrow> matrix_total r = 0)"

definition presentationFacets :: "FleetPresentationData option \<Rightarrow> FleetFacetBucket list" where
  "presentationFacets data =
     (case data of
        None \<Rightarrow> []
      | Some (ApplicationsData d) \<Rightarrow> apps_facets d
      | Some (MapData r) \<Rightarrow> map_facets r
      | Some (MatrixData r) \<Rightarrow> matrix_facets r)"

definition dataStatus ::
    "bool \<Rightarrow> bool \<Rightarrow> call_error option \<Rightarrow> FleetPresentationData option \<Rightarrow> FleetPresentationData option \<Rightarrow>
     call_error option \<Rightarrow> FleetDataStatus" where
  "dataStatus isPending isError error currentData staleData partialError =
     (if partialError \<noteq> None \<and> currentData \<noteq> None then Status_partial
      else if staleData \<noteq> None then Status_stale
      else if isPending then (if staleData \<noteq> None then Status_stale else Status_loading)
      else if isError then errorStatus error
      else (case currentData of
              None \<Rightarrow> Status_loading
            | Some data \<Rightarrow> if isEmptyData data then Status_empty else Status_ready))"

record UseFleetDataResult =
  result_status :: FleetDataStatus
  result_currentData :: "FleetPresentationData option"
  result_staleData :: "FleetPresentationData option"
  result_displayData :: "FleetPresentationData option"
  result_error :: "call_error option"
  result_applicationFacets :: "FleetFacetBucket list"
  result_isError :: bool
  result_hasMore :: bool
  result_isLoadingMore :: bool

text \<open>
  What the hook returns for the query as the cache reports it, the error of the last "load more"
  with the key it was for, and the key that is loading more.
\<close>

definition useFleetData_result ::
    "fleet_query_result \<Rightarrow> 'k \<Rightarrow> ('k \<times> call_error) option \<Rightarrow> 'k option \<Rightarrow> UseFleetDataResult" where
  "useFleetData_result query keyId loadMoreError loadingMoreKey =
     (let staleData = (if query_isPlaceholderData query then query_data query else None);
          currentData = (if query_isPlaceholderData query then None else query_data query);
          displayData = (case currentData of Some d \<Rightarrow> Some d | None \<Rightarrow> staleData);
          partialError = (case loadMoreError of
              Some (key, error) \<Rightarrow> if key = keyId then Some error else None
            | None \<Rightarrow> None);
          status = dataStatus (query_isPending query) (query_isError query) (query_error query)
            currentData staleData partialError
      in \<lparr>result_status = status,
          result_currentData = currentData,
          result_staleData = staleData,
          result_displayData = displayData,
          result_error = (case partialError of Some e \<Rightarrow> Some e | None \<Rightarrow> query_error query),
          result_applicationFacets = presentationFacets displayData,
          result_isError = (status = Status_error \<or> status = Status_unauthorized \<or> status = Status_unavailable),
          result_hasMore = (case currentData of
              Some (ApplicationsData d) \<Rightarrow>
                (case page_at_end (apps_pages d) of Some p \<Rightarrow> page_nextCursor p \<noteq> [] | None \<Rightarrow> False)
            | _ \<Rightarrow> False),
          result_isLoadingMore = (loadingMoreKey = Some keyId)\<rparr>)"

section \<open>Requests\<close>

lemma toFleetFilter_sort: "toFleetFilter (s\<lparr>fq_sort := a, fq_direction := b\<rparr>) = toFleetFilter s"
  by (simp add: toFleetFilter_def split: option.splits)

text \<open>
  Whatever state the hook is given, the state it canonicalizes has a request: one of the four
  views, with a key that names the kind of the request; the queue asks for the most urgent
  applications first whatever sort the URL carries.
\<close>

theorem active_request_total:
  "\<exists>r. activeRequest aj mj xj (canonicalizeState u s) = Some r \<and>
     request_view r = fq_view (canonicalizeState u s) \<and>
     (request_view r = ''queue'' \<longrightarrow> fq_sort (request_state r) = ''impact'' \<and> fq_direction (request_state r) = ''desc'') \<and>
     (request_view r \<noteq> ''queue'' \<longrightarrow> request_state r = canonicalizeState u s)"
proof -
  let ?s = "canonicalizeState u s"
  have c: "canonical_state ?s" unfolding canonicalizeState_def by (rule parseFleetQuery_canonical)
  obtain f where f: "toFleetFilter ?s = Some f" using toFleetFilter_decodes [OF c] by blast
  have q: "toFleetFilter (?s\<lparr>fq_sort := ''impact'', fq_direction := ''desc''\<rparr>) = Some f"
    using f by (simp add: toFleetFilter_sort)
  have o: "oneOf (fq_sort ?s) FLEET_SORT_VALUES" "oneOf (fq_group ?s) FLEET_GROUP_VALUES"
    "oneOf (fq_rows ?s) FLEET_GROUP_VALUES" "oneOf (fq_columns ?s) FLEET_GROUP_VALUES"
    "fq_view ?s \<in> {''treemap'', ''matrix'', ''table'', ''queue''}"
    using c by (auto simp: canonical_state_def oneOf_def FLEET_VIEW_VALUES_def)
  obtain a b d e where t: "toSortField (fq_sort ?s) = Some a" "toGroupDimension (fq_group ?s) = Some b"
    "toGroupDimension (fq_rows ?s) = Some d" "toGroupDimension (fq_columns ?s) = Some e"
    using o toSortField_total toGroupDimension_total by (metis option.exhaust)
  have i: "toSortField ''impact'' = Some FleetSort_IMPACT" by (simp add: toSortField_def)
  note defs = activeRequest_def toQueryApplicationsRequest_def toQueryFleetMapRequest_def
    toQueryFleetMatrixRequest_def Let_def
  consider "fq_view ?s = ''treemap''" | "fq_view ?s = ''matrix''" | "fq_view ?s = ''table''" | "fq_view ?s = ''queue''"
    using o(5) by auto
  then show ?thesis by cases (simp_all add: defs f q t i)
qed

theorem active_request_total_witness:
  "fq_sort (request_state (the (activeRequest (\<lambda>_. 0::nat) (\<lambda>_. 1) (\<lambda>_. 2)
     (canonicalizeState (\<lambda>_. []) (DEFAULT_FLEET_QUERY\<lparr>fq_view := ''queue''\<rparr>))))) = ''impact''"
proof -
  have "fq_view (canonicalizeState (\<lambda>_. []) (DEFAULT_FLEET_QUERY\<lparr>fq_view := ''queue''\<rparr>)) = ''queue''"
    by code_simp
  then show ?thesis
    using active_request_total [of "\<lambda>_. 0::nat" "\<lambda>_. 1" "\<lambda>_. 2" "\<lambda>_. []" "DEFAULT_FLEET_QUERY\<lparr>fq_view := ''queue''\<rparr>"]
    by auto
qed

lemma toQueryApplicationsRequest_filter:
  "canonical_state s \<Longrightarrow> toQueryApplicationsRequest s options = Some q \<Longrightarrow>
     filter_decodes (qaq_filter q) s \<and> qaq_search q = fq_q s"
  using toFleetFilter_decodes [of s] by (auto simp: toQueryApplicationsRequest_def split: option.splits)

section \<open>Status\<close>

text \<open>
  C32: a fleet view is \<open>ready\<close> or \<open>empty\<close> only when it shows the data of its own key with no
  error outstanding for it: never over the placeholder of the previous query, never while the first
  answer is pending and never after a failed call; an error of "load more" leaves the data in
  place as \<open>partial\<close>; placeholder data always reads \<open>stale\<close>.
\<close>

theorem fleet_status_sound:
  "let r = useFleetData_result query keyId loadMoreError loadingMoreKey in
   (result_status r = Status_ready \<or> result_status r = Status_empty \<longrightarrow>
      (\<exists>data. result_currentData r = Some data \<and> result_displayData r = Some data \<and>
        result_staleData r = None \<and> \<not> query_isPending query \<and> \<not> query_isError query \<and>
        (\<forall>error. loadMoreError \<noteq> Some (keyId, error)) \<and>
        (result_status r = Status_empty \<longleftrightarrow> isEmptyData data))) \<and>
   (result_status r = Status_partial \<longleftrightarrow>
      result_currentData r \<noteq> None \<and> (\<exists>error. loadMoreError = Some (keyId, error))) \<and>
   (result_status r = Status_stale \<longleftrightarrow> query_isPlaceholderData query \<and> query_data query \<noteq> None) \<and>
   (result_isError r \<longrightarrow> query_isError query)"
  by (auto simp: useFleetData_result_def Let_def dataStatus_def errorStatus_def
      split: option.splits if_splits prod.splits call_error.splits)

theorem fleet_status_sound_witness:
  "result_status (useFleetData_result \<lparr>query_isPending = False, query_isError = False,
     query_isPlaceholderData = False, query_data = Some (ApplicationsData (applicationData ''table'' 0 [])),
     query_error = None\<rparr> ''k'' (None :: (string \<times> call_error) option) None) = Status_empty \<and>
   isEmptyData (ApplicationsData (applicationData ''table'' 0 []))"
  using fleet_status_sound [of "\<lparr>query_isPending = False, query_isError = False,
     query_isPlaceholderData = False, query_data = Some (ApplicationsData (applicationData ''table'' 0 [])),
     query_error = None\<rparr>" "''k''" None None]
  by (simp add: useFleetData_result_def Let_def dataStatus_def isEmptyData_def applicationData_def page_at_end_def)

section \<open>The cache entry under concurrent refresh and load more\<close>

text \<open>
  \<open>served c p\<close>: the server has answered a request at cursor \<open>c\<close> with page \<open>p\<close>. The pages of a list
  are chained when the first was served at the empty cursor and every other at the cursor of the
  page before it.
\<close>

fun chained :: "(string \<Rightarrow> FleetApplicationsPage \<Rightarrow> bool) \<Rightarrow> string \<Rightarrow> FleetApplicationsPage list \<Rightarrow> bool" where
  "chained served c [] = True"
| "chained served c (p # ps) = (served c p \<and> chained served (page_nextCursor p) ps)"

text \<open>
  One cache entry. An operation of "load more" is waiting for the cancellation of a refresh in
  flight, or loads from its base with its page loader, or has ended; \<open>op_restarted\<close> is the loader's
  flag. An aborted operation is no longer current, but what it awaits may still settle. A refresh
  in flight holds the data it read when it started; a refresh that starts while an operation is
  current returns that data as it is (\<open>refresh_returns\<close>).
\<close>

datatype op_point = Op_cancelling | Op_loading ApplicationPageBase "FleetApplicationsPage loader_point" bool
  | Op_ended

record refresh_call =
  refresh_cached :: "FleetApplicationsData option"
  refresh_returns :: bool

record cache_state =
  entry :: "FleetPresentationData option"
  nextRef :: nat
  ops :: "op_point list"
  currentOp :: "nat option"
  refreshing :: "refresh_call option"
  recovered :: "string list"

definition cache_init :: cache_state where
  "cache_init = \<lparr>entry = None, nextRef = 0, ops = [], currentOp = None, refreshing = None, recovered = []\<rparr>"

definition entry_apps :: "FleetPresentationData option \<Rightarrow> FleetApplicationsData option" where
  "entry_apps e = (case e of Some (ApplicationsData d) \<Rightarrow> Some d | _ \<Rightarrow> None)"

text \<open>
  The array of a value written to the cache is new, or the one already there when the two have the
  same pages: the cache shares equal structure.
\<close>

definition ref_choice :: "cache_state \<Rightarrow> FleetApplicationsPage list \<Rightarrow> nat \<Rightarrow> bool" where
  "ref_choice st pages ref \<longleftrightarrow>
     ref = nextRef st \<or> (\<exists>d. entry_apps (entry st) = Some d \<and> apps_pages d = pages \<and> apps_pagesRef d = ref)"

fun awaited_cursor :: "FleetApplicationsPage loader_point \<Rightarrow> string" where
  "awaited_cursor (Fetching c) = c"
| "awaited_cursor _ = []"

definition end_op :: "nat \<Rightarrow> cache_state \<Rightarrow> cache_state" where
  "end_op i st = st\<lparr>ops := (ops st)[i := Op_ended],
     currentOp := (if currentOp st = Some i then None else currentOp st)\<rparr>"

text \<open>
  The steps of the cache entry that the views share. The cursors for which a loader has restarted are kept once for the entry, where
  the code keeps them for each loader that a hook makes.
\<close>

inductive cache_step ::
    "(string \<Rightarrow> FleetApplicationsPage \<Rightarrow> bool) \<Rightarrow> string \<Rightarrow> cache_state \<Rightarrow> cache_state \<Rightarrow> bool"
  for served view where
  load_more: "currentOp st = None \<Longrightarrow>
     cache_step served view st (st\<lparr>ops := ops st @ [Op_cancelling], currentOp := Some (length (ops st))\<rparr>)"
| load_base: "i < length (ops st) \<Longrightarrow> ops st ! i = Op_cancelling \<Longrightarrow> currentOp st = Some i \<Longrightarrow>
     entry_apps (entry st) = Some d \<Longrightarrow> base_cursor (applicationPageBase d) \<noteq> [] \<Longrightarrow>
     cache_step served view st (st\<lparr>refreshing := None,
       ops := (ops st)[i := Op_loading (applicationPageBase d)
         (loader_call (Some (base_cursor (applicationPageBase d)))) False]\<rparr>)"
| load_nothing: "i < length (ops st) \<Longrightarrow> ops st ! i = Op_cancelling \<Longrightarrow>
     cache_step served view st (end_op i st)"
| load_page: "i < length (ops st) \<Longrightarrow> ops st ! i = Op_loading base point restarted \<Longrightarrow>
     served (awaited_cursor point) page \<Longrightarrow>
     loader_resume point (PageResolved page) (recovered st) = Some (Returned page, recovered') \<Longrightarrow>
     (\<And>d. entry_apps (entry st) = Some d \<Longrightarrow>
        ref_choice st (if restarted then [page] else apps_pages d @ [page]) ref) \<Longrightarrow>
     cache_step served view st (end_op i (st\<lparr>entry := loadMore_update view ref base page restarted (entry st),
       nextRef := Suc (nextRef st), recovered := recovered'\<rparr>))"
| load_rejected: "i < length (ops st) \<Longrightarrow> ops st ! i = Op_loading base point restarted \<Longrightarrow>
     loader_resume point (PageRejected error) (recovered st) = Some (Threw error, recovered') \<Longrightarrow>
     cache_step served view st (end_op i (st\<lparr>recovered := recovered'\<rparr>))"
| load_recovers: "i < length (ops st) \<Longrightarrow> ops st ! i = Op_loading base point restarted \<Longrightarrow>
     loader_resume point (PageRejected error) (recovered st) = Some (Resetting c, recovered') \<Longrightarrow>
     cache_step served view st (st\<lparr>ops := (ops st)[i := Op_loading base (Resetting c) restarted],
       recovered := recovered'\<rparr>)"
| load_resets: "i < length (ops st) \<Longrightarrow> ops st ! i = Op_loading base (Resetting c) restarted \<Longrightarrow>
     ref_choice st [] ref \<Longrightarrow>
     cache_step served view st (st\<lparr>entry := Some (ApplicationsData (applicationData view ref [])),
       nextRef := Suc (nextRef st), ops := (ops st)[i := Op_loading base Refetching True]\<rparr>)"
| load_reset_aborted: "i < length (ops st) \<Longrightarrow> ops st ! i = Op_loading base (Resetting c) restarted \<Longrightarrow>
     currentOp st \<noteq> Some i \<Longrightarrow>
     loader_resume (Resetting c :: FleetApplicationsPage loader_point) (ResetRejected AbortError) (recovered st) = Some (point', recovered') \<Longrightarrow>
     cache_step served view st (end_op i (st\<lparr>recovered := recovered'\<rparr>))"
| abort: "cache_step served view st (st\<lparr>currentOp := None\<rparr>)"
| refresh_start: "refreshing st = None \<Longrightarrow>
     cache_step served view st (st\<lparr>refreshing := Some \<lparr>refresh_cached = entry_apps (entry st),
       refresh_returns = (currentOp st \<noteq> None \<and> entry_apps (entry st) \<noteq> None)\<rparr>\<rparr>)"
| refresh_returned: "refreshing st = Some r \<Longrightarrow> refresh_returns r \<Longrightarrow> refresh_cached r = Some d \<Longrightarrow>
     cache_step served view st (st\<lparr>entry := Some (ApplicationsData d), refreshing := None\<rparr>)"
| refresh_answered: "refreshing st = Some r \<Longrightarrow> \<not> refresh_returns r \<Longrightarrow> served [] page \<Longrightarrow>
     ref_choice st (refreshedPages (refresh_cached r) page) ref \<Longrightarrow>
     refreshApplicationData view ref (refresh_cached r) False (Inr page) False = Inr d \<Longrightarrow>
     cache_step served view st (st\<lparr>entry := Some (ApplicationsData d), nextRef := Suc (nextRef st),
       refreshing := None\<rparr>)"
| refresh_failed: "refreshing st = Some r \<Longrightarrow> cache_step served view st (st\<lparr>refreshing := None\<rparr>)"

inductive cache_run :: "(string \<Rightarrow> FleetApplicationsPage \<Rightarrow> bool) \<Rightarrow> string \<Rightarrow> cache_state \<Rightarrow> bool"
  for served view where
  start: "cache_run served view cache_init"
| step: "cache_run served view st \<Longrightarrow> cache_step served view st st' \<Longrightarrow> cache_run served view st'"

lemma chained_append:
  "chained served c (ps @ [p]) \<longleftrightarrow>
     chained served c ps \<and> served (if ps = [] then c else page_nextCursor (last ps)) p"
  by (induction ps arbitrary: c) auto

lemma chained_refreshedPages:
  assumes "served [] page" and "\<And>d. cached = Some d \<Longrightarrow> chained served [] (apps_pages d)"
  shows "chained served [] (refreshedPages cached page)"
proof (cases "canRetainLaterPages cached page")
  case True
  then obtain d p ps where "cached = Some d" "apps_pages d = p # ps" "page_nextCursor p = page_nextCursor page"
    by (auto simp: canRetainLaterPages_def split: option.splits list.splits)
  then show ?thesis using assms True by (auto simp: refreshedPages_def)
qed (simp add: refreshedPages_def assms)

text \<open>The page arrays a state knows of, with their identities.\<close>

definition data_arrays :: "FleetApplicationsData option \<Rightarrow> (nat \<times> FleetApplicationsPage list) set" where
  "data_arrays x = (\<lambda>d. (apps_pagesRef d, apps_pages d)) ` set_option x"

fun op_arrays :: "op_point \<Rightarrow> (nat \<times> FleetApplicationsPage list) set" where
  "op_arrays (Op_loading base point restarted) = {(base_pagesRef base, base_pages base)}"
| "op_arrays _ = {}"

definition known_arrays :: "cache_state \<Rightarrow> (nat \<times> FleetApplicationsPage list) set" where
  "known_arrays st = data_arrays (entry_apps (entry st)) \<union> (\<Union>o' \<in> set (ops st). op_arrays o') \<union>
     (case refreshing st of Some r \<Rightarrow> data_arrays (refresh_cached r) | None \<Rightarrow> {})"

definition arrays_ok :: "(string \<Rightarrow> FleetApplicationsPage \<Rightarrow> bool) \<Rightarrow> nat \<Rightarrow> (nat \<times> FleetApplicationsPage list) set \<Rightarrow> bool" where
  "arrays_ok served n A \<longleftrightarrow>
     (\<forall>r ps. (r, ps) \<in> A \<longrightarrow> r < n \<and> chained served [] ps) \<and>
     (\<forall>r ps ps'. (r, ps) \<in> A \<longrightarrow> (r, ps') \<in> A \<longrightarrow> ps = ps')"

lemma arrays_ok_mono: "arrays_ok served n A \<Longrightarrow> B \<subseteq> A \<Longrightarrow> n \<le> m \<Longrightarrow> arrays_ok served m B"
  unfolding arrays_ok_def by (meson order_less_le_trans subsetD)

lemma arrays_ok_insert:
  "arrays_ok served n A \<Longrightarrow> chained served [] ps \<Longrightarrow> r = n \<or> (r, ps) \<in> A \<Longrightarrow>
     arrays_ok served (Suc n) (insert (r, ps) A)"
  unfolding arrays_ok_def by (auto simp: less_Suc_eq)

text \<open>What the entry may hold: nothing, or data built from its own pages.\<close>

definition well_built :: "string \<Rightarrow> FleetApplicationsData \<Rightarrow> bool" where
  "well_built view d \<longleftrightarrow> d = applicationData view (apps_pagesRef d) (apps_pages d)"

lemma well_built_applicationData [simp]: "well_built view (applicationData view ref pages)"
  by (simp add: well_built_def applicationData_def)

lemma applicationData_simps [simp]:
  "apps_pages (applicationData view ref pages) = pages" "apps_pagesRef (applicationData view ref pages) = ref"
  by (simp_all add: applicationData_def)

definition op_ok :: "op_point \<Rightarrow> bool" where
  "op_ok o' \<longleftrightarrow>
     (case o' of
        Op_loading base point restarted \<Rightarrow>
          base_cursor base \<noteq> [] \<and> base_pages base \<noteq> [] \<and>
          base_cursor base = page_nextCursor (last (base_pages base)) \<and>
          (restarted \<longrightarrow> point = Refetching) \<and>
          (\<not> restarted \<longrightarrow> point = Fetching (base_cursor base) \<or> (\<exists>c. point = Resetting c))
      | _ \<Rightarrow> True)"

definition cache_ok :: "(string \<Rightarrow> FleetApplicationsPage \<Rightarrow> bool) \<Rightarrow> string \<Rightarrow> cache_state \<Rightarrow> bool" where
  "cache_ok served view st \<longleftrightarrow>
     arrays_ok served (nextRef st) (known_arrays st) \<and>
     pred_option (well_built view) (entry_apps (entry st)) \<and>
     (case refreshing st of Some r \<Rightarrow> pred_option (well_built view) (refresh_cached r) | None \<Rightarrow> True) \<and>
     list_all op_ok (ops st)"

lemma entry_apps_simps [simp]: "entry_apps (Some (ApplicationsData d)) = Some d" "entry_apps None = None"
  by (simp_all add: entry_apps_def)

lemma ops_update_arrays:
  "(\<Union>o' \<in> set ((ops st)[i := x]). op_arrays o') \<subseteq> (\<Union>o' \<in> set (ops st). op_arrays o') \<union> op_arrays x"
  using set_update_subset_insert [of "ops st" i x] by auto

lemma list_all_update: "list_all P xs \<Longrightarrow> P x \<Longrightarrow> list_all P (xs[i := x])"
  using set_update_subset_insert [of xs i x] by (auto simp: list_all_iff)

lemma op_ok_ended [simp]: "op_ok Op_ended" "op_ok Op_cancelling"
  by (simp_all add: op_ok_def)

lemma known_end_op: "known_arrays (end_op i st) \<subseteq> known_arrays st"
  using ops_update_arrays [of st i Op_ended] by (auto simp: known_arrays_def end_op_def)

lemma cache_ok_end_op: "cache_ok served view st \<Longrightarrow> cache_ok served view (end_op i st)"
  using known_end_op [of i st] arrays_ok_mono [of served "nextRef st" "known_arrays st"]
  by (auto simp: cache_ok_def end_op_def list_all_update)

text \<open>Writing data whose array is new or already in the entry.\<close>

lemma cache_ok_write:
  assumes ok: "cache_ok served view st" and ch: "chained served [] pages" and rc: "ref_choice st pages ref"
  shows "cache_ok served view (st\<lparr>entry := Some (ApplicationsData (applicationData view ref pages)),
    nextRef := Suc (nextRef st)\<rparr>)"
proof -
  let ?st = "st\<lparr>entry := Some (ApplicationsData (applicationData view ref pages)), nextRef := Suc (nextRef st)\<rparr>"
  have "ref = nextRef st \<or> (ref, pages) \<in> known_arrays st"
    using rc by (auto simp: ref_choice_def known_arrays_def data_arrays_def)
  then have "arrays_ok served (Suc (nextRef st)) (insert (ref, pages) (known_arrays st))"
    using ok ch by (intro arrays_ok_insert) (auto simp: cache_ok_def)
  moreover have "known_arrays ?st \<subseteq> insert (ref, pages) (known_arrays st)"
    by (auto simp: known_arrays_def data_arrays_def)
  ultimately have "arrays_ok served (Suc (nextRef st)) (known_arrays ?st)"
    by (rule arrays_ok_mono) simp
  then show ?thesis using ok by (simp add: cache_ok_def)
qed

lemma cache_ok_ops:
  assumes "cache_ok served view st" and "op_ok x" and "op_arrays x \<subseteq> known_arrays st"
  shows "cache_ok served view (st\<lparr>ops := (ops st)[i := x]\<rparr>)"
proof -
  have "known_arrays (st\<lparr>ops := (ops st)[i := x]\<rparr>) \<subseteq> known_arrays st"
    using ops_update_arrays [of st i x] assms(3) by (auto simp: known_arrays_def)
  then show ?thesis using assms arrays_ok_mono by (auto simp: cache_ok_def list_all_update)
qed

lemma cache_ok_recovered [simp]:
  "cache_ok served view (st\<lparr>recovered := x\<rparr>) = cache_ok served view st"
  "cache_ok served view (st\<lparr>currentOp := c\<rparr>) = cache_ok served view st"
  by (simp_all add: cache_ok_def known_arrays_def)

lemma cache_ok_refresh_none: "cache_ok served view st \<Longrightarrow> cache_ok served view (st\<lparr>refreshing := None\<rparr>)"
proof -
  assume ok: "cache_ok served view st"
  have "known_arrays (st\<lparr>refreshing := None\<rparr>) \<subseteq> known_arrays st" by (auto simp: known_arrays_def)
  then show ?thesis using ok arrays_ok_mono by (auto simp: cache_ok_def)
qed

lemma cache_ok_next: "cache_ok served view st \<Longrightarrow> cache_ok served view (st\<lparr>nextRef := Suc (nextRef st)\<rparr>)"
  by (auto simp: cache_ok_def known_arrays_def intro: arrays_ok_mono)

lemma op_arrays_known: "i < length (ops st) \<Longrightarrow> op_arrays (ops st ! i) \<subseteq> known_arrays st"
  by (auto simp: known_arrays_def)

lemma op_ok_nth: "cache_ok served view st \<Longrightarrow> i < length (ops st) \<Longrightarrow> op_ok (ops st ! i)"
  by (auto simp: cache_ok_def list_all_length)

text \<open>The updater of "load more" extends the very pages its cursor came from.\<close>

lemma cache_ok_load_page:
  assumes ok: "cache_ok served view st" and i: "i < length (ops st)"
    and op: "ops st ! i = Op_loading base point restarted"
    and sv: "served (awaited_cursor point) page"
    and rs: "loader_resume point (PageResolved page) r0 = Some (Returned page, r1)"
    and rc: "\<And>d. entry_apps (entry st) = Some d \<Longrightarrow>
      ref_choice st (if restarted then [page] else apps_pages d @ [page]) ref"
  shows "cache_ok served view (st\<lparr>entry := loadMore_update view ref base page restarted (entry st),
    nextRef := Suc (nextRef st)\<rparr>)"
proof -
  have b: "op_ok (Op_loading base point restarted)" using op_ok_nth [OF ok i] op by simp
  have kb: "(base_pagesRef base, base_pages base) \<in> known_arrays st"
    using op_arrays_known [OF i] op by simp
  show ?thesis
  proof (cases "loadMore_update view ref base page restarted (entry st) = entry st")
    case True
    then show ?thesis using cache_ok_next [OF ok] by simp
  next
    case False
    then obtain d where d: "entry st = Some (ApplicationsData d)"
      by (auto simp: loadMore_update_def isEmptyApplicationReset_def split: if_splits option.splits
          FleetPresentationData.splits)
    show ?thesis
    proof (cases restarted)
      case True
      then have "served [] page" using b sv by (auto simp: op_ok_def)
      then show ?thesis
        using cache_ok_write [OF ok, of "[page]" ref] rc d True False
        by (auto simp: loadMore_update_def split: if_splits)
    next
      case nr: False
      then have same: "sameApplicationPageBase (entry st) base"
        using False d by (auto simp: loadMore_update_def split: if_splits)
      have "(apps_pagesRef d, apps_pages d) \<in> known_arrays st" using d by (auto simp: known_arrays_def data_arrays_def)
      then have pages: "apps_pages d = base_pages base" and ch: "chained served [] (apps_pages d)"
        using same d kb ok by (auto simp: cache_ok_def arrays_ok_def sameApplicationPageBase_def)
      have "point = Fetching (base_cursor base)" using b nr rs by (auto simp: op_ok_def)
      then have "chained served [] (apps_pages d @ [page])"
        using sv b ch by (simp add: chained_append op_ok_def pages)
      then show ?thesis
        using cache_ok_write [OF ok, of "apps_pages d @ [page]" ref] rc [of d] d nr same
        by (simp add: loadMore_update_def)
    qed
  qed
qed

lemma applicationPageBase_ok:
  assumes "base_cursor (applicationPageBase d) \<noteq> []"
  shows "op_ok (Op_loading (applicationPageBase d) (loader_call (Some (base_cursor (applicationPageBase d)))) False)"
  using assms by (auto simp: op_ok_def applicationPageBase_def loader_call_def page_at_end_def split: if_splits)

lemma op_ok_point:
  "op_ok (Op_loading base point restarted) \<Longrightarrow> loader_resume point (PageRejected error) r = Some (Resetting c, r') \<Longrightarrow>
     op_ok (Op_loading base (Resetting c) restarted)"
  "op_ok (Op_loading base (Resetting c) restarted) \<Longrightarrow> op_ok (Op_loading base Refetching True)"
  by (auto simp: op_ok_def split: if_splits)

lemma cache_step_ok:
  assumes "cache_step served view st st'" and ok: "cache_ok served view st"
  shows "cache_ok served view st'"
  using assms(1)
proof cases
  case load_more
  have "known_arrays st' = known_arrays st" using load_more(1) by (simp add: known_arrays_def)
  then show ?thesis using ok load_more(1) by (simp add: cache_ok_def)
next
  case (load_base i d)
  let ?x = "Op_loading (applicationPageBase d) (loader_call (Some (base_cursor (applicationPageBase d)))) False"
  have "op_arrays ?x \<subseteq> known_arrays (st\<lparr>refreshing := None\<rparr>)"
    using load_base(5) by (simp add: known_arrays_def data_arrays_def applicationPageBase_def)
  then show ?thesis
    using cache_ok_ops [OF cache_ok_refresh_none [OF ok], of ?x i] applicationPageBase_ok [OF load_base(6)] load_base(1)
    by simp
next
  case (load_nothing i)
  then show ?thesis using ok by (simp add: cache_ok_end_op)
next
  case (load_page i base point restarted page recovered' ref)
  have "cache_ok served view (st\<lparr>entry := loadMore_update view ref base page restarted (entry st),
    nextRef := Suc (nextRef st)\<rparr>)"
    using load_page by (intro cache_ok_load_page [OF ok]) auto
  then have "cache_ok served view ((st\<lparr>entry := loadMore_update view ref base page restarted (entry st),
    nextRef := Suc (nextRef st)\<rparr>)\<lparr>recovered := recovered'\<rparr>)"
    by simp
  then show ?thesis using load_page(1) by (auto intro: cache_ok_end_op)
next
  case (load_rejected i base point restarted error recovered')
  then show ?thesis using ok by (simp add: cache_ok_end_op)
next
  case (load_recovers i base point restarted error c recovered')
  have "op_ok (Op_loading base (Resetting c) restarted)"
    using op_ok_nth [OF ok load_recovers(2)] load_recovers by (auto intro: op_ok_point)
  moreover have "op_arrays (Op_loading base (Resetting c) restarted) \<subseteq> known_arrays st"
    using op_arrays_known [OF load_recovers(2)] load_recovers(3) by simp
  ultimately have "cache_ok served view ((st\<lparr>ops := (ops st)[i := Op_loading base (Resetting c) restarted]\<rparr>)\<lparr>recovered := recovered'\<rparr>)"
    using cache_ok_ops [OF ok] by simp
  then show ?thesis using load_recovers(1) by simp
next
  case (load_resets i base c restarted ref)
  let ?st = "st\<lparr>entry := Some (ApplicationsData (applicationData view ref [])), nextRef := Suc (nextRef st)\<rparr>"
  have w: "cache_ok served view ?st" using load_resets(4) by (intro cache_ok_write [OF ok]) simp_all
  have "op_ok (Op_loading base Refetching True)"
    using op_ok_nth [OF ok load_resets(2)] load_resets(3) by (auto intro: op_ok_point)
  moreover have "op_arrays (Op_loading base Refetching True) \<subseteq> known_arrays ?st"
    using op_arrays_known [of i ?st] load_resets(2,3) by simp
  ultimately show ?thesis using cache_ok_ops [OF w, of "Op_loading base Refetching True" i] load_resets(1) by simp
next
  case (load_reset_aborted i base c restarted point' recovered')
  then show ?thesis using ok by (simp add: cache_ok_end_op)
next
  case abort
  then show ?thesis using ok by simp
next
  case refresh_start
  have "known_arrays st' \<subseteq> known_arrays st" using refresh_start(1) by (auto simp: known_arrays_def)
  then show ?thesis using ok refresh_start(1) arrays_ok_mono by (auto simp: cache_ok_def)
next
  case (refresh_returned r d)
  have "known_arrays st' \<subseteq> known_arrays st" using refresh_returned by (auto simp: known_arrays_def)
  then show ?thesis using ok refresh_returned arrays_ok_mono by (auto simp: cache_ok_def)
next
  case (refresh_answered r page ref d)
  have d: "d = applicationData view ref (refreshedPages (refresh_cached r) page)"
    using refresh_answered(6) by (simp add: refreshApplicationData_def requireActiveLoadSignal_def)
  have "chained served [] (apps_pages x)" if "refresh_cached r = Some x" for x
  proof -
    have "(apps_pagesRef x, apps_pages x) \<in> known_arrays st"
      using that refresh_answered(2) by (simp add: known_arrays_def data_arrays_def)
    then show ?thesis using ok unfolding cache_ok_def arrays_ok_def by blast
  qed
  then have "chained served [] (refreshedPages (refresh_cached r) page)"
    using refresh_answered(4) chained_refreshedPages [of served page "refresh_cached r"] by blast
  then have "cache_ok served view (st\<lparr>entry := Some (ApplicationsData d), nextRef := Suc (nextRef st)\<rparr>)"
    unfolding d by (rule cache_ok_write [OF ok _ refresh_answered(5)])
  then show ?thesis using cache_ok_refresh_none refresh_answered(1) by fastforce
next
  case (refresh_failed r)
  then show ?thesis using ok by (simp add: cache_ok_refresh_none)
qed

lemma cache_run_ok: "cache_run served view st \<Longrightarrow> cache_ok served view st"
proof (induction rule: cache_run.induct)
  case start
  show ?case by (simp add: cache_ok_def cache_init_def known_arrays_def data_arrays_def arrays_ok_def)
qed (simp add: cache_step_ok)

text \<open>
  C2: however refreshes, "load more" operations, their aborts and the restarts after a rejected
  cursor interleave, the pages in the cache are one unbroken walk of the cursors (each page was
  served at the cursor of the page before it, the first at the empty cursor), and the list, the
  total and the generation shown are those of exactly these pages.
\<close>

theorem cached_pages_chained:
  assumes "cache_run served view st" and "entry st = Some (ApplicationsData d)"
  shows "chained served [] (apps_pages d) \<and>
         apps_applications d = mergeFleetApplicationPages (apps_pages d) \<and>
         (apps_pages d \<noteq> [] \<longrightarrow> apps_total d = page_total (last (apps_pages d)) \<and>
            apps_indexGeneration d = page_indexGeneration (last (apps_pages d)))"
proof -
  have ok: "cache_ok served view st" by (rule cache_run_ok [OF assms(1)])
  then have "well_built view d" using assms(2) by (simp add: cache_ok_def)
  then have "d = applicationData view (apps_pagesRef d) (apps_pages d)" by (simp add: well_built_def)
  then have "apps_applications d = mergeFleetApplicationPages (apps_pages d)"
    "apps_total d = (case page_at_end (apps_pages d) of Some p \<Rightarrow> page_total p | None \<Rightarrow> 0)"
    "apps_indexGeneration d = (case page_at_end (apps_pages d) of Some p \<Rightarrow> page_indexGeneration p | None \<Rightarrow> 0)"
    unfolding applicationData_def by (metis FleetApplicationsData.select_convs)+
  moreover have "chained served [] (apps_pages d)"
    using ok assms(2) by (auto simp: cache_ok_def arrays_ok_def known_arrays_def data_arrays_def)
  ultimately show ?thesis by (auto simp: page_at_end_def)
qed

definition served_demo :: "string \<Rightarrow> FleetApplicationsPage \<Rightarrow> bool" where
  "served_demo c p \<longleftrightarrow> c = [] \<and> p = page_of [app_named ''a'' ''x''] ''k'' \<or>
     c = ''k'' \<and> p = page_of [app_named ''a'' ''y''] []"

text \<open>A run: one refresh, then one "load more".\<close>

definition demo_first :: FleetApplicationsData where
  "demo_first = applicationData ''table'' 0 [page_of [app_named ''a'' ''x''] ''k'']"

definition demo_both :: FleetApplicationsData where
  "demo_both = applicationData ''table'' 1
     [page_of [app_named ''a'' ''x''] ''k'', page_of [app_named ''a'' ''y''] []]"

definition demo_state :: cache_state where
  "demo_state = \<lparr>entry = Some (ApplicationsData demo_both), nextRef = 2, ops = [Op_ended],
     currentOp = None, refreshing = None, recovered = []\<rparr>"

lemma demo_run: "cache_run served_demo ''table'' demo_state"
proof -
  let ?p = "page_of [app_named ''a'' ''x''] ''k''" and ?q = "page_of [app_named ''a'' ''y''] []"
  let ?b = "applicationPageBase demo_first"
  let ?s1 = "cache_init\<lparr>refreshing := Some \<lparr>refresh_cached = None, refresh_returns = False\<rparr>\<rparr>"
  let ?s2 = "cache_init\<lparr>entry := Some (ApplicationsData demo_first), nextRef := 1\<rparr>"
  let ?s3 = "?s2\<lparr>ops := [Op_cancelling], currentOp := Some 0\<rparr>"
  let ?s4 = "?s3\<lparr>ops := [Op_loading ?b (Fetching ''k'') False]\<rparr>"
  have b: "base_cursor ?b = ''k''" by (simp add: applicationPageBase_def demo_first_def page_at_end_def)
  have r1: "cache_run served_demo ''table'' ?s1"
    using cache_run.step [OF cache_run.start, of served_demo "''table''"]
      cache_step.refresh_start [of cache_init served_demo "''table''"] by (simp add: cache_init_def)
  have "cache_step served_demo ''table'' ?s1 ?s2"
    using cache_step.refresh_answered [of ?s1 "\<lparr>refresh_cached = None, refresh_returns = False\<rparr>" served_demo ?p 0
        "''table''" demo_first]
    by (simp add: cache_init_def served_demo_def ref_choice_def refreshedPages_def canRetainLaterPages_def
        refreshApplicationData_def requireActiveLoadSignal_def demo_first_def)
  then have r2: "cache_run served_demo ''table'' ?s2" using r1 by (rule cache_run.step [rotated])
  have "cache_step served_demo ''table'' ?s2 ?s3"
    using cache_step.load_more [of ?s2 served_demo "''table''"] by (simp add: cache_init_def)
  then have r3: "cache_run served_demo ''table'' ?s3" using r2 by (rule cache_run.step [rotated])
  have "cache_step served_demo ''table'' ?s3 ?s4"
    using cache_step.load_base [of 0 ?s3 demo_first served_demo "''table''"] b
    by (simp add: cache_init_def loader_call_def)
  then have r4: "cache_run served_demo ''table'' ?s4" using r3 by (rule cache_run.step [rotated])
  have u: "loadMore_update ''table'' 1 ?b ?q False (Some (ApplicationsData demo_first)) = Some (ApplicationsData demo_both)"
    by (simp add: loadMore_update_def sameApplicationPageBase_def applicationPageBase_def demo_first_def demo_both_def)
  have "cache_step served_demo ''table'' ?s4 demo_state"
    using cache_step.load_page [of 0 ?s4 ?b "Fetching ''k''" False served_demo ?q "[]" 1 "''table''"] u
    by (simp add: cache_init_def served_demo_def ref_choice_def end_op_def demo_state_def numeral_2_eq_2)
  then show ?thesis using r4 by (rule cache_run.step [rotated])
qed

theorem cached_pages_chained_witness:
  "cache_run served_demo ''table'' demo_state \<and>
   chained served_demo [] [page_of [app_named ''a'' ''x''] ''k'', page_of [app_named ''a'' ''y''] []]"
  using demo_run cached_pages_chained [OF demo_run, of demo_both] by (simp add: demo_state_def demo_both_def)

end
