(* ===== verification/DataGate.thy ===== *)
theory DataGate
  imports Wire
begin

text \<open>
  The degraded-mode contract: which surfaces the console may draw for the state of the data behind
  them. \<open>ui/src/lib/data-state.ts\<close> (the capability index, the gate, the age formats), the fleet
  layer's projection of it (\<open>ui/src/components/fleet/data-sources.ts\<close>) and the clusters route's
  (\<open>ui/src/app/dashboard/clusters/data-sources.ts\<close>). The interface \<open>degraded_mode\<close> states what
  the contract asks of any three predicates "is drawn", "has numbers" and "is stale"; both gates
  are interpretations of it. The react-query cache is its result: the snapshot it holds, if any,
  and its status.
\<close>

section \<open>The capability index\<close>

type_synonym DataSourceIndex = "(DataClass, DataSourceStatus) js_map"

datatype data_sources = SourceIndex DataSourceIndex | SourceArray "DataSourceStatus list"

definition indexDataSources :: "DataSourceStatus list option \<Rightarrow> DataSourceIndex" where
  "indexDataSources sources =
     foldl (\<lambda>index source. js_map_set (dss_dataClass source) source index) []
       (case sources of Some xs \<Rightarrow> xs | None \<Rightarrow> [])"

definition findDataSource :: "data_sources option \<Rightarrow> DataClass \<Rightarrow> DataSourceStatus option" where
  "findDataSource sources dataClass =
     (case sources of
        None \<Rightarrow> None
      | Some (SourceArray xs) \<Rightarrow> List.find (\<lambda>source. dss_dataClass source = dataClass) xs
      | Some (SourceIndex index) \<Rightarrow> js_map_get index dataClass)"

definition dataStateOf :: "DataSourceIndex option \<Rightarrow> DataClass \<Rightarrow> DataState option" where
  "dataStateOf index dataClass =
     map_option dss_state (findDataSource (map_option SourceIndex index) dataClass)"

section \<open>The gate\<close>

datatype SurfaceDisposition = Surface_render | Surface_stale | Surface_unavailable | Surface_absent

record SurfaceGate =
  gate_disposition :: SurfaceDisposition
  gate_state :: DataState
  gate_reason :: string
  gate_observedAtUnixMs :: int
  gate_stalenessBudgetMs :: int

definition dispositionFor :: "DataState \<Rightarrow> SurfaceDisposition" where
  "dispositionFor state =
     (case state of
        DataState_OK \<Rightarrow> Surface_render
      | DataState_STALE \<Rightarrow> Surface_stale
      | DataState_NOT_AVAILABLE \<Rightarrow> Surface_unavailable
      | DataState_ERROR \<Rightarrow> Surface_unavailable
      | _ \<Rightarrow> Surface_absent)"

definition DISPOSITION_SEVERITY :: "SurfaceDisposition \<Rightarrow> int" where
  "DISPOSITION_SEVERITY d =
     (case d of Surface_render \<Rightarrow> 0 | Surface_stale \<Rightarrow> 1 | Surface_unavailable \<Rightarrow> 2 | Surface_absent \<Rightarrow> 3)"

definition gateFor :: "DataSourceStatus option \<Rightarrow> DataState option \<Rightarrow> SurfaceGate" where
  "gateFor source responseState =
     (let states = (case source of Some s \<Rightarrow> [dss_state s] | None \<Rightarrow> []) @
                   (case responseState of Some r \<Rightarrow> [r] | None \<Rightarrow> [])
      in case states of
           [] \<Rightarrow> \<lparr>gate_disposition = Surface_absent, gate_state = DataState_UNSPECIFIED,
                  gate_reason = [], gate_observedAtUnixMs = 0, gate_stalenessBudgetMs = 0\<rparr>
         | first # _ \<Rightarrow>
             let worst = foldl (\<lambda>worst state.
                   if DISPOSITION_SEVERITY (dispositionFor worst) < DISPOSITION_SEVERITY (dispositionFor state)
                   then state else worst) first states
             in \<lparr>gate_disposition = dispositionFor worst,
                 gate_state = worst,
                 gate_reason = (case source of Some s \<Rightarrow> dss_unavailableReason s | None \<Rightarrow> []),
                 gate_observedAtUnixMs = (case source of Some s \<Rightarrow> dss_observedAtUnixMs s | None \<Rightarrow> 0),
                 gate_stalenessBudgetMs = (case source of Some s \<Rightarrow> dss_stalenessBudgetMs s | None \<Rightarrow> 0)\<rparr>)"

definition gateForClass :: "DataSourceIndex option \<Rightarrow> DataClass \<Rightarrow> DataState option \<Rightarrow> SurfaceGate" where
  "gateForClass index dataClass responseState =
     gateFor (findDataSource (map_option SourceIndex index) dataClass) responseState"

definition surfaceExists :: "DataState option \<Rightarrow> bool" where
  "surfaceExists state \<longleftrightarrow>
     dispositionFor (case state of Some s \<Rightarrow> s | None \<Rightarrow> DataState_UNSPECIFIED) \<noteq> Surface_absent"

definition numbersAreReal :: "DataState option \<Rightarrow> bool" where
  "numbersAreReal state \<longleftrightarrow> state = Some DataState_OK \<or> state = Some DataState_STALE"

definition isStale :: "DataState option \<Rightarrow> bool" where
  "isStale state \<longleftrightarrow> state = Some DataState_STALE"

definition isUnavailable :: "DataState option \<Rightarrow> bool" where
  "isUnavailable state \<longleftrightarrow> state = Some DataState_NOT_AVAILABLE \<or> state = Some DataState_ERROR"

section \<open>The probe\<close>

record DataSourcesSnapshot =
  snapshot_index :: DataSourceIndex
  snapshot_indexGeneration :: int

text \<open>The answer of \<open>getDataSources\<close>, and the query entry the cache holds.\<close>

record DataSourcesResponse =
  response_sources :: "DataSourceStatus list"
  response_indexGeneration :: "int option"

datatype probe_query = ProbePending | ProbeError "DataSourcesSnapshot option" | ProbeSuccess DataSourcesSnapshot

record DataSourceProbe =
  probe_index :: "DataSourceIndex option"
  probe_indexGeneration :: "int option"
  probe_isLoading :: bool
  probe_isError :: bool
  probe_isSettled :: bool
  probe_reading :: "DataClass \<Rightarrow> DataSourceStatus option"
  probe_gate :: "DataClass \<Rightarrow> DataState option \<Rightarrow> SurfaceGate"

definition data_sources_queryFn :: "DataSourcesResponse \<Rightarrow> DataSourcesSnapshot" where
  "data_sources_queryFn response =
     \<lparr>snapshot_index = indexDataSources (Some (response_sources response)),
      snapshot_indexGeneration = (case response_indexGeneration response of Some g \<Rightarrow> g | None \<Rightarrow> 0)\<rparr>"

definition probe_data :: "probe_query \<Rightarrow> DataSourcesSnapshot option" where
  "probe_data query =
     (case query of ProbePending \<Rightarrow> None | ProbeError d \<Rightarrow> d | ProbeSuccess d \<Rightarrow> Some d)"

definition useDataSourceIndex :: "probe_query \<Rightarrow> DataSourceProbe" where
  "useDataSourceIndex query =
     (let index = map_option snapshot_index (probe_data query) in
      \<lparr>probe_index = index,
       probe_indexGeneration = map_option snapshot_indexGeneration (probe_data query),
       probe_isLoading = (query = ProbePending),
       probe_isError = (case query of ProbeError _ \<Rightarrow> True | _ \<Rightarrow> False),
       probe_isSettled = (case query of ProbePending \<Rightarrow> False | _ \<Rightarrow> True),
       probe_reading = (\<lambda>dataClass. findDataSource (map_option SourceIndex index) dataClass),
       probe_gate = (\<lambda>dataClass responseState. gateForClass index dataClass responseState)\<rparr>)"

section \<open>Ages\<close>

text \<open>
  \<open>formatDuration\<close> and \<open>formatAge\<close> take a \<open>bigint\<close> or a \<open>number\<close>; \<open>Number\<close> of either is a
  \<^typ>\<open>js_number\<close>. The clock reading \<open>now\<close> is \<open>Date.now()\<close>, an integral number.
\<close>

definition formatDuration :: "js_number option \<Rightarrow> string" where
  "formatDuration ms =
     (let value = (case ms of Some v \<Rightarrow> v | None \<Rightarrow> Fin 0) in
      if \<not> js_is_finite value \<or> js_le_zero value then ''0m''
      else
        let minutes = js_floor_int (js_div_const value 60000) in
        if minutes < 1 then ''<1m''
        else if minutes < 60 then int_str minutes @ ''m''
        else
          let hours = floor_div minutes 60;
              remainder = minutes mod 60
          in if hours < 24
             then if remainder \<noteq> 0 then int_str hours @ ''h '' @ int_str remainder @ ''m''
                  else int_str hours @ ''h''
             else int_str (floor_div hours 24) @ ''d'')"

definition formatAge :: "js_number option \<Rightarrow> int \<Rightarrow> string" where
  "formatAge unixMs now =
     (let pos = (case unixMs of Some v \<Rightarrow> v | None \<Rightarrow> Fin 0) in
      if pos = Fin 0 \<or> pos = NaN \<or> now = 0 then ''unknown''
      else formatDuration (Some (js_max0 (js_sub (js_Number now) pos))))"

definition formatObservedAge :: "int option \<Rightarrow> int \<Rightarrow> string" where
  "formatObservedAge observedAtUnixMs now =
     (case observedAtUnixMs of
        None \<Rightarrow> []
      | Some observed \<Rightarrow>
          if observed \<le> 0 then []
          else
            let seconds = max 0 (js_round_int (js_div_const (js_sub (js_Number now) (js_Number observed)) 1000)) in
            if seconds < 60 then int_str seconds @ ''s old''
            else
              let minutes = floor_div seconds 60 in
              if minutes < 60 then int_str minutes @ ''m old''
              else
                let hours = floor_div minutes 60 in
                if hours < 24 then int_str hours @ ''h old''
                else int_str (floor_div hours 24) @ ''d old'')"

section \<open>The fleet layer's projection\<close>

datatype DataClassName = Name_cluster_inventory | Name_cluster_capacity | Name_application_signals
  | Name_cost | Name_source_events | Name_rollout_history | Name_pipeline_runs
  | Name_commit_metadata | Name_ownership | Name_drift_detail | Name_lifecycle

datatype DataStateName = State_unspecified | State_ok | State_not_configured | State_not_available
  | State_stale | State_error | State_forbidden

record DataSourceStatusView =
  view_dataClass :: DataClassName
  view_state :: DataStateName
  view_provider :: string
  view_observedAtUnixMs :: int
  view_stalenessBudgetMs :: int
  view_unavailableReason :: string
  view_retentionLimit :: int
  view_retentionWindowMs :: int

type_synonym DataSourceMap = "(DataClassName, DataSourceStatusView) js_map"

definition DATA_CLASS_NAMES :: "DataClass \<Rightarrow> DataClassName option" where
  "DATA_CLASS_NAMES c =
     (case c of
        CLUSTER_INVENTORY \<Rightarrow> Some Name_cluster_inventory
      | CLUSTER_CAPACITY \<Rightarrow> Some Name_cluster_capacity
      | APPLICATION_SIGNALS \<Rightarrow> Some Name_application_signals
      | COST \<Rightarrow> Some Name_cost
      | SOURCE_EVENTS \<Rightarrow> Some Name_source_events
      | ROLLOUT_HISTORY \<Rightarrow> Some Name_rollout_history
      | PIPELINE_RUNS \<Rightarrow> Some Name_pipeline_runs
      | COMMIT_METADATA \<Rightarrow> Some Name_commit_metadata
      | OWNERSHIP \<Rightarrow> Some Name_ownership
      | DRIFT_DETAIL \<Rightarrow> Some Name_drift_detail
      | LIFECYCLE \<Rightarrow> Some Name_lifecycle
      | _ \<Rightarrow> None)"

definition DATA_STATE_NAMES :: "DataState \<Rightarrow> DataStateName option" where
  "DATA_STATE_NAMES s =
     (case s of
        DataState_UNSPECIFIED \<Rightarrow> Some State_unspecified
      | DataState_OK \<Rightarrow> Some State_ok
      | DataState_NOT_CONFIGURED \<Rightarrow> Some State_not_configured
      | DataState_NOT_AVAILABLE \<Rightarrow> Some State_not_available
      | DataState_STALE \<Rightarrow> Some State_stale
      | DataState_ERROR \<Rightarrow> Some State_error
      | DataState_FORBIDDEN \<Rightarrow> Some State_forbidden
      | DataState_other _ \<Rightarrow> None)"

definition toDataSourceView :: "DataSourceStatus \<Rightarrow> DataClassName \<Rightarrow> DataSourceStatusView" where
  "toDataSourceView source dataClass =
     \<lparr>view_dataClass = dataClass,
      view_state = (case DATA_STATE_NAMES (dss_state source) of Some n \<Rightarrow> n | None \<Rightarrow> State_unspecified),
      view_provider = dss_provider source,
      view_observedAtUnixMs = dss_observedAtUnixMs source,
      view_stalenessBudgetMs = dss_stalenessBudgetMs source,
      view_unavailableReason = dss_unavailableReason source,
      view_retentionLimit = dss_retentionLimit source,
      view_retentionWindowMs = dss_retentionWindowMs source\<rparr>"

definition toDataSourceMap :: "DataSourceIndex option \<Rightarrow> DataSourceMap option" where
  "toDataSourceMap index =
     (case index of
        None \<Rightarrow> None
      | Some ix \<Rightarrow>
          Some (foldl (\<lambda>m source.
            case DATA_CLASS_NAMES (dss_dataClass source) of
              None \<Rightarrow> m
            | Some dataClass \<Rightarrow> js_map_set dataClass (toDataSourceView source dataClass) m)
            [] (map snd ix)))"

record DataSurface =
  surface_present :: bool
  surface_numeric :: bool
  surface_stale :: bool
  surface_state :: DataStateName
  surface_reason :: string
  surface_observedAtUnixMs :: "int option"

definition HIDDEN :: DataSurface where
  "HIDDEN = \<lparr>surface_present = False, surface_numeric = False, surface_stale = False,
     surface_state = State_not_configured, surface_reason = [], surface_observedAtUnixMs = None\<rparr>"

definition dataSurface :: "DataSourceMap option \<Rightarrow> DataClassName \<Rightarrow> DataSurface" where
  "dataSurface sources dataClass =
     (case Option.bind sources (\<lambda>m. js_map_get m dataClass) of
        None \<Rightarrow> HIDDEN
      | Some source \<Rightarrow>
          (case view_state source of
             State_ok \<Rightarrow>
               \<lparr>surface_present = True, surface_numeric = True, surface_stale = False,
                surface_state = State_ok, surface_reason = [],
                surface_observedAtUnixMs = Some (view_observedAtUnixMs source)\<rparr>
           | State_stale \<Rightarrow>
               \<lparr>surface_present = True, surface_numeric = True, surface_stale = True,
                surface_state = State_stale, surface_reason = view_unavailableReason source,
                surface_observedAtUnixMs = Some (view_observedAtUnixMs source)\<rparr>
           | State_not_available \<Rightarrow>
               \<lparr>surface_present = True, surface_numeric = False, surface_stale = False,
                surface_state = view_state source, surface_reason = view_unavailableReason source,
                surface_observedAtUnixMs = Some (view_observedAtUnixMs source)\<rparr>
           | State_error \<Rightarrow>
               \<lparr>surface_present = True, surface_numeric = False, surface_stale = False,
                surface_state = view_state source, surface_reason = view_unavailableReason source,
                surface_observedAtUnixMs = Some (view_observedAtUnixMs source)\<rparr>
           | _ \<Rightarrow> HIDDEN\<lparr>surface_state := view_state source\<rparr>))"

definition useDataSources_sources :: "DataSourceProbe \<Rightarrow> DataSourceMap option" where
  "useDataSources_sources probe = toDataSourceMap (probe_index probe)"

section \<open>The clusters route's projection\<close>

record DataSourceReading =
  reading_state :: DataState
  reading_provider :: string
  reading_observedAtUnixMs :: int
  reading_stalenessBudgetMs :: int
  reading_unavailableReason :: string

definition clusters_reading :: "DataSourceProbe \<Rightarrow> DataClass \<Rightarrow> DataSourceReading option" where
  "clusters_reading probe dataClass =
     (case probe_reading probe dataClass of
        None \<Rightarrow> None
      | Some source \<Rightarrow>
          Some \<lparr>reading_state = dss_state source, reading_provider = dss_provider source,
                reading_observedAtUnixMs = dss_observedAtUnixMs source,
                reading_stalenessBudgetMs = dss_stalenessBudgetMs source,
                reading_unavailableReason = dss_unavailableReason source\<rparr>)"

section \<open>Dispositions are ordered by severity\<close>

lemma DISPOSITION_SEVERITY_simps [simp]:
  "DISPOSITION_SEVERITY Surface_render = 0" "DISPOSITION_SEVERITY Surface_stale = 1"
  "DISPOSITION_SEVERITY Surface_unavailable = 2" "DISPOSITION_SEVERITY Surface_absent = 3"
  by (simp_all add: DISPOSITION_SEVERITY_def)

lemma DISPOSITION_SEVERITY_inj: "DISPOSITION_SEVERITY a = DISPOSITION_SEVERITY b \<longleftrightarrow> a = b"
  by (cases a; cases b) simp_all

instantiation SurfaceDisposition :: linorder
begin

definition less_eq_SurfaceDisposition :: "SurfaceDisposition \<Rightarrow> SurfaceDisposition \<Rightarrow> bool" where
  "less_eq_SurfaceDisposition a b \<longleftrightarrow> DISPOSITION_SEVERITY a \<le> DISPOSITION_SEVERITY b"

definition less_SurfaceDisposition :: "SurfaceDisposition \<Rightarrow> SurfaceDisposition \<Rightarrow> bool" where
  "less_SurfaceDisposition a b \<longleftrightarrow> DISPOSITION_SEVERITY a < DISPOSITION_SEVERITY b"

instance
  by standard
    (auto simp: less_eq_SurfaceDisposition_def less_SurfaceDisposition_def DISPOSITION_SEVERITY_inj)

end

lemma foldl_worst_disposition:
  fixes first :: DataState
  shows "dispositionFor (foldl (\<lambda>worst state.
       if DISPOSITION_SEVERITY (dispositionFor worst) < DISPOSITION_SEVERITY (dispositionFor state)
       then state else worst) first states) =
     foldl max (dispositionFor first) (map dispositionFor states)"
  by (induction states arbitrary: first) (auto simp: less_SurfaceDisposition_def max_def
      less_eq_SurfaceDisposition_def not_less order.order_iff_strict DISPOSITION_SEVERITY_inj)

text \<open>
  The gate of a surface is the more restrictive of what the capability probe and the response
  report, and absent when neither reports anything; the state it names is one of the reported ones
  and has that disposition, so a feed that answers "not configured" closes the surface whatever
  the probe says, and the other way round.
\<close>

theorem gate_most_restrictive:
  "gate_disposition (gateFor source responseState) =
     (case (source, responseState) of
        (None, None) \<Rightarrow> Surface_absent
      | (Some s, None) \<Rightarrow> dispositionFor (dss_state s)
      | (None, Some r) \<Rightarrow> dispositionFor r
      | (Some s, Some r) \<Rightarrow> max (dispositionFor (dss_state s)) (dispositionFor r)) \<and>
   gate_disposition (gateFor source responseState) =
     dispositionFor (gate_state (gateFor source responseState)) \<and>
   gate_state (gateFor source responseState) \<in>
     (if source = None \<and> responseState = None then {DataState_UNSPECIFIED}
      else dss_state ` set_option source \<union> set_option responseState)"
proof (cases source; cases responseState)
  fix s r
  assume "source = Some s" "responseState = Some r"
  then show ?thesis
    using foldl_worst_disposition [of "dss_state s" "[dss_state s, r]"]
    by (auto simp: gateFor_def Let_def max_def)
qed (simp_all add: gateFor_def Let_def dispositionFor_def)

section \<open>The degraded-mode contract\<close>

text \<open>
  What the contract asks of the three questions a surface puts to the state behind it: the states
  that are drawn, the ones whose numbers are real, and the one whose numbers need an age.
\<close>

locale degraded_mode =
  fixes present numeric stale :: "DataState option \<Rightarrow> bool"
  assumes present_iff: "present s \<longleftrightarrow>
      (\<exists>t \<in> {DataState_OK, DataState_STALE, DataState_NOT_AVAILABLE, DataState_ERROR}. s = Some t)"
    and numeric_present: "numeric s \<Longrightarrow> present s"
    and numeric_iff: "present s \<Longrightarrow> numeric s \<longleftrightarrow> s \<notin> {Some DataState_NOT_AVAILABLE, Some DataState_ERROR}"
    and stale_iff: "stale s \<longleftrightarrow> numeric s \<and> s \<noteq> Some DataState_OK"
begin

lemma unknown_absent: "\<not> present None" "\<not> present (Some (DataState_other n))"
  "\<not> present (Some DataState_UNSPECIFIED)"
  by (auto simp: present_iff)

lemma not_configured_absent:
  "\<not> present (Some DataState_NOT_CONFIGURED)" "\<not> present (Some DataState_FORBIDDEN)"
  by (auto simp: present_iff)

lemma stale_numeric: "stale s \<Longrightarrow> numeric s \<and> present s"
  using stale_iff numeric_present by blast

lemma present_disposition:
  "present s \<longleftrightarrow> dispositionFor (case s of Some t \<Rightarrow> t | None \<Rightarrow> DataState_UNSPECIFIED) \<noteq> Surface_absent"
  by (auto simp: present_iff dispositionFor_def split: option.splits DataState.splits)

lemma numeric_disposition:
  "numeric (Some t) \<longleftrightarrow> dispositionFor t \<in> {Surface_render, Surface_stale}"
  using numeric_present [of "Some t"] numeric_iff [of "Some t"]
  by (cases t) (auto simp: present_iff dispositionFor_def)

lemma stale_disposition: "stale (Some t) \<longleftrightarrow> dispositionFor t = Surface_stale"
  by (cases t) (auto simp: stale_iff numeric_disposition dispositionFor_def)

end

interpretation console_gate: degraded_mode surfaceExists numbersAreReal isStale
  by unfold_locales
    (auto simp: surfaceExists_def numbersAreReal_def isStale_def dispositionFor_def
      split: option.splits DataState.splits)

text \<open>The fleet layer's surface for a state, read back through its own index.\<close>

definition surface_of_state :: "DataState option \<Rightarrow> DataSurface" where
  "surface_of_state s =
     dataSurface (toDataSourceMap (Some (case s of None \<Rightarrow> []
        | Some t \<Rightarrow> [(COST, \<lparr>dss_dataClass = COST, dss_state = t, dss_provider = [],
            dss_observedAtUnixMs = 0, dss_stalenessBudgetMs = 0, dss_unavailableReason = [],
            dss_retentionLimit = 0, dss_retentionWindowMs = 0\<rparr>)]))) Name_cost"

interpretation fleet_gate: degraded_mode "\<lambda>s. surface_present (surface_of_state s)"
  "\<lambda>s. surface_numeric (surface_of_state s)" "\<lambda>s. surface_stale (surface_of_state s)"
  by unfold_locales
    (auto simp: surface_of_state_def dataSurface_def toDataSourceMap_def DATA_CLASS_NAMES_def
      DATA_STATE_NAMES_def toDataSourceView_def HIDDEN_def js_map_set_def js_map_get_def
      split: option.splits DataState.splits)

section \<open>The index\<close>

lemma indexDataSources_snoc:
  "indexDataSources (Some (xs @ [x])) =
     js_map_set (dss_dataClass x) x (indexDataSources (Some xs))"
  by (simp add: indexDataSources_def)

lemma indexDataSources_Nil [simp]: "indexDataSources (Some []) = []"
  by (simp add: indexDataSources_def)

lemma distinct_indexDataSources: "distinct (map fst (indexDataSources (Some xs)))"
  by (induction xs rule: rev_induct) (simp_all add: indexDataSources_snoc)

definition indexed :: "DataClass \<times> DataSourceStatus \<Rightarrow> bool" where
  "indexed p \<longleftrightarrow> fst p = dss_dataClass (snd p)"

lemma indexed_indexDataSources: "list_all indexed (indexDataSources (Some xs))"
proof (induction xs rule: rev_induct)
  case (snoc x xs)
  then show ?case
    by (auto simp: indexDataSources_snoc list_all_iff indexed_def dest!: set_js_map_set)
qed simp

lemma get_indexDataSources:
  "js_map_get (indexDataSources (Some xs)) c = List.find (\<lambda>s. dss_dataClass s = c) (rev xs)"
  by (induction xs rule: rev_induct) (auto simp: indexDataSources_snoc js_map_get_set)

text \<open>
  Asking the index of a response and asking the response itself give the same answer when the
  response names each class once, which is what the server promises; in general the index answers
  with the last status of the class and the array with the first.
\<close>

theorem find_index_vs_array:
  "findDataSource (Some (SourceIndex (indexDataSources (Some xs)))) c =
     findDataSource (Some (SourceArray (rev xs))) c \<and>
   (distinct (map dss_dataClass xs) \<longrightarrow>
     findDataSource (Some (SourceIndex (indexDataSources (Some xs)))) c =
     findDataSource (Some (SourceArray xs)) c)"
  by (simp add: findDataSource_def get_indexDataSources find_rev_distinct)

definition status_of :: "DataClass \<Rightarrow> DataState \<Rightarrow> DataSourceStatus" where
  "status_of c s = \<lparr>dss_dataClass = c, dss_state = s, dss_provider = [], dss_observedAtUnixMs = 0,
     dss_stalenessBudgetMs = 0, dss_unavailableReason = ''why'', dss_retentionLimit = 0,
     dss_retentionWindowMs = 0\<rparr>"

lemma dss_status_of [simp]: "dss_dataClass (status_of c s) = c" "dss_state (status_of c s) = s"
  by (simp_all add: status_of_def)

theorem find_index_vs_array_witness:
  "distinct (map dss_dataClass [status_of COST DataState_OK, status_of OWNERSHIP DataState_STALE]) \<and>
   findDataSource (Some (SourceIndex (indexDataSources
     (Some [status_of COST DataState_OK, status_of OWNERSHIP DataState_STALE])))) OWNERSHIP =
   findDataSource (Some (SourceArray
     [status_of COST DataState_OK, status_of OWNERSHIP DataState_STALE])) OWNERSHIP"
  using find_index_vs_array [of "[status_of COST DataState_OK, status_of OWNERSHIP DataState_STALE]" OWNERSHIP]
  by (simp add: findDataSource_def)

section \<open>The fleet layer agrees with the console's gate\<close>

lemma DATA_CLASS_NAMES_inj:
  "DATA_CLASS_NAMES c = Some n \<Longrightarrow> DATA_CLASS_NAMES d = Some n \<Longrightarrow> c = d"
  by (cases c; cases d) (simp_all add: DATA_CLASS_NAMES_def)

lemma toDataSourceMap_get:
  assumes "list_all indexed ix" and "distinct (map fst ix)" and "DATA_CLASS_NAMES c = Some n"
  shows "\<exists>m. toDataSourceMap (Some ix) = Some m \<and>
     js_map_get m n = map_option (\<lambda>s. toDataSourceView s n) (js_map_get ix c)"
proof -
  let ?step = "\<lambda>m source. case DATA_CLASS_NAMES (dss_dataClass source) of None \<Rightarrow> m
    | Some k \<Rightarrow> js_map_set k (toDataSourceView source k) m"
  have "js_map_get (foldl ?step [] (map snd ix)) n =
      map_option (\<lambda>s. toDataSourceView s n) (js_map_get ix c)"
    using assms(1,2)
  proof (induction ix rule: rev_induct)
    case (snoc p ix)
    obtain k s where p: "p = (k, s)" by fastforce
    have k: "k = dss_dataClass s" using snoc.prems p by (simp add: indexed_def)
    have get: "js_map_get (ix @ [p]) c = (if k = c then Some s else js_map_get ix c)"
      using snoc.prems p by (auto simp: js_map_get_def map_add_def image_iff split: option.splits dest: map_of_SomeD)
    show ?case
    proof (cases "k = c")
      case True
      then show ?thesis using assms(3) k p get by (simp add: js_map_get_set)
    next
      case False
      then have "DATA_CLASS_NAMES k \<noteq> Some n" using assms(3) DATA_CLASS_NAMES_inj by blast
      then show ?thesis using False snoc k p get
        by (auto simp: js_map_get_set split: option.splits)
    qed
  qed simp
  then show ?thesis by (auto simp: toDataSourceMap_def)
qed

text \<open>
  The surface the fleet layer computes for a class, through the renamed map of the console's
  index, is drawn, numeric and stale exactly when the console's own gate says so; when it is drawn
  it carries the source's own observation time.
\<close>

theorem fleet_surface_agrees_with_gate:
  assumes "DATA_CLASS_NAMES c = Some n"
  shows "let index = indexDataSources (Some xs);
             state = dataStateOf (Some index) c;
             surface = dataSurface (toDataSourceMap (Some index)) n
         in surface_present surface = surfaceExists state \<and>
            surface_numeric surface = numbersAreReal state \<and>
            surface_stale surface = isStale state \<and>
            (surface_present surface \<longrightarrow>
               surface_observedAtUnixMs surface = map_option dss_observedAtUnixMs (js_map_get index c))"
proof -
  let ?ix = "indexDataSources (Some xs)"
  obtain m where m: "toDataSourceMap (Some ?ix) = Some m"
    "js_map_get m n = map_option (\<lambda>s. toDataSourceView s n) (js_map_get ?ix c)"
    using toDataSourceMap_get [OF indexed_indexDataSources distinct_indexDataSources assms] by blast
  show ?thesis
  proof (cases "js_map_get ?ix c")
    case None
    then show ?thesis using m
      by (simp add: dataSurface_def HIDDEN_def dataStateOf_def findDataSource_def surfaceExists_def
          numbersAreReal_def isStale_def dispositionFor_def)
  next
    case (Some s)
    then show ?thesis using m
      by (cases "dss_state s")
        (simp_all add: dataSurface_def HIDDEN_def dataStateOf_def findDataSource_def surfaceExists_def
          numbersAreReal_def isStale_def dispositionFor_def toDataSourceView_def DATA_STATE_NAMES_def)
  qed
qed

theorem fleet_surface_agrees_with_gate_witness:
  "DATA_CLASS_NAMES COST = Some Name_cost \<and>
   surface_present (dataSurface (toDataSourceMap (Some (indexDataSources
     (Some [status_of COST DataState_STALE])))) Name_cost) \<and>
   surface_stale (dataSurface (toDataSourceMap (Some (indexDataSources
     (Some [status_of COST DataState_STALE])))) Name_cost)"
  using fleet_surface_agrees_with_gate [of COST Name_cost "[status_of COST DataState_STALE]"]
  by (simp add: DATA_CLASS_NAMES_def status_of_def Let_def dataStateOf_def findDataSource_def
      indexDataSources_def js_map_set_def js_map_get_def surfaceExists_def isStale_def dispositionFor_def)

section \<open>Ages\<close>

lemma js_floor_div_const:
  assumes "0 \<le> ms" "ms < 2 ^ 52"
  shows "js_floor_int (js_div_const (js_Number ms) 60000) = ms div 60000"
  using floor_fl_div(1) [of 60000 ms] assms by auto

text \<open>
  C34: for every age below \<open>2^52\<close> milliseconds the text is the exact number of whole minutes,
  split into hours and minutes from one hour on, and whole days from one day on; the doubles of
  the computation never show, and an age of nothing reads \<open>0m\<close>, not \<open><1m\<close>.
\<close>

theorem formatDuration_exact:
  assumes "0 \<le> ms" "ms < 2 ^ 52"
  shows "formatDuration (Some (js_Number ms)) =
     (if ms = 0 then ''0m''
      else if ms < 60000 then ''<1m''
      else if ms < 3600000 then int_str (ms div 60000) @ ''m''
      else if ms < 86400000
        then int_str (ms div 3600000) @ ''h'' @
          (if ms mod 3600000 < 60000 then [] else '' '' @ int_str (ms mod 3600000 div 60000) @ ''m'')
      else int_str (ms div 86400000) @ ''d'')"
proof -
  let ?m = "ms div 60000"
  have m: "0 \<le> ?m" "?m < 2 ^ 52" using assms div_le_int [of 60000 ms] by simp_all
  have h: "floor_div ?m 60 = ms div 3600000"
    using m floor_div_eq [of 60 ?m] by (simp add: zdiv_zmult2_eq [symmetric])
  have "0 \<le> ms div 3600000" "ms div 3600000 < 2 ^ 52" using assms div_le_int [of 3600000 ms] by simp_all
  then have d: "floor_div (ms div 3600000) 24 = ms div 86400000"
    using floor_div_eq [of 24 "ms div 3600000"] by (simp add: zdiv_zmult2_eq [symmetric])
  have r: "?m mod 60 = ms mod 3600000 div 60000" using zmod_zmult2_eq [of 60 ms 60000] by simp
  have c: "?m < 1 \<longleftrightarrow> ms < 60000" "?m < 60 \<longleftrightarrow> ms < 3600000" "ms div 3600000 < 24 \<longleftrightarrow> ms < 86400000"
    by (simp_all only: div_less_iff_int zero_less_numeral) simp_all
  have z: "ms mod 3600000 div 60000 = 0 \<longleftrightarrow> ms mod 3600000 < 60000"
    by (simp add: div_eq_0_iff_int)
  show ?thesis
    using assms js_floor_div_const [OF assms]
    unfolding formatDuration_def Let_def by (simp add: h d r c z del: js_div_const.simps)
qed

theorem formatDuration_exact_witness:
  "formatDuration (Some (js_Number 4320000)) = int_str 1 @ ''h '' @ int_str 12 @ ''m''"
  using formatDuration_exact [of 4320000] by simp

end
