(* ===== verification/StatusTone.thy ===== *)
theory StatusTone
  imports Wire
begin

text \<open>
  The closed set of seven status tones and the total maps from every state the console can show
  onto it (\<open>ui/src/lib/status-tone.ts\<close>): tone ranking, the worst tone of a set of children, and
  the tone and label of a health, sync, rollout and release state. An absent argument
  (\<open>undefined\<close>) is \<^const>\<open>None\<close>. The class strings and colours of a tone are presentation and
  are not modelled; its label is.
\<close>

datatype StatusTone = Healthy | Progressing | Degraded | Failed | Missing | Unknown | Pending

definition STATUS_TONE_label :: "StatusTone \<Rightarrow> string" where
  "STATUS_TONE_label tone =
     (case tone of Healthy \<Rightarrow> ''Healthy'' | Progressing \<Rightarrow> ''Progressing''
      | Degraded \<Rightarrow> ''Degraded'' | Failed \<Rightarrow> ''Failed'' | Missing \<Rightarrow> ''Missing''
      | Unknown \<Rightarrow> ''Unknown'' | Pending \<Rightarrow> ''Pending'')"

definition TONE_RANK :: "StatusTone list" where
  "TONE_RANK = [Failed, Missing, Degraded, Progressing, Unknown, Pending, Healthy]"

text \<open>\<open>indexOf\<close>, with \<open>-1\<close> for an element that is not there.\<close>

fun index_from :: "int \<Rightarrow> 'a list \<Rightarrow> 'a \<Rightarrow> int" where
  "index_from i [] x = -1"
| "index_from i (y # ys) x = (if y = x then i else index_from (i + 1) ys x)"

definition indexOf :: "'a list \<Rightarrow> 'a \<Rightarrow> int" where
  "indexOf xs x = index_from 0 xs x"

definition worstTone :: "StatusTone list \<Rightarrow> StatusTone" where
  "worstTone tones = fst (foldl (\<lambda>(worst, worstAt) tone.
       let pos = indexOf TONE_RANK tone in
       if pos \<noteq> -1 \<and> pos < worstAt then (tone, pos) else (worst, worstAt))
     (Healthy, int (length TONE_RANK)) tones)"

definition toneRank :: "StatusTone \<Rightarrow> int" where
  "toneRank tone =
     (let pos = indexOf TONE_RANK tone in if pos = -1 then int (length TONE_RANK) else pos)"

definition healthTone :: "FleetHealthProto option \<Rightarrow> StatusTone" where
  "healthTone health =
     (case health of
        Some FleetHealth_HEALTHY \<Rightarrow> Healthy
      | Some FleetHealth_PROGRESSING \<Rightarrow> Progressing
      | Some FleetHealth_DEGRADED \<Rightarrow> Degraded
      | Some FleetHealth_FAILED \<Rightarrow> Failed
      | Some FleetHealth_MISSING \<Rightarrow> Missing
      | _ \<Rightarrow> Unknown)"

definition healthLabel :: "FleetHealthProto option \<Rightarrow> string" where
  "healthLabel health = STATUS_TONE_label (healthTone health)"

definition syncTone :: "FleetSyncStateProto option \<Rightarrow> StatusTone" where
  "syncTone sync =
     (case sync of
        Some FleetSync_SYNCED \<Rightarrow> Healthy
      | Some FleetSync_OUT_OF_SYNC \<Rightarrow> Degraded
      | _ \<Rightarrow> Unknown)"

definition syncLabel :: "FleetSyncStateProto option \<Rightarrow> string" where
  "syncLabel sync =
     (case sync of
        Some FleetSync_SYNCED \<Rightarrow> ''Synced''
      | Some FleetSync_OUT_OF_SYNC \<Rightarrow> ''Drifted''
      | _ \<Rightarrow> ''Unknown'')"

definition rolloutTone :: "FleetRolloutStateProto option \<Rightarrow> StatusTone" where
  "rolloutTone state =
     (case state of
        Some FleetRollout_HEALTHY \<Rightarrow> Healthy
      | Some FleetRollout_PROGRESSING \<Rightarrow> Progressing
      | Some FleetRollout_PAUSED \<Rightarrow> Pending
      | Some FleetRollout_DEGRADED \<Rightarrow> Degraded
      | Some FleetRollout_FAILED \<Rightarrow> Failed
      | Some FleetRollout_ABORTED \<Rightarrow> Failed
      | Some FleetRollout_ROLLED_BACK \<Rightarrow> Degraded
      | Some FleetRollout_PENDING \<Rightarrow> Pending
      | _ \<Rightarrow> Unknown)"

definition rolloutLabel :: "FleetRolloutStateProto option \<Rightarrow> string" where
  "rolloutLabel state =
     (case state of
        Some FleetRollout_HEALTHY \<Rightarrow> ''Healthy''
      | Some FleetRollout_PROGRESSING \<Rightarrow> ''Progressing''
      | Some FleetRollout_PAUSED \<Rightarrow> ''Paused''
      | Some FleetRollout_DEGRADED \<Rightarrow> ''Degraded''
      | Some FleetRollout_FAILED \<Rightarrow> ''Failed''
      | Some FleetRollout_ABORTED \<Rightarrow> ''Aborted''
      | Some FleetRollout_ROLLED_BACK \<Rightarrow> ''Rolled back''
      | Some FleetRollout_PENDING \<Rightarrow> ''Pending''
      | _ \<Rightarrow> ''Unknown'')"

definition releaseTone :: "FleetReleaseStateProto option \<Rightarrow> StatusTone" where
  "releaseTone state =
     (case state of
        Some FleetRelease_COMPLETE \<Rightarrow> Healthy
      | Some FleetRelease_PROMOTING \<Rightarrow> Progressing
      | Some FleetRelease_CANARYING \<Rightarrow> Progressing
      | Some FleetRelease_VERIFYING \<Rightarrow> Progressing
      | Some FleetRelease_AWAITING_APPROVAL \<Rightarrow> Pending
      | Some FleetRelease_PENDING \<Rightarrow> Pending
      | Some FleetRelease_FAILED \<Rightarrow> Failed
      | Some FleetRelease_ROLLED_BACK \<Rightarrow> Degraded
      | Some FleetRelease_SUPERSEDED \<Rightarrow> Unknown
      | _ \<Rightarrow> Unknown)"

definition releaseLabel :: "FleetReleaseStateProto option \<Rightarrow> string" where
  "releaseLabel state =
     (case state of
        Some FleetRelease_PENDING \<Rightarrow> ''Pending''
      | Some FleetRelease_PROMOTING \<Rightarrow> ''Promoting''
      | Some FleetRelease_CANARYING \<Rightarrow> ''Canarying''
      | Some FleetRelease_VERIFYING \<Rightarrow> ''Verifying''
      | Some FleetRelease_COMPLETE \<Rightarrow> ''Complete''
      | Some FleetRelease_FAILED \<Rightarrow> ''Failed''
      | Some FleetRelease_ROLLED_BACK \<Rightarrow> ''Rolled back''
      | Some FleetRelease_SUPERSEDED \<Rightarrow> ''Superseded''
      | Some FleetRelease_AWAITING_APPROVAL \<Rightarrow> ''Awaiting approval''
      | _ \<Rightarrow> ''Unknown'')"

section \<open>Tones are ordered by urgency\<close>

text \<open>
  The rank makes the tones a linear order in which the smaller tone is the more urgent one; with
  it the library's \<^const>\<open>Min\<close> is the tone a parent shows for its children.
\<close>

lemma toneRank_simps [simp]:
  "toneRank Failed = 0" "toneRank Missing = 1" "toneRank Degraded = 2" "toneRank Progressing = 3"
  "toneRank Unknown = 4" "toneRank Pending = 5" "toneRank Healthy = 6"
  by (simp_all add: toneRank_def TONE_RANK_def indexOf_def)

lemma toneRank_inj: "toneRank a = toneRank b \<longleftrightarrow> a = b"
  by (cases a; cases b) simp_all

instantiation StatusTone :: linorder
begin

definition less_eq_StatusTone :: "StatusTone \<Rightarrow> StatusTone \<Rightarrow> bool" where
  "less_eq_StatusTone a b \<longleftrightarrow> toneRank a \<le> toneRank b"

definition less_StatusTone :: "StatusTone \<Rightarrow> StatusTone \<Rightarrow> bool" where
  "less_StatusTone a b \<longleftrightarrow> toneRank a < toneRank b"

instance
  by standard (auto simp: less_eq_StatusTone_def less_StatusTone_def toneRank_inj)

end

lemma indexOf_TONE_RANK: "indexOf TONE_RANK t = toneRank t"
  by (cases t) (simp_all add: TONE_RANK_def indexOf_def)

lemma tone_le_Healthy: "t \<le> Healthy"
  by (cases t) (simp_all add: less_eq_StatusTone_def)

lemma worstTone_step:
  "(let pos = indexOf TONE_RANK t in if pos \<noteq> -1 \<and> pos < toneRank w then (t, pos) else (w, toneRank w)) =
     (min t w, toneRank (min t w))"
  by (cases t; cases w) (simp_all add: indexOf_TONE_RANK min_def less_eq_StatusTone_def)

lemma worstTone_loop:
  "foldl (\<lambda>(worst, worstAt) tone.
       let pos = indexOf TONE_RANK tone in
       if pos \<noteq> -1 \<and> pos < worstAt then (tone, pos) else (worst, worstAt)) (w, toneRank w) tones =
     (foldr min tones w, toneRank (foldr min tones w))"
proof (induction tones arbitrary: w)
  case (Cons t tones)
  have swap: "foldr min tones (min t w) = min t (foldr min tones w)"
    by (induction tones) (auto simp: min.left_commute)
  from Cons [of "min t w"] show ?case by (simp add: worstTone_step swap)
qed simp

text \<open>
  the tone a parent shows is the most urgent tone among its children and healthy when there are
  none: \<^const>\<open>worstTone\<close> is the minimum over the urgency order, for any list, in any order, with
  any repetition.
\<close>

theorem worstTone_is_minimum: "worstTone tones = Min (insert Healthy (set tones))"
proof -
  have start: "(Healthy, int (length TONE_RANK)) = (Healthy, 7)" by (simp add: TONE_RANK_def)
  have "worstTone tones = foldr min tones Healthy"
  proof (cases tones)
    case Nil
    then show ?thesis by (simp add: worstTone_def)
  next
    case (Cons t ts)
    have "worstTone tones = fst (foldl (\<lambda>(worst, worstAt) tone.
       let pos = indexOf TONE_RANK tone in
       if pos \<noteq> -1 \<and> pos < worstAt then (tone, pos) else (worst, worstAt)) (t, toneRank t) ts)"
      using Cons by (cases t) (simp_all add: worstTone_def start indexOf_TONE_RANK)
    then have "worstTone tones = foldr min ts t" using worstTone_loop [of t ts] by simp
    moreover have "foldr min ts t = min t (foldr min ts Healthy)"
      using tone_le_Healthy [of t] by (induction ts) (auto simp: min.left_commute min_absorb1)
    ultimately show ?thesis using Cons by simp
  qed
  also have "\<dots> = Min (insert Healthy (set tones))"
  proof (induction tones)
    case (Cons t ts)
    then show ?case by (simp add: insert_commute [of Healthy t])
  qed simp
  finally show ?thesis .
qed

end
