(* ===== verification/JsValue.thy ===== *)
theory JsValue
  imports JsNumber
begin

text \<open>
  Values whose type the sources only learn at run time (\<open>unknown\<close>, the result of \<open>JSON.parse\<close>):
  the tests \<open>typeof\<close>, \<open>Array.isArray\<close> and truthiness, and reading a property.
\<close>

datatype js_value = JUndefined | JNull | JBool bool | JNumber js_number | JString string
  | JBigint int | JArray "js_value list" | JObject "(string \<times> js_value) list"

fun js_truthy :: "js_value \<Rightarrow> bool" where
  "js_truthy JUndefined = False"
| "js_truthy JNull = False"
| "js_truthy (JBool b) = b"
| "js_truthy (JNumber n) = (n \<noteq> Fin 0 \<and> n \<noteq> NaN)"
| "js_truthy (JString s) = (s \<noteq> [])"
| "js_truthy (JBigint i) = (i \<noteq> 0)"
| "js_truthy (JArray xs) = True"
| "js_truthy (JObject ps) = True"

text \<open>\<open>typeof v === "object"\<close>, which holds of \<open>null\<close> and of arrays.\<close>

fun typeof_object :: "js_value \<Rightarrow> bool" where
  "typeof_object JNull = True"
| "typeof_object (JArray xs) = True"
| "typeof_object (JObject ps) = True"
| "typeof_object _ = False"

text \<open>\<open>v.key\<close> on an object; an array has no property of the names the sources read.\<close>

fun js_property :: "js_value \<Rightarrow> string \<Rightarrow> js_value" where
  "js_property (JObject ps) key = (case map_of ps key of Some v \<Rightarrow> v | None \<Rightarrow> JUndefined)"
| "js_property _ key = JUndefined"

end
