(* ===== verification/FleetRows.thy ===== *)
theory FleetRows
  imports FleetPages StatusTone DataGate JsValue
begin

text \<open>
  The rows of the fleet list: tones, labels, attention reasons and grouping of application
  summaries (\<open>ui/src/components/fleet/fleet-rows.ts\<close>), the six delivery phases
  (\<open>fleet-lifecycle.ts\<close>) and the cost of the applications on screen (\<open>fleet-cost.ts\<close>).
  \<open>localeCompare\<close> and \<open>toLocaleString\<close> depend on the browser's locale and are parameters.
\<close>

section \<open>Rows\<close>

definition healthToneOf :: "string \<Rightarrow> StatusTone" where
  "healthToneOf health =
     (if health = ''healthy'' then Healthy
      else if health = ''progressing'' then Progressing
      else if health = ''degraded'' then Degraded
      else if health = ''failed'' then Failed
      else if health = ''missing'' then Missing
      else Unknown)"

definition healthLabelOf :: "string \<Rightarrow> string" where
  "healthLabelOf health = STATUS_TONE_label (healthToneOf health)"

definition syncToneOf :: "string \<Rightarrow> StatusTone" where
  "syncToneOf sync =
     (if sync = ''synced'' then Healthy else if sync = ''out_of_sync'' then Degraded else Unknown)"

definition syncLabelOf :: "string \<Rightarrow> string" where
  "syncLabelOf sync =
     (if sync = ''synced'' then ''Synced'' else if sync = ''out_of_sync'' then ''Drifted'' else ''Unknown'')"

definition identityOf :: "NamespacedKey option \<Rightarrow> string" where
  "identityOf identity =
     (case identity of Some k \<Rightarrow> key_namespace k @ ''/'' @ key_name k | None \<Rightarrow> [])"

definition projectLabelOf :: "FleetApplicationSummary \<Rightarrow> string" where
  "projectLabelOf application =
     (if app_project application \<noteq> None then identityOf (app_project application) else [])"

definition targetLabelOf :: "FleetApplicationSummary \<Rightarrow> string" where
  "targetLabelOf application =
     (let cluster = app_currentClusterLabel application; stage = app_currentStage application in
      if cluster \<noteq> [] \<and> stage \<noteq> [] then cluster @ dot_sep @ stage else js_or cluster stage)"

definition attentionReasonOf :: "FleetApplicationSummary \<Rightarrow> string" where
  "attentionReasonOf application =
     (if app_attentionLabel application \<noteq> [] then app_attentionLabel application
      else
        let drifted = (app_sync application = ''out_of_sync''); health = app_health application in
        if health = ''failed'' then
          (if drifted then ''workload failing'' @ dot_sep @ ''drifted'' else ''workload failing'')
        else if health = ''missing'' then ''source unreachable''
        else if health = ''degraded'' then (if drifted then ''degraded'' @ dot_sep @ ''drifted'' else ''degraded'')
        else if health = ''progressing'' then
          (if drifted then ''rollout in progress'' @ dot_sep @ ''drifted'' else ''rollout in progress'')
        else if drifted then ''drifted''
        else if 0 < app_blockedGateCount application then ''gate blocked'' else ''needs review'')"

definition attentionDetailOf :: "FleetApplicationSummary \<Rightarrow> string" where
  "attentionDetailOf application = app_attentionDetail application"

record ApplicationGroup =
  group_key :: string
  group_kicker :: string
  group_label :: string
  group_applications :: "FleetApplicationSummary list"
  group_targetCount :: int
  group_unhealthyCount :: int
  group_driftedCount :: int
  group_worst :: StatusTone
  group_mix :: "(StatusTone \<times> int) list"

text \<open>\<open>FleetGroup | "none"\<close>.\<close>

datatype GroupDimension = Group_project | Group_cluster | Group_stage | Group_health | Group_none

definition dimension_name :: "GroupDimension \<Rightarrow> string" where
  "dimension_name d =
     (case d of Group_project \<Rightarrow> ''project'' | Group_cluster \<Rightarrow> ''cluster'' | Group_stage \<Rightarrow> ''stage''
      | Group_health \<Rightarrow> ''health'' | Group_none \<Rightarrow> ''none'')"

definition GROUP_KICKERS :: "GroupDimension \<Rightarrow> string" where
  "GROUP_KICKERS d =
     (case d of Group_project \<Rightarrow> ''PROJECT'' | Group_cluster \<Rightarrow> ''CLUSTER'' | Group_stage \<Rightarrow> ''STAGE''
      | Group_health \<Rightarrow> ''HEALTH'' | Group_none \<Rightarrow> [])"

definition MIX_ORDER :: "StatusTone list" where
  "MIX_ORDER = [Failed, Missing, Degraded, Progressing, Unknown, Pending, Healthy]"

definition groupKeyOf :: "FleetApplicationSummary \<Rightarrow> GroupDimension \<Rightarrow> string" where
  "groupKeyOf application dimension =
     (case dimension of
        Group_project \<Rightarrow> js_or (projectLabelOf application) ''No project''
      | Group_cluster \<Rightarrow> js_or (app_currentClusterLabel application) ''No target''
      | Group_stage \<Rightarrow> js_or (app_currentStage application) ''No stage''
      | Group_health \<Rightarrow> healthLabelOf (app_health application)
      | Group_none \<Rightarrow> [])"

text \<open>The loop of \<open>summarize\<close>: the counts by tone, then the three counters and the worst tone.\<close>

record summary_acc =
  acc_counts :: "(StatusTone, int) js_map"
  acc_targetCount :: int
  acc_unhealthyCount :: int
  acc_driftedCount :: int
  acc_worst :: StatusTone

definition summarize_step :: "summary_acc \<Rightarrow> FleetApplicationSummary \<Rightarrow> summary_acc" where
  "summarize_step acc application =
     (let tone = healthToneOf (app_health application) in
      \<lparr>acc_counts = js_map_set tone
         ((case js_map_get (acc_counts acc) tone of Some n \<Rightarrow> n | None \<Rightarrow> 0) + 1) (acc_counts acc),
       acc_targetCount = acc_targetCount acc + int (length (app_targets application)),
       acc_unhealthyCount = (if tone \<noteq> Healthy then acc_unhealthyCount acc + 1 else acc_unhealthyCount acc),
       acc_driftedCount =
         (if app_sync application = ''out_of_sync'' then acc_driftedCount acc + 1 else acc_driftedCount acc),
       acc_worst = (if toneRank tone < toneRank (acc_worst acc) then tone else acc_worst acc)\<rparr>)"

definition summarize :: "string \<Rightarrow> string \<Rightarrow> string \<Rightarrow> FleetApplicationSummary list \<Rightarrow> ApplicationGroup" where
  "summarize key kicker label applications =
     (let acc = foldl summarize_step
        \<lparr>acc_counts = [], acc_targetCount = 0, acc_unhealthyCount = 0, acc_driftedCount = 0, acc_worst = Healthy\<rparr>
        applications;
          count = (\<lambda>tone. case js_map_get (acc_counts acc) tone of Some n \<Rightarrow> n | None \<Rightarrow> 0)
      in \<lparr>group_key = key, group_kicker = kicker, group_label = label, group_applications = applications,
          group_targetCount = acc_targetCount acc, group_unhealthyCount = acc_unhealthyCount acc,
          group_driftedCount = acc_driftedCount acc, group_worst = acc_worst acc,
          group_mix = map (\<lambda>tone. (tone, count tone)) (filter (\<lambda>tone. 0 < count tone) MIX_ORDER)\<rparr>)"

definition bucket_applications ::
    "GroupDimension \<Rightarrow> FleetApplicationSummary list \<Rightarrow> (string, FleetApplicationSummary list) js_map" where
  "bucket_applications dimension applications =
     foldl (\<lambda>buckets application.
       let key = groupKeyOf application dimension in
       case js_map_get buckets key of
         Some bucket \<Rightarrow> js_map_set key (bucket @ [application]) buckets
       | None \<Rightarrow> js_map_set key [application] buckets) [] applications"

definition groupApplications ::
    "(string \<Rightarrow> string \<Rightarrow> int) \<Rightarrow> FleetApplicationSummary list \<Rightarrow> GroupDimension \<Rightarrow> ApplicationGroup list" where
  "groupApplications localeCompare applications dimension =
     (if dimension = Group_none then
        if length applications = 0 then [] else [summarize ''all'' [] ''All applications'' applications]
      else
        map (\<lambda>(key, rows). summarize (dimension_name dimension @ '':'' @ key) (GROUP_KICKERS dimension) key rows)
          (sort_by (\<lambda>left right. localeCompare (fst left) (fst right)) (bucket_applications dimension applications)))"

definition plural :: "(int \<Rightarrow> string) \<Rightarrow> int \<Rightarrow> string \<Rightarrow> string" where
  "plural toLocaleString n noun = toLocaleString n @ '' '' @ noun @ (if n = 1 then [] else ''s'')"

definition groupMetaOf :: "(int \<Rightarrow> string) \<Rightarrow> ApplicationGroup \<Rightarrow> string" where
  "groupMetaOf toLocaleString g =
     js_join dot_sep
       ([plural toLocaleString (int (length (group_applications g))) ''app''] @
        (if 0 < group_targetCount g then [plural toLocaleString (group_targetCount g) ''target''] else []) @
        (if 0 < group_unhealthyCount g then [int_str (group_unhealthyCount g) @ '' unhealthy''] else []) @
        (if 0 < group_driftedCount g then [int_str (group_driftedCount g) @ '' drifted''] else []))"

section \<open>Lifecycle\<close>

definition LIFECYCLE_PHASES :: "string list" where
  "LIFECYCLE_PHASES = [''source'', ''build'', ''test'', ''render'', ''deploy'', ''verify'']"

definition PHASE_STATE_NAMES :: "string list" where
  "PHASE_STATE_NAMES =
     [''unspecified'', ''not_applicable'', ''pending'', ''running'', ''blocked'', ''succeeded'', ''failed'', ''unknown'']"

record FleetLifecycleVector =
  vector_states :: "string list"
  vector_observedAtUnixMs :: "int option"

text \<open>A summary may carry a \<open>lifecycle\<close> property its type does not declare; it is the argument.\<close>

definition applicationLifecycle :: "js_value \<Rightarrow> FleetLifecycleVector option" where
  "applicationLifecycle candidate =
     (if \<not> js_truthy candidate \<or> \<not> typeof_object candidate then None
      else
        (case js_property candidate ''states'' of
           JArray states \<Rightarrow>
             if length states \<noteq> length LIFECYCLE_PHASES then None
             else if \<not> list_all (\<lambda>state. case state of JString s \<Rightarrow> s \<in> set PHASE_STATE_NAMES | _ \<Rightarrow> False) states
               then None
             else Some
               \<lparr>vector_states = map (\<lambda>state. case state of JString s \<Rightarrow> s | _ \<Rightarrow> []) states,
                vector_observedAtUnixMs =
                  (case js_property candidate ''observedAtUnixMs'' of JBigint i \<Rightarrow> Some i | _ \<Rightarrow> None)\<rparr>
         | _ \<Rightarrow> None))"

definition lifecyclePhaseTone :: "string \<Rightarrow> StatusTone" where
  "lifecyclePhaseTone state =
     (if state = ''succeeded'' then Healthy
      else if state = ''failed'' then Failed
      else if state = ''running'' then Progressing
      else if state = ''blocked'' then Degraded
      else if state = ''pending'' \<or> state = ''not_applicable'' then Pending
      else Unknown)"

definition lifecyclePhaseLabel :: "string \<Rightarrow> string" where
  "lifecyclePhaseLabel state =
     (if state = ''not_applicable'' then ''Not applicable''
      else if state = ''succeeded'' then ''Succeeded''
      else if state = ''failed'' then ''Failed''
      else if state = ''running'' then ''Running''
      else if state = ''blocked'' then ''Blocked''
      else if state = ''pending'' then ''Pending''
      else ''Unknown'')"

definition lifecycleCellLabel :: "string \<Rightarrow> string \<Rightarrow> string" where
  "lifecycleCellLabel phase state = phase @ dot_sep @ lifecyclePhaseLabel state"

section \<open>Cost\<close>

datatype CostBasisName = Basis_unspecified | Basis_rate_card_requested | Basis_rate_card_allocatable
  | Basis_billing

record CostSummary =
  cost_state :: DataState
  cost_basis :: CostBasis
  cost_monthlyAmount :: js_number
  cost_currency :: string
  cost_unavailableReason :: string

record ApplicationCost =
  acost_application :: "FleetObjectKeyMessage option"
  acost_cost :: "CostSummary option"

record QueryCostResponse =
  qcr_state :: DataState
  qcr_applications :: "ApplicationCost list"
  qcr_total :: "CostSummary option"

record QueryCostRequest =
  qcq_applications :: "FleetObjectKeyMessage list"
  qcq_pageSize :: int

record ApplicationCostView =
  costview_application :: NamespacedKey
  costview_state :: DataStateName
  costview_basis :: CostBasisName
  costview_monthlyAmount :: js_number
  costview_currency :: string
  costview_unavailableReason :: string

record FleetCostResult =
  costs_state :: DataStateName
  costs_costs :: "(string, ApplicationCostView) js_map"
  costs_basis :: CostBasisName

definition BASIS_NAMES :: "CostBasis \<Rightarrow> CostBasisName option" where
  "BASIS_NAMES basis =
     (case basis of
        CostBasis_UNSPECIFIED \<Rightarrow> Some Basis_unspecified
      | RATE_CARD_REQUESTED \<Rightarrow> Some Basis_rate_card_requested
      | RATE_CARD_ALLOCATABLE \<Rightarrow> Some Basis_rate_card_allocatable
      | BILLING \<Rightarrow> Some Basis_billing
      | CostBasis_other _ \<Rightarrow> None)"

definition STATE_NAMES :: "DataState \<Rightarrow> DataStateName option" where
  "STATE_NAMES state =
     (case state of
        DataState_UNSPECIFIED \<Rightarrow> Some State_unspecified
      | DataState_OK \<Rightarrow> Some State_ok
      | DataState_NOT_CONFIGURED \<Rightarrow> Some State_not_configured
      | DataState_NOT_AVAILABLE \<Rightarrow> Some State_not_available
      | DataState_STALE \<Rightarrow> Some State_stale
      | DataState_ERROR \<Rightarrow> Some State_error
      | DataState_FORBIDDEN \<Rightarrow> Some State_forbidden
      | DataState_other _ \<Rightarrow> None)"

definition or_else :: "'a option \<Rightarrow> 'a \<Rightarrow> 'a" where
  "or_else x d = (case x of Some v \<Rightarrow> v | None \<Rightarrow> d)"

definition costRequest :: "NamespacedKey list \<Rightarrow> QueryCostRequest" where
  "costRequest applications =
     \<lparr>qcq_applications = map toObjectKey applications, qcq_pageSize = int (length applications)\<rparr>"

definition costEntry :: "(string, ApplicationCostView) js_map \<Rightarrow> ApplicationCost \<Rightarrow> (string, ApplicationCostView) js_map" where
  "costEntry costs entry =
     (case (acost_application entry, acost_cost entry) of
        (Some application, Some cost) \<Rightarrow>
          js_map_set (okey_namespace application @ ''/'' @ okey_name application)
            \<lparr>costview_application = \<lparr>key_namespace = okey_namespace application, key_name = okey_name application\<rparr>,
             costview_state = or_else (STATE_NAMES (cost_state cost)) State_unspecified,
             costview_basis = or_else (BASIS_NAMES (cost_basis cost)) Basis_unspecified,
             costview_monthlyAmount = cost_monthlyAmount cost,
             costview_currency = cost_currency cost,
             costview_unavailableReason = cost_unavailableReason cost\<rparr> costs
      | _ \<Rightarrow> costs)"

definition fromCostResponse :: "QueryCostResponse \<Rightarrow> FleetCostResult" where
  "fromCostResponse response =
     \<lparr>costs_state = or_else (STATE_NAMES (qcr_state response)) State_unspecified,
      costs_costs = foldl costEntry [] (qcr_applications response),
      costs_basis = or_else (BASIS_NAMES
        (case qcr_total response of Some t \<Rightarrow> cost_basis t | None \<Rightarrow> CostBasis_UNSPECIFIED)) Basis_unspecified\<rparr>"

definition EMPTY_COSTS :: FleetCostResult where
  "EMPTY_COSTS = \<lparr>costs_state = State_not_configured, costs_costs = [], costs_basis = Basis_unspecified\<rparr>"

text \<open>The hook: no call without identities or when it is disabled; no data reads as no costs.\<close>

definition costQueryEnabled :: "NamespacedKey list \<Rightarrow> bool \<Rightarrow> bool" where
  "costQueryEnabled identities enabled \<longleftrightarrow> enabled \<and> 0 < length identities"

definition costQueryKey :: "NamespacedKey list \<Rightarrow> string" where
  "costQueryKey identities = js_join '','' (map (\<lambda>k. key_namespace k @ ''/'' @ key_name k) identities)"

definition useApplicationCosts :: "FleetCostResult option \<Rightarrow> FleetCostResult" where
  "useApplicationCosts data = or_else data EMPTY_COSTS"

text \<open>
  \<open>(Math.round(value * 10) / 10).toString()\<close>: the integer \<open>n\<close> of tenths is printed with one
  decimal, or none when it is a multiple of ten.
\<close>

definition tenths_str :: "int \<Rightarrow> string" where
  "tenths_str n =
     (if n mod 10 = 0 then int_str (n div 10)
      else (if n < 0 then ''-'' else []) @ nat_str (nat \<bar>n\<bar> div 10) @ ''.'' @ nat_str (nat \<bar>n\<bar> mod 10))"

definition round_tenths :: "js_number \<Rightarrow> string" where
  "round_tenths value = tenths_str (js_round_int (js_mul_const value 10))"

definition upper_char :: "char \<Rightarrow> char" where
  "upper_char c = (if CHR ''a'' \<le> c \<and> c \<le> CHR ''z'' then char_of (of_char c - 32 :: nat) else c)"

definition toUpperCase :: "string \<Rightarrow> string" where
  "toUpperCase s = map upper_char s"

text \<open>The euro sign is its three UTF-8 bytes.\<close>

definition currencyPrefix :: "string \<Rightarrow> string" where
  "currencyPrefix currency =
     (let upper = toUpperCase currency in
      if upper = ''USD'' then ''$''
      else if upper = ''EUR'' then [CHR 0xE2, CHR 0x82, CHR 0xAC]
      else if upper = ''GBP'' then [CHR 0xA3]
      else if upper = [] then []
      else upper @ '' '')"

definition formatMonthlyCost :: "js_number \<Rightarrow> string \<Rightarrow> string" where
  "formatMonthlyCost amount currency =
     (case amount of
        Fin a \<Rightarrow>
          if 1000000 \<le> \<bar>a\<bar> then currencyPrefix currency @ round_tenths (js_div_const amount 1000000) @ ''M''
          else if 1000 \<le> \<bar>a\<bar> then currencyPrefix currency @ round_tenths (js_div_const amount 1000) @ ''k''
          else currencyPrefix currency @ int_str (js_round a)
      | _ \<Rightarrow> [])"

definition isCostEstimate :: "CostBasisName \<Rightarrow> bool" where
  "isCostEstimate basis \<longleftrightarrow> basis = Basis_rate_card_requested \<or> basis = Basis_rate_card_allocatable"

definition costBasisLabel :: "CostBasisName \<Rightarrow> string" where
  "costBasisLabel basis =
     (case basis of
        Basis_rate_card_requested \<Rightarrow> ''Estimate'' @ dot_sep @ ''rate card '' @ [CHR 0xD7] @ '' requested resources''
      | Basis_rate_card_allocatable \<Rightarrow> ''Estimate'' @ dot_sep @ ''rate card '' @ [CHR 0xD7] @ '' node allocatable''
      | Basis_billing \<Rightarrow> ''Billed spend''
      | Basis_unspecified \<Rightarrow> ''Basis unknown'')"

section \<open>Two vocabularies, one tone\<close>

text \<open>
  The fleet rows' tone and label of a decoded health or sync state are those of the wire enum
  it was decoded from, for every value of the enum, unknown ones included: a row and the header
  above it can never show two colours or two words for the same state.
\<close>

theorem row_tone_agrees_with_wire:
  "healthToneOf (fromHealth h) = healthTone (Some h) \<and>
   healthLabelOf (fromHealth h) = healthLabel (Some h) \<and>
   syncToneOf (fromSync y) = syncTone (Some y) \<and>
   syncLabelOf (fromSync y) = syncLabel (Some y)"
proof -
  have "healthToneOf (fromHealth h) = healthTone (Some h)"
    by (cases h) (simp_all add: healthToneOf_def fromHealth_def healthTone_def)
  moreover have "syncToneOf (fromSync y) = syncTone (Some y) \<and> syncLabelOf (fromSync y) = syncLabel (Some y)"
    by (cases y) (simp_all add: syncToneOf_def syncLabelOf_def fromSync_def syncTone_def syncLabel_def)
  ultimately show ?thesis by (simp add: healthLabelOf_def healthLabel_def)
qed

section \<open>Grouping\<close>

lemma bucket_applications_snoc:
  "bucket_applications d (as @ [a]) =
     (let buckets = bucket_applications d as; key = groupKeyOf a d in
      js_map_set key (or_else (js_map_get buckets key) [] @ [a]) buckets)"
  by (simp add: bucket_applications_def or_else_def Let_def split: option.splits)

lemma bucket_applications_get:
  "js_map_get (bucket_applications d as) k =
     (if k \<in> set (map (\<lambda>a. groupKeyOf a d) as) then Some (filter (\<lambda>a. groupKeyOf a d = k) as) else None)"
proof (induction as rule: rev_induct)
  case Nil
  then show ?case by (simp add: bucket_applications_def)
next
  case (snoc a as)
  have "filter (\<lambda>a. groupKeyOf a d = k) as = []" if "k \<notin> set (map (\<lambda>a. groupKeyOf a d) as)"
    using that by (auto simp: filter_empty_conv)
  then show ?case using snoc
    by (auto simp: bucket_applications_snoc js_map_get_set or_else_def Let_def split: option.splits if_splits)
qed

lemma bucket_applications_keys:
  "distinct (map fst (bucket_applications d as)) \<and>
   fst ` set (bucket_applications d as) = (\<lambda>a. groupKeyOf a d) ` set as"
  by (induction as rule: rev_induct)
    (auto simp: bucket_applications_snoc Let_def fst_set_js_map_set, auto simp: bucket_applications_def)

lemma bucket_applications_set:
  "(k, rows) \<in> set (bucket_applications d as) \<longleftrightarrow>
     k \<in> (\<lambda>a. groupKeyOf a d) ` set as \<and> rows = filter (\<lambda>a. groupKeyOf a d = k) as"
  using bucket_applications_get [of d as k] bucket_applications_keys [of d as]
    js_map_get_iff [of "bucket_applications d as" k rows]
  by (auto split: if_splits)

lemma group_summarize [simp]:
  "group_applications (summarize key kicker label as) = as" "group_label (summarize key kicker label as) = label"
  "group_key (summarize key kicker label as) = key"
  by (simp_all add: summarize_def Let_def)

text \<open>
  Grouping partitions the rows: the groups' labels are the distinct keys of the rows, each
  group holds exactly the rows of its key in the order of the list, and no row is lost or
  repeated; when the locale's comparison is a consistent order the groups come sorted by it.
\<close>

theorem groups_partition_rows:
  assumes "d \<noteq> Group_none"
  shows "let groups = groupApplications lc as d in
     distinct (map group_label groups) \<and>
     set (map group_label groups) = (\<lambda>a. groupKeyOf a d) ` set as \<and>
     (\<forall>g \<in> set groups. group_applications g = filter (\<lambda>a. groupKeyOf a d = group_label g) as) \<and>
     (consistent_comparator lc \<longrightarrow>
        sorted_wrt (\<lambda>g h. lc (group_label g) (group_label h) \<le> 0) groups)"
proof -
  let ?B = "bucket_applications d as"
  let ?S = "sort_by (\<lambda>l r. lc (fst l) (fst r)) ?B"
  have labels: "map group_label (groupApplications lc as d) = map fst ?S"
    using assms by (simp add: groupApplications_def case_prod_beta)
  have "mset (map fst ?S) = mset (map fst ?B)" by (metis mset_map mset_sort_by)
  then have d: "distinct (map fst ?S)" using bucket_applications_keys [of d as] by (metis mset_eq_imp_distinct_iff)
  have s: "set (map fst ?S) = (\<lambda>a. groupKeyOf a d) ` set as" using bucket_applications_keys [of d as] by simp
  have r: "\<forall>g \<in> set (groupApplications lc as d). group_applications g = filter (\<lambda>a. groupKeyOf a d = group_label g) as"
    using assms by (auto simp: groupApplications_def bucket_applications_set)
  have o: "sorted_wrt (\<lambda>g h. lc (group_label g) (group_label h) \<le> 0) (groupApplications lc as d)"
    if "consistent_comparator lc"
  proof -
    have "consistent_comparator (\<lambda>l r :: string \<times> FleetApplicationSummary list. lc (fst l) (fst r))"
      using that unfolding consistent_comparator_def by blast
    then have "sorted_wrt (\<lambda>l r. lc (fst l) (fst r) \<le> 0) ?S" by (rule consistent_comparator.sort_by_sorted)
    then show ?thesis using assms by (simp add: groupApplications_def sorted_wrt_map case_prod_beta)
  qed
  show ?thesis using labels d s r o unfolding Let_def by (metis (no_types, lifting))
qed

text \<open>Code-unit order is one comparison a locale may use.\<close>

interpretation code_unit_order: consistent_comparator "cmp_ord :: string \<Rightarrow> string \<Rightarrow> int"
  by unfold_locales (auto simp: cmp_ord_def split: if_splits)

section \<open>Group summaries\<close>

definition tone_of_row :: "FleetApplicationSummary \<Rightarrow> StatusTone" where
  "tone_of_row a = healthToneOf (app_health a)"

lemma foldl_summarize_step:
  "let r = foldl summarize_step acc as in
   or_else (js_map_get (acc_counts r) t) 0 =
     or_else (js_map_get (acc_counts acc) t) 0 + int (length (filter (\<lambda>a. tone_of_row a = t) as)) \<and>
   acc_targetCount r = acc_targetCount acc + (\<Sum>a\<leftarrow>as. int (length (app_targets a))) \<and>
   acc_unhealthyCount r = acc_unhealthyCount acc + int (length (filter (\<lambda>a. tone_of_row a \<noteq> Healthy) as)) \<and>
   acc_driftedCount r = acc_driftedCount acc + int (length (filter (\<lambda>a. app_sync a = ''out_of_sync'') as)) \<and>
   acc_worst r = foldl min (acc_worst acc) (map tone_of_row as)"
proof (induction as arbitrary: acc)
  case (Cons a as)
  then show ?case using Cons [of "summarize_step acc a"]
    by (auto simp: Let_def summarize_step_def js_map_get_set or_else_def tone_of_row_def min_def
        less_eq_StatusTone_def not_less order.order_iff_strict toneRank_inj split: option.splits)
qed simp

lemma sum_length_filter:
  "finite T \<Longrightarrow> f ` set xs \<subseteq> T \<Longrightarrow> (\<Sum>t\<in>T. int (length (filter (\<lambda>x. f x = t) xs))) = int (length xs)"
proof (induction xs)
  case (Cons x xs)
  have "(\<Sum>t\<in>T. int (length (filter (\<lambda>y. f y = t) (x # xs)))) =
      (\<Sum>t\<in>T. (if t = f x then 1 else 0) + int (length (filter (\<lambda>y. f y = t) xs)))"
    by (intro sum.cong) auto
  also have "\<dots> = 1 + int (length xs)" using Cons by (simp add: sum.distrib)
  finally show ?case by simp
qed simp

lemma foldl_min_Min: "foldl min x ts = Min (insert x (set ts))" for x :: "'a::linorder"
proof (induction ts arbitrary: x)
  case (Cons t ts)
  have "foldl min x (t # ts) = Min (insert (min x t) (set ts))" using Cons by simp
  also have "\<dots> = Min (insert x (insert t (set ts)))"
    by (cases "ts = []") (auto simp: min.assoc)
  finally show ?case by simp
qed simp

text \<open>
  A group's summary counts its own rows: targets, unhealthy and drifted rows are the exact
  numbers, its worst tone is the most urgent tone of its rows (healthy for none), and the mix lists
  each tone that occurs once, worst first, with the number of its rows, so its counts add up to
  the rows of the group.
\<close>

theorem group_summary_exact:
  "let g = summarize key kicker label as in
   group_targetCount g = (\<Sum>a\<leftarrow>as. int (length (app_targets a))) \<and>
   group_unhealthyCount g = int (length (filter (\<lambda>a. tone_of_row a \<noteq> Healthy) as)) \<and>
   group_driftedCount g = int (length (filter (\<lambda>a. app_sync a = ''out_of_sync'') as)) \<and>
   group_worst g = Min (insert Healthy (set (map tone_of_row as))) \<and>
   group_mix g = map (\<lambda>t. (t, int (length (filter (\<lambda>a. tone_of_row a = t) as))))
     (filter (\<lambda>t. t \<in> tone_of_row ` set as) MIX_ORDER) \<and>
   sorted (map fst (group_mix g)) \<and> (\<Sum>p\<leftarrow>group_mix g. snd p) = int (length as)"
proof -
  let ?n = "\<lambda>t. int (length (filter (\<lambda>a. tone_of_row a = t) as))"
  let ?init = "\<lparr>acc_counts = [], acc_targetCount = 0, acc_unhealthyCount = 0, acc_driftedCount = 0, acc_worst = Healthy\<rparr>"
  have f: "or_else (js_map_get (acc_counts (foldl summarize_step ?init as)) t) 0 = ?n t"
    "acc_targetCount (foldl summarize_step ?init as) = (\<Sum>a\<leftarrow>as. int (length (app_targets a)))"
    "acc_unhealthyCount (foldl summarize_step ?init as) = int (length (filter (\<lambda>a. tone_of_row a \<noteq> Healthy) as))"
    "acc_driftedCount (foldl summarize_step ?init as) = int (length (filter (\<lambda>a. app_sync a = ''out_of_sync'') as))"
    "acc_worst (foldl summarize_step ?init as) = foldl min Healthy (map tone_of_row as)" for t
    using foldl_summarize_step [of ?init as t] by (simp_all add: Let_def or_else_def)
  have pos: "0 < ?n t \<longleftrightarrow> t \<in> tone_of_row ` set as" for t by (auto simp: filter_empty_conv)
  have mix: "group_mix (summarize key kicker label as) =
      map (\<lambda>t. (t, ?n t)) (filter (\<lambda>t. t \<in> tone_of_row ` set as) MIX_ORDER)"
    using f(1) pos by (simp add: summarize_def Let_def flip: or_else_def)
  have srt: "sorted MIX_ORDER" by (simp add: MIX_ORDER_def less_eq_StatusTone_def)
  have dst: "distinct MIX_ORDER" by (simp add: MIX_ORDER_def)
  have univ: "set MIX_ORDER = UNIV" using StatusTone.exhaust by (auto simp: MIX_ORDER_def)
  have "(\<Sum>p\<leftarrow>group_mix (summarize key kicker label as). snd p) = (\<Sum>t\<leftarrow>filter (\<lambda>t. t \<in> tone_of_row ` set as) MIX_ORDER. ?n t)"
    by (simp add: mix comp_def)
  also have "\<dots> = (\<Sum>t \<in> tone_of_row ` set as. ?n t)"
    using dst univ by (simp add: sum_list_distinct_conv_sum_set Collect_conj_eq)
  also have "\<dots> = int (length as)"
    by (rule sum_length_filter) simp_all
  finally have total: "(\<Sum>p\<leftarrow>group_mix (summarize key kicker label as). snd p) = int (length as)" .
  have "sorted (map fst (group_mix (summarize key kicker label as)))"
    using srt by (simp add: mix comp_def sorted_wrt_filter)
  moreover have "group_targetCount (summarize key kicker label as) = (\<Sum>a\<leftarrow>as. int (length (app_targets a)))"
    "group_unhealthyCount (summarize key kicker label as) = int (length (filter (\<lambda>a. tone_of_row a \<noteq> Healthy) as))"
    "group_driftedCount (summarize key kicker label as) = int (length (filter (\<lambda>a. app_sync a = ''out_of_sync'') as))"
    "group_worst (summarize key kicker label as) = Min (insert Healthy (set (map tone_of_row as)))"
    using f(2-5) by (simp_all add: summarize_def Let_def foldl_min_Min)
  ultimately show ?thesis unfolding Let_def using mix total by blast
qed

theorem groups_partition_rows_witness:
  "Group_stage \<noteq> Group_none \<and>
   distinct (map group_label (groupApplications cmp_ord
     [(app_named ''a'' ''x'')\<lparr>app_currentStage := ''prod''\<rparr>, app_named ''a'' ''y''] Group_stage))"
  using groups_partition_rows [of Group_stage cmp_ord
      "[(app_named ''a'' ''x'')\<lparr>app_currentStage := ''prod''\<rparr>, app_named ''a'' ''y'']"]
  by (simp add: Let_def)

section \<open>Lifecycle vectors\<close>

text \<open>
  C39: a row has a lifecycle vector exactly when its \<open>lifecycle\<close> property is an object whose
  \<open>states\<close> are six known state names, and then the vector holds those names in order: a strip is
  never drawn from a short, long or misspelt vector.
\<close>

theorem lifecycle_vector_exact:
  "applicationLifecycle candidate = Some v \<longleftrightarrow>
     (\<exists>fields states. candidate = JObject fields \<and>
        map_of fields ''states'' = Some (JArray (map JString states)) \<and>
        length states = 6 \<and> set states \<subseteq> set PHASE_STATE_NAMES \<and> vector_states v = states \<and>
        vector_observedAtUnixMs v =
          (case map_of fields ''observedAtUnixMs'' of Some (JBigint i) \<Rightarrow> Some i | _ \<Rightarrow> None))"
proof -
  let ?str = "\<lambda>state. case state of JString s \<Rightarrow> s | _ \<Rightarrow> []"
  let ?ok = "\<lambda>state. case state of JString s \<Rightarrow> s \<in> set PHASE_STATE_NAMES | _ \<Rightarrow> False"
  have strings: "list_all ?ok xs \<longleftrightarrow> xs = map JString (map ?str xs) \<and> set (map ?str xs) \<subseteq> set PHASE_STATE_NAMES" for xs
    by (induction xs) (auto split: js_value.splits)
  have mid: "map ?str (map JString ss) = ss" for ss by (induction ss) auto
  show ?thesis
  proof
    assume "applicationLifecycle candidate = Some v"
    then obtain fields xs where c: "candidate = JObject fields" "map_of fields ''states'' = Some (JArray xs)"
      "length xs = 6" "list_all ?ok xs" and v: "v = \<lparr>vector_states = map ?str xs, vector_observedAtUnixMs =
        (case js_property candidate ''observedAtUnixMs'' of JBigint i \<Rightarrow> Some i | _ \<Rightarrow> None)\<rparr>"
      by (cases candidate) (auto simp: applicationLifecycle_def LIFECYCLE_PHASES_def split: if_splits js_value.splits option.splits)
    moreover have "xs = map JString (map ?str xs)" "set (map ?str xs) \<subseteq> set PHASE_STATE_NAMES" using strings c(4) by blast+
    ultimately show "\<exists>fields states. candidate = JObject fields \<and>
        map_of fields ''states'' = Some (JArray (map JString states)) \<and>
        length states = 6 \<and> set states \<subseteq> set PHASE_STATE_NAMES \<and> vector_states v = states \<and>
        vector_observedAtUnixMs v =
          (case map_of fields ''observedAtUnixMs'' of Some (JBigint i) \<Rightarrow> Some i | _ \<Rightarrow> None)"
      by (intro exI [of _ fields] exI [of _ "map ?str xs"]) (auto split: option.splits)
  next
    assume "\<exists>fields states. candidate = JObject fields \<and>
        map_of fields ''states'' = Some (JArray (map JString states)) \<and>
        length states = 6 \<and> set states \<subseteq> set PHASE_STATE_NAMES \<and> vector_states v = states \<and>
        vector_observedAtUnixMs v =
          (case map_of fields ''observedAtUnixMs'' of Some (JBigint i) \<Rightarrow> Some i | _ \<Rightarrow> None)"
    then obtain fields states where c: "candidate = JObject fields"
      "map_of fields ''states'' = Some (JArray (map JString states))" "length states = 6"
      "set states \<subseteq> set PHASE_STATE_NAMES" and v: "vector_states v = states"
      "vector_observedAtUnixMs v = (case map_of fields ''observedAtUnixMs'' of Some (JBigint i) \<Rightarrow> Some i | _ \<Rightarrow> None)"
      by blast
    let ?w = "case js_property candidate ''observedAtUnixMs'' of JBigint i \<Rightarrow> Some i | _ \<Rightarrow> None"
    have "list_all ?ok (map JString states)" using c(4) by (auto simp: list_all_iff)
    moreover have "js_property candidate ''states'' = JArray (map JString states)" using c by simp
    moreover have "length (map JString states) = length LIFECYCLE_PHASES" using c by (simp add: LIFECYCLE_PHASES_def)
    moreover have "js_truthy candidate \<and> typeof_object candidate" using c by simp
    ultimately have "applicationLifecycle candidate =
        Some \<lparr>vector_states = map ?str (map JString states), vector_observedAtUnixMs = ?w\<rparr>"
      unfolding applicationLifecycle_def by (simp only: js_value.simps if_True if_False not_True_eq_False simp_thms)
    moreover have "?w = vector_observedAtUnixMs v" using c(1) v(2) by (auto split: option.splits)
    ultimately show "applicationLifecycle candidate = Some v" unfolding mid using v(1) by simp
  qed
qed

section \<open>Costs\<close>

definition cost_key :: "ApplicationCost \<Rightarrow> string option" where
  "cost_key entry =
     (case (acost_application entry, acost_cost entry) of
        (Some a, Some c) \<Rightarrow> Some (okey_namespace a @ ''/'' @ okey_name a)
      | _ \<Rightarrow> None)"

lemma costEntry_get:
  "js_map_get (costEntry m e) k = (if cost_key e = Some k then js_map_get (costEntry [] e) k else js_map_get m k)"
  by (auto simp: costEntry_def cost_key_def js_map_get_set split: option.splits)

lemma foldl_costEntry_get:
  "js_map_get (foldl costEntry m es) k =
     (case List.find (\<lambda>e. cost_key e = Some k) (rev es) of
        Some e \<Rightarrow> js_map_get (costEntry [] e) k
      | None \<Rightarrow> js_map_get m k)"
proof (induction es rule: rev_induct)
  case (snoc e es)
  then show ?case using costEntry_get [of "foldl costEntry m es" e k] by simp
qed simp

text \<open>
  An application has a cost exactly when the server sent an entry that names it and prices
  it: no figure is invented for an application the server left out, none is dropped, and of several
  entries the last one counts; without an answer there are no costs and the class reads as not
  configured.
\<close>

theorem costs_only_as_priced:
  "js_map_get (costs_costs (fromCostResponse r)) k =
     (case List.find (\<lambda>e. cost_key e = Some k) (rev (qcr_applications r)) of
        None \<Rightarrow> None
      | Some e \<Rightarrow>
          Some \<lparr>costview_application = \<lparr>key_namespace = okey_namespace (the (acost_application e)),
                  key_name = okey_name (the (acost_application e))\<rparr>,
                costview_state = or_else (DATA_STATE_NAMES (cost_state (the (acost_cost e)))) State_unspecified,
                costview_basis = or_else (BASIS_NAMES (cost_basis (the (acost_cost e)))) Basis_unspecified,
                costview_monthlyAmount = cost_monthlyAmount (the (acost_cost e)),
                costview_currency = cost_currency (the (acost_cost e)),
                costview_unavailableReason = cost_unavailableReason (the (acost_cost e))\<rparr>) \<and>
   costs_costs (useApplicationCosts None) = [] \<and>
   costs_state (useApplicationCosts None) = State_not_configured"
proof -
  have names: "STATE_NAMES s = DATA_STATE_NAMES s" for s
    by (simp add: STATE_NAMES_def DATA_STATE_NAMES_def)
  have "js_map_get (costEntry [] e) k = Some \<lparr>costview_application = \<lparr>key_namespace = okey_namespace (the (acost_application e)),
                  key_name = okey_name (the (acost_application e))\<rparr>,
                costview_state = or_else (DATA_STATE_NAMES (cost_state (the (acost_cost e)))) State_unspecified,
                costview_basis = or_else (BASIS_NAMES (cost_basis (the (acost_cost e)))) Basis_unspecified,
                costview_monthlyAmount = cost_monthlyAmount (the (acost_cost e)),
                costview_currency = cost_currency (the (acost_cost e)),
                costview_unavailableReason = cost_unavailableReason (the (acost_cost e))\<rparr>"
    if "cost_key e = Some k" for e
    using that by (auto simp: costEntry_def cost_key_def js_map_get_set names split: option.splits)
  then show ?thesis
    by (auto simp: fromCostResponse_def foldl_costEntry_get useApplicationCosts_def EMPTY_COSTS_def or_else_def
        split: option.splits dest: find_Some_in)
qed

end
