(* ===== verification/FleetRefresh.thy ===== *)
theory FleetRefresh
  imports JsNumber
begin

text \<open>
  Periodic refresh with back-off (\<open>useBoundedRefresh\<close>) and the single-flight wrapper
  (\<open>useSingleFlightRefresh\<close>) of \<open>ui/src/lib/fleet-refresh.ts\<close>. The effect of the hook is a closure
  over four variables that the browser's events drive: the timer firing, the page being hidden or
  shown, the window gaining focus, the awaited refresh settling, and the clean-up of the effect. The
  model is that closure as a record and one function per event; \<open>inFlight\<close> counts the refreshes
  that have been started and have not settled.
\<close>

definition FLEET_REFRESH_INTERVAL_MS :: int where
  "FLEET_REFRESH_INTERVAL_MS = 60000"

definition FOCUSED_REFRESH_INTERVAL_MS :: int where
  "FOCUSED_REFRESH_INTERVAL_MS = 15000"

definition MAX_REFRESH_INTERVAL_MS :: int where
  "MAX_REFRESH_INTERVAL_MS = 120000"

section \<open>The bounded refresh\<close>

record BoundedRefreshOptions =
  intervalMs :: int
  maxIntervalMs :: int
  refreshOnMount :: bool

record refresher =
  disposed :: bool
  running :: bool
  failureCount :: nat
  timer :: "int option"
  pageHidden :: bool
  inFlight :: nat

definition clearTimer :: "refresher \<Rightarrow> refresher" where
  "clearTimer st = st\<lparr>timer := None\<rparr>"

definition nextDelay :: "BoundedRefreshOptions \<Rightarrow> refresher \<Rightarrow> int" where
  "nextDelay options st = min (maxIntervalMs options) (intervalMs options * 2 ^ failureCount st)"

definition schedule :: "int \<Rightarrow> refresher \<Rightarrow> refresher" where
  "schedule delay st =
     (let cleared = clearTimer st in
      if disposed cleared \<or> pageHidden cleared then cleared else cleared\<lparr>timer := Some delay\<rparr>)"

text \<open>\<open>runRefresh\<close> up to its \<open>await\<close>, and from there on when the refresh settles.\<close>

definition runRefresh :: "refresher \<Rightarrow> refresher" where
  "runRefresh st =
     (if disposed st \<or> running st \<or> pageHidden st then st
      else (clearTimer st)\<lparr>running := True, inFlight := Suc (inFlight st)\<rparr>)"

definition refreshSettled :: "BoundedRefreshOptions \<Rightarrow> bool \<Rightarrow> refresher \<Rightarrow> refresher" where
  "refreshSettled options succeeded st =
     (let counted = st\<lparr>failureCount := (if succeeded then 0 else Suc (failureCount st)),
                       inFlight := inFlight st - 1, running := False\<rparr>
      in schedule (nextDelay options counted) counted)"

definition timerFired :: "refresher \<Rightarrow> refresher" where
  "timerFired st = runRefresh (st\<lparr>timer := None\<rparr>)"

definition handleVisibilityChange :: "BoundedRefreshOptions \<Rightarrow> bool \<Rightarrow> refresher \<Rightarrow> refresher" where
  "handleVisibilityChange options hidden st =
     (let st' = st\<lparr>pageHidden := hidden\<rparr> in
      if hidden then clearTimer st' else schedule (nextDelay options st') st')"

definition handleFocus :: "refresher \<Rightarrow> refresher" where
  "handleFocus st = (if pageHidden st then st else runRefresh (clearTimer st))"

definition dispose :: "refresher \<Rightarrow> refresher" where
  "dispose st = clearTimer (st\<lparr>disposed := True\<rparr>)"

definition mountRefresh :: "BoundedRefreshOptions \<Rightarrow> bool \<Rightarrow> refresher" where
  "mountRefresh options hidden =
     (let st = \<lparr>disposed = False, running = False, failureCount = 0, timer = None, pageHidden = hidden,
                inFlight = 0\<rparr>
      in if refreshOnMount options then runRefresh st else schedule (intervalMs options) st)"

text \<open>
  The events, in any order: a timer fires only when it is set, a refresh settles only when one is
  in flight, and the listeners are gone after the clean-up.
\<close>

inductive refresh_step :: "BoundedRefreshOptions \<Rightarrow> refresher \<Rightarrow> refresher \<Rightarrow> bool" for options where
  fired: "timer st = Some d \<Longrightarrow> refresh_step options st (timerFired st)"
| settled: "0 < inFlight st \<Longrightarrow> refresh_step options st (refreshSettled options succeeded st)"
| visibility: "\<not> disposed st \<Longrightarrow> refresh_step options st (handleVisibilityChange options hidden st)"
| focus: "\<not> disposed st \<Longrightarrow> refresh_step options st (handleFocus st)"
| disposing: "refresh_step options st (dispose st)"

inductive refresh_reach :: "BoundedRefreshOptions \<Rightarrow> refresher \<Rightarrow> bool" for options where
  mounted: "refresh_reach options (mountRefresh options hidden)"
| step: "refresh_reach options st \<Longrightarrow> refresh_step options st st' \<Longrightarrow> refresh_reach options st'"

section \<open>Single flight\<close>

text \<open>
  \<open>activeRef\<close> holds the request in flight; requests are numbered in the order they are made.
\<close>

record single_flight =
  activeRef :: "nat option"
  unsettled :: "nat list"
  nextRequest :: nat

definition singleFlightCall :: "single_flight \<Rightarrow> nat \<times> single_flight" where
  "singleFlightCall st =
     (case activeRef st of
        Some request \<Rightarrow> (request, st)
      | None \<Rightarrow>
          (nextRequest st,
           st\<lparr>activeRef := Some (nextRequest st), unsettled := unsettled st @ [nextRequest st],
              nextRequest := Suc (nextRequest st)\<rparr>))"

definition singleFlightSettled :: "nat \<Rightarrow> single_flight \<Rightarrow> single_flight" where
  "singleFlightSettled request st =
     st\<lparr>unsettled := removeAll request (unsettled st),
        activeRef := (if activeRef st = Some request then None else activeRef st)\<rparr>"

inductive flight_reach :: "single_flight \<Rightarrow> bool" where
  start: "flight_reach \<lparr>activeRef = None, unsettled = [], nextRequest = 0\<rparr>"
| call: "flight_reach st \<Longrightarrow> flight_reach (snd (singleFlightCall st))"
| settle: "flight_reach st \<Longrightarrow> request \<in> set (unsettled st) \<Longrightarrow> flight_reach (singleFlightSettled request st)"

section \<open>Invariants of the refresher\<close>

named_theorems refresher_defs \<open>the operations of the refresher\<close>

lemmas [refresher_defs] = clearTimer_def nextDelay_def schedule_def runRefresh_def refreshSettled_def
  timerFired_def handleVisibilityChange_def handleFocus_def dispose_def mountRefresh_def Let_def

definition refresher_inv :: "BoundedRefreshOptions \<Rightarrow> refresher \<Rightarrow> bool" where
  "refresher_inv options st \<longleftrightarrow>
     inFlight st = (if running st then 1 else 0) \<and>
     (disposed st \<or> pageHidden st \<longrightarrow> timer st = None) \<and>
     (\<not> disposed st \<and> \<not> pageHidden st \<longrightarrow> running st \<or> timer st \<noteq> None) \<and>
     pred_option (\<lambda>d. d \<le> max (intervalMs options) (maxIntervalMs options)) (timer st)"

lemma refresher_inv_step:
  assumes "refresh_step options st st'" and "refresher_inv options st"
  shows "refresher_inv options st'"
  using assms
proof cases
  case (settled succeeded)
  then show ?thesis using assms(2)
    by (cases "disposed st \<or> pageHidden st"; cases succeeded)
      (auto simp: refresher_defs refresher_inv_def min_le_iff_disj le_max_iff_disj)
next
  case (visibility hidden)
  then show ?thesis using assms(2) by (cases hidden) (simp_all add: refresher_defs refresher_inv_def)
qed (use assms(2) in \<open>simp_all add: refresher_defs refresher_inv_def split: if_splits\<close>)

lemma refresher_inv_reach: "refresh_reach options st \<Longrightarrow> refresher_inv options st"
proof (induction rule: refresh_reach.induct)
  case (mounted hidden)
  show ?case by (simp add: refresher_defs refresher_inv_def)
qed (rule refresher_inv_step)

text \<open>
  C34: whatever the browser does, at most one refresh is in flight; a mounted page that is shown
  is always either refreshing or waiting on a timer, so polling never dies; a hidden or unmounted
  page has no timer; and every delay is the interval or the bounded exponential back-off.
\<close>

theorem polling_alive_and_single:
  assumes "refresh_reach options st"
  shows "inFlight st \<le> 1 \<and>
     (\<not> disposed st \<and> \<not> pageHidden st \<longrightarrow> running st \<or> timer st \<noteq> None) \<and>
     (disposed st \<or> pageHidden st \<longrightarrow> timer st = None) \<and>
     (\<forall>d. timer st = Some d \<longrightarrow> d \<le> max (intervalMs options) (maxIntervalMs options))"
  using refresher_inv_reach [OF assms] by (auto simp: refresher_inv_def)

definition demo_options :: BoundedRefreshOptions where
  "demo_options = \<lparr>intervalMs = 60000, maxIntervalMs = 120000, refreshOnMount = True\<rparr>"

lemma demo_reach: "refresh_reach demo_options (refreshSettled demo_options False (mountRefresh demo_options False))"
  by (rule refresh_reach.step [OF refresh_reach.mounted refresh_step.settled])
    (simp add: refresher_defs demo_options_def)

theorem polling_alive_and_single_witness:
  "refresh_reach demo_options (refreshSettled demo_options False (mountRefresh demo_options False)) \<and>
   timer (refreshSettled demo_options False (mountRefresh demo_options False)) = Some 120000 \<and>
   inFlight (refreshSettled demo_options False (mountRefresh demo_options False)) \<le> 1"
  using demo_reach polling_alive_and_single [OF demo_reach]
  by (simp add: refresher_defs demo_options_def)

text \<open>\<open>n\<close> consecutive failures of refreshes that each started.\<close>

definition failures :: "BoundedRefreshOptions \<Rightarrow> nat \<Rightarrow> refresher \<Rightarrow> refresher" where
  "failures options n st = ((\<lambda>s. refreshSettled options False (timerFired s)) ^^ n) st"

lemma failures_Suc: "failures options (Suc n) st = refreshSettled options False (timerFired (failures options n st))"
  by (simp add: failures_def)

lemma failures_state:
  assumes "\<not> disposed st" "\<not> pageHidden st" "\<not> running st"
  shows "\<not> disposed (failures options n st) \<and> \<not> pageHidden (failures options n st) \<and>
    \<not> running (failures options n st) \<and> failureCount (failures options n st) = failureCount st + n"
proof (induction n)
  case 0
  then show ?case using assms by (simp add: failures_def)
next
  case (Suc n)
  then show ?case by (simp add: failures_Suc refresher_defs)
qed

text \<open>
  C38: after \<open>n > 0\<close> failures in a row the next attempt waits \<open>min(max, interval * 2^n)\<close>
  milliseconds, a success brings the interval back to \<open>min(max, interval)\<close>, and the wait never
  shrinks from one failure to the next.
\<close>

theorem backoff_after_failures:
  assumes "\<not> disposed st" "\<not> pageHidden st" "\<not> running st" "failureCount st = 0" "0 \<le> intervalMs options"
  shows "timer (failures options (Suc n) st) =
           Some (min (maxIntervalMs options) (intervalMs options * 2 ^ Suc n)) \<and>
         timer (refreshSettled options True (timerFired (failures options n st))) =
           Some (min (maxIntervalMs options) (intervalMs options)) \<and>
         min (maxIntervalMs options) (intervalMs options * 2 ^ n) \<le>
           min (maxIntervalMs options) (intervalMs options * 2 ^ Suc n)"
proof -
  have s: "\<not> disposed (failures options n st)" "\<not> pageHidden (failures options n st)"
    "\<not> running (failures options n st)" "failureCount (failures options n st) = n"
    using failures_state [OF assms(1-3), of options n] assms(4) by auto
  have "intervalMs options * 2 ^ n \<le> intervalMs options * 2 ^ Suc n"
    using assms(5) by (intro mult_left_mono) simp_all
  then show ?thesis using s by (simp add: failures_Suc refresher_defs min.coboundedI2 min_le_iff_disj)
qed

theorem backoff_after_failures_witness:
  "timer (failures demo_options 2 (refreshSettled demo_options True (mountRefresh demo_options False))) = Some 120000"
  using backoff_after_failures [of "refreshSettled demo_options True (mountRefresh demo_options False)" demo_options 1]
  by (simp add: refresher_defs demo_options_def numeral_2_eq_2)

section \<open>Invariants of the single flight\<close>

lemma flight_inv:
  "flight_reach st \<Longrightarrow> unsettled st = (case activeRef st of Some r \<Rightarrow> [r] | None \<Rightarrow> []) \<and>
     (\<forall>r \<in> set (unsettled st). r < nextRequest st)"
  by (induction rule: flight_reach.induct)
    (auto simp: singleFlightCall_def singleFlightSettled_def split: option.splits)

text \<open>
  However calls and settlements interleave, at most one request is unsettled, and a call made
  while one is returns that request instead of making another.
\<close>

theorem single_flight:
  assumes "flight_reach st"
  shows "length (unsettled st) \<le> 1 \<and>
    (\<forall>r \<in> set (unsettled st). singleFlightCall st = (r, st)) \<and>
    (unsettled st = [] \<longrightarrow> fst (singleFlightCall st) = nextRequest st)"
  using flight_inv [OF assms] by (auto simp: singleFlightCall_def split: option.splits)

theorem single_flight_witness:
  "singleFlightCall (snd (singleFlightCall \<lparr>activeRef = None, unsettled = [], nextRequest = 0\<rparr>)) =
     (0, snd (singleFlightCall \<lparr>activeRef = None, unsettled = [], nextRequest = 0\<rparr>))"
  using single_flight [OF flight_reach.call [OF flight_reach.start]]
  by (simp add: singleFlightCall_def)

end
