(* ===== verification/FleetFocus.thy ===== *)
theory FleetFocus
  imports FleetQuery
begin

text \<open>
  The focus coordinator of the fleet views (\<open>ui/src/lib/fleet-focus.ts\<close>): it remembers the focused
  application across presentations and result updates, and restores the focus through the active
  presentation's adapter, which resolves its target asynchronously. Every public operation may run
  while earlier resolutions are still in flight. An adapter registration is an object compared by
  identity, so it is a number; an abort controller is the resolution it belongs to. What the
  coordinator does to the outside (moving the focus, announcing a removal) is a list of effects.
\<close>

section \<open>State\<close>

datatype focus_effect = FocusApplication NamespacedKey | FocusHeading | Announce string

text \<open>One call of \<open>resolveAndCommit\<close>: its input, and whether its controller was aborted.\<close>

record focus_work =
  work_identity :: NamespacedKey
  work_identityIsPresent :: bool
  work_presentation :: string
  work_registration :: nat
  work_revision :: nat
  work_aborted :: bool
  work_finished :: bool

record FocusCoordinator =
  adapters :: "(string, nat) js_map"
  activePresentation :: "string option"
  focused :: "NamespacedKey option"
  resultKeys :: "string list"
  hasResults :: bool
  revision :: nat
  pendingController :: "nat option"
  works :: "focus_work list"
  nextRegistration :: nat
  effects :: "focus_effect list"

definition createFleetFocusCoordinator :: FocusCoordinator where
  "createFleetFocusCoordinator =
     \<lparr>adapters = [], activePresentation = None, focused = None, resultKeys = [], hasResults = False,
      revision = 0, pendingController = None, works = [], nextRegistration = 0, effects = []\<rparr>"

definition identityKey :: "NamespacedKey \<Rightarrow> string" where
  "identityKey identity = key_namespace identity @ ''/'' @ key_name identity"

section \<open>Operations\<close>

definition abortWork :: "nat option \<Rightarrow> focus_work list \<Rightarrow> focus_work list" where
  "abortWork controller ws =
     (case controller of Some i \<Rightarrow> ws[i := (ws ! i)\<lparr>work_aborted := True\<rparr>] | None \<Rightarrow> ws)"

definition invalidatePending :: "FocusCoordinator \<Rightarrow> FocusCoordinator" where
  "invalidatePending st =
     st\<lparr>revision := Suc (revision st), works := abortWork (pendingController st) (works st),
        pendingController := None\<rparr>"

definition activeRegistration :: "FocusCoordinator \<Rightarrow> (string \<times> nat) option" where
  "activeRegistration st =
     (case activePresentation st of
        None \<Rightarrow> None
      | Some presentation \<Rightarrow>
          if presentation = [] then None
          else map_option (\<lambda>r. (presentation, r)) (js_map_get (adapters st) presentation))"

definition restoreFocus :: "FocusCoordinator \<Rightarrow> FocusCoordinator" where
  "restoreFocus st0 =
     (let st = invalidatePending st0 in
      case (focused st, activeRegistration st) of
        (Some identity, Some (presentation, registration)) \<Rightarrow>
          if \<not> hasResults st then st
          else st\<lparr>pendingController := Some (length (works st)),
                  works := works st @
                    [\<lparr>work_identity = identity,
                      work_identityIsPresent = (identityKey identity \<in> set (resultKeys st)),
                      work_presentation = presentation, work_registration = registration,
                      work_revision = revision st, work_aborted = False, work_finished = False\<rparr>]\<rparr>
      | _ \<Rightarrow> st)"

definition registerAdapter :: "string \<Rightarrow> FocusCoordinator \<Rightarrow> FocusCoordinator" where
  "registerAdapter presentation st0 =
     (let st = st0\<lparr>adapters := js_map_set presentation (nextRegistration st0) (adapters st0),
                   nextRegistration := Suc (nextRegistration st0)\<rparr>
      in if activePresentation st = Some presentation then restoreFocus st else st)"

text \<open>The function that \<open>registerAdapter\<close> returns.\<close>

definition unregisterAdapter :: "string \<Rightarrow> nat \<Rightarrow> FocusCoordinator \<Rightarrow> FocusCoordinator" where
  "unregisterAdapter presentation registration st0 =
     (if js_map_get (adapters st0) presentation \<noteq> Some registration then st0
      else
        let st = st0\<lparr>adapters := filter (\<lambda>p. fst p \<noteq> presentation) (adapters st0)\<rparr> in
        if activePresentation st = Some presentation then invalidatePending st else st)"

definition activatePresentation :: "string option \<Rightarrow> FocusCoordinator \<Rightarrow> FocusCoordinator" where
  "activatePresentation presentation st = restoreFocus (st\<lparr>activePresentation := presentation\<rparr>)"

definition trackFocusedApplication :: "NamespacedKey option \<Rightarrow> FocusCoordinator \<Rightarrow> FocusCoordinator" where
  "trackFocusedApplication identity st = invalidatePending (st\<lparr>focused := identity\<rparr>)"

definition updateResults :: "NamespacedKey list \<Rightarrow> FocusCoordinator \<Rightarrow> FocusCoordinator" where
  "updateResults identities st =
     restoreFocus (st\<lparr>resultKeys := js_set (map identityKey identities), hasResults := True\<rparr>)"

definition isCurrent :: "nat \<Rightarrow> FocusCoordinator \<Rightarrow> bool" where
  "isCurrent i st \<longleftrightarrow>
     (let w = works st ! i in
      \<not> work_aborted w \<and>
      work_revision w = revision st \<and>
      activePresentation st = Some (work_presentation w) \<and>
      js_map_get (adapters st) (work_presentation w) = Some (work_registration w) \<and>
      (case focused st of Some f \<Rightarrow> identityKey f = identityKey (work_identity w) | None \<Rightarrow> False))"

text \<open>
  The rest of \<open>resolveAndCommit\<close> when the adapter's promise settles: it resolves with a target or
  with \<open>null\<close>, or it rejects. Focusing a target and announcing never throw to the caller.
\<close>

datatype resolution = ResolvedTarget | ResolvedNull | RejectedResolution

definition finishWork :: "nat \<Rightarrow> FocusCoordinator \<Rightarrow> FocusCoordinator" where
  "finishWork i st =
     st\<lparr>pendingController := (if pendingController st = Some i then None else pendingController st),
        works := (works st)[i := (works st ! i)\<lparr>work_finished := True\<rparr>]\<rparr>"

definition resolveAndCommit :: "nat \<Rightarrow> resolution \<Rightarrow> FocusCoordinator \<Rightarrow> FocusCoordinator" where
  "resolveAndCommit i r st =
     (let w = works st ! i in
      finishWork i
        (if r = RejectedResolution \<or> \<not> isCurrent i st then st
         else if work_identityIsPresent w then
           st\<lparr>effects := effects st @ (if r = ResolvedTarget then [FocusApplication (work_identity w)] else [])\<rparr>
         else
           st\<lparr>focused := None,
              effects := effects st @ (if r = ResolvedTarget then [FocusHeading] else []) @
                [Announce (''Application '' @ identityKey (work_identity w) @ '' was removed from the results.'')]\<rparr>))"

inductive focus_step :: "FocusCoordinator \<Rightarrow> FocusCoordinator \<Rightarrow> bool" where
  register: "focus_step st (registerAdapter p st)"
| unregister: "focus_step st (unregisterAdapter p reg st)"
| activate: "focus_step st (activatePresentation p' st)"
| track: "focus_step st (trackFocusedApplication f st)"
| update: "focus_step st (updateResults ids st)"
| resolve: "i < length (works st) \<Longrightarrow> \<not> work_finished (works st ! i) \<Longrightarrow>
     focus_step st (resolveAndCommit i r st)"

inductive focus_reach :: "FocusCoordinator \<Rightarrow> bool" where
  start: "focus_reach createFleetFocusCoordinator"
| step: "focus_reach st \<Longrightarrow> focus_step st st' \<Longrightarrow> focus_reach st'"

section \<open>A stale resolution has no effect\<close>

text \<open>
  The invariant: the resolution of the current revision, if there is one, is the last one started
  and its snapshot of the coordinator is still exact.
\<close>

definition snapshot_ok :: "FocusCoordinator \<Rightarrow> focus_work \<Rightarrow> bool" where
  "snapshot_ok st w \<longleftrightarrow> activePresentation st = Some (work_presentation w) \<and>
     (work_identityIsPresent w \<longleftrightarrow> identityKey (work_identity w) \<in> set (resultKeys st)) \<and> hasResults st"

definition focus_inv :: "FocusCoordinator \<Rightarrow> bool" where
  "focus_inv st \<longleftrightarrow>
     (\<forall>i < length (works st).
        work_revision (works st ! i) \<le> revision st \<and>
        (work_revision (works st ! i) = revision st \<and> \<not> work_aborted (works st ! i) \<and> \<not> work_finished (works st ! i) \<longrightarrow>
           i = length (works st) - 1 \<and> pendingController st = Some i \<and> snapshot_ok st (works st ! i)))"

lemma focus_inv_init: "focus_inv createFleetFocusCoordinator"
  by (simp add: focus_inv_def createFleetFocusCoordinator_def)

lemma nth_update_lt: "j < length xs \<Longrightarrow> xs[i := x] ! j = (if i = j then x else xs ! j)"
  by (cases "i < length xs") (auto simp: nth_list_update)

lemma works_invalidate_revision:
  "i < length (works st) \<Longrightarrow> work_revision (works (invalidatePending st) ! i) = work_revision (works st ! i)"
  by (auto simp: invalidatePending_def abortWork_def nth_update_lt split: option.splits)

lemma length_works_invalidate [simp]: "length (works (invalidatePending st)) = length (works st)"
  by (simp add: invalidatePending_def abortWork_def split: option.splits)

lemma revision_invalidate [simp]: "revision (invalidatePending st) = Suc (revision st)"
  by (simp add: invalidatePending_def)

text \<open>Whatever an operation sets before it invalidates, no resolution is of the new revision.\<close>

definition old_works :: "FocusCoordinator \<Rightarrow> bool" where
  "old_works st \<longleftrightarrow> (\<forall>i < length (works st). work_revision (works st ! i) \<le> revision st)"

lemma old_works_inv: "focus_inv st \<Longrightarrow> old_works st"
  by (simp add: focus_inv_def old_works_def)

lemma invalidate_fresh:
  "old_works st \<Longrightarrow> \<forall>i < length (works (invalidatePending st)).
     work_revision (works (invalidatePending st) ! i) < revision (invalidatePending st)"
  by (auto simp: old_works_def works_invalidate_revision less_Suc_eq_le)

lemma focus_inv_invalidate: "old_works st \<Longrightarrow> focus_inv (invalidatePending st)"
  using invalidate_fresh [of st] by (auto simp: focus_inv_def intro: less_imp_le)

lemma focus_inv_restore:
  assumes "old_works st"
  shows "focus_inv (restoreFocus st)"
proof (cases "\<exists>f p reg. focused (invalidatePending st) = Some f \<and>
    activeRegistration (invalidatePending st) = Some (p, reg) \<and> hasResults (invalidatePending st)")
  case True
  then obtain f p reg where t: "focused (invalidatePending st) = Some f"
    "activeRegistration (invalidatePending st) = Some (p, reg)" "hasResults (invalidatePending st)" by blast
  have "activePresentation (invalidatePending st) = Some p"
    using t(2) by (auto simp: activeRegistration_def split: option.splits if_splits)
  then show ?thesis
    using t invalidate_fresh [OF assms]
    by (auto simp: restoreFocus_def Let_def focus_inv_def snapshot_ok_def nth_append intro: less_imp_le)
next
  case False
  then have "restoreFocus st = invalidatePending st"
    by (auto simp: restoreFocus_def Let_def split: option.splits)
  then show ?thesis using focus_inv_invalidate [OF assms] by simp
qed

lemma focus_inv_finish:
  assumes "focus_inv st" and "pendingController st' = pendingController st" and "works st' = works st"
    and "revision st' = revision st" and "activePresentation st' = activePresentation st"
    and "resultKeys st' = resultKeys st" and "hasResults st' = hasResults st"
  shows "focus_inv (finishWork i st')"
proof -
  let ?ws = "works (finishWork i st')"
  have n: "length ?ws = length (works st)" "revision (finishWork i st') = revision st"
    using assms by (simp_all add: finishWork_def)
  have w: "?ws ! j = (if i = j then (works st ! j)\<lparr>work_finished := True\<rparr> else works st ! j)"
    if "j < length (works st)" for j
    using that assms by (simp add: finishWork_def nth_update_lt)
  have p: "pendingController (finishWork i st') = Some j" if "pendingController st = Some j" "i \<noteq> j" for j
    using that assms by (simp add: finishWork_def)
  have s: "snapshot_ok (finishWork i st') v = snapshot_ok st v" for v
    using assms by (simp add: snapshot_ok_def finishWork_def)
  show ?thesis
    unfolding focus_inv_def n s using assms(1) w p unfolding focus_inv_def by (auto split: if_splits)
qed

lemma focus_inv_step:
  assumes "focus_step st st'" and inv: "focus_inv st"
  shows "focus_inv st'"
  using assms(1)
proof cases
  case (register p)
  let ?st = "st\<lparr>adapters := js_map_set p (nextRegistration st) (adapters st), nextRegistration := Suc (nextRegistration st)\<rparr>"
  have "old_works ?st" using old_works_inv [OF inv] by (simp add: old_works_def)
  moreover have "focus_inv ?st" using inv by (simp add: focus_inv_def snapshot_ok_def)
  ultimately show ?thesis using register by (simp add: registerAdapter_def Let_def focus_inv_restore)
next
  case (unregister p reg)
  let ?st = "st\<lparr>adapters := filter (\<lambda>q. fst q \<noteq> p) (adapters st)\<rparr>"
  have "old_works ?st" using old_works_inv [OF inv] by (simp add: old_works_def)
  moreover have "focus_inv ?st" using inv by (simp add: focus_inv_def snapshot_ok_def)
  ultimately show ?thesis using unregister inv by (simp add: unregisterAdapter_def Let_def focus_inv_invalidate)
next
  case (activate p)
  then show ?thesis using old_works_inv [OF inv]
    by (simp add: activatePresentation_def focus_inv_restore old_works_def)
next
  case (track f)
  then show ?thesis using old_works_inv [OF inv]
    by (simp add: trackFocusedApplication_def focus_inv_invalidate old_works_def)
next
  case (update ids)
  then show ?thesis using old_works_inv [OF inv]
    by (simp add: updateResults_def focus_inv_restore old_works_def)
next
  case (resolve i r)
  then show ?thesis unfolding resolve(1) resolveAndCommit_def Let_def
    by (intro focus_inv_finish [OF inv]) auto
qed

lemma focus_inv_reach: "focus_reach st \<Longrightarrow> focus_inv st"
  by (induction rule: focus_reach.induct) (auto simp: focus_inv_init intro: focus_inv_step)

text \<open>
  C33: an asynchronous resolution moves the focus or announces a removal only when it is the last
  one the coordinator started and nothing has superseded it: its presentation is still active, its
  adapter still registered, its application still the focused one, and its view of the results is
  still right, so an application that is in the results is never announced as removed. Every other
  resolution changes neither the focus nor the outside.
\<close>

theorem stale_focus_never_commits:
  assumes "focus_reach st" and "i < length (works st)" and "\<not> work_finished (works st ! i)"
  shows "(effects (resolveAndCommit i r st) = effects st \<and> focused (resolveAndCommit i r st) = focused st) \<or>
     (i = length (works st) - 1 \<and> pendingController st = Some i \<and> hasResults st \<and>
      activePresentation st = Some (work_presentation (works st ! i)) \<and>
      js_map_get (adapters st) (work_presentation (works st ! i)) = Some (work_registration (works st ! i)) \<and>
      map_option identityKey (focused st) = Some (identityKey (work_identity (works st ! i))) \<and>
      (identityKey (work_identity (works st ! i)) \<in> set (resultKeys st) \<longrightarrow>
         focused (resolveAndCommit i r st) = focused st \<and>
         set (effects (resolveAndCommit i r st)) \<subseteq>
           insert (FocusApplication (work_identity (works st ! i))) (set (effects st))) \<and>
      (identityKey (work_identity (works st ! i)) \<notin> set (resultKeys st) \<longrightarrow>
         focused (resolveAndCommit i r st) = None))"
proof (cases "r = RejectedResolution \<or> \<not> isCurrent i st")
  case True
  then show ?thesis by (simp add: resolveAndCommit_def finishWork_def Let_def)
next
  case False
  let ?w = "works st ! i"
  have c: "\<not> work_aborted ?w" "work_revision ?w = revision st" "activePresentation st = Some (work_presentation ?w)"
    "js_map_get (adapters st) (work_presentation ?w) = Some (work_registration ?w)"
    "map_option identityKey (focused st) = Some (identityKey (work_identity ?w))"
    using False by (auto simp: isCurrent_def Let_def split: option.splits)
  have "i = length (works st) - 1 \<and> pendingController st = Some i \<and> snapshot_ok st ?w"
    using focus_inv_reach [OF assms(1)] assms(2,3) c(1,2) unfolding focus_inv_def by blast
  then show ?thesis using c False
    by (auto simp: resolveAndCommit_def finishWork_def snapshot_ok_def Let_def)
qed

text \<open>A run: an application is focused, the table shows it, then it leaves the results.\<close>

definition key_x :: NamespacedKey where
  "key_x = \<lparr>key_namespace = ''a'', key_name = ''x''\<rparr>"

definition focus_demo :: FocusCoordinator where
  "focus_demo = updateResults [] (trackFocusedApplication (Some key_x)
     (activatePresentation (Some ''table'') (registerAdapter ''table'' createFleetFocusCoordinator)))"

lemma focus_demo_reach: "focus_reach focus_demo"
  unfolding focus_demo_def
  by (intro focus_reach.step [OF _ focus_step.update] focus_reach.step [OF _ focus_step.track]
      focus_reach.step [OF _ focus_step.activate] focus_reach.step [OF _ focus_step.register] focus_reach.start)

lemmas focus_ops = updateResults_def trackFocusedApplication_def activatePresentation_def registerAdapter_def
  createFleetFocusCoordinator_def restoreFocus_def invalidatePending_def activeRegistration_def abortWork_def
  js_map_set_def js_map_get_def js_set_def Let_def

lemma focus_demo_works:
  "works focus_demo = [\<lparr>work_identity = key_x, work_identityIsPresent = False, work_presentation = ''table'',
     work_registration = 0, work_revision = 3, work_aborted = False, work_finished = False\<rparr>]"
  "resultKeys focus_demo = []" "effects focus_demo = []"
  by (simp_all add: focus_demo_def focus_ops)

theorem stale_focus_never_commits_witness:
  "focus_reach focus_demo \<and> length (works focus_demo) = 1 \<and>
   focused (resolveAndCommit 0 ResolvedTarget focus_demo) = None"
proof -
  have e: "effects (resolveAndCommit 0 ResolvedTarget focus_demo) \<noteq> effects focus_demo"
    by (simp add: focus_demo_def focus_ops resolveAndCommit_def finishWork_def isCurrent_def)
  show ?thesis
    using stale_focus_never_commits [OF focus_demo_reach, of 0 ResolvedTarget] focus_demo_reach e
    by (simp add: focus_demo_works)
qed

end
