(* ===== verification/PipelineModel.thy ===== *)
theory PipelineModel
  imports DataGate StatusTone
begin

text \<open>
  What the pipeline views derive from the wire (\<open>ui/src/app/dashboard/pipelines/pipeline-model.ts\<close>):
  the availability of a data class and of one field, phases, elapsed times, the statistics strip,
  the provenance line, step resources and the run history. Times are integral milliseconds; seconds
  since the epoch are far below \<open>2^42\<close>, where their product with 1000 is exact.
\<close>

section \<open>Messages\<close>

record Step =
  step_name :: string

record StepStatus =
  status_name :: string
  status_phase :: string
  status_startedAt :: "int option"
  status_completedAt :: "int option"

record Pipeline =
  pipeline_createdAt :: int
  pipeline_steps :: "Step list"
  pipeline_phase :: string
  pipeline_stepStatuses :: "StepStatus list"

record CommitInfo =
  commit_state :: DataState
  commit_revision :: string
  commit_shortRevision :: string
  commit_authorName :: string
  commit_message :: string
  commit_url :: string

record StepResources =
  res_cpuRequestMillicores :: js_number
  res_memoryRequestBytes :: js_number
  res_cpuLimitMillicores :: js_number
  res_memoryLimitBytes :: js_number

record PipelineRunStep =
  runstep_name :: string
  runstep_resources :: "StepResources option"

record PipelineTestSummary =
  tests_state :: DataState
  tests_total :: int
  tests_passed :: int
  tests_failed :: int
  tests_skipped :: int
  tests_flaked :: int

record PipelineCacheSummary =
  cache_state :: DataState
  cache_hitRatio :: js_number
  cache_scope :: string

record PipelineRunSummary =
  run_pipeline :: "FleetObjectKeyMessage option"
  run_runNumber :: int
  run_outcome :: PipelineRunOutcome
  run_durationMs :: int
  run_steps :: "PipelineRunStep list"
  run_commit :: "CommitInfo option"
  run_triggeredBy :: string
  run_tests :: "PipelineTestSummary option"
  run_cache :: "PipelineCacheSummary option"
  run_computeState :: DataState
  run_cpuMinutes :: js_number
  run_cpuMinutesBasis :: ComputeBasis

section \<open>Availability\<close>

datatype Availability = Avail_ok | Avail_stale int | Avail_absent | Avail_unavailable string

definition GENERIC_UNAVAILABLE_REASON :: string where
  "GENERIC_UNAVAILABLE_REASON = ''Not reported by the control plane''"

text \<open>The options of \<open>availabilityOf\<close>: a reason and an observation time, either of which may be absent.\<close>

definition availabilityOf :: "DataState option \<Rightarrow> string option \<Rightarrow> int option \<Rightarrow> Availability" where
  "availabilityOf state reason observedAtMs =
     (case state of
        Some DataState_OK \<Rightarrow> Avail_ok
      | Some DataState_STALE \<Rightarrow> Avail_stale (case observedAtMs of Some t \<Rightarrow> t | None \<Rightarrow> 0)
      | Some s \<Rightarrow>
          if s = DataState_NOT_AVAILABLE \<or> s = DataState_ERROR \<or> s = DataState_FORBIDDEN
          then Avail_unavailable (js_or (case reason of Some r \<Rightarrow> trim r | None \<Rightarrow> []) GENERIC_UNAVAILABLE_REASON)
          else Avail_absent
      | None \<Rightarrow> Avail_absent)"

definition isRenderable :: "Availability \<Rightarrow> bool" where
  "isRenderable availability \<longleftrightarrow> availability \<noteq> Avail_absent"

definition hasNumerics :: "Availability \<Rightarrow> bool" where
  "hasNumerics availability =
     (case availability of Avail_ok \<Rightarrow> True | Avail_stale _ \<Rightarrow> True | _ \<Rightarrow> False)"

definition narrowAvailability :: "Availability \<Rightarrow> Availability \<Rightarrow> Availability" where
  "narrowAvailability outer inner =
     (if outer = Avail_absent \<or> inner = Avail_absent then Avail_absent
      else case outer of
        Avail_unavailable _ \<Rightarrow> outer
      | _ \<Rightarrow>
          (case inner of
             Avail_unavailable _ \<Rightarrow> inner
           | _ \<Rightarrow> (case outer of Avail_stale _ \<Rightarrow> outer | _ \<Rightarrow> inner)))"

definition classAvailability :: "DataSourceIndex option \<Rightarrow> DataClass \<Rightarrow> Availability" where
  "classAvailability index dataClass =
     (case Option.bind index (\<lambda>ix. js_map_get ix dataClass) of
        None \<Rightarrow> Avail_absent
      | Some source \<Rightarrow>
          availabilityOf (Some (dss_state source)) (Some (dss_unavailableReason source))
            (Some (dss_observedAtUnixMs source)))"

section \<open>Phases and times\<close>

definition STEP_TONES :: "string \<Rightarrow> StatusTone option" where
  "STEP_TONES =
     map_of [(''Succeeded'', Healthy), (''Running'', Progressing), (''Failed'', Failed), (''Skipped'', Missing),
             (''Cancelled'', Unknown), (''Pending'', Pending)]"

definition TERMINAL_PHASES :: "string list" where
  "TERMINAL_PHASES = [''Succeeded'', ''Failed'', ''Skipped'', ''Cancelled'']"

definition phaseTone :: "string option \<Rightarrow> StatusTone" where
  "phaseTone phase =
     (case phase of
        None \<Rightarrow> Pending
      | Some p \<Rightarrow> if p = [] then Pending else (case STEP_TONES p of Some t \<Rightarrow> t | None \<Rightarrow> Unknown))"

definition phaseLabel :: "string option \<Rightarrow> string" where
  "phaseLabel phase = (case phase of Some p \<Rightarrow> (if 0 < length p then p else ''Pending'') | None \<Rightarrow> ''Pending'')"

definition isTerminalPhase :: "string option \<Rightarrow> bool" where
  "isTerminalPhase phase = (case phase of Some p \<Rightarrow> p \<noteq> [] \<and> p \<in> set TERMINAL_PHASES | None \<Rightarrow> False)"

definition pad2 :: "int \<Rightarrow> string" where
  "pad2 value = (if value < 10 then ''0'' @ int_str value else int_str value)"

definition formatDuration :: "js_number \<Rightarrow> string" where
  "formatDuration ms =
     (case ms of
        Fin m \<Rightarrow>
          if m < 0 then ''0s''
          else
            let totalSeconds = js_floor_int (js_div_const ms 1000) in
            if totalSeconds < 60 then int_str totalSeconds @ ''s''
            else
              let minutes = floor_div totalSeconds 60 in
              if minutes < 60 then int_str minutes @ ''m '' @ pad2 (totalSeconds mod 60) @ ''s''
              else int_str (floor_div minutes 60) @ ''h '' @ pad2 (minutes mod 60) @ ''m''
      | _ \<Rightarrow> ''0s'')"

definition secondsToMs :: "int option \<Rightarrow> int option" where
  "secondsToMs value =
     (case value of None \<Rightarrow> None | Some v \<Rightarrow> let ms = v * 1000 in if 0 < ms then Some ms else None)"

definition stepElapsedMs :: "StepStatus option \<Rightarrow> int \<Rightarrow> int option" where
  "stepElapsedMs status nowMs =
     (case secondsToMs (Option.bind status status_startedAt) of
        None \<Rightarrow> None
      | Some started \<Rightarrow>
          Some (max 0 ((case secondsToMs (Option.bind status status_completedAt) of Some c \<Rightarrow> c | None \<Rightarrow> nowMs)
                       - started)))"

definition pipelineStartedAtMs :: "Pipeline \<Rightarrow> int option" where
  "pipelineStartedAtMs pipeline =
     (let starts = List.map_filter (\<lambda>status. secondsToMs (status_startedAt status)) (pipeline_stepStatuses pipeline)
      in if 0 < length starts then Some (Min (set starts)) else secondsToMs (Some (pipeline_createdAt pipeline)))"

definition pipelineElapsedMs :: "Pipeline \<Rightarrow> int \<Rightarrow> int option" where
  "pipelineElapsedMs pipeline nowMs =
     (case pipelineStartedAtMs pipeline of
        None \<Rightarrow> None
      | Some started \<Rightarrow>
          let ends = List.map_filter (\<lambda>status. secondsToMs (status_completedAt status)) (pipeline_stepStatuses pipeline)
          in if isTerminalPhase (Some (pipeline_phase pipeline)) \<and> 0 < length ends
             then Some (max 0 (Max (set ends) - started))
             else Some (max 0 (nowMs - started)))"

record StepProgress =
  progress_done :: int
  progress_total :: int

definition stepProgress :: "Pipeline \<Rightarrow> StepProgress" where
  "stepProgress pipeline =
     (let total = int (length (pipeline_steps pipeline));
          finished = int (length (filter (\<lambda>status. isTerminalPhase (Some (status_phase status)))
                            (pipeline_stepStatuses pipeline)))
      in \<lparr>progress_done = min finished total, progress_total = total\<rparr>)"

section \<open>The statistics strip\<close>

record StatCell =
  cell_key :: string
  cell_label :: string
  cell_value :: "string option"
  cell_note :: "string option"
  cell_tone :: "StatusTone option"
  cell_unavailableReason :: "string option"
  cell_staleObservedAtMs :: "int option"

definition stat_cell :: "string \<Rightarrow> string \<Rightarrow> StatCell" where
  "stat_cell key label = \<lparr>cell_key = key, cell_label = label, cell_value = None, cell_note = None,
     cell_tone = None, cell_unavailableReason = None, cell_staleObservedAtMs = None\<rparr>"

definition staleMarker :: "Availability \<Rightarrow> int option" where
  "staleMarker availability = (case availability of Avail_stale t \<Rightarrow> Some t | _ \<Rightarrow> None)"

definition computeBasisNote :: "ComputeBasis \<Rightarrow> string option" where
  "computeBasisNote basis =
     (case basis of
        ComputeBasis_MEASURED \<Rightarrow> Some ''measured''
      | ComputeBasis_REQUESTED \<Rightarrow> Some ''estimate from requests''
      | _ \<Rightarrow> None)"

definition nonempty :: "string \<Rightarrow> string option" where
  "nonempty s = (if s = [] then None else Some s)"

text \<open>The state of one field, seen through the availability of its class.\<close>

definition fieldAvailability :: "Availability \<Rightarrow> DataState \<Rightarrow> Availability" where
  "fieldAvailability runs state =
     narrowAvailability runs (availabilityOf (Some state) None (staleMarker runs))"

definition cacheCells :: "Availability \<Rightarrow> PipelineCacheSummary \<Rightarrow> StatCell list" where
  "cacheCells runs cache =
     (case fieldAvailability runs (cache_state cache) of
        Avail_unavailable reason \<Rightarrow> [(stat_cell ''cache'' ''Cache hit'')\<lparr>cell_unavailableReason := Some reason\<rparr>]
      | availability \<Rightarrow>
          if hasNumerics availability then
            [(stat_cell ''cache'' ''Cache hit'')
               \<lparr>cell_value := Some (js_round_str (js_mul_const (cache_hitRatio cache) 100) @ ''%''),
                cell_note := nonempty (cache_scope cache),
                cell_staleObservedAtMs := staleMarker availability\<rparr>]
          else [])"

definition testNotes :: "PipelineTestSummary \<Rightarrow> string list" where
  "testNotes tests =
     (if 0 < tests_failed tests then [int_str (tests_failed tests) @ '' failed''] else []) @
     (if 0 < tests_flaked tests then [int_str (tests_flaked tests) @ '' flaked''] else []) @
     (if 0 < tests_skipped tests then [int_str (tests_skipped tests) @ '' skipped''] else [])"

definition testCells :: "Availability \<Rightarrow> PipelineTestSummary \<Rightarrow> StatCell list" where
  "testCells runs tests =
     (case fieldAvailability runs (tests_state tests) of
        Avail_unavailable reason \<Rightarrow> [(stat_cell ''tests'' ''Tests'')\<lparr>cell_unavailableReason := Some reason\<rparr>]
      | availability \<Rightarrow>
          if hasNumerics availability then
            [(stat_cell ''tests'' ''Tests'')
               \<lparr>cell_value := Some (int_str (tests_passed tests) @ ''/'' @ int_str (tests_total tests)),
                cell_note := nonempty (js_join dot_sep (testNotes tests)),
                cell_tone := (if 0 < tests_failed tests then Some Failed
                              else if 0 < tests_flaked tests then Some Degraded else None),
                cell_staleObservedAtMs := staleMarker availability\<rparr>]
          else [])"

definition cpuCells :: "Availability \<Rightarrow> PipelineRunSummary \<Rightarrow> StatCell list" where
  "cpuCells runs run =
     (case fieldAvailability runs (run_computeState run) of
        Avail_unavailable reason \<Rightarrow> [(stat_cell ''cpu'' ''CPU-min'')\<lparr>cell_unavailableReason := Some reason\<rparr>]
      | availability \<Rightarrow>
          if hasNumerics availability then
            [(stat_cell ''cpu'' ''CPU-min'')
               \<lparr>cell_value := Some (js_toFixed (run_cpuMinutes run) 1),
                cell_note := computeBasisNote (run_cpuMinutesBasis run),
                cell_staleObservedAtMs := staleMarker availability\<rparr>]
          else [])"

definition runCells :: "Availability \<Rightarrow> PipelineRunSummary option \<Rightarrow> StatCell list" where
  "runCells availability run =
     (case availability of
        Avail_absent \<Rightarrow> []
      | Avail_unavailable reason \<Rightarrow> [(stat_cell ''runs'' ''Run metrics'')\<lparr>cell_unavailableReason := Some reason\<rparr>]
      | _ \<Rightarrow>
          (case run of
             None \<Rightarrow> []
           | Some r \<Rightarrow>
               (case run_cache r of Some cache \<Rightarrow> cacheCells availability cache | None \<Rightarrow> []) @
               (case run_tests r of Some tests \<Rightarrow> testCells availability tests | None \<Rightarrow> []) @
               cpuCells availability r))"

definition pipelineStatCells :: "Pipeline \<Rightarrow> int \<Rightarrow> Availability \<Rightarrow> PipelineRunSummary option \<Rightarrow> StatCell list" where
  "pipelineStatCells pipeline nowMs availability run =
     (case pipelineElapsedMs pipeline nowMs of
        Some elapsed \<Rightarrow>
          [(stat_cell ''elapsed'' ''Elapsed'')\<lparr>cell_value := Some (formatDuration (Fin (of_int elapsed)))\<rparr>]
      | None \<Rightarrow> []) @
     (let progress = stepProgress pipeline in
      if 0 < progress_total progress then
        [(stat_cell ''steps'' ''Steps'')
           \<lparr>cell_value := Some (int_str (progress_done progress) @ ''/'' @ int_str (progress_total progress))\<rparr>]
      else []) @
     runCells availability run"

section \<open>The run sub-line\<close>

record RunProvenance =
  prov_runNumber :: "string option"
  prov_triggeredBy :: "string option"
  prov_commitShort :: "string option"
  prov_commitMessage :: "string option"
  prov_commitUrl :: "string option"
  prov_startedAgo :: "string option"

definition commitProvenance :: "Availability \<Rightarrow> CommitInfo \<Rightarrow> RunProvenance \<Rightarrow> RunProvenance" where
  "commitProvenance class commit provenance =
     (if \<not> hasNumerics (narrowAvailability class (availabilityOf (Some (commit_state commit)) None None)) then provenance
      else provenance
        \<lparr>prov_commitShort := nonempty (js_or (commit_shortRevision commit) (take 7 (commit_revision commit))),
         prov_commitMessage :=
           (if commit_message commit = [] then None else Some (hd (split_on (CHR 0x0A) (commit_message commit)))),
         prov_commitUrl := nonempty (commit_url commit),
         prov_triggeredBy :=
           (if prov_triggeredBy provenance = None then nonempty (commit_authorName commit)
            else prov_triggeredBy provenance)\<rparr>)"

definition runProvenance ::
    "Pipeline \<Rightarrow> int \<Rightarrow> Availability \<Rightarrow> PipelineRunSummary option \<Rightarrow> Availability \<Rightarrow> RunProvenance" where
  "runProvenance pipeline nowMs availability run commitClass =
     (let started = \<lparr>prov_runNumber = None, prov_triggeredBy = None, prov_commitShort = None,
            prov_commitMessage = None, prov_commitUrl = None,
            prov_startedAgo = map_option (\<lambda>s. formatDuration (Fin (of_int (max 0 (nowMs - s)))) @ '' ago'')
              (pipelineStartedAtMs pipeline)\<rparr>
      in case run of
           None \<Rightarrow> started
         | Some r \<Rightarrow>
             if \<not> hasNumerics availability then started
             else
               let withRun = started
                 \<lparr>prov_runNumber := (if 0 < run_runNumber r then Some (''run #'' @ int_str (run_runNumber r)) else None),
                  prov_triggeredBy := nonempty (run_triggeredBy r)\<rparr>
               in case run_commit r of
                    None \<Rightarrow> withRun
                  | Some commit \<Rightarrow> commitProvenance commitClass commit withRun)"

section \<open>Step resources\<close>

definition formatMillicores :: "js_number \<Rightarrow> string option" where
  "formatMillicores millicores =
     (case millicores of
        Fin m \<Rightarrow>
          if m \<le> 0 then None
          else if 1000 \<le> m then
            Some (js_toFixed (js_div_const millicores 1000)
                    (if of_int \<lfloor>m / 1000\<rfloor> * 1000 = m then 0 else 1) @ '' CPU'')
          else Some (int_str (js_round m) @ ''m CPU'')
      | _ \<Rightarrow> None)"

definition formatBytes :: "js_number \<Rightarrow> string option" where
  "formatBytes bytes =
     (case bytes of
        Fin b \<Rightarrow>
          if b \<le> 0 then None
          else (case js_div_const bytes (1024 ^ 3) of
            Fin gib \<Rightarrow>
              if 1 \<le> gib then Some (js_toFixed (Fin gib) (if of_int \<lfloor>gib\<rfloor> = gib then 0 else 1) @ '' GiB'')
              else Some (js_round_str (js_div_const bytes (1024 ^ 2)) @ '' MiB'')
          | _ \<Rightarrow> None)
      | _ \<Rightarrow> None)"

definition first_some :: "'a option \<Rightarrow> 'a option \<Rightarrow> 'a option" where
  "first_some a b = (case a of Some _ \<Rightarrow> a | None \<Rightarrow> b)"

definition stepResourceLabel :: "PipelineRunStep option \<Rightarrow> Availability \<Rightarrow> string option" where
  "stepResourceLabel step availability =
     (if \<not> hasNumerics availability then None
      else case Option.bind step runstep_resources of
        None \<Rightarrow> None
      | Some resources \<Rightarrow>
          let cpu = first_some (formatMillicores (res_cpuLimitMillicores resources))
                      (formatMillicores (res_cpuRequestMillicores resources));
              memory = first_some (formatBytes (res_memoryLimitBytes resources))
                         (formatBytes (res_memoryRequestBytes resources));
              parts = List.map_filter id [cpu, memory]
          in if 0 < length parts then Some (js_join '' / '' parts) else None)"

definition runStepByName :: "PipelineRunSummary option \<Rightarrow> string \<Rightarrow> PipelineRunStep option" where
  "runStepByName run name =
     Option.bind run (\<lambda>r. List.find (\<lambda>step. runstep_name step = name) (run_steps r))"

definition phaseOf :: "Pipeline \<Rightarrow> string \<Rightarrow> string" where
  "phaseOf pipeline name =
     (case List.find (\<lambda>status. status_name status = name) (pipeline_stepStatuses pipeline) of
        Some status \<Rightarrow> status_phase status | None \<Rightarrow> [])"

definition defaultSelectedStep :: "Pipeline \<Rightarrow> string option" where
  "defaultSelectedStep pipeline =
     (case List.find (\<lambda>step. phaseOf pipeline (step_name step) = ''Running'') (pipeline_steps pipeline) of
        Some running \<Rightarrow> Some (step_name running)
      | None \<Rightarrow>
          (case List.find (\<lambda>step. phaseOf pipeline (step_name step) = ''Failed'') (pipeline_steps pipeline) of
             Some failed \<Rightarrow> Some (step_name failed)
           | None \<Rightarrow> (case pipeline_steps pipeline of [] \<Rightarrow> None | step # _ \<Rightarrow> Some (step_name step))))"

section \<open>Run outcomes\<close>

definition runOutcomeTone :: "PipelineRunOutcome \<Rightarrow> StatusTone" where
  "runOutcomeTone outcome =
     (case outcome of
        PipelineRunOutcome_SUCCEEDED \<Rightarrow> Healthy
      | PipelineRunOutcome_FAILED \<Rightarrow> Failed
      | PipelineRunOutcome_CANCELLED \<Rightarrow> Unknown
      | _ \<Rightarrow> Unknown)"

definition runOutcomeLabel :: "PipelineRunOutcome \<Rightarrow> string" where
  "runOutcomeLabel outcome =
     (case outcome of
        PipelineRunOutcome_SUCCEEDED \<Rightarrow> ''Succeeded''
      | PipelineRunOutcome_FAILED \<Rightarrow> ''Failed''
      | PipelineRunOutcome_CANCELLED \<Rightarrow> ''Cancelled''
      | _ \<Rightarrow> ''Unknown'')"

definition pipelineKey :: "string \<Rightarrow> string \<Rightarrow> string" where
  "pipelineKey namespace name = namespace @ ''/'' @ name"

definition indexLatestRuns :: "PipelineRunSummary list \<Rightarrow> (string, PipelineRunSummary) js_map" where
  "indexLatestRuns runs =
     foldl (\<lambda>latest run.
       case run_pipeline run of
         None \<Rightarrow> latest
       | Some pipeline \<Rightarrow>
           let key = pipelineKey (okey_namespace pipeline) (okey_name pipeline) in
           (case js_map_get latest key of
              None \<Rightarrow> js_map_set key run latest
            | Some current \<Rightarrow>
                if run_runNumber current < run_runNumber run then js_map_set key run latest else latest))
       [] runs"

definition lastRunLabel :: "PipelineRunSummary option \<Rightarrow> string option" where
  "lastRunLabel run =
     (case run of
        None \<Rightarrow> None
      | Some r \<Rightarrow>
          Some (js_join dot_sep
            ((if 0 < run_runNumber r then [''#'' @ int_str (run_runNumber r)] else []) @
             [runOutcomeLabel (run_outcome r)] @
             (if 0 < run_durationMs r then [formatDuration (js_Number (run_durationMs r))] else []))))"

section \<open>Availability against the console's gate\<close>

text \<open>
  The pipeline views agree with the console-wide gate on which states carry numbers, for every
  state; they agree on which surfaces are drawn for every state except one: a forbidden class is
  drawn here, greyed out with a reason, and is not drawn anywhere else.
\<close>

theorem pipeline_gate_divergence:
  "hasNumerics (availabilityOf state reason observed) = numbersAreReal state \<and>
   (isRenderable (availabilityOf state reason observed) = surfaceExists state \<longleftrightarrow>
      state \<noteq> Some DataState_FORBIDDEN)"
  by (auto simp: availabilityOf_def hasNumerics_def isRenderable_def numbersAreReal_def surfaceExists_def
      dispositionFor_def split: option.splits DataState.splits)

text \<open>How restrictive an availability is.\<close>

fun restriction :: "Availability \<Rightarrow> nat" where
  "restriction Avail_ok = 0"
| "restriction (Avail_stale t) = 1"
| "restriction (Avail_unavailable r) = 2"
| "restriction Avail_absent = 3"

lemma narrow_eq: "narrowAvailability a b = (if restriction b \<le> restriction a then a else b)"
  by (cases a; cases b) (simp_all add: narrowAvailability_def)

lemma hasNumerics_restriction: "hasNumerics a \<longleftrightarrow> restriction a \<le> 1"
  by (cases a) (simp_all add: hasNumerics_def)

text \<open>
  Narrowing is the more restrictive of two availabilities, the outer one on a tie: it is
  associative and idempotent with "ok" as its unit, so the order in which a class and its fields are
  narrowed does not matter, and a narrowed field has numbers only when both its class and the field
  have them.
\<close>

theorem narrow_is_meet:
  "restriction (narrowAvailability a b) = max (restriction a) (restriction b) \<and>
   narrowAvailability (narrowAvailability a b) c = narrowAvailability a (narrowAvailability b c) \<and>
   narrowAvailability a a = a \<and> narrowAvailability Avail_ok a = a \<and> narrowAvailability a Avail_ok = a \<and>
   (hasNumerics (narrowAvailability a b) \<longleftrightarrow> hasNumerics a \<and> hasNumerics b)"
  by (cases a; cases b; cases c) (simp_all add: narrow_eq hasNumerics_def)

section \<open>The strip shows no number it does not have\<close>

lemma fieldAvailability_numerics:
  "hasNumerics (fieldAvailability runs state) \<longleftrightarrow>
     hasNumerics runs \<and> (state = DataState_OK \<or> state = DataState_STALE)"
  by (cases runs; cases state)
    (simp_all add: fieldAvailability_def narrowAvailability_def availabilityOf_def hasNumerics_def)

lemma fieldAvailability_stale:
  "hasNumerics (fieldAvailability runs state) \<Longrightarrow>
     (staleMarker (fieldAvailability runs state) \<noteq> None \<longleftrightarrow>
      state = DataState_STALE \<or> staleMarker runs \<noteq> None)"
  by (cases runs; cases state)
    (simp_all add: fieldAvailability_def narrowAvailability_def availabilityOf_def hasNumerics_def staleMarker_def)

text \<open>What a cell of one field may be: a number with real data behind it, or a reason and no number.\<close>

definition honest_cell :: "Availability \<Rightarrow> DataState \<Rightarrow> StatCell \<Rightarrow> bool" where
  "honest_cell runs state cell \<longleftrightarrow>
     (if cell_value cell \<noteq> None
      then hasNumerics runs \<and> (state = DataState_OK \<or> state = DataState_STALE) \<and>
           cell_unavailableReason cell = None \<and>
           (cell_staleObservedAtMs cell \<noteq> None \<longleftrightarrow> state = DataState_STALE \<or> staleMarker runs \<noteq> None)
      else cell_unavailableReason cell \<noteq> None)"

lemma cell_simps [simp]:
  "cell_key (stat_cell k l) = k" "cell_value (stat_cell k l) = None" "cell_unavailableReason (stat_cell k l) = None"
  "cell_staleObservedAtMs (stat_cell k l) = None"
  by (simp_all add: stat_cell_def)

lemma cacheCells_honest: "cell \<in> set (cacheCells runs cache) \<Longrightarrow> cell_key cell = ''cache'' \<and> honest_cell runs (cache_state cache) cell"
  using fieldAvailability_numerics [of runs "cache_state cache"] fieldAvailability_stale [of runs "cache_state cache"]
  by (auto simp: cacheCells_def honest_cell_def split: Availability.splits if_splits)

lemma testCells_honest: "cell \<in> set (testCells runs tests) \<Longrightarrow> cell_key cell = ''tests'' \<and> honest_cell runs (tests_state tests) cell"
  using fieldAvailability_numerics [of runs "tests_state tests"] fieldAvailability_stale [of runs "tests_state tests"]
  by (auto simp: testCells_def honest_cell_def split: Availability.splits if_splits)

lemma cpuCells_honest: "cell \<in> set (cpuCells runs run) \<Longrightarrow> cell_key cell = ''cpu'' \<and> honest_cell runs (run_computeState run) cell"
  using fieldAvailability_numerics [of runs "run_computeState run"] fieldAvailability_stale [of runs "run_computeState run"]
  by (auto simp: cpuCells_def honest_cell_def split: Availability.splits if_splits)

text \<open>
  A cell of the strip that comes from the run metrics shows a number only when the class and
  the cell's own field are fresh or stale, wears an age badge exactly when one of the two is stale,
  and otherwise carries a reason and no number; with the class absent the strip has only the
  elapsed time and the steps.
\<close>

theorem stat_cells_honest:
  assumes "cell \<in> set (pipelineStatCells pipeline nowMs runs run)"
  shows "(cell_key cell = ''elapsed'' \<and> pipelineElapsedMs pipeline nowMs \<noteq> None) \<or>
     (cell_key cell = ''steps'' \<and> pipeline_steps pipeline \<noteq> []) \<or>
     (runs \<noteq> Avail_absent \<and>
       ((cell_key cell = ''runs'' \<and> cell_value cell = None \<and> \<not> hasNumerics runs \<and>
           (\<exists>reason. runs = Avail_unavailable reason \<and> cell_unavailableReason cell = Some reason)) \<or>
        (\<exists>r. run = Some r \<and>
          (cell_key cell = ''cache'' \<and> (\<exists>cache. run_cache r = Some cache \<and> honest_cell runs (cache_state cache) cell) \<or>
           cell_key cell = ''tests'' \<and> (\<exists>tests. run_tests r = Some tests \<and> honest_cell runs (tests_state tests) cell) \<or>
           cell_key cell = ''cpu'' \<and> honest_cell runs (run_computeState r) cell))))"
proof -
  have "cell_key cell = ''elapsed'' \<and> pipelineElapsedMs pipeline nowMs \<noteq> None \<or>
      cell_key cell = ''steps'' \<and> pipeline_steps pipeline \<noteq> [] \<or> cell \<in> set (runCells runs run)"
    using assms by (auto simp: pipelineStatCells_def stepProgress_def Let_def split: option.splits if_splits)
  moreover have ?thesis if rc: "cell \<in> set (runCells runs run)"
  proof (cases "hasNumerics runs")
    case True
    obtain r where r: "run = Some r" using rc True
      by (cases run) (auto simp: runCells_def hasNumerics_def split: Availability.splits)
    then have "(\<exists>cache. run_cache r = Some cache \<and> cell \<in> set (cacheCells runs cache)) \<or>
        (\<exists>tests. run_tests r = Some tests \<and> cell \<in> set (testCells runs tests)) \<or> cell \<in> set (cpuCells runs r)"
      using rc True by (auto simp: runCells_def hasNumerics_def split: Availability.splits option.splits)
    moreover have "runs \<noteq> Avail_absent" using True by (auto simp: hasNumerics_def)
    ultimately show ?thesis using r cacheCells_honest testCells_honest cpuCells_honest by blast
  next
    case False
    then show ?thesis using rc by (auto simp: runCells_def hasNumerics_def split: Availability.splits)
  qed
  ultimately show ?thesis by blast
qed

definition sample_run :: PipelineRunSummary where
  "sample_run = \<lparr>run_pipeline = Some \<lparr>okey_namespace = ''ci'', okey_name = ''build''\<rparr>, run_runNumber = 418,
     run_outcome = PipelineRunOutcome_SUCCEEDED, run_durationMs = 134000, run_steps = [], run_commit = None,
     run_triggeredBy = [], run_tests = None, run_cache = None, run_computeState = DataState_ERROR,
     run_cpuMinutes = Fin 0, run_cpuMinutesBasis = ComputeBasis_UNSPECIFIED\<rparr>"

definition sample_pipeline :: Pipeline where
  "sample_pipeline = \<lparr>pipeline_createdAt = 0, pipeline_steps = [], pipeline_phase = ''Running'', pipeline_stepStatuses = []\<rparr>"

definition sample_cell :: StatCell where
  "sample_cell = (stat_cell ''cpu'' ''CPU-min'')\<lparr>cell_unavailableReason := Some GENERIC_UNAVAILABLE_REASON\<rparr>"

theorem stat_cells_honest_witness:
  "sample_cell \<in> set (pipelineStatCells sample_pipeline 0 Avail_ok (Some sample_run)) \<and>
   honest_cell Avail_ok DataState_ERROR sample_cell"
proof -
  have "sample_cell \<in> set (pipelineStatCells sample_pipeline 0 Avail_ok (Some sample_run))"
    by (simp add: pipelineStatCells_def sample_pipeline_def pipelineElapsedMs_def pipelineStartedAtMs_def
        secondsToMs_def stepProgress_def runCells_def sample_run_def cpuCells_def fieldAvailability_def
        narrowAvailability_def availabilityOf_def staleMarker_def js_or_def sample_cell_def List.map_filter_simps)
  then show ?thesis using stat_cells_honest [of sample_cell sample_pipeline 0 Avail_ok "Some sample_run"]
    by (auto simp: sample_cell_def sample_run_def)
qed

section \<open>Runs\<close>

definition run_key :: "PipelineRunSummary \<Rightarrow> string option" where
  "run_key run = map_option (\<lambda>p. pipelineKey (okey_namespace p) (okey_name p)) (run_pipeline run)"

lemma indexLatestRuns_snoc:
  "js_map_get (indexLatestRuns (runs @ [run])) k =
     (if run_key run = Some k \<and>
         (case js_map_get (indexLatestRuns runs) k of None \<Rightarrow> True | Some c \<Rightarrow> run_runNumber c < run_runNumber run)
      then Some run else js_map_get (indexLatestRuns runs) k)"
  by (auto simp: indexLatestRuns_def run_key_def Let_def js_map_get_set split: option.splits)

text \<open>
  The index holds, for every pipeline with a run, a run of that pipeline with the highest run
  number, and of several such runs the one that comes first in the page; and nothing for a
  pipeline without one.
\<close>

theorem latest_run_is_maximum:
  "case js_map_get (indexLatestRuns runs) k of
     None \<Rightarrow> \<forall>r \<in> set runs. run_key r \<noteq> Some k
   | Some run \<Rightarrow>
       (\<exists>before after. runs = before @ run # after \<and> run_key run = Some k \<and>
          (\<forall>r \<in> set before. run_key r = Some k \<longrightarrow> run_runNumber r < run_runNumber run) \<and>
          (\<forall>r \<in> set after. run_key r = Some k \<longrightarrow> run_runNumber r \<le> run_runNumber run))"
proof (induction runs rule: rev_induct)
  case Nil
  then show ?case by (simp add: indexLatestRuns_def)
next
  case (snoc x runs)
  show ?case
  proof (cases "js_map_get (indexLatestRuns runs) k")
    case None
    then have none: "\<forall>r \<in> set runs. run_key r \<noteq> Some k" using snoc by simp
    show ?thesis
    proof (cases "run_key x = Some k")
      case True
      then show ?thesis using None none
        by (simp add: indexLatestRuns_snoc) (intro exI [of _ runs] exI [of _ "[]"], simp)
    next
      case False
      then show ?thesis using None none by (simp add: indexLatestRuns_snoc)
    qed
  next
    case (Some c)
    with snoc obtain before after where ba: "runs = before @ c # after" "run_key c = Some k"
      "\<forall>r \<in> set before. run_key r = Some k \<longrightarrow> run_runNumber r < run_runNumber c"
      "\<forall>r \<in> set after. run_key r = Some k \<longrightarrow> run_runNumber r \<le> run_runNumber c" by auto
    show ?thesis
    proof (cases "run_key x = Some k \<and> run_runNumber c < run_runNumber x")
      case True
      have "\<forall>r \<in> set runs. run_key r = Some k \<longrightarrow> run_runNumber r < run_runNumber x"
        using ba True by fastforce
      then show ?thesis using True Some
        by (simp add: indexLatestRuns_snoc) (intro exI [of _ runs] exI [of _ "[]"], simp)
    next
      case False
      then have "js_map_get (indexLatestRuns (runs @ [x])) k = Some c" using Some by (auto simp: indexLatestRuns_snoc)
      then show ?thesis using ba False
        by simp (intro exI [of _ before] exI [of _ "after @ [x]"], auto)
    qed
  qed
qed

theorem latest_run_is_maximum_witness:
  "run_runNumber (the (js_map_get (indexLatestRuns [sample_run, sample_run\<lparr>run_runNumber := 7\<rparr>]) ''ci/build'')) = 418"
proof -
  let ?runs = "[sample_run, sample_run\<lparr>run_runNumber := 7\<rparr>]"
  have "js_map_get (indexLatestRuns ?runs) ''ci/build'' = Some sample_run"
    by (simp add: indexLatestRuns_def sample_run_def js_map_set_def js_map_get_def pipelineKey_def)
  then show ?thesis using latest_run_is_maximum [of ?runs "''ci/build''"] by (simp add: sample_run_def)
qed

text \<open>
  The step selected by default is a running step when there is one, else a failed one when
  there is one, else the first step; a pipeline with steps always has one selected, and it is one of
  its steps.
\<close>

theorem default_step_priority:
  "case defaultSelectedStep pipeline of
     None \<Rightarrow> pipeline_steps pipeline = []
   | Some name \<Rightarrow>
       name \<in> step_name ` set (pipeline_steps pipeline) \<and>
       ((\<exists>s \<in> set (pipeline_steps pipeline). phaseOf pipeline (step_name s) = ''Running'') \<longrightarrow>
          phaseOf pipeline name = ''Running'') \<and>
       ((\<forall>s \<in> set (pipeline_steps pipeline). phaseOf pipeline (step_name s) \<noteq> ''Running'') \<and>
        (\<exists>s \<in> set (pipeline_steps pipeline). phaseOf pipeline (step_name s) = ''Failed'') \<longrightarrow>
          phaseOf pipeline name = ''Failed'')"
  by (auto simp: defaultSelectedStep_def find_None_iff split: option.splits list.splits dest!: find_Some_in)

theorem default_step_priority_witness:
  "defaultSelectedStep (sample_pipeline\<lparr>pipeline_steps := [\<lparr>step_name = ''lint''\<rparr>, \<lparr>step_name = ''test''\<rparr>],
     pipeline_stepStatuses := [\<lparr>status_name = ''test'', status_phase = ''Failed'', status_startedAt = None,
       status_completedAt = None\<rparr>]\<rparr>) = Some ''test''"
  using default_step_priority [of "sample_pipeline\<lparr>pipeline_steps := [\<lparr>step_name = ''lint''\<rparr>, \<lparr>step_name = ''test''\<rparr>],
     pipeline_stepStatuses := [\<lparr>status_name = ''test'', status_phase = ''Failed'', status_startedAt = None,
       status_completedAt = None\<rparr>]\<rparr>"]
  by (auto simp: phaseOf_def defaultSelectedStep_def split: option.splits)

end
