(* ===== verification/RolloutModel.thy ===== *)
theory RolloutModel
  imports DataGate StatusTone
begin

text \<open>
  What the rollout views derive from the wire (\<open>ui/src/app/dashboard/rollouts/rollout-model.ts\<close>):
  the phase, the traffic ladder and split, the log, the analysis rows, the run that belongs to a
  rollout, and the formats. \<open>Date.parse\<close> and the locale's clock are parameters, and so is the
  scanner that reads observed values out of free text (\<open>parseAnalysisObservation\<close>).
\<close>

section \<open>Messages\<close>

record Condition =
  cond_type :: string
  cond_status :: string
  cond_lastTransitionTime :: string
  cond_reason :: string
  cond_message :: string

record AnalysisRunResult =
  res_name :: string
  res_passed :: bool
  res_message :: string
  res_detail :: string
  res_checkedAt :: string

record AnalysisRun =
  arun_name :: string
  arun_applicationRef :: string
  arun_startedAt :: int
  arun_results :: "AnalysisRunResult list"

record IstioRouterConfig =
  istio_virtualService :: string
  istio_stableService :: string

record GatewayAPIRouterConfig =
  gateway_httpRoute :: string
  gateway_stableService :: string

record TrafficRouter =
  router_provider :: string
  router_istio :: "IstioRouterConfig option"
  router_gatewayApi :: "GatewayAPIRouterConfig option"

record RolloutStep =
  rstep_setWeight :: int
  rstep_duration :: string

record RolloutAnalysisCheck =
  check_type :: string
  check_url :: string
  check_successThreshold :: string
  check_metric :: string
  check_threshold :: string

record Rollout =
  ro_name :: string
  ro_phase :: string
  ro_currentStep :: int
  ro_currentWeight :: int
  ro_stableRs :: string
  ro_canaryRs :: string
  ro_targetName :: string
  ro_paused :: bool
  ro_abort :: bool
  ro_stableReadyReplicas :: int
  ro_canaryReadyReplicas :: int
  ro_trafficRouter :: "TrafficRouter option"
  ro_canarySteps :: "RolloutStep list"

section \<open>Phase\<close>

definition rolloutPhaseState :: "Rollout \<Rightarrow> FleetRolloutStateProto" where
  "rolloutPhaseState rollout =
     (if ro_abort rollout then FleetRollout_ABORTED
      else
        (case map_of [(''Healthy'', FleetRollout_HEALTHY), (''Progressing'', FleetRollout_PROGRESSING),
                      (''Paused'', FleetRollout_PAUSED), (''Degraded'', FleetRollout_DEGRADED),
                      (''Failed'', FleetRollout_FAILED), (''Aborted'', FleetRollout_ABORTED),
                      (''RolledBack'', FleetRollout_ROLLED_BACK), (''Pending'', FleetRollout_PENDING)]
                (ro_phase rollout) of
           Some state \<Rightarrow> state
         | None \<Rightarrow> if ro_paused rollout then FleetRollout_PAUSED else FleetRollout_UNSPECIFIED))"

definition rolloutPhaseTone :: "Rollout \<Rightarrow> StatusTone" where
  "rolloutPhaseTone rollout = rolloutTone (Some (rolloutPhaseState rollout))"

section \<open>Traffic ladder\<close>

datatype LadderStepState = Step_done | Step_active | Step_queued

record LadderStep =
  ladder_n :: int
  ladder_weight :: int
  ladder_duration :: string
  ladder_state :: LadderStepState
  ladder_tone :: StatusTone
  ladder_note :: string
  ladder_barPercent :: int

definition BAR_FLOOR_PERCENT :: int where
  "BAR_FLOOR_PERCENT = 22"

definition ladderStepTone :: "Rollout \<Rightarrow> LadderStepState \<Rightarrow> StatusTone" where
  "ladderStepTone rollout state =
     (if state = Step_done then Healthy
      else if state = Step_queued then Pending
      else if ro_abort rollout \<or> ro_phase rollout = ''Failed'' then Failed
      else if ro_paused rollout \<or> ro_phase rollout = ''Paused'' \<or> ro_phase rollout = ''Degraded'' then Degraded
      else if ro_phase rollout = ''Pending'' \<or> ro_phase rollout = [] then Pending
      else Progressing)"

definition ladderStepNote :: "Rollout \<Rightarrow> string \<Rightarrow> LadderStepState \<Rightarrow> string" where
  "ladderStepNote rollout duration state =
     (if state = Step_done then ''completed''
      else if state = Step_queued then ''queued''
      else if ro_abort rollout then ''rolling back''
      else if ro_paused rollout \<or> ro_phase rollout = ''Paused'' then ''held''
      else if duration \<noteq> [] then ''waiting '' @ duration
      else ''manual gate'')"

definition clamp_percent :: "int \<Rightarrow> int" where
  "clamp_percent w = min (max w 0) 100"

text \<open>\<open>Math.round(22 + (w / 100) * (100 - 22))\<close>, each operation rounded.\<close>

definition barPercent :: "int \<Rightarrow> int" where
  "barPercent weight =
     (case js_mul_const (js_div_const (Fin (of_int (clamp_percent weight))) 100) (of_int (100 - BAR_FLOOR_PERCENT)) of
        Fin share \<Rightarrow> js_round_int (fl (of_int BAR_FLOOR_PERCENT + share))
      | _ \<Rightarrow> 0)"

definition ladderState :: "Rollout \<Rightarrow> int \<Rightarrow> LadderStepState" where
  "ladderState rollout index =
     (if index < ro_currentStep rollout then Step_done
      else if index = ro_currentStep rollout then Step_active
      else Step_queued)"

definition ladderStep :: "Rollout \<Rightarrow> int \<Rightarrow> RolloutStep \<Rightarrow> LadderStep" where
  "ladderStep rollout index step =
     (let state = ladderState rollout index in
      \<lparr>ladder_n = index + 1,
       ladder_weight = rstep_setWeight step,
       ladder_duration = rstep_duration step,
       ladder_state = state,
       ladder_tone = ladderStepTone rollout state,
       ladder_note = ladderStepNote rollout (rstep_duration step) state,
       ladder_barPercent = barPercent (rstep_setWeight step)\<rparr>)"

definition indexed_map :: "(int \<Rightarrow> 'a \<Rightarrow> 'b) \<Rightarrow> 'a list \<Rightarrow> 'b list" where
  "indexed_map f xs = map (\<lambda>(i, x). f (int i) x) (List.enumerate 0 xs)"

definition buildTrafficLadder :: "Rollout \<Rightarrow> LadderStep list" where
  "buildTrafficLadder rollout = indexed_map (ladderStep rollout) (ro_canarySteps rollout)"

definition activeStepNumber :: "Rollout \<Rightarrow> int" where
  "activeStepNumber rollout =
     (if length (ro_canarySteps rollout) = 0 then 0
      else if int (length (ro_canarySteps rollout)) \<le> ro_currentStep rollout then 0
      else ro_currentStep rollout + 1)"

text \<open>An array index out of range, negative included, reads \<open>undefined\<close>.\<close>

definition array_at :: "'a list \<Rightarrow> int \<Rightarrow> 'a option" where
  "array_at xs i = (if 0 \<le> i \<and> i < int (length xs) then Some (xs ! nat i) else None)"

definition nextStepWeight :: "Rollout \<Rightarrow> int option" where
  "nextStepWeight rollout =
     map_option rstep_setWeight (array_at (ro_canarySteps rollout) (ro_currentStep rollout + 1))"

section \<open>Traffic split\<close>

record TrafficSplit =
  split_canaryPercent :: int
  split_stablePercent :: int
  split_stableRs :: string
  split_canaryRs :: string
  split_stableReadyReplicas :: int
  split_canaryReadyReplicas :: int

definition buildTrafficSplit :: "Rollout \<Rightarrow> TrafficSplit option" where
  "buildTrafficSplit rollout =
     (if length (ro_canarySteps rollout) = 0 then None
      else
        let canaryPercent = clamp_percent (ro_currentWeight rollout) in
        Some \<lparr>split_canaryPercent = canaryPercent, split_stablePercent = 100 - canaryPercent,
              split_stableRs = ro_stableRs rollout, split_canaryRs = ro_canaryRs rollout,
              split_stableReadyReplicas = ro_stableReadyReplicas rollout,
              split_canaryReadyReplicas = ro_canaryReadyReplicas rollout\<rparr>)"

definition opt_string :: "('a \<Rightarrow> string) \<Rightarrow> 'a option \<Rightarrow> string" where
  "opt_string f x = (case x of Some v \<Rightarrow> f v | None \<Rightarrow> [])"

definition trafficRouterLabel :: "Rollout \<Rightarrow> string" where
  "trafficRouterLabel rollout =
     (case ro_trafficRouter rollout of
        None \<Rightarrow> []
      | Some router \<Rightarrow>
          let virtualService = opt_string istio_virtualService (router_istio router);
              httpRoute = opt_string gateway_httpRoute (router_gatewayApi router);
              object = js_or virtualService (js_or httpRoute
                (js_or (opt_string istio_stableService (router_istio router))
                   (opt_string gateway_stableService (router_gatewayApi router))));
              kind = (if virtualService \<noteq> [] then ''VirtualService''
                      else if httpRoute \<noteq> [] then ''HTTPRoute'' else ''Service'')
          in if router_provider router = [] \<and> object = [] then []
             else if object = [] then router_provider router
             else js_or (router_provider router) kind @ dot_sep @ object)"

section \<open>Text tests\<close>

definition lower_char :: "char \<Rightarrow> char" where
  "lower_char c = (if CHR ''A'' \<le> c \<and> c \<le> CHR ''Z'' then char_of (of_char c + 32 :: nat) else c)"

definition toLowerCase :: "string \<Rightarrow> string" where
  "toLowerCase s = map lower_char s"

fun starts_with :: "string \<Rightarrow> string \<Rightarrow> bool" where
  "starts_with s [] = True"
| "starts_with [] (p # ps) = False"
| "starts_with (x # xs) (p # ps) = (x = p \<and> starts_with xs ps)"

fun js_includes :: "string \<Rightarrow> string \<Rightarrow> bool" where
  "js_includes [] needle = (needle = [])"
| "js_includes (x # xs) needle = (starts_with (x # xs) needle \<or> js_includes xs needle)"

text \<open>A case-insensitive alternation of literal words, tested anywhere in a string.\<close>

definition matches_any :: "string list \<Rightarrow> string \<Rightarrow> bool" where
  "matches_any ws s \<longleftrightarrow> list_ex (\<lambda>w. js_includes (toLowerCase s) w) ws"

definition FAILED_REASON :: "string list" where
  "FAILED_REASON = [''fail'', ''error'', ''abort'', ''denied'', ''crashloop'', ''timeout'', ''exceeded'']"

definition BLOCKED_REASON :: "string list" where
  "BLOCKED_REASON = [''pause'', ''paus'', ''held'', ''hold'', ''block'', ''await'', ''wait'', ''degrad'']"

definition conditionTone :: "Condition \<Rightarrow> StatusTone" where
  "conditionTone condition =
     (if matches_any FAILED_REASON (cond_reason condition) then Failed
      else if matches_any BLOCKED_REASON (cond_reason condition) then Degraded
      else if cond_status condition = ''True'' then
        (if matches_any [''progress''] (cond_type condition) then Progressing else Healthy)
      else if cond_status condition = ''False'' then Degraded
      else Unknown)"

section \<open>Rollout log\<close>

record RolloutLogEntry =
  log_key :: string
  log_iso :: string
  log_tone :: StatusTone
  log_type :: string
  log_text :: string

definition logEntry :: "int \<Rightarrow> Condition \<Rightarrow> RolloutLogEntry" where
  "logEntry index condition =
     \<lparr>log_key = cond_type condition @ ''-'' @ cond_lastTransitionTime condition @ ''-'' @ int_str index,
      log_iso = cond_lastTransitionTime condition,
      log_tone = conditionTone condition,
      log_type = cond_type condition,
      log_text = js_or (cond_message condition) (js_or (cond_reason condition)
        (cond_type condition @ '' is '' @ js_or (cond_status condition) ''Unknown''))\<rparr>"

text \<open>The rows before the sort: entry, position and parsed time (\<^const>\<open>None\<close> for \<open>NaN\<close>).\<close>

type_synonym log_row = "RolloutLogEntry \<times> int \<times> int option"

fun log_compare :: "log_row \<Rightarrow> log_row \<Rightarrow> int" where
  "log_compare (_, i, None) (_, j, None) = i - j"
| "log_compare (_, i, None) (_, j, Some b) = 1"
| "log_compare (_, i, Some a) (_, j, None) = -1"
| "log_compare (_, i, Some a) (_, j, Some b) = (if a = b then i - j else b - a)"

definition log_rows :: "(string \<Rightarrow> int option) \<Rightarrow> Condition list \<Rightarrow> log_row list" where
  "log_rows parseDate conditions =
     indexed_map (\<lambda>index c. (logEntry index c, index, parseDate (cond_lastTransitionTime c))) conditions"

definition buildRolloutLog :: "(string \<Rightarrow> int option) \<Rightarrow> Condition list \<Rightarrow> RolloutLogEntry list" where
  "buildRolloutLog parseDate conditions = map fst (sort_by log_compare (log_rows parseDate conditions))"

section \<open>Analysis\<close>

record AnalysisObservation =
  obs_baseline :: "string option"
  obs_canary :: "string option"

record AnalysisRow =
  row_key :: string
  row_name :: string
  row_query :: string
  row_threshold :: "string option"
  row_baseline :: "string option"
  row_canary :: "string option"
  row_tone :: StatusTone
  row_result :: string
  row_message :: string
  row_checkedAt :: string

record AnalysisColumns =
  columns_baseline :: bool
  columns_canary :: bool
  columns_threshold :: bool

definition analysisColumns :: "AnalysisRow list \<Rightarrow> AnalysisColumns" where
  "analysisColumns rows =
     \<lparr>columns_baseline = list_ex (\<lambda>row. row_baseline row \<noteq> None) rows,
      columns_canary = list_ex (\<lambda>row. row_canary row \<noteq> None) rows,
      columns_threshold = list_ex (\<lambda>row. row_threshold row \<notin> {None, Some []}) rows\<rparr>"

definition checkName :: "RolloutAnalysisCheck \<Rightarrow> string" where
  "checkName check = js_or (check_metric check) (js_or (check_type check) ''check'')"

definition resultMatchesCheck :: "AnalysisRunResult \<Rightarrow> RolloutAnalysisCheck \<Rightarrow> bool" where
  "resultMatchesCheck result check =
     (let name = toLowerCase (trim (res_name result)) in
      if name = [] then False
      else
        list_ex (\<lambda>candidate. candidate = name \<or> js_includes candidate name)
          (map toLowerCase (filter (\<lambda>v. v \<noteq> []) [check_metric check, check_type check, check_url check])))"

definition resultTone :: "AnalysisRunResult option \<Rightarrow> StatusTone" where
  "resultTone result =
     (case result of None \<Rightarrow> Pending | Some r \<Rightarrow> if res_passed r then Healthy else Failed)"

definition resultLabel :: "AnalysisRunResult option \<Rightarrow> string" where
  "resultLabel result =
     (case result of None \<Rightarrow> ''Pending'' | Some r \<Rightarrow> if res_passed r then ''Pass'' else ''Fail'')"

text \<open>\<open>results.findIndex\<close> over the results that no earlier check has claimed.\<close>

definition claimIndex :: "AnalysisRunResult list \<Rightarrow> nat list \<Rightarrow> RolloutAnalysisCheck \<Rightarrow> nat option" where
  "claimIndex results claimed check =
     List.find (\<lambda>i. i \<notin> set claimed \<and> resultMatchesCheck (results ! i) check) [0..<length results]"

definition checkRow ::
    "(string \<Rightarrow> string \<Rightarrow> AnalysisObservation) \<Rightarrow> int \<Rightarrow> RolloutAnalysisCheck \<Rightarrow> AnalysisRunResult option \<Rightarrow> AnalysisRow" where
  "checkRow parseObservation index check result =
     (let name = checkName check;
          observation = (case result of
              Some r \<Rightarrow> parseObservation (res_message r) (res_detail r)
            | None \<Rightarrow> \<lparr>obs_baseline = None, obs_canary = None\<rparr>)
      in \<lparr>row_key = ''check-'' @ int_str index @ ''-'' @ name,
          row_name = js_or (opt_string res_name result) name,
          row_query = js_or (check_metric check) (check_url check),
          row_threshold = (let t = js_or (check_successThreshold check) (check_threshold check) in
            if t = [] then None else Some t),
          row_baseline = obs_baseline observation,
          row_canary = obs_canary observation,
          row_tone = resultTone result,
          row_result = resultLabel result,
          row_message = opt_string res_message result,
          row_checkedAt = opt_string res_checkedAt result\<rparr>)"

fun claimChecks :: "AnalysisRunResult list \<Rightarrow> nat list \<Rightarrow> RolloutAnalysisCheck list \<Rightarrow> nat option list \<times> nat list" where
  "claimChecks results claimed [] = ([], claimed)"
| "claimChecks results claimed (check # checks) =
     (let i = claimIndex results claimed check;
          (rest, claimed') = claimChecks results (case i of Some k \<Rightarrow> claimed @ [k] | None \<Rightarrow> claimed) checks
      in (i # rest, claimed'))"

definition resultRow ::
    "(string \<Rightarrow> string \<Rightarrow> AnalysisObservation) \<Rightarrow> nat \<Rightarrow> AnalysisRunResult \<Rightarrow> AnalysisRow" where
  "resultRow parseObservation index result =
     (let observation = parseObservation (res_message result) (res_detail result) in
      \<lparr>row_key = ''result-'' @ int_str (int index) @ ''-'' @ res_name result,
       row_name = js_or (res_name result) ''check'',
       row_query = [],
       row_threshold = None,
       row_baseline = obs_baseline observation,
       row_canary = obs_canary observation,
       row_tone = resultTone (Some result),
       row_result = resultLabel (Some result),
       row_message = res_message result,
       row_checkedAt = res_checkedAt result\<rparr>)"

definition buildAnalysisRows ::
    "(string \<Rightarrow> string \<Rightarrow> AnalysisObservation) \<Rightarrow> RolloutAnalysisCheck list \<Rightarrow> AnalysisRunResult list \<Rightarrow> AnalysisRow list" where
  "buildAnalysisRows parseObservation checks results =
     (let (claims, claimed) = claimChecks results [] checks in
      indexed_map (\<lambda>index (check, claim). checkRow parseObservation index check (map_option (\<lambda>i. results ! i) claim))
        (zip checks claims) @
      map (\<lambda>i. resultRow parseObservation i (results ! i))
        (filter (\<lambda>i. i \<notin> set claimed) [0..<length results]))"

definition failingRowCount :: "AnalysisRow list \<Rightarrow> int" where
  "failingRowCount rows = int (length (filter (\<lambda>row. row_tone row = Failed) rows))"

definition analysisResultsFromConditions :: "Condition list \<Rightarrow> AnalysisRunResult list" where
  "analysisResultsFromConditions conditions =
     map (\<lambda>condition. \<lparr>res_name = [], res_passed = (cond_status condition = ''True''),
            res_message = cond_message condition, res_detail = [],
            res_checkedAt = cond_lastTransitionTime condition\<rparr>)
       (filter (\<lambda>condition. matches_any [''analysis''] (cond_reason condition)) conditions)"

definition selectAnalysisRun :: "AnalysisRun list \<Rightarrow> Rollout \<Rightarrow> AnalysisRun option" where
  "selectAnalysisRun runs rollout =
     (let names = map toLowerCase (filter (\<lambda>n. n \<noteq> []) [ro_name rollout, ro_targetName rollout]);
          candidates = filter (\<lambda>run. toLowerCase (trim (arun_applicationRef run)) \<in> set names) runs
      in case candidates of
           [] \<Rightarrow> None
         | first # rest \<Rightarrow>
             Some (foldl (\<lambda>newest run. if arun_startedAt newest < arun_startedAt run then run else newest) first rest))"

section \<open>History and formats\<close>

definition rolloutOutcomeTone :: "RolloutOutcome \<Rightarrow> StatusTone" where
  "rolloutOutcomeTone outcome =
     (case outcome of
        RolloutOutcome_SUCCEEDED \<Rightarrow> Healthy
      | RolloutOutcome_ABORTED \<Rightarrow> Degraded
      | RolloutOutcome_ROLLED_BACK \<Rightarrow> Degraded
      | RolloutOutcome_FAILED \<Rightarrow> Failed
      | RolloutOutcome_SUPERSEDED \<Rightarrow> Unknown
      | _ \<Rightarrow> Pending)"

definition rolloutOutcomeLabel :: "RolloutOutcome \<Rightarrow> string" where
  "rolloutOutcomeLabel outcome =
     (case outcome of
        RolloutOutcome_SUCCEEDED \<Rightarrow> ''Succeeded''
      | RolloutOutcome_ABORTED \<Rightarrow> ''Aborted''
      | RolloutOutcome_FAILED \<Rightarrow> ''Failed''
      | RolloutOutcome_ROLLED_BACK \<Rightarrow> ''Rolled back''
      | RolloutOutcome_SUPERSEDED \<Rightarrow> ''Superseded''
      | _ \<Rightarrow> ''Unknown'')"

definition formatClock :: "(string \<Rightarrow> int option) \<Rightarrow> (int \<Rightarrow> string) \<Rightarrow> string \<Rightarrow> string" where
  "formatClock parseDate clock timestamp =
     (if timestamp = [] then [] else (case parseDate timestamp of None \<Rightarrow> [] | Some t \<Rightarrow> clock t))"

text \<open>The argument is a \<open>bigint\<close> or a \<open>number\<close>; \<open>Number\<close> of either.\<close>

definition formatDurationMs :: "js_number \<Rightarrow> string" where
  "formatDurationMs ms =
     (if \<not> js_is_finite ms then []
      else
        let total = js_round_int (js_div_const ms 1000) in
        if total \<le> 0 then []
        else if total < 60 then int_str total @ ''s''
        else
          let minutes = floor_div total 60; seconds = total mod 60 in
          if minutes < 60 then
            (if seconds \<noteq> 0 then int_str minutes @ ''m '' @ int_str seconds @ ''s'' else int_str minutes @ ''m'')
          else int_str (floor_div minutes 60) @ ''h '' @ int_str (minutes mod 60) @ ''m'')"

definition formatAge :: "int \<Rightarrow> int \<Rightarrow> string" where
  "formatAge observedAtUnixMs now =
     (let observed = js_Number observedAtUnixMs in
      if observed = Fin 0 then []
      else
        let age = js_sub (js_Number now) observed in
        if js_le_zero age then [] else js_or (formatDurationMs age) ''0s'')"

section \<open>The ladder\<close>

lemma length_indexed_map [simp]: "length (indexed_map f xs) = length xs"
  by (simp add: indexed_map_def)

lemma nth_indexed_map: "i < length xs \<Longrightarrow> indexed_map f xs ! i = f (int i) (xs ! i)"
  by (simp add: indexed_map_def nth_enumerate_eq)

text \<open>
  The ladder has one rung per canary step, numbered from one with the step's own weight; the
  rungs before the controller's current step are done, the one at it is active and the others are
  queued, so at most one rung is active, and it is the one whose number the header prints; when
  every step has run all rungs are done and no number is printed.
\<close>

theorem ladder_follows_controller:
  assumes "0 \<le> ro_currentStep r"
  shows "length (buildTrafficLadder r) = length (ro_canarySteps r) \<and>
    (\<forall>i < length (ro_canarySteps r).
       ladder_n (buildTrafficLadder r ! i) = int i + 1 \<and>
       ladder_weight (buildTrafficLadder r ! i) = rstep_setWeight (ro_canarySteps r ! i) \<and>
       (ladder_state (buildTrafficLadder r ! i) = Step_done \<longleftrightarrow> int i < ro_currentStep r) \<and>
       (ladder_state (buildTrafficLadder r ! i) = Step_active \<longleftrightarrow> activeStepNumber r = int i + 1)) \<and>
    (activeStepNumber r = 0 \<longleftrightarrow> (\<forall>s \<in> set (buildTrafficLadder r). ladder_state s = Step_done))"
proof -
  have n: "length (buildTrafficLadder r) = length (ro_canarySteps r)" by (simp add: buildTrafficLadder_def)
  have e: "buildTrafficLadder r ! i = ladderStep r (int i) (ro_canarySteps r ! i)" if "i < length (ro_canarySteps r)" for i
    using that by (simp add: buildTrafficLadder_def nth_indexed_map)
  have st: "ladder_state (buildTrafficLadder r ! i) = ladderState r (int i)" if "i < length (ro_canarySteps r)" for i
    using e [OF that] by (simp add: ladderStep_def Let_def)
  have "activeStepNumber r = 0 \<longleftrightarrow> int (length (ro_canarySteps r)) \<le> ro_currentStep r"
    using assms by (auto simp: activeStepNumber_def)
  also have "\<dots> \<longleftrightarrow> (\<forall>i < length (ro_canarySteps r). ladderState r (int i) = Step_done)"
  proof
    assume "\<forall>i < length (ro_canarySteps r). ladderState r (int i) = Step_done"
    then show "int (length (ro_canarySteps r)) \<le> ro_currentStep r"
      using assms by (cases "ro_canarySteps r" rule: rev_cases) (auto simp: ladderState_def split: if_splits dest: spec [of _ "length (butlast (ro_canarySteps r))"])
  qed (auto simp: ladderState_def)
  also have "\<dots> \<longleftrightarrow> (\<forall>s \<in> set (buildTrafficLadder r). ladder_state s = Step_done)"
    using st n by (auto simp: all_set_conv_all_nth)
  finally have all_done: "activeStepNumber r = 0 \<longleftrightarrow> (\<forall>s \<in> set (buildTrafficLadder r). ladder_state s = Step_done)" .
  have "ladder_n (buildTrafficLadder r ! i) = int i + 1 \<and>
       ladder_weight (buildTrafficLadder r ! i) = rstep_setWeight (ro_canarySteps r ! i) \<and>
       (ladder_state (buildTrafficLadder r ! i) = Step_done \<longleftrightarrow> int i < ro_currentStep r) \<and>
       (ladder_state (buildTrafficLadder r ! i) = Step_active \<longleftrightarrow> activeStepNumber r = int i + 1)"
    if "i < length (ro_canarySteps r)" for i
    using that e [OF that] assms by (auto simp: ladderStep_def Let_def ladderState_def activeStepNumber_def)
  then show ?thesis using n all_done by blast
qed

definition sample_rollout :: Rollout where
  "sample_rollout = \<lparr>ro_name = ''checkout'', ro_phase = ''Paused'', ro_currentStep = 1, ro_currentWeight = 25,
     ro_stableRs = ''a'', ro_canaryRs = ''b'', ro_targetName = ''checkout-api'', ro_paused = True, ro_abort = False,
     ro_stableReadyReplicas = 3, ro_canaryReadyReplicas = 1, ro_trafficRouter = None,
     ro_canarySteps = [\<lparr>rstep_setWeight = 5, rstep_duration = ''5m''\<rparr>, \<lparr>rstep_setWeight = 25, rstep_duration = []\<rparr>]\<rparr>"

theorem ladder_follows_controller_witness:
  "0 \<le> ro_currentStep sample_rollout \<and> activeStepNumber sample_rollout = 2 \<and>
   ladder_state (buildTrafficLadder sample_rollout ! 1) = Step_active"
  using ladder_follows_controller [of sample_rollout] by (simp add: sample_rollout_def activeStepNumber_def)

text \<open>
  The three roundings of a bar height lose less than the distance of the exact height from a
  rounding boundary, except where all three are exact.
\<close>

lemma bar_value_near:
  assumes "1 \<le> w" "w \<le> 100"
  shows "\<exists>r. barPercent w = js_round r \<and> \<bar>r - (22 + 39 * of_int w / 50)\<bar> < 1 / 50"
proof -
  let ?w = "of_int w :: rat"
  have w: "1 \<le> ?w" "?w \<le> 100" using assms by simp_all
  have low: "two_pow (- 1000) \<le> 1 / 200" using two_pow_mono [of "- 1000" "- 8"] two_pow_def [of "- 8"] by simp
  have big: "(1000::rat) < two_pow 1000" using two_pow_mono [of 10 1000] two_pow_def [of 10] by simp
  obtain a where a: "fl (?w / 100) = Fin a" "\<bar>a - ?w / 100\<bar> \<le> ?w / 100 / 2 ^ 53"
    using fl_near [of "?w / 100"] low big w by auto
  have ae: "\<bar>a - ?w / 100\<bar> \<le> 1 / 2 ^ 53" using a(2) w by simp
  have eps: "(1::rat) / 2 ^ 53 \<le> 1 / 1000000" by simp
  have ab: "1 / 200 \<le> a" "a \<le> 2" using ae w eps by linarith+
  obtain b where b: "fl (a * 78) = Fin b" "\<bar>b - a * 78\<bar> \<le> a * 78 / 2 ^ 53"
    using fl_near [of "a * 78"] low big ab by auto
  have be: "\<bar>b - a * 78\<bar> \<le> 156 * (1 / 2 ^ 53)" using b(2) ab by simp
  have bb: "0 \<le> b" "b \<le> 157" using be ab eps by linarith+
  obtain r where r: "fl (22 + b) = Fin r" "\<bar>r - (22 + b)\<bar> \<le> (22 + b) / 2 ^ 53"
    using fl_near [of "22 + b"] low big bb by auto
  have "\<bar>r - (22 + b)\<bar> \<le> 200 * (1 / 2 ^ 53)" using r(2) bb by simp
  then have "\<bar>r - (22 + 39 * ?w / 50)\<bar> < 1 / 50" using be ae eps by linarith
  moreover have "barPercent w = js_round r"
    using assms a(1) b(1) r(1) by (simp add: barPercent_def clamp_percent_def BAR_FLOOR_PERCENT_def)
  ultimately show ?thesis by blast
qed

lemma fl_zero: "fl 0 = Fin 0"
  by (simp add: fl_def)

lemma of_int_div_mod: "(of_int n :: rat) = of_int (n div d) * of_int d + of_int (n mod d)"
  by (metis div_mult_mod_eq of_int_add of_int_mult)

lemma bar_off_tie:
  "list_all (\<lambda>w. w = 0 \<or> w = 25 \<or> w = 75 \<or>
     4 \<le> (2 * (2200 + 78 * w) + 100) mod 200 \<and> (2 * (2200 + 78 * w) + 100) mod 200 \<le> 196) [0..100::int]"
  by code_simp

lemma bar_ties: "barPercent 25 = 42" "barPercent 75 = 81" "barPercent 0 = 22"
  using fl_dyadic [of 1 "- 2"] fl_dyadic [of 39 "- 1"] fl_dyadic [of 83 "- 1"] fl_dyadic [of 3 "- 2"]
    fl_dyadic [of 117 "- 1"] fl_dyadic [of 161 "- 1"] fl_dyadic [of 22 0]
  by (simp_all add: barPercent_def clamp_percent_def BAR_FLOOR_PERCENT_def two_pow_def js_round_def floor_eq_iff
      fl_zero)

lemma bar_exact:
  assumes "0 \<le> w" "w \<le> 100"
  shows "barPercent w = (2 * (2200 + 78 * w) + 100) div 200"
proof (cases "w = 0 \<or> w = 25 \<or> w = 75")
  case True
  then show ?thesis using bar_ties by auto
next
  case False
  let ?n = "2 * (2200 + 78 * w) + 100"
  obtain r where r: "barPercent w = js_round r" "\<bar>r - (22 + 39 * of_int w / 50)\<bar> < 1 / 50"
    using bar_value_near [of w] assms False by auto
  have "w \<in> set [0..100]" using assms by simp
  then have m: "4 \<le> ?n mod 200" "?n mod 200 \<le> 196" using bar_off_tie False unfolding list_all_iff by blast+
  have "(of_int ?n :: rat) = of_int (?n div 200) * 200 + of_int (?n mod 200)"
    using of_int_div_mod [of ?n 200] by (simp only: of_int_numeral)
  moreover have "(4::rat) \<le> of_int (?n mod 200)" "of_int (?n mod 200) \<le> (196::rat)"
    using m by (metis of_int_le_iff of_int_numeral)+
  moreover have "(of_int ?n :: rat) = 4500 + 156 * of_int w" by simp
  ultimately have "of_int (?n div 200) \<le> r + 1 / 2" "r + 1 / 2 < of_int (?n div 200) + 1"
    using r(2) by linarith+
  then show ?thesis unfolding r(1) js_round_def by (intro floor_unique)
qed

lemma barPercent_clamp: "barPercent w = barPercent (clamp_percent w)"
  by (simp add: barPercent_def clamp_percent_def)

lemma barPercent_eq: "barPercent w = (2 * (2200 + 78 * clamp_percent w) + 100) div 200"
  unfolding barPercent_clamp [of w] by (rule bar_exact) (auto simp: clamp_percent_def)

text \<open>
  C35: every bar is drawn between the floor of 22 and 100 percent of the rail, a step with more
  weight never gets a shorter bar, and the height is the exact rounding of
  \<open>22 + 78 * weight / 100\<close> although it is computed in floating point.
\<close>

theorem bar_heights:
  "22 \<le> barPercent w \<and> barPercent w \<le> 100 \<and> (v \<le> w \<longrightarrow> barPercent v \<le> barPercent w) \<and>
   barPercent w = (2 * (2200 + 78 * clamp_percent w) + 100) div 200"
proof -
  have c: "0 \<le> clamp_percent w" "clamp_percent w \<le> 100" by (auto simp: clamp_percent_def)
  have "(2 * (2200 + 78 * 0) + 100) div 200 \<le> (2 * (2200 + 78 * clamp_percent w) + 100) div (200::int)"
    "(2 * (2200 + 78 * clamp_percent w) + 100) div 200 \<le> (2 * (2200 + 78 * 100) + 100) div (200::int)"
    using c by (intro zdiv_mono1; simp)+
  moreover have "barPercent v \<le> barPercent w" if "v \<le> w"
  proof -
    have "clamp_percent v \<le> clamp_percent w" using that by (auto simp: clamp_percent_def)
    then show ?thesis unfolding barPercent_eq by (intro zdiv_mono1) simp_all
  qed
  ultimately show ?thesis by (simp add: barPercent_eq)
qed

theorem bar_heights_witness: "barPercent 5 \<le> barPercent 25 \<and> barPercent 25 = 42"
  using bar_heights [of 25 5] by (simp add: clamp_percent_def)

section \<open>The log\<close>

definition newer_first :: "log_row \<Rightarrow> log_row \<Rightarrow> bool" where
  "newer_first p q \<longleftrightarrow>
     (case (snd (snd p), snd (snd q)) of
        (Some s, Some t) \<Rightarrow> t < s \<or> (s = t \<and> fst (snd p) \<le> fst (snd q))
      | (Some s, None) \<Rightarrow> True
      | (None, Some t) \<Rightarrow> False
      | (None, None) \<Rightarrow> fst (snd p) \<le> fst (snd q))"

lemma log_compare_le: "log_compare p q \<le> 0 \<longleftrightarrow> newer_first p q"
  by (cases "(p, q)" rule: log_compare.cases) (auto simp: newer_first_def)

interpretation log_order: consistent_comparator log_compare
  by unfold_locales (auto simp: log_compare_le newer_first_def split: option.splits)

text \<open>
  The log holds exactly the conditions, each once; dated ones come first, newest first, and
  conditions at the same time or without a usable time keep the order of the rollout, the undated
  ones behind all dated ones.
\<close>

theorem log_newest_first:
  "\<exists>rows. buildRolloutLog parseDate conditions = map fst rows \<and>
     mset rows = mset (log_rows parseDate conditions) \<and> sorted_wrt newer_first rows"
proof -
  let ?rows = "sort_by log_compare (log_rows parseDate conditions)"
  have "sorted_wrt newer_first ?rows" using log_order.sort_by_sorted by (simp add: log_compare_le)
  then show ?thesis by (intro exI [of _ ?rows]) (simp add: buildRolloutLog_def)
qed

section \<open>Analysis rows\<close>

lemma claimIndex_Some:
  "claimIndex results claimed check = Some i \<Longrightarrow>
     i < length results \<and> i \<notin> set claimed \<and> resultMatchesCheck (results ! i) check"
  by (auto simp: claimIndex_def dest: find_Some_in)

lemma claimChecks_inv:
  assumes "claimChecks results claimed checks = (claims, claimed')" "distinct claimed" "\<forall>i \<in> set claimed. i < length results"
  shows "length claims = length checks \<and> claimed' = claimed @ List.map_filter id claims \<and> distinct claimed' \<and>
    (\<forall>i \<in> set claimed'. i < length results) \<and>
    list_all2 (\<lambda>check claim. case claim of Some i \<Rightarrow> resultMatchesCheck (results ! i) check | None \<Rightarrow> True) checks claims"
  using assms
proof (induction checks arbitrary: claimed claims claimed')
  case (Cons check checks)
  define c where "c = claimIndex results claimed check"
  define claimed1 where "claimed1 = (case c of Some k \<Rightarrow> claimed @ [k] | None \<Rightarrow> claimed)"
  obtain rest where r: "claimChecks results claimed1 checks = (rest, claimed')" "claims = c # rest"
    using Cons.prems(1) by (auto simp: c_def claimed1_def Let_def split: prod.splits)
  have "distinct claimed1" "\<forall>i \<in> set claimed1. i < length results"
    using Cons.prems claimIndex_Some [of results claimed check] by (auto simp: claimed1_def c_def split: option.splits)
  from Cons.IH [OF r(1) this] show ?case
    using r(2) claimIndex_Some [of results claimed check]
    by (auto simp: claimed1_def c_def List.map_filter_simps split: option.splits)
qed (simp add: List.map_filter_simps)

text \<open>The results the rows of \<open>buildAnalysisRows\<close> speak of, in order.\<close>

definition shown_results :: "RolloutAnalysisCheck list \<Rightarrow> AnalysisRunResult list \<Rightarrow> nat list" where
  "shown_results checks results =
     (let (claims, claimed) = claimChecks results [] checks in
      List.map_filter id claims @ filter (\<lambda>i. i \<notin> set claimed) [0..<length results])"

text \<open>
  Every analysis result is shown in exactly one row: a check takes at most one result, one
  that matches it by name, no two checks share a result, and what no check takes is listed behind
  the checks; there is one row per check.
\<close>

theorem analysis_rows_partition_results:
  "let (claims, claimed) = claimChecks results [] checks in
   length (buildAnalysisRows parseObservation checks results) =
     length checks + (length results - length (List.map_filter id claims)) \<and>
   distinct (shown_results checks results) \<and> set (shown_results checks results) = {0..<length results} \<and>
   list_all2 (\<lambda>check claim. case claim of Some i \<Rightarrow> resultMatchesCheck (results ! i) check | None \<Rightarrow> True) checks claims"
proof -
  obtain claims claimed where c: "claimChecks results [] checks = (claims, claimed)" by fastforce
  have inv: "length claims = length checks" "claimed = List.map_filter id claims" "distinct claimed"
    "\<forall>i \<in> set claimed. i < length results"
    "list_all2 (\<lambda>check claim. case claim of Some i \<Rightarrow> resultMatchesCheck (results ! i) check | None \<Rightarrow> True) checks claims"
    using claimChecks_inv [OF c, simplified] by blast+
  have "length (filter (\<lambda>i. i \<notin> set claimed) [0..<length results]) = card ({0..<length results} - set claimed)"
    by (subst distinct_card [symmetric]) (auto simp: set_diff_eq)
  also have "\<dots> = length results - length claimed"
    using inv(3,4) by (subst card_Diff_subset) (auto simp: distinct_card)
  finally have "length (filter (\<lambda>i. i \<notin> set claimed) [0..<length results]) = length results - length claimed" .
  then show ?thesis
    using inv by (auto simp: c buildAnalysisRows_def shown_results_def)
qed

section \<open>The run of a rollout\<close>

lemma foldl_newest:
  "let n = foldl (\<lambda>newest run. if arun_startedAt newest < arun_startedAt run then run else newest) first rest in
   n \<in> set (first # rest) \<and> (\<forall>r \<in> set (first # rest). arun_startedAt r \<le> arun_startedAt n)"
proof (induction rest arbitrary: first)
  case (Cons r rest)
  then show ?case using Cons [of r] Cons [of first] by (force simp: Let_def)
qed simp

text \<open>
  The analysis run chosen for a rollout refers to it by its own or its target's name and is
  the newest such run; none is chosen exactly when no run refers to it.
\<close>

theorem selected_run_is_newest:
  "let names = toLowerCase ` ({ro_name rollout, ro_targetName rollout} - {[]});
       candidates = {run \<in> set runs. toLowerCase (trim (arun_applicationRef run)) \<in> names}
   in case selectAnalysisRun runs rollout of
        None \<Rightarrow> candidates = {}
      | Some run \<Rightarrow> run \<in> candidates \<and> (\<forall>r \<in> candidates. arun_startedAt r \<le> arun_startedAt run)"
proof -
  let ?names = "map toLowerCase (filter (\<lambda>n. n \<noteq> []) [ro_name rollout, ro_targetName rollout])"
  let ?cs = "filter (\<lambda>run. toLowerCase (trim (arun_applicationRef run)) \<in> set ?names) runs"
  have names: "set ?names = toLowerCase ` ({ro_name rollout, ro_targetName rollout} - {[]})" by auto
  have cs: "set ?cs = {run \<in> set runs. toLowerCase (trim (arun_applicationRef run)) \<in> set ?names}" by auto
  show ?thesis
  proof (cases ?cs)
    case Nil
    then have "selectAnalysisRun runs rollout = None" by (simp add: selectAnalysisRun_def Let_def)
    moreover have "{run \<in> set runs. toLowerCase (trim (arun_applicationRef run)) \<in> set ?names} = {}"
      unfolding cs [symmetric] Nil by simp
    ultimately show ?thesis unfolding Let_def names [symmetric] by simp
  next
    case (Cons first rest)
    let ?n = "foldl (\<lambda>newest run. if arun_startedAt newest < arun_startedAt run then run else newest) first rest"
    have "selectAnalysisRun runs rollout = Some ?n" using Cons unfolding selectAnalysisRun_def Let_def by simp
    moreover have "?n \<in> set ?cs \<and> (\<forall>r \<in> set ?cs. arun_startedAt r \<le> arun_startedAt ?n)"
      using foldl_newest [of first rest] Cons unfolding Let_def by simp
    ultimately show ?thesis using cs unfolding Let_def names [symmetric] by simp
  qed
qed

definition sample_analysis :: "int \<Rightarrow> AnalysisRun" where
  "sample_analysis t = \<lparr>arun_name = ''run'', arun_applicationRef = '' Checkout '', arun_startedAt = t, arun_results = []\<rparr>"

theorem selected_run_is_newest_witness:
  "selectAnalysisRun [sample_analysis 3, sample_analysis 9] sample_rollout = Some (sample_analysis 9) \<and>
   (\<forall>t \<in> {3, 9}. t \<le> arun_startedAt (the (selectAnalysisRun [sample_analysis 3, sample_analysis 9] sample_rollout)))"
proof -
  have m: "toLowerCase (trim (arun_applicationRef (sample_analysis t))) = ''checkout''" for t
    by (simp add: sample_analysis_def trim_def js_space_def toLowerCase_def lower_char_def less_eq_char_def char_of_def bit_simps)
  have n: "toLowerCase (ro_name sample_rollout) = ''checkout''"
    by (simp add: sample_rollout_def toLowerCase_def lower_char_def less_eq_char_def char_of_def bit_simps)
  have e: "selectAnalysisRun [sample_analysis 3, sample_analysis 9] sample_rollout = Some (sample_analysis 9)"
    using m n by (simp add: selectAnalysisRun_def Let_def sample_rollout_def) (simp add: sample_analysis_def)
  have "ro_name sample_rollout \<noteq> []" by (simp add: sample_rollout_def)
  then show ?thesis
    using selected_run_is_newest [of sample_rollout "[sample_analysis 3, sample_analysis 9]"] e
    by (simp add: Let_def) (simp add: sample_analysis_def)
qed

section \<open>The split\<close>

text \<open>
  The two shares of a traffic split are percentages that always add up to 100, whatever weight
  the controller reports, and a rollout without canary steps has no split.
\<close>

theorem split_adds_up:
  "case buildTrafficSplit r of
     None \<Rightarrow> ro_canarySteps r = []
   | Some s \<Rightarrow> ro_canarySteps r \<noteq> [] \<and> split_canaryPercent s + split_stablePercent s = 100 \<and>
       0 \<le> split_canaryPercent s \<and> 0 \<le> split_stablePercent s \<and>
       (0 \<le> ro_currentWeight r \<and> ro_currentWeight r \<le> 100 \<longrightarrow> split_canaryPercent s = ro_currentWeight r)"
  by (auto simp: buildTrafficSplit_def clamp_percent_def Let_def)

theorem split_adds_up_witness:
  "split_canaryPercent (the (buildTrafficSplit sample_rollout)) = 25 \<and>
   split_stablePercent (the (buildTrafficSplit sample_rollout)) = 75"
  using split_adds_up [of sample_rollout]
  by (auto simp: sample_rollout_def buildTrafficSplit_def Let_def clamp_percent_def)

end
