(* ===== verification/BrowserStorage.thy ===== *)
theory BrowserStorage
  imports JsValue
begin

text \<open>
  The browser storage of the console's session (\<open>ui/src/lib/browser-session.ts\<close>, lines 41 to 62):
  every tab of the origin shares \<open>localStorage\<close>, which a browser may refuse to read, to write or
  both, at any moment. The module therefore keeps a copy of what it wrote (\<open>memory\<close>) and the writes
  that failed (\<open>failedWrites\<close>). On top of it stands the session state, a JSON object with a fresh
  \<open>revision\<close> on every write. \<open>JSON\<close>, \<open>atob\<close>, \<open>TextDecoder\<close>, \<open>String\<close> and \<open>crypto.randomUUID\<close> are
  functions of the host, parameters of the model: no property depends on more of them than its own
  hypotheses say.
\<close>

section \<open>The host\<close>

record host =
  JSON_parse :: "string \<Rightarrow> js_value option"
  JSON_stringify :: "js_value \<Rightarrow> string"
  host_atob :: "string \<Rightarrow> string option"
  host_decode :: "string \<Rightarrow> string"
  host_String :: "js_value \<Rightarrow> string"
  randomUUID :: "nat \<Rightarrow> string"

text \<open>
  \<open>localStorage\<close>, with what the browser currently refuses, and the module's own two maps.
  \<open>uuids\<close> counts the values drawn from \<open>crypto.randomUUID\<close>.
\<close>

record storage =
  localStorage :: "(string, string) js_map"
  getItemThrows :: bool
  setItemThrows :: bool
  removeItemThrows :: bool
  memory :: "(string, string) js_map"
  failedWrites :: "(string, string option) js_map"
  uuids :: nat

section \<open>Reading and writing\<close>

definition AUTH_TOKEN_KEY :: string where
  "AUTH_TOKEN_KEY = ''paprika_id_token''"

definition AUTH_USER_KEY :: string where
  "AUTH_USER_KEY = ''paprika_auth_user''"

definition LOGIN_PREFERENCE_KEY :: string where
  "LOGIN_PREFERENCE_KEY = ''paprika_login_preference''"

definition SESSION_STATE_KEY :: string where
  "SESSION_STATE_KEY = ''paprika_session_state''"

definition js_map_delete :: "'k \<Rightarrow> ('k, 'v) js_map \<Rightarrow> ('k, 'v) js_map" where
  "js_map_delete k m = filter (\<lambda>p. fst p \<noteq> k) m"

definition readBrowserStorage :: "string \<Rightarrow> storage \<Rightarrow> string option" where
  "readBrowserStorage key st =
     (case js_map_get (failedWrites st) key of
        Some value \<Rightarrow> value
      | None \<Rightarrow>
          if getItemThrows st then js_map_get (memory st) key
          else js_map_get (localStorage st) key)"

definition writeBrowserStorage :: "string \<Rightarrow> string option \<Rightarrow> storage \<Rightarrow> storage" where
  "writeBrowserStorage key value st0 =
     (let st = st0\<lparr>memory := (case value of
                       None \<Rightarrow> js_map_delete key (memory st0)
                     | Some v \<Rightarrow> js_map_set key v (memory st0))\<rparr>;
          failed = st\<lparr>failedWrites := js_map_set key value (failedWrites st)\<rparr>;
          cleared = st\<lparr>failedWrites := js_map_delete key (failedWrites st)\<rparr>
      in case value of
           None \<Rightarrow> if removeItemThrows st then failed
                   else cleared\<lparr>localStorage := js_map_delete key (localStorage st)\<rparr>
         | Some v \<Rightarrow> if setItemThrows st then failed
                   else cleared\<lparr>localStorage := js_map_set key v (localStorage st)\<rparr>)"

section \<open>The session state\<close>

record SessionState =
  state_refreshAvailable :: "bool option"
  state_loggedOut :: "bool option"
  state_revision :: "string option"

fun as_bool :: "js_value \<Rightarrow> bool option" where
  "as_bool (JBool b) = Some b"
| "as_bool _ = None"

fun as_string :: "js_value \<Rightarrow> string option" where
  "as_string (JString s) = Some s"
| "as_string _ = None"

fun is_array :: "js_value \<Rightarrow> bool" where
  "is_array (JArray xs) = True"
| "is_array _ = False"

definition emptyState :: SessionState where
  "emptyState = \<lparr>state_refreshAvailable = None, state_loggedOut = None, state_revision = None\<rparr>"

definition readState :: "host \<Rightarrow> storage \<Rightarrow> SessionState" where
  "readState h st =
     (case JSON_parse h (case readBrowserStorage SESSION_STATE_KEY st of Some s \<Rightarrow> s | None \<Rightarrow> ''{}'') of
        None \<Rightarrow> emptyState
      | Some value \<Rightarrow>
          if \<not> js_truthy value \<or> \<not> typeof_object value \<or> is_array value then emptyState
          else \<lparr>state_refreshAvailable = as_bool (js_property value ''refreshAvailable''),
                state_loggedOut = as_bool (js_property value ''loggedOut''),
                state_revision = as_string (js_property value ''revision'')\<rparr>)"

text \<open>An \<open>undefined\<close> member is written as \<^const>\<open>JUndefined\<close>, which \<open>JSON.stringify\<close> drops.\<close>

definition optional_bool :: "bool option \<Rightarrow> js_value" where
  "optional_bool b = (case b of Some v \<Rightarrow> JBool v | None \<Rightarrow> JUndefined)"

definition writeState :: "host \<Rightarrow> (string \<times> js_value) list \<Rightarrow> storage \<Rightarrow> storage" where
  "writeState h members st =
     writeBrowserStorage SESSION_STATE_KEY
       (Some (JSON_stringify h
          (JObject (members @ [(''revision'', JString (randomUUID h (uuids st)))]))))
       (st\<lparr>uuids := Suc (uuids st)\<rparr>)"

definition loggedOut :: "host \<Rightarrow> storage \<Rightarrow> bool" where
  "loggedOut h st \<longleftrightarrow> state_loggedOut (readState h st) = Some True"

section \<open>Laws of the storage\<close>

lemma js_map_get_delete [js_container_simps]:
  "js_map_get (js_map_delete k m) k' = (if k' = k then None else js_map_get m k')"
  by (induction m) (auto simp: js_map_delete_def js_map_get_def)

text \<open>
  What the session relies on: a store whose reads see the last write of the same tab, key by key.
\<close>

locale keyed_store =
  fixes read :: "'k \<Rightarrow> 's \<Rightarrow> 'v option"
    and write_to :: "'k \<Rightarrow> 'v option \<Rightarrow> 's \<Rightarrow> 's"
  assumes read_write_same: "read k (write_to k v s) = v"
    and read_write_other: "k' \<noteq> k \<Longrightarrow> read k' (write_to k v s) = read k' s"
begin

lemma read_write: "read k' (write_to k v s) = (if k' = k then v else read k' s)"
  by (simp add: read_write_same read_write_other)

text \<open>A batch of writes is read back as its last write of each key.\<close>

lemma read_fold_write:
  "read k (fold (\<lambda>(k, v). write_to k v) ws s) =
     (case map_of (rev ws) k of Some v \<Rightarrow> v | None \<Rightarrow> read k s)"
  by (induction ws arbitrary: s) (auto simp: read_write map_add_def split: option.splits)

lemma last_write_wins: "read k' (write_to k v (write_to k u s)) = read k' (write_to k v s)"
  by (simp add: read_write)

end

lemma read_write_storage:
  "readBrowserStorage k' (writeBrowserStorage k v st) = (if k' = k then v else readBrowserStorage k' st)"
  by (cases v)
    (auto simp: readBrowserStorage_def writeBrowserStorage_def Let_def js_container_simps
      split: option.splits)

interpretation browser_store: keyed_store readBrowserStorage writeBrowserStorage
  by unfold_locales (simp_all add: read_write_storage)

text \<open>What happens to the storage of a tab that is alone: its own writes, and the browser's refusals.\<close>

datatype storage_event = Write string "string option" | Refuse bool bool bool

fun storage_apply :: "storage \<Rightarrow> storage_event \<Rightarrow> storage" where
  "storage_apply st (Write k v) = writeBrowserStorage k v st"
| "storage_apply st (Refuse g s r) = st\<lparr>getItemThrows := g, setItemThrows := s, removeItemThrows := r\<rparr>"

fun last_write :: "string \<Rightarrow> storage_event list \<Rightarrow> string option option" where
  "last_write key [] = None"
| "last_write key (Write k v # es) =
     (case last_write key es of Some u \<Rightarrow> Some u | None \<Rightarrow> if k = key then Some v else None)"
| "last_write key (Refuse g s r # es) = last_write key es"

text \<open>The copies of a key's value: the tab's own, and the failed write or else the shared one.\<close>

definition holds_value :: "string \<Rightarrow> string option \<Rightarrow> storage \<Rightarrow> bool" where
  "holds_value key v st \<longleftrightarrow> js_map_get (memory st) key = v \<and>
     (js_map_get (failedWrites st) key = Some v \<or>
      js_map_get (failedWrites st) key = None \<and> js_map_get (localStorage st) key = v)"

lemma holds_value_read: "holds_value key v st \<Longrightarrow> readBrowserStorage key st = v"
  by (auto simp: holds_value_def readBrowserStorage_def)

lemma holds_value_write:
  "holds_value key v (writeBrowserStorage k u st) \<longleftrightarrow> (if k = key then u = v else holds_value key v st)"
  by (cases u)
    (auto simp: holds_value_def writeBrowserStorage_def Let_def js_container_simps)

lemma holds_value_apply:
  "holds_value key v (foldl storage_apply st events) \<longleftrightarrow>
     (case last_write key events of Some u \<Rightarrow> u = v | None \<Rightarrow> holds_value key v st)"
proof (induction events arbitrary: st)
  case (Cons e events)
  have refuse: "holds_value key v (st\<lparr>getItemThrows := g, setItemThrows := s, removeItemThrows := r\<rparr>) =
      holds_value key v st" for g s r
    by (simp add: holds_value_def)
  show ?case
    by (cases e) (auto simp: Cons.IH holds_value_write refuse split: option.splits)
qed simp

text \<open>
  C39: A tab reads back what it wrote, whatever the browser refuses: under any interleaving of its
  writes and removals with changes of what the browser refuses (reading, writing or removing), a
  key that was written reads as its last write.
\<close>

theorem storage_survives_refusals:
  assumes "last_write key events = Some v"
  shows "readBrowserStorage key (foldl storage_apply st events) = v"
  using assms by (intro holds_value_read) (simp add: holds_value_apply)

theorem storage_survives_refusals_witness:
  "readBrowserStorage ''k'' (foldl storage_apply
     \<lparr>localStorage = [], getItemThrows = False, setItemThrows = False, removeItemThrows = False,
      memory = [], failedWrites = [], uuids = 0\<rparr>
     [Write ''k'' (Some ''a''), Refuse False True True, Write ''k'' (Some ''b''), Refuse True False False]) =
   Some ''b''"
  by (rule storage_survives_refusals) simp

section \<open>Laws of the session state\<close>

text \<open>The round trip of \<open>JSON\<close> on the objects \<open>writeState\<close> writes.\<close>

definition json_keeps_state :: "host \<Rightarrow> bool" where
  "json_keeps_state h \<longleftrightarrow>
     (\<forall>r l u. JSON_parse h (JSON_stringify h (JObject
          [(''loggedOut'', JBool l), (''refreshAvailable'', JBool r), (''revision'', JString u)])) =
        Some (JObject [(''loggedOut'', JBool l), (''refreshAvailable'', JBool r), (''revision'', JString u)]))"

lemma readState_writeState:
  assumes "json_keeps_state h"
  shows "readState h (writeState h [(''loggedOut'', JBool l), (''refreshAvailable'', JBool r)] st) =
    \<lparr>state_refreshAvailable = Some r, state_loggedOut = Some l,
     state_revision = Some (randomUUID h (uuids st))\<rparr>"
  using assms
  by (simp add: readState_def writeState_def read_write_storage json_keeps_state_def)

lemma readState_cong:
  "readBrowserStorage SESSION_STATE_KEY s = readBrowserStorage SESSION_STATE_KEY t \<Longrightarrow>
     readState h s = readState h t"
  by (simp add: readState_def)

lemma storage_keys_distinct [simp]:
  "SESSION_STATE_KEY \<noteq> AUTH_TOKEN_KEY" "SESSION_STATE_KEY \<noteq> AUTH_USER_KEY"
  "SESSION_STATE_KEY \<noteq> LOGIN_PREFERENCE_KEY" "AUTH_TOKEN_KEY \<noteq> SESSION_STATE_KEY"
  "AUTH_TOKEN_KEY \<noteq> AUTH_USER_KEY" "AUTH_USER_KEY \<noteq> AUTH_TOKEN_KEY" "AUTH_USER_KEY \<noteq> SESSION_STATE_KEY"
  "LOGIN_PREFERENCE_KEY \<noteq> SESSION_STATE_KEY" "LOGIN_PREFERENCE_KEY \<noteq> AUTH_TOKEN_KEY"
  "AUTH_TOKEN_KEY \<noteq> LOGIN_PREFERENCE_KEY"
  by (simp_all add: SESSION_STATE_KEY_def AUTH_TOKEN_KEY_def AUTH_USER_KEY_def LOGIN_PREFERENCE_KEY_def)

lemma readState_write_other:
  "key \<noteq> SESSION_STATE_KEY \<Longrightarrow> readState h (writeBrowserStorage key v st) = readState h st"
  by (rule readState_cong) (simp add: read_write_storage)

end
