(* ===== verification/AuthReturnTo.thy ===== *)
theory AuthReturnTo
  imports BrowserStorage
begin

text \<open>
  Where sign-in returns to (\<open>ui/src/lib/auth-return-to.ts\<close>): the destination is kept in the tab's
  \<open>sessionStorage\<close>, and only a path of the console itself is accepted, so that a crafted
  destination cannot send a user who has just signed in to another origin or back into sign-in. The
  URL parser and \<open>decodeURIComponent\<close> are functions of the host, parameters of the model.
\<close>

section \<open>The tab's storage\<close>

record tab_storage =
  returnTo :: "string option"
  sessionStorageThrows :: bool

definition readAuthReturnTo :: "tab_storage \<Rightarrow> string option" where
  "readAuthReturnTo tab = (if sessionStorageThrows tab then None else returnTo tab)"

definition writeAuthReturnTo :: "string option \<Rightarrow> tab_storage \<Rightarrow> tab_storage" where
  "writeAuthReturnTo target tab = (if sessionStorageThrows tab then tab else tab\<lparr>returnTo := target\<rparr>)"

definition consumeAuthReturnTo :: "tab_storage \<Rightarrow> string option \<times> tab_storage" where
  "consumeAuthReturnTo tab = (readAuthReturnTo tab, writeAuthReturnTo None tab)"

section \<open>Accepting a destination\<close>

record url =
  url_origin :: string
  url_pathname :: string
  url_search :: string
  url_hash :: string

record url_host =
  URL_parse :: "string \<Rightarrow> url option"
  decodeURIComponent :: "string \<Rightarrow> string option"

definition starts_with :: "string \<Rightarrow> string \<Rightarrow> bool" where
  "starts_with p s \<longleftrightarrow> take (length p) s = p"

definition ends_with_slash :: "string \<Rightarrow> bool" where
  "ends_with_slash s \<longleftrightarrow> s \<noteq> [] \<and> last s = CHR ''/''"

text \<open>\<open>/[%](?:2f|5c)/i.test(path)\<close> and \<open>/[\\\u0000-\u0020\u007f]/.test(target)\<close>\<close>

fun encoded_separator :: "string \<Rightarrow> bool" where
  "encoded_separator (a # b # c # s) =
     (a = CHR ''%'' \<and> (b = CHR ''2'' \<and> c \<in> {CHR ''f'', CHR ''F''} \<or>
                        b = CHR ''5'' \<and> c \<in> {CHR ''c'', CHR ''C''}) \<or>
      encoded_separator (b # c # s))"
| "encoded_separator s = False"

definition forbidden_char :: "char \<Rightarrow> bool" where
  "forbidden_char c \<longleftrightarrow> c = CHR 0x5C \<or> c \<le> CHR 0x20 \<or> c = CHR 0x7F"

definition strip_slashes :: "string \<Rightarrow> string" where
  "strip_slashes s = rev (dropWhile (\<lambda>c. c = CHR ''/'') (rev s))"

definition sign_in_path :: "string \<Rightarrow> bool" where
  "sign_in_path pathname \<longleftrightarrow>
     pathname = ''/login'' \<or> starts_with ''/login/'' pathname \<or>
     pathname = ''/auth'' \<or> starts_with ''/auth/'' pathname"

definition return_base :: string where
  "return_base = ''https://return.invalid''"

definition safeAuthReturnTo :: "url_host \<Rightarrow> string option \<Rightarrow> string option" where
  "safeAuthReturnTo u target0 =
     (let target = (case target0 of Some t \<Rightarrow> t | None \<Rightarrow> []) in
      if target = [] \<or> \<not> starts_with ''/'' target \<or> starts_with ''//'' target then None
      else
        let path = takeWhile (\<lambda>c. c \<notin> {CHR ''?'', CHR ''#''}) target in
        if encoded_separator path \<or> list_ex forbidden_char target then None
        else
          (case URL_parse u target of
             None \<Rightarrow> None
           | Some url \<Rightarrow>
               if url_origin url \<noteq> return_base \<or> starts_with ''//'' (url_pathname url) then None
               else
                 (case decodeURIComponent u (url_pathname url) of
                    None \<Rightarrow> None
                  | Some decoded \<Rightarrow>
                      if sign_in_path (strip_slashes decoded) then None
                      else
                        let normalized =
                          (if url_pathname url = ''/observe/consent'' then url_pathname url
                           else if ends_with_slash (url_pathname url) then url_pathname url
                           else url_pathname url @ ''/'')
                        in Some (normalized @ url_search url @ url_hash url))))"

definition authReturnDestination :: "url_host \<Rightarrow> string option \<Rightarrow> string" where
  "authReturnDestination u target =
     (case safeAuthReturnTo u target of Some t \<Rightarrow> t | None \<Rightarrow> ''/dashboard/'')"

section \<open>Only local destinations\<close>

text \<open>
  What the URL standard says of a parsed \<open>https\<close> URL: its path begins with a slash, its query is
  empty or begins with a question mark, its fragment is empty or begins with a number sign.
\<close>

definition url_shape :: "url \<Rightarrow> bool" where
  "url_shape url \<longleftrightarrow> starts_with ''/'' (url_pathname url) \<and>
     (url_search url = [] \<or> starts_with ''?'' (url_search url)) \<and>
     (url_hash url = [] \<or> starts_with ''#'' (url_hash url))"

text \<open>A reference that a browser resolves within the origin: one slash, and not two.\<close>

definition local_reference :: "string \<Rightarrow> bool" where
  "local_reference s \<longleftrightarrow> starts_with ''/'' s \<and> \<not> starts_with ''//'' s"

lemma starts_with_Nil [simp]: "starts_with [] s"
  by (simp add: starts_with_def)

lemma starts_with_Cons [simp]:
  "starts_with (p # ps) [] = False" "starts_with (p # ps) (c # cs) = (p = c \<and> starts_with ps cs)"
  by (auto simp: starts_with_def)

lemma local_reference_Cons: "local_reference s \<longleftrightarrow> (\<exists>r. s = CHR ''/'' # r \<and> (r = [] \<or> hd r \<noteq> CHR ''/''))"
  by (cases s; cases "tl s") (auto simp: local_reference_def)

lemma safeAuthReturnTo_cases:
  assumes "safeAuthReturnTo u target = Some r"
  obtains t url decoded where "target = Some t" "URL_parse u t = Some url"
    "local_reference t" "\<not> list_ex forbidden_char t"
    "url_origin url = return_base" "\<not> starts_with ''//'' (url_pathname url)"
    "decodeURIComponent u (url_pathname url) = Some decoded" "\<not> sign_in_path (strip_slashes decoded)"
    "r = url_pathname url @
       (if url_pathname url = ''/observe/consent'' \<or> ends_with_slash (url_pathname url) then [] else ''/'') @
       url_search url @ url_hash url"
  using assms
  by (auto simp: safeAuthReturnTo_def Let_def local_reference_def split: option.splits if_splits)

lemma local_reference_built:
  assumes "url_shape url" and "\<not> starts_with ''//'' (url_pathname url)"
  shows "local_reference (url_pathname url @
    (if c \<or> ends_with_slash (url_pathname url) then [] else ''/'') @ url_search url @ url_hash url)"
proof (cases "url_pathname url = ''/''")
  case True
  then have "ends_with_slash (url_pathname url)" by (simp add: ends_with_slash_def)
  with True assms(1) show ?thesis
    by (cases "url_search url"; cases "url_hash url") (auto simp: url_shape_def local_reference_Cons)
next
  case False
  with assms show ?thesis
    by (cases "url_pathname url"; cases "tl (url_pathname url)")
      (auto simp: url_shape_def local_reference_Cons)
qed

text \<open>
  C37: A destination that sign-in accepts stays on the console: given a parser that returns
  URLs of the standard's shape, it begins with exactly one slash, so no browser reads it as the name
  of another host; it is the parsed path, query and fragment with at most one slash added to the
  path, and the decoded path is no sign-in route. Without an acceptable destination sign-in goes to
  the dashboard, which is local too.
\<close>

theorem return_to_is_local:
  assumes "\<And>t url. URL_parse u t = Some url \<Longrightarrow> url_shape url"
  shows "local_reference (authReturnDestination u target) \<and>
    (\<forall>r. safeAuthReturnTo u target = Some r \<longrightarrow>
      local_reference r \<and>
      (\<exists>t url decoded. target = Some t \<and> local_reference t \<and> URL_parse u t = Some url \<and>
        url_origin url = return_base \<and> decodeURIComponent u (url_pathname url) = Some decoded \<and>
        \<not> sign_in_path (strip_slashes decoded) \<and>
        r \<in> {url_pathname url @ url_search url @ url_hash url,
             url_pathname url @ ''/'' @ url_search url @ url_hash url}))"
proof -
  have accepted: "local_reference r \<and>
      (\<exists>t url decoded. target = Some t \<and> local_reference t \<and> URL_parse u t = Some url \<and>
        url_origin url = return_base \<and> decodeURIComponent u (url_pathname url) = Some decoded \<and>
        \<not> sign_in_path (strip_slashes decoded) \<and>
        r \<in> {url_pathname url @ url_search url @ url_hash url,
             url_pathname url @ ''/'' @ url_search url @ url_hash url})"
    if "safeAuthReturnTo u target = Some r" for r
    using \<open>safeAuthReturnTo u target = Some r\<close>
  proof (cases rule: safeAuthReturnTo_cases)
    case (1 t url decoded)
    have "local_reference r"
      unfolding 1(9) using local_reference_built [OF assms [OF 1(2)] 1(6)] by blast
    with 1 show ?thesis by auto
  qed
  moreover have "local_reference ''/dashboard/''" by (simp add: local_reference_Cons)
  ultimately show ?thesis by (auto simp: authReturnDestination_def split: option.splits)
qed

text \<open>A parser for paths without dot segments, which splits off the query and the fragment.\<close>

definition plain_url :: "string \<Rightarrow> url option" where
  "plain_url t =
     (let path = takeWhile (\<lambda>c. c \<notin> {CHR ''?'', CHR ''#''}) t;
          rest = dropWhile (\<lambda>c. c \<notin> {CHR ''?'', CHR ''#''}) t;
          query = takeWhile (\<lambda>c. c \<noteq> CHR ''#'') rest;
          fragment = dropWhile (\<lambda>c. c \<noteq> CHR ''#'') rest
      in if starts_with ''/'' path
         then Some \<lparr>url_origin = return_base, url_pathname = path, url_search = query, url_hash = fragment\<rparr>
         else None)"

definition plain_host :: url_host where
  "plain_host = \<lparr>URL_parse = plain_url, decodeURIComponent = Some\<rparr>"

lemma dropWhile_starts:
  "dropWhile P s = [] \<or> \<not> P (hd (dropWhile P s))"
  using hd_dropWhile by blast

lemma plain_host_shape: "URL_parse plain_host t = Some url \<Longrightarrow> url_shape url"
proof -
  assume parsed: "URL_parse plain_host t = Some url"
  define rest where "rest = dropWhile (\<lambda>c. c \<notin> {CHR ''?'', CHR ''#''}) t"
  have rest: "rest = [] \<or> hd rest \<in> {CHR ''?'', CHR ''#''}"
    using dropWhile_starts [of "\<lambda>c. c \<notin> {CHR ''?'', CHR ''#''}" t] by (simp add: rest_def)
  have "url_search url = takeWhile (\<lambda>c. c \<noteq> CHR ''#'') rest"
    "url_hash url = dropWhile (\<lambda>c. c \<noteq> CHR ''#'') rest" "starts_with ''/'' (url_pathname url)"
    using parsed by (auto simp: plain_host_def plain_url_def rest_def Let_def split: if_splits)
  moreover have "dropWhile (\<lambda>c. c \<noteq> CHR ''#'') rest = [] \<or> starts_with ''#'' (dropWhile (\<lambda>c. c \<noteq> CHR ''#'') rest)"
    using dropWhile_starts [of "\<lambda>c. c \<noteq> CHR ''#''" rest]
    by (cases "dropWhile (\<lambda>c. c \<noteq> CHR ''#'') rest") auto
  moreover have "takeWhile (\<lambda>c. c \<noteq> CHR ''#'') rest = [] \<or> starts_with ''?'' (takeWhile (\<lambda>c. c \<noteq> CHR ''#'') rest)"
    using rest by (cases rest) auto
  ultimately show ?thesis by (simp add: url_shape_def)
qed

theorem return_to_is_local_witness:
  "safeAuthReturnTo plain_host (Some ''/dashboard/insights?x=1#t'') = Some ''/dashboard/insights/?x=1#t'' \<and>
   local_reference (authReturnDestination plain_host (Some ''/dashboard/insights?x=1#t'')) \<and>
   local_reference (authReturnDestination plain_host (Some ''//evil.example/''))"
proof -
  have "safeAuthReturnTo plain_host (Some ''/dashboard/insights?x=1#t'') = Some ''/dashboard/insights/?x=1#t''"
    by code_simp
  moreover have "local_reference (authReturnDestination plain_host target)" for target
    by (rule return_to_is_local [THEN conjunct1]) (rule plain_host_shape)
  ultimately show ?thesis by simp
qed

end
