(* ===== verification/BrowserSession.thy ===== *)
theory BrowserSession
  imports AuthReturnTo
begin

text \<open>
  The session of the console in one browser tab (\<open>ui/src/lib/browser-session.ts\<close>): the snapshot the
  views subscribe to, the token in the shared storage, and the asynchronous operations over both,
  which renew, recover, end and begin a session. Everything between two \<open>await\<close>s runs at once; a
  call is a task at a control point, which the promise it awaits moves on when it settles, and any
  number of tasks may be in flight. What the network, the lock and the other tabs do is an input of
  the step: \<open>withSessionLock\<close> grants its lock at some later moment or (its lease for browsers
  without Web Locks) gives up.
\<close>

section \<open>Data\<close>

record AuthUser =
  user_sub :: string
  user_email :: string
  user_name :: string
  user_picture :: "string option"

record LoginPreference =
  pref_method :: string
  pref_provider :: string
  pref_user :: AuthUser

text \<open>The members of the configuration that decide anything; provider and label are displayed.\<close>

record AuthConfiguration =
  oidc_enabled :: bool
  basic_enabled :: bool
  session_refreshEnabled :: bool

datatype SessionStatus = Session_loading | Session_authenticated | Session_anonymous | Session_unavailable

record SessionSnapshot =
  snap_status :: SessionStatus
  snap_idToken :: "string option"
  snap_user :: "AuthUser option"
  snap_identityKey :: "string option"
  snap_identityEpoch :: nat
  snap_revision :: nat
  snap_error :: "string option"
  snap_logoutPending :: bool

record TokenOptions =
  opt_method :: string
  opt_provider :: "string option"
  opt_sessionRefreshAvailable :: "bool option"

definition initialSnapshot :: SessionSnapshot where
  "initialSnapshot =
     \<lparr>snap_status = Session_loading, snap_idToken = None, snap_user = None, snap_identityKey = None,
      snap_identityEpoch = 0, snap_revision = 0, snap_error = None, snap_logoutPending = False\<rparr>"

section \<open>Control points of the asynchronous operations\<close>

datatype outcome = Resolved "string option" | Failed

text \<open>
  The arguments are the values a suspended call still holds: the token and the epoch it began with,
  the fence (the revision of the session state), the configuration it read.
\<close>

datatype refresh_point =
    RefreshLock "string option" nat "string option"
  | RefreshFetch nat "string option"
  | RefreshBody nat "string option"
  | RefreshCatch nat
  | RefreshFinally outcome
  | RefreshSettled outcome

datatype ensure_point =
    EnsureConfig SessionState js_number bool
  | EnsureRefresh nat js_number bool
  | EnsureSettled outcome

datatype recover_point =
    RecoverConfig "string option" nat
  | RecoverRefresh nat nat
  | RecoverSettled outcome

datatype logout_point = LogoutConfig | LogoutLock | LogoutFetch | LogoutFinally bool | LogoutSettled bool

datatype exchange_point =
    CodeLock nat "string option" string
  | CodeFetch nat "string option" string
  | CodeBody nat "string option" string
  | PasswordConfig nat "string option"
  | PasswordLock nat "string option" AuthConfiguration
  | PasswordFetch nat "string option" AuthConfiguration
  | PasswordBody nat "string option" AuthConfiguration
  | PasswordLogout nat "string option" string
  | ExchangeSettled bool

datatype task =
    RefreshTask refresh_point
  | EnsureTask ensure_point
  | RecoverTask recover_point
  | LogoutTask logout_point
  | ExchangeTask exchange_point

text \<open>How an awaited promise settles; \<open>Resumed\<close> is a promise of the module itself.\<close>

datatype settlement =
    LockGranted
  | Responded int
  | Decoded "string option" "bool option"
  | ConfigReady AuthConfiguration
  | Rejected
  | Resumed

section \<open>The state of the tab\<close>

record browser =
  snapshot :: SessionSnapshot
  hydrated :: bool
  refreshFlight :: "nat option"
  configuration :: "AuthConfiguration option"
  retryAfter :: int
  listening :: bool
  store :: storage
  tab :: tab_storage
  cacheClears :: nat
  clock :: int
  tasks :: "task list"

abbreviation epoch :: "browser \<Rightarrow> nat" where
  "epoch b \<equiv> snap_identityEpoch (snapshot b)"

abbreviation idToken :: "browser \<Rightarrow> string option" where
  "idToken b \<equiv> snap_idToken (snapshot b)"

definition on_store :: "(storage \<Rightarrow> storage) \<Rightarrow> browser \<Rightarrow> browser" where
  "on_store f b = b\<lparr>store := f (store b)\<rparr>"

section \<open>Tokens\<close>

text \<open>\<open>replace(/-/g, "+").replace(/_/g, "/")\<close>\<close>

definition unurl :: "string \<Rightarrow> string" where
  "unurl s = map (\<lambda>c. if c = CHR ''-'' then CHR ''+'' else if c = CHR ''_'' then CHR ''/'' else c) s"

fun is_number :: "js_value \<Rightarrow> bool" where
  "is_number (JNumber n) = True"
| "is_number _ = False"

fun js_number_of :: "js_value \<Rightarrow> js_number" where
  "js_number_of (JNumber n) = n"
| "js_number_of _ = NaN"

definition parseToken :: "host \<Rightarrow> string option \<Rightarrow> js_value option" where
  "parseToken h token =
     (case token of
        None \<Rightarrow> None
      | Some t \<Rightarrow>
          if t = [] then None
          else
            let parts = split_on CHR ''.'' t in
            if length parts \<noteq> 3 then None
            else
              (case host_atob h (unurl (parts ! 1)) of
                 None \<Rightarrow> None
               | Some raw \<Rightarrow>
                   (case JSON_parse h (host_decode h raw) of
                      None \<Rightarrow> None
                    | Some payload \<Rightarrow>
                        if js_truthy payload \<and> typeof_object payload \<and>
                           as_string (js_property payload ''sub'') \<noteq> None \<and>
                           is_number (js_property payload ''exp'')
                        then Some payload else None)))"

definition string_of :: "js_value \<Rightarrow> string" where
  "string_of value = (case as_string value of Some s \<Rightarrow> s | None \<Rightarrow> [])"

definition profile :: "js_value \<Rightarrow> AuthUser" where
  "profile payload =
     (let picture = string_of (js_property payload ''picture'') in
      \<lparr>user_sub = string_of (js_property payload ''sub''),
       user_email = string_of (js_property payload ''email''),
       user_name = string_of (js_property payload ''name''),
       user_picture = (if starts_with ''https://'' picture then Some picture else None)\<rparr>)"

text \<open>\<open>value ?? null\<close>\<close>

definition or_null :: "js_value \<Rightarrow> js_value" where
  "or_null value = (if value = JUndefined then JNull else value)"

definition normalized :: "host \<Rightarrow> js_value \<Rightarrow> js_value" where
  "normalized h value =
     (case value of
        JArray xs \<Rightarrow> JArray (map JString (sort (map (host_String h) xs)))
      | _ \<Rightarrow> or_null value)"

text \<open>\<open>scope.split(/\s+/).filter(Boolean)\<close>: the maximal runs without white space.\<close>

fun words_from :: "string \<Rightarrow> string \<Rightarrow> string list" where
  "words_from word [] = (if word = [] then [] else [rev word])"
| "words_from word (c # cs) =
     (if js_space c then (if word = [] then words_from [] cs else rev word # words_from [] cs)
      else words_from (c # word) cs)"

definition identity :: "host \<Rightarrow> js_value \<Rightarrow> string" where
  "identity h payload =
     JSON_stringify h (JArray
       [or_null (js_property payload ''iss''),
        js_property payload ''sub'',
        normalized h (js_property payload ''aud''),
        or_null (js_property payload ''email''),
        normalized h (js_property payload ''groups''),
        normalized h (js_property payload ''roles''),
        (case js_property payload ''scope'' of
           JString scope \<Rightarrow> JArray (map JString (sort (words_from [] scope)))
         | value \<Rightarrow> normalized h value)])"

definition REFRESH_WINDOW :: int where
  "REFRESH_WINDOW = 60000"

text \<open>Comparison, \<open>Math.max\<close> and \<open>Math.min\<close> of numbers, and the constant \<open>.2\<close>, a double.\<close>

fun js_less :: "js_number \<Rightarrow> js_number \<Rightarrow> bool" where
  "js_less (Fin a) (Fin b) = (a < b)"
| "js_less NaN y = False"
| "js_less x NaN = False"
| "js_less NegInf y = (y \<noteq> NegInf)"
| "js_less x NegInf = False"
| "js_less x PosInf = (x \<noteq> PosInf)"
| "js_less PosInf y = False"

text \<open>\<open>x <= y\<close>, false of \<open>NaN\<close>.\<close>

definition js_le :: "js_number \<Rightarrow> js_number \<Rightarrow> bool" where
  "js_le x y \<longleftrightarrow> js_less x y \<or> x = y \<and> x \<noteq> NaN"

definition js_max :: "js_number \<Rightarrow> js_number \<Rightarrow> js_number" where
  "js_max x y = (if x = NaN \<or> y = NaN then NaN else if js_less x y then y else x)"

definition js_min :: "js_number \<Rightarrow> js_number \<Rightarrow> js_number" where
  "js_min x y = (if x = NaN \<or> y = NaN then NaN else if js_less y x then y else x)"

definition point_two :: rat where
  "point_two = 3602879701896397 / 18014398509481984"

definition expiresAt :: "host \<Rightarrow> string option \<Rightarrow> js_number" where
  "expiresAt h token =
     js_mul_const
       (case parseToken h token of Some payload \<Rightarrow> js_number_of (js_property payload ''exp'') | None \<Rightarrow> Fin 0)
       1000"

definition refreshWindow :: "host \<Rightarrow> string option \<Rightarrow> js_number" where
  "refreshWindow h token =
     (let lifetime =
        (case parseToken h token of
           Some payload \<Rightarrow>
             (case js_property payload ''iat'' of
                JNumber iat \<Rightarrow>
                  js_mul_const (js_sub (js_number_of (js_property payload ''exp'')) iat) 1000
              | _ \<Rightarrow> Fin (of_int (REFRESH_WINDOW * 5)))
         | None \<Rightarrow> Fin (of_int (REFRESH_WINDOW * 5)))
      in js_min (Fin (of_int REFRESH_WINDOW)) (js_max (Fin 1000) (js_mul_const lifetime point_two)))"

definition remaining :: "host \<Rightarrow> browser \<Rightarrow> js_number" where
  "remaining h b = js_sub (expiresAt h (idToken b)) (Fin (of_int (clock b)))"

definition sessionRefreshDelay :: "host \<Rightarrow> browser \<Rightarrow> js_number" where
  "sessionRefreshDelay h b =
     js_max (Fin 1000) (js_sub (remaining h b) (refreshWindow h (idToken b)))"

definition unexpired :: "host \<Rightarrow> string \<Rightarrow> browser \<Rightarrow> bool" where
  "unexpired h token b \<longleftrightarrow> js_less (Fin (of_int (clock b))) (expiresAt h (Some token))"

definition expired :: "host \<Rightarrow> string \<Rightarrow> browser \<Rightarrow> bool" where
  "expired h token b \<longleftrightarrow> js_le (expiresAt h (Some token)) (Fin (of_int (clock b)))"

section \<open>The snapshot\<close>

text \<open>
  \<open>publish\<close> merges the given members into the snapshot. \<open>clearBrowserQueryCache\<close> drops every
  cached response; \<open>cacheClears\<close> counts its calls.
\<close>

definition publish :: "(SessionSnapshot \<Rightarrow> SessionSnapshot) \<Rightarrow> bool \<Rightarrow> browser \<Rightarrow> browser" where
  "publish next_of invalidate b =
     (let old = snapshot b; new = next_of old;
          changed = (snap_identityKey new \<noteq> snap_identityKey old \<or> invalidate)
      in b\<lparr>snapshot := new\<lparr>snap_revision := snap_revision old + 1,
                            snap_identityEpoch := snap_identityEpoch old + (if changed then 1 else 0)\<rparr>,
           cacheClears := cacheClears b + (if changed then 1 else 0)\<rparr>)"

definition unavailable_message :: string where
  "unavailable_message =
     ''We couldn'' @ [CHR 0xE2, CHR 0x80, CHR 0x99] @
     ''t reconnect to Paprika. Check your connection and retry.''"

definition publish_unavailable :: "browser \<Rightarrow> browser" where
  "publish_unavailable =
     publish (\<lambda>s. s\<lparr>snap_status := Session_unavailable, snap_error := Some unavailable_message\<rparr>) False"

definition readLoginPreference :: "host \<Rightarrow> storage \<Rightarrow> LoginPreference option" where
  "readLoginPreference h st =
     (case JSON_parse h (case readBrowserStorage LOGIN_PREFERENCE_KEY st of Some s \<Rightarrow> s | None \<Rightarrow> ''null'') of
        None \<Rightarrow> None
      | Some value \<Rightarrow>
          let method = js_property value ''method''; user = js_property value ''user'' in
          if \<not> js_truthy value \<or> method \<notin> {JString ''basic'', JString ''oidc''} \<or> \<not> js_truthy user \<or>
             as_string (js_property user ''sub'') = None
          then None
          else Some \<lparr>pref_method = string_of method,
                     pref_provider =
                       (if js_property value ''provider'' = JString ''google'' then ''google'' else ''oidc''),
                     pref_user = profile user\<rparr>)"

definition forgetLoginPreference :: "browser \<Rightarrow> browser" where
  "forgetLoginPreference b =
     publish id False (on_store (writeBrowserStorage LOGIN_PREFERENCE_KEY None) b)"

definition adoptToken :: "host \<Rightarrow> string \<Rightarrow> SessionStatus \<Rightarrow> browser \<Rightarrow> browser" where
  "adoptToken h token status b =
     (case parseToken h (Some token) of
        None \<Rightarrow> b
      | Some payload \<Rightarrow>
          publish (\<lambda>s. s\<lparr>snap_idToken := Some token, snap_user := Some (profile payload),
                         snap_identityKey := Some (identity h payload), snap_status := status,
                         snap_error := None\<rparr>) False b)"

definition anonymous :: "bool \<Rightarrow> browser \<Rightarrow> browser" where
  "anonymous invalidate b =
     publish (\<lambda>s. s\<lparr>snap_idToken := None, snap_user := None, snap_identityKey := None,
                    snap_status := Session_anonymous, snap_error := None\<rparr>) invalidate
       (on_store (writeBrowserStorage AUTH_USER_KEY None)
         (on_store (writeBrowserStorage AUTH_TOKEN_KEY None) b))"

definition listenForStorage :: "browser \<Rightarrow> browser" where
  "listenForStorage b = b\<lparr>listening := True\<rparr>"

text \<open>The JSON of a profile and of a login preference; \<open>undefined\<close> members are dropped.\<close>

definition profile_json :: "AuthUser \<Rightarrow> js_value" where
  "profile_json u =
     JObject ([(''sub'', JString (user_sub u)), (''email'', JString (user_email u)),
               (''name'', JString (user_name u))] @
              (case user_picture u of Some p \<Rightarrow> [(''picture'', JString p)] | None \<Rightarrow> []))"

definition preference_json :: "TokenOptions \<Rightarrow> AuthUser \<Rightarrow> js_value" where
  "preference_json options u =
     JObject [(''method'', JString (opt_method options)),
              (''provider'', (case opt_provider options of Some p \<Rightarrow> JString p | None \<Rightarrow> JUndefined)),
              (''user'', profile_json u)]"

text \<open>The result tells whether the token was accepted.\<close>

definition completeSession :: "host \<Rightarrow> string option \<Rightarrow> TokenOptions option \<Rightarrow> browser \<Rightarrow> bool \<times> browser" where
  "completeSession h token options b =
     (case (token, parseToken h token) of
        (Some t, Some payload) \<Rightarrow>
          if expired h t b then (False, b)
          else
            let b1 = (listenForStorage (b\<lparr>hydrated := True\<rparr>))\<lparr>retryAfter := 0\<rparr>;
                b2 = on_store (writeBrowserStorage AUTH_TOKEN_KEY (Some t)) b1;
                b3 = on_store (writeBrowserStorage AUTH_USER_KEY
                       (Some (JSON_stringify h (profile_json (profile payload))))) b2;
                available = (case options of
                    Some o' \<Rightarrow> (case opt_sessionRefreshAvailable o' of
                        Some a \<Rightarrow> Some a
                      | None \<Rightarrow> state_refreshAvailable (readState h (store b3)))
                  | None \<Rightarrow> state_refreshAvailable (readState h (store b3)));
                b4 = on_store (writeState h
                       [(''loggedOut'', JBool False), (''refreshAvailable'', optional_bool available)]) b3;
                b5 = (case options of
                    Some o' \<Rightarrow> on_store (writeBrowserStorage LOGIN_PREFERENCE_KEY
                        (Some (JSON_stringify h (preference_json o' (profile payload))))) b4
                  | None \<Rightarrow> b4)
            in (True, adoptToken h t Session_authenticated b5)
      | _ \<Rightarrow> (False, b))"

text \<open>A token from storage, if there is a session in it.\<close>

definition storedStatus :: "host \<Rightarrow> string \<Rightarrow> browser \<Rightarrow> SessionStatus" where
  "storedStatus h token b = (if unexpired h token b then Session_authenticated else Session_loading)"

definition hydrate :: "host \<Rightarrow> browser \<Rightarrow> browser" where
  "hydrate h b0 =
     (let b = listenForStorage b0 in
      if hydrated b then b
      else
        let b1 = b\<lparr>hydrated := True\<rparr> in
        case readBrowserStorage AUTH_TOKEN_KEY (store b1) of
          Some token \<Rightarrow>
            if \<not> loggedOut h (store b1) \<and> token \<noteq> []
            then adoptToken h token (storedStatus h token b1) b1 else b1
        | None \<Rightarrow> b1)"

text \<open>The argument is \<open>event?.key\<close>.\<close>

definition syncSessionFromStorage :: "host \<Rightarrow> string option \<Rightarrow> browser \<Rightarrow> browser" where
  "syncSessionFromStorage h key b =
     (let present = (case key of Some k \<Rightarrow> k \<noteq> [] | None \<Rightarrow> False) in
      if present \<and> the key \<notin> {AUTH_TOKEN_KEY, SESSION_STATE_KEY, LOGIN_PREFERENCE_KEY} then b
      else
        let b1 = (if present
                  then on_store (\<lambda>st. st\<lparr>failedWrites := js_map_delete (the key) (failedWrites st)\<rparr>) b
                  else b);
            token = (case readBrowserStorage AUTH_TOKEN_KEY (store b1) of Some t \<Rightarrow> t | None \<Rightarrow> [])
        in if loggedOut h (store b1) \<or> token = [] then
             (if (case idToken b1 of Some t \<Rightarrow> t \<noteq> [] | None \<Rightarrow> False) \<or>
                 snap_status (snapshot b1) \<noteq> Session_anonymous
              then anonymous False b1 else publish id False b1)
           else if Some token \<noteq> idToken b1 then adoptToken h token (storedStatus h token b1) b1
           else if key = Some LOGIN_PREFERENCE_KEY then publish id False b1
           else b1)"

definition clearRejectedSession :: "host \<Rightarrow> string option \<Rightarrow> browser \<Rightarrow> browser" where
  "clearRejectedSession h rejectedBearer b =
     (if idToken b \<noteq> rejectedBearer \<or> readBrowserStorage AUTH_TOKEN_KEY (store b) \<noteq> rejectedBearer then b
      else anonymous False
        (on_store (writeState h [(''refreshAvailable'', JBool False), (''loggedOut'', JBool True)]) b))"

section \<open>Configuration\<close>

text \<open>
  \<open>getAuthConfiguration\<close> answers from \<open>configuration\<close>, or shares one request; the request's body
  must have its three flags. A call suspended on it is resumed with \<open>ConfigReady\<close> or \<open>Rejected\<close>.
\<close>

definition parseConfiguration :: "js_value \<Rightarrow> AuthConfiguration option" where
  "parseConfiguration value =
     (case (as_bool (js_property (js_property value ''oidc'') ''enabled''),
            as_bool (js_property (js_property value ''basic'') ''enabled''),
            as_bool (js_property (js_property value ''session'') ''refreshEnabled'')) of
        (Some o', Some b, Some r) \<Rightarrow>
          Some \<lparr>oidc_enabled = o', basic_enabled = b, session_refreshEnabled = r\<rparr>
      | _ \<Rightarrow> None)"

definition configurationArrived :: "int \<Rightarrow> js_value \<Rightarrow> browser \<Rightarrow> browser" where
  "configurationArrived status value b =
     (case (200 \<le> status \<and> status < 300, parseConfiguration value) of
        (True, Some c) \<Rightarrow> b\<lparr>configuration := Some c\<rparr>
      | _ \<Rightarrow> b)"

section \<open>Renewing a session\<close>

definition spawn :: "task \<Rightarrow> browser \<Rightarrow> browser" where
  "spawn t b = b\<lparr>tasks := tasks b @ [t]\<rparr>"

definition responseOk :: "int \<Rightarrow> bool" where
  "responseOk status \<longleftrightarrow> 200 \<le> status \<and> status < 300"

text \<open>The call: it joins the flight there is, whose number it returns, or begins one.\<close>

definition refreshSession :: "string option \<Rightarrow> browser \<Rightarrow> nat \<times> browser" where
  "refreshSession rejectedBearer b =
     (case refreshFlight b of
        Some flight \<Rightarrow> (flight, b)
      | None \<Rightarrow>
          (length (tasks b),
           (spawn (RefreshTask (RefreshLock (idToken b) (epoch b) rejectedBearer)) b)
             \<lparr>refreshFlight := Some (length (tasks b))\<rparr>))"

text \<open>The test after each \<open>await\<close> of the work: nothing ended or replaced the session meanwhile.\<close>

definition sessionUnchanged :: "host \<Rightarrow> nat \<Rightarrow> string option \<Rightarrow> browser \<Rightarrow> bool" where
  "sessionUnchanged h beforeEpoch fence b \<longleftrightarrow>
     epoch b = beforeEpoch \<and> state_revision (readState h (store b)) = fence"

definition refreshPreference :: "host \<Rightarrow> bool option \<Rightarrow> storage \<Rightarrow> TokenOptions option" where
  "refreshPreference h available st =
     map_option (\<lambda>p. \<lparr>opt_method = pref_method p, opt_provider = Some (pref_provider p),
                      opt_sessionRefreshAvailable = available\<rparr>) (readLoginPreference h st)"

fun refresh_resume :: "host \<Rightarrow> refresh_point \<Rightarrow> settlement \<Rightarrow> browser \<Rightarrow> refresh_point \<times> browser" where
  "refresh_resume h (RefreshLock beforeToken beforeEpoch rejectedBearer) LockGranted b =
     (if loggedOut h (store b) \<or> epoch b \<noteq> beforeEpoch then (RefreshFinally (Resolved None), b)
      else
        (case readBrowserStorage AUTH_TOKEN_KEY (store b) of
           Some shared \<Rightarrow>
             if shared \<noteq> [] \<and> Some shared \<noteq> beforeToken \<and> Some shared \<noteq> rejectedBearer \<and> unexpired h shared b
             then (RefreshFinally (Resolved (Some shared)), adoptToken h shared Session_authenticated b)
             else (RefreshFetch beforeEpoch (state_revision (readState h (store b))), b)
         | None \<Rightarrow> (RefreshFetch beforeEpoch (state_revision (readState h (store b))), b)))"
| "refresh_resume h (RefreshLock beforeToken beforeEpoch rejectedBearer) Rejected b =
     (RefreshCatch beforeEpoch, b)"
| "refresh_resume h (RefreshFetch beforeEpoch fence) (Responded status) b =
     (if \<not> sessionUnchanged h beforeEpoch fence b \<or> loggedOut h (store b)
      then (RefreshFinally (Resolved None), b)
      else if status = 401 then
        (RefreshFinally (Resolved None),
         anonymous False
           (on_store (writeState h [(''refreshAvailable'', JBool False), (''loggedOut'', JBool True)]) b))
      else if \<not> responseOk status then (RefreshCatch beforeEpoch, b)
      else (RefreshBody beforeEpoch fence, b))"
| "refresh_resume h (RefreshFetch beforeEpoch fence) Rejected b = (RefreshCatch beforeEpoch, b)"
| "refresh_resume h (RefreshBody beforeEpoch fence) (Decoded token available) b =
     (if \<not> sessionUnchanged h beforeEpoch fence b \<or> loggedOut h (store b)
      then (RefreshFinally (Resolved None), b)
      else
        let preference = refreshPreference h available (store b);
            (completed, b1) = completeSession h token preference b
        in if \<not> completed then (RefreshCatch beforeEpoch, b1)
           else (RefreshFinally (Resolved token),
                 if preference = None
                 then on_store (writeState h
                        [(''loggedOut'', JBool False), (''refreshAvailable'', optional_bool available)]) b1
                 else b1))"
| "refresh_resume h (RefreshBody beforeEpoch fence) Rejected b = (RefreshCatch beforeEpoch, b)"
| "refresh_resume h (RefreshCatch beforeEpoch) Resumed b =
     (if epoch b \<noteq> beforeEpoch \<or> loggedOut h (store b) then (RefreshFinally (Resolved None), b)
      else (RefreshFinally Failed, publish_unavailable (b\<lparr>retryAfter := clock b + 15000\<rparr>)))"
| "refresh_resume h (RefreshFinally result) Resumed b = (RefreshSettled result, b\<lparr>refreshFlight := None\<rparr>)"
| "refresh_resume h p e b = (p, b)"

section \<open>Asking for a valid session\<close>

definition settled_refresh :: "browser \<Rightarrow> nat \<Rightarrow> outcome option" where
  "settled_refresh b i =
     (if i < length (tasks b)
      then (case tasks b ! i of RefreshTask (RefreshSettled r) \<Rightarrow> Some r | _ \<Rightarrow> None) else None)"

definition positive :: "js_number \<Rightarrow> bool" where
  "positive x \<longleftrightarrow> js_less (Fin 0) x"

definition ensureValidSession :: "host \<Rightarrow> bool \<Rightarrow> browser \<Rightarrow> ensure_point \<times> browser" where
  "ensureValidSession h forceRefresh b0 =
     (let b = hydrate h b0; state = readState h (store b); left = remaining h b in
      if state_loggedOut state = Some True then
        (EnsureSettled (Resolved None),
         if snap_status (snapshot b) \<noteq> Session_anonymous then anonymous False b else b)
      else if \<not> forceRefresh \<and> js_less (refreshWindow h (idToken b)) left then
        (EnsureSettled (Resolved (idToken b)), b)
      else if \<not> forceRefresh \<and> clock b < retryAfter b then
        (if positive left then (EnsureSettled (Resolved (idToken b)), b) else (EnsureSettled Failed, b))
      else (EnsureConfig state left forceRefresh, b))"

text \<open>The \<open>catch\<close> block; \<open>left\<close> is the remaining life read before the first \<open>await\<close>.\<close>

definition ensure_failed :: "js_number \<Rightarrow> bool \<Rightarrow> browser \<Rightarrow> ensure_point \<times> browser" where
  "ensure_failed left forceRefresh b =
     (if positive left \<and> \<not> forceRefresh then (EnsureSettled (Resolved (idToken b)), b)
      else
        let b1 = b\<lparr>retryAfter := clock b + 15000\<rparr> in
        (EnsureSettled Failed,
         if snap_status (snapshot b1) \<noteq> Session_unavailable then publish_unavailable b1 else b1))"

fun ensure_resume :: "host \<Rightarrow> ensure_point \<Rightarrow> settlement \<Rightarrow> browser \<Rightarrow> ensure_point \<times> browser" where
  "ensure_resume h (EnsureConfig state left forceRefresh) (ConfigReady config) b =
     (if \<not> session_refreshEnabled config \<or> state_refreshAvailable state = Some False then
        (if positive left then (EnsureSettled (Resolved (idToken b)), b)
         else (EnsureSettled (Resolved None), anonymous False b))
      else let (flight, b1) = refreshSession None b in (EnsureRefresh flight left forceRefresh, b1))"
| "ensure_resume h (EnsureConfig state left forceRefresh) Rejected b = ensure_failed left forceRefresh b"
| "ensure_resume h (EnsureRefresh flight left forceRefresh) Resumed b =
     (case settled_refresh b flight of
        Some (Resolved token) \<Rightarrow> (EnsureSettled (Resolved token), b)
      | Some Failed \<Rightarrow> ensure_failed left forceRefresh b
      | None \<Rightarrow> (EnsureRefresh flight left forceRefresh, b))"
| "ensure_resume h p e b = (p, b)"

section \<open>Recovering from a rejected bearer\<close>

definition recoverUnauthorized :: "host \<Rightarrow> string option \<Rightarrow> browser \<Rightarrow> task \<times> browser" where
  "recoverUnauthorized h rejectedBearer b0 =
     (let b = hydrate h b0 in
      if rejectedBearer \<noteq> idToken b then
        (let (p, b1) = ensureValidSession h False b in (EnsureTask p, b1))
      else if loggedOut h (store b) then (RecoverTask (RecoverSettled (Resolved None)), b)
      else if clock b < retryAfter b then (RecoverTask (RecoverSettled Failed), b)
      else (RecoverTask (RecoverConfig rejectedBearer (epoch b)), b))"

definition recover_failed :: "host \<Rightarrow> nat \<Rightarrow> browser \<Rightarrow> recover_point \<times> browser" where
  "recover_failed h beforeEpoch b =
     (if epoch b \<noteq> beforeEpoch \<or> loggedOut h (store b) then (RecoverSettled (Resolved None), b)
      else
        let b1 = b\<lparr>retryAfter := clock b + 15000\<rparr> in
        (RecoverSettled Failed,
         if snap_status (snapshot b1) \<noteq> Session_unavailable then publish_unavailable b1 else b1))"

fun recover_resume :: "host \<Rightarrow> recover_point \<Rightarrow> settlement \<Rightarrow> browser \<Rightarrow> recover_point \<times> browser" where
  "recover_resume h (RecoverConfig rejectedBearer beforeEpoch) (ConfigReady config) b =
     (if \<not> session_refreshEnabled config \<or> state_refreshAvailable (readState h (store b)) = Some False
      then (RecoverSettled (Resolved None), clearRejectedSession h rejectedBearer b)
      else let (flight, b1) = refreshSession rejectedBearer b in (RecoverRefresh flight beforeEpoch, b1))"
| "recover_resume h (RecoverConfig rejectedBearer beforeEpoch) Rejected b = recover_failed h beforeEpoch b"
| "recover_resume h (RecoverRefresh flight beforeEpoch) Resumed b =
     (case settled_refresh b flight of
        Some (Resolved token) \<Rightarrow> (RecoverSettled (Resolved token), b)
      | Some Failed \<Rightarrow> recover_failed h beforeEpoch b
      | None \<Rightarrow> (RecoverRefresh flight beforeEpoch, b))"
| "recover_resume h p e b = (p, b)"

section \<open>Ending a session\<close>

definition logoutSession :: "host \<Rightarrow> browser \<Rightarrow> logout_point \<times> browser" where
  "logoutSession h b0 =
     (let b = publish (\<lambda>s. s\<lparr>snap_logoutPending := True\<rparr>) False (hydrate h b0);
          b1 = on_store (writeState h [(''loggedOut'', JBool True), (''refreshAvailable'', JBool False)]) b;
          b2 = anonymous True b1
      in (LogoutConfig, b2\<lparr>tab := writeAuthReturnTo None (tab b2)\<rparr>))"

text \<open>The flag of a settled call tells whether it threw.\<close>

fun logout_resume :: "host \<Rightarrow> logout_point \<Rightarrow> settlement \<Rightarrow> browser \<Rightarrow> logout_point \<times> browser" where
  "logout_resume h LogoutConfig (ConfigReady config) b =
     (if \<not> session_refreshEnabled config then (LogoutFinally False, b) else (LogoutLock, b))"
| "logout_resume h LogoutConfig Rejected b = (LogoutLock, b)"
| "logout_resume h LogoutLock LockGranted b = (LogoutFetch, b)"
| "logout_resume h LogoutLock Rejected b = (LogoutFinally True, b)"
| "logout_resume h LogoutFetch (Responded status) b = (LogoutFinally (\<not> responseOk status), b)"
| "logout_resume h LogoutFetch Rejected b = (LogoutFinally True, b)"
| "logout_resume h (LogoutFinally threw) Resumed b =
     (LogoutSettled threw, publish (\<lambda>s. s\<lparr>snap_logoutPending := False\<rparr>) False b)"
| "logout_resume h p e b = (p, b)"

section \<open>Beginning a session\<close>

definition exchangeAuthorizationCode :: "host \<Rightarrow> string \<Rightarrow> browser \<Rightarrow> exchange_point \<times> browser" where
  "exchangeAuthorizationCode h provider b =
     (CodeLock (epoch b) (state_revision (readState h (store b))) provider, listenForStorage b)"

definition exchangePasswordForSession :: "host \<Rightarrow> browser \<Rightarrow> exchange_point \<times> browser" where
  "exchangePasswordForSession h b =
     (PasswordConfig (epoch b) (state_revision (readState h (store b))), listenForStorage b)"

definition password_options :: TokenOptions where
  "password_options =
     \<lparr>opt_method = ''basic'', opt_provider = None, opt_sessionRefreshAvailable = Some False\<rparr>"

text \<open>A settled exchange tells whether it threw; a cancelled one throws.\<close>

fun exchange_resume :: "host \<Rightarrow> exchange_point \<Rightarrow> settlement \<Rightarrow> browser \<Rightarrow> exchange_point \<times> browser" where
  "exchange_resume h (CodeLock e fence provider) LockGranted b =
     (if \<not> sessionUnchanged h e fence b then (ExchangeSettled True, b) else (CodeFetch e fence provider, b))"
| "exchange_resume h (CodeFetch e fence provider) (Responded status) b =
     (if \<not> responseOk status then (ExchangeSettled True, b) else (CodeBody e fence provider, b))"
| "exchange_resume h (CodeBody e fence provider) (Decoded token available) b =
     (if \<not> sessionUnchanged h e fence b then (ExchangeSettled True, b)
      else
        let (completed, b1) = completeSession h token
              (Some \<lparr>opt_method = ''oidc'', opt_provider = Some provider,
                     opt_sessionRefreshAvailable = available\<rparr>) b
        in (ExchangeSettled (\<not> completed), b1))"
| "exchange_resume h (PasswordConfig e fence) (ConfigReady config) b =
     (if \<not> basic_enabled config then (ExchangeSettled True, b) else (PasswordLock e fence config, b))"
| "exchange_resume h (PasswordLock e fence config) LockGranted b =
     (if \<not> sessionUnchanged h e fence b then (ExchangeSettled True, b) else (PasswordFetch e fence config, b))"
| "exchange_resume h (PasswordFetch e fence config) (Responded status) b =
     (if \<not> responseOk status then (ExchangeSettled True, b) else (PasswordBody e fence config, b))"
| "exchange_resume h (PasswordBody e fence config) (Decoded token available) b =
     (if \<not> sessionUnchanged h e fence b then (ExchangeSettled True, b)
      else
        (case (token, parseToken h token) of
           (Some t, Some payload) \<Rightarrow>
             if expired h t b then (ExchangeSettled True, b)
             else if session_refreshEnabled config then (PasswordLogout e fence t, b)
             else (ExchangeSettled False, snd (completeSession h token (Some password_options) b))
         | _ \<Rightarrow> (ExchangeSettled True, b)))"
| "exchange_resume h (PasswordLogout e fence token) (Responded status) b =
     (if \<not> responseOk status \<or> \<not> sessionUnchanged h e fence b then (ExchangeSettled True, b)
      else (ExchangeSettled False, snd (completeSession h (Some token) (Some password_options) b)))"
| "exchange_resume h (ExchangeSettled threw) event b = (ExchangeSettled threw, b)"
| "exchange_resume h p Rejected b = (ExchangeSettled True, b)"
| "exchange_resume h p event b = (p, b)"

section \<open>The tab as a state machine\<close>

definition settle :: "nat \<Rightarrow> task \<Rightarrow> browser \<Rightarrow> browser" where
  "settle i t b = b\<lparr>tasks := (tasks b)[i := t]\<rparr>"

fun resume :: "host \<Rightarrow> task \<Rightarrow> settlement \<Rightarrow> browser \<Rightarrow> task \<times> browser" where
  "resume h (RefreshTask p) e b = map_prod RefreshTask id (refresh_resume h p e b)"
| "resume h (EnsureTask p) e b = map_prod EnsureTask id (ensure_resume h p e b)"
| "resume h (RecoverTask p) e b = map_prod RecoverTask id (recover_resume h p e b)"
| "resume h (LogoutTask p) e b = map_prod LogoutTask id (logout_resume h p e b)"
| "resume h (ExchangeTask p) e b = map_prod ExchangeTask id (exchange_resume h p e b)"

datatype call = Ensure bool | Recover "string option" | Logout | SignInCode string | SignInPassword

fun call_task :: "host \<Rightarrow> call \<Rightarrow> browser \<Rightarrow> task \<times> browser" where
  "call_task h (Ensure force) b = map_prod EnsureTask id (ensureValidSession h force b)"
| "call_task h (Recover bearer) b = recoverUnauthorized h bearer b"
| "call_task h Logout b = map_prod LogoutTask id (logoutSession h b)"
| "call_task h (SignInCode provider) b = map_prod ExchangeTask id (exchangeAuthorizationCode h provider b)"
| "call_task h SignInPassword b = map_prod ExchangeTask id (exchangePasswordForSession h b)"

definition browser_init :: "storage \<Rightarrow> tab_storage \<Rightarrow> int \<Rightarrow> browser" where
  "browser_init st tb now =
     \<lparr>snapshot = initialSnapshot, hydrated = False, refreshFlight = None, configuration = None,
      retryAfter = 0, listening = False, store = st, tab = tb, cacheClears = 0, clock = now,
      tasks = []\<rparr>"

text \<open>
  The steps: a call of an exported operation, the resumption of a task, a storage event, the arrival
  of the configuration, and what the tab has no part in: other tabs write to the shared storage,
  the browser changes what it refuses, and time passes.
\<close>

inductive session_step :: "host \<Rightarrow> browser \<Rightarrow> browser \<Rightarrow> bool" for h where
  called: "call_task h c b = (t, b') \<Longrightarrow> session_step h b (spawn t b')"
| resumed: "i < length (tasks b) \<Longrightarrow> resume h (tasks b ! i) e b = (t, b') \<Longrightarrow>
    session_step h b (settle i t b')"
| completed: "session_step h b (snd (completeSession h token options b))"
| forgot: "session_step h b (forgetLoginPreference b)"
| rejected: "session_step h b (clearRejectedSession h bearer b)"
| storage_event: "session_step h b (syncSessionFromStorage h key b)"
| configured: "session_step h b (configurationArrived status value b)"
| other_tab: "session_step h b (on_store (\<lambda>st. st\<lparr>localStorage := m\<rparr>) b)"
| refused: "session_step h b
    (on_store (\<lambda>st. st\<lparr>getItemThrows := g, setItemThrows := s, removeItemThrows := r\<rparr>) b)"
| tab_refused: "session_step h b (b\<lparr>tab := tb\<rparr>)"
| time_passed: "clock b \<le> now \<Longrightarrow> session_step h b (b\<lparr>clock := now\<rparr>)"

inductive session_reach :: "host \<Rightarrow> browser \<Rightarrow> browser \<Rightarrow> bool" for h where
  here: "session_reach h b b"
| onward: "session_reach h b b' \<Longrightarrow> session_step h b' b'' \<Longrightarrow> session_reach h b b''"

end
