(* ===== verification/SessionLaws.thy ===== *)
theory SessionLaws
  imports BrowserSession
begin

text \<open>
  What holds of the browser session under every interleaving of its tasks with the other tabs and
  with the browser's refusals: the snapshot agrees with its token, the epoch tells identities apart
  and counts the clearings of the query cache, at most one renewal is in flight, tasks of an earlier
  session have no effect, and logging out takes effect at once. The laws of the operations towards
  a relation between two moments are proved once, in a locale, and used for the history of the
  epoch and for the invariant of the snapshot.
\<close>

section \<open>What every operation keeps\<close>

text \<open>The updates of the snapshot that the operations publish.\<close>

inductive permitted :: "host \<Rightarrow> (SessionSnapshot \<Rightarrow> SessionSnapshot) \<Rightarrow> bool" for h where
  same: "permitted h id"
| adopted: "parseToken h (Some token) = Some payload \<Longrightarrow> status \<noteq> Session_anonymous \<Longrightarrow>
    permitted h (\<lambda>s. s\<lparr>snap_idToken := Some token, snap_user := Some (profile payload),
      snap_identityKey := Some (identity h payload), snap_status := status, snap_error := None\<rparr>)"
| left: "permitted h (\<lambda>s. s\<lparr>snap_idToken := None, snap_user := None, snap_identityKey := None,
      snap_status := Session_anonymous, snap_error := None\<rparr>)"
| unavailable: "permitted h (\<lambda>s. s\<lparr>snap_status := Session_unavailable, snap_error := Some message\<rparr>)"
| pending: "permitted h (\<lambda>s. s\<lparr>snap_logoutPending := flag\<rparr>)"

text \<open>
  The contract of the operations towards a relation between the state before a run and the state
  during it: the relation need only survive the permitted publications and whatever leaves the
  snapshot and the query cache alone.
\<close>

locale session_relation =
  fixes h :: host and R :: "browser \<Rightarrow> browser \<Rightarrow> bool"
  assumes quiet: "R b0 b \<Longrightarrow> snapshot b' = snapshot b \<Longrightarrow> cacheClears b' = cacheClears b \<Longrightarrow> R b0 b'"
    and published: "R b0 b \<Longrightarrow> permitted h f \<Longrightarrow> R b0 (publish f invalidate b)"
begin

lemma on_store: "R b0 b \<Longrightarrow> R b0 (on_store f b)"
  by (erule quiet) (simp_all add: on_store_def)

lemma quiet_updates:
  "R b0 b \<Longrightarrow> R b0 (b\<lparr>retryAfter := r\<rparr>)" "R b0 b \<Longrightarrow> R b0 (b\<lparr>hydrated := d\<rparr>)"
  "R b0 b \<Longrightarrow> R b0 (b\<lparr>refreshFlight := flight\<rparr>)" "R b0 b \<Longrightarrow> R b0 (b\<lparr>configuration := c\<rparr>)"
  "R b0 b \<Longrightarrow> R b0 (b\<lparr>tab := tb\<rparr>)" "R b0 b \<Longrightarrow> R b0 (b\<lparr>clock := n\<rparr>)"
  "R b0 b \<Longrightarrow> R b0 (b\<lparr>tasks := ts\<rparr>)" "R b0 b \<Longrightarrow> R b0 (listenForStorage b)"
  "R b0 b \<Longrightarrow> R b0 (spawn t b)" "R b0 b \<Longrightarrow> R b0 (settle i t b)"
  by (erule quiet; simp add: listenForStorage_def spawn_def settle_def)+

lemma publish_unavailable: "R b0 b \<Longrightarrow> R b0 (publish_unavailable b)"
  unfolding publish_unavailable_def by (erule published) (rule permitted.unavailable)

lemma anonymous: "R b0 b \<Longrightarrow> R b0 (anonymous invalidate b)"
  unfolding anonymous_def by (intro published on_store permitted.left)

lemma adoptToken: "R b0 b \<Longrightarrow> status \<noteq> Session_anonymous \<Longrightarrow> R b0 (adoptToken h token status b)"
  by (auto simp: adoptToken_def split: option.splits intro!: published permitted.adopted)

lemma forgetLoginPreference: "R b0 b \<Longrightarrow> R b0 (forgetLoginPreference b)"
  unfolding forgetLoginPreference_def by (intro published on_store permitted.same)

lemmas basics = on_store quiet_updates publish_unavailable anonymous adoptToken

lemma storedStatus_not_anonymous: "storedStatus h token b \<noteq> Session_anonymous"
  by (simp add: storedStatus_def)

lemma completeSession: "R b0 b \<Longrightarrow> R b0 (snd (completeSession h token options b))"
  by (auto simp: completeSession_def Let_def split: option.splits intro!: basics)

lemma hydrate: "R b0 b \<Longrightarrow> R b0 (hydrate h b)"
  by (auto simp: hydrate_def Let_def split: option.splits intro!: basics storedStatus_not_anonymous)

lemma syncSessionFromStorage: "R b0 b \<Longrightarrow> R b0 (syncSessionFromStorage h key b)"
  by (auto simp: syncSessionFromStorage_def Let_def simp del: split_paired_All
      intro!: basics published permitted.same storedStatus_not_anonymous)

lemma clearRejectedSession: "R b0 b \<Longrightarrow> R b0 (clearRejectedSession h bearer b)"
  by (auto simp: clearRejectedSession_def intro!: basics)

lemma configurationArrived: "R b0 b \<Longrightarrow> R b0 (configurationArrived status value b)"
  by (auto simp: configurationArrived_def split: option.splits bool.splits intro!: basics)

lemma refreshSession: "R b0 b \<Longrightarrow> R b0 (snd (refreshSession bearer b))"
  by (auto simp: refreshSession_def split: option.splits intro!: basics)

lemma completeSession_result: "completeSession h token options b = (ok, b') \<Longrightarrow> R b0 b \<Longrightarrow> R b0 b'"
  using completeSession [of b0 b token options] by simp

lemma refreshSession_result: "refreshSession bearer b = (flight, b') \<Longrightarrow> R b0 b \<Longrightarrow> R b0 b'"
  using refreshSession [of b0 b bearer] by simp

lemma refresh_resume: "refresh_resume h p e b = (p', b') \<Longrightarrow> R b0 b \<Longrightarrow> R b0 b'"
  by (cases "(h, p, e, b)" rule: refresh_resume.cases)
    (auto simp: Let_def split: option.splits prod.splits if_splits
      intro!: basics dest: completeSession_result)

lemma ensureValidSession: "ensureValidSession h force b = (p, b') \<Longrightarrow> R b0 b \<Longrightarrow> R b0 b'"
  by (auto simp: ensureValidSession_def Let_def split: if_splits intro!: basics hydrate)

lemma ensure_failed: "ensure_failed left force b = (p, b') \<Longrightarrow> R b0 b \<Longrightarrow> R b0 b'"
  by (auto simp: ensure_failed_def Let_def split: if_splits intro!: basics)

lemma ensure_resume: "ensure_resume h p e b = (p', b') \<Longrightarrow> R b0 b \<Longrightarrow> R b0 b'"
  by (cases "(h, p, e, b)" rule: ensure_resume.cases)
    (auto split: option.splits outcome.splits prod.splits if_splits
      intro!: basics dest: refreshSession_result ensure_failed)

lemma recoverUnauthorized: "recoverUnauthorized h bearer b = (t, b') \<Longrightarrow> R b0 b \<Longrightarrow> R b0 b'"
  by (auto simp: recoverUnauthorized_def Let_def split: prod.splits if_splits
      intro!: basics hydrate dest: ensureValidSession)

lemma recover_failed: "recover_failed h e b = (p, b') \<Longrightarrow> R b0 b \<Longrightarrow> R b0 b'"
  by (auto simp: recover_failed_def Let_def split: if_splits intro!: basics)

lemma recover_resume: "recover_resume h p e b = (p', b') \<Longrightarrow> R b0 b \<Longrightarrow> R b0 b'"
  by (cases "(h, p, e, b)" rule: recover_resume.cases)
    (auto split: option.splits outcome.splits prod.splits if_splits
      intro!: basics clearRejectedSession dest: refreshSession_result recover_failed)

lemma logoutSession: "logoutSession h b = (p, b') \<Longrightarrow> R b0 b \<Longrightarrow> R b0 b'"
  by (auto simp: logoutSession_def Let_def intro!: basics hydrate published permitted.pending)

lemma logout_resume: "logout_resume h p e b = (p', b') \<Longrightarrow> R b0 b \<Longrightarrow> R b0 b'"
  by (cases "(h, p, e, b)" rule: logout_resume.cases)
    (auto split: if_splits intro!: published permitted.pending)

lemma exchange_resume: "exchange_resume h p e b = (p', b') \<Longrightarrow> R b0 b \<Longrightarrow> R b0 b'"
  by (cases "(h, p, e, b)" rule: exchange_resume.cases)
    (auto split: option.splits prod.splits if_splits
      intro!: completeSession dest: completeSession_result)

lemma call_task: "call_task h c b = (t, b') \<Longrightarrow> R b0 b \<Longrightarrow> R b0 b'"
  by (cases c) (auto simp: map_prod_def exchangeAuthorizationCode_def exchangePasswordForSession_def
      split: prod.splits intro!: basics
      dest: ensureValidSession recoverUnauthorized logoutSession)

lemma resume: "resume h t e b = (t', b') \<Longrightarrow> R b0 b \<Longrightarrow> R b0 b'"
  by (cases t) (auto simp: map_prod_def split: prod.splits
      dest: refresh_resume ensure_resume recover_resume logout_resume exchange_resume)

lemma session_step: "session_step h b b' \<Longrightarrow> R b0 b \<Longrightarrow> R b0 b'"
  by (induction rule: session_step.induct)
    (auto intro!: basics completeSession forgetLoginPreference clearRejectedSession
      syncSessionFromStorage configurationArrived dest: call_task resume)

lemma session_reach: "session_reach h b b' \<Longrightarrow> R b0 b \<Longrightarrow> R b0 b'"
  by (induction rule: session_reach.induct) (auto dest: session_step)

end

section \<open>The epoch tells identities apart\<close>

definition tracks :: "browser \<Rightarrow> browser \<Rightarrow> bool" where
  "tracks b0 b \<longleftrightarrow> epoch b0 \<le> epoch b \<and>
     (epoch b = epoch b0 \<longrightarrow> snap_identityKey (snapshot b) = snap_identityKey (snapshot b0)) \<and>
     cacheClears b + epoch b0 = cacheClears b0 + epoch b \<and>
     snap_revision (snapshot b0) \<le> snap_revision (snapshot b)"

lemma tracks_refl: "tracks b b"
  by (simp add: tracks_def)

lemma tracks_publish: "tracks b0 b \<Longrightarrow> tracks b0 (publish f invalidate b)"
  by (auto simp: tracks_def publish_def Let_def)

interpretation epoch_history: session_relation h tracks for h
  by unfold_locales (simp add: tracks_def, rule tracks_publish)

text \<open>The snapshot always agrees with its token.\<close>

definition snapshot_ok :: "host \<Rightarrow> SessionSnapshot \<Rightarrow> bool" where
  "snapshot_ok h s \<longleftrightarrow>
     (case snap_idToken s of
        None \<Rightarrow> snap_identityKey s = None \<and> snap_user s = None
      | Some token \<Rightarrow>
          (case parseToken h (Some token) of
             None \<Rightarrow> False
           | Some payload \<Rightarrow> snap_identityKey s = Some (identity h payload) \<and> snap_user s = Some (profile payload))) \<and>
     (snap_status s = Session_authenticated \<longrightarrow> snap_idToken s \<noteq> None) \<and>
     (snap_status s = Session_anonymous \<longrightarrow> snap_idToken s = None)"

lemma snapshot_ok_publish:
  assumes "permitted h f" "snapshot_ok h (snapshot b)"
  shows "snapshot_ok h (snapshot (publish f invalidate b))"
  using assms by cases (auto simp: snapshot_ok_def publish_def Let_def split: option.splits)

interpretation snapshot_invariant: session_relation h
  "\<lambda>b0 b. snapshot_ok h (snapshot b0) \<longrightarrow> snapshot_ok h (snapshot b)" for h
  by unfold_locales (auto simp: snapshot_ok_publish)

lemma snapshot_ok_reach:
  "session_reach h (browser_init st tb now) b \<Longrightarrow> snapshot_ok h (snapshot b)"
  using snapshot_invariant.session_reach [of h "browser_init st tb now" b "browser_init st tb now"]
  by (simp add: browser_init_def initialSnapshot_def snapshot_ok_def)

text \<open>
  C11: An unchanged epoch means an unchanged identity. Whatever happens between two moments of a
  tab (renewals, recoveries, sign-ins, log-outs, other tabs, refused storage, in any order), the
  epoch never decreases, the query cache is cleared exactly as often as the epoch grows, and if the
  epoch is the same then so is the identity; and at every moment the identity and the user of the
  snapshot are those of its token, which parses, with no identity where there is no token.
\<close>

theorem same_epoch_same_identity:
  assumes "session_reach h (browser_init st tb now) b" and "session_reach h b b'"
  shows "epoch b \<le> epoch b' \<and>
    cacheClears b' = cacheClears b + (epoch b' - epoch b) \<and>
    (epoch b' = epoch b \<longrightarrow> snap_identityKey (snapshot b') = snap_identityKey (snapshot b)) \<and>
    snapshot_ok h (snapshot b) \<and> snapshot_ok h (snapshot b')"
proof -
  have "tracks b b'" using epoch_history.session_reach assms(2) tracks_refl by blast
  moreover have "snapshot_ok h (snapshot b)" using assms(1) by (rule snapshot_ok_reach)
  moreover have "snapshot_ok h (snapshot b')"
    using snapshot_invariant.session_reach [OF assms(2), of b] calculation(2) by blast
  ultimately show ?thesis by (auto simp: tracks_def)
qed

section \<open>One renewal at a time\<close>

definition in_flight :: "task \<Rightarrow> bool" where
  "in_flight t \<longleftrightarrow> (\<exists>p. t = RefreshTask p \<and> (\<forall>r. p \<noteq> RefreshSettled r))"

definition flights :: "task list \<Rightarrow> nat set" where
  "flights ts = {i. i < length ts \<and> in_flight (ts ! i)}"

definition single_renewal :: "browser \<Rightarrow> bool" where
  "single_renewal b \<longleftrightarrow> flights (tasks b) = set_option (refreshFlight b)"

text \<open>What the operations do to the tasks and to the flight.\<close>

definition same_tasks :: "browser \<Rightarrow> browser \<Rightarrow> bool" where
  "same_tasks b b' \<longleftrightarrow> tasks b' = tasks b \<and> refreshFlight b' = refreshFlight b"

lemma same_tasks_ops [simp]:
  "tasks (publish f i b) = tasks b" "refreshFlight (publish f i b) = refreshFlight b"
  "tasks (on_store g b) = tasks b" "refreshFlight (on_store g b) = refreshFlight b"
  "tasks (listenForStorage b) = tasks b" "refreshFlight (listenForStorage b) = refreshFlight b"
  by (simp_all add: publish_def on_store_def listenForStorage_def Let_def)

lemma same_tasks_session [simp]:
  "tasks (publish_unavailable b) = tasks b" "refreshFlight (publish_unavailable b) = refreshFlight b"
  "tasks (anonymous i b) = tasks b" "refreshFlight (anonymous i b) = refreshFlight b"
  "tasks (adoptToken h t s b) = tasks b" "refreshFlight (adoptToken h t s b) = refreshFlight b"
  "tasks (clearRejectedSession h r b) = tasks b" "refreshFlight (clearRejectedSession h r b) = refreshFlight b"
  "tasks (forgetLoginPreference b) = tasks b" "refreshFlight (forgetLoginPreference b) = refreshFlight b"
  by (simp_all add: publish_unavailable_def anonymous_def adoptToken_def clearRejectedSession_def
      forgetLoginPreference_def split: option.splits)

lemma same_tasks_hydrate [simp]:
  "tasks (hydrate h b) = tasks b" "refreshFlight (hydrate h b) = refreshFlight b"
  "tasks (configurationArrived status value b) = tasks b"
  "refreshFlight (configurationArrived status value b) = refreshFlight b"
  by (simp_all add: hydrate_def configurationArrived_def Let_def split: option.splits bool.splits)

lemma same_tasks_sync [simp]:
  "tasks (syncSessionFromStorage h key b) = tasks b"
  "refreshFlight (syncSessionFromStorage h key b) = refreshFlight b"
  unfolding syncSessionFromStorage_def Let_def by (simp_all only: same_tasks_ops same_tasks_session split: if_split) simp_all

lemma same_tasks_complete:
  "completeSession h token options b = (ok, b') \<Longrightarrow> same_tasks b b'"
  by (auto simp: completeSession_def Let_def same_tasks_def split: option.splits if_splits)

text \<open>An operation leaves the tasks alone, or begins a renewal where none is in flight.\<close>

definition grows :: "browser \<Rightarrow> browser \<Rightarrow> bool" where
  "grows b b' \<longleftrightarrow> same_tasks b b' \<or>
     refreshFlight b = None \<and> refreshFlight b' = Some (length (tasks b)) \<and>
     (\<exists>r. tasks b' = tasks b @ [RefreshTask (RefreshLock (idToken b) (epoch b) r)])"

lemma grows_same [simp]: "tasks b' = tasks b \<Longrightarrow> refreshFlight b' = refreshFlight b \<Longrightarrow> grows b b'"
  by (simp add: grows_def same_tasks_def)

lemma grows_refreshSession: "refreshSession r b = (i, b') \<Longrightarrow> grows b b'"
  by (auto simp: refreshSession_def grows_def same_tasks_def spawn_def split: option.splits)

lemma grows_ensure_failed: "ensure_failed l f b = (p, b') \<Longrightarrow> grows b b'"
  by (auto simp: ensure_failed_def Let_def split: if_splits)

lemma grows_recover_failed: "recover_failed h e b = (p, b') \<Longrightarrow> grows b b'"
  by (auto simp: recover_failed_def Let_def split: if_splits)

lemma same_tasks_ensure: "ensureValidSession h f b = (p, b') \<Longrightarrow> same_tasks b b'"
  by (auto simp: ensureValidSession_def Let_def same_tasks_def split: if_splits)

lemma grows_ensure_resume: "ensure_resume h p e b = (p', b') \<Longrightarrow> grows b b'"
  by (cases "(h, p, e, b)" rule: ensure_resume.cases)
    (auto split: option.splits outcome.splits prod.splits if_splits
      dest: grows_refreshSession grows_ensure_failed)

lemma grows_recover_resume: "recover_resume h p e b = (p', b') \<Longrightarrow> grows b b'"
  by (cases "(h, p, e, b)" rule: recover_resume.cases)
    (auto split: option.splits outcome.splits prod.splits if_splits
      dest: grows_refreshSession grows_recover_failed)

lemma grows_logout_resume: "logout_resume h p e b = (p', b') \<Longrightarrow> grows b b'"
  by (cases "(h, p, e, b)" rule: logout_resume.cases) (auto split: if_splits)

lemma grows_complete: "completeSession h token options b = (ok, b') \<Longrightarrow> grows b b'"
  using same_tasks_complete grows_def by blast

lemma grows_complete_snd: "grows b (snd (completeSession h token options b))"
  by (metis grows_complete prod.collapse)

lemma grows_exchange_resume: "exchange_resume h p e b = (p', b') \<Longrightarrow> grows b b'"
  by (cases "(h, p, e, b)" rule: exchange_resume.cases)
    (auto split: option.splits prod.splits if_splits dest: grows_complete simp: grows_complete_snd)

lemma same_tasks_recover: "recoverUnauthorized h r b = (t, b') \<Longrightarrow> same_tasks b b' \<and> \<not> in_flight t"
  by (auto simp: recoverUnauthorized_def in_flight_def Let_def same_tasks_def
      split: prod.splits if_splits dest!: same_tasks_ensure)

lemma same_tasks_call: "call_task h c b = (t, b') \<Longrightarrow> same_tasks b b' \<and> \<not> in_flight t"
  by (cases c)
    (auto simp: logoutSession_def exchangeAuthorizationCode_def exchangePasswordForSession_def
      in_flight_def Let_def map_prod_def same_tasks_def split: prod.splits
      dest!: same_tasks_ensure same_tasks_recover)

lemma refresh_resume_flight:
  "refresh_resume h p e b = (p', b') \<Longrightarrow>
     tasks b' = tasks b \<and>
     (in_flight (RefreshTask p') = in_flight (RefreshTask p) \<and> refreshFlight b' = refreshFlight b \<or>
      in_flight (RefreshTask p) \<and> \<not> in_flight (RefreshTask p') \<and> refreshFlight b' = None)"
  by (cases "(h, p, e, b)" rule: refresh_resume.cases)
    (auto simp: in_flight_def Let_def same_tasks_def split: option.splits prod.splits if_splits
      dest!: same_tasks_complete)

lemma in_flight_lock [simp]: "in_flight (RefreshTask (RefreshLock t e r))"
  by (simp add: in_flight_def)

lemma flights_snoc: "flights (ts @ [t]) = flights ts \<union> (if in_flight t then {length ts} else {})"
  by (auto simp: flights_def nth_append less_Suc_eq)

lemma flights_update:
  "i < length ts \<Longrightarrow> flights (ts[i := t]) = (if in_flight t then insert i (flights ts) else flights ts - {i})"
  by (auto simp: flights_def nth_list_update)

lemma single_renewal_same: "single_renewal b \<Longrightarrow> same_tasks b b' \<Longrightarrow> single_renewal b'"
  by (simp add: single_renewal_def same_tasks_def)

lemma single_renewal_grows: "single_renewal b \<Longrightarrow> grows b b' \<Longrightarrow> single_renewal b'"
  by (auto simp: single_renewal_def grows_def same_tasks_def flights_snoc)

lemma single_renewal_spawn: "single_renewal b \<Longrightarrow> \<not> in_flight t \<Longrightarrow> single_renewal (spawn t b)"
  by (simp add: single_renewal_def spawn_def flights_snoc)

lemma single_renewal_settle:
  assumes "single_renewal b" "i < length (tasks b)" "in_flight t = in_flight (tasks b ! i)"
  shows "single_renewal (settle i t b)"
proof -
  have "flights ((tasks b)[i := t]) = flights (tasks b)"
    using assms(2,3) by (auto simp: flights_update) (auto simp: flights_def)
  with assms(1) show ?thesis by (simp add: single_renewal_def settle_def)
qed

lemma resume_flight:
  assumes "resume h t e b = (t', b')" "i < length (tasks b)" "t = tasks b ! i" "single_renewal b"
  shows "single_renewal (settle i t' b')"
proof (cases "\<exists>p. t = RefreshTask p")
  case True
  then obtain p p' where p: "t = RefreshTask p" "t' = RefreshTask p'" "refresh_resume h p e b = (p', b')"
    using assms(1) by (auto simp: map_prod_def split: prod.splits)
  from refresh_resume_flight [OF p(3)] consider
      "tasks b' = tasks b" "in_flight t' = in_flight t" "refreshFlight b' = refreshFlight b"
    | "tasks b' = tasks b" "in_flight t" "\<not> in_flight t'" "refreshFlight b' = None"
    unfolding p(1,2) by auto
  then show ?thesis
  proof cases
    case 1
    then have "single_renewal b'" using assms(4) by (simp add: single_renewal_def)
    then show ?thesis using 1 assms(2,3) by (intro single_renewal_settle) simp_all
  next
    case 2
    then have "i \<in> flights (tasks b)" using assms(2,3) by (simp add: flights_def)
    then have "flights (tasks b) = {i}" using assms(4) by (auto simp: single_renewal_def)
    then show ?thesis using 2 assms(2) by (simp add: single_renewal_def settle_def flights_update)
  qed
next
  case False
  then have "grows b b'" "\<not> in_flight t'" "\<not> in_flight t"
    using assms(1)
    by (cases t; auto simp: in_flight_def map_prod_def split: prod.splits dest: grows_ensure_resume
        grows_recover_resume grows_logout_resume grows_exchange_resume)+
  moreover from this(1) have "i < length (tasks b')" "tasks b' ! i = tasks b ! i"
    using assms(2) by (auto simp: grows_def same_tasks_def nth_append)
  ultimately show ?thesis
    using assms(3,4) by (intro single_renewal_settle single_renewal_grows [of b b']) simp_all
qed

lemma single_renewal_step: "session_step h b b' \<Longrightarrow> single_renewal b \<Longrightarrow> single_renewal b'"
proof (induction rule: session_step.induct)
  case (called c b t b')
  then show ?case
    using same_tasks_call [OF called.hyps]
    by (intro single_renewal_spawn single_renewal_same [of b b']) simp_all
next
  case (resumed i b e t b')
  then show ?case by (intro resume_flight) simp_all
next
  case (completed b token options)
  then show ?case using grows_complete_snd single_renewal_grows by blast
qed (simp_all add: single_renewal_def)

text \<open>
  C18: Concurrent callers share one renewal. In every reachable state at most one renewal of the
  session is unsettled; it is the one \<open>refreshFlight\<close> refers to, and when there is none the next
  call begins one.
\<close>

theorem one_renewal_at_a_time:
  assumes "session_reach h (browser_init st tb now) b"
  shows "flights (tasks b) = set_option (refreshFlight b) \<and>
    flights (tasks (snd (refreshSession bearer b))) = {fst (refreshSession bearer b)}"
proof -
  have "session_reach h b0 b \<Longrightarrow> single_renewal b0 \<Longrightarrow> single_renewal b" for b0
    by (induction rule: session_reach.induct) (auto dest: single_renewal_step)
  moreover have "single_renewal (browser_init st tb now)"
    by (simp add: single_renewal_def browser_init_def flights_def)
  ultimately have "single_renewal b" using assms by blast
  then show ?thesis
    by (auto simp: single_renewal_def refreshSession_def spawn_def flights_snoc split: option.splits)
qed

section \<open>A task of an earlier session changes nothing\<close>

text \<open>The epoch that a suspended renewal or sign-in began with.\<close>

fun fenced_epoch :: "task \<Rightarrow> nat option" where
  "fenced_epoch (RefreshTask (RefreshLock t e r)) = Some e"
| "fenced_epoch (RefreshTask (RefreshFetch e f)) = Some e"
| "fenced_epoch (RefreshTask (RefreshBody e f)) = Some e"
| "fenced_epoch (RefreshTask (RefreshCatch e)) = Some e"
| "fenced_epoch (ExchangeTask (CodeLock e f p)) = Some e"
| "fenced_epoch (ExchangeTask (CodeFetch e f p)) = Some e"
| "fenced_epoch (ExchangeTask (CodeBody e f p)) = Some e"
| "fenced_epoch (ExchangeTask (PasswordConfig e f)) = Some e"
| "fenced_epoch (ExchangeTask (PasswordLock e f c)) = Some e"
| "fenced_epoch (ExchangeTask (PasswordFetch e f c)) = Some e"
| "fenced_epoch (ExchangeTask (PasswordBody e f c)) = Some e"
| "fenced_epoch (ExchangeTask (PasswordLogout e f t)) = Some e"
| "fenced_epoch t = None"

lemma fenced_resume:
  assumes "resume h t e b = (t', b')"
  shows "fenced_epoch t' = fenced_epoch t \<or> fenced_epoch t' = None"
proof (cases t)
  case (RefreshTask p)
  with assms show ?thesis
    by (cases "(h, p, e, b)" rule: refresh_resume.cases)
      (auto simp: Let_def split: if_splits option.splits prod.splits)
next
  case (ExchangeTask p)
  with assms show ?thesis
    by (cases "(h, p, e, b)" rule: exchange_resume.cases)
      (auto simp: Let_def split: if_splits option.splits prod.splits)
qed (use assms in \<open>auto simp: map_prod_def split: prod.splits\<close>)

text \<open>With another epoch than the current one, a resumption has no effect and yields no session.\<close>

definition yields_session :: "task \<Rightarrow> bool" where
  "yields_session t \<longleftrightarrow>
     (\<exists>token. t = RefreshTask (RefreshFinally (Resolved (Some token)))) \<or>
     t = ExchangeTask (ExchangeSettled False)"

lemma stale_resume:
  assumes "resume h t e b = (t', b')" "fenced_epoch t = Some n" "n \<noteq> epoch b"
  shows "b' = b \<and> \<not> yields_session t'"
proof (cases t)
  case (RefreshTask p)
  with assms show ?thesis
    by (cases "(h, p, e, b)" rule: refresh_resume.cases)
      (auto simp: yields_session_def sessionUnchanged_def split: if_splits)
next
  case (ExchangeTask p)
  with assms show ?thesis
    by (cases "(h, p, e, b)" rule: exchange_resume.cases)
      (auto simp: yields_session_def sessionUnchanged_def split: if_splits)
qed (use assms in auto)

text \<open>What a step does to the tasks: it keeps their fences, and new ones begin at a past epoch.\<close>

definition task_history :: "browser \<Rightarrow> browser \<Rightarrow> bool" where
  "task_history b b' \<longleftrightarrow> length (tasks b) \<le> length (tasks b') \<and>
     (\<forall>i < length (tasks b). fenced_epoch (tasks b' ! i) \<in> {fenced_epoch (tasks b ! i), None}) \<and>
     (\<forall>i. length (tasks b) \<le> i \<and> i < length (tasks b') \<longrightarrow>
        fenced_epoch (tasks b' ! i) \<in> {Some (epoch b), None})"

lemma task_history_same: "tasks b' = tasks b \<Longrightarrow> task_history b b'"
  by (auto simp: task_history_def)

lemma task_history_snoc:
  "tasks b' = tasks b @ [t] \<Longrightarrow> fenced_epoch t \<in> {Some (epoch b), None} \<Longrightarrow> task_history b b'"
  by (auto simp: task_history_def nth_append less_Suc_eq)

lemma call_fence: "call_task h c b = (t, b') \<Longrightarrow> fenced_epoch t \<in> {Some (epoch b), None}"
  by (cases c) (auto simp: recoverUnauthorized_def exchangeAuthorizationCode_def
      exchangePasswordForSession_def Let_def map_prod_def split: prod.splits if_splits)

lemma resume_tasks:
  assumes "resume h t e b = (t', b')"
  shows "tasks b' = tasks b \<or> (\<exists>tok r. tasks b' = tasks b @ [RefreshTask (RefreshLock tok (epoch b) r)])"
proof (cases "\<exists>p. t = RefreshTask p")
  case True
  with assms show ?thesis
    by (auto simp: map_prod_def split: prod.splits dest!: refresh_resume_flight)
next
  case False
  with assms have "grows b b'"
    by (cases t) (auto simp: map_prod_def split: prod.splits dest: grows_ensure_resume
        grows_recover_resume grows_logout_resume grows_exchange_resume)
  then show ?thesis by (auto simp: grows_def same_tasks_def)
qed

lemma task_history_resume:
  assumes "resume h (tasks b ! i) e b = (t', b')" "i < length (tasks b)"
  shows "task_history b (settle i t' b')"
proof -
  have "fenced_epoch t' \<in> {fenced_epoch (tasks b ! i), None}" using fenced_resume [OF assms(1)] by auto
  with resume_tasks [OF assms(1)] assms(2) show ?thesis
    by (auto simp: task_history_def settle_def nth_list_update nth_append less_Suc_eq
        split: if_splits)
qed

lemma task_history_step: "session_step h b b' \<Longrightarrow> task_history b b'"
proof (induction rule: session_step.induct)
  case (called c b t b')
  then show ?case using same_tasks_call [OF called.hyps] call_fence [OF called.hyps]
    by (intro task_history_snoc) (auto simp: same_tasks_def spawn_def)
next
  case (resumed i b e t b')
  then show ?case by (intro task_history_resume)
next
  case (completed b token options)
  show ?case
    by (intro task_history_same)
      (metis prod.collapse same_tasks_complete same_tasks_def)
qed (simp_all add: task_history_same)

lemma epoch_step: "session_step h b b' \<Longrightarrow> epoch b \<le> epoch b'"
  using epoch_history.session_step tracks_refl by (auto simp: tracks_def)

definition past_fences :: "browser \<Rightarrow> bool" where
  "past_fences b \<longleftrightarrow>
     (\<forall>i < length (tasks b). \<forall>n. fenced_epoch (tasks b ! i) = Some n \<longrightarrow> n \<le> epoch b)"

lemma past_fences_step:
  assumes "session_step h b b'" "past_fences b"
  shows "past_fences b'"
  unfolding past_fences_def
proof (intro allI impI)
  fix i n
  assume i: "i < length (tasks b')" and n: "fenced_epoch (tasks b' ! i) = Some n"
  note history = task_history_step [OF assms(1), unfolded task_history_def]
  show "n \<le> epoch b'"
  proof (cases "i < length (tasks b)")
    case True
    then have "fenced_epoch (tasks b ! i) = Some n" using history n by auto
    then have "n \<le> epoch b" using assms(2) True by (auto simp: past_fences_def)
    then show ?thesis using epoch_step [OF assms(1)] by simp
  next
    case False
    then have "n = epoch b" using history n i by (auto simp: not_less)
    then show ?thesis using epoch_step [OF assms(1)] by simp
  qed
qed

lemma past_fences_reach: "session_reach h (browser_init st tb now) b \<Longrightarrow> past_fences b"
proof -
  have "session_reach h b0 b \<Longrightarrow> past_fences b0 \<Longrightarrow> past_fences b" for b0
    by (induction rule: session_reach.induct) (auto dest: past_fences_step)
  then show "session_reach h (browser_init st tb now) b \<Longrightarrow> past_fences b"
    by (auto simp: past_fences_def browser_init_def)
qed

lemma fences_kept:
  "session_reach h b b' \<Longrightarrow> i < length (tasks b) \<Longrightarrow>
     i < length (tasks b') \<and> fenced_epoch (tasks b' ! i) \<in> {fenced_epoch (tasks b ! i), None}"
proof (induction rule: session_reach.induct)
  case (onward b b' b'')
  with task_history_step [OF onward.hyps(2)] show ?case
    by (auto simp: task_history_def dest: spec [where x = i])
qed auto

text \<open>
  C1: A renewal or a sign-in that was under way when the session ended or changed hands has no
  effect. Whatever moments lie between, once the epoch has moved on, every later resumption of a
  task that existed before leaves the whole state of the tab as it is (snapshot, storage, query
  cache, retry time) and does not yield a session, while the task still holds the fence it began
  with.
\<close>

theorem earlier_tasks_are_fenced:
  assumes "session_reach h (browser_init st tb now) b" and "session_reach h b b'"
    and "epoch b' \<noteq> epoch b"
    and "i < length (tasks b)" and "fenced_epoch (tasks b' ! i) \<noteq> None"
    and "resume h (tasks b' ! i) event b' = (t, b'')"
  shows "b'' = b' \<and> \<not> yields_session t"
proof -
  obtain n where n: "fenced_epoch (tasks b' ! i) = Some n" using assms(5) by auto
  then have "fenced_epoch (tasks b ! i) = Some n" using fences_kept [OF assms(2,4)] by auto
  then have "n \<le> epoch b" using past_fences_reach [OF assms(1)] assms(4) by (auto simp: past_fences_def)
  moreover have "epoch b \<le> epoch b'"
    using epoch_history.session_reach [OF assms(2) tracks_refl] by (simp add: tracks_def)
  ultimately show ?thesis using stale_resume [OF assms(6) n] assms(3) by simp
qed

section \<open>Logging out\<close>

lemma store_publish [simp]: "store (publish f i b) = store b"
  by (simp add: publish_def Let_def)

lemma store_on_store [simp]: "store (on_store f b) = f (store b)"
  by (simp add: on_store_def)

lemma snapshot_on_store [simp]: "snapshot (on_store f b) = snapshot b"
  by (simp add: on_store_def)

lemma anonymous_result:
  "store (anonymous i b) = writeBrowserStorage AUTH_USER_KEY None (writeBrowserStorage AUTH_TOKEN_KEY None (store b))"
  "snap_status (snapshot (anonymous i b)) = Session_anonymous" "idToken (anonymous i b) = None"
  "snap_identityKey (snapshot (anonymous i b)) = None" "snap_user (snapshot (anonymous i b)) = None"
  "snap_logoutPending (snapshot (anonymous i b)) = snap_logoutPending (snapshot b)"
  "epoch (anonymous True b) = Suc (epoch b)"
  by (simp_all add: anonymous_def publish_def Let_def)

lemma hydrated_ops [simp]:
  "hydrated (publish f i b) = hydrated b" "hydrated (on_store g b) = hydrated b"
  "hydrated (anonymous i b) = hydrated b" "hydrated (hydrate h b)"
  by (auto simp: publish_def on_store_def anonymous_def hydrate_def adoptToken_def listenForStorage_def
      Let_def split: option.splits)

text \<open>
  C29: Logging out takes effect before its first \<open>await\<close>: the snapshot is anonymous, no token or
  user is left in storage, the epoch has grown (so the query cache was cleared and every renewal
  and sign-in under way is fenced off), and the logged-out mark with a fresh revision is readable,
  whatever storage the browser refuses, provided \<open>JSON\<close> gives back the written state. From there
  on a call for a valid session, forced or not, resolves with no token without any request.
\<close>

theorem logout_is_immediate:
  assumes "json_keeps_state h" and "logoutSession h b = (p, b')"
  shows "snap_status (snapshot b') = Session_anonymous \<and> idToken b' = None \<and>
    snap_logoutPending (snapshot b') \<and> epoch b < epoch b' \<and>
    readBrowserStorage AUTH_TOKEN_KEY (store b') = None \<and>
    readBrowserStorage AUTH_USER_KEY (store b') = None \<and> loggedOut h (store b') \<and>
    state_revision (readState h (store b')) = Some (randomUUID h (uuids (store (hydrate h b)))) \<and>
    fst (ensureValidSession h force b') = EnsureSettled (Resolved None) \<and>
    idToken (snd (ensureValidSession h force b')) = None"
proof -
  define b1 where "b1 = publish (\<lambda>s. s\<lparr>snap_logoutPending := True\<rparr>) False (hydrate h b)"
  define b2 where "b2 = on_store (writeState h [(''loggedOut'', JBool True), (''refreshAvailable'', JBool False)]) b1"
  have b': "snapshot b' = snapshot (anonymous True b2)" "store b' = store (anonymous True b2)"
    and h: "hydrated b'"
    using assms(2) by (auto simp: logoutSession_def b1_def b2_def Let_def)
  have state: "readState h (store b') = \<lparr>state_refreshAvailable = Some False, state_loggedOut = Some True,
      state_revision = Some (randomUUID h (uuids (store (hydrate h b))))\<rparr>"
    using readState_writeState [OF assms(1)]
    by (simp add: b' anonymous_result readState_write_other b2_def) (simp add: b1_def)
  have "epoch b < epoch b'"
    using epoch_history.hydrate [OF tracks_refl, of b h]
    by (auto simp: b' anonymous_result b2_def b1_def publish_def Let_def tracks_def)
  moreover have "fst (ensureValidSession h force b') = EnsureSettled (Resolved None)"
    "idToken (snd (ensureValidSession h force b')) = None"
    using h state
    by (auto simp: ensureValidSession_def hydrate_def listenForStorage_def Let_def anonymous_result b')
  ultimately show ?thesis
    using state
    by (simp add: b' anonymous_result read_write_storage loggedOut_def b2_def b1_def publish_def Let_def)
qed

section \<open>A slow bootstrap ends a new session\<close>

lemma parseToken_None [simp]: "parseToken h None = None"
  by (simp add: parseToken_def)

lemma read_writeState:
  "key \<noteq> SESSION_STATE_KEY \<Longrightarrow> readBrowserStorage key (writeState h ms st) = readBrowserStorage key st"
  by (simp add: writeState_def read_write_storage) (simp add: readBrowserStorage_def split: option.split)

lemma completeSession_accepted:
  assumes "completeSession h token options b = (True, b')"
  shows "\<exists>t payload. token = Some t \<and> parseToken h token = Some payload \<and> \<not> expired h t b \<and>
    idToken b' = Some t \<and> snap_status (snapshot b') = Session_authenticated \<and>
    readBrowserStorage AUTH_TOKEN_KEY (store b') = Some t"
proof -
  obtain t payload where t: "token = Some t" "parseToken h token = Some payload" "\<not> expired h t b"
    using assms by (auto simp: completeSession_def split: option.splits if_splits)
  have "idToken b' = Some t" "snap_status (snapshot b') = Session_authenticated"
    using assms t by (auto simp: completeSession_def Let_def adoptToken_def publish_def)
  moreover have "readBrowserStorage AUTH_TOKEN_KEY (store b') = Some t"
    using assms t
    by (auto simp: completeSession_def Let_def adoptToken_def read_writeState read_write_storage
        split: option.splits)
  ultimately show ?thesis using t by blast
qed

text \<open>
  C35: A bootstrap that waits for the configuration can end a session that began meanwhile. If
  \<open>ensureValidSession\<close> was called when the remaining life of the token was not positive (it was missing or expired), a sign-in completes while
  it waits, and the configuration says that sessions cannot be renewed, then its resumption removes
  the new token from the snapshot and from the storage that all tabs share, although the token is
  accepted and not expired: the remaining life it tests was read before the wait, and neither the
  epoch nor the token is compared, as the other operations do.
\<close>

theorem slow_bootstrap_ends_new_session:
  assumes "ensureValidSession h force b0 = (EnsureConfig state left force, b1)" and "\<not> positive left"
    and "completeSession h (Some token) options b1 = (True, b2)"
    and "\<not> session_refreshEnabled config"
    and "ensure_resume h (EnsureConfig state left force) (ConfigReady config) b2 = (p, b3)"
  shows "idToken b2 = Some token \<and> snap_status (snapshot b2) = Session_authenticated \<and>
    readBrowserStorage AUTH_TOKEN_KEY (store b2) = Some token \<and> \<not> expired h token b1 \<and>
    idToken b3 = None \<and> snap_status (snapshot b3) = Session_anonymous \<and>
    readBrowserStorage AUTH_TOKEN_KEY (store b3) = None"
  using completeSession_accepted [OF assms(3)] assms(2,4,5)
  by (auto simp: anonymous_result read_write_storage)

section \<open>A concrete host\<close>

text \<open>
  A host for examples: its JSON knows the session state and a token payload, whose subject is the
  rest of the text and which never expires.
\<close>

definition demo_parse :: "string \<Rightarrow> js_value option" where
  "demo_parse s =
     (case s of
        a # l # r # u \<Rightarrow>
          if a = CHR ''S'' then
            Some (JObject [(''loggedOut'', JBool (l = CHR ''1'')), (''refreshAvailable'', JBool (r = CHR ''1'')),
                           (''revision'', JString u)])
          else if a = CHR ''P'' then
            Some (JObject [(''sub'', JString (l # r # u)), (''exp'', JNumber PosInf)])
          else None
      | _ \<Rightarrow> None)"

definition demo_flag :: "bool \<Rightarrow> char" where
  "demo_flag b = (if b then CHR ''1'' else CHR ''0'')"

fun demo_stringify :: "js_value \<Rightarrow> string" where
  "demo_stringify (JObject [(k, JBool l), (k', JBool r), (k'', JString u)]) =
     CHR ''S'' # demo_flag l # demo_flag r # u"
| "demo_stringify (JArray (a # JString sub # xs)) = sub"
| "demo_stringify v = []"

definition demo_host :: host where
  "demo_host = \<lparr>JSON_parse = demo_parse, JSON_stringify = demo_stringify, host_atob = Some,
     host_decode = id, host_String = (\<lambda>_. []), randomUUID = (\<lambda>n. replicate n CHR ''u'')\<rparr>"

definition demo_storage :: storage where
  "demo_storage = \<lparr>localStorage = [], getItemThrows = False, setItemThrows = False,
     removeItemThrows = False, memory = [], failedWrites = [], uuids = 0\<rparr>"

definition demo_start :: browser where
  "demo_start = browser_init demo_storage \<lparr>returnTo = None, sessionStorageThrows = False\<rparr> 0"

definition demo_token :: string where
  "demo_token = ''h.Pada.s''"

lemma demo_json: "json_keeps_state demo_host"
  by (simp add: json_keeps_state_def demo_host_def demo_parse_def demo_flag_def)

text \<open>The steps as functions.\<close>

definition step_call :: "host \<Rightarrow> call \<Rightarrow> browser \<Rightarrow> browser" where
  "step_call h c b = (let (t, b') = call_task h c b in spawn t b')"

definition step_resume :: "host \<Rightarrow> nat \<Rightarrow> settlement \<Rightarrow> browser \<Rightarrow> browser" where
  "step_resume h i e b = (let (t, b') = resume h (tasks b ! i) e b in settle i t b')"

lemma session_step_call: "session_step h b (step_call h c b)"
  by (auto simp: step_call_def split: prod.splits intro: session_step.called)

lemma session_step_resume: "i < length (tasks b) \<Longrightarrow> session_step h b (step_resume h i e b)"
  by (auto simp: step_resume_def split: prod.splits intro: session_step.resumed)

text \<open>A renewal that has its response and waits for the body, and a log-out meanwhile.\<close>

definition demo_config :: AuthConfiguration where
  "demo_config = \<lparr>oidc_enabled = True, basic_enabled = True, session_refreshEnabled = True\<rparr>"

definition demo_waiting :: browser where
  "demo_waiting =
     step_resume demo_host 1 (Responded 200)
       (step_resume demo_host 1 LockGranted
         (step_resume demo_host 0 (ConfigReady demo_config)
           (step_call demo_host (Ensure True) demo_start)))"

definition demo_out :: browser where
  "demo_out = step_call demo_host Logout demo_waiting"

lemma demo_waiting_tasks: "tasks demo_waiting ! 1 = RefreshTask (RefreshBody 0 None)"
  by code_simp

lemma demo_lengths:
  "length (tasks (step_call demo_host (Ensure True) demo_start)) = 1"
  "length (tasks (step_resume demo_host 0 (ConfigReady demo_config)
     (step_call demo_host (Ensure True) demo_start))) = 2"
  "length (tasks (step_resume demo_host 1 LockGranted
     (step_resume demo_host 0 (ConfigReady demo_config)
       (step_call demo_host (Ensure True) demo_start)))) = 2"
  "length (tasks demo_waiting) = 2"
  by code_simp+

lemma demo_waiting_reach: "session_reach demo_host demo_start demo_waiting"
  unfolding demo_waiting_def
  by (intro session_reach.onward [OF _ session_step_resume] session_reach.onward [OF _ session_step_call]
      session_reach.here)
    (simp_all add: demo_lengths [simplified])

lemma demo_out_reach: "session_reach demo_host demo_waiting demo_out"
  unfolding demo_out_def by (rule session_reach.onward [OF session_reach.here session_step_call])

lemma demo_out_facts:
  "epoch demo_waiting = 0" "epoch demo_out = 1" "tasks demo_out ! 1 = RefreshTask (RefreshBody 0 None)"
  by code_simp+

theorem same_epoch_same_identity_witness:
  "epoch demo_waiting \<le> epoch demo_out \<and>
   cacheClears demo_out = cacheClears demo_waiting + (epoch demo_out - epoch demo_waiting) \<and>
   snapshot_ok demo_host (snapshot demo_waiting) \<and> snapshot_ok demo_host (snapshot demo_out)"
  using same_epoch_same_identity [OF demo_waiting_reach [unfolded demo_start_def] demo_out_reach]
  by simp

theorem one_renewal_at_a_time_witness:
  "flights (tasks demo_waiting) = {1} \<and>
   flights (tasks (snd (refreshSession None demo_waiting))) = {fst (refreshSession None demo_waiting)}"
proof -
  have "refreshFlight demo_waiting = Some 1" by code_simp
  then show ?thesis
    using one_renewal_at_a_time [OF demo_waiting_reach [unfolded demo_start_def], of None] by simp
qed

theorem earlier_tasks_are_fenced_witness:
  "snd (resume demo_host (tasks demo_out ! 1) (Decoded (Some demo_token) None) demo_out) = demo_out \<and>
   \<not> yields_session (fst (resume demo_host (tasks demo_out ! 1) (Decoded (Some demo_token) None) demo_out))"
proof -
  have "epoch demo_out \<noteq> epoch demo_waiting" by (simp add: demo_out_facts)
  moreover have "1 < length (tasks demo_waiting)" by (simp add: demo_lengths)
  moreover have "fenced_epoch (tasks demo_out ! 1) \<noteq> None" by (simp add: demo_out_facts [simplified])
  ultimately show ?thesis
    by (rule earlier_tasks_are_fenced [OF demo_waiting_reach [unfolded demo_start_def] demo_out_reach])
      (rule prod.collapse [symmetric])
qed

theorem logout_is_immediate_witness:
  "idToken (snd (logoutSession demo_host demo_waiting)) = None \<and>
   loggedOut demo_host (store (snd (logoutSession demo_host demo_waiting)))"
  using logout_is_immediate [OF demo_json prod.collapse [symmetric], of demo_waiting] by blast

text \<open>The bootstrap of an empty tab, and a sign-in while it waits.\<close>

definition demo_signed_in :: browser where
  "demo_signed_in = snd (completeSession demo_host (Some demo_token) None (listenForStorage (demo_start\<lparr>hydrated := True\<rparr>)))"

theorem slow_bootstrap_ends_new_session_witness:
  "idToken demo_signed_in = Some demo_token \<and>
   idToken (snd (ensure_resume demo_host (EnsureConfig emptyState (Fin 0) True)
     (ConfigReady \<lparr>oidc_enabled = False, basic_enabled = True, session_refreshEnabled = False\<rparr>)
     demo_signed_in)) = None"
proof -
  have start: "ensureValidSession demo_host True demo_start =
      (EnsureConfig emptyState (Fin 0) True, listenForStorage (demo_start\<lparr>hydrated := True\<rparr>))"
    by code_simp
  have accepted: "completeSession demo_host (Some demo_token) None (listenForStorage (demo_start\<lparr>hydrated := True\<rparr>)) =
      (True, demo_signed_in)"
    unfolding demo_signed_in_def by (rule prod_eqI) (code_simp, simp)
  show ?thesis
    using slow_bootstrap_ends_new_session [OF start _ accepted _ prod.collapse [symmetric],
        of "\<lparr>oidc_enabled = False, basic_enabled = True, session_refreshEnabled = False\<rparr>"]
    by (simp add: positive_def)
qed

end
