(* ===== verification/SessionRequest.thy ===== *)
theory SessionRequest
  imports SessionLaws
begin

text \<open>
  Authenticated requests (\<open>ui/src/lib/session-request.ts\<close>, \<open>ui/src/lib/transport.ts\<close>):
  \<open>sessionFetch\<close> asks for a valid session, sends the request with its bearer, and gives the response
  to the caller only if the identity is still the one it had when the request was sent. A rejected
  bearer is renewed once; only a request known to be a read is then sent again. The call is a
  control point that each awaited promise moves on, while the session underneath goes through any
  of its own steps. What the caller can observe of it (a request on the wire, a navigation) is a
  list of effects.
\<close>

section \<open>Definitions\<close>

text \<open>\<open>JSON.stringify([identityKey, identityEpoch])\<close>, compared for equality only, is the pair.\<close>

type_synonym principal = "string option \<times> nat"

definition sessionIdentity :: "browser \<Rightarrow> principal" where
  "sessionIdentity b = (snap_identityKey (snapshot b), epoch b)"

record location =
  loc_pathname :: string
  loc_search :: string
  loc_hash :: string

datatype request_effect = Send "string option" | Navigate string

definition redirectToLogin :: "url_host \<Rightarrow> location \<Rightarrow> browser \<Rightarrow> browser \<times> request_effect list" where
  "redirectToLogin u loc b =
     (if snap_logoutPending (snapshot b) then (b, [])
      else
        (b\<lparr>tab := writeAuthReturnTo
             (safeAuthReturnTo u (Some (loc_pathname loc @ loc_search loc @ loc_hash loc))) (tab b)\<rparr>,
         if loc_pathname loc \<noteq> ''/login/'' then [Navigate ''/login/''] else []))"

datatype fetch_point =
    FetchEnsuring
  | FetchSent principal "string option"
  | FetchRecovering principal "string option" int
  | FetchResent principal "string option"
  | FetchReturned int
  | FetchThrew

text \<open>How the awaited promises settle: the session's two operations, and the request.\<close>

datatype fetch_event = SessionReady "string option" | SessionFailed | GotResponse int | NetworkFailed

text \<open>\<open>send\<close> throws when the caller has aborted; an empty bearer sends no \<open>Authorization\<close>.\<close>

definition bearer_header :: "string option \<Rightarrow> string option" where
  "bearer_header bearer = (case bearer of Some t \<Rightarrow> if t = [] then None else Some t | None \<Rightarrow> None)"

text \<open>
  One resumption of the call. \<open>aborted\<close> and \<open>loc\<close> are the caller's signal and the page's address at
  that moment.
\<close>

fun fetch_resume ::
    "host \<Rightarrow> url_host \<Rightarrow> bool \<Rightarrow> location \<Rightarrow> bool \<Rightarrow> fetch_point \<Rightarrow> fetch_event \<Rightarrow> browser \<Rightarrow>
     fetch_point \<times> browser \<times> request_effect list" where
  "fetch_resume h u aborted loc replaySafe FetchEnsuring (SessionReady bearer) b =
     (if aborted then (FetchThrew, b, [])
      else (FetchSent (sessionIdentity b) bearer, b, [Send (bearer_header bearer)]))"
| "fetch_resume h u aborted loc replaySafe FetchEnsuring SessionFailed b = (FetchThrew, b, [])"
| "fetch_resume h u aborted loc replaySafe (FetchSent who bearer) (GotResponse status) b =
     (if sessionIdentity b \<noteq> who then (FetchThrew, b, [])
      else if status \<noteq> 401 then (FetchReturned status, b, [])
      else (FetchRecovering who bearer status, b, []))"
| "fetch_resume h u aborted loc replaySafe (FetchSent who bearer) NetworkFailed b = (FetchThrew, b, [])"
| "fetch_resume h u aborted loc replaySafe (FetchRecovering who bearer status) (SessionReady renewed) b =
     (if bearer_header renewed = None then
        (let (b', effects) = redirectToLogin u loc b in (FetchReturned status, b', effects))
      else if sessionIdentity b \<noteq> who then (FetchThrew, b, [])
      else if \<not> replaySafe then (FetchThrew, b, [])
      else if aborted then (FetchThrew, b, [])
      else (FetchResent who renewed, b, [Send (bearer_header renewed)]))"
| "fetch_resume h u aborted loc replaySafe (FetchRecovering who bearer status) SessionFailed b =
     (FetchThrew, b, [])"
| "fetch_resume h u aborted loc replaySafe (FetchResent who bearer) (GotResponse status) b =
     (if sessionIdentity b \<noteq> who then (FetchThrew, b, [])
      else if status = 401 then
        (let (b', effects) = redirectToLogin u loc (clearRejectedSession h bearer b)
         in (FetchReturned status, b', effects))
      else (FetchReturned status, b, []))"
| "fetch_resume h u aborted loc replaySafe (FetchResent who bearer) NetworkFailed b = (FetchThrew, b, [])"
| "fetch_resume h u aborted loc replaySafe p e b = (p, b, [])"

section \<open>The transport\<close>

definition renewableReads :: "string list" where
  "renewableReads =
     [''ListPipelines'', ''ListReleases'', ''ListStages'', ''ListApplications'', ''ListPolicies'',
      ''ListApplicationSets'', ''GetApplicationSet'', ''ListNotificationConfigs'', ''GetApplication'',
      ''ListGateStatus'', ''ListRollouts'', ''GetRollout'', ''ListAnalysisRuns'', ''GetAnalysisRun'',
      ''GetPipeline'', ''GetArtifact'', ''ListArtifacts'', ''GetStepLogs'', ''GetResource'',
      ''GetResourceTree'', ''GetResourceLogs'', ''GetResourceTreeDetailed'', ''ListInvestigatorPlugins'',
      ''QueryApplications'', ''QueryFleetMap'', ''QueryFleetMatrix'', ''GetSystemStatus'', ''GetDataSources'',
      ''ListClusters'', ''GetCluster'', ''QueryApplicationSignals'', ''QueryCost'', ''ListSourceEvents'',
      ''ListRolloutHistory'', ''ListPipelineRuns'', ''GetPipelineRun'', ''GetRevisionInfo'',
      ''GetApplicationOwnership'', ''ListDriftDetails'', ''GetApplicationLifecycle'', ''GetRolloutHold'',
      ''ListObservabilityProviders'', ''GetObservabilityUsage'', ''ListObservabilityProviderTypes'',
      ''GetObservabilityProviderType'', ''GetSystemHealth'']"

definition service_prefix :: string where
  "service_prefix = ''/paprika.v1.PaprikaService/''"

text \<open>The argument is the path of the request's URL.\<close>

definition isRenewableRead :: "string \<Rightarrow> bool" where
  "isRenewableRead path \<longleftrightarrow>
     starts_with service_prefix path \<and> drop (length service_prefix) path \<in> set renewableReads"

text \<open>The interceptor of \<open>createTransport\<close>: the identity before and after a call of \<open>next\<close>.\<close>

definition intercepted :: "browser \<Rightarrow> browser \<Rightarrow> 'r option \<Rightarrow> 'r option" where
  "intercepted before after response =
     (case response of
        None \<Rightarrow> None
      | Some r \<Rightarrow> if sessionIdentity after \<noteq> sessionIdentity before then None else Some r)"

section \<open>A call within the life of a tab\<close>

text \<open>
  The tab goes through its steps, among them the resumptions of the call. The log holds, for each
  request on the wire, the state of the tab at that moment and the bearer.
\<close>

type_synonym wire_log = "(browser \<times> string option) list"

definition sent_by :: "browser \<Rightarrow> request_effect list \<Rightarrow> wire_log" where
  "sent_by b effects =
     concat (map (\<lambda>e. case e of Send bearer \<Rightarrow> [(b, bearer)] | Navigate t \<Rightarrow> []) effects)"

inductive fetching :: "host \<Rightarrow> url_host \<Rightarrow> bool \<Rightarrow> browser \<Rightarrow> browser \<Rightarrow> fetch_point \<Rightarrow> wire_log \<Rightarrow> bool"
  for h u replaySafe b0 where
  begun: "fetching h u replaySafe b0 b0 FetchEnsuring []"
| session: "fetching h u replaySafe b0 b p sent \<Longrightarrow> session_step h b b' \<Longrightarrow>
    fetching h u replaySafe b0 b' p sent"
| resumed: "fetching h u replaySafe b0 b p sent \<Longrightarrow>
    fetch_resume h u aborted loc replaySafe p e b = (p', b', effects) \<Longrightarrow>
    fetching h u replaySafe b0 b' p' (sent @ sent_by b effects)"

section \<open>Identity and replay\<close>

text \<open>The requests that a call at a control point has sent.\<close>

abbreviation wire :: "wire_log \<Rightarrow> (principal \<times> string option) list" where
  "wire sent \<equiv> map (map_prod sessionIdentity id) sent"

text \<open>All requests of a call go out under one identity, one for a call that may not be repeated, two for a read.\<close>

definition one_sender :: "bool \<Rightarrow> (principal \<times> string option) list \<Rightarrow> bool" where
  "one_sender replaySafe sent \<longleftrightarrow>
     length sent \<le> (if replaySafe then 2 else 1) \<and> (\<forall>s\<in>set sent. \<forall>t\<in>set sent. fst s = fst t)"

lemma one_sender_simps [simp]:
  "one_sender replaySafe []" "one_sender replaySafe [s]" "one_sender True [(who, first), (who, second)]"
  by (simp_all add: one_sender_def)

fun sent_until :: "bool \<Rightarrow> fetch_point \<Rightarrow> (principal \<times> string option) list \<Rightarrow> bool" where
  "sent_until replaySafe FetchEnsuring sent = (sent = [])"
| "sent_until replaySafe (FetchSent who bearer) sent = (sent = [(who, bearer_header bearer)])"
| "sent_until replaySafe (FetchRecovering who bearer status) sent =
     (sent = [(who, bearer_header bearer)] \<and> status = 401)"
| "sent_until replaySafe (FetchResent who bearer) sent =
     (replaySafe \<and> (\<exists>first. sent = [(who, first), (who, bearer_header bearer)]))"
| "sent_until replaySafe (FetchReturned status) sent = (sent \<noteq> [] \<and> one_sender replaySafe sent)"
| "sent_until replaySafe FetchThrew sent = one_sender replaySafe sent"

lemma redirect_sends_nothing: "redirectToLogin u loc b = (b', effects) \<Longrightarrow> sent_by b0 effects = []"
  by (auto simp: redirectToLogin_def sent_by_def split: if_splits)

lemma sent_by_simps [simp]: "sent_by b [] = []" "sent_by b [Send t] = [(b, t)]"
  by (simp_all add: sent_by_def)

lemma sent_until_resume:
  assumes "fetch_resume h u aborted loc replaySafe p e b = (p', b', effects)"
    and "sent_until replaySafe p (wire sent)"
  shows "sent_until replaySafe p' (wire (sent @ sent_by b effects))"
  using assms
  by (cases "(h, u, aborted, loc, replaySafe, p, e, b)" rule: fetch_resume.cases)
    (auto split: if_splits prod.splits dest: redirect_sends_nothing [of _ _ _ _ _ b])

lemma fetching_sent: "fetching h u replaySafe b0 b p sent \<Longrightarrow> sent_until replaySafe p (wire sent)"
proof (induction rule: fetching.induct)
  case (resumed b p sent aborted loc e p' b' effects)
  then show ?case by (intro sent_until_resume)
qed simp_all

text \<open>A resumption is itself a step of the tab, or no step at all.\<close>

lemma session_reach_trans: "session_reach h b' b'' \<Longrightarrow> session_reach h b b' \<Longrightarrow> session_reach h b b''"
  by (induction rule: session_reach.induct) (auto intro: session_reach.onward)

lemma redirect_reach:
  assumes "redirectToLogin u loc b = (b', effects)"
  shows "session_reach h b b'"
  using assms session_reach.onward [OF session_reach.here session_step.tab_refused]
  by (auto simp: redirectToLogin_def intro: session_reach.here split: if_splits)

lemma fetch_resume_reach:
  assumes "fetch_resume h u aborted loc replaySafe p e b = (p', b', effects)"
  shows "session_reach h b b'"
  using assms
  by (cases "(h, u, aborted, loc, replaySafe, p, e, b)" rule: fetch_resume.cases)
    (auto split: if_splits prod.splits
      intro: session_reach.here redirect_reach
        session_reach_trans [OF redirect_reach session_reach.onward [OF session_reach.here session_step.rejected]])

lemma fetching_log_reach:
  "fetching h u replaySafe b0 b p sent \<Longrightarrow> \<forall>s \<in> set sent. session_reach h (fst s) b"
proof (induction rule: fetching.induct)
  case (resumed b p sent aborted loc e p' b' effects)
  have "session_reach h b b'" using resumed.hyps(2) by (rule fetch_resume_reach)
  moreover have "fst s = b" if "s \<in> set (sent_by b effects)" for s
    using that by (auto simp: sent_by_def split: request_effect.splits)
  ultimately show ?case using resumed.IH session_reach_trans by (metis Un_iff set_append)
qed (auto intro: session_reach.onward)

lemma same_identity_between:
  assumes "session_reach h b m" "session_reach h m b'" "sessionIdentity b' = sessionIdentity b"
  shows "sessionIdentity m = sessionIdentity b"
proof -
  have "tracks b m" "tracks m b'"
    using epoch_history.session_reach tracks_refl assms(1,2) by blast+
  with assms(3) show ?thesis by (auto simp: tracks_def sessionIdentity_def)
qed

lemma one_sender_wire:
  "one_sender replaySafe (wire sent) \<longleftrightarrow>
     length sent \<le> (if replaySafe then 2 else 1) \<and> (\<forall>s\<in>set sent. \<forall>t\<in>set sent. sessionIdentity (fst s) = sessionIdentity (fst t))"
  by (simp add: one_sender_def)

lemma sent_until_sender: "sent_until replaySafe p sent \<Longrightarrow> one_sender replaySafe sent"
  by (cases p) auto

text \<open>The session has the identity under which each request was sent, and had it at every moment since.\<close>

definition identity_kept :: "host \<Rightarrow> wire_log \<Rightarrow> browser \<Rightarrow> bool" where
  "identity_kept h sent b \<longleftrightarrow>
     (\<forall>s \<in> set sent. sessionIdentity b = sessionIdentity (fst s) \<and>
        (\<forall>m. session_reach h (fst s) m \<and> session_reach h m b \<longrightarrow> sessionIdentity m = sessionIdentity b))"

text \<open>The identity under which a call that awaits a response has sent its requests.\<close>

lemma until_sender:
  assumes "sent_until replaySafe p (wire sent)" and "p = FetchSent who bearer \<or> p = FetchResent who bearer" and "s \<in> set sent"
  shows "sessionIdentity (fst s) = who"
proof -
  have "map_prod sessionIdentity id s \<in> set (wire sent)" using assms(3) by auto
  then show ?thesis using assms(1,2) by (cases s) auto
qed

lemma bearer_header_cases:
  "bearer_header t = None \<longleftrightarrow> t = None \<or> t = Some []"
  "bearer_header t = Some s \<longleftrightarrow> t = Some s \<and> s \<noteq> []"
  by (auto simp: bearer_header_def split: option.splits)

lemma resume_sends:
  assumes "fetch_resume h u aborted loc replaySafe p e b = (p', b', effects)" and "Send bearer \<in> set effects"
    and "sent_until replaySafe p (wire sent)"
  shows "sent = [] \<or>
    (\<exists>who rejected. p = FetchRecovering who rejected 401 \<and> replaySafe \<and> bearer \<noteq> None \<and> e = SessionReady bearer)"
  using assms
  by (cases "(h, u, aborted, loc, replaySafe, p, e, b)" rule: fetch_resume.cases)
    (auto simp: redirectToLogin_def bearer_header_def split: if_splits prod.splits option.splits)

lemma resume_returns:
  assumes "fetch_resume h u aborted loc replaySafe p e b = (FetchReturned status, b', effects)"
    and "sent_until replaySafe p (wire sent)" and "\<forall>final. p \<noteq> FetchReturned final"
  shows "(\<exists>bearer. p = FetchSent (sessionIdentity b) bearer \<and> e = GotResponse status \<and> status \<noteq> 401 \<and> b' = b \<and> effects = []) \<or>
    (\<exists>bearer. p = FetchResent (sessionIdentity b) bearer \<and> e = GotResponse status \<and>
      (if status = 401 then redirectToLogin u loc (clearRejectedSession h bearer b) = (b', effects) else b' = b \<and> effects = [])) \<or>
    (\<exists>who bearer renewed. p = FetchRecovering who bearer 401 \<and> status = 401 \<and> e = SessionReady renewed \<and>
      bearer_header renewed = None \<and> redirectToLogin u loc b = (b', effects))"
  using assms
  by (cases "(h, u, aborted, loc, replaySafe, p, e, b)" rule: fetch_resume.cases)
    (auto split: if_splits prod.splits)

text \<open>
  C3: No response crosses identities, and no write is repeated. At every moment of a call, however it goes and whatever
  happens to the session meanwhile, all requests it has sent were sent under one identity and epoch; there is
  at most one of them, or two if the caller said that the call is a read, and the second is sent only after a 401 and with a
  renewed bearer. A response that arrives when the identity is no longer the one of the requests, a 401 too, ends the
  call with an error. A response given to the caller is the answer that just arrived, under the very identity of the
  requests, which the session had at every moment since; the only other one is the 401 that answered the
  first request, given back once recovery has ended without a bearer, with the redirect to the sign-in page.
\<close>

theorem response_belongs_to_identity:
  assumes call: "fetching h u replaySafe b0 b p sent"
    and step: "fetch_resume h u aborted loc replaySafe p e b = (p', b', effects)"
  shows "length (sent @ sent_by b effects) \<le> (if replaySafe then 2 else 1) \<and>
    (\<forall>s \<in> set (sent @ sent_by b effects). \<forall>t \<in> set (sent @ sent_by b effects).
      sessionIdentity (fst s) = sessionIdentity (fst t)) \<and>
    (\<forall>bearer. Send bearer \<in> set effects \<longrightarrow> sent = [] \<or>
      (\<exists>who rejected. p = FetchRecovering who rejected 401 \<and> replaySafe \<and> bearer \<noteq> None \<and> e = SessionReady bearer)) \<and>
    (\<forall>status who bearer. p \<in> {FetchSent who bearer, FetchResent who bearer} \<and> e = GotResponse status \<and>
      (\<exists>s \<in> set sent. sessionIdentity b \<noteq> sessionIdentity (fst s)) \<longrightarrow> p' = FetchThrew) \<and>
    (\<forall>status. p' = FetchReturned status \<and> (\<forall>final. p \<noteq> FetchReturned final) \<longrightarrow>
      sent \<noteq> [] \<and>
      (if e = GotResponse status
       then identity_kept h sent b \<and>
         (if status = 401 then length sent = 2 else b' = b \<and> effects = [])
       else status = 401 \<and> length sent = 1 \<and> e \<in> {SessionReady None, SessionReady (Some [])} \<and>
         redirectToLogin u loc b = (b', effects)))"
proof -
  have until: "sent_until replaySafe p (wire sent)" using call by (rule fetching_sent)
  have "one_sender replaySafe (wire (sent @ sent_by b effects))"
    using sent_until_sender [OF sent_until_resume [OF step until]] .
  then have "length (sent @ sent_by b effects) \<le> (if replaySafe then 2 else 1)"
    "\<forall>s \<in> set (sent @ sent_by b effects). \<forall>t \<in> set (sent @ sent_by b effects). sessionIdentity (fst s) = sessionIdentity (fst t)"
    unfolding one_sender_wire by (rule conjunct1, rule conjunct2)
  moreover have "\<forall>bearer. Send bearer \<in> set effects \<longrightarrow> sent = [] \<or>
      (\<exists>who rejected. p = FetchRecovering who rejected 401 \<and> replaySafe \<and> bearer \<noteq> None \<and> e = SessionReady bearer)"
    using resume_sends [OF step _ until] by blast
  moreover have between: "identity_kept h sent b"
    if "p = FetchSent (sessionIdentity b) bearer \<or> p = FetchResent (sessionIdentity b) bearer" for bearer
    using until_sender [OF until that] same_identity_between unfolding identity_kept_def by metis
  moreover have "p' = FetchThrew"
    if "p \<in> {FetchSent who bearer, FetchResent who bearer}" "e = GotResponse status" "\<exists>s \<in> set sent. sessionIdentity b \<noteq> sessionIdentity (fst s)"
    for status who bearer
    using that step until_sender [OF until] by auto
  moreover have "sent \<noteq> [] \<and>
      (if e = GotResponse status
       then identity_kept h sent b \<and>
         (if status = 401 then length sent = 2 else b' = b \<and> effects = [])
       else status = 401 \<and> length sent = 1 \<and> e \<in> {SessionReady None, SessionReady (Some [])} \<and>
         redirectToLogin u loc b = (b', effects))"
    if "p' = FetchReturned status" "\<forall>final. p \<noteq> FetchReturned final" for status
    using resume_returns [OF step [unfolded that(1)] until that(2)]
  proof (elim disjE exE conjE)
    fix bearer
    assume "p = FetchSent (sessionIdentity b) bearer" "e = GotResponse status" "status \<noteq> 401" "b' = b" "effects = []"
    moreover from this have "sent \<noteq> []" using until by auto
    ultimately show ?thesis using between by simp
  next
    fix bearer
    assume resent: "p = FetchResent (sessionIdentity b) bearer" "e = GotResponse status"
      "if status = 401 then redirectToLogin u loc (clearRejectedSession h bearer b) = (b', effects) else b' = b \<and> effects = []"
    then have "length (wire sent) = 2" using until by auto
    then show ?thesis using resent between by (auto split: if_splits)
  next
    fix who bearer renewed
    assume "p = FetchRecovering who bearer 401" "status = 401" "e = SessionReady renewed" "bearer_header renewed = None"
      "redirectToLogin u loc b = (b', effects)"
    moreover from this have "length (wire sent) = 1" using until by simp
    ultimately show ?thesis by (auto simp: bearer_header_cases)
  qed
  ultimately show ?thesis by blast
qed

text \<open>A read of an anonymous tab: sent, and answered with 200 five milliseconds later.\<close>

definition demo_location :: location where
  "demo_location = \<lparr>loc_pathname = ''/dashboard/'', loc_search = [], loc_hash = []\<rparr>"

definition demo_later :: browser where
  "demo_later = demo_start\<lparr>clock := 5\<rparr>"

lemma demo_fetching:
  "fetching demo_host plain_host True demo_start demo_later
     (FetchSent (sessionIdentity demo_start) None) [(demo_start, None)]"
proof -
  have "fetching demo_host plain_host True demo_start demo_start
      (FetchSent (sessionIdentity demo_start) None) ([] @ sent_by demo_start [Send None])"
    by (rule fetching.resumed [OF fetching.begun, where aborted = False and loc = demo_location and e = "SessionReady None"])
      (simp add: bearer_header_def)
  moreover have "session_step demo_host demo_start demo_later"
    unfolding demo_later_def by (rule session_step.time_passed) (simp add: demo_start_def browser_init_def)
  ultimately show ?thesis using fetching.session by fastforce
qed

text \<open>A read answered with 401 whose recovery gives no bearer, and one answered with 200.\<close>

lemma demo_rejected:
  "fetching demo_host plain_host True demo_start demo_later
     (FetchRecovering (sessionIdentity demo_start) None 401) [(demo_start, None)]"
proof -
  have "sessionIdentity demo_later = sessionIdentity demo_start" by (simp add: demo_later_def sessionIdentity_def)
  then show ?thesis
    using fetching.resumed [OF demo_fetching, where e = "GotResponse 401" and p' = "FetchRecovering (sessionIdentity demo_start) None 401"
      and b' = demo_later and effects = "[]"] by simp
qed

theorem response_belongs_to_identity_witness:
  "fetch_resume demo_host plain_host False demo_location True (FetchSent (sessionIdentity demo_start) None)
     (GotResponse 200) demo_later = (FetchReturned 200, demo_later, []) \<and>
   sessionIdentity demo_start = sessionIdentity demo_later \<and>
   (\<exists>b' effects. fetch_resume demo_host plain_host False demo_location True
     (FetchRecovering (sessionIdentity demo_start) None 401) (SessionReady None) demo_later = (FetchReturned 401, b', effects) \<and>
     redirectToLogin plain_host demo_location demo_later = (b', effects))"
proof -
  have returned: "fetch_resume demo_host plain_host False demo_location True
      (FetchSent (sessionIdentity demo_start) None) (GotResponse 200) demo_later =
      (FetchReturned 200, demo_later, [])"
    by (simp add: demo_later_def sessionIdentity_def)
  obtain b' effects where rejected: "fetch_resume demo_host plain_host False demo_location True
      (FetchRecovering (sessionIdentity demo_start) None 401) (SessionReady None) demo_later = (FetchReturned 401, b', effects)"
    by (cases "redirectToLogin plain_host demo_location demo_later") (simp add: bearer_header_def)
  have "sessionIdentity demo_start = sessionIdentity demo_later"
    using response_belongs_to_identity [OF demo_fetching returned] by (simp add: identity_kept_def)
  moreover have "redirectToLogin plain_host demo_location demo_later = (b', effects)"
    using response_belongs_to_identity [OF demo_rejected rejected] by simp
  ultimately show ?thesis using returned rejected by blast
qed

end
