(* ===== verification/LayoutEdit.thy ===== *)
theory LayoutEdit
  imports Prelude
begin

text \<open>
  Editing the grid of a dashboard (\<open>ui/src/features/insights/layout-edit.ts\<close>): moving a widget by
  a column or past its neighbours, resizing it and dragging it. Every edit ends in \<open>arrange\<close>, which
  orders the widgets by the constraints between those that share columns and then drops each onto
  the ones placed before it. Positions and sizes are whole grid units.
\<close>

section \<open>Data\<close>

record LayoutItem =
  li_i :: string
  li_x :: int
  li_y :: int
  li_w :: int
  li_h :: int
  li_minW :: "int option"
  li_maxW :: "int option"
  li_minH :: "int option"
  li_maxH :: "int option"
  li_moved :: "bool option"

record Box =
  box_x :: int
  box_y :: int
  box_w :: int
  box_h :: int

text \<open>A layout item is used as a box as it is.\<close>

definition box_of :: "LayoutItem \<Rightarrow> Box" where
  "box_of a = \<lparr>box_x = li_x a, box_y = li_y a, box_w = li_w a, box_h = li_h a\<rparr>"

datatype LayoutMove = Move_left | Move_right | Move_up | Move_down

record settled_edit =
  edit_layout :: "LayoutItem list"
  edit_partner :: "string option"
  edit_passed :: "string list option"

datatype LayoutEdit = Settled settled_edit | Blocked string

datatype CanvasMode = Canvas_wide | Canvas_compact | Canvas_stacked

definition GRID_COLUMNS :: int where
  "GRID_COLUMNS = 12"

definition layoutMoveForKey :: "string \<Rightarrow> LayoutMove option" where
  "layoutMoveForKey key = js_map_get
     [(''ArrowLeft'', Move_left), (''ArrowRight'', Move_right), (''ArrowUp'', Move_up),
      (''ArrowDown'', Move_down)] key"

definition layoutResizeForKey :: "string \<Rightarrow> (int \<times> int) option" where
  "layoutResizeForKey key = js_map_get
     [(''ArrowLeft'', (- 1, 0)), (''ArrowRight'', (1, 0)), (''ArrowUp'', (0, - 1)),
      (''ArrowDown'', (0, 1))] key"

text \<open>The saved positions of a document's widgets, given as their ids and boxes.\<close>

definition savedLayout :: "(string \<times> Box) list \<Rightarrow> LayoutItem list" where
  "savedLayout widgets =
     map (\<lambda>(wid, b). \<lparr>li_i = wid, li_x = box_x b, li_y = box_y b, li_w = box_w b, li_h = box_h b,
       li_minW = None, li_maxW = None, li_minH = None, li_maxH = None, li_moved = None\<rparr>) widgets"

definition gridPlacement :: "Box \<Rightarrow> string" where
  "gridPlacement box =
     ''row '' @ int_str (box_y box + 1) @ '', '' @
     (if box_w box = 1 then ''column '' @ int_str (box_x box + 1)
      else ''columns '' @ int_str (box_x box + 1) @ '' to '' @ int_str (box_x box + box_w box))"

section \<open>Order\<close>

definition sharesColumns :: "Box \<Rightarrow> Box \<Rightarrow> bool" where
  "sharesColumns a b \<longleftrightarrow> box_x a < box_x b + box_w b \<and> box_x b < box_x a + box_w a"

definition readingOrder :: "LayoutItem \<Rightarrow> LayoutItem \<Rightarrow> int" where
  "readingOrder a b =
     (if li_y a - li_y b \<noteq> 0 then li_y a - li_y b
      else if li_x a - li_x b \<noteq> 0 then li_x a - li_x b
      else cmp_ord (li_i a) (li_i b))"

text \<open>\<open>new Map(entries)\<close>: a later entry of a key replaces an earlier one.\<close>

definition new_map :: "('k \<times> 'v) list \<Rightarrow> ('k, 'v) js_map" where
  "new_map entries = foldl (\<lambda>m (k, v). js_map_set k v m) [] entries"

definition map_at :: "('k, 'v) js_map \<Rightarrow> 'v \<Rightarrow> 'k \<Rightarrow> 'v" where
  "map_at m fallback k = (case js_map_get m k of Some v \<Rightarrow> v | None \<Rightarrow> fallback)"

section \<open>Settling a layout\<close>

text \<open>The index pairs \<open>p < q\<close> of a list, in the order of the two loops.\<close>

fun ordered_pairs :: "'a list \<Rightarrow> ('a \<times> 'a) list" where
  "ordered_pairs [] = []"
| "ordered_pairs (a # as) = map (Pair a) as @ ordered_pairs as"

definition rank_map :: "LayoutItem list \<Rightarrow> (string, nat) js_map" where
  "rank_map order = new_map (zip (map li_i order) [0..<length order])"

text \<open>The constraints "first before second", in the order in which \<open>before\<close> is called.\<close>

definition flow_edges :: "LayoutItem list \<Rightarrow> string \<Rightarrow> Box \<Rightarrow> string list \<Rightarrow> (string \<times> string) list" where
  "flow_edges layout wid target passed =
     (let order = sort_by readingOrder layout; rank = rank_map order; rankOf = map_at rank 0 in
      map (\<lambda>(a, b). (li_i a, li_i b))
        (filter (\<lambda>(a, b). li_i a \<noteq> wid \<and> li_i b \<noteq> wid \<and> sharesColumns (box_of a) (box_of b))
          (ordered_pairs order)) @
      map (\<lambda>other.
          if (rankOf wid < rankOf (li_i other)) = (li_i other \<in> set passed) then (li_i other, wid)
          else (wid, li_i other))
        (filter (\<lambda>other. li_i other \<noteq> wid \<and> sharesColumns (box_of other) target) layout))"

record flow =
  later :: "(string, string list) js_map"
  waiting :: "(string, int) js_map"

definition before :: "flow \<Rightarrow> string \<times> string \<Rightarrow> flow" where
  "before f e =
     (case e of (first, second) \<Rightarrow>
        \<lparr>later = js_map_set first (map_at (later f) [] first @ [second]) (later f),
         waiting = js_map_set second (map_at (waiting f) 0 second + 1) (waiting f)\<rparr>)"

definition flow_of :: "LayoutItem list \<Rightarrow> (string \<times> string) list \<Rightarrow> flow" where
  "flow_of layout edges =
     foldl before
       \<lparr>later = new_map (map (\<lambda>item. (li_i item, [])) layout),
        waiting = new_map (map (\<lambda>item. (li_i item, 0)) layout)\<rparr> edges"

text \<open>The row below every earlier widget in the box's columns.\<close>

definition rest_row :: "Box list \<Rightarrow> Box \<Rightarrow> int" where
  "rest_row placed box =
     foldl (\<lambda>y other. if sharesColumns other box then max y (box_y other + box_h other) else y) 0 placed"

text \<open>The widget to settle next, and the counts without its constraints.\<close>

definition next_key :: "(string \<Rightarrow> nat) \<Rightarrow> (string, int) js_map \<Rightarrow> string list \<Rightarrow> string" where
  "next_key rankOf wait remaining =
     (let ready = filter (\<lambda>key. js_map_get wait key = Some 0) remaining in
      hd (sort_by (\<lambda>a b. int (rankOf a) - int (rankOf b)) (if ready \<noteq> [] then ready else remaining)))"

definition release :: "(string, int) js_map \<Rightarrow> string list \<Rightarrow> (string, int) js_map" where
  "release wait nexts = foldl (\<lambda>w key. js_map_set key (map_at w 0 key - 1) w) wait nexts"

lemma next_key_in: "remaining \<noteq> [] \<Longrightarrow> next_key rankOf wait remaining \<in> set remaining"
  using hd_sort_by_in [of "filter (\<lambda>key. js_map_get wait key = Some 0) remaining"]
    hd_sort_by_in [of remaining]
  by (auto simp: next_key_def Let_def)

function settle_loop ::
    "(string \<Rightarrow> nat) \<Rightarrow> (string, string list) js_map \<Rightarrow> (string \<Rightarrow> Box) \<Rightarrow> string list \<Rightarrow>
     (string, int) js_map \<Rightarrow> Box list \<Rightarrow> (string, Box) js_map \<Rightarrow> (string, Box) js_map" where
  "settle_loop rankOf ltr sizes remaining wait placed settled =
     (if remaining = [] then settled
      else
        let key = next_key rankOf wait remaining;
            box = sizes key;
            put = box\<lparr>box_y := rest_row placed box\<rparr>
        in settle_loop rankOf ltr sizes (filter (\<lambda>k. k \<noteq> key) remaining)
             (release wait (map_at ltr [] key)) (placed @ [put]) (js_map_set key put settled))"
  by pat_completeness auto

termination
proof (relation "measure (\<lambda>(r, l, s, remaining, w, p, t). length remaining)")
  fix rankOf ltr sizes remaining wait placed settled key box put
  assume "remaining \<noteq> []" "key = next_key rankOf wait remaining"
  then have "filter (\<lambda>k. k \<noteq> key) remaining \<noteq> remaining"
    using next_key_in by (metis (mono_tags, lifting) filter_id_conv)
  then have "length (filter (\<lambda>k. k \<noteq> key) remaining) < length remaining"
    by (metis length_filter_less filter_id_conv)
  then show "((rankOf, ltr, sizes, filter (\<lambda>k. k \<noteq> key) remaining, release wait (map_at ltr [] key),
      placed @ [put], js_map_set key put settled), rankOf, ltr, sizes, remaining, wait, placed, settled)
    \<in> measure (\<lambda>(r, l, s, remaining, w, p, t). length remaining)" by simp
qed simp

declare settle_loop.simps [simp del]

lemma settle_loop_Nil [simp]: "settle_loop rankOf ltr sizes [] wait placed settled = settled"
  by (simp add: settle_loop.simps)

definition put_box :: "Box \<Rightarrow> LayoutItem \<Rightarrow> LayoutItem" where
  "put_box b item = item\<lparr>li_x := box_x b, li_y := box_y b, li_w := box_w b, li_h := box_h b\<rparr>"

definition size_of :: "LayoutItem list \<Rightarrow> string \<Rightarrow> Box \<Rightarrow> string \<Rightarrow> Box" where
  "size_of layout wid target =
     map_at (new_map (map (\<lambda>item. (li_i item, if li_i item = wid then target else box_of item)) layout)) target"

definition settled_boxes :: "LayoutItem list \<Rightarrow> string \<Rightarrow> Box \<Rightarrow> string list \<Rightarrow> (string, Box) js_map" where
  "settled_boxes layout wid target passed =
     (let order = sort_by readingOrder layout;
          f = flow_of layout (flow_edges layout wid target passed)
      in settle_loop (map_at (rank_map order) 0) (later f) (size_of layout wid target)
           (js_set (map li_i order)) (waiting f) [] [])"

definition arrange :: "LayoutItem list \<Rightarrow> string \<Rightarrow> Box \<Rightarrow> string list \<Rightarrow> LayoutItem list" where
  "arrange layout wid target passed =
     (let settled = settled_boxes layout wid target passed
      in map (\<lambda>item. put_box (map_at settled (box_of item) (li_i item)) item) layout)"

section \<open>Edits\<close>

definition neighbour :: "LayoutItem list \<Rightarrow> LayoutItem \<Rightarrow> LayoutMove \<Rightarrow> LayoutItem option" where
  "neighbour layout subject move =
     (let side = (if move = Move_down then 1 else - 1) in
      foldl (\<lambda>nearest item.
          if li_i item = li_i subject \<or> \<not> sharesColumns (box_of item) (box_of subject) \<or>
             sgn (readingOrder item subject) \<noteq> side then nearest
          else (case nearest of
                  None \<Rightarrow> Some item
                | Some n \<Rightarrow> if sgn (readingOrder item n) = - side then Some item else nearest))
        None layout)"

definition passedBand :: "LayoutItem list \<Rightarrow> LayoutItem \<Rightarrow> LayoutItem \<Rightarrow> LayoutMove \<Rightarrow> string list" where
  "passedBand layout subject partner move =
     (let side = (if move = Move_down then 1 else - 1) in
      map li_i (sort_by readingOrder
        (filter (\<lambda>item. li_i item = li_i partner \<or>
           (li_i item \<noteq> li_i subject \<and> sharesColumns (box_of item) (box_of subject) \<and>
            sgn (readingOrder item subject) = side \<and>
            (if move = Move_down then li_y item < li_y partner + li_h partner
             else li_y partner < li_y item + li_h item))) layout)))"

definition moveLayout :: "LayoutItem list \<Rightarrow> string \<Rightarrow> LayoutMove \<Rightarrow> LayoutEdit" where
  "moveLayout layout wid move =
     (case find (\<lambda>item. li_i item = wid) layout of
        None \<Rightarrow> Blocked ''This widget is not on the canvas''
      | Some subject \<Rightarrow>
          if move = Move_up \<or> move = Move_down then
            (case neighbour layout subject move of
               None \<Rightarrow> Blocked (if move = Move_down then ''Nothing below this widget in its columns''
                              else ''Nothing above this widget in its columns'')
             | Some partner \<Rightarrow>
                 let passed = passedBand layout subject partner move in
                 Settled \<lparr>edit_layout = arrange layout wid (box_of subject) (js_set passed),
                          edit_partner = Some (li_i partner), edit_passed = Some passed\<rparr>)
          else
            let x = li_x subject + (if move = Move_left then - 1 else 1) in
            if x < 0 then Blocked ''Already at the left edge of the canvas''
            else if GRID_COLUMNS < x + li_w subject then Blocked ''Already at the right edge of the canvas''
            else Settled \<lparr>edit_layout = arrange layout wid ((box_of subject)\<lparr>box_x := x\<rparr>) [],
                          edit_partner = None, edit_passed = None\<rparr>)"

text \<open>Why each move is unavailable; moves apply to the wide canvas only.\<close>

definition layoutMoveBlockers ::
    "(string \<times> Box) list \<Rightarrow> string \<Rightarrow> CanvasMode \<Rightarrow> (LayoutMove, string) js_map" where
  "layoutMoveBlockers widgets wid mode =
     (let moves = [Move_left, Move_right, Move_up, Move_down] in
      if mode \<noteq> Canvas_wide then
        map (\<lambda>m. (m, ''Layout moves need the wide canvas, where the saved grid is shown'')) moves
      else
        let layout = savedLayout widgets in
        List.map_filter (\<lambda>m. case moveLayout layout wid m of Blocked r \<Rightarrow> Some (m, r) | Settled e \<Rightarrow> None) moves)"

definition or_default :: "'a option \<Rightarrow> 'a \<Rightarrow> 'a" where
  "or_default v d = (case v of Some x \<Rightarrow> x | None \<Rightarrow> d)"

definition resizeLayout :: "LayoutItem list \<Rightarrow> string \<Rightarrow> int \<Rightarrow> int \<Rightarrow> LayoutEdit" where
  "resizeLayout layout wid dw dh =
     (case find (\<lambda>item. li_i item = wid) layout of
        None \<Rightarrow> Blocked ''This widget is not on the canvas''
      | Some subject \<Rightarrow>
          let w = li_w subject + dw; h = li_h subject + dh;
              minW = or_default (li_minW subject) 1; minH = or_default (li_minH subject) 1;
              maxH = or_default (li_maxH subject) GRID_COLUMNS
          in if min (or_default (li_maxW subject) GRID_COLUMNS) (GRID_COLUMNS - li_x subject) < w
             then Blocked ''Already reaches the right edge of the canvas''
             else if w < minW then
               Blocked (''Already at the minimum width of '' @ int_str minW @ '' '' @
                 (if minW = 1 then ''column'' else ''columns''))
             else if maxH < h then Blocked (''Already at the maximum height of '' @ int_str maxH @ '' rows'')
             else if h < minH then
               Blocked (''Already at the minimum height of '' @ int_str minH @ '' '' @
                 (if minH = 1 then ''row'' else ''rows''))
             else Settled
               \<lparr>edit_layout = arrange layout wid
                  \<lparr>box_x = li_x subject, box_y = li_y subject, box_w = w, box_h = h\<rparr> [],
                edit_partner = None, edit_passed = None\<rparr>)"

text \<open>\<open>at.y\<close> against the midpoint \<open>item.y + item.h / 2\<close>, compared at twice the scale.\<close>

definition drag_passed :: "LayoutItem list \<Rightarrow> LayoutItem \<Rightarrow> Box \<Rightarrow> string list" where
  "drag_passed layout subject target =
     js_set (map li_i (filter (\<lambda>item.
       li_i item \<noteq> li_i subject \<and> sharesColumns (box_of item) target \<and>
       (li_y subject < box_y target \<and> 0 < readingOrder item subject \<and>
          2 * li_y item + li_h item \<le> 2 * box_y target \<or>
        box_y target < li_y subject \<and> readingOrder item subject < 0 \<and>
          2 * box_y target \<le> 2 * li_y item + li_h item)) layout))"

definition dragLayout :: "LayoutItem list \<Rightarrow> string \<Rightarrow> Box \<Rightarrow> LayoutItem list" where
  "dragLayout layout wid target =
     (case find (\<lambda>item. li_i item = wid) layout of
        None \<Rightarrow> layout
      | Some subject \<Rightarrow> arrange layout wid target (drag_passed layout subject target))"

definition dragSettle :: "LayoutItem list \<Rightarrow> LayoutItem list \<Rightarrow> string \<Rightarrow> LayoutItem list" where
  "dragSettle saved items wid =
     (case find (\<lambda>item. li_i item = wid) items of
        None \<Rightarrow> items
      | Some dragged \<Rightarrow>
          if \<not> list_ex (\<lambda>item. li_i item = wid) saved then items
          else
            let settled = new_map (map (\<lambda>item. (li_i item, item)) (dragLayout saved wid (box_of dragged))) in
            map (\<lambda>item. case js_map_get settled (li_i item) of
                Some n \<Rightarrow> (put_box (box_of n) item)\<lparr>li_moved := Some False\<rparr>
              | None \<Rightarrow> item) items)"

section \<open>The settled layout\<close>

lemma new_map_snoc: "new_map (ps @ [(k, v)]) = js_map_set k v (new_map ps)"
  by (simp add: new_map_def)

lemma new_map_get: "js_map_get (new_map ps) k = map_of (rev ps) k"
proof (induction ps rule: rev_induct)
  case Nil
  show ?case by (simp add: new_map_def)
next
  case (snoc p ps)
  then show ?case by (cases p) (auto simp: new_map_snoc js_container_simps)
qed

lemma new_map_get_distinct: "distinct (map fst ps) \<Longrightarrow> (k, v) \<in> set ps \<Longrightarrow> js_map_get (new_map ps) k = Some v"
  by (simp add: new_map_get rev_map [symmetric])

lemma size_of_item:
  assumes "distinct (map li_i layout)" "item \<in> set layout"
  shows "size_of layout wid target (li_i item) = (if li_i item = wid then target else box_of item)"
proof -
  have "js_map_get (new_map (map (\<lambda>item. (li_i item, if li_i item = wid then target else box_of item)) layout))
      (li_i item) = Some (if li_i item = wid then target else box_of item)"
    using assms by (intro new_map_get_distinct) (auto simp: comp_def)
  then show ?thesis by (simp add: size_of_def map_at_def)
qed

lemma sharesColumns_sym: "sharesColumns a b \<longleftrightarrow> sharesColumns b a"
  by (auto simp: sharesColumns_def)

lemma sharesColumns_row [simp]:
  "sharesColumns (a\<lparr>box_y := y\<rparr>) b = sharesColumns a b" "sharesColumns a (b\<lparr>box_y := y\<rparr>) = sharesColumns a b"
  by (simp_all add: sharesColumns_def)

lemma rest_row_snoc:
  "rest_row (placed @ [other]) box =
     (if sharesColumns other box then max (rest_row placed box) (box_y other + box_h other) else rest_row placed box)"
  by (simp add: rest_row_def)

lemma rest_row_nonneg: "0 \<le> rest_row placed box"
  by (induction placed rule: rev_induct) (auto simp: rest_row_snoc, simp add: rest_row_def)

lemma rest_row_below:
  "other \<in> set placed \<Longrightarrow> sharesColumns other box \<Longrightarrow> box_y other + box_h other \<le> rest_row placed box"
  by (induction placed rule: rev_induct) (auto simp: rest_row_snoc)

lemma rest_row_rests:
  "rest_row placed box = 0 \<or>
     (\<exists>other \<in> set placed. sharesColumns other box \<and> rest_row placed box = box_y other + box_h other)"
  by (induction placed rule: rev_induct) (auto simp: rest_row_snoc max_def, simp add: rest_row_def)

text \<open>
  The settled boxes in the order in which they were placed: each has the size it was given and
  rests on those before it.
\<close>

definition stacked :: "(string \<Rightarrow> Box) \<Rightarrow> (string \<times> Box) list \<Rightarrow> bool" where
  "stacked sizes s \<longleftrightarrow>
     (\<forall>n < length s. snd (s ! n) =
        (sizes (fst (s ! n)))\<lparr>box_y := rest_row (map snd (take n s)) (sizes (fst (s ! n)))\<rparr>)"

lemma stacked_snoc:
  "stacked sizes (s @ [(k, b)]) \<longleftrightarrow>
     stacked sizes s \<and> b = (sizes k)\<lparr>box_y := rest_row (map snd s) (sizes k)\<rparr>"
  by (auto simp: stacked_def nth_append less_Suc_eq)

lemma settle_loop_stacked:
  assumes "distinct (map fst settled @ remaining)" "map snd settled = placed" "stacked sizes settled"
  shows "stacked sizes (settle_loop rankOf ltr sizes remaining wait placed settled) \<and>
    distinct (map fst (settle_loop rankOf ltr sizes remaining wait placed settled)) \<and>
    fst ` set (settle_loop rankOf ltr sizes remaining wait placed settled) = fst ` set settled \<union> set remaining"
  using assms
proof (induction rankOf ltr sizes remaining wait placed settled rule: settle_loop.induct)
  case (1 rankOf ltr sizes remaining wait placed settled)
  show ?case
  proof (cases "remaining = []")
    case True
    then show ?thesis using "1.prems" by simp
  next
    case False
    let ?key = "next_key rankOf wait remaining"
    let ?put = "(sizes ?key)\<lparr>box_y := rest_row placed (sizes ?key)\<rparr>"
    have key: "?key \<in> set remaining" using False by (rule next_key_in)
    then have "?key \<notin> fst ` set settled" using "1.prems"(1) by auto
    then have new: "js_map_set ?key ?put settled = settled @ [(?key, ?put)]" by (rule js_map_set_new)
    have "stacked sizes (settled @ [(?key, ?put)])" using "1.prems"(2,3) by (simp add: stacked_snoc)
    moreover have "distinct (map fst (settled @ [(?key, ?put)]) @ filter (\<lambda>k. k \<noteq> ?key) remaining)"
      using "1.prems"(1) key by auto
    moreover have "map snd (settled @ [(?key, ?put)]) = placed @ [?put]" using "1.prems"(2) by simp
    moreover have "fst ` set (settled @ [(?key, ?put)]) \<union> set (filter (\<lambda>k. k \<noteq> ?key) remaining) =
        fst ` set settled \<union> set remaining"
      using key by auto
    ultimately show ?thesis
      using "1.IH" [OF False refl refl refl] False new
      by (simp add: settle_loop.simps [of _ _ _ remaining] Let_def)
  qed
qed

lemma readingOrder_le:
  "readingOrder a b \<le> 0 \<longleftrightarrow> li_y a < li_y b \<or>
     li_y a = li_y b \<and> (li_x a < li_x b \<or> li_x a = li_x b \<and> li_i a \<le> li_i b)"
  by (auto simp: readingOrder_def cmp_ord_le)

interpretation reading: consistent_comparator readingOrder
  by unfold_locales (auto simp: readingOrder_le)

text \<open>What \<open>arrange\<close> settles: every widget once, stacked.\<close>

lemma settled_boxes_stacked:
  assumes "distinct (map li_i layout)"
  shows "stacked (size_of layout wid target) (settled_boxes layout wid target passed)"
    and "distinct (map fst (settled_boxes layout wid target passed))"
    and "fst ` set (settled_boxes layout wid target passed) = li_i ` set layout"
proof -
  let ?order = "sort_by readingOrder layout"
  have "distinct (map li_i ?order)"
    using assms by simp
  then show "stacked (size_of layout wid target) (settled_boxes layout wid target passed)"
    "distinct (map fst (settled_boxes layout wid target passed))"
    "fst ` set (settled_boxes layout wid target passed) = li_i ` set layout"
    using settle_loop_stacked [of "[]" "map li_i ?order" "[]" "size_of layout wid target"]
    by (auto simp: settled_boxes_def Let_def stacked_def)
qed

text \<open>The place of a widget among the settled ones.\<close>

lemma settled_index:
  assumes "distinct (map fst s)" "k \<in> fst ` set s"
  obtains n where "n < length s" "fst (s ! n) = k" "js_map_get s k = Some (snd (s ! n))"
proof -
  obtain b where kb: "(k, b) \<in> set s" using assms(2) by auto
  then obtain n where "n < length s" "s ! n = (k, b)" by (metis in_set_conv_nth)
  then show ?thesis using js_map_get_iff [OF assms(1)] kb that [of n] by simp
qed

definition overlaps :: "Box \<Rightarrow> Box \<Rightarrow> bool" where
  "overlaps a b \<longleftrightarrow> sharesColumns a b \<and> box_y a < box_y b + box_h b \<and> box_y b < box_y a + box_h a"

lemma stacked_pair:
  assumes "stacked sizes s" "m < n" "n < length s"
    and "sharesColumns (sizes (fst (s ! m))) (sizes (fst (s ! n)))"
  shows "box_y (snd (s ! m)) + box_h (snd (s ! m)) \<le> box_y (snd (s ! n))"
proof -
  have "snd (s ! m) \<in> set (map snd (take n s))"
    using assms(2,3) nth_mem [of m "map snd (take n s)"] by simp
  moreover have "sharesColumns (snd (s ! m)) (sizes (fst (s ! n)))"
    using assms by (simp add: stacked_def)
  ultimately have "box_y (snd (s ! m)) + box_h (snd (s ! m)) \<le>
      rest_row (map snd (take n s)) (sizes (fst (s ! n)))"
    by (rule rest_row_below)
  then show ?thesis using assms(1,3) by (simp add: stacked_def)
qed

lemma stacked_rests:
  assumes "stacked sizes s" "n < length s"
  shows "box_y (snd (s ! n)) = 0 \<or>
    (\<exists>m < n. sharesColumns (sizes (fst (s ! m))) (sizes (fst (s ! n))) \<and>
       box_y (snd (s ! n)) = box_y (snd (s ! m)) + box_h (snd (s ! m)))"
proof -
  have row: "box_y (snd (s ! n)) = rest_row (map snd (take n s)) (sizes (fst (s ! n)))"
    using assms by (simp add: stacked_def)
  have "\<exists>m < n. other = snd (s ! m)" if "other \<in> set (map snd (take n s))" for other
    using that assms(2) by (force simp: in_set_conv_nth)
  with rest_row_rests [of "map snd (take n s)" "sizes (fst (s ! n))"] show ?thesis
    using assms(1,2) by (fastforce simp: row stacked_def)
qed

text \<open>
  The settled boxes of a layout: a stack, and the place of every widget in it.
\<close>

definition place :: "(string \<times> Box) list \<Rightarrow> LayoutItem \<Rightarrow> nat" where
  "place s item = length (takeWhile (\<lambda>p. fst p \<noteq> li_i item) s)"

lemma length_takeWhile_ex: "\<exists>x \<in> set xs. \<not> P x \<Longrightarrow> length (takeWhile P xs) < length xs"
  by (induction xs) auto

lemma place_nth:
  assumes "distinct (map fst s)" "li_i item \<in> fst ` set s"
  shows "place s item < length s" "fst (s ! place s item) = li_i item"
    "map_at s b (li_i item) = snd (s ! place s item)"
proof -
  have ex: "\<exists>p \<in> set s. \<not> fst p \<noteq> li_i item" using assms(2) by force
  then show len: "place s item < length s"
    unfolding place_def by (rule length_takeWhile_ex)
  then show at: "fst (s ! place s item) = li_i item"
    unfolding place_def using nth_length_takeWhile by blast
  have "(li_i item, snd (s ! place s item)) \<in> set s" using len at by (metis nth_mem prod.collapse)
  then have "js_map_get s (li_i item) = Some (snd (s ! place s item))"
    using js_map_get_iff [OF assms(1)] by blast
  then show "map_at s b (li_i item) = snd (s ! place s item)" by (simp add: map_at_def)
qed

lemma put_box_simps [simp]:
  "li_i (put_box b item) = li_i item" "box_of (put_box b item) = b"
  by (simp_all add: put_box_def box_of_def)

text \<open>The shape a widget is to have: the target for the edited one, its own for the others.\<close>

definition wanted :: "string \<Rightarrow> Box \<Rightarrow> LayoutItem \<Rightarrow> Box" where
  "wanted wid target item = (if li_i item = wid then target else box_of item)"

text \<open>
  What every edit gives back: the same widgets in the same order, each with the columns and the
  height it is to have and its size limits as they were; no two of them overlap; and each one sits
  on the top row or directly on another widget of its columns, so a vertical compactor has nothing
  to move.
\<close>

definition settled_layout :: "LayoutItem list \<Rightarrow> string \<Rightarrow> Box \<Rightarrow> LayoutItem list \<Rightarrow> bool" where
  "settled_layout layout wid target layout' \<longleftrightarrow>
     list_all2 (\<lambda>item item'. item' = put_box ((wanted wid target item)\<lparr>box_y := li_y item'\<rparr>) item)
       layout layout' \<and>
     (\<forall>a \<in> set layout'. \<forall>b \<in> set layout'. li_i a \<noteq> li_i b \<longrightarrow> \<not> overlaps (box_of a) (box_of b)) \<and>
     (\<forall>a \<in> set layout'. li_y a = 0 \<or>
        (\<exists>b \<in> set layout'. li_i b \<noteq> li_i a \<and> sharesColumns (box_of a) (box_of b) \<and>
           li_y a = li_y b + li_h b))"

definition stack_of :: "LayoutItem list \<Rightarrow> (string \<Rightarrow> Box) \<Rightarrow> (string \<times> Box) list \<Rightarrow> bool" where
  "stack_of layout sizes s \<longleftrightarrow> distinct (map li_i layout) \<and> stacked sizes s \<and> distinct (map fst s) \<and>
     fst ` set s = li_i ` set layout"

lemma stack_of_place:
  assumes "stack_of layout sizes s" "item \<in> set layout"
  shows "place s item < length s" "fst (s ! place s item) = li_i item"
    "map_at s b (li_i item) = snd (s ! place s item)"
  using place_nth [of s item] assms by (auto simp: stack_of_def)

lemma stack_of_item:
  assumes "stack_of layout sizes s" "m < length s"
  obtains item where "item \<in> set layout" "place s item = m"
proof -
  have "fst (s ! m) \<in> li_i ` set layout" using assms by (auto simp: stack_of_def)
  then obtain item where item: "item \<in> set layout" "li_i item = fst (s ! m)" by auto
  have "place s item = m"
    using stack_of_place [OF assms(1) item(1)] item(2) assms
    by (metis length_map nth_eq_iff_index_eq nth_map stack_of_def)
  with item show ?thesis using that by blast
qed

lemma place_inj:
  "stack_of layout sizes s \<Longrightarrow> a \<in> set layout \<Longrightarrow> b \<in> set layout \<Longrightarrow> place s a = place s b \<Longrightarrow> li_i a = li_i b"
  by (metis stack_of_place(2))

lemma stack_of_box:
  assumes "stack_of layout sizes s" "item \<in> set layout"
  shows "snd (s ! place s item) = (sizes (li_i item))\<lparr>box_y := box_y (snd (s ! place s item))\<rparr>"
  using stack_of_place [OF assms] assms by (auto simp: stack_of_def stacked_def)

lemma stack_of_shares:
  assumes "stack_of layout sizes s" "a \<in> set layout" "b \<in> set layout"
  shows "sharesColumns (snd (s ! place s a)) (snd (s ! place s b)) \<longleftrightarrow>
    sharesColumns (sizes (li_i a)) (sizes (li_i b))"
proof -
  obtain y z where "snd (s ! place s a) = (sizes (li_i a))\<lparr>box_y := y\<rparr>"
    "snd (s ! place s b) = (sizes (li_i b))\<lparr>box_y := z\<rparr>"
    using stack_of_box [OF assms(1,2)] stack_of_box [OF assms(1,3)] by blast
  then show ?thesis by simp
qed

text \<open>The earlier of two widgets that share columns lies above the later.\<close>

lemma stack_of_above:
  assumes "stack_of layout sizes s" "a \<in> set layout" "b \<in> set layout" "place s a < place s b"
    and "sharesColumns (sizes (li_i a)) (sizes (li_i b))"
  shows "box_y (snd (s ! place s a)) + box_h (snd (s ! place s a)) \<le> box_y (snd (s ! place s b))"
  using stacked_pair [of sizes s "place s a" "place s b"] stack_of_place [OF assms(1)] assms
  by (simp add: stack_of_def)

lemma stack_of_apart:
  assumes "stack_of layout sizes s" "a \<in> set layout" "b \<in> set layout" "li_i a \<noteq> li_i b"
  shows "\<not> overlaps (snd (s ! place s a)) (snd (s ! place s b))"
proof -
  have "place s a \<noteq> place s b" using place_inj [OF assms(1-3)] assms(4) by blast
  then consider "place s a < place s b" | "place s b < place s a" by linarith
  then show ?thesis
    using stack_of_above [OF assms(1-3)] stack_of_above [OF assms(1,3,2)] stack_of_shares [OF assms(1-3)]
      sharesColumns_sym [of "sizes (li_i a)"]
    by cases (auto simp: overlaps_def)
qed

lemma stack_of_rests:
  assumes "stack_of layout sizes s" "a \<in> set layout"
  shows "box_y (snd (s ! place s a)) = 0 \<or>
    (\<exists>b \<in> set layout. li_i b \<noteq> li_i a \<and> sharesColumns (snd (s ! place s a)) (snd (s ! place s b)) \<and>
       box_y (snd (s ! place s a)) = box_y (snd (s ! place s b)) + box_h (snd (s ! place s b)))"
proof -
  note n = stack_of_place [OF assms]
  have stacked: "stacked sizes s" using assms(1) by (simp add: stack_of_def)
  from stacked_rests [OF stacked n(1)] show ?thesis
  proof (elim disjE exE conjE)
    fix m
    assume m: "m < place s a" "sharesColumns (sizes (fst (s ! m))) (sizes (fst (s ! place s a)))"
      "box_y (snd (s ! place s a)) = box_y (snd (s ! m)) + box_h (snd (s ! m))"
    have "m < length s" using m(1) n(1) by simp
    then obtain b where b: "b \<in> set layout" "place s b = m" by (rule stack_of_item [OF assms(1)])
    have "li_i b \<noteq> li_i a" using b m(1) by (auto simp: place_def)
    moreover have "sharesColumns (snd (s ! place s a)) (snd (s ! place s b))"
      using m(2) b(2) n(2) stack_of_shares [OF assms b(1)] stack_of_place(2) [OF assms(1) b(1)]
        sharesColumns_sym by metis
    ultimately show ?thesis using m(3) b by blast
  qed simp
qed

lemma settled_stack:
  "distinct (map li_i layout) \<Longrightarrow>
     stack_of layout (size_of layout wid target) (settled_boxes layout wid target passed)"
  using settled_boxes_stacked by (simp add: stack_of_def)

lemma arrange_eq:
  assumes "distinct (map li_i layout)"
  shows "arrange layout wid target passed =
    (let s = settled_boxes layout wid target passed in map (\<lambda>item. put_box (snd (s ! place s item)) item) layout)"
  by (simp add: arrange_def Let_def stack_of_place(3) [OF settled_stack [OF assms]])

lemma li_box: "li_y i = box_y (box_of i)" "li_h i = box_h (box_of i)"
  by (simp_all add: box_of_def)

lemma arrange_settled:
  assumes "distinct (map li_i layout)"
  shows "settled_layout layout wid target (arrange layout wid target passed)"
proof -
  define s where "s = settled_boxes layout wid target passed"
  have stack: "stack_of layout (size_of layout wid target) s"
    using settled_stack [OF assms] by (simp add: s_def)
  have arr: "arrange layout wid target passed = map (\<lambda>item. put_box (snd (s ! place s item)) item) layout"
    using arrange_eq [OF assms] by (simp add: s_def Let_def)
  have "put_box (snd (s ! place s item)) item =
      put_box ((wanted wid target item)\<lparr>box_y := li_y (put_box (snd (s ! place s item)) item)\<rparr>) item"
    if "item \<in> set layout" for item
    using stack_of_box [OF stack that] size_of_item [OF assms that, of wid target]
    by (metis li_box(1) put_box_simps(2) wanted_def)
  then have "list_all2 (\<lambda>item item'. item' = put_box ((wanted wid target item)\<lparr>box_y := li_y item'\<rparr>) item)
      layout (arrange layout wid target passed)"
    unfolding arr by (simp add: list_all2_conv_all_nth)
  moreover have "\<forall>a \<in> set (arrange layout wid target passed). \<forall>b \<in> set (arrange layout wid target passed).
      li_i a \<noteq> li_i b \<longrightarrow> \<not> overlaps (box_of a) (box_of b)"
    unfolding arr using stack_of_apart [OF stack] by simp
  moreover have "\<forall>a \<in> set (arrange layout wid target passed). li_y a = 0 \<or>
      (\<exists>b \<in> set (arrange layout wid target passed). li_i b \<noteq> li_i a \<and>
         sharesColumns (box_of a) (box_of b) \<and> li_y a = li_y b + li_h b)"
    unfolding arr using stack_of_rests [OF stack] by (simp add: li_box)
  ultimately show ?thesis by (simp add: settled_layout_def)
qed

end
