(* ===== verification/LayoutOrder.thy ===== *)
theory LayoutOrder
  imports LayoutEdit
begin

text \<open>
  The order in which an edit leaves the widgets of a dashboard. The settle loop of \<open>arrange\<close> is a
  topological sort: on acyclic constraints it never takes its fallback, and the result respects
  every constraint. On a tidy canvas (no overlaps) the constraints of every move, resize and drag
  are acyclic, so the widgets an edit does not touch keep their order in every column, and the
  edited one ends beyond exactly those it passes. On a canvas with overlaps a cycle can form.
\<close>

section \<open>The order of a settled layout\<close>

text \<open>The constraints as relations: an edge list counted per target, as \<open>waiting\<close> counts it.\<close>

definition indegree :: "('k \<times> 'k) list \<Rightarrow> 'k set \<Rightarrow> 'k \<Rightarrow> int" where
  "indegree es K k = int (length (filter (\<lambda>e. snd e = k \<and> fst e \<in> K) es))"

lemma map_at_set: "map_at (js_map_set k v m) d k' = (if k' = k then v else map_at m d k')"
  by (simp add: map_at_def js_container_simps)

lemma before_simps:
  "map_at (later (before f e)) [] k = map_at (later f) [] k @ (if fst e = k then [snd e] else [])"
  "map_at (waiting (before f e)) 0 k = map_at (waiting f) 0 k + (if snd e = k then 1 else 0)"
  "fst ` set (waiting (before f e)) = insert (snd e) (fst ` set (waiting f))"
  by (auto simp: before_def map_at_set fst_set_js_map_set split: prod.splits)

lemma foldl_before:
  "map_at (later (foldl before f es)) [] k = map_at (later f) [] k @ map snd (filter (\<lambda>e. fst e = k) es)"
  "map_at (waiting (foldl before f es)) 0 k = map_at (waiting f) 0 k + indegree es UNIV k"
  "fst ` set (waiting (foldl before f es)) = fst ` set (waiting f) \<union> snd ` set es"
  by (induction es arbitrary: f) (auto simp: before_simps indegree_def)

lemma new_map_keys: "fst ` set (new_map ps) = fst ` set ps"
proof (induction ps rule: rev_induct)
  case Nil
  show ?case by (simp add: new_map_def)
next
  case (snoc p ps)
  then show ?case by (cases p) (simp add: new_map_snoc fst_set_js_map_set)
qed

lemma new_map_const: "map_at (new_map (map (\<lambda>item. (f item, v)) xs)) v k = v"
  by (auto simp: map_at_def new_map_get dest: map_of_SomeD split: option.splits)

lemma flow_of_later: "map_at (later (flow_of layout es)) [] k = map snd (filter (\<lambda>e. fst e = k) es)"
  by (simp add: flow_of_def foldl_before new_map_const)

lemma js_map_get_map_at: "k \<in> fst ` set m \<Longrightarrow> js_map_get m k = Some (map_at m d k)"
  by (auto simp: map_at_def js_map_get_def map_of_eq_None_iff split: option.splits)

lemma flow_of_waiting:
  "k \<in> li_i ` set layout \<Longrightarrow> js_map_get (waiting (flow_of layout es)) k = Some (indegree es UNIV k)"
  by (subst js_map_get_map_at [where d = 0])
    (auto simp: flow_of_def foldl_before new_map_const new_map_keys image_image)

lemma release_get:
  "map_at (release wait ks) 0 k = map_at wait 0 k - int (count_list ks k)"
  "fst ` set (release wait ks) = fst ` set wait \<union> set ks"
  unfolding release_def
  by (induction ks arbitrary: wait) (auto simp: map_at_set fst_set_js_map_set)

lemma count_later: "count_list (map snd (filter (\<lambda>e. fst e = f) es)) k = length (filter (\<lambda>e. snd e = k \<and> fst e = f) es)"
  by (induction es) auto

lemma indegree_remove:
  "f \<in> K \<Longrightarrow> indegree es K k - int (count_list (map snd (filter (\<lambda>e. fst e = f) es)) k) = indegree es (K - {f}) k"
  unfolding indegree_def count_later by (induction es) auto

lemma indegree_0: "indegree es K k = 0 \<longleftrightarrow> (\<forall>f \<in> K. (f, k) \<notin> set es)"
  by (force simp: indegree_def filter_empty_conv)

text \<open>
  On acyclic constraints the loop never falls back: it always takes a widget none of whose
  predecessors remains, so the settled order respects every constraint.
\<close>

lemma next_key_ready:
  assumes "acyclic (set es)" "remaining \<noteq> []"
    and "\<And>k. k \<in> set remaining \<Longrightarrow> js_map_get wait k = Some (indegree es (set remaining) k)"
    and "f \<in> set remaining"
  shows "(f, next_key rankOf wait remaining) \<notin> set es"
proof -
  let ?ready = "filter (\<lambda>key. js_map_get wait key = Some 0) remaining"
  have "wf (set es)" using assms(1) by (simp add: wf_iff_acyclic_if_finite)
  moreover obtain x where "x \<in> set remaining" using assms(2) by (cases remaining) auto
  ultimately obtain z where "z \<in> set remaining" "\<And>f. (f, z) \<in> set es \<Longrightarrow> f \<notin> set remaining"
    using wfE_min by metis
  then have "z \<in> set ?ready" using assms(3) [of z] by (auto simp: indegree_0)
  then have "?ready \<noteq> []" by (auto simp: filter_empty_conv)
  then have "next_key rankOf wait remaining \<in> set ?ready"
    unfolding next_key_def Let_def by (simp only: if_True simp_thms) (rule hd_sort_by_in)
  then show ?thesis using assms(3,4) by (auto simp: indegree_0)
qed

lemma settle_loop_respects:
  assumes "acyclic (set es)" "\<And>k. map_at ltr [] k = map snd (filter (\<lambda>e. fst e = k) es)"
    and "distinct (map fst settled @ remaining)"
    and "\<forall>k \<in> set remaining. js_map_get wait k = Some (indegree es (set remaining) k)"
    and "sorted_wrt (\<lambda>p q. (fst q, fst p) \<notin> set es) settled"
    and "\<forall>p \<in> set settled. \<forall>k \<in> set remaining. (k, fst p) \<notin> set es"
  shows "sorted_wrt (\<lambda>p q. (fst q, fst p) \<notin> set es) (settle_loop rankOf ltr sizes remaining wait placed settled)"
  using assms
proof (induction rankOf ltr sizes remaining wait placed settled rule: settle_loop.induct)
  case (1 rankOf ltr sizes remaining wait placed settled)
  show ?case
  proof (cases "remaining = []")
    case True
    then show ?thesis using "1.prems" by simp
  next
    case False
    let ?key = "next_key rankOf wait remaining"
    let ?put = "(sizes ?key)\<lparr>box_y := rest_row placed (sizes ?key)\<rparr>"
    let ?rest = "filter (\<lambda>k. k \<noteq> ?key) remaining"
    have key: "?key \<in> set remaining" using False by (rule next_key_in)
    have none: "(f, ?key) \<notin> set es" if "f \<in> set remaining" for f
      using next_key_ready [OF "1.prems"(1) False _ that] "1.prems"(4) by blast
    have "?key \<notin> fst ` set settled" using "1.prems"(3) key by auto
    then have new: "js_map_set ?key ?put settled = settled @ [(?key, ?put)]" by (rule js_map_set_new)
    have rest: "set ?rest = set remaining - {?key}" by auto
    have "js_map_get (release wait (map_at ltr [] ?key)) k = Some (indegree es (set ?rest) k)"
      if "k \<in> set ?rest" for k
    proof -
      have "k \<in> set remaining" using that by simp
      then have w: "js_map_get wait k = Some (indegree es (set remaining) k)" using "1.prems"(4) by blast
      then have "k \<in> fst ` set wait" by (metis image_eqI js_map_get_in fst_conv)
      then have "js_map_get (release wait (map_at ltr [] ?key)) k =
          Some (map_at (release wait (map_at ltr [] ?key)) 0 k)"
        by (intro js_map_get_map_at) (simp add: release_get)
      moreover have "map_at wait 0 k = indegree es (set remaining) k" using w by (simp add: map_at_def)
      ultimately show ?thesis
        using indegree_remove [OF key, of es k] unfolding rest by (simp add: release_get "1.prems"(2))
    qed
    moreover have "distinct (map fst (settled @ [(?key, ?put)]) @ ?rest)"
      using "1.prems"(3) key by auto
    moreover have "sorted_wrt (\<lambda>p q. (fst q, fst p) \<notin> set es) (settled @ [(?key, ?put)])"
      using "1.prems"(5,6) key by (auto simp: sorted_wrt_append)
    moreover have "\<forall>p \<in> set (settled @ [(?key, ?put)]). \<forall>k \<in> set ?rest. (k, fst p) \<notin> set es"
      using "1.prems"(6) none by auto
    ultimately show ?thesis
      using "1.IH" [OF False refl refl refl "1.prems"(1,2)] False new
      by (simp add: settle_loop.simps [of _ _ _ remaining] Let_def)
  qed
qed

text \<open>Constraints around one widget: a cycle passes through it.\<close>

lemma acyclic_hub:
  assumes D: "acyclic D"
    and E: "\<And>a b. (a, b) \<in> E \<Longrightarrow> a \<noteq> s \<Longrightarrow> b \<noteq> s \<Longrightarrow> (a, b) \<in> D"
    and loop: "(s, s) \<notin> E"
    and hub: "\<And>q p. (s, q) \<in> E \<Longrightarrow> (p, s) \<in> E \<Longrightarrow> (q, p) \<notin> D\<^sup>*"
  shows "acyclic E"
proof -
  have out: "b \<noteq> s \<and> (\<exists>q. (s, q) \<in> E \<and> (q, b) \<in> D\<^sup>*)" if "(s, b) \<in> E\<^sup>+" for b
    using that
  proof (induction rule: trancl_induct)
    case (base y)
    then show ?case using loop by auto
  next
    case (step y z)
    then obtain q where q: "(s, q) \<in> E" "(q, y) \<in> D\<^sup>*" "y \<noteq> s" by blast
    then have "z \<noteq> s" using hub step.hyps(2) by blast
    then show ?case using q E [OF step.hyps(2)] by (meson rtrancl.rtrancl_into_rtrancl)
  qed
  have through: "(a, b) \<in> D\<^sup>+ \<or> (a, s) \<in> E\<^sup>* \<and> (s, b) \<in> E\<^sup>*" if "(a, b) \<in> E\<^sup>+" for a b
    using that
  proof (induction rule: trancl_induct)
    case (base y)
    then show ?case using E by blast
  next
    case (step y z)
    have az: "(a, z) \<in> E\<^sup>*" "(a, y) \<in> E\<^sup>*" "(y, z) \<in> E\<^sup>*" using step.hyps by auto
    from step.IH show ?case
    proof
      assume Day: "(a, y) \<in> D\<^sup>+"
      show ?thesis
      proof (cases "y = s \<or> z = s")
        case True
        then show ?thesis using az by blast
      next
        case False
        then show ?thesis using E [OF step.hyps(2)] Day by (meson trancl.trancl_into_trancl)
      qed
    next
      assume "(a, s) \<in> E\<^sup>* \<and> (s, y) \<in> E\<^sup>*"
      then show ?thesis using az by (meson rtrancl_trans)
    qed
  qed
  show ?thesis
  proof (rule acyclicI, intro allI notI)
    fix a assume a: "(a, a) \<in> E\<^sup>+"
    then have "(a, s) \<in> E\<^sup>*" "(s, a) \<in> E\<^sup>*" using through [OF a] D by (auto simp: acyclic_def)
    with a have "(s, s) \<in> E\<^sup>+" by (metis rtrancl_trancl_trancl trancl_rtrancl_trancl)
    then show False using out by blast
  qed
qed

text \<open>The order of two widgets in the saved layout.\<close>

definition leads :: "LayoutItem \<Rightarrow> LayoutItem \<Rightarrow> bool" where
  "leads a b \<longleftrightarrow> readingOrder a b < 0"

lemma leads_iff:
  "leads a b \<longleftrightarrow> li_y a < li_y b \<or>
     li_y a = li_y b \<and> (li_x a < li_x b \<or> li_x a = li_x b \<and> li_i a < li_i b)"
  by (auto simp: leads_def readingOrder_def cmp_ord_def)

lemma leads_trans: "leads a b \<Longrightarrow> leads b c \<Longrightarrow> leads a c"
  by (auto simp: leads_iff)

lemma leads_total: "li_i a \<noteq> li_i b \<Longrightarrow> leads a b \<noteq> leads b a"
  by (auto simp: leads_iff)

lemma leads_asym: "leads a b \<Longrightarrow> \<not> leads b a"
  by (auto simp: leads_iff)

lemma leads_linear: "li_i a \<noteq> li_i b \<Longrightarrow> \<not> leads a b \<Longrightarrow> leads b a"
  by (auto simp: leads_iff)

lemma between: "q = p \<or> leads q p \<Longrightarrow> leads s q \<Longrightarrow> \<not> leads p s"
  by (metis leads_asym leads_trans)

lemma leads_row: "leads a b \<Longrightarrow> li_y a \<le> li_y b"
  by (auto simp: leads_iff)

lemma leads_side: "leads b a \<longleftrightarrow> sgn (readingOrder a b) = 1" "leads a b \<longleftrightarrow> sgn (readingOrder a b) = - 1"
  by (auto simp: leads_def readingOrder_def cmp_ord_def sgn_if)

lemma same_item:
  "distinct (map li_i layout) \<Longrightarrow> a \<in> set layout \<Longrightarrow> b \<in> set layout \<Longrightarrow> li_i a = li_i b \<Longrightarrow> a = b"
  by (metis distinct_map inj_onD)

lemma rank_map_nth:
  assumes "distinct (map li_i order)" "n < length order"
  shows "map_at (rank_map order) 0 (li_i (order ! n)) = n"
proof -
  have "js_map_get (rank_map order) (li_i (order ! n)) = Some n"
    unfolding rank_map_def using assms
    by (intro new_map_get_distinct) (auto simp: in_set_conv_nth intro!: exI [of _ n])
  then show ?thesis by (simp add: map_at_def)
qed

lemma sorted_leads:
  assumes "distinct (map li_i layout)"
  shows "sorted_wrt leads (sort_by readingOrder layout)"
proof -
  let ?order = "sort_by readingOrder layout"
  have "leads (?order ! m) (?order ! n)" if "m < n" "n < length ?order" for m n
  proof -
    have "li_i (?order ! m) \<noteq> li_i (?order ! n)"
      using that assms nth_eq_iff_index_eq [of "map li_i ?order" m n] by simp
    moreover have "readingOrder (?order ! m) (?order ! n) \<le> 0"
      using sorted_wrt_nth_less [OF reading.sort_by_sorted that] .
    ultimately show ?thesis by (auto simp: readingOrder_le leads_iff)
  qed
  then show ?thesis by (simp add: sorted_wrt_iff_nth_less)
qed

lemma rank_less:
  assumes "distinct (map li_i layout)" "a \<in> set layout" "b \<in> set layout"
  shows "map_at (rank_map (sort_by readingOrder layout)) 0 (li_i a) <
    map_at (rank_map (sort_by readingOrder layout)) 0 (li_i b) \<longleftrightarrow> leads a b"
proof -
  let ?order = "sort_by readingOrder layout"
  have d: "distinct (map li_i ?order)" using assms(1) by simp
  obtain m n where mn: "m < length ?order" "n < length ?order" "?order ! m = a" "?order ! n = b"
    using assms(2,3) by (metis in_set_conv_nth set_sort_by)
  have "map_at (rank_map ?order) 0 (li_i a) = m" "map_at (rank_map ?order) 0 (li_i b) = n"
    using rank_map_nth [OF d] mn by auto
  moreover have "m < n \<longleftrightarrow> leads a b"
    using sorted_wrt_nth_less [OF sorted_leads [OF assms(1)]] mn leads_trans leads_iff
    by (metis linorder_less_linear order_less_irrefl)
  ultimately show ?thesis by simp
qed

lemma ordered_pairs_leads:
  "sorted_wrt leads xs \<Longrightarrow>
     (a, b) \<in> set (ordered_pairs xs) \<longleftrightarrow> a \<in> set xs \<and> b \<in> set xs \<and> leads a b"
proof (induction xs)
  case (Cons x xs)
  have "\<not> leads b b" "leads a b \<Longrightarrow> \<not> leads b a" by (auto simp: leads_iff)
  then show ?case using Cons by auto
qed simp

text \<open>
  The order an edit asks for: two widgets it does not touch keep the order in which they were
  saved, and the edited one keeps its side of every widget but those it passes.
\<close>

definition goes_above :: "string \<Rightarrow> string list \<Rightarrow> LayoutItem \<Rightarrow> LayoutItem \<Rightarrow> bool" where
  "goes_above wid passed a b \<longleftrightarrow>
     (if li_i a = wid then leads a b \<noteq> (li_i b \<in> set passed)
      else if li_i b = wid then leads a b \<noteq> (li_i a \<in> set passed)
      else leads a b)"

lemma flow_edges_iff:
  assumes d: "distinct (map li_i layout)" and a: "a \<in> set layout" and b: "b \<in> set layout"
    and wid: "wid \<in> li_i ` set layout"
  shows "(li_i a, li_i b) \<in> set (flow_edges layout wid target passed) \<longleftrightarrow>
    li_i a \<noteq> li_i b \<and> sharesColumns (wanted wid target a) (wanted wid target b) \<and> goes_above wid passed a b"
proof -
  let ?order = "sort_by readingOrder layout"
  note same = same_item [OF d]
  obtain s where s: "s \<in> set layout" "li_i s = wid" using wid by auto
  have rank: "map_at (rank_map ?order) 0 wid < map_at (rank_map ?order) 0 (li_i x) \<longleftrightarrow> leads s x"
    if "x \<in> set layout" for x
    using rank_less [OF d s(1) that] s(2) by simp
  have edge: "(k, l) \<in> set (flow_edges layout wid target passed) \<longleftrightarrow>
      (\<exists>x \<in> set layout. \<exists>y \<in> set layout. k = li_i x \<and> l = li_i y \<and> li_i x \<noteq> wid \<and> li_i y \<noteq> wid \<and>
         sharesColumns (box_of x) (box_of y) \<and> leads x y) \<or>
      (\<exists>x \<in> set layout. li_i x \<noteq> wid \<and> sharesColumns (box_of x) target \<and>
         (k, l) = (if leads s x = (li_i x \<in> set passed) then (li_i x, wid) else (wid, li_i x)))" for k l
    unfolding flow_edges_def Let_def
    using ordered_pairs_leads [OF sorted_leads [OF d]] rank by (auto simp: image_iff)
  have total: "leads s x \<noteq> leads x s" if "li_i x \<noteq> wid" for x
    using leads_total [of s x] that s(2) by simp
  consider "li_i a = wid" | "li_i a \<noteq> wid" "li_i b = wid" | "li_i a \<noteq> wid" "li_i b \<noteq> wid" by blast
  then show ?thesis
  proof cases
    case 1
    then have "a = s" using same [OF a s(1)] s(2) by simp
    then show ?thesis
      unfolding edge using 1 same [OF b] b sharesColumns_sym [of target "box_of b"]
      by (auto simp: wanted_def goes_above_def)
  next
    case 2
    then have "b = s" using same [OF b s(1)] s(2) by simp
    then show ?thesis
      unfolding edge using 2 same [OF a] a total [of a]
      by (auto simp: wanted_def goes_above_def)
  next
    case 3
    then show ?thesis
      unfolding edge using same [OF a] same [OF b] a b
      by (auto simp: wanted_def goes_above_def leads_iff)
  qed
qed

section \<open>Tidy canvases\<close>

definition tidy :: "LayoutItem list \<Rightarrow> bool" where
  "tidy layout \<longleftrightarrow> distinct (map li_i layout) \<and> (\<forall>a \<in> set layout. 0 < li_h a) \<and>
     (\<forall>a \<in> set layout. \<forall>b \<in> set layout. li_i a \<noteq> li_i b \<longrightarrow> \<not> overlaps (box_of a) (box_of b))"

lemma tidy_distinct: "tidy layout \<Longrightarrow> distinct (map li_i layout)"
  by (simp add: tidy_def)

text \<open>The constraints among the widgets an edit does not touch.\<close>

definition untouched :: "LayoutItem list \<Rightarrow> string \<Rightarrow> (string \<times> string) set" where
  "untouched layout wid = {(li_i a, li_i b) |a b. a \<in> set layout \<and> b \<in> set layout \<and>
     li_i a \<noteq> wid \<and> li_i b \<noteq> wid \<and> sharesColumns (box_of a) (box_of b) \<and> leads a b}"

lemma untouched_leads:
  assumes d: "distinct (map li_i layout)" and "(k, l) \<in> (untouched layout wid)\<^sup>+"
    and "a \<in> set layout" "b \<in> set layout" "li_i a = k" "li_i b = l"
  shows "leads a b"
  using assms(2,4,6)
proof (induction arbitrary: b rule: trancl_induct)
  case (base y)
  then show ?case using same_item [OF d] assms(3,5) by (auto simp: untouched_def)
next
  case (step y z)
  then obtain c where "c \<in> set layout" "li_i c = y" "leads c b"
    using same_item [OF d] by (auto simp: untouched_def)
  then show ?case using step.IH leads_trans by blast
qed

lemma tidy_edge:
  assumes "tidy layout" "a \<in> set layout" "b \<in> set layout" "leads a b" "sharesColumns (box_of a) (box_of b)"
    and "li_i a \<noteq> li_i b"
  shows "li_y a + li_h a \<le> li_y b"
proof -
  have "\<not> overlaps (box_of a) (box_of b)" "0 < li_h b" using assms by (auto simp: tidy_def)
  then show ?thesis using assms(5) leads_row [OF assms(4)] by (auto simp: overlaps_def box_of_def)
qed

lemma untouched_above:
  assumes t: "tidy layout" and "(k, l) \<in> (untouched layout wid)\<^sup>+"
    and "a \<in> set layout" "b \<in> set layout" "li_i a = k" "li_i b = l"
  shows "li_y a + li_h a \<le> li_y b"
  using assms(2,4,6)
proof (induction arbitrary: b rule: trancl_induct)
  case (base y)
  have "leads a b" using untouched_leads [OF tidy_distinct [OF t]] base assms(3,5) by blast
  then show ?case
    using base same_item [OF tidy_distinct [OF t]] assms(3,5) tidy_edge [OF t assms(3) base(2)]
    by (auto simp: untouched_def leads_iff)
next
  case (step y z)
  then obtain c where c: "c \<in> set layout" "li_i c = y" "leads c b" "sharesColumns (box_of c) (box_of b)"
    using same_item [OF tidy_distinct [OF t]] by (auto simp: untouched_def)
  moreover have "li_i c \<noteq> li_i b"
    using c(3) same_item [OF tidy_distinct [OF t] c(1) step.prems(1)] by (auto simp: leads_iff)
  ultimately have "li_y c + li_h c \<le> li_y b" using tidy_edge [OF t c(1) step.prems(1)] by blast
  moreover have "li_y a + li_h a \<le> li_y c" using step.IH c by blast
  moreover have "0 < li_h c" using t c by (auto simp: tidy_def)
  ultimately show ?case by linarith
qed

lemma acyclic_untouched: "distinct (map li_i layout) \<Longrightarrow> acyclic (untouched layout wid)"
proof (rule acyclicI, intro allI notI)
  fix k assume d: "distinct (map li_i layout)" and k: "(k, k) \<in> (untouched layout wid)\<^sup>+"
  then obtain y where "(k, y) \<in> untouched layout wid" by (meson tranclD)
  then obtain a where "a \<in> set layout" "li_i a = k" by (auto simp: untouched_def)
  then show False using untouched_leads [OF d k] by (auto simp: leads_iff)
qed

lemma flow_edges_items:
  assumes "(k, l) \<in> set (flow_edges layout wid target passed)" "wid \<in> li_i ` set layout"
  shows "k \<in> li_i ` set layout \<and> l \<in> li_i ` set layout"
proof -
  have "set (ordered_pairs xs) \<subseteq> set xs \<times> set xs" for xs :: "LayoutItem list"
    by (induction xs) auto
  then show ?thesis using assms by (force simp: flow_edges_def Let_def split: if_splits)
qed

lemma flow_edges_acyclic:
  assumes d: "distinct (map li_i layout)" and s: "s \<in> set layout"
    and hub: "\<And>q p. q \<in> set layout \<Longrightarrow> p \<in> set layout \<Longrightarrow> li_i q \<noteq> li_i s \<Longrightarrow> li_i p \<noteq> li_i s \<Longrightarrow>
      sharesColumns (box_of q) target \<Longrightarrow> sharesColumns (box_of p) target \<Longrightarrow>
      goes_above (li_i s) passed s q \<Longrightarrow> goes_above (li_i s) passed p s \<Longrightarrow>
      q = p \<or> (li_i q, li_i p) \<in> (untouched layout (li_i s))\<^sup>+ \<Longrightarrow> False"
  shows "acyclic (set (flow_edges layout (li_i s) target passed))"
proof (rule acyclic_hub [where s = "li_i s" and D = "untouched layout (li_i s)"])
  let ?E = "set (flow_edges layout (li_i s) target passed)"
  have wid: "li_i s \<in> li_i ` set layout" using s by simp
  note edge = flow_edges_iff [OF d _ _ wid]
  show "acyclic (untouched layout (li_i s))" using d by (rule acyclic_untouched)
  show "(li_i s, li_i s) \<notin> ?E" using edge [OF s s] by blast
  show "(k, l) \<in> untouched layout (li_i s)" if kl: "(k, l) \<in> ?E" "k \<noteq> li_i s" "l \<noteq> li_i s" for k l
  proof -
    obtain a b where "a \<in> set layout" "b \<in> set layout" "k = li_i a" "l = li_i b"
      using flow_edges_items [OF kl(1) wid] by auto
    then show ?thesis using kl edge [of a b] by (auto simp: untouched_def wanted_def goes_above_def)
  qed
  show "(k, l) \<notin> (untouched layout (li_i s))\<^sup>*" if k: "(li_i s, k) \<in> ?E" and l: "(l, li_i s) \<in> ?E" for k l
  proof
    assume kl: "(k, l) \<in> (untouched layout (li_i s))\<^sup>*"
    obtain q p where qp: "q \<in> set layout" "p \<in> set layout" "k = li_i q" "l = li_i p"
      using flow_edges_items [OF k wid] flow_edges_items [OF l wid] by auto
    have "li_i q \<noteq> li_i s" "sharesColumns (box_of q) target" "goes_above (li_i s) passed s q"
      using k edge [OF s qp(1)] sharesColumns_sym [of "box_of q" target] qp(3) by (auto simp: wanted_def)
    moreover have "li_i p \<noteq> li_i s" "sharesColumns (box_of p) target" "goes_above (li_i s) passed p s"
      using l edge [OF qp(2) s] qp(4) by (auto simp: wanted_def)
    moreover have "q = p \<or> (li_i q, li_i p) \<in> (untouched layout (li_i s))\<^sup>+"
      using kl same_item [OF d qp(1,2)] qp(3,4) by (auto simp: rtrancl_eq_or_trancl)
    ultimately show False using hub qp by blast
  qed
qed

text \<open>The widgets of a settled layout lie in the order the edit asks for.\<close>

definition flow_kept :: "LayoutItem list \<Rightarrow> string \<Rightarrow> Box \<Rightarrow> string list \<Rightarrow> LayoutItem list \<Rightarrow> bool" where
  "flow_kept layout wid target passed layout' \<longleftrightarrow>
     (\<forall>a \<in> set layout. \<forall>b \<in> set layout. li_i a \<noteq> li_i b \<longrightarrow>
        sharesColumns (wanted wid target a) (wanted wid target b) \<longrightarrow> goes_above wid passed a b \<longrightarrow>
        (\<exists>a' \<in> set layout'. \<exists>b' \<in> set layout'. li_i a' = li_i a \<and> li_i b' = li_i b \<and>
           li_y a' + li_h a' \<le> li_y b'))"

lemma arrange_flow_kept:
  assumes d: "distinct (map li_i layout)" and wid: "wid \<in> li_i ` set layout"
    and acyclic: "acyclic (set (flow_edges layout wid target passed))"
  shows "flow_kept layout wid target passed (arrange layout wid target passed)"
proof -
  let ?es = "flow_edges layout wid target passed"
  define s where "s = settled_boxes layout wid target passed"
  have stack: "stack_of layout (size_of layout wid target) s"
    using settled_stack [OF d] by (simp add: s_def)
  have arr: "arrange layout wid target passed = map (\<lambda>item. put_box (snd (s ! place s item)) item) layout"
    using arrange_eq [OF d] by (simp add: s_def Let_def)
  have "indegree ?es UNIV k = indegree ?es (li_i ` set layout) k" for k
    unfolding indegree_def using flow_edges_items [OF _ wid]
    by (metis (no_types, lifting) UNIV_I filter_cong prod.collapse)
  then have respects: "sorted_wrt (\<lambda>p q. (fst q, fst p) \<notin> set ?es) s"
    unfolding s_def settled_boxes_def Let_def using d
    by (intro settle_loop_respects [OF acyclic]) (auto simp: flow_of_later flow_of_waiting)
  have "li_y (put_box (snd (s ! place s a)) a) + li_h (put_box (snd (s ! place s a)) a) \<le>
      li_y (put_box (snd (s ! place s b)) b)"
    if ab: "a \<in> set layout" "b \<in> set layout" "li_i a \<noteq> li_i b"
      and shares: "sharesColumns (wanted wid target a) (wanted wid target b)" and "goes_above wid passed a b" for a b
  proof -
    have "(li_i a, li_i b) \<in> set ?es" using flow_edges_iff [OF d ab(1,2) wid] that by blast
    then have "\<not> place s b < place s a"
      using sorted_wrt_nth_less [OF respects _ stack_of_place(1) [OF stack ab(1)]] stack_of_place(2) [OF stack]
        ab(1,2) by metis
    moreover have "place s a \<noteq> place s b" using place_inj [OF stack ab(1,2)] ab(3) by blast
    ultimately have "place s a < place s b" by linarith
    then show ?thesis
      using stack_of_above [OF stack ab(1,2)] shares size_of_item [OF d] ab(1,2)
      by (simp add: li_box wanted_def)
  qed
  then show ?thesis unfolding flow_kept_def arr by (auto intro!: bexI)
qed

section \<open>What the edits promise\<close>

lemma find_subject:
  "List.find (\<lambda>item. li_i item = wid) layout = Some s \<Longrightarrow> s \<in> set layout \<and> li_i s = wid"
  by (auto dest: find_Some_in)

text \<open>The nearest widget on a side: none of the subject's columns lies between the two.\<close>

definition on_side :: "LayoutMove \<Rightarrow> LayoutItem \<Rightarrow> LayoutItem \<Rightarrow> bool" where
  "on_side move subject item \<longleftrightarrow> li_i item \<noteq> li_i subject \<and> sharesColumns (box_of item) (box_of subject) \<and>
     (if move = Move_down then leads subject item else leads item subject)"

definition nearer :: "LayoutMove \<Rightarrow> LayoutItem \<Rightarrow> LayoutItem \<Rightarrow> bool" where
  "nearer move a b \<longleftrightarrow> (if move = Move_down then leads a b else leads b a)"

lemma nearer_trans: "\<not> nearer move b a \<Longrightarrow> nearer move c a \<Longrightarrow> \<not> nearer move b c"
  using leads_trans by (auto simp: nearer_def split: if_splits)

lemma on_side_iff:
  "on_side move subject item \<longleftrightarrow> li_i item \<noteq> li_i subject \<and> sharesColumns (box_of item) (box_of subject) \<and>
     sgn (readingOrder item subject) = (if move = Move_down then 1 else - 1)"
  by (auto simp: on_side_def leads_side [symmetric])

lemma nearer_iff: "nearer move a b \<longleftrightarrow> sgn (readingOrder a b) = - (if move = Move_down then 1 else - 1)"
  by (auto simp: nearer_def leads_side [symmetric])

lemma neighbour_foldl:
  "neighbour layout subject move = foldl (\<lambda>nearest item.
     if \<not> on_side move subject item then nearest
     else (case nearest of None \<Rightarrow> Some item | Some n \<Rightarrow> if nearer move item n then Some item else nearest))
   None layout"
  unfolding neighbour_def Let_def on_side_iff nearer_iff by (simp only: de_Morgan_conj not_not)

lemma neighbour_spec:
  "case neighbour layout subject move of
     None \<Rightarrow> \<forall>item \<in> set layout. \<not> on_side move subject item
   | Some p \<Rightarrow> p \<in> set layout \<and> on_side move subject p \<and>
       (\<forall>item \<in> set layout. on_side move subject item \<longrightarrow> \<not> nearer move item p)"
  unfolding neighbour_foldl
proof (induction layout rule: rev_induct)
  case (snoc item layout)
  let ?step = "\<lambda>nearest item. if \<not> on_side move subject item then nearest
     else (case nearest of None \<Rightarrow> Some item | Some n \<Rightarrow> if nearer move item n then Some item else nearest)"
  have irrefl: "\<not> nearer move a a" for a by (auto simp: nearer_def leads_iff)
  show ?case
  proof (cases "on_side move subject item")
    case True
    show ?thesis
    proof (cases "foldl ?step None layout")
      case None
      then show ?thesis using snoc True irrefl by auto
    next
      case (Some n)
      show ?thesis
      proof (cases "nearer move item n")
        case near: True
        then have "\<not> nearer move x item" if "\<not> nearer move x n" for x using nearer_trans that by blast
        then show ?thesis using snoc True Some near irrefl by auto
      next
        case False
        then show ?thesis using snoc True Some by auto
      qed
    qed
  next
    case False
    then show ?thesis using snoc by (auto split: option.splits)
  qed
qed simp

text \<open>A widget is determined by its id.\<close>

lemma item_of_id:
  assumes "distinct (map li_i layout)" "x \<in> set layout"
  shows "li_i x \<in> li_i ` {item \<in> set layout. P item} \<longleftrightarrow> P x"
  using same_item [OF assms] assms(2) by blast

lemma in_passedBand:
  assumes "distinct (map li_i layout)" "x \<in> set layout"
  shows "li_i x \<in> set (passedBand layout subject partner move) \<longleftrightarrow>
    li_i x = li_i partner \<or> on_side move subject x \<and>
      (if move = Move_down then li_y x < li_y partner + li_h partner else li_y partner < li_y x + li_h x)"
  unfolding passedBand_def Let_def set_map set_sort_by set_filter item_of_id [OF assms]
  by (auto simp: on_side_iff)

lemma in_drag_passed:
  assumes "distinct (map li_i layout)" "x \<in> set layout"
  shows "li_i x \<in> set (drag_passed layout subject target) \<longleftrightarrow>
    li_i x \<noteq> li_i subject \<and> sharesColumns (box_of x) target \<and>
    (li_y subject < box_y target \<and> leads subject x \<and> 2 * li_y x + li_h x \<le> 2 * box_y target \<or>
     box_y target < li_y subject \<and> leads x subject \<and> 2 * box_y target \<le> 2 * li_y x + li_h x)"
proof -
  have "0 < readingOrder x subject \<longleftrightarrow> leads subject x" "readingOrder x subject < 0 \<longleftrightarrow> leads x subject"
    using leads_side(1) [of subject x] by (auto simp: leads_def sgn_if split: if_splits)
  then show ?thesis
    unfolding drag_passed_def set_js_set set_map set_filter item_of_id [OF assms] by simp
qed

text \<open>The constraints of each kind of edit are acyclic.\<close>

lemma stay_acyclic:
  assumes "distinct (map li_i layout)" "s \<in> set layout"
  shows "acyclic (set (flow_edges layout (li_i s) target []))"
proof (rule flow_edges_acyclic [OF assms])
  fix q p assume "q \<in> set layout" "p \<in> set layout" and qp: "goes_above (li_i s) [] s q" "goes_above (li_i s) [] p s"
    and "q = p \<or> (li_i q, li_i p) \<in> (untouched layout (li_i s))\<^sup>+"
  then have "q = p \<or> leads q p" using untouched_leads [OF assms(1)] by blast
  moreover have "leads s q" "leads p s" using qp by (auto simp: goes_above_def split: if_splits)
  ultimately show False using leads_trans by (metis leads_iff less_irrefl)
qed

text \<open>Moving down needs no more than distinct ids and a partner of some height.\<close>

lemma down_acyclic:
  assumes "distinct (map li_i layout)" "s \<in> set layout" "p0 \<in> set layout" "on_side Move_down s p0" "0 < li_h p0"
  shows "acyclic (set (flow_edges layout (li_i s) (box_of s) (passedBand layout s p0 Move_down)))"
proof (rule flow_edges_acyclic [OF assms(1,2)])
  let ?band = "passedBand layout s p0 Move_down"
  fix q p
  assume in_layout: "q \<in> set layout" "p \<in> set layout" and ids: "li_i q \<noteq> li_i s" "li_i p \<noteq> li_i s"
    and cols: "sharesColumns (box_of q) (box_of s)" "sharesColumns (box_of p) (box_of s)"
    and qp: "goes_above (li_i s) ?band s q" "goes_above (li_i s) ?band p s"
    and chain: "q = p \<or> (li_i q, li_i p) \<in> (untouched layout (li_i s))\<^sup>+"
  have band: "li_i x \<in> set ?band \<longleftrightarrow> leads s x \<and> li_y x < li_y p0 + li_h p0"
    if "x \<in> set layout" "li_i x \<noteq> li_i s" "sharesColumns (box_of x) (box_of s)" for x
    using that assms(3-5) same_item [OF assms(1) that(1) assms(3)] by (auto simp: in_passedBand [OF assms(1)] on_side_def)
  have "leads s q" "\<not> li_y q < li_y p0 + li_h p0"
    using qp(1) band [OF in_layout(1) ids(1) cols(1)] ids by (auto simp: goes_above_def)
  moreover have "leads p s \<or> li_y p < li_y p0 + li_h p0"
    using qp(2) band [OF in_layout(2) ids(2) cols(2)] ids by (auto simp: goes_above_def)
  moreover have "q = p \<or> leads q p" using chain untouched_leads [OF assms(1)] in_layout by blast
  ultimately show False using between [of q p s] leads_row [of q p] by auto
qed

lemma up_acyclic:
  assumes "tidy layout" "s \<in> set layout" "p0 \<in> set layout" "on_side Move_up s p0"
  shows "acyclic (set (flow_edges layout (li_i s) (box_of s) (passedBand layout s p0 Move_up)))"
proof (rule flow_edges_acyclic [OF tidy_distinct [OF assms(1)] assms(2)])
  let ?band = "passedBand layout s p0 Move_up"
  fix q p
  assume in_layout: "q \<in> set layout" "p \<in> set layout" and ids: "li_i q \<noteq> li_i s" "li_i p \<noteq> li_i s"
    and cols: "sharesColumns (box_of q) (box_of s)" "sharesColumns (box_of p) (box_of s)"
    and qp: "goes_above (li_i s) ?band s q" "goes_above (li_i s) ?band p s"
    and chain: "q = p \<or> (li_i q, li_i p) \<in> (untouched layout (li_i s))\<^sup>+"
  note d = tidy_distinct [OF assms(1)]
  have "0 < li_h p0" "0 < li_h p" using assms(1,3) in_layout by (auto simp: tidy_def)
  then have band: "li_i x \<in> set ?band \<longleftrightarrow> leads x s \<and> li_y p0 < li_y x + li_h x"
    if "x \<in> set layout" "li_i x \<noteq> li_i s" "sharesColumns (box_of x) (box_of s)" for x
    using that assms(3,4) same_item [OF d that(1) assms(3)] by (auto simp: in_passedBand [OF d] on_side_def)
  have "leads s q \<or> li_y p0 < li_y q + li_h q"
    using qp(1) band [OF in_layout(1) ids(1) cols(1)] ids by (auto simp: goes_above_def)
  moreover have "leads p s" "\<not> li_y p0 < li_y p + li_h p"
    using qp(2) band [OF in_layout(2) ids(2) cols(2)] ids by (auto simp: goes_above_def)
  moreover have "q = p \<or> leads q p" using chain untouched_leads [OF d] in_layout by blast
  moreover have "q = p \<or> li_y q + li_h q \<le> li_y p" using chain untouched_above [OF assms(1)] in_layout by blast
  ultimately show False
    using between [of q p s] \<open>0 < li_h p\<close> by auto
qed

lemma drag_acyclic:
  assumes "tidy layout" "s \<in> set layout"
  shows "acyclic (set (flow_edges layout (li_i s) target (drag_passed layout s target)))"
proof (rule flow_edges_acyclic [OF tidy_distinct [OF assms(1)] assms(2)])
  let ?passed = "drag_passed layout s target"
  fix q p
  assume in_layout: "q \<in> set layout" "p \<in> set layout" and ids: "li_i q \<noteq> li_i s" "li_i p \<noteq> li_i s"
    and cols: "sharesColumns (box_of q) target" "sharesColumns (box_of p) target"
    and qp: "goes_above (li_i s) ?passed s q" "goes_above (li_i s) ?passed p s"
    and chain: "q = p \<or> (li_i q, li_i p) \<in> (untouched layout (li_i s))\<^sup>+"
  note d = tidy_distinct [OF assms(1)]
  have passed: "li_i x \<in> set ?passed \<longleftrightarrow>
      li_y s < box_y target \<and> leads s x \<and> 2 * li_y x + li_h x \<le> 2 * box_y target \<or>
      box_y target < li_y s \<and> leads x s \<and> 2 * box_y target \<le> 2 * li_y x + li_h x"
    if "x \<in> set layout" "li_i x \<noteq> li_i s" "sharesColumns (box_of x) target" for x
    using that by (simp add: in_drag_passed [OF d])
  have h: "0 < li_h p" "0 < li_h q" using assms(1) in_layout by (auto simp: tidy_def)
  have turns: "leads s q \<noteq> (li_i q \<in> set ?passed)" "leads p s \<noteq> (li_i p \<in> set ?passed)"
    using qp ids by (auto simp: goes_above_def)
  have order: "q = p \<or> leads q p" using chain untouched_leads [OF d] in_layout by blast
  have rows: "q = p \<or> li_y q + li_h q \<le> li_y p" using chain untouched_above [OF assms(1)] in_layout by blast
  consider "leads s q" "leads s p" | "leads q s" "leads s p" | "leads q s" "leads p s"
    using between [OF order, of s] leads_linear [OF ids(1)] leads_linear [OF ids(2)] by blast
  then show False
  proof cases
    case 1
    then have "\<not> leads q s" "\<not> leads p s" by (auto dest: leads_asym)
    then show ?thesis
      using 1 turns rows h unfolding passed [OF in_layout(1) ids(1) cols(1)] passed [OF in_layout(2) ids(2) cols(2)]
      by auto
  next
    case 2
    then have "\<not> leads s q" "\<not> leads p s" by (auto dest: leads_asym)
    then show ?thesis
      using 2 turns unfolding passed [OF in_layout(1) ids(1) cols(1)] passed [OF in_layout(2) ids(2) cols(2)]
      by auto
  next
    case 3
    then have "\<not> leads s q" "\<not> leads s p" by (auto dest: leads_asym)
    then show ?thesis
      using 3 turns rows h unfolding passed [OF in_layout(1) ids(1) cols(1)] passed [OF in_layout(2) ids(2) cols(2)]
      by auto
  qed
qed

lemma find_id: "distinct (map li_i layout) \<Longrightarrow> s \<in> set layout \<Longrightarrow> List.find (\<lambda>item. li_i item = li_i s) layout = Some s"
  by (induction layout) (auto simp: image_iff)

text \<open>The target of a move: the widget's own box, a column to the side for a sideways move.\<close>

definition move_target :: "LayoutItem \<Rightarrow> LayoutMove \<Rightarrow> Box" where
  "move_target subject move =
     (box_of subject)\<lparr>box_x := li_x subject + (case move of Move_left \<Rightarrow> - 1 | Move_right \<Rightarrow> 1 | _ \<Rightarrow> 0)\<rparr>"

lemma move_cases:
  assumes "moveLayout layout wid move = Settled e"
  obtains (vertical) subject partner where "subject \<in> set layout" "li_i subject = wid"
      "move = Move_up \<or> move = Move_down" "neighbour layout subject move = Some partner"
      "e = \<lparr>edit_layout = arrange layout wid (move_target subject move) (js_set (passedBand layout subject partner move)),
            edit_partner = Some (li_i partner), edit_passed = Some (passedBand layout subject partner move)\<rparr>"
  | (sideways) subject where "subject \<in> set layout" "li_i subject = wid"
      "move = Move_left \<or> move = Move_right" "0 \<le> box_x (move_target subject move)"
      "box_x (move_target subject move) + li_w subject \<le> GRID_COLUMNS"
      "e = \<lparr>edit_layout = arrange layout wid (move_target subject move) [],
            edit_partner = None, edit_passed = None\<rparr>"
proof -
  obtain subject where find: "List.find (\<lambda>item. li_i item = wid) layout = Some subject"
    using assms by (cases "List.find (\<lambda>item. li_i item = wid) layout") (auto simp: moveLayout_def)
  note s = find_subject [OF find]
  show thesis
  proof (cases "move = Move_up \<or> move = Move_down")
    case True
    then have target: "move_target subject move = box_of subject"
      by (auto simp: move_target_def box_of_def)
    show thesis
      using assms find True vertical [of subject] s
      by (cases "neighbour layout subject move") (auto simp: moveLayout_def target Let_def)
  next
    case False
    then show thesis
      using assms find sideways [of subject] s
      by (cases move) (auto simp: moveLayout_def Let_def move_target_def box_of_def split: if_splits)
  qed
qed

lemma move_acyclic:
  assumes t: "tidy layout" and s: "s \<in> set layout" and v: "move = Move_up \<or> move = Move_down"
    and p: "neighbour layout s move = Some p"
  shows "acyclic (set (flow_edges layout (li_i s) (move_target s move) (js_set (passedBand layout s p move))))"
proof -
  have "p \<in> set layout" "on_side move s p" using neighbour_spec [where layout = layout and subject = s and move = move] p by auto
  moreover have "move_target s move = box_of s" using v by (auto simp: move_target_def box_of_def)
  moreover have "flow_edges layout (li_i s) t (js_set ps) = flow_edges layout (li_i s) t ps" for t ps
    by (simp add: flow_edges_def)
  moreover have "0 < li_h p" using t \<open>p \<in> set layout\<close> by (simp add: tidy_def)
  ultimately show ?thesis
    using v down_acyclic [OF tidy_distinct [OF t] s] up_acyclic [OF t s] by auto
qed

lemma flow_kept_js_set [simp]: 
  "flow_kept layout wid target (js_set passed) layout' = flow_kept layout wid target passed layout'"
  by (simp add: flow_kept_def goes_above_def)

lemma move_settled_layout:
  assumes "distinct (map li_i layout)" "moveLayout layout wid move = Settled e"
  obtains s where "s \<in> set layout" "settled_layout layout wid (move_target s move) (edit_layout e)"
  using assms(2) arrange_settled [OF assms(1)] by (cases rule: move_cases) auto

lemma resize_cases:
  assumes "resizeLayout layout wid dw dh = Settled e"
  obtains s where "s \<in> set layout" "li_i s = wid"
    "or_default (li_minW s) 1 \<le> li_w s + dw" "li_x s + li_w s + dw \<le> GRID_COLUMNS"
    "or_default (li_minH s) 1 \<le> li_h s + dh"
    "e = \<lparr>edit_layout = arrange layout wid ((box_of s)\<lparr>box_w := li_w s + dw, box_h := li_h s + dh\<rparr>) [],
          edit_partner = None, edit_passed = None\<rparr>"
proof -
  obtain s where find: "List.find (\<lambda>item. li_i item = wid) layout = Some s"
    using assms by (cases "List.find (\<lambda>item. li_i item = wid) layout") (auto simp: resizeLayout_def)
  note s = find_subject [OF find]
  show thesis
    using assms find that [of s] s
    by (auto simp: resizeLayout_def Let_def box_of_def split: if_splits)
qed

lemma dragLayout_arrange:
  "distinct (map li_i layout) \<Longrightarrow> s \<in> set layout \<Longrightarrow>
     dragLayout layout (li_i s) target = arrange layout (li_i s) target (drag_passed layout s target)"
  by (simp add: dragLayout_def find_id)

section \<open>Sequences of edits\<close>

text \<open>
  A canvas as the saved grid has it: every widget of positive size, not above the top row and within the
  twelve columns.
\<close>

definition in_columns :: "Box \<Rightarrow> bool" where
  "in_columns b \<longleftrightarrow> 0 \<le> box_x b \<and> 0 < box_w b \<and> box_x b + box_w b \<le> GRID_COLUMNS \<and> 0 < box_h b"

definition on_grid :: "LayoutItem list \<Rightarrow> bool" where
  "on_grid layout \<longleftrightarrow> (\<forall>a \<in> set layout. in_columns (box_of a) \<and> 0 \<le> li_y a)"

text \<open>
  The edits of an editing session, in any order. The box of a drag is where the grid component has the dragged
  widget: the component keeps it within the columns, at any row.
\<close>

inductive edit_step :: "LayoutItem list \<Rightarrow> LayoutItem list \<Rightarrow> bool" where
  move: "moveLayout layout wid m = Settled e \<Longrightarrow> edit_step layout (edit_layout e)"
| resize: "resizeLayout layout wid dw dh = Settled e \<Longrightarrow> edit_step layout (edit_layout e)"
| drag: "in_columns target \<Longrightarrow> edit_step layout (dragLayout layout wid target)"

definition limits_ok :: "LayoutItem list \<Rightarrow> bool" where
  "limits_ok layout \<longleftrightarrow> (\<forall>a \<in> set layout. 0 < or_default (li_minW a) 1 \<and> 0 < or_default (li_minH a) 1)"

lemma put_box_fields:
  "b = put_box (c\<lparr>box_y := y\<rparr>) a \<Longrightarrow>
     li_x b = box_x c \<and> li_w b = box_w c \<and> li_h b = box_h c \<and> li_minW b = li_minW a \<and> li_minH b = li_minH a"
  by (simp add: put_box_def)

lemma settled_item:
  assumes "settled_layout layout wid target layout'" "b \<in> set layout'"
  obtains a where "a \<in> set layout" "b = put_box ((wanted wid target a)\<lparr>box_y := li_y b\<rparr>) a"
proof -
  obtain n where "n < length layout'" "layout' ! n = b" using assms(2) by (auto simp: in_set_conv_nth)
  then have "n < length layout" "b = put_box ((wanted wid target (layout ! n))\<lparr>box_y := li_y b\<rparr>) (layout ! n)"
    using assms(1) by (auto simp: settled_layout_def list_all2_conv_all_nth)
  then show thesis using that nth_mem by blast
qed

lemma settled_layout_columns:
  assumes "settled_layout layout wid target layout'" "on_grid layout" "in_columns target" "b \<in> set layout'"
  shows "in_columns (box_of b)"
proof -
  obtain a where "a \<in> set layout" "b = put_box ((wanted wid target a)\<lparr>box_y := li_y b\<rparr>) a"
    using settled_item [OF assms(1,4)] .
  then show ?thesis using assms(2,3) put_box_fields [of b "li_y b" "wanted wid target a" a]
    by (auto simp: on_grid_def in_columns_def wanted_def box_of_def split: if_splits)
qed

text \<open>The highest widget rests on nothing, so it is on the top row.\<close>

lemma settled_layout_top:
  assumes settled: "settled_layout layout wid target layout'" and heights: "\<forall>a \<in> set layout'. 0 < li_h a"
    and b: "b \<in> set layout'"
  shows "0 \<le> li_y b"
proof -
  obtain a where a: "a \<in> set layout'" "\<And>c. c \<in> set layout' \<Longrightarrow> li_y a \<le> li_y c"
    using arg_min_least [of "set layout'" _ li_y] b by (metis arg_min_if_finite(1) empty_iff finite_set)
  have "li_y a = 0"
    using settled a heights unfolding settled_layout_def by force
  then show ?thesis using a(2) [OF b] by simp
qed

lemma settled_layout_tidy:
  assumes "settled_layout layout wid target layout'" "tidy layout" "on_grid layout" "limits_ok layout" "in_columns target"
  shows "tidy layout' \<and> on_grid layout' \<and> limits_ok layout' \<and> map li_i layout' = map li_i layout"
proof -
  have all2: "list_all2 (\<lambda>item item'. item' = put_box ((wanted wid target item)\<lparr>box_y := li_y item'\<rparr>) item)
      layout layout'"
    and apart: "\<forall>a \<in> set layout'. \<forall>b \<in> set layout'. li_i a \<noteq> li_i b \<longrightarrow> \<not> overlaps (box_of a) (box_of b)"
    using assms(1) by (auto simp: settled_layout_def)
  have ids: "map li_i layout' = map li_i layout"
    using all2 by (induction rule: list_all2_induct) (simp_all, metis put_box_simps(1))
  have columns: "\<forall>b \<in> set layout'. in_columns (box_of b)"
    using settled_layout_columns [OF assms(1,3,5)] by blast
  then have heights: "\<forall>b \<in> set layout'. 0 < li_h b" by (simp add: in_columns_def box_of_def)
  have "limits_ok layout'"
    unfolding limits_ok_def
  proof
    fix b assume "b \<in> set layout'"
    then obtain a where "a \<in> set layout" "b = put_box ((wanted wid target a)\<lparr>box_y := li_y b\<rparr>) a"
      using settled_item [OF assms(1)] by blast
    then show "0 < or_default (li_minW b) 1 \<and> 0 < or_default (li_minH b) 1"
      using assms(4) put_box_fields [of b "li_y b" "wanted wid target a" a] by (auto simp: limits_ok_def)
  qed
  then show ?thesis
    using apart ids columns heights settled_layout_top [OF assms(1) heights] tidy_distinct [OF assms(2)]
    by (simp add: tidy_def on_grid_def)
qed

lemma move_target_columns:
  assumes "moveLayout layout wid m = Settled e" "on_grid layout" "distinct (map li_i layout)"
  obtains s where "s \<in> set layout" "settled_layout layout wid (move_target s m) (edit_layout e)" "in_columns (move_target s m)"
  using assms(1)
proof (cases rule: move_cases)
  case (vertical s p)
  then have "in_columns (move_target s m)"
    using assms(2) by (auto simp: move_target_def on_grid_def box_of_def)
  then show thesis using that vertical arrange_settled [OF assms(3)] by auto
next
  case (sideways s)
  then have "in_columns (move_target s m)"
    using assms(2) by (auto simp: move_target_def on_grid_def box_of_def in_columns_def split: if_splits)
  then show thesis using that sideways arrange_settled [OF assms(3)] by auto
qed

lemma edit_step_tidy:
  assumes "edit_step layout layout'" "tidy layout" "on_grid layout" "limits_ok layout"
  shows "tidy layout' \<and> on_grid layout' \<and> limits_ok layout' \<and> map li_i layout' = map li_i layout"
  using assms(1)
proof cases
  case (move wid m e)
  then show ?thesis
    using move_target_columns [OF move(2) assms(3) tidy_distinct [OF assms(2)]] settled_layout_tidy [OF _ assms(2-4)] by metis
next
  case (resize wid dw dh e)
  from resize(2) show ?thesis
  proof (cases rule: resize_cases)
    case (1 s)
    let ?target = "(box_of s)\<lparr>box_w := li_w s + dw, box_h := li_h s + dh\<rparr>"
    have "settled_layout layout wid ?target layout'"
      using arrange_settled [OF tidy_distinct [OF assms(2)]] 1 resize(1) by simp
    moreover have "0 < or_default (li_minW s) 1" "0 < or_default (li_minH s) 1" "0 \<le> li_x s"
      using 1(1) assms(3,4) by (auto simp: limits_ok_def on_grid_def in_columns_def box_of_def)
    then have "in_columns ?target" using 1 by (simp add: in_columns_def box_of_def)
    ultimately show ?thesis using settled_layout_tidy assms(2-4) by blast
  qed
next
  case (drag target wid)
  show ?thesis
  proof (cases "wid \<in> li_i ` set layout")
    case True
    then obtain s where "s \<in> set layout" "li_i s = wid" by auto
    then have "settled_layout layout wid target layout'"
      using arrange_settled [OF tidy_distinct [OF assms(2)]] dragLayout_arrange [OF tidy_distinct [OF assms(2)]] drag
      by metis
    then show ?thesis using settled_layout_tidy [OF _ assms(2-4)] drag by blast
  next
    case False
    then have "List.find (\<lambda>item. li_i item = wid) layout = None" by (auto simp: find_None_iff)
    then show ?thesis using drag assms by (simp add: dragLayout_def)
  qed
qed

section \<open>Properties\<close>

definition widget_at :: "string \<Rightarrow> int \<Rightarrow> int \<Rightarrow> int \<Rightarrow> int \<Rightarrow> LayoutItem" where
  "widget_at k x y w h = \<lparr>li_i = k, li_x = x, li_y = y, li_w = w, li_h = h,
     li_minW = None, li_maxW = None, li_minH = None, li_maxH = None, li_moved = None\<rparr>"

definition two_widgets :: "LayoutItem list" where
  "two_widgets = [widget_at ''a'' 0 0 6 2, widget_at ''b'' 3 2 6 1]"

lemma two_widgets_tidy: "tidy two_widgets" "limits_ok two_widgets" "on_grid two_widgets"
  by (auto simp: tidy_def limits_ok_def on_grid_def in_columns_def GRID_COLUMNS_def two_widgets_def widget_at_def
    overlaps_def box_of_def or_default_def)

text \<open>
  C16: on a canvas without overlaps (and only there: with overlaps the order constraints can form a cycle), a move that is not
  blocked gives back the same widgets with the target's columns, without overlaps and with nothing left to compact. Two widgets
  that share columns and are not the moved one keep their order; nothing is said of two that share none. The
  moved one keeps its side of every widget of its new columns but those it reports as passed, and changes sides with
  exactly these. For a vertical move they include the reported partner, the nearest widget of its columns on that side.
\<close>

theorem move_settles:
  assumes t: "tidy layout" and settled: "moveLayout layout wid move = Settled e"
  shows "\<exists>subject \<in> set layout. li_i subject = wid \<and>
    settled_layout layout wid (move_target subject move) (edit_layout e) \<and>
    flow_kept layout wid (move_target subject move) (or_default (edit_passed e) []) (edit_layout e) \<and>
    (move = Move_up \<or> move = Move_down \<longrightarrow>
       (\<exists>partner \<in> set layout. edit_partner e = Some (li_i partner) \<and> on_side move subject partner \<and>
          li_i partner \<in> set (or_default (edit_passed e) []) \<and>
          (\<forall>item \<in> set layout. on_side move subject item \<longrightarrow> \<not> nearer move item partner)))"
  using settled
proof (cases rule: move_cases)
  case (vertical s p)
  have p: "p \<in> set layout" "on_side move s p"
      "\<forall>item \<in> set layout. on_side move s item \<longrightarrow> \<not> nearer move item p"
    using neighbour_spec [where layout = layout and subject = s and move = move] vertical(4) by auto
  have "flow_kept layout wid (move_target s move) (js_set (passedBand layout s p move)) (edit_layout e)"
    using arrange_flow_kept [OF tidy_distinct [OF t]] move_acyclic [OF t vertical(1,3,4)] vertical by force
  then show ?thesis
    using p vertical arrange_settled [OF tidy_distinct [OF t]] in_passedBand [OF tidy_distinct [OF t] p(1)]
    by (intro bexI [of _ s]) (auto simp: or_default_def)
next
  case (sideways s)
  have "flow_kept layout wid (move_target s move) [] (edit_layout e)"
    using arrange_flow_kept [OF tidy_distinct [OF t]] stay_acyclic [OF tidy_distinct [OF t] sideways(1)] sideways
    by force
  then show ?thesis
    using sideways arrange_settled [OF tidy_distinct [OF t]]
    by (intro bexI [of _ s]) (auto simp: or_default_def)
qed

theorem move_settles_witness:
  "tidy two_widgets \<and> (\<exists>e. moveLayout two_widgets ''a'' Move_down = Settled e \<and>
     map li_i (sort_by readingOrder (edit_layout e)) = [''b'', ''a''] \<and>
     (\<exists>subject. settled_layout two_widgets ''a'' (move_target subject Move_down) (edit_layout e)))"
proof -
  have "case moveLayout two_widgets ''a'' Move_down of
      Settled e \<Rightarrow> map li_i (sort_by readingOrder (edit_layout e)) = [''b'', ''a''] | Blocked r \<Rightarrow> False"
    by code_simp
  then obtain e where e: "moveLayout two_widgets ''a'' Move_down = Settled e"
    "map li_i (sort_by readingOrder (edit_layout e)) = [''b'', ''a'']"
    by (cases "moveLayout two_widgets ''a'' Move_down") auto
  obtain subject where "settled_layout two_widgets ''a'' (move_target subject Move_down) (edit_layout e)"
    using move_settles [OF two_widgets_tidy(1) e(1)] by (elim bexE conjE)
  with e show ?thesis using two_widgets_tidy(1) by (intro conjI exI)
qed

text \<open>
  On a canvas without overlaps, dragging a widget to a box gives back that box's columns and
  size for it, without overlaps and with nothing left to compact; the other widgets keep their
  order, and the dragged one changes sides with exactly those whose midpoint it crossed.
\<close>

theorem drag_settles:
  assumes t: "tidy layout" and s: "s \<in> set layout"
  shows "settled_layout layout (li_i s) target (dragLayout layout (li_i s) target) \<and>
    flow_kept layout (li_i s) target (drag_passed layout s target) (dragLayout layout (li_i s) target)"
  using arrange_settled [OF tidy_distinct [OF t]] arrange_flow_kept [OF tidy_distinct [OF t] _ drag_acyclic [OF t s]] s
  by (simp add: dragLayout_arrange [OF tidy_distinct [OF t] s])

theorem drag_settles_witness:
  "map li_y (dragLayout two_widgets ''a'' \<lparr>box_x = 0, box_y = 5, box_w = 6, box_h = 2\<rparr>) = [1, 0] \<and>
   settled_layout two_widgets ''a'' \<lparr>box_x = 0, box_y = 5, box_w = 6, box_h = 2\<rparr>
     (dragLayout two_widgets ''a'' \<lparr>box_x = 0, box_y = 5, box_w = 6, box_h = 2\<rparr>)"
proof -
  let ?at = "\<lparr>box_x = 0, box_y = 5, box_w = 6, box_h = 2\<rparr>"
  have "widget_at ''a'' 0 0 6 2 \<in> set two_widgets" "li_i (widget_at ''a'' 0 0 6 2) = ''a''"
    by (simp_all add: two_widgets_def widget_at_def)
  then have "settled_layout two_widgets ''a'' ?at (dragLayout two_widgets ''a'' ?at)"
    using drag_settles [OF two_widgets_tidy(1), of "widget_at ''a'' 0 0 6 2" ?at] by simp
  moreover have "map li_y (dragLayout two_widgets ''a'' ?at) = [1, 0]" by code_simp
  ultimately show ?thesis by blast
qed

text \<open>
  C15: from a canvas without overlaps whose widgets lie on the grid, every sequence of moves, resizes and drags leads to a
  canvas with the same widgets in which no two overlap, each has a positive width and height, none is above the top row and
  none reaches out of the twelve columns. A drag is to any box within the columns, which is where the grid component lets a
  widget be dragged, and the minimum sizes of the widgets are positive.
\<close>

theorem edits_keep_tidy:
  assumes "edit_step\<^sup>*\<^sup>* layout layout'" "tidy layout" "on_grid layout" "limits_ok layout"
  shows "tidy layout' \<and> on_grid layout' \<and> limits_ok layout' \<and> map li_i layout' = map li_i layout"
  using assms by (induction rule: rtranclp_induct) (auto dest: edit_step_tidy)

theorem edits_keep_tidy_witness:
  "\<exists>e. moveLayout two_widgets ''a'' Move_down = Settled e \<and>
     tidy (dragLayout (edit_layout e) ''b'' \<lparr>box_x = 0, box_y = 5, box_w = 6, box_h = 2\<rparr>) \<and>
     on_grid (dragLayout (edit_layout e) ''b'' \<lparr>box_x = 0, box_y = 5, box_w = 6, box_h = 2\<rparr>)"
proof -
  have "case moveLayout two_widgets ''a'' Move_down of Settled e \<Rightarrow> True | Blocked r \<Rightarrow> False" by code_simp
  then obtain e where e: "moveLayout two_widgets ''a'' Move_down = Settled e"
    by (cases "moveLayout two_widgets ''a'' Move_down") auto
  let ?at = "\<lparr>box_x = 0, box_y = 5, box_w = 6, box_h = 2\<rparr>"
  have "in_columns ?at" by (simp add: in_columns_def GRID_COLUMNS_def)
  then have "edit_step two_widgets (edit_layout e)" "edit_step (edit_layout e) (dragLayout (edit_layout e) ''b'' ?at)"
    using e by (auto intro: edit_step.intros)
  then have "edit_step\<^sup>*\<^sup>* two_widgets (dragLayout (edit_layout e) ''b'' ?at)"
    by (meson converse_rtranclp_into_rtranclp r_into_rtranclp)
  then show ?thesis using edits_keep_tidy [OF _ two_widgets_tidy(1,3,2)] e by blast
qed

text \<open>A saved canvas in which one widget overlaps two others.\<close>

definition overlapping_widgets :: "LayoutItem list" where
  "overlapping_widgets =
     [widget_at ''p'' 0 0 1 6, widget_at ''q'' 0 3 1 2, widget_at ''n'' 0 5 1 1, widget_at ''s'' 0 6 1 1]"

text \<open>
  On that canvas the constraints of a move up form a cycle. The fallback then keeps the saved
  order of the overlapping widget, so the edit reports it as passed while the moved widget is
  still below it.
\<close>

theorem overlapping_move_cycles:
  "\<not> acyclic (set (flow_edges overlapping_widgets ''s'' \<lparr>box_x = 0, box_y = 6, box_w = 1, box_h = 1\<rparr> [''p'', ''n''])) \<and>
   (\<exists>e. moveLayout overlapping_widgets ''s'' Move_up = Settled e \<and> edit_passed e = Some [''p'', ''n''] \<and>
      map li_i (sort_by readingOrder (edit_layout e)) = [''p'', ''q'', ''s'', ''n''])"
proof
  let ?E = "set (flow_edges overlapping_widgets ''s'' \<lparr>box_x = 0, box_y = 6, box_w = 1, box_h = 1\<rparr> [''p'', ''n''])"
  have "(''p'', ''q'') \<in> ?E" "(''q'', ''s'') \<in> ?E" "(''s'', ''p'') \<in> ?E" by code_simp+
  then have "(''p'', ''p'') \<in> ?E\<^sup>+" by (meson trancl.simps)
  then show "\<not> acyclic ?E" by (auto simp: acyclic_def)
  have "case moveLayout overlapping_widgets ''s'' Move_up of
      Settled e \<Rightarrow> edit_passed e = Some [''p'', ''n''] \<and>
        map li_i (sort_by readingOrder (edit_layout e)) = [''p'', ''q'', ''s'', ''n'']
    | Blocked r \<Rightarrow> False"
    by code_simp
  then show "\<exists>e. moveLayout overlapping_widgets ''s'' Move_up = Settled e \<and> edit_passed e = Some [''p'', ''n''] \<and>
      map li_i (sort_by readingOrder (edit_layout e)) = [''p'', ''q'', ''s'', ''n'']"
    by (cases "moveLayout overlapping_widgets ''s'' Move_up") auto
qed

end
