(* ===== verification/DashboardHistory.thy ===== *)
theory DashboardHistory
  imports Prelude
begin

text \<open>
  The undo history of the dashboard editor (\<open>ui/src/features/insights/history.ts\<close>): the state of
  \<open>useDashboardHistory\<close> and its callbacks as state transformers. Dashboards are values of a type
  variable; \<open>JSON.stringify\<close>, by which the hook tells a change from no change, is a parameter.

  The contract of an undo history is a list of versions and a cursor into it (\<open>undo_history\<close>); the
  two stacks of the hook implement it.
\<close>

section \<open>The hook\<close>

record 'd history =
  past :: "'d list"
  present :: 'd
  future :: "'d list"

datatype 'd change = Replace 'd | Compute "'d \<Rightarrow> 'd"

text \<open>\<open>xs.slice(-n)\<close> for positive \<open>n\<close>.\<close>

definition slice_last :: "nat \<Rightarrow> 'a list \<Rightarrow> 'a list" where
  "slice_last n xs = drop (length xs - n) xs"

definition history_init :: "'d \<Rightarrow> 'd history" where
  "history_init initial = \<lparr>past = [], present = initial, future = []\<rparr>"

definition next_present :: "'d change \<Rightarrow> 'd \<Rightarrow> 'd" where
  "next_present next current = (case next of Replace d \<Rightarrow> d | Compute f \<Rightarrow> f current)"

definition history_update :: "('d \<Rightarrow> string) \<Rightarrow> 'd change \<Rightarrow> 'd history \<Rightarrow> 'd history" where
  "history_update stringify next current =
     (let d = next_present next (present current) in
      if stringify d = stringify (present current) then current
      else \<lparr>past = slice_last 49 (past current) @ [present current], present = d, future = []\<rparr>)"

definition history_reset :: "'d \<Rightarrow> 'd history \<Rightarrow> 'd history" where
  "history_reset d current = \<lparr>past = [], present = d, future = []\<rparr>"

definition history_undo :: "'d history \<Rightarrow> 'd history" where
  "history_undo current =
     (if past current \<noteq> []
      then \<lparr>past = butlast (past current), present = last (past current), future = present current # future current\<rparr>
      else current)"

definition history_redo :: "'d history \<Rightarrow> 'd history" where
  "history_redo current =
     (case future current of
        [] \<Rightarrow> current
      | d # rest \<Rightarrow> \<lparr>past = past current @ [present current], present = d, future = rest\<rparr>)"

definition canUndo :: "'d history \<Rightarrow> bool" where
  "canUndo s \<longleftrightarrow> past s \<noteq> []"

definition canRedo :: "'d history \<Rightarrow> bool" where
  "canRedo s \<longleftrightarrow> future s \<noteq> []"

text \<open>The number of changes among a sequence of edits.\<close>

primrec changes_made :: "('c \<Rightarrow> 's \<Rightarrow> bool) \<Rightarrow> ('c \<Rightarrow> 's \<Rightarrow> 's) \<Rightarrow> 'c list \<Rightarrow> 's \<Rightarrow> nat" where
  "changes_made changes edit [] s = 0"
| "changes_made changes edit (c # cs) s =
     (if changes c s then 1 else 0) + changes_made changes edit cs (edit c s)"

section \<open>The contract of an undo history\<close>

text \<open>
  Versions and a cursor. An edit drops the versions after the cursor, adds its own and keeps the
  newest ones, at most \<open>bound\<close> of them before the version shown.
\<close>

locale undo_history =
  fixes shown :: "'s \<Rightarrow> 'd" and changes :: "'c \<Rightarrow> 's \<Rightarrow> bool" and edit :: "'c \<Rightarrow> 's \<Rightarrow> 's"
    and undo :: "'s \<Rightarrow> 's" and redo :: "'s \<Rightarrow> 's"
    and versions :: "'s \<Rightarrow> 'd list" and cursor :: "'s \<Rightarrow> nat" and inv :: "'s \<Rightarrow> bool" and bound :: nat
  assumes cursor_within: "cursor s < length (versions s)"
    and shown_version: "shown s = versions s ! cursor s"
    and unchanged: "\<not> changes c s \<Longrightarrow> edit c s = s"
    and edit_versions: "inv s \<Longrightarrow> changes c s \<Longrightarrow>
      versions (edit c s) = slice_last (Suc bound) (take (Suc (cursor s)) (versions s) @ [shown (edit c s)])"
    and edit_cursor: "inv s \<Longrightarrow> changes c s \<Longrightarrow> Suc (cursor (edit c s)) = length (versions (edit c s))"
    and undo_versions: "versions (undo s) = versions s"
    and undo_cursor: "cursor (undo s) = cursor s - 1"
    and redo_versions: "versions (redo s) = versions s"
    and redo_cursor: "cursor (redo s) = min (Suc (cursor s)) (length (versions s) - 1)"
    and inv_edit: "inv s \<Longrightarrow> inv (edit c s)"
    and inv_undo: "inv s \<Longrightarrow> inv (undo s)"
    and inv_redo: "inv s \<Longrightarrow> inv (redo s)"
    and inv_length: "inv s \<Longrightarrow> length (versions s) \<le> Suc bound"
begin

lemma undos: "versions ((undo ^^ n) s) = versions s" "cursor ((undo ^^ n) s) = cursor s - n"
  by (induction n) (simp_all add: undo_versions undo_cursor)

lemma redos: "versions ((redo ^^ n) s) = versions s"
  "cursor ((redo ^^ n) s) = min (cursor s + n) (length (versions s) - 1)"
  using cursor_within [of s] by (induction n) (auto simp: redo_versions redo_cursor)

lemma redo_undoes_undo:
  assumes "n \<le> cursor s"
  shows "shown ((redo ^^ n) ((undo ^^ n) s)) = shown s"
  using assms cursor_within [of s] by (simp add: shown_version undos redos)

text \<open>
  A version \<open>n\<close> places before the cursor stays reachable by undo: an edit moves it one place
  further back, until the bound drops it.
\<close>

definition behind :: "nat \<Rightarrow> 'd \<Rightarrow> 's \<Rightarrow> bool" where
  "behind n d s \<longleftrightarrow> n \<le> cursor s \<and> versions s ! (cursor s - n) = d"

lemma behind_edit:
  assumes "inv s" "behind n d s" "changes c s" "n < bound"
  shows "behind (Suc n) d (edit c s)"
proof -
  let ?kept = "take (Suc (cursor s)) (versions s) @ [shown (edit c s)]"
  have len: "length ?kept = cursor s + 2" using cursor_within [of s] by simp
  then have keptlen: "length (versions (edit c s)) = min (cursor s + 2) (Suc bound)"
    using edit_versions [OF assms(1,3)] by (simp add: slice_last_def)
  then have cur: "cursor (edit c s) = min (cursor s + 1) bound" using edit_cursor [OF assms(1,3)] by simp
  have n: "n \<le> cursor s" using assms(2) by (simp add: behind_def)
  have "versions (edit c s) ! (cursor (edit c s) - Suc n) = ?kept ! (cursor s - n)"
    unfolding edit_versions [OF assms(1,3)] slice_last_def cur using len n assms(4)
    by (subst nth_drop) (auto simp: min_def)
  also have "\<dots> = versions s ! (cursor s - n)" using cursor_within [of s] by (simp add: nth_append less_Suc_eq_le)
  finally show ?thesis using assms(2,4) cur by (auto simp: behind_def)
qed

lemma behind_edits:
  assumes "inv s" "behind n d s" "n + changes_made changes edit cs s \<le> bound"
  shows "behind (n + changes_made changes edit cs s) d (fold edit cs s) \<and> inv (fold edit cs s)"
  using assms
proof (induction cs arbitrary: n s)
  case (Cons c cs)
  show ?case
  proof (cases "changes c s")
    case True
    then have "behind (Suc n) d (edit c s)" using Cons.prems by (intro behind_edit) simp_all
    then show ?thesis using Cons.IH [of "edit c s" "Suc n"] Cons.prems True inv_edit by simp
  next
    case False
    then show ?thesis using Cons.IH [of s n] Cons.prems unchanged by simp
  qed
qed simp

text \<open>As many undos as there were changes bring the version back.\<close>

lemma undo_brings_back:
  assumes "inv s" "changes_made changes edit cs s \<le> bound"
  shows "shown ((undo ^^ changes_made changes edit cs s) (fold edit cs s)) = shown s"
proof -
  have "behind 0 (shown s) s" by (simp add: behind_def shown_version)
  then show ?thesis
    using behind_edits [OF assms(1), of 0 "shown s" cs] assms(2) by (simp add: behind_def shown_version undos)
qed

end

section \<open>The hook implements it\<close>

definition versions :: "'d history \<Rightarrow> 'd list" where
  "versions s = past s @ present s # future s"

definition cursor :: "'d history \<Rightarrow> nat" where
  "cursor s = length (past s)"

definition history_bound :: nat where
  "history_bound = 50"

definition within_bound :: "'d history \<Rightarrow> bool" where
  "within_bound s \<longleftrightarrow> length (past s) + length (future s) \<le> history_bound"

definition history_changes :: "('d \<Rightarrow> string) \<Rightarrow> 'd change \<Rightarrow> 'd history \<Rightarrow> bool" where
  "history_changes stringify next s \<longleftrightarrow> stringify (next_present next (present s)) \<noteq> stringify (present s)"

interpretation hook: undo_history present "history_changes stringify" "history_update stringify"
  history_undo history_redo versions cursor within_bound history_bound
  for stringify :: "'d \<Rightarrow> string"
proof (unfold_locales, goal_cases)
  case (4 s c)
  then show ?case
    by (simp add: history_changes_def history_update_def versions_def cursor_def slice_last_def
        history_bound_def Let_def drop_Suc_Cons)
next
  case (9 s)
  then show ?case by (auto simp: versions_def cursor_def history_redo_def split: list.splits)
next
  case (10 s c)
  then show ?case by (auto simp: within_bound_def history_update_def slice_last_def history_bound_def Let_def)
next
  case (11 s)
  then show ?case by (cases "past s" rule: rev_cases) (auto simp: within_bound_def history_undo_def)
next
  case (12 s)
  then show ?case by (auto simp: within_bound_def history_redo_def split: list.splits)
qed (auto simp: history_changes_def history_update_def history_undo_def history_redo_def versions_def cursor_def
      within_bound_def nth_append slice_last_def Let_def split: list.splits)


text \<open>
  The same contract as a machine: the commands of the editor on versions and a cursor.
\<close>

datatype 'd command = Update "'d change" | Reset 'd | Undo | Redo

definition history_step :: "('d \<Rightarrow> string) \<Rightarrow> 'd command \<Rightarrow> 'd history \<Rightarrow> 'd history" where
  "history_step stringify c s =
     (case c of Update next \<Rightarrow> history_update stringify next s | Reset d \<Rightarrow> history_reset d s
      | Undo \<Rightarrow> history_undo s | Redo \<Rightarrow> history_redo s)"

record 'd timeline =
  tl_versions :: "'d list"
  tl_cursor :: nat

definition timeline_step :: "('d \<Rightarrow> string) \<Rightarrow> 'd command \<Rightarrow> 'd timeline \<Rightarrow> 'd timeline" where
  "timeline_step stringify c t =
     (let shown = tl_versions t ! tl_cursor t in
      case c of
        Update next \<Rightarrow>
          let d = next_present next shown;
              kept = slice_last (Suc history_bound) (take (Suc (tl_cursor t)) (tl_versions t) @ [d])
          in if stringify d = stringify shown then t
             else \<lparr>tl_versions = kept, tl_cursor = length kept - 1\<rparr>
      | Reset d \<Rightarrow> \<lparr>tl_versions = [d], tl_cursor = 0\<rparr>
      | Undo \<Rightarrow> t\<lparr>tl_cursor := tl_cursor t - 1\<rparr>
      | Redo \<Rightarrow> t\<lparr>tl_cursor := min (Suc (tl_cursor t)) (length (tl_versions t) - 1)\<rparr>)"

definition timeline_of :: "'d history \<Rightarrow> 'd timeline" where
  "timeline_of s = \<lparr>tl_versions = versions s, tl_cursor = cursor s\<rparr>"

lemma timeline_of_shown: "tl_versions (timeline_of s) ! tl_cursor (timeline_of s) = present s"
  by (simp add: timeline_of_def hook.shown_version)

lemma history_update_present:
  "history_changes stringify next s \<Longrightarrow> present (history_update stringify next s) = next_present next (present s)"
  by (simp add: history_changes_def history_update_def Let_def)

lemma timeline_step_simulates:
  assumes "within_bound s"
  shows "timeline_of (history_step stringify c s) = timeline_step stringify c (timeline_of s) \<and>
    within_bound (history_step stringify c s)"
proof (cases c)
  case (Update upd)
  show ?thesis
  proof (cases "history_changes stringify upd s")
    case True
    then show ?thesis
      using hook.edit_versions [OF assms True] hook.edit_cursor [OF assms True]
        hook.inv_edit [OF assms, of stringify upd] history_update_present [OF True]
      by (auto simp: Update history_step_def timeline_step_def timeline_of_shown Let_def history_changes_def)
        (simp_all add: timeline_of_def)
  next
    case False
    then show ?thesis
      using hook.unchanged [OF False] assms
      by (simp add: Update history_step_def timeline_step_def timeline_of_shown Let_def history_changes_def)
  qed
next
  case (Reset d)
  then show ?thesis
    by (simp add: history_step_def timeline_step_def history_reset_def timeline_of_def versions_def cursor_def
        within_bound_def Let_def)
next
  case Undo
  then show ?thesis
    using hook.inv_undo [OF assms]
    by (simp add: history_step_def timeline_step_def timeline_of_def Let_def hook.undo_versions hook.undo_cursor)
next
  case Redo
  then show ?thesis
    using hook.inv_redo [OF assms]
    by (simp add: history_step_def timeline_step_def timeline_of_def Let_def hook.redo_versions hook.redo_cursor)
qed

text \<open>
  C32: after any sequence of updates, resets, undos and redos, the two stacks of the hook are the
  versions before and after the cursor of the timeline on which the same commands act, the
  dashboard shown is the version at the cursor, and at most fifty other versions are kept.
\<close>

theorem history_refines_timeline:
  "let s = fold (history_step stringify) cmds (history_init d);
       t = fold (timeline_step stringify) cmds \<lparr>tl_versions = [d], tl_cursor = 0\<rparr>
   in past s @ present s # future s = tl_versions t \<and> length (past s) = tl_cursor t \<and>
      present s = tl_versions t ! tl_cursor t \<and> length (past s) + length (future s) \<le> history_bound"
proof -
  have sim: "within_bound s \<Longrightarrow>
      timeline_of (fold (history_step stringify) cmds s) = fold (timeline_step stringify) cmds (timeline_of s) \<and>
      within_bound (fold (history_step stringify) cmds s)" for s
    by (induction cmds arbitrary: s) (simp_all add: timeline_step_simulates)
  have "within_bound (history_init d)" "timeline_of (history_init d) = \<lparr>tl_versions = [d], tl_cursor = 0\<rparr>"
    by (simp_all add: within_bound_def history_init_def timeline_of_def versions_def cursor_def)
  with sim [of "history_init d"]
  have tl: "timeline_of (fold (history_step stringify) cmds (history_init d)) =
      fold (timeline_step stringify) cmds \<lparr>tl_versions = [d], tl_cursor = 0\<rparr>"
    and bound: "within_bound (fold (history_step stringify) cmds (history_init d))"
    by simp_all
  show ?thesis
    using timeline_of_shown [of "fold (history_step stringify) cmds (history_init d)"] bound
    unfolding Let_def tl [symmetric] by (simp add: timeline_of_def versions_def cursor_def within_bound_def)
qed

text \<open>
  As many undos as there were changes among a sequence of updates bring the dashboard back,
  for up to fifty changes, and as many redos from there return the last one.
\<close>

theorem undo_brings_dashboard_back:
  assumes "within_bound s" "changes_made (history_changes stringify) (history_update stringify) cs s = n" "n \<le> 50"
  shows "present ((history_undo ^^ n) (fold (history_update stringify) cs s)) = present s \<and>
    present ((history_redo ^^ n) ((history_undo ^^ n) (fold (history_update stringify) cs s))) =
      present (fold (history_update stringify) cs s)"
proof -
  have "n \<le> history_bound" using assms(3) by (simp add: history_bound_def)
  moreover from this have "n \<le> cursor (fold (history_update stringify) cs s)"
    using hook.behind_edits [OF assms(1), of 0 "present s" stringify cs] assms(2)
    by (simp add: hook.behind_def hook.shown_version)
  ultimately show ?thesis
    using hook.undo_brings_back [OF assms(1), of stringify cs] hook.redo_undoes_undo assms(2) by blast
qed

theorem undo_brings_dashboard_back_witness:
  "within_bound (history_init ''a'') \<and>
   present ((history_undo ^^ 2) (fold (history_update id)
     [Replace ''b'', Replace ''b'', Compute (\<lambda>d. d @ ''c'')] (history_init ''a''))) = ''a''"
proof -
  let ?cs = "[Replace ''b'', Replace ''b'', Compute (\<lambda>d. d @ ''c'')]"
  have "within_bound (history_init ''a'')" by (simp add: within_bound_def history_init_def)
  moreover have "changes_made (history_changes id) (history_update id) ?cs (history_init ''a'') = 2"
    by (simp add: history_changes_def history_update_def history_init_def next_present_def Let_def)
  ultimately show ?thesis
    using undo_brings_dashboard_back [of "history_init ''a''" id ?cs 2] by (simp add: history_init_def)
qed

end
