(* ===== verification/JsonText.thy ===== *)
theory JsonText
  imports JsValue
begin

text \<open>
  The text \<open>JSON.stringify\<close> gives for strings and numbers. A string is quoted, with the escapes of
  the language; a finite number is printed with the fewest decimal digits that denote the same
  binary64 number, as \<open>Number::toString\<close> prints it.
\<close>

section \<open>Strings\<close>

definition hex_digit :: "nat \<Rightarrow> char" where
  "hex_digit d = (if d < 10 then char_of (48 + d) else char_of (87 + d))"

definition json_escape :: "char \<Rightarrow> string" where
  "json_escape c =
     (if c = CHR 0x22 then [CHR 0x5C, CHR 0x22]
      else if c = CHR 0x5C then [CHR 0x5C, CHR 0x5C]
      else if c = CHR 0x08 then [CHR 0x5C, CHR ''b'']
      else if c = CHR 0x0C then [CHR 0x5C, CHR ''f'']
      else if c = CHR 0x0A then [CHR 0x5C, CHR ''n'']
      else if c = CHR 0x0D then [CHR 0x5C, CHR ''r'']
      else if c = CHR 0x09 then [CHR 0x5C, CHR ''t'']
      else if of_char c < (32 :: nat)
        then [CHR 0x5C, CHR ''u'', CHR ''0'', CHR ''0'', hex_digit (of_char c div 16), hex_digit (of_char c mod 16)]
      else [c])"

definition json_quote :: "string \<Rightarrow> string" where
  "json_quote s = CHR 0x22 # concat (map json_escape s) @ [CHR 0x22]"

section \<open>Numbers\<close>

fun ilog10 :: "nat \<Rightarrow> nat" where
  "ilog10 n = (if n < 10 then 0 else Suc (ilog10 (n div 10)))"

declare ilog10.simps [simp del]

definition ten_pow :: "int \<Rightarrow> rat" where
  "ten_pow e = (if 0 \<le> e then 10 ^ nat e else 1 / 10 ^ nat (- e))"

text \<open>The \<open>n\<close> with \<open>10^(n-1) \<le> x < 10^n\<close>, for positive \<open>x\<close>.\<close>

definition decimal_point :: "rat \<Rightarrow> int" where
  "decimal_point x =
     (let (a, b) = quotient_of x; k = int (ilog10 (nat a)) - int (ilog10 (nat b))
      in if ten_pow k \<le> x then k + 1 else k)"

text \<open>
  The \<open>k\<close>-digit decimals \<open>s \<cdot> 10^(n-k)\<close> next to \<open>x\<close> that denote \<open>x\<close>, the nearest first.
\<close>

definition decimal_candidates :: "rat \<Rightarrow> int \<Rightarrow> nat \<Rightarrow> (nat \<times> int) list" where
  "decimal_candidates x n k =
     (let unit = ten_pow (n - int k); low = \<lfloor>x / unit\<rfloor>; near = js_round (x / unit);
          tries = (if near = low then [low, low + 1] else [low + 1, low])
      in map (\<lambda>s. (nat s, n)) (filter (\<lambda>s. 10 ^ (k - 1) \<le> s \<and> s < 10 ^ k \<and> fl (of_int s * unit) = Fin x) tries))"

fun shortest_from :: "rat \<Rightarrow> nat \<Rightarrow> nat \<Rightarrow> (nat \<times> nat \<times> int) option" where
  "shortest_from x k 0 = None"
| "shortest_from x k (Suc fuel) =
     (case decimal_candidates x (decimal_point x) k @ decimal_candidates x (decimal_point x + 1) k of
        [] \<Rightarrow> shortest_from x (Suc k) fuel
      | (s, n) # rest \<Rightarrow> Some (s, k, n))"

definition exponent_text :: "int \<Rightarrow> string" where
  "exponent_text e = ''e'' @ (if e < 0 then ''-'' else ''+'') @ nat_str (nat \<bar>e\<bar>)"

definition decimal_text :: "nat \<times> nat \<times> int \<Rightarrow> string" where
  "decimal_text d =
     (case d of (s, k, n) \<Rightarrow>
        let ds = nat_str s in
        if int k \<le> n \<and> n \<le> 21 then ds @ replicate (nat (n - int k)) CHR ''0''
        else if 0 < n \<and> n \<le> 21 then take (nat n) ds @ ''.'' @ drop (nat n) ds
        else if - 6 < n \<and> n \<le> 0 then ''0.'' @ replicate (nat (- n)) CHR ''0'' @ ds
        else if k = 1 then ds @ exponent_text (n - 1)
        else take 1 ds @ ''.'' @ drop 1 ds @ exponent_text (n - 1))"

definition rat_text :: "rat \<Rightarrow> string" where
  "rat_text x =
     (if x = 0 then ''0''
      else (if x < 0 then ''-'' else []) @
        (case shortest_from \<bar>x\<bar> 1 17 of Some d \<Rightarrow> decimal_text d | None \<Rightarrow> ''0''))"

text \<open>\<open>String(x)\<close>, and \<open>JSON.stringify\<close> of a number.\<close>

fun js_number_text :: "js_number \<Rightarrow> string" where
  "js_number_text (Fin x) = rat_text x"
| "js_number_text NaN = ''NaN''"
| "js_number_text PosInf = ''Infinity''"
| "js_number_text NegInf = ''-Infinity''"

fun json_number :: "js_number \<Rightarrow> string" where
  "json_number (Fin x) = rat_text x"
| "json_number _ = ''null''"

text \<open>Reading digits, and a number as JSON writes it.\<close>

definition digit_char_ok :: "char \<Rightarrow> bool" where
  "digit_char_ok c \<longleftrightarrow> CHR ''0'' \<le> c \<and> c \<le> CHR ''9''"

definition digits_value :: "string \<Rightarrow> nat" where
  "digits_value s = foldl (\<lambda>n c. 10 * n + (of_char c - 48)) 0 s"

definition exponent_value :: "string \<Rightarrow> int option" where
  "exponent_value s =
     (case s of
        [] \<Rightarrow> Some 0
      | c # r \<Rightarrow>
          if c \<noteq> CHR ''e'' \<and> c \<noteq> CHR ''E'' then None
          else
            let negative = (r \<noteq> [] \<and> hd r = CHR ''-'');
                digits = (if negative \<or> r \<noteq> [] \<and> hd r = CHR ''+'' then tl r else r)
            in if digits = [] \<or> \<not> list_all digit_char_ok digits then None
               else Some (if negative then - int (digits_value digits) else int (digits_value digits)))"

definition fraction_digits :: "string \<Rightarrow> (string \<times> string) option" where
  "fraction_digits s =
     (if s \<noteq> [] \<and> hd s = CHR ''.'' then
        if takeWhile digit_char_ok (tl s) = [] then None
        else Some (takeWhile digit_char_ok (tl s), dropWhile digit_char_ok (tl s))
      else Some ([], s))"

definition number_literal :: "string \<Rightarrow> rat option" where
  "number_literal s =
     (let negative = (s \<noteq> [] \<and> hd s = CHR ''-'');
          unsigned = (if negative then tl s else s);
          whole = takeWhile digit_char_ok unsigned
      in if whole = [] \<or> hd whole = CHR ''0'' \<and> whole \<noteq> ''0'' then None
         else case fraction_digits (dropWhile digit_char_ok unsigned) of
             None \<Rightarrow> None
           | Some (fraction, rest) \<Rightarrow>
               (case exponent_value rest of
                  None \<Rightarrow> None
                | Some e \<Rightarrow>
                    let x = of_nat (digits_value (whole @ fraction)) * ten_pow (e - int (length fraction))
                    in Some (if negative then - x else x)))"

section \<open>The characters of a number\<close>

definition number_char :: "char \<Rightarrow> bool" where
  "number_char c \<longleftrightarrow> c \<in> set ''0123456789+-.e''"

lemma digit_char_number: "d < 10 \<Longrightarrow> number_char (digit_char d)"
proof -
  have "list_all (\<lambda>d. number_char (digit_char d)) [0..<10]" by code_simp
  then show "d < 10 \<Longrightarrow> number_char (digit_char d)" by (simp add: list_all_iff)
qed

lemma nat_str_chars: "list_all number_char (nat_str n)"
proof (induction n rule: nat_str.induct)
  case (1 n)
  then show ?case by (subst nat_str.simps) (simp add: digit_char_number)
qed

lemma list_all_take_drop: "list_all P xs \<Longrightarrow> list_all P (take n xs) \<and> list_all P (drop n xs)"
  by (metis append_take_drop_id list_all_append)

lemma decimal_text_chars: "list_all number_char (decimal_text d)"
proof -
  obtain s k n where d: "d = (s, k, n)" by (cases d) auto
  have lit: "number_char CHR ''0''" "number_char CHR ''.''" "number_char CHR ''e''"
    "number_char CHR ''+''" "number_char CHR ''-''" by (simp_all add: number_char_def)
  have zeros: "list_all number_char (replicate m CHR ''0'')" for m
    using lit(1) by (simp add: list_all_iff)
  have exps: "list_all number_char (exponent_text e)" for e
    using lit nat_str_chars by (simp add: exponent_text_def)
  show ?thesis
    using list_all_take_drop [OF nat_str_chars] nat_str_chars lit zeros exps
    by (simp add: d decimal_text_def Let_def)
qed

lemma rat_text_chars: "list_all number_char (rat_text x)"
proof -
  have "number_char CHR ''0''" "number_char CHR ''-''" by (simp_all add: number_char_def)
  then show ?thesis by (simp add: rat_text_def decimal_text_chars split: option.splits)
qed

lemma decimal_text_not_Nil: "decimal_text d \<noteq> []"
proof -
  obtain s k n where d: "d = (s, k, n)" by (cases d) auto
  show ?thesis by (simp add: d decimal_text_def Let_def exponent_text_def)
qed

lemma rat_text_not_Nil: "rat_text x \<noteq> []"
  by (simp add: rat_text_def decimal_text_not_Nil split: option.splits)


section \<open>Values\<close>

text \<open>
  \<open>JSON.stringify(v)\<close>: \<^const>\<open>None\<close> for \<open>undefined\<close>, which an object leaves out and an array
  replaces by \<open>null\<close>. A \<open>bigint\<close> has no text (the call throws); none of the sources passes one.
\<close>

fun json_stringify :: "js_value \<Rightarrow> string option" where
  "json_stringify JUndefined = None"
| "json_stringify (JBigint i) = None"
| "json_stringify JNull = Some ''null''"
| "json_stringify (JBool b) = Some (if b then ''true'' else ''false'')"
| "json_stringify (JNumber n) = Some (json_number n)"
| "json_stringify (JString s) = Some (json_quote s)"
| "json_stringify (JArray xs) =
     Some (''['' @ js_join '','' (map (\<lambda>x. case json_stringify x of Some t \<Rightarrow> t | None \<Rightarrow> ''null'') xs) @ '']'')"
| "json_stringify (JObject ps) =
     Some (''{'' @ js_join '','' (concat (map
       (\<lambda>(k, v). case json_stringify v of Some t \<Rightarrow> [json_quote k @ '':'' @ t] | None \<Rightarrow> []) ps)) @ ''}'')"

text \<open>The text of a value as an element of an array.\<close>

definition json_element :: "js_value \<Rightarrow> string" where
  "json_element v = (case json_stringify v of Some t \<Rightarrow> t | None \<Rightarrow> ''null'')"

section \<open>Quoted strings are a prefix code\<close>

lemma json_escape_not_quote: "json_escape c \<noteq> [] \<and> hd (json_escape c) \<noteq> CHR 0x22"
  by (simp add: json_escape_def)

end
