(* ===== verification/QueryScheduler.thy ===== *)
theory QueryScheduler
  imports JsonText
begin

text \<open>
  The query scheduler of a dashboard session (\<open>createQueryScheduler\<close> in
  \<open>ui/src/features/insights/query.ts\<close>): identical queries share one request, a bounded number of
  requests run at a time, answers are cached for a while, and a cancelled caller leaves the others
  alone.

  The closure's variables are a record. An entry object is its index in \<open>sc_entries\<close>, a promise
  handed to a caller its index in \<open>sc_callers\<close>. What JavaScript runs to completion between two
  turns of the event loop is one event: a call of the scheduler, the abort of a caller's signal, and
  the turns of the promise chain of a started entry (\<open>Promise.resolve().then\<close>, the settling of the
  fetcher's promise, the two handlers, \<open>finally\<close>).
\<close>

section \<open>Requests\<close>

datatype DataKind = Metrics | Traces | Records

fun kind_name :: "DataKind \<Rightarrow> string" where
  "kind_name Metrics = ''metrics''"
| "kind_name Traces = ''traces''"
| "kind_name Records = ''records''"

record QueryRequest =
  qr_providerId :: string
  qr_query :: string
  qr_kind :: DataKind
  qr_start :: js_number
  qr_end :: js_number
  qr_step :: js_number
  qr_queryRef :: js_value
  qr_traceId :: "string option"

definition query_key :: "QueryRequest \<Rightarrow> string" where
  "query_key r = ''['' @ js_join '',''
     [json_quote (qr_providerId r), json_quote (kind_name (qr_kind r)), json_quote (qr_query r),
      json_number (qr_start r), json_number (qr_end r), json_number (qr_step r),
      json_element (qr_queryRef r), (case qr_traceId r of Some t \<Rightarrow> json_quote t | None \<Rightarrow> ''null'')] @ '']''"

section \<open>State\<close>

text \<open>
  How a fetch fails: with an error (\<^const>\<open>None\<close> is a rejection with \<open>undefined\<close>), or because the
  entry was cancelled before it was sent.
\<close>

datatype 'e failure = Fetch_error "'e option" | Cancelled

datatype phase = Queued | Starting | Fetching | Fetched | Finishing | Finished

record ('d, 'e) entry =
  en_key :: string
  en_request :: QueryRequest
  en_aborted :: bool
  en_subscribers :: "nat list"
  en_phase :: phase
  en_result :: "('e failure + 'd) option"

datatype ('d, 'e) settlement = Resolved "'d option" | Rejected 'e | Aborted

record ('d, 'e) caller =
  cl_request :: QueryRequest
  cl_entry :: "nat option"
  cl_settled :: "('d, 'e) settlement option"

definition cl_key :: "('d, 'e) caller \<Rightarrow> string" where
  "cl_key cl = query_key (cl_request cl)"

record ('d, 'e) scheduler =
  sc_pending :: "(string, nat) js_map"
  sc_queue :: "nat list"
  sc_cache :: "(string, 'd \<times> js_number) js_map"
  sc_active :: int
  sc_entries :: "('d, 'e) entry list"
  sc_callers :: "('d, 'e) caller list"

record QuerySchedulerOptions =
  so_concurrency :: "js_number option"
  so_cacheTTL :: "js_number option"
  so_cacheSize :: "js_number option"

record limits =
  lim_concurrency :: js_number
  lim_cacheTTL :: js_number
  lim_cacheSize :: js_number

definition option_or :: "js_number option \<Rightarrow> rat \<Rightarrow> js_number" where
  "option_or v d = (case v of Some n \<Rightarrow> n | None \<Rightarrow> Fin d)"

definition scheduler_limits :: "QuerySchedulerOptions \<Rightarrow> limits" where
  "scheduler_limits options =
     \<lparr>lim_concurrency = js_max (Fin 1) (js_min (Fin 16) (js_floor (option_or (so_concurrency options) 4))),
      lim_cacheTTL = js_max (Fin 0) (option_or (so_cacheTTL options) 5000),
      lim_cacheSize = js_max (Fin 0) (js_min (Fin 100) (js_floor (option_or (so_cacheSize options) 100)))\<rparr>"

definition new_scheduler :: "('d, 'e) scheduler" where
  "new_scheduler = \<lparr>sc_pending = [], sc_queue = [], sc_cache = [], sc_active = 0, sc_entries = [], sc_callers = []\<rparr>"

definition map_delete :: "'k \<Rightarrow> ('k, 'v) js_map \<Rightarrow> ('k, 'v) js_map" where
  "map_delete k m = filter (\<lambda>p. fst p \<noteq> k) m"

section \<open>Settling and draining\<close>

definition update_entry :: "nat \<Rightarrow> (('d, 'e) entry \<Rightarrow> ('d, 'e) entry) \<Rightarrow> ('d, 'e) scheduler \<Rightarrow> ('d, 'e) scheduler" where
  "update_entry e f st = st\<lparr>sc_entries := (sc_entries st)[e := f (sc_entries st ! e)]\<rparr>"

text \<open>\<open>if (pending.get(entry.key) === entry) pending.delete(entry.key)\<close>.\<close>

definition forget_pending :: "nat \<Rightarrow> ('d, 'e) scheduler \<Rightarrow> ('d, 'e) scheduler" where
  "forget_pending e st =
     (let key = en_key (sc_entries st ! e) in
      if js_map_get (sc_pending st) key = Some e then st\<lparr>sc_pending := map_delete key (sc_pending st)\<rparr> else st)"

text \<open>A promise is settled once; later calls of \<open>resolve\<close> and \<open>reject\<close> have no effect.\<close>

definition settle_caller :: "('d, 'e) settlement \<Rightarrow> nat \<Rightarrow> ('d, 'e) caller list \<Rightarrow> ('d, 'e) caller list" where
  "settle_caller s c callers =
     (if cl_settled (callers ! c) = None then callers[c := (callers ! c)\<lparr>cl_settled := Some s\<rparr>] else callers)"

definition settlement_of :: "'e failure + 'd \<Rightarrow> ('d, 'e) settlement" where
  "settlement_of result =
     (case result of
        Inr d \<Rightarrow> Resolved (Some d)
      | Inl (Fetch_error (Some e)) \<Rightarrow> Rejected e
      | Inl (Fetch_error None) \<Rightarrow> Resolved None
      | Inl Cancelled \<Rightarrow> Aborted)"

definition settle :: "nat \<Rightarrow> 'e failure + 'd \<Rightarrow> ('d, 'e) scheduler \<Rightarrow> ('d, 'e) scheduler" where
  "settle e result st0 =
     (let st = forget_pending e st0;
          callers = fold (settle_caller (settlement_of result)) (en_subscribers (sc_entries st ! e)) (sc_callers st)
      in update_entry e (\<lambda>entry. entry\<lparr>en_subscribers := []\<rparr>) (st\<lparr>sc_callers := callers\<rparr>))"

function drain :: "limits \<Rightarrow> ('d, 'e) scheduler \<Rightarrow> ('d, 'e) scheduler" where
  "drain cfg st =
     (if js_less (Fin (of_int (sc_active st))) (lim_concurrency cfg) \<and> sc_queue st \<noteq> [] then
        let e = hd (sc_queue st); shifted = st\<lparr>sc_queue := tl (sc_queue st)\<rparr>; entry = sc_entries st ! e in
        if en_subscribers entry = [] \<or> en_aborted entry then drain cfg shifted
        else drain cfg (update_entry e (\<lambda>entry. entry\<lparr>en_phase := Starting\<rparr>)
               (shifted\<lparr>sc_active := sc_active st + 1\<rparr>))
      else st)"
  by pat_completeness auto

termination
  by (relation "measure (\<lambda>(cfg, st). length (sc_queue st))") (auto simp: update_entry_def)

declare drain.simps [simp del]

section \<open>Events\<close>

text \<open>The call \<open>(request, signal) => ...\<close> at time \<open>now\<close>.\<close>

definition add_caller :: "('d, 'e) caller \<Rightarrow> ('d, 'e) scheduler \<Rightarrow> ('d, 'e) scheduler" where
  "add_caller c st = st\<lparr>sc_callers := sc_callers st @ [c]\<rparr>"

definition new_entry :: "QueryRequest \<Rightarrow> ('d, 'e) entry" where
  "new_entry r = \<lparr>en_key = query_key r, en_request = r, en_aborted = False, en_subscribers = [],
     en_phase = Queued, en_result = None\<rparr>"

text \<open>The pending entry of the key, or a new one at the end of the queue.\<close>

definition join_entry :: "QueryRequest \<Rightarrow> ('d, 'e) scheduler \<Rightarrow> nat \<times> ('d, 'e) scheduler" where
  "join_entry r st =
     (case js_map_get (sc_pending st) (query_key r) of
        Some e \<Rightarrow> (e, st)
      | None \<Rightarrow>
          let e = length (sc_entries st) in
          (e, st\<lparr>sc_entries := sc_entries st @ [new_entry r],
                 sc_pending := js_map_set (query_key r) e (sc_pending st),
                 sc_queue := sc_queue st @ [e]\<rparr>))"

definition subscribe :: "nat \<Rightarrow> QueryRequest \<Rightarrow> ('d, 'e) scheduler \<Rightarrow> ('d, 'e) scheduler" where
  "subscribe e r st =
     (let c = length (sc_callers st) in
      add_caller \<lparr>cl_request = r, cl_entry = Some e, cl_settled = None\<rparr>
        (update_entry e (\<lambda>entry. entry\<lparr>en_subscribers := en_subscribers entry @ [c]\<rparr>) st))"

definition schedule :: "limits \<Rightarrow> QueryRequest \<Rightarrow> bool \<Rightarrow> rat \<Rightarrow> ('d, 'e) scheduler \<Rightarrow> ('d, 'e) scheduler" where
  "schedule cfg r signal_aborted now st =
     (let key = query_key r in
      if signal_aborted then add_caller \<lparr>cl_request = r, cl_entry = None, cl_settled = Some Aborted\<rparr> st
      else case js_map_get (sc_cache st) key of
          Some (d, expires) \<Rightarrow>
            if js_less (Fin now) expires then
              add_caller \<lparr>cl_request = r, cl_entry = None, cl_settled = Some (Resolved (Some d))\<rparr>
                (st\<lparr>sc_cache := js_map_set key (d, expires) (map_delete key (sc_cache st))\<rparr>)
            else
              let (e, st') = join_entry r (st\<lparr>sc_cache := map_delete key (sc_cache st)\<rparr>)
              in drain cfg (subscribe e r st')
        | None \<Rightarrow> let (e, st') = join_entry r st in drain cfg (subscribe e r st'))"

text \<open>The abort listener of a caller that still waits.\<close>

definition abort_caller :: "nat \<Rightarrow> nat \<Rightarrow> ('d, 'e) scheduler \<Rightarrow> ('d, 'e) scheduler" where
  "abort_caller e c st =
     (let st1 = update_entry e (\<lambda>entry. entry\<lparr>en_subscribers := filter (\<lambda>s. s \<noteq> c) (en_subscribers entry)\<rparr>) st;
          st2 = st1\<lparr>sc_callers := settle_caller Aborted c (sc_callers st1)\<rparr>
      in if en_subscribers (sc_entries st2 ! e) = [] then
           let st3 = forget_pending e (update_entry e (\<lambda>entry. entry\<lparr>en_aborted := True\<rparr>) st2)
           in st3\<lparr>sc_queue := remove1 e (sc_queue st3)\<rparr>
         else st2)"

text \<open>\<open>Promise.resolve().then(...)\<close>: the fetcher is called unless the entry was cancelled.\<close>

definition start_entry :: "nat \<Rightarrow> ('d, 'e) scheduler \<Rightarrow> ('d, 'e) scheduler" where
  "start_entry e st =
     update_entry e (\<lambda>entry.
       if en_aborted entry then entry\<lparr>en_phase := Fetched, en_result := Some (Inl Cancelled)\<rparr>
       else entry\<lparr>en_phase := Fetching\<rparr>) st"

definition fetch_settled :: "nat \<Rightarrow> 'e option + 'd \<Rightarrow> ('d, 'e) scheduler \<Rightarrow> ('d, 'e) scheduler" where
  "fetch_settled e result st =
     update_entry e (\<lambda>entry. entry\<lparr>en_phase := Fetched,
       en_result := Some (case result of Inr d \<Rightarrow> Inr d | Inl x \<Rightarrow> Inl (Fetch_error x))\<rparr>) st"

text \<open>\<open>while (cache.size > cacheSize)\<close> the oldest entry is deleted.\<close>

fun evict :: "js_number \<Rightarrow> ('k, 'v) js_map \<Rightarrow> ('k, 'v) js_map" where
  "evict cacheSize [] = []"
| "evict cacheSize (p # m) = (if js_less cacheSize (Fin (of_nat (length (p # m)))) then evict cacheSize m else p # m)"

definition store_answer :: "limits \<Rightarrow> rat \<Rightarrow> nat \<Rightarrow> 'd \<Rightarrow> ('d, 'e) scheduler \<Rightarrow> ('d, 'e) scheduler" where
  "store_answer cfg now e d st =
     (let entry = sc_entries st ! e; key = en_key entry in
      if \<not> en_aborted entry \<and> en_subscribers entry \<noteq> [] \<and> js_less (Fin 0) (lim_cacheTTL cfg) \<and>
         js_less (Fin 0) (lim_cacheSize cfg)
      then st\<lparr>sc_cache := evict (lim_cacheSize cfg)
             (js_map_set key (d, js_add (Fin now) (lim_cacheTTL cfg)) (map_delete key (sc_cache st)))\<rparr>
      else st)"

definition handle_result :: "limits \<Rightarrow> rat \<Rightarrow> nat \<Rightarrow> ('d, 'e) scheduler \<Rightarrow> ('d, 'e) scheduler" where
  "handle_result cfg now e st =
     (let result = the (en_result (sc_entries st ! e));
          st' = (case result of Inr d \<Rightarrow> store_answer cfg now e d st | Inl x \<Rightarrow> st)
      in update_entry e (\<lambda>entry. entry\<lparr>en_phase := Finishing\<rparr>) (settle e result st'))"

definition finish_entry :: "limits \<Rightarrow> nat \<Rightarrow> ('d, 'e) scheduler \<Rightarrow> ('d, 'e) scheduler" where
  "finish_entry cfg e st =
     drain cfg (forget_pending e
       (update_entry e (\<lambda>entry. entry\<lparr>en_phase := Finished\<rparr>) (st\<lparr>sc_active := sc_active st - 1\<rparr>)))"

datatype ('d, 'e) event =
    Schedule QueryRequest bool rat
  | Abort nat nat
  | Start nat
  | Fetch_settled nat "'e option + 'd"
  | Handle nat rat
  | Finish nat

definition in_phase :: "phase \<Rightarrow> nat \<Rightarrow> ('d, 'e) scheduler \<Rightarrow> bool" where
  "in_phase p e st \<longleftrightarrow> e < length (sc_entries st) \<and> en_phase (sc_entries st ! e) = p"

definition run_event :: "limits \<Rightarrow> ('d, 'e) event \<Rightarrow> ('d, 'e) scheduler \<Rightarrow> ('d, 'e) scheduler option" where
  "run_event cfg ev st =
     (case ev of
        Schedule r signal_aborted now \<Rightarrow> Some (schedule cfg r signal_aborted now st)
      | Abort e c \<Rightarrow>
          if e < length (sc_entries st) \<and> c \<in> set (en_subscribers (sc_entries st ! e)) then Some (abort_caller e c st)
          else None
      | Start e \<Rightarrow> if in_phase Starting e st then Some (start_entry e st) else None
      | Fetch_settled e result \<Rightarrow> if in_phase Fetching e st then Some (fetch_settled e result st) else None
      | Handle e now \<Rightarrow> if in_phase Fetched e st then Some (handle_result cfg now e st) else None
      | Finish e \<Rightarrow> if in_phase Finishing e st then Some (finish_entry cfg e st) else None)"

inductive reachable :: "limits \<Rightarrow> ('d, 'e) scheduler \<Rightarrow> bool" for cfg where
  init: "reachable cfg new_scheduler"
| step: "reachable cfg st \<Longrightarrow> run_event cfg ev st = Some st' \<Longrightarrow> reachable cfg st'"

end
