(* ===== verification/SchedulerLaws.thy ===== *)
theory SchedulerLaws
  imports QueryScheduler
begin

text \<open>
  The laws of the query scheduler. The invariant \<open>scheduler_ok\<close> ties the slots, the queue, the pending
  table, the cache and the callers' promises to the entries; every event keeps it. From it follow the
  bounds on requests and cache, that a query waited for has one entry, that an answer is of the query
  asked, and that every caller is answered once its fetch settles.
\<close>

section \<open>Invariants\<close>

fun running :: "phase \<Rightarrow> bool" where
  "running Queued = False"
| "running Finished = False"
| "running _ = True"

definition running_count :: "('d, 'e) entry list \<Rightarrow> int" where
  "running_count ens = int (length (filter (\<lambda>en. running (en_phase en)) ens))"

definition slots_ok :: "limits \<Rightarrow> ('d, 'e) scheduler \<Rightarrow> bool" where
  "slots_ok cfg s \<longleftrightarrow>
     sc_active s = running_count (sc_entries s) \<and>
     (sc_active s = 0 \<or> js_ge (lim_concurrency cfg) (Fin (of_int (sc_active s))))"

definition queue_ok :: "('d, 'e) scheduler \<Rightarrow> bool" where
  "queue_ok s \<longleftrightarrow> distinct (sc_queue s) \<and>
     (\<forall>e. e \<in> set (sc_queue s) \<longleftrightarrow> e < length (sc_entries s) \<and>
        en_phase (sc_entries s ! e) = Queued \<and> en_subscribers (sc_entries s ! e) \<noteq> [])"

definition pending_ok :: "('d, 'e) scheduler \<Rightarrow> bool" where
  "pending_ok s \<longleftrightarrow> distinct (map fst (sc_pending s)) \<and>
     (\<forall>k e. (k, e) \<in> set (sc_pending s) \<longleftrightarrow> e < length (sc_entries s) \<and>
        en_key (sc_entries s ! e) = k \<and> en_subscribers (sc_entries s ! e) \<noteq> [])"

definition entry_ok :: "('d, 'e) entry \<Rightarrow> bool" where
  "entry_ok en \<longleftrightarrow> en_key en = query_key (en_request en) \<and> distinct (en_subscribers en) \<and>
     (en_subscribers en \<noteq> [] \<longrightarrow> \<not> en_aborted en \<and> en_phase en \<in> {Queued, Starting, Fetching, Fetched} \<and>
        en_result en \<noteq> Some (Inl Cancelled)) \<and>
     (en_phase en = Fetched \<longrightarrow> en_result en \<noteq> None) \<and>
     (en_phase en \<in> {Queued, Starting, Fetching} \<longrightarrow> en_result en = None)"

definition entries_ok :: "('d, 'e) scheduler \<Rightarrow> bool" where
  "entries_ok s \<longleftrightarrow> (\<forall>en \<in> set (sc_entries s). entry_ok en)"

definition callers_ok :: "('d, 'e) scheduler \<Rightarrow> bool" where
  "callers_ok s \<longleftrightarrow>
     (\<forall>e < length (sc_entries s). \<forall>c \<in> set (en_subscribers (sc_entries s ! e)).
        c < length (sc_callers s) \<and> cl_key (sc_callers s ! c) = en_key (sc_entries s ! e) \<and>
        cl_entry (sc_callers s ! c) = Some e) \<and>
     (\<forall>c < length (sc_callers s). cl_settled (sc_callers s ! c) = None \<longleftrightarrow>
        (\<exists>e < length (sc_entries s). c \<in> set (en_subscribers (sc_entries s ! e))))"

text \<open>A result belongs to the entry of its key.\<close>

definition answered :: "('d, 'e) scheduler \<Rightarrow> string \<Rightarrow> 'e failure + 'd \<Rightarrow> bool" where
  "answered s k r \<longleftrightarrow> (\<exists>en \<in> set (sc_entries s). en_key en = k \<and> en_result en = Some r)"

definition settlement_ok :: "('d, 'e) scheduler \<Rightarrow> ('d, 'e) caller \<Rightarrow> bool" where
  "settlement_ok s cl \<longleftrightarrow>
     (case cl_settled cl of
        None \<Rightarrow> True
      | Some Aborted \<Rightarrow> True
      | Some x \<Rightarrow> (\<exists>r. answered s (cl_key cl) r \<and> settlement_of r = x))"

definition data_ok :: "('d, 'e) scheduler \<Rightarrow> bool" where
  "data_ok s \<longleftrightarrow> (\<forall>cl \<in> set (sc_callers s). settlement_ok s cl) \<and>
     (\<forall>(k, d, x) \<in> set (sc_cache s). answered s k (Inr d))"

definition cache_ok :: "limits \<Rightarrow> ('d, 'e) scheduler \<Rightarrow> bool" where
  "cache_ok cfg s \<longleftrightarrow> distinct (map fst (sc_cache s)) \<and>
     (sc_cache s = [] \<or> js_ge (lim_cacheSize cfg) (Fin (of_nat (length (sc_cache s)))))"

definition scheduler_ok :: "limits \<Rightarrow> ('d, 'e) scheduler \<Rightarrow> bool" where
  "scheduler_ok cfg s \<longleftrightarrow> slots_ok cfg s \<and> queue_ok s \<and> pending_ok s \<and> entries_ok s \<and> callers_ok s \<and>
     data_ok s \<and> cache_ok cfg s"

text \<open>No slot is left free while an entry waits.\<close>

definition saturated :: "limits \<Rightarrow> ('d, 'e) scheduler \<Rightarrow> bool" where
  "saturated cfg s \<longleftrightarrow> sc_queue s = [] \<or> \<not> js_less (Fin (of_int (sc_active s))) (lim_concurrency cfg)"

section \<open>Updates\<close>

lemma cl_key_simps [simp]:
  "cl_key \<lparr>cl_request = r, cl_entry = e, cl_settled = x\<rparr> = query_key r"
  "cl_key (cl\<lparr>cl_settled := x\<rparr>) = cl_key cl"
  by (simp_all add: cl_key_def)

lemma update_entry_simps [simp]:
  "sc_entries (update_entry e f s) = (sc_entries s)[e := f (sc_entries s ! e)]"
  "sc_pending (update_entry e f s) = sc_pending s" "sc_queue (update_entry e f s) = sc_queue s"
  "sc_cache (update_entry e f s) = sc_cache s" "sc_active (update_entry e f s) = sc_active s"
  "sc_callers (update_entry e f s) = sc_callers s"
  by (simp_all add: update_entry_def)

lemma forget_pending_simps [simp]:
  "sc_entries (forget_pending e s) = sc_entries s"
  "sc_queue (forget_pending e s) = sc_queue s" "sc_cache (forget_pending e s) = sc_cache s"
  "sc_active (forget_pending e s) = sc_active s" "sc_callers (forget_pending e s) = sc_callers s"
  by (simp_all add: forget_pending_def Let_def)

lemma count_update:
  "e < length xs \<Longrightarrow> length (filter P (xs[e := x])) + (if P (xs ! e) then 1 else 0) =
     length (filter P xs) + (if P x then 1 else 0)"
proof (induction xs arbitrary: e)
  case (Cons y ys)
  show ?case
  proof (cases e)
    case (Suc n)
    then show ?thesis using Cons.IH [of n] Cons.prems by simp
  qed simp
qed simp

lemma running_count_update:
  "e < length ens \<Longrightarrow> running_count (ens[e := en]) =
     running_count ens - (if running (en_phase (ens ! e)) then 1 else 0) + (if running (en_phase en) then 1 else 0)"
  using count_update [of e ens "\<lambda>en. running (en_phase en)" en] by (simp add: running_count_def split: if_splits)

lemma running_count_pos: "e < length ens \<Longrightarrow> running (en_phase (ens ! e)) \<Longrightarrow> 0 < running_count ens"
  by (auto simp: running_count_def length_greater_0_conv [symmetric] filter_empty_conv simp del: length_greater_0_conv)

lemma map_delete_mem: "(k', v) \<in> set (map_delete k m) \<longleftrightarrow> (k', v) \<in> set m \<and> k' \<noteq> k"
  by (auto simp: map_delete_def)

lemma map_delete_distinct: "distinct (map fst m) \<Longrightarrow> distinct (map fst (map_delete k m))"
  by (simp add: map_delete_def distinct_map_filter)

lemma map_set_mem:
  assumes "distinct (map fst m)"
  shows "(k', v') \<in> set (js_map_set k v m) \<longleftrightarrow> (if k' = k then v' = v else (k', v') \<in> set m)"
proof -
  have "(k', v') \<in> set (js_map_set k v m) \<longleftrightarrow> js_map_get (js_map_set k v m) k' = Some v'"
    using assms js_map_get_iff [of "js_map_set k v m"] by simp
  then show ?thesis using js_map_get_iff [OF assms] by (auto simp: js_container_simps)
qed

text \<open>Entries change without effect on the callers or the data when keys, subscribers and results stay.\<close>

lemma answered_update:
  assumes "answered s k r" "e < length (sc_entries s)" "sc_entries s' = (sc_entries s)[e := en']"
    and "en_key en' = en_key (sc_entries s ! e)"
    and "en_result (sc_entries s ! e) \<noteq> None \<Longrightarrow> en_result en' = en_result (sc_entries s ! e)"
  shows "answered s' k r"
proof -
  obtain i where i: "i < length (sc_entries s)" "en_key (sc_entries s ! i) = k" "en_result (sc_entries s ! i) = Some r"
    using assms(1) by (auto simp: answered_def in_set_conv_nth)
  have "en_key (sc_entries s' ! i) = k \<and> en_result (sc_entries s' ! i) = Some r"
    using i assms(2-5) by (cases "i = e") auto
  then show ?thesis using i(1) assms(3) by (metis answered_def length_list_update nth_mem)
qed

lemma answered_mono:
  "(\<And>k r. answered s k r \<Longrightarrow> answered s' k r) \<Longrightarrow> settlement_ok s cl \<Longrightarrow> settlement_ok s' cl"
  by (auto simp: settlement_ok_def split: option.splits settlement.splits)

text \<open>The parts of the invariant that see of an entry only its key and its subscribers.\<close>

definition entry_sig :: "('d, 'e) entry \<Rightarrow> string \<times> nat list" where
  "entry_sig en = (en_key en, en_subscribers en)"

lemma sig_nth:
  assumes "map entry_sig (sc_entries s') = map entry_sig (sc_entries s)"
  shows "length (sc_entries s') = length (sc_entries s)"
    and "e < length (sc_entries s) \<Longrightarrow> en_key (sc_entries s' ! e) = en_key (sc_entries s ! e)"
    and "e < length (sc_entries s) \<Longrightarrow> en_subscribers (sc_entries s' ! e) = en_subscribers (sc_entries s ! e)"
proof -
  show len: "length (sc_entries s') = length (sc_entries s)" using assms by (rule map_eq_imp_length_eq)
  have "entry_sig (sc_entries s' ! e) = entry_sig (sc_entries s ! e)" if "e < length (sc_entries s)"
    using arg_cong [OF assms, of "\<lambda>xs. xs ! e"] that len by simp
  then show "e < length (sc_entries s) \<Longrightarrow> en_key (sc_entries s' ! e) = en_key (sc_entries s ! e)"
    "e < length (sc_entries s) \<Longrightarrow> en_subscribers (sc_entries s' ! e) = en_subscribers (sc_entries s ! e)"
    by (simp_all add: entry_sig_def)
qed

lemma sig_update:
  assumes "entry_sig en' = entry_sig (sc_entries s ! e)"
  shows "map entry_sig ((sc_entries s)[e := en']) = map entry_sig (sc_entries s)"
  using assms by (cases "e < length (sc_entries s)") (simp_all add: map_update list_update_same_conv list_update_beyond)

lemma pending_ok_cong:
  assumes "map entry_sig (sc_entries s') = map entry_sig (sc_entries s)" "sc_pending s' = sc_pending s"
  shows "pending_ok s' = pending_ok s"
  unfolding pending_ok_def using sig_nth [OF assms(1)] assms(2) by (auto; metis)

lemma callers_ok_cong:
  assumes "map entry_sig (sc_entries s') = map entry_sig (sc_entries s)" "sc_callers s' = sc_callers s"
  shows "callers_ok s' = callers_ok s"
  unfolding callers_ok_def using sig_nth [OF assms(1)] assms(2) by (auto; metis)

lemma entries_ok_update:
  "entries_ok s \<Longrightarrow> entry_ok en' \<Longrightarrow> sc_entries s' = (sc_entries s)[e := en'] \<Longrightarrow> entries_ok s'"
  by (auto simp: entries_ok_def dest!: set_update_subset_insert [THEN subsetD])

lemma data_ok_update:
  assumes "data_ok s" "e < length (sc_entries s)" "sc_entries s' = (sc_entries s)[e := en']"
    and "en_key en' = en_key (sc_entries s ! e)"
    and "en_result (sc_entries s ! e) \<noteq> None \<Longrightarrow> en_result en' = en_result (sc_entries s ! e)"
    and "sc_callers s' = sc_callers s" "set (sc_cache s') \<subseteq> set (sc_cache s)"
  shows "data_ok s'"
  using assms(1,6,7) answered_update [OF _ assms(2-5)] answered_mono [of s s']
  unfolding data_ok_def by (metis (no_types, lifting) case_prodD case_prodI2 subsetD)

section \<open>Limits\<close>

text \<open>The limits a scheduler is created with are whole numbers in their ranges, or \<open>NaN\<close>.\<close>

definition whole_limits :: "limits \<Rightarrow> bool" where
  "whole_limits cfg \<longleftrightarrow>
     (lim_concurrency cfg = NaN \<or> (\<exists>k \<in> {1..16}. lim_concurrency cfg = Fin (of_int k))) \<and>
     (lim_cacheSize cfg = NaN \<or> (\<exists>k \<in> {0..100}. lim_cacheSize cfg = Fin (of_int k)))"

lemma clamp_whole:
  "js_max (Fin (of_int a)) (js_min (Fin (of_int b)) (js_floor n)) = NaN \<or>
   (\<exists>k \<in> {a..max a b}. js_max (Fin (of_int a)) (js_min (Fin (of_int b)) (js_floor n)) = Fin (of_int k))"
  by (cases n) (auto simp: js_max_def js_min_def intro!: bexI)

lemma scheduler_limits_whole: "whole_limits (scheduler_limits options)"
  using clamp_whole [of 1 16 "option_or (so_concurrency options) 4"]
    clamp_whole [of 0 100 "option_or (so_cacheSize options) 100"]
  by (simp add: whole_limits_def scheduler_limits_def)

lemma free_slot:
  assumes "whole_limits cfg" "js_less (Fin (of_int a)) (lim_concurrency cfg)"
  shows "js_ge (lim_concurrency cfg) (Fin (of_int (a + 1)))"
  using assms by (auto simp: whole_limits_def js_ge_def)

section \<open>Draining\<close>

lemma launch_ok:
  assumes whole: "whole_limits cfg" and ok: "scheduler_ok cfg s" and q: "sc_queue s = e # es"
    and free: "js_less (Fin (of_int (sc_active s))) (lim_concurrency cfg)"
  shows "\<not> (en_subscribers (sc_entries s ! e) = [] \<or> en_aborted (sc_entries s ! e))"
    and "scheduler_ok cfg (update_entry e (\<lambda>en. en\<lparr>en_phase := Starting\<rparr>)
      (s\<lparr>sc_queue := es, sc_active := sc_active s + 1\<rparr>))" (is "scheduler_ok cfg ?s'")
proof -
  have e: "e < length (sc_entries s)" "en_phase (sc_entries s ! e) = Queued" "en_subscribers (sc_entries s ! e) \<noteq> []"
    using ok q by (auto simp: scheduler_ok_def queue_ok_def)
  have en: "entry_ok (sc_entries s ! e)" using ok e(1) by (auto simp: scheduler_ok_def entries_ok_def)
  show "\<not> (en_subscribers (sc_entries s ! e) = [] \<or> en_aborted (sc_entries s ! e))"
    using en e by (auto simp: entry_ok_def)
  have sig: "map entry_sig (sc_entries ?s') = map entry_sig (sc_entries s)"
    using sig_update [of "(sc_entries s ! e)\<lparr>en_phase := Starting\<rparr>" s e] by (simp add: entry_sig_def)
  have "slots_ok cfg ?s'"
    using ok free_slot [OF whole free] e by (simp add: scheduler_ok_def slots_ok_def running_count_update)
  moreover have "queue_ok ?s'"
    unfolding queue_ok_def
  proof (intro conjI allI)
    show "distinct (sc_queue ?s')" using ok q by (simp add: scheduler_ok_def queue_ok_def)
    show "i \<in> set (sc_queue ?s') \<longleftrightarrow> i < length (sc_entries ?s') \<and> en_phase (sc_entries ?s' ! i) = Queued \<and>
        en_subscribers (sc_entries ?s' ! i) \<noteq> []" for i
      using ok q e by (cases "i = e") (auto simp: scheduler_ok_def queue_ok_def)
  qed
  moreover have "pending_ok ?s'" using ok pending_ok_cong [OF sig] by (simp add: scheduler_ok_def)
  moreover have "callers_ok ?s'" using ok callers_ok_cong [OF sig] by (simp add: scheduler_ok_def)
  moreover have "entries_ok ?s'"
    using ok en e entries_ok_update [of s "(sc_entries s ! e)\<lparr>en_phase := Starting\<rparr>" ?s' e]
    by (simp add: scheduler_ok_def entry_ok_def)
  moreover have "data_ok ?s'"
    using ok data_ok_update [of s e ?s' "(sc_entries s ! e)\<lparr>en_phase := Starting\<rparr>"] e
    by (simp add: scheduler_ok_def)
  moreover have "cache_ok cfg ?s'" using ok by (simp add: scheduler_ok_def cache_ok_def)
  ultimately show "scheduler_ok cfg ?s'" by (simp add: scheduler_ok_def)
qed


lemma drain_ok:
  assumes "whole_limits cfg" "scheduler_ok cfg s"
  shows "scheduler_ok cfg (drain cfg s) \<and> saturated cfg (drain cfg s)"
  using assms
proof (induction cfg s rule: drain.induct)
  case (1 cfg s)
  show ?case
  proof (cases "js_less (Fin (of_int (sc_active s))) (lim_concurrency cfg) \<and> sc_queue s \<noteq> []")
    case True
    then obtain e es where q: "sc_queue s = e # es" by (cases "sc_queue s") auto
    let ?s' = "update_entry e (\<lambda>en. en\<lparr>en_phase := Starting\<rparr>) (s\<lparr>sc_queue := es, sc_active := sc_active s + 1\<rparr>)"
    note launch = launch_ok [OF "1.prems" q] True
    have "drain cfg s = drain cfg ?s'"
      using launch q by (subst drain.simps) (simp add: Let_def)
    then show ?thesis using "1.IH"(2) [OF True refl refl refl] launch "1.prems"(1) q by simp
  next
    case False
    then have "drain cfg s = s" by (subst drain.simps) auto
    then show ?thesis using False "1.prems" by (auto simp: saturated_def)
  qed
qed

section \<open>Calls\<close>

lemma add_caller_simps [simp]:
  "sc_callers (add_caller cl s) = sc_callers s @ [cl]" "sc_entries (add_caller cl s) = sc_entries s"
  "sc_pending (add_caller cl s) = sc_pending s" "sc_queue (add_caller cl s) = sc_queue s"
  "sc_cache (add_caller cl s) = sc_cache s" "sc_active (add_caller cl s) = sc_active s"
  by (simp_all add: add_caller_def)

lemma answered_entries: "sc_entries s' = sc_entries s \<Longrightarrow> answered s' = answered s"
  by (simp add: answered_def fun_eq_iff)

lemma settlement_entries: "sc_entries s' = sc_entries s \<Longrightarrow> settlement_ok s' = settlement_ok s"
  unfolding settlement_ok_def [abs_def] by (drule answered_entries) (erule ssubst, rule refl)

text \<open>A caller that is answered at once.\<close>

lemma add_settled_ok:
  assumes ok: "scheduler_ok cfg s" and settled: "settlement_ok s cl" "cl_settled cl \<noteq> None"
  shows "scheduler_ok cfg (add_caller cl s)"
proof -
  have callers: "callers_ok s" and "data_ok s" using ok by (auto simp: scheduler_ok_def)
  have below: "c < length (sc_callers s)" if "e < length (sc_entries s)" "c \<in> set (en_subscribers (sc_entries s ! e))" for c e
    using callers that by (auto simp: callers_ok_def)
  have "callers_ok (add_caller cl s)"
    unfolding callers_ok_def
  proof (intro conjI allI ballI impI)
    fix e c assume "e < length (sc_entries (add_caller cl s))" "c \<in> set (en_subscribers (sc_entries (add_caller cl s) ! e))"
    then show "c < length (sc_callers (add_caller cl s))"
      "cl_key (sc_callers (add_caller cl s) ! c) = en_key (sc_entries (add_caller cl s) ! e)"
      "cl_entry (sc_callers (add_caller cl s) ! c) = Some e"
      using callers below [of e c] by (auto simp: callers_ok_def nth_append intro: less_SucI)
  next
    fix c assume "c < length (sc_callers (add_caller cl s))"
    then show "cl_settled (sc_callers (add_caller cl s) ! c) = None \<longleftrightarrow>
        (\<exists>e < length (sc_entries (add_caller cl s)). c \<in> set (en_subscribers (sc_entries (add_caller cl s) ! e)))"
      using callers below settled(2)
      by (cases "c < length (sc_callers s)") (auto simp: callers_ok_def nth_append less_Suc_eq)
  qed
  moreover have "data_ok (add_caller cl s)"
    using \<open>data_ok s\<close> settled(1) answered_entries [of "add_caller cl s" s] settlement_entries [of "add_caller cl s" s]
    by (auto simp: data_ok_def)
  moreover have "slots_ok cfg (add_caller cl s) = slots_ok cfg s" "queue_ok (add_caller cl s) = queue_ok s"
    "pending_ok (add_caller cl s) = pending_ok s" "entries_ok (add_caller cl s) = entries_ok s"
    "cache_ok cfg (add_caller cl s) = cache_ok cfg s"
    by (simp_all add: slots_ok_def queue_ok_def pending_ok_def entries_ok_def cache_ok_def)
  ultimately show ?thesis using ok by (simp add: scheduler_ok_def)
qed

text \<open>A smaller or reordered cache.\<close>

lemma cache_change_ok:
  assumes ok: "scheduler_ok cfg s" and sub: "set m \<subseteq> set (sc_cache s)" "distinct (map fst m)"
    and len: "length m \<le> length (sc_cache s)"
  shows "scheduler_ok cfg (s\<lparr>sc_cache := m\<rparr>)"
proof -
  have "js_ge (lim_cacheSize cfg) (Fin (of_nat (length m)))"
    if "js_ge (lim_cacheSize cfg) (Fin (of_nat (length (sc_cache s))))"
    using that len by (cases "lim_cacheSize cfg") (auto simp: js_ge_def)
  then have "cache_ok cfg (s\<lparr>sc_cache := m\<rparr>)" using ok sub len by (auto simp: scheduler_ok_def cache_ok_def)
  moreover have "data_ok (s\<lparr>sc_cache := m\<rparr>)"
    using ok sub(1) answered_entries [of "s\<lparr>sc_cache := m\<rparr>" s] settlement_entries [of "s\<lparr>sc_cache := m\<rparr>" s]
    by (auto simp: scheduler_ok_def data_ok_def)
  moreover have "slots_ok cfg (s\<lparr>sc_cache := m\<rparr>) = slots_ok cfg s" "queue_ok (s\<lparr>sc_cache := m\<rparr>) = queue_ok s"
    "pending_ok (s\<lparr>sc_cache := m\<rparr>) = pending_ok s" "entries_ok (s\<lparr>sc_cache := m\<rparr>) = entries_ok s"
    "callers_ok (s\<lparr>sc_cache := m\<rparr>) = callers_ok s"
    by (simp_all add: slots_ok_def queue_ok_def pending_ok_def entries_ok_def callers_ok_def)
  ultimately show ?thesis using ok by (simp add: scheduler_ok_def)
qed

lemma cache_delete_ok:
  assumes "scheduler_ok cfg s"
  shows "scheduler_ok cfg (s\<lparr>sc_cache := map_delete k (sc_cache s)\<rparr>)"
  using assms
  by (intro cache_change_ok) (auto simp: map_delete_def scheduler_ok_def cache_ok_def distinct_map_filter)

lemma cache_renew_ok:
  assumes ok: "scheduler_ok cfg s" and hit: "js_map_get (sc_cache s) k = Some v"
  shows "scheduler_ok cfg (s\<lparr>sc_cache := js_map_set k v (map_delete k (sc_cache s))\<rparr>)"
proof (rule cache_change_ok [OF ok])
  have dist: "distinct (map fst (sc_cache s))" using ok by (simp add: scheduler_ok_def cache_ok_def)
  have mem: "(k, v) \<in> set (sc_cache s)" using hit by (rule js_map_get_in)
  have new: "js_map_set k v (map_delete k (sc_cache s)) = map_delete k (sc_cache s) @ [(k, v)]"
    by (rule js_map_set_new) (auto simp: map_delete_def)
  show "set (js_map_set k v (map_delete k (sc_cache s))) \<subseteq> set (sc_cache s)"
    unfolding new using mem by (auto simp: map_delete_def)
  show "distinct (map fst (js_map_set k v (map_delete k (sc_cache s))))"
    using map_delete_distinct [OF dist] by simp
  have "length (map_delete k (sc_cache s)) < length (sc_cache s)"
    unfolding map_delete_def using mem by (metis (mono_tags, lifting) fst_conv length_filter_less)
  then show "length (js_map_set k v (map_delete k (sc_cache s))) \<le> length (sc_cache s)" unfolding new by simp
qed


text \<open>A caller joins the entry of its key.\<close>

lemma subscribe_simps [simp]:
  "sc_entries (subscribe e r s) = (sc_entries s)[e := (sc_entries s ! e)
     \<lparr>en_subscribers := en_subscribers (sc_entries s ! e) @ [length (sc_callers s)]\<rparr>]"
  "sc_callers (subscribe e r s) = sc_callers s @ [\<lparr>cl_request = r, cl_entry = Some e, cl_settled = None\<rparr>]"
  "sc_pending (subscribe e r s) = sc_pending s" "sc_queue (subscribe e r s) = sc_queue s"
  "sc_cache (subscribe e r s) = sc_cache s" "sc_active (subscribe e r s) = sc_active s"
  by (simp_all add: subscribe_def Let_def)

lemma subscribe_callers_ok:
  assumes "callers_ok s" "e < length (sc_entries s)" "en_key (sc_entries s ! e) = query_key r"
  shows "callers_ok (subscribe e r s)"
proof -
  let ?n = "length (sc_callers s)"
  have below: "c < ?n" if "i < length (sc_entries s)" "c \<in> set (en_subscribers (sc_entries s ! i))" for c i
    using assms(1) that by (auto simp: callers_ok_def)
  have subs: "c \<in> set (en_subscribers (sc_entries (subscribe e r s) ! i)) \<longleftrightarrow>
      c \<in> set (en_subscribers (sc_entries s ! i)) \<or> i = e \<and> c = ?n" if "i < length (sc_entries s)" for c i
    using that by (cases "i = e") auto
  have key: "en_key (sc_entries (subscribe e r s) ! i) = en_key (sc_entries s ! i)" for i
    using assms(2) by (cases "i = e") auto
  show ?thesis
    unfolding callers_ok_def
  proof (intro conjI allI ballI impI)
    fix i c assume "i < length (sc_entries (subscribe e r s))" "c \<in> set (en_subscribers (sc_entries (subscribe e r s) ! i))"
    then have i: "i < length (sc_entries s)" and c: "c \<in> set (en_subscribers (sc_entries s ! i)) \<or> i = e \<and> c = ?n"
      using subs by auto
    show "c < length (sc_callers (subscribe e r s))" using c below [OF i, of c] by auto
    show "cl_key (sc_callers (subscribe e r s) ! c) = en_key (sc_entries (subscribe e r s) ! i)"
      "cl_entry (sc_callers (subscribe e r s) ! c) = Some i"
      unfolding key using c i assms(1,3) below [OF i] by (auto simp: callers_ok_def nth_append)
  next
    fix c assume c: "c < length (sc_callers (subscribe e r s))"
    have ex: "(\<exists>i < length (sc_entries (subscribe e r s)). c \<in> set (en_subscribers (sc_entries (subscribe e r s) ! i))) \<longleftrightarrow>
        (\<exists>i < length (sc_entries s). c \<in> set (en_subscribers (sc_entries s ! i))) \<or> c = ?n"
      using subs assms(2) by auto
    show "cl_settled (sc_callers (subscribe e r s) ! c) = None \<longleftrightarrow>
        (\<exists>i < length (sc_entries (subscribe e r s)). c \<in> set (en_subscribers (sc_entries (subscribe e r s) ! i)))"
      unfolding ex using c assms(1) by (cases "c < ?n") (auto simp: callers_ok_def nth_append less_Suc_eq)
  qed
qed

lemma subscribe_entries_ok:
  assumes "entries_ok s" "callers_ok s" "e < length (sc_entries s)"
    and "\<not> en_aborted (sc_entries s ! e)" "en_phase (sc_entries s ! e) \<in> {Queued, Starting, Fetching, Fetched}"
      "en_result (sc_entries s ! e) \<noteq> Some (Inl Cancelled)"
  shows "entries_ok (subscribe e r s)"
proof -
  have en: "entry_ok (sc_entries s ! e)" using assms(1,3) by (simp add: entries_ok_def)
  have "length (sc_callers s) \<notin> set (en_subscribers (sc_entries s ! e))"
    using assms(2,3) by (auto simp: callers_ok_def)
  then have "entry_ok ((sc_entries s ! e)\<lparr>en_subscribers := en_subscribers (sc_entries s ! e) @ [length (sc_callers s)]\<rparr>)"
    using en assms(4-6) by (auto simp: entry_ok_def)
  then show ?thesis using entries_ok_update [OF assms(1)] by simp
qed

lemma subscribe_data_ok:
  assumes "data_ok s" "e < length (sc_entries s)"
  shows "data_ok (subscribe e r s)"
proof -
  let ?en = "(sc_entries s ! e)\<lparr>en_subscribers := en_subscribers (sc_entries s ! e) @ [length (sc_callers s)]\<rparr>"
  have ans: "answered s k' x \<Longrightarrow> answered (subscribe e r s) k' x" for k' x
    by (rule answered_update [where en' = ?en]) (use assms(2) in simp_all)
  then have "settlement_ok s cl \<Longrightarrow> settlement_ok (subscribe e r s) cl" for cl by (rule answered_mono)
  moreover have "settlement_ok (subscribe e r s) \<lparr>cl_request = r, cl_entry = Some e, cl_settled = None\<rparr>"
    by (simp add: settlement_ok_def)
  ultimately show ?thesis using assms(1) ans by (auto simp: data_ok_def)
qed

lemma subscribe_slots_ok:
  assumes "slots_ok cfg s" "e < length (sc_entries s)"
  shows "slots_ok cfg (subscribe e r s)"
  using assms by (auto simp: slots_ok_def running_count_update)

lemma join_existing_ok:
  assumes ok: "scheduler_ok cfg s" and pend: "js_map_get (sc_pending s) (query_key r) = Some e"
  shows "scheduler_ok cfg (subscribe e r s)"
proof -
  have "(query_key r, e) \<in> set (sc_pending s)" using pend by (rule js_map_get_in)
  then have e: "e < length (sc_entries s)" "en_key (sc_entries s ! e) = query_key r" "en_subscribers (sc_entries s ! e) \<noteq> []"
    using ok by (auto simp: scheduler_ok_def pending_ok_def)
  then have en: "\<not> en_aborted (sc_entries s ! e)" "en_phase (sc_entries s ! e) \<in> {Queued, Starting, Fetching, Fetched}"
      "en_result (sc_entries s ! e) \<noteq> Some (Inl Cancelled)"
    using ok by (auto simp: scheduler_ok_def entries_ok_def entry_ok_def)
  have subs: "en_subscribers (sc_entries (subscribe e r s) ! i) = [] \<longleftrightarrow> en_subscribers (sc_entries s ! i) = []"
    "en_phase (sc_entries (subscribe e r s) ! i) = en_phase (sc_entries s ! i)"
    "en_key (sc_entries (subscribe e r s) ! i) = en_key (sc_entries s ! i)" for i
    using e by (cases "i = e"; simp)+
  have "queue_ok (subscribe e r s)" "pending_ok (subscribe e r s)"
    using ok unfolding scheduler_ok_def queue_ok_def pending_ok_def subs by simp_all
  moreover have "cache_ok cfg (subscribe e r s)" using ok by (simp add: scheduler_ok_def cache_ok_def)
  ultimately show ?thesis
    using ok subscribe_slots_ok [OF _ e(1)] subscribe_entries_ok [OF _ _ e(1) en] subscribe_callers_ok [OF _ e(1,2)]
      subscribe_data_ok [OF _ e(1)]
    by (simp add: scheduler_ok_def)
qed


text \<open>A new entry is appended, queued and pending; then its first caller subscribes.\<close>

definition enter :: "QueryRequest \<Rightarrow> ('d, 'e) scheduler \<Rightarrow> ('d, 'e) scheduler" where
  "enter r s = s\<lparr>sc_entries := sc_entries s @ [new_entry r],
     sc_pending := js_map_set (query_key r) (length (sc_entries s)) (sc_pending s),
     sc_queue := sc_queue s @ [length (sc_entries s)]\<rparr>"

lemma enter_simps [simp]:
  "sc_entries (enter r s) = sc_entries s @ [new_entry r]" "sc_queue (enter r s) = sc_queue s @ [length (sc_entries s)]"
  "sc_pending (enter r s) = js_map_set (query_key r) (length (sc_entries s)) (sc_pending s)"
  "sc_callers (enter r s) = sc_callers s" "sc_cache (enter r s) = sc_cache s" "sc_active (enter r s) = sc_active s"
  by (simp_all add: enter_def)

lemma join_nth:
  "i < length (sc_entries s) \<Longrightarrow> sc_entries (subscribe (length (sc_entries s)) r (enter r s)) ! i = sc_entries s ! i"
  "sc_entries (subscribe (length (sc_entries s)) r (enter r s)) ! length (sc_entries s) =
     (new_entry r)\<lparr>en_subscribers := [length (sc_callers s)]\<rparr>"
  "length (sc_entries (subscribe (length (sc_entries s)) r (enter r s))) = Suc (length (sc_entries s))"
  by (simp_all add: nth_append new_entry_def)

lemma join_queue_ok:
  assumes "queue_ok s"
  shows "queue_ok (subscribe (length (sc_entries s)) r (enter r s))" (is "queue_ok ?s2")
proof -
  let ?e = "length (sc_entries s)"
  have within: "i \<in> set (sc_queue s) \<Longrightarrow> i < ?e" for i using assms by (auto simp: queue_ok_def)
  have que: "sc_queue ?s2 = sc_queue s @ [?e]" by simp
  show ?thesis unfolding queue_ok_def join_nth(3) que
  proof (intro conjI allI)
    show "distinct (sc_queue s @ [?e])" using assms within by (auto simp: queue_ok_def)
    show "i \<in> set (sc_queue s @ [?e]) \<longleftrightarrow> i < Suc ?e \<and> en_phase (sc_entries ?s2 ! i) = Queued \<and>
        en_subscribers (sc_entries ?s2 ! i) \<noteq> []" for i
    proof (cases "i < ?e")
      case True
      then show ?thesis unfolding join_nth(1) [OF True] using assms by (auto simp: queue_ok_def)
    next
      case False
      then have "i \<notin> set (sc_queue s)" using within by blast
      then show ?thesis using False join_nth(2) [of s r] by (auto simp: new_entry_def)
    qed
  qed
qed

lemma join_pending_ok:
  assumes ok: "pending_ok s" and none: "js_map_get (sc_pending s) (query_key r) = None"
  shows "pending_ok (subscribe (length (sc_entries s)) r (enter r s))" (is "pending_ok ?s2")
proof -
  let ?e = "length (sc_entries s)" and ?k = "query_key r"
  have dist: "distinct (map fst (sc_pending s))" using ok by (simp add: pending_ok_def)
  have fresh: "(?k, i) \<notin> set (sc_pending s)" for i
    using none js_map_get_iff [OF dist] by (metis option.distinct(1))
  have pen: "sc_pending ?s2 = js_map_set ?k ?e (sc_pending s)" by simp
  show ?thesis unfolding pending_ok_def join_nth(3) pen
  proof (intro conjI allI)
    show "distinct (map fst (js_map_set ?k ?e (sc_pending s)))" using dist by simp
    show "(k, i) \<in> set (js_map_set ?k ?e (sc_pending s)) \<longleftrightarrow> i < Suc ?e \<and> en_key (sc_entries ?s2 ! i) = k \<and>
        en_subscribers (sc_entries ?s2 ! i) \<noteq> []" for k i
    proof (cases "i < ?e")
      case True
      then show ?thesis
        unfolding join_nth(1) [OF True] map_set_mem [OF dist] using ok fresh [of i] by (auto simp: pending_ok_def)
    next
      case False
      then have "(k, i) \<notin> set (sc_pending s)" using ok by (auto simp: pending_ok_def)
      then show ?thesis
        unfolding map_set_mem [OF dist] using False join_nth(2) [of s r] by (auto simp: new_entry_def less_Suc_eq)
    qed
  qed
qed

lemma enter_ok:
  assumes ok: "scheduler_ok cfg s"
  shows "slots_ok cfg (enter r s)" "callers_ok (enter r s)" "entries_ok (enter r s)" "data_ok (enter r s)"
proof -
  have "running_count (sc_entries s @ [new_entry r]) = running_count (sc_entries s)"
    by (simp add: running_count_def new_entry_def)
  then show "slots_ok cfg (enter r s)" using ok by (auto simp: scheduler_ok_def slots_ok_def)
  show "callers_ok (enter r s)"
    using ok by (auto simp: scheduler_ok_def callers_ok_def nth_append new_entry_def less_Suc_eq)
  show "entries_ok (enter r s)" using ok by (auto simp: scheduler_ok_def entries_ok_def entry_ok_def new_entry_def)
  have ans: "answered s k x \<Longrightarrow> answered (enter r s) k x" for k x by (auto simp: answered_def)
  then have "settlement_ok s cl \<Longrightarrow> settlement_ok (enter r s) cl" for cl by (rule answered_mono)
  then show "data_ok (enter r s)" using ok ans by (auto simp: scheduler_ok_def data_ok_def)
qed

lemma join_new_ok:
  assumes ok: "scheduler_ok cfg s" and none: "js_map_get (sc_pending s) (query_key r) = None"
  shows "scheduler_ok cfg (subscribe (length (sc_entries s)) r (enter r s))"
proof -
  let ?e = "length (sc_entries s)" and ?s1 = "enter r s"
  have new: "?e < length (sc_entries ?s1)" by simp
  have fields: "en_key (sc_entries ?s1 ! ?e) = query_key r" "\<not> en_aborted (sc_entries ?s1 ! ?e)"
      "en_phase (sc_entries ?s1 ! ?e) \<in> {Queued, Starting, Fetching, Fetched}"
      "en_result (sc_entries ?s1 ! ?e) \<noteq> Some (Inl Cancelled)"
    by (simp_all add: new_entry_def)
  note parts = enter_ok [OF ok, of r]
  have "cache_ok cfg (subscribe ?e r ?s1)" using ok by (simp add: scheduler_ok_def cache_ok_def)
  then show ?thesis
    using ok join_queue_ok [of s r] join_pending_ok [OF _ none] subscribe_slots_ok [OF parts(1) new, of r]
      subscribe_callers_ok [OF parts(2) new fields(1)] subscribe_entries_ok [OF parts(3,2) new fields(2-4), of r]
      subscribe_data_ok [OF parts(4) new, of r]
    by (simp add: scheduler_ok_def)
qed

lemma join_ok:
  assumes "scheduler_ok cfg s" "join_entry r s = (e, s')"
  shows "scheduler_ok cfg (subscribe e r s')"
  using assms join_existing_ok join_new_ok [of cfg s r, unfolded enter_def]
  by (auto simp: join_entry_def Let_def split: option.splits)

lemma saturated_add_caller [simp]: "saturated cfg (add_caller cl s) = saturated cfg s"
  by (simp add: saturated_def)

lemma schedule_ok:
  assumes whole: "whole_limits cfg" and ok: "scheduler_ok cfg s" and sat: "saturated cfg s"
  shows "scheduler_ok cfg (schedule cfg r a now s) \<and> saturated cfg (schedule cfg r a now s)"
proof -
  let ?k = "query_key r"
  have joined: "scheduler_ok cfg (let (e, s') = join_entry r s1 in drain cfg (subscribe e r s')) \<and>
      saturated cfg (let (e, s') = join_entry r s1 in drain cfg (subscribe e r s'))" if "scheduler_ok cfg s1" for s1
    using drain_ok [OF whole] join_ok [OF that] by (auto split: prod.splits)
  consider "a" | d x where "\<not> a" "js_map_get (sc_cache s) ?k = Some (d, x)" "js_less (Fin now) x"
    | d x where "\<not> a" "js_map_get (sc_cache s) ?k = Some (d, x)" "\<not> js_less (Fin now) x"
    | "\<not> a" "js_map_get (sc_cache s) ?k = None"
    by (cases "js_map_get (sc_cache s) ?k") auto
  then show ?thesis
  proof cases
    case 1
    then show ?thesis
      using add_settled_ok [OF ok, of "\<lparr>cl_request = r, cl_entry = None, cl_settled = Some Aborted\<rparr>"] sat
      by (simp add: schedule_def settlement_ok_def Let_def)
  next
    case (2 d x)
    let ?s1 = "s\<lparr>sc_cache := js_map_set ?k (d, x) (map_delete ?k (sc_cache s))\<rparr>"
    have ok1: "scheduler_ok cfg ?s1" using cache_renew_ok [OF ok 2(2)] .
    have "(?k, d, x) \<in> set (sc_cache s)" using 2(2) by (rule js_map_get_in)
    then have "answered s ?k (Inr d)" using ok by (auto simp: scheduler_ok_def data_ok_def)
    then have "answered ?s1 ?k (Inr d)" using answered_entries [of ?s1 s] by simp
    then have "settlement_ok ?s1 \<lparr>cl_request = r, cl_entry = None, cl_settled = Some (Resolved (Some d))\<rparr>"
      by (auto simp: settlement_ok_def settlement_of_def)
    then have "scheduler_ok cfg (add_caller \<lparr>cl_request = r, cl_entry = None, cl_settled = Some (Resolved (Some d))\<rparr> ?s1)"
      using add_settled_ok [OF ok1] by simp
    moreover have "saturated cfg ?s1" using sat by (simp add: saturated_def)
    ultimately show ?thesis using 2 by (simp add: schedule_def Let_def)
  next
    case (3 d x)
    then show ?thesis using joined [OF cache_delete_ok [OF ok]] by (simp add: schedule_def Let_def)
  next
    case 4
    then show ?thesis using joined [OF ok] by (simp add: schedule_def Let_def)
  qed
qed


section \<open>Turns of an entry\<close>

text \<open>An entry that has left the queue moves on with its subscribers.\<close>

lemma advance_ok:
  assumes ok: "scheduler_ok cfg s" and e: "e < length (sc_entries s)"
    and sig: "entry_sig en' = entry_sig (sc_entries s ! e)" and en': "entry_ok en'"
    and run: "running (en_phase (sc_entries s ! e))" "running (en_phase en')"
    and res: "en_result (sc_entries s ! e) \<noteq> None \<Longrightarrow> en_result en' = en_result (sc_entries s ! e)"
  shows "scheduler_ok cfg (s\<lparr>sc_entries := (sc_entries s)[e := en']\<rparr>)" (is "scheduler_ok cfg ?s'")
proof -
  have sigs: "map entry_sig (sc_entries ?s') = map entry_sig (sc_entries s)" using sig_update [OF sig] by simp
  have phase: "en_phase (sc_entries s ! e) \<noteq> Queued" "en_phase en' \<noteq> Queued" using run by auto
  have "slots_ok cfg ?s'" using ok run e by (auto simp: scheduler_ok_def slots_ok_def running_count_update)
  moreover have "queue_ok ?s'"
    unfolding queue_ok_def
  proof (intro conjI allI)
    show "distinct (sc_queue ?s')" using ok by (simp add: scheduler_ok_def queue_ok_def)
    show "i \<in> set (sc_queue ?s') \<longleftrightarrow> i < length (sc_entries ?s') \<and> en_phase (sc_entries ?s' ! i) = Queued \<and>
        en_subscribers (sc_entries ?s' ! i) \<noteq> []" for i
      using ok e phase by (cases "i = e") (auto simp: scheduler_ok_def queue_ok_def)
  qed
  moreover have "pending_ok ?s'" "callers_ok ?s'"
    using ok pending_ok_cong [OF sigs] callers_ok_cong [OF sigs] by (simp_all add: scheduler_ok_def)
  moreover have "entries_ok ?s'" using ok en' entries_ok_update [of s en' ?s' e] by (simp add: scheduler_ok_def)
  moreover have "data_ok ?s'"
    using ok data_ok_update [of s e ?s' en'] e sig res by (simp add: scheduler_ok_def entry_sig_def)
  moreover have "cache_ok cfg ?s'" using ok by (simp add: scheduler_ok_def cache_ok_def)
  ultimately show ?thesis by (simp add: scheduler_ok_def)
qed

text \<open>Some subscribers of an entry are settled and leave it.\<close>

text \<open>The step from \<open>s\<close> to \<open>s'\<close> settles the callers \<open>S\<close> of entry \<open>e\<close> with \<open>x\<close> and takes them off it.\<close>

definition leaves :: "nat \<Rightarrow> nat set \<Rightarrow> ('d, 'e) settlement \<Rightarrow> ('d, 'e) entry \<Rightarrow>
    ('d, 'e) scheduler \<Rightarrow> ('d, 'e) scheduler \<Rightarrow> bool" where
  "leaves e S x en' s s' \<longleftrightarrow>
     e < length (sc_entries s) \<and> S \<subseteq> set (en_subscribers (sc_entries s ! e)) \<and>
     sc_entries s' = (sc_entries s)[e := en'] \<and>
     en_key en' = en_key (sc_entries s ! e) \<and> en_result en' = en_result (sc_entries s ! e) \<and>
     en_subscribers en' = filter (\<lambda>c. c \<notin> S) (en_subscribers (sc_entries s ! e)) \<and>
     length (sc_callers s') = length (sc_callers s) \<and>
     (\<forall>c < length (sc_callers s). sc_callers s' ! c =
        (if c \<in> S then (sc_callers s ! c)\<lparr>cl_settled := Some x\<rparr> else sc_callers s ! c))"

lemma leavesD:
  assumes "leaves e S x en' s s'"
  shows "e < length (sc_entries s)" "S \<subseteq> set (en_subscribers (sc_entries s ! e))"
    "sc_entries s' = (sc_entries s)[e := en']" "length (sc_entries s') = length (sc_entries s)"
    "sc_entries s' ! i = (if i = e then en' else sc_entries s ! i)"
    "en_key en' = en_key (sc_entries s ! e)" "en_result en' = en_result (sc_entries s ! e)"
    "en_subscribers en' = filter (\<lambda>c. c \<notin> S) (en_subscribers (sc_entries s ! e))"
    "length (sc_callers s') = length (sc_callers s)"
    "c < length (sc_callers s) \<Longrightarrow> sc_callers s' ! c =
      (if c \<in> S then (sc_callers s ! c)\<lparr>cl_settled := Some x\<rparr> else sc_callers s ! c)"
  using assms by (auto simp: leaves_def nth_list_update)

lemma leaves_stay:
  assumes "leaves e S x en' s s'" "en_subscribers en' \<noteq> []"
  shows "en_subscribers (sc_entries s ! e) \<noteq> []"
  using assms(2) leavesD(8) [OF assms(1)] by auto

lemma leaves_queue_ok:
  assumes lv: "leaves e S x en' s s'" and ok: "queue_ok s"
    and phase: "en_phase en' = Queued \<longleftrightarrow> en_phase (sc_entries s ! e) = Queued"
    and que: "sc_queue s' = (if en_subscribers en' = [] then remove1 e (sc_queue s) else sc_queue s)"
  shows "queue_ok s'"
  unfolding queue_ok_def leavesD(4,5) [OF lv]
proof (intro conjI allI)
  have dq: "distinct (sc_queue s)" using ok by (simp add: queue_ok_def)
  then show "distinct (sc_queue s')" using que by simp
  have old: "i \<in> set (sc_queue s) \<longleftrightarrow> i < length (sc_entries s) \<and> en_phase (sc_entries s ! i) = Queued \<and>
      en_subscribers (sc_entries s ! i) \<noteq> []" for i using ok by (simp add: queue_ok_def)
  have mem: "i \<in> set (sc_queue s') \<longleftrightarrow> i \<in> set (sc_queue s) \<and> (i = e \<longrightarrow> en_subscribers en' \<noteq> [])" for i
    using que dq by auto
  show "i \<in> set (sc_queue s') \<longleftrightarrow> i < length (sc_entries s) \<and>
      en_phase (if i = e then en' else sc_entries s ! i) = Queued \<and>
      en_subscribers (if i = e then en' else sc_entries s ! i) \<noteq> []" for i
    unfolding mem old using leavesD(1) [OF lv] phase leaves_stay [OF lv] by (cases "i = e") auto
qed

lemma leaves_pending_mem:
  assumes lv: "leaves e S x en' s s'" and ok: "pending_ok s"
    and pend: "sc_pending s' = (if en_subscribers en' = [] \<and> js_map_get (sc_pending s) (en_key en') = Some e
      then map_delete (en_key en') (sc_pending s) else sc_pending s)"
  shows "(k, i) \<in> set (sc_pending s') \<longleftrightarrow> (k, i) \<in> set (sc_pending s) \<and> (i = e \<longrightarrow> en_subscribers en' \<noteq> [])"
proof -
  note e = leavesD(1) [OF lv] and en' = leavesD(6-8) [OF lv]
  have dp: "distinct (map fst (sc_pending s))" using ok by (simp add: pending_ok_def)
  have old: "(k, i) \<in> set (sc_pending s) \<longleftrightarrow> i < length (sc_entries s) \<and> en_key (sc_entries s ! i) = k \<and>
      en_subscribers (sc_entries s ! i) \<noteq> []" for k i using ok by (simp add: pending_ok_def)
  have get: "js_map_get (sc_pending s) k = Some i \<longleftrightarrow> (k, i) \<in> set (sc_pending s)" for k i
    using js_map_get_iff [OF dp] .
  have uniq: "(k, i) \<in> set (sc_pending s) \<Longrightarrow> (k, j) \<in> set (sc_pending s) \<Longrightarrow> i = j" for k i j
    using dp by (metis eq_key_imp_eq_value)
  show ?thesis
  proof (cases "en_subscribers en' = []")
    case True
    show ?thesis
    proof (cases "(en_key en', e) \<in> set (sc_pending s)")
      case in_p: True
      then have "sc_pending s' = map_delete (en_key en') (sc_pending s)" using pend True get by simp
      then show ?thesis
        using True in_p uniq [OF in_p] old [of k e] en'(1) by (auto simp: map_delete_mem)
    next
      case False
      then have "sc_pending s' = sc_pending s" using pend get by simp
      then show ?thesis using True False old [of k e] en'(1) e by auto
    qed
  next
    case False
    then show ?thesis using pend by simp
  qed
qed

lemma leaves_pending_ok:
  assumes lv: "leaves e S x en' s s'" and ok: "pending_ok s"
    and pend: "sc_pending s' = (if en_subscribers en' = [] \<and> js_map_get (sc_pending s) (en_key en') = Some e
      then map_delete (en_key en') (sc_pending s) else sc_pending s)"
  shows "pending_ok s'"
  unfolding pending_ok_def leavesD(4,5) [OF lv]
proof (intro conjI allI)
  show "distinct (map fst (sc_pending s'))" using ok pend map_delete_distinct by (auto simp: pending_ok_def)
  have old: "(k, i) \<in> set (sc_pending s) \<longleftrightarrow> i < length (sc_entries s) \<and> en_key (sc_entries s ! i) = k \<and>
      en_subscribers (sc_entries s ! i) \<noteq> []" for k i using ok by (simp add: pending_ok_def)
  show "(k, i) \<in> set (sc_pending s') \<longleftrightarrow> i < length (sc_entries s) \<and>
      en_key (if i = e then en' else sc_entries s ! i) = k \<and>
      en_subscribers (if i = e then en' else sc_entries s ! i) \<noteq> []" for k i
    unfolding leaves_pending_mem [OF lv ok pend] old using leavesD(6) [OF lv] leaves_stay [OF lv] by (cases "i = e") auto
qed

lemma leaves_subscribers:
  assumes lv: "leaves e S x en' s s'" and ok: "callers_ok s" and i: "i < length (sc_entries s)"
  shows "c \<in> set (en_subscribers (if i = e then en' else sc_entries s ! i)) \<longleftrightarrow>
    c \<in> set (en_subscribers (sc_entries s ! i)) \<and> c \<notin> S"
proof -
  have owner: "cl_entry (sc_callers s ! c) = Some j"
    if "j < length (sc_entries s)" "c \<in> set (en_subscribers (sc_entries s ! j))" for j
    using ok that by (auto simp: callers_ok_def)
  show ?thesis
  proof (cases "i = e")
    case False
    then have "c \<notin> S" if "c \<in> set (en_subscribers (sc_entries s ! i))"
      using owner [OF i that] owner [OF leavesD(1) [OF lv]] leavesD(2) [OF lv] by auto
    then show ?thesis using False by auto
  qed (simp add: leavesD(8) [OF lv])
qed

lemma leaves_callers_ok:
  assumes lv: "leaves e S x en' s s'" and ok: "callers_ok s"
  shows "callers_ok s'"
  unfolding callers_ok_def leavesD(4,5,9) [OF lv]
proof (intro conjI allI ballI impI)
  fix i c
  assume i: "i < length (sc_entries s)" and c: "c \<in> set (en_subscribers (if i = e then en' else sc_entries s ! i))"
  have c': "c \<in> set (en_subscribers (sc_entries s ! i))" "c \<notin> S" using leaves_subscribers [OF lv ok i] c by auto
  have old: "c < length (sc_callers s)" "cl_key (sc_callers s ! c) = en_key (sc_entries s ! i)"
    "cl_entry (sc_callers s ! c) = Some i"
    using ok i c'(1) by (auto simp: callers_ok_def)
  show "c < length (sc_callers s)" by (rule old(1))
  show "cl_key (sc_callers s' ! c) = en_key (if i = e then en' else sc_entries s ! i)"
    "cl_entry (sc_callers s' ! c) = Some i"
    using leavesD(10) [OF lv old(1)] leavesD(6) [OF lv] old(2,3) c'(2) by auto
next
  fix c assume c: "c < length (sc_callers s)"
  have "cl_settled (sc_callers s ! c) = None \<longleftrightarrow> (\<exists>i < length (sc_entries s). c \<in> set (en_subscribers (sc_entries s ! i)))"
    using ok c by (simp add: callers_ok_def)
  moreover have "(\<exists>i < length (sc_entries s). c \<in> set (en_subscribers (if i = e then en' else sc_entries s ! i))) \<longleftrightarrow>
      (\<exists>i < length (sc_entries s). c \<in> set (en_subscribers (sc_entries s ! i))) \<and> c \<notin> S"
    using leaves_subscribers [OF lv ok] by blast
  ultimately show "cl_settled (sc_callers s' ! c) = None \<longleftrightarrow>
      (\<exists>i < length (sc_entries s). c \<in> set (en_subscribers (if i = e then en' else sc_entries s ! i)))"
    using leavesD(10) [OF lv c] by (cases "c \<in> S") auto
qed

lemma leaves_data_ok:
  assumes lv: "leaves e S x en' s s'" and ok: "callers_ok s" and data: "data_ok s"
    and x: "x = Aborted \<or> (\<exists>r. answered s (en_key en') r \<and> settlement_of r = x)"
    and cache: "\<forall>(k, d, y) \<in> set (sc_cache s'). answered s k (Inr d)"
  shows "data_ok s'"
proof -
  note e = leavesD(1) [OF lv] and S = leavesD(2) [OF lv] and ents = leavesD(3) [OF lv] and en' = leavesD(6-8) [OF lv] and len = leavesD(9) [OF lv] and cl = leavesD(10) [OF lv]
  have ans: "answered s k r \<Longrightarrow> answered s' k r" for k r
    by (rule answered_update [OF _ e ents]) (use en'(1,2) in auto)
  have "settlement_ok s' (sc_callers s' ! c)" if c: "c < length (sc_callers s)" for c
  proof (cases "c \<in> S")
    case True
    then have "cl_key (sc_callers s ! c) = en_key en'" using ok e S en'(1) by (auto simp: callers_ok_def)
    then show ?thesis using cl [OF c] True x ans
      by (auto simp: settlement_ok_def split: settlement.splits)
  next
    case False
    have "settlement_ok s (sc_callers s ! c)" using data c by (simp add: data_ok_def)
    then show ?thesis using cl [OF c] False answered_mono [OF ans] by auto
  qed
  then have "\<forall>cl \<in> set (sc_callers s'). settlement_ok s' cl" using len by (auto simp: in_set_conv_nth)
  then show ?thesis using cache ans by (auto simp: data_ok_def)
qed

lemma release_ok:
  assumes ok: "scheduler_ok cfg s" and lv: "leaves e S x en' s s'" and en': "entry_ok en'"
    and phase: "running (en_phase en') = running (en_phase (sc_entries s ! e))"
      "en_phase en' = Queued \<longleftrightarrow> en_phase (sc_entries s ! e) = Queued"
    and pend: "sc_pending s' = (if en_subscribers en' = [] \<and> js_map_get (sc_pending s) (en_key en') = Some e
      then map_delete (en_key en') (sc_pending s) else sc_pending s)"
    and que: "sc_queue s' = (if en_subscribers en' = [] then remove1 e (sc_queue s) else sc_queue s)"
    and x: "x = Aborted \<or> (\<exists>r. answered s (en_key en') r \<and> settlement_of r = x)"
    and cache: "cache_ok cfg s'" "\<forall>(k, d, y) \<in> set (sc_cache s'). answered s k (Inr d)"
    and act: "sc_active s' = sc_active s"
  shows "scheduler_ok cfg s'"
proof -
  have parts: "slots_ok cfg s" "queue_ok s" "pending_ok s" "entries_ok s" "callers_ok s" "data_ok s"
    using ok by (auto simp: scheduler_ok_def)
  have "slots_ok cfg s'"
    using parts(1) leavesD(1,3) [OF lv] phase(1) act by (auto simp: slots_ok_def running_count_update)
  moreover have "entries_ok s'" using entries_ok_update [OF parts(4) en' leavesD(3) [OF lv]] .
  ultimately show ?thesis
    using leaves_queue_ok [OF lv parts(2) phase(2) que] leaves_pending_ok [OF lv parts(3) pend]
      leaves_callers_ok [OF lv parts(5)] leaves_data_ok [OF lv parts(5,6) x cache(2)] cache(1)
    by (simp add: scheduler_ok_def)
qed

lemma settle_caller_nth:
  assumes "c < length cls" "cl_settled (cls ! c) = None"
  shows "settle_caller x c cls ! i = (if i = c then (cls ! c)\<lparr>cl_settled := Some x\<rparr> else cls ! i)"
    "length (settle_caller x c cls) = length cls"
  using assms by (simp_all add: settle_caller_def nth_list_update)

lemma fold_settle_nth:
  assumes "distinct cs" "\<forall>c \<in> set cs. c < length cls \<and> cl_settled (cls ! c) = None"
  shows "fold (settle_caller x) cs cls ! i = (if i \<in> set cs then (cls ! i)\<lparr>cl_settled := Some x\<rparr> else cls ! i) \<and>
    length (fold (settle_caller x) cs cls) = length cls"
  using assms
proof (induction cs arbitrary: cls)
  case (Cons c cs)
  have "c < length cls" "cl_settled (cls ! c) = None" using Cons.prems(2) by auto
  note one = settle_caller_nth [OF this]
  have "\<forall>d \<in> set cs. d < length (settle_caller x c cls) \<and> cl_settled (settle_caller x c cls ! d) = None"
    using Cons.prems one by auto
  from Cons.IH [OF _ this] show ?case using Cons.prems(1) one by auto
qed simp

lemma subscriber_waits:
  assumes "scheduler_ok cfg s" "e < length (sc_entries s)" "c \<in> set (en_subscribers (sc_entries s ! e))"
  shows "c < length (sc_callers s)" "cl_settled (sc_callers s ! c) = None"
  using assms by (auto simp: scheduler_ok_def callers_ok_def)

lemma entry_ok_at: "scheduler_ok cfg s \<Longrightarrow> e < length (sc_entries s) \<Longrightarrow> entry_ok (sc_entries s ! e)"
  by (simp add: scheduler_ok_def entries_ok_def)

lemma cache_facts:
  assumes "scheduler_ok cfg s"
  shows "cache_ok cfg s" "\<forall>(k, d, y) \<in> set (sc_cache s). answered s k (Inr d)"
  using assms by (auto simp: scheduler_ok_def data_ok_def)

lemma abort_ok:
  assumes ok: "scheduler_ok cfg s" and sat: "saturated cfg s" and e: "e < length (sc_entries s)"
    and c: "c \<in> set (en_subscribers (sc_entries s ! e))"
  shows "scheduler_ok cfg (abort_caller e c s) \<and> saturated cfg (abort_caller e c s)"
proof
  let ?en = "sc_entries s ! e"
  let ?subs = "filter (\<lambda>d. d \<noteq> c) (en_subscribers ?en)"
  let ?en' = "?en\<lparr>en_subscribers := ?subs, en_aborted := (if ?subs = [] then True else en_aborted ?en)\<rparr>"
  note waits = subscriber_waits [OF ok e c]
  have en_ok: "entry_ok ?en" using entry_ok_at [OF ok e] .
  have ents: "sc_entries (abort_caller e c s) = (sc_entries s)[e := ?en']"
    using e by (simp add: abort_caller_def Let_def)
  have que: "sc_queue (abort_caller e c s) = (if ?subs = [] then remove1 e (sc_queue s) else sc_queue s)"
    using e by (simp add: abort_caller_def Let_def)
  have act: "sc_active (abort_caller e c s) = sc_active s" and cac: "sc_cache (abort_caller e c s) = sc_cache s"
    and cal: "sc_callers (abort_caller e c s) = settle_caller Aborted c (sc_callers s)"
    by (simp_all add: abort_caller_def Let_def)
  have pen: "sc_pending (abort_caller e c s) = (if ?subs = [] \<and> js_map_get (sc_pending s) (en_key ?en) = Some e
      then map_delete (en_key ?en) (sc_pending s) else sc_pending s)"
    using e by (simp add: abort_caller_def Let_def forget_pending_def)
  show "scheduler_ok cfg (abort_caller e c s)"
  proof (rule release_ok [OF ok, where e = e and S = "{c}" and x = Aborted and en' = ?en'])
    show "leaves e {c} Aborted ?en' s (abort_caller e c s)"
      using e c ents cal settle_caller_nth [OF waits] by (auto simp: leaves_def)
    show "entry_ok ?en'" using en_ok by (auto simp: entry_ok_def)
    show "cache_ok cfg (abort_caller e c s)" using cache_facts(1) [OF ok] by (simp add: cache_ok_def cac)
  qed (use c ents que pen act cal cac settle_caller_nth [OF waits] cache_facts(2) [OF ok] in auto)
  show "saturated cfg (abort_caller e c s)" using sat que act by (auto simp: saturated_def)
qed

lemma start_ok:
  assumes ok: "scheduler_ok cfg s" and p: "in_phase Starting e s"
  shows "scheduler_ok cfg (start_entry e s)"
proof -
  have e: "e < length (sc_entries s)" "en_phase (sc_entries s ! e) = Starting" using p by (auto simp: in_phase_def)
  have en: "entry_ok (sc_entries s ! e)" using entry_ok_at [OF ok e(1)] .
  let ?en' = "if en_aborted (sc_entries s ! e) then (sc_entries s ! e)\<lparr>en_phase := Fetched, en_result := Some (Inl Cancelled)\<rparr>
    else (sc_entries s ! e)\<lparr>en_phase := Fetching\<rparr>"
  have "start_entry e s = s\<lparr>sc_entries := (sc_entries s)[e := ?en']\<rparr>"
    by (simp add: start_entry_def update_entry_def)
  moreover have "entry_ok ?en'" using en e by (auto simp: entry_ok_def)
  ultimately show ?thesis using advance_ok [OF ok e(1), of ?en'] en e by (simp add: entry_sig_def entry_ok_def)
qed

lemma fetch_settled_ok:
  assumes ok: "scheduler_ok cfg s" and p: "in_phase Fetching e s"
  shows "scheduler_ok cfg (fetch_settled e res s)"
proof -
  have e: "e < length (sc_entries s)" "en_phase (sc_entries s ! e) = Fetching" using p by (auto simp: in_phase_def)
  have en: "entry_ok (sc_entries s ! e)" using entry_ok_at [OF ok e(1)] .
  let ?en' = "(sc_entries s ! e)\<lparr>en_phase := Fetched,
    en_result := Some (case res of Inr d \<Rightarrow> Inr d | Inl x \<Rightarrow> Inl (Fetch_error x))\<rparr>"
  have "fetch_settled e res s = s\<lparr>sc_entries := (sc_entries s)[e := ?en']\<rparr>"
    by (simp add: fetch_settled_def update_entry_def)
  moreover have "entry_ok ?en'" using en e by (auto simp: entry_ok_def split: sum.splits)
  ultimately show ?thesis using advance_ok [OF ok e(1), of ?en'] en e by (simp add: entry_sig_def entry_ok_def)
qed

lemma evict_suffix: "\<exists>i. evict n m = drop i m"
  by (induction m) (auto intro: exI [of _ 0] exI [of _ "Suc _"])

lemma evict_size: "n \<noteq> NaN \<Longrightarrow> evict n m = [] \<or> js_ge n (Fin (of_nat (length (evict n m))))"
proof (induction m)
  case (Cons p m)
  have "js_less a (Fin b) \<or> js_ge a (Fin b)" if "a \<noteq> NaN" for a b
    using that by (cases a) (auto simp: js_ge_def)
  then show ?case using Cons by auto
qed simp

lemma store_answer_cache:
  assumes ok: "scheduler_ok cfg s" and ans: "answered s (en_key (sc_entries s ! e)) (Inr d)"
  shows "cache_ok cfg (store_answer cfg now e d s)"
    "\<forall>(k, d, y) \<in> set (sc_cache (store_answer cfg now e d s)). answered s k (Inr d)"
    "sc_entries (store_answer cfg now e d s) = sc_entries s" "sc_callers (store_answer cfg now e d s) = sc_callers s"
    "sc_pending (store_answer cfg now e d s) = sc_pending s" "sc_queue (store_answer cfg now e d s) = sc_queue s"
    "sc_active (store_answer cfg now e d s) = sc_active s"
proof -
  let ?k = "en_key (sc_entries s ! e)"
  let ?m = "js_map_set ?k (d, js_add (Fin now) (lim_cacheTTL cfg)) (map_delete ?k (sc_cache s))"
  note facts = cache_facts [OF ok]
  have dist: "distinct (map fst (map_delete ?k (sc_cache s)))"
    using facts(1) by (simp add: cache_ok_def map_delete_distinct)
  obtain n where n: "evict (lim_cacheSize cfg) ?m = drop n ?m" using evict_suffix by blast
  have dist': "distinct (map fst (evict (lim_cacheSize cfg) ?m))"
    unfolding n using dist by (metis distinct_drop distinct_keys_js_map_set drop_map)
  have mem: "(k, v) \<in> set (evict (lim_cacheSize cfg) ?m) \<Longrightarrow> (k, v) \<in> set (sc_cache s) \<or> k = ?k \<and> fst v = d" for k v
  proof -
    assume "(k, v) \<in> set (evict (lim_cacheSize cfg) ?m)"
    then have "(k, v) \<in> set ?m" unfolding n by (rule in_set_dropD)
    then have "(k, v) = (?k, d, js_add (Fin now) (lim_cacheTTL cfg)) \<or> (k, v) \<in> set (map_delete ?k (sc_cache s))"
      by (rule set_js_map_set)
    then show "(k, v) \<in> set (sc_cache s) \<or> k = ?k \<and> fst v = d" by (auto simp: map_delete_def)
  qed
  show "cache_ok cfg (store_answer cfg now e d s)"
  proof (cases "js_less (Fin 0) (lim_cacheSize cfg)")
    case True
    then have "lim_cacheSize cfg \<noteq> NaN" by auto
    then show ?thesis using facts(1) dist' evict_size by (auto simp: cache_ok_def store_answer_def Let_def)
  next
    case False
    then show ?thesis using facts(1) by (auto simp: cache_ok_def store_answer_def Let_def)
  qed
  show "\<forall>(k, d, y) \<in> set (sc_cache (store_answer cfg now e d s)). answered s k (Inr d)"
  proof (cases "sc_cache (store_answer cfg now e d s) = sc_cache s")
    case True
    then show ?thesis using facts(2) by simp
  next
    case False
    then have "sc_cache (store_answer cfg now e d s) = evict (lim_cacheSize cfg) ?m"
      by (auto simp: store_answer_def Let_def split: if_splits)
    then show ?thesis using facts(2) mem ans by force
  qed
qed (simp_all add: store_answer_def Let_def)

lemma handle_ok:
  assumes ok: "scheduler_ok cfg s" and sat: "saturated cfg s" and p: "in_phase Fetched e s"
  shows "scheduler_ok cfg (handle_result cfg now e s) \<and> saturated cfg (handle_result cfg now e s)"
proof
  let ?en = "sc_entries s ! e"
  let ?en' = "?en\<lparr>en_subscribers := [], en_phase := Finishing\<rparr>"
  have e: "e < length (sc_entries s)" "en_phase ?en = Fetched" using p by (auto simp: in_phase_def)
  have en: "entry_ok ?en" using entry_ok_at [OF ok e(1)] .
  then obtain r where r: "en_result ?en = Some r" using e(2) by (auto simp: entry_ok_def)
  define s1 where "s1 = (case r of Inr d \<Rightarrow> store_answer cfg now e d s | Inl x \<Rightarrow> s)"
  have ans: "answered s (en_key ?en) r" using r e(1) by (auto simp: answered_def)
  have s1: "cache_ok cfg s1" "\<forall>(k, d, y) \<in> set (sc_cache s1). answered s k (Inr d)"
    "sc_entries s1 = sc_entries s" "sc_callers s1 = sc_callers s" "sc_pending s1 = sc_pending s"
    "sc_queue s1 = sc_queue s" "sc_active s1 = sc_active s"
    using store_answer_cache [OF ok, of e _ now] ans cache_facts [OF ok] unfolding s1_def by (cases r; simp)+
  define s' where "s' = handle_result cfg now e s"
  have s': "s' = update_entry e (\<lambda>en. en\<lparr>en_phase := Finishing\<rparr>) (settle e r s1)"
    by (simp add: s'_def handle_result_def Let_def r s1_def)
  have facts: "sc_entries s' = (sc_entries s)[e := ?en']" "sc_queue s' = sc_queue s" "sc_active s' = sc_active s"
      "sc_cache s' = sc_cache s1"
      "sc_callers s' = fold (settle_caller (settlement_of r)) (en_subscribers ?en) (sc_callers s)"
      "sc_pending s' = (if js_map_get (sc_pending s) (en_key ?en) = Some e
        then map_delete (en_key ?en) (sc_pending s) else sc_pending s)"
    using e(1) s1 by (simp_all add: s' settle_def Let_def forget_pending_def)
  have fold: "fold (settle_caller (settlement_of r)) (en_subscribers ?en) (sc_callers s) ! i =
      (if i \<in> set (en_subscribers ?en) then (sc_callers s ! i)\<lparr>cl_settled := Some (settlement_of r)\<rparr> else sc_callers s ! i) \<and>
      length (fold (settle_caller (settlement_of r)) (en_subscribers ?en) (sc_callers s)) = length (sc_callers s)" for i
    using fold_settle_nth [of "en_subscribers ?en" "sc_callers s"] en subscriber_waits [OF ok e(1)]
    by (simp add: entry_ok_def)
  have queue: "e \<notin> set (sc_queue s)" using ok e(2) by (auto simp: scheduler_ok_def queue_ok_def)
  have "scheduler_ok cfg s'"
  proof (rule release_ok [OF ok, where e = e and S = "set (en_subscribers ?en)" and x = "settlement_of r" and en' = ?en'])
    show "leaves e (set (en_subscribers ?en)) (settlement_of r) ?en' s s'" using facts fold e by (auto simp: leaves_def)
    show "entry_ok ?en'" using en by (auto simp: entry_ok_def)
    show "cache_ok cfg s'" using s1(1) by (simp add: cache_ok_def facts)
    show "settlement_of r = Aborted \<or> (\<exists>r'. answered s (en_key ?en') r' \<and> settlement_of r' = settlement_of r)"
      using ans by auto
    show "sc_queue s' = (if en_subscribers ?en' = [] then remove1 e (sc_queue s) else sc_queue s)"
      using queue by (simp add: facts remove1_idem)
  qed (use facts fold s1(2) e in auto)
  then show "scheduler_ok cfg (handle_result cfg now e s)" by (simp add: s'_def)
  show "saturated cfg (handle_result cfg now e s)" using sat facts by (simp add: saturated_def s'_def)
qed

lemma retire_ok:
  assumes ok: "scheduler_ok cfg s" and p: "in_phase Finishing e s"
  shows "scheduler_ok cfg (update_entry e (\<lambda>en. en\<lparr>en_phase := Finished\<rparr>) (s\<lparr>sc_active := sc_active s - 1\<rparr>))"
    and "finish_entry cfg e s =
      drain cfg (update_entry e (\<lambda>en. en\<lparr>en_phase := Finished\<rparr>) (s\<lparr>sc_active := sc_active s - 1\<rparr>))"
proof -
  let ?en = "sc_entries s ! e"
  let ?s1 = "update_entry e (\<lambda>en. en\<lparr>en_phase := Finished\<rparr>) (s\<lparr>sc_active := sc_active s - 1\<rparr>)"
  have e: "e < length (sc_entries s)" "en_phase ?en = Finishing" using p by (auto simp: in_phase_def)
  have en: "entry_ok ?en" using entry_ok_at [OF ok e(1)] .
  then have subs: "en_subscribers ?en = []" using e(2) by (auto simp: entry_ok_def)
  have dist: "distinct (map fst (sc_pending s))" using ok by (simp add: scheduler_ok_def pending_ok_def)
  have "js_map_get (sc_pending s) (en_key ?en) \<noteq> Some e"
    using js_map_get_iff [OF dist] ok subs by (auto simp: scheduler_ok_def pending_ok_def)
  then have forget: "forget_pending e ?s1 = ?s1" using e(1) by (simp add: forget_pending_def Let_def)
  have sig: "map entry_sig (sc_entries ?s1) = map entry_sig (sc_entries s)"
    using sig_update [of "?en\<lparr>en_phase := Finished\<rparr>" s e] by (simp add: entry_sig_def)
  have fewer: "js_ge (lim_concurrency cfg) (Fin (of_int (sc_active s - 1)))"
    if "js_ge (lim_concurrency cfg) (Fin (of_int (sc_active s)))"
    using that by (cases "lim_concurrency cfg") (auto simp: js_ge_def)
  have "slots_ok cfg ?s1"
    using ok e fewer running_count_pos [OF e(1)]
    by (auto simp: scheduler_ok_def slots_ok_def running_count_update)
  moreover have "queue_ok ?s1"
    unfolding queue_ok_def
  proof (intro conjI allI)
    show "distinct (sc_queue ?s1)" using ok by (simp add: scheduler_ok_def queue_ok_def)
    show "i \<in> set (sc_queue ?s1) \<longleftrightarrow> i < length (sc_entries ?s1) \<and> en_phase (sc_entries ?s1 ! i) = Queued \<and>
        en_subscribers (sc_entries ?s1 ! i) \<noteq> []" for i
      using ok e by (cases "i = e") (auto simp: scheduler_ok_def queue_ok_def)
  qed
  moreover have "pending_ok ?s1" "callers_ok ?s1"
    using ok pending_ok_cong [OF sig] callers_ok_cong [OF sig] by (simp_all add: scheduler_ok_def)
  moreover have "entries_ok ?s1"
    using ok en subs entries_ok_update [of s "?en\<lparr>en_phase := Finished\<rparr>" ?s1 e]
    by (simp add: scheduler_ok_def entry_ok_def)
  moreover have "data_ok ?s1"
    using ok data_ok_update [of s e ?s1 "?en\<lparr>en_phase := Finished\<rparr>"] e by (simp add: scheduler_ok_def)
  moreover have "cache_ok cfg ?s1" using ok by (simp add: scheduler_ok_def cache_ok_def)
  ultimately show "scheduler_ok cfg ?s1" by (simp add: scheduler_ok_def)
  show "finish_entry cfg e s = drain cfg ?s1" using forget by (simp add: finish_entry_def)
qed

lemma finish_ok:
  assumes "whole_limits cfg" "scheduler_ok cfg s" "in_phase Finishing e s"
  shows "scheduler_ok cfg (finish_entry cfg e s) \<and> saturated cfg (finish_entry cfg e s)"
  using drain_ok [OF assms(1)] retire_ok [OF assms(2,3)] by simp

lemma run_event_ok:
  assumes "whole_limits cfg" "scheduler_ok cfg s" "saturated cfg s" "run_event cfg ev s = Some s'"
  shows "scheduler_ok cfg s' \<and> saturated cfg s'"
proof (cases ev)
  case (Schedule r a now)
  then have "s' = schedule cfg r a now s" using assms(4) by (simp add: run_event_def)
  then show ?thesis using schedule_ok [OF assms(1-3), of r a now] by simp
next
  case (Abort e c)
  then show ?thesis using assms abort_ok by (auto simp: run_event_def split: if_splits)
next
  case (Start e)
  then have "s' = start_entry e s" "in_phase Starting e s" using assms(4) by (auto simp: run_event_def split: if_splits)
  then show ?thesis using start_ok assms by (simp add: saturated_def start_entry_def)
next
  case (Fetch_settled e res)
  then have "s' = fetch_settled e res s" "in_phase Fetching e s" using assms(4) by (auto simp: run_event_def split: if_splits)
  then show ?thesis using fetch_settled_ok assms by (simp add: saturated_def fetch_settled_def)
next
  case (Handle e now)
  then show ?thesis using assms handle_ok by (auto simp: run_event_def split: if_splits)
next
  case (Finish e)
  then show ?thesis using assms finish_ok by (auto simp: run_event_def split: if_splits)
qed

lemma reachable_ok:
  assumes "whole_limits cfg" "reachable cfg s"
  shows "scheduler_ok cfg s \<and> saturated cfg s"
  using assms(2)
proof (induction rule: reachable.induct)
  case init
  show ?case
    by (simp add: new_scheduler_def scheduler_ok_def slots_ok_def running_count_def queue_ok_def pending_ok_def
        entries_ok_def callers_ok_def data_ok_def cache_ok_def saturated_def)
next
  case (step s ev s')
  then show ?case using run_event_ok [OF assms(1)] by blast
qed


section \<open>Every caller is answered\<close>

text \<open>The turns that do not come from a caller. The settling of a fetch, by an answer or a failure, is one of them.\<close>

fun internal :: "('d, 'e) event \<Rightarrow> bool" where
  "internal (Schedule r a now) = False"
| "internal (Abort e c) = False"
| "internal _ = True"

definition internal_step :: "limits \<Rightarrow> ('d, 'e) scheduler \<Rightarrow> ('d, 'e) scheduler \<Rightarrow> bool" where
  "internal_step cfg s s' \<longleftrightarrow> (\<exists>ev. internal ev \<and> run_event cfg ev s = Some s')"

fun turns_left :: "phase \<Rightarrow> nat" where
  "turns_left Queued = 5"
| "turns_left Starting = 4"
| "turns_left Fetching = 3"
| "turns_left Fetched = 2"
| "turns_left Finishing = 1"
| "turns_left Finished = 0"

definition total_turns :: "('d, 'e) scheduler \<Rightarrow> nat" where
  "total_turns s = sum_list (map (\<lambda>en. turns_left (en_phase en)) (sc_entries s))"

lemma sum_list_update_less:
  "e < length xs \<Longrightarrow> f x < f (xs ! e) \<Longrightarrow> sum_list (map f (xs[e := x])) < (sum_list (map f xs) :: nat)"
proof (induction xs arbitrary: e)
  case (Cons y ys)
  then show ?case by (cases e) auto
qed simp

lemma total_turns_update:
  assumes "e < length (sc_entries s)" "sc_entries s' = (sc_entries s)[e := en']"
    and "turns_left (en_phase en') < turns_left (en_phase (sc_entries s ! e))"
  shows "total_turns s' < total_turns s"
  using assms sum_list_update_less [of e "sc_entries s" "\<lambda>en. turns_left (en_phase en)" en']
  by (simp add: total_turns_def)

lemma total_turns_entries: "sc_entries s' = sc_entries s \<Longrightarrow> total_turns s' = total_turns s"
  by (simp add: total_turns_def)

lemma drain_turns:
  assumes "whole_limits cfg" "scheduler_ok cfg s"
  shows "total_turns (drain cfg s) \<le> total_turns s"
  using assms
proof (induction cfg s rule: drain.induct)
  case (1 cfg s)
  show ?case
  proof (cases "js_less (Fin (of_int (sc_active s))) (lim_concurrency cfg) \<and> sc_queue s \<noteq> []")
    case True
    then obtain e es where q: "sc_queue s = e # es" by (cases "sc_queue s") auto
    let ?s' = "update_entry e (\<lambda>en. en\<lparr>en_phase := Starting\<rparr>) (s\<lparr>sc_queue := es, sc_active := sc_active s + 1\<rparr>)"
    note launch = launch_ok [OF "1.prems" q] True
    have e: "e < length (sc_entries s)" "en_phase (sc_entries s ! e) = Queued"
      using "1.prems"(2) q by (auto simp: scheduler_ok_def queue_ok_def)
    have "drain cfg s = drain cfg ?s'" using launch q by (subst drain.simps) (simp add: Let_def)
    moreover have "total_turns (drain cfg ?s') \<le> total_turns ?s'"
      using "1.IH"(2) [OF True refl refl refl] launch "1.prems"(1) q by simp
    moreover have "total_turns ?s' < total_turns s" 
      by (rule total_turns_update [OF e(1), where en' = "(sc_entries s ! e)\<lparr>en_phase := Starting\<rparr>"]) (use e(2) in simp_all)
    ultimately show ?thesis by simp
  next
    case False
    then have "drain cfg s = s" by (subst drain.simps) auto
    then show ?thesis by simp
  qed
qed


lemma internal_step_turns:
  assumes whole: "whole_limits cfg" and ok: "scheduler_ok cfg s" and step: "internal_step cfg s s'"
  shows "total_turns s' < total_turns s"
proof -
  obtain ev where ev: "internal ev" "run_event cfg ev s = Some s'" using step by (auto simp: internal_step_def)
  show ?thesis
  proof (cases ev)
    case (Start e)
    then have "in_phase Starting e s" "s' = start_entry e s" using ev by (auto simp: run_event_def split: if_splits)
    then show ?thesis by (intro total_turns_update [of e]) (auto simp: in_phase_def start_entry_def)
  next
    case (Fetch_settled e res)
    then have "in_phase Fetching e s" "s' = fetch_settled e res s" using ev by (auto simp: run_event_def split: if_splits)
    then show ?thesis by (intro total_turns_update [of e]) (auto simp: in_phase_def fetch_settled_def)
  next
    case (Handle e now)
    then have p: "in_phase Fetched e s" and s': "s' = handle_result cfg now e s"
      using ev by (auto simp: run_event_def split: if_splits)
    have "sc_entries (store_answer cfg now e d s) = sc_entries s" for d by (simp add: store_answer_def Let_def)
    then have "sc_entries s' = (sc_entries s)[e := (sc_entries s ! e)\<lparr>en_subscribers := [], en_phase := Finishing\<rparr>]"
      using p by (simp add: s' handle_result_def settle_def Let_def in_phase_def split: sum.split)
    then show ?thesis using p by (intro total_turns_update [of e]) (auto simp: in_phase_def)
  next
    case (Finish e)
    then have p: "in_phase Finishing e s" and s': "s' = finish_entry cfg e s"
      using ev by (auto simp: run_event_def split: if_splits)
    let ?s1 = "update_entry e (\<lambda>en. en\<lparr>en_phase := Finished\<rparr>) (s\<lparr>sc_active := sc_active s - 1\<rparr>)"
    have "total_turns s' \<le> total_turns ?s1"
      using retire_ok [OF ok p] drain_turns [OF whole] s' by simp
    also have "\<dots> < total_turns s"
      using p by (intro total_turns_update [of e _ _ "(sc_entries s ! e)\<lparr>en_phase := Finished\<rparr>"]) (auto simp: in_phase_def)
    finally show ?thesis .
  qed (use ev in simp_all)
qed

lemma running_enabled:
  assumes "e < length (sc_entries s)" "running (en_phase (sc_entries s ! e))"
  shows "\<exists>s'. internal_step cfg s s'"
proof -
  consider "in_phase Starting e s" | "in_phase Fetching e s" | "in_phase Fetched e s" | "in_phase Finishing e s"
    using assms by (cases "en_phase (sc_entries s ! e)") (auto simp: in_phase_def)
  then show ?thesis
  proof cases
    case 1
    then show ?thesis by (auto simp: internal_step_def run_event_def intro!: exI [of _ "Start e"])
  next
    case 2
    then show ?thesis by (auto simp: internal_step_def run_event_def intro!: exI [of _ "Fetch_settled e (Inl None)"])
  next
    case 3
    then show ?thesis by (auto simp: internal_step_def run_event_def intro!: exI [of _ "Handle e 0"])
  next
    case 4
    then show ?thesis by (auto simp: internal_step_def run_event_def intro!: exI [of _ "Finish e"])
  qed
qed

lemma waiting_enabled:
  assumes whole: "whole_limits cfg" and nan: "lim_concurrency cfg \<noteq> NaN"
    and ok: "scheduler_ok cfg s" "saturated cfg s" and cl: "cl \<in> set (sc_callers s)" "cl_settled cl = None"
  shows "\<exists>s'. internal_step cfg s s'"
proof -
  obtain c where "c < length (sc_callers s)" "sc_callers s ! c = cl" using cl(1) by (auto simp: in_set_conv_nth)
  then obtain e where e: "e < length (sc_entries s)" "c \<in> set (en_subscribers (sc_entries s ! e))"
    using ok(1) cl(2) by (auto simp: scheduler_ok_def callers_ok_def)
  then have subs: "en_subscribers (sc_entries s ! e) \<noteq> []" by auto
  then have phase: "en_phase (sc_entries s ! e) \<in> {Queued, Starting, Fetching, Fetched}"
    using entry_ok_at [OF ok(1) e(1)] by (simp add: entry_ok_def)
  show ?thesis
  proof (cases "en_phase (sc_entries s ! e) = Queued")
    case True
    then have "e \<in> set (sc_queue s)" using ok(1) e(1) subs by (simp add: scheduler_ok_def queue_ok_def)
    then have "\<not> js_less (Fin (of_int (sc_active s))) (lim_concurrency cfg)" using ok(2) by (auto simp: saturated_def)
    then have "1 \<le> sc_active s" using whole nan by (auto simp: whole_limits_def)
    then have "running_count (sc_entries s) \<noteq> 0" using ok(1) by (simp add: scheduler_ok_def slots_ok_def)
    then obtain en where "en \<in> set (sc_entries s)" "running (en_phase en)"
      by (auto simp: running_count_def filter_empty_conv)
    then show ?thesis using running_enabled by (metis in_set_conv_nth)
  next
    case False
    then show ?thesis using running_enabled [OF e(1)] phase by auto
  qed
qed

lemma reachable_internal: "(internal_step cfg)\<^sup>*\<^sup>* s s' \<Longrightarrow> reachable cfg s \<Longrightarrow> reachable cfg s'"
  by (induction rule: rtranclp_induct) (auto simp: internal_step_def intro: reachable.step)

section \<open>Keys\<close>

text \<open>Reading one escaped character back, with the rest of the text.\<close>

definition hex_value :: "char \<Rightarrow> nat" where
  "hex_value c = (if of_char c < (58 :: nat) then of_char c - 48 else of_char c - 87)"

definition read_escaped :: "char \<Rightarrow> char" where
  "read_escaped c =
     (if c = CHR ''b'' then CHR 0x08 else if c = CHR ''f'' then CHR 0x0C else if c = CHR ''n'' then CHR 0x0A
      else if c = CHR ''r'' then CHR 0x0D else if c = CHR ''t'' then CHR 0x09 else c)"

definition read_char :: "string \<Rightarrow> char \<times> string" where
  "read_char s =
     (if hd s \<noteq> CHR 0x5C then (hd s, tl s)
      else if s ! 1 = CHR ''u'' then (char_of (16 * hex_value (s ! 4) + hex_value (s ! 5)), drop 6 s)
      else (read_escaped (s ! 1), drop 2 s))"

lemma hex_value_digit: "d < 16 \<Longrightarrow> hex_value (hex_digit d) = d"
  by (auto simp: hex_value_def hex_digit_def)

lemma read_json_escape: "read_char (json_escape c @ x) = (c, x)"
proof -
  have hex: "char_of (16 * hex_value (hex_digit (of_char c div 16)) + hex_value (hex_digit (of_char c mod 16))) = c"
    if "of_char c < (32 :: nat)" using that by (simp add: hex_value_digit)
  consider "c = CHR 0x22" | "c = CHR 0x5C" | "c = CHR 0x08" | "c = CHR 0x0C" | "c = CHR 0x0A" | "c = CHR 0x0D" | "c = CHR 0x09"
    | "json_escape c = [c]" "c \<noteq> CHR 0x5C"
    | "of_char c < (32 :: nat)"
      "json_escape c = [CHR 0x5C, CHR ''u'', CHR ''0'', CHR ''0'', hex_digit (of_char c div 16), hex_digit (of_char c mod 16)]"
    by (metis json_escape_def)
  then show ?thesis
    by cases (simp_all add: json_escape_def read_char_def read_escaped_def hex)
qed

lemma json_escape_prefix: "json_escape c @ x = json_escape c' @ y \<Longrightarrow> c = c' \<and> x = y"
  using read_json_escape [of c x] read_json_escape [of c' y] by (metis Pair_inject)

lemma json_escape_not_close: "json_escape c @ x \<noteq> CHR 0x22 # y"
  using json_escape_not_quote [of c] by (cases "json_escape c") auto

lemma json_body_prefix:
  "concat (map json_escape s) @ CHR 0x22 # x = concat (map json_escape s') @ CHR 0x22 # y \<Longrightarrow> s = s' \<and> x = y"
proof (induction s arbitrary: s')
  case Nil
  show ?case
  proof (cases s')
    case (Cons c t)
    then show ?thesis using Nil [symmetric] json_escape_not_close [of c "concat (map json_escape t) @ CHR 0x22 # y"] by simp
  qed (use Nil in simp)
next
  case (Cons c s)
  show ?case
  proof (cases s')
    case Nil
    then show ?thesis using Cons.prems json_escape_not_close [of c] by simp
  next
    case (Cons c' t)
    then show ?thesis using Cons.IH [of t] Cons.prems json_escape_prefix [of c _ c'] by simp
  qed
qed

lemma json_quote_prefix: "json_quote s @ x = json_quote s' @ y \<Longrightarrow> s = s' \<and> x = y"
  by (rule json_body_prefix) (simp add: json_quote_def)

lemma kind_name_inj: "kind_name a = kind_name b \<Longrightarrow> a = b"
  by (cases a; cases b) auto

text \<open>Requests that share an entry or a cached answer ask the same provider the same query.\<close>

lemma query_key_inj:
  assumes "query_key r = query_key r'"
  shows "qr_providerId r = qr_providerId r' \<and> qr_kind r = qr_kind r' \<and> qr_query r = qr_query r'"
proof -
  obtain x y where eq: "json_quote (qr_providerId r) @ '','' @ json_quote (kind_name (qr_kind r)) @ '','' @ json_quote (qr_query r) @ x =
      json_quote (qr_providerId r') @ '','' @ json_quote (kind_name (qr_kind r')) @ '','' @ json_quote (qr_query r') @ y"
    using assms by (simp add: query_key_def)
  note p = json_quote_prefix [OF eq]
  note k = json_quote_prefix [OF p [THEN conjunct2, unfolded append_Cons append_Nil list.inject, THEN conjunct2]]
  note q = json_quote_prefix [OF k [THEN conjunct2, unfolded append_Cons append_Nil list.inject, THEN conjunct2]]
  show ?thesis using p k q kind_name_inj by blast
qed


section \<open>Runs\<close>

fun run_events :: "limits \<Rightarrow> ('d, 'e) event list \<Rightarrow> ('d, 'e) scheduler \<Rightarrow> ('d, 'e) scheduler option" where
  "run_events cfg [] s = Some s"
| "run_events cfg (ev # evs) s = (case run_event cfg ev s of Some s' \<Rightarrow> run_events cfg evs s' | None \<Rightarrow> None)"

lemma reachable_run: "run_events cfg evs s = Some s' \<Longrightarrow> reachable cfg s \<Longrightarrow> reachable cfg s'"
  by (induction evs arbitrary: s) (auto split: option.splits intro: reachable.step)

lemmas reachable_events = reachable_run [OF _ reachable.init]

lemma reachable_scheduler:
  "reachable (scheduler_limits options) s \<Longrightarrow> scheduler_ok (scheduler_limits options) s \<and> saturated (scheduler_limits options) s"
  by (rule reachable_ok [OF scheduler_limits_whole])

section \<open>A session at work\<close>

definition default_options :: QuerySchedulerOptions where
  "default_options = \<lparr>so_concurrency = None, so_cacheTTL = None, so_cacheSize = None\<rparr>"

definition sample_request :: QueryRequest where
  "sample_request = \<lparr>qr_providerId = ''prom'', qr_query = ''up'', qr_kind = Metrics, qr_start = Fin 0,
     qr_end = Fin 60, qr_step = Fin 15, qr_queryRef = JUndefined, qr_traceId = None\<rparr>"

lemma default_limits:
  "scheduler_limits default_options = \<lparr>lim_concurrency = Fin 4, lim_cacheTTL = Fin 5000, lim_cacheSize = Fin 100\<rparr>"
  by code_simp

text \<open>Two widgets ask the same and share a request, which is then answered.\<close>

definition sample_state :: "phase \<Rightarrow> nat list \<Rightarrow> (string failure + string) option \<Rightarrow>
    (string, string) settlement option \<Rightarrow> (string, string) scheduler" where
  "sample_state p subscribers result settled =
     \<lparr>sc_pending = (if subscribers = [] then [] else [(query_key sample_request, 0)]), sc_queue = [],
      sc_cache = (if p = Finishing then [(query_key sample_request, ''1'', Fin 5002)] else []),
      sc_active = 1,
      sc_entries = [\<lparr>en_key = query_key sample_request, en_request = sample_request, en_aborted = False,
        en_subscribers = subscribers, en_phase = p, en_result = result\<rparr>],
      sc_callers = replicate 2 \<lparr>cl_request = sample_request, cl_entry = Some 0, cl_settled = settled\<rparr>\<rparr>"

lemmas evaluate_events = run_event_def schedule_def join_entry_def subscribe_def add_caller_def new_entry_def
  new_scheduler_def update_entry_def js_map_get_def js_map_set_def map_delete_def drain.simps in_phase_def
  start_entry_def fetch_settled_def handle_result_def store_answer_def settle_def settlement_of_def settle_caller_def
  forget_pending_def default_limits Let_def sample_state_def numeral_2_eq_2

lemma sample_waiting: "reachable (scheduler_limits default_options) (sample_state Starting [0, 1] None None)"
  by (rule reachable_events [of _ "[Schedule sample_request False 0, Schedule sample_request False 1]"])
    (simp add: evaluate_events)

lemma sample_started:
  "run_event (scheduler_limits default_options) (Start 0) (sample_state Starting [0, 1] None None) =
     Some (sample_state Fetching [0, 1] None None)"
  by (simp add: evaluate_events)

lemma sample_fetched:
  "run_event (scheduler_limits default_options) (Fetch_settled 0 (Inr ''1'')) (sample_state Fetching [0, 1] None None) =
     Some (sample_state Fetched [0, 1] (Some (Inr ''1'')) None)"
  by (simp add: evaluate_events)

lemma sample_handled:
  "run_event (scheduler_limits default_options) (Handle 0 2) (sample_state Fetched [0, 1] (Some (Inr ''1'')) None) =
     Some (sample_state Finishing [] (Some (Inr ''1'')) (Some (Resolved (Some ''1''))))"
proof -
  have "evict (Fin 100) [p] = [p]" for p :: "string \<times> string \<times> js_number" by simp
  moreover have "js_add (Fin 2) (Fin 5000) = Fin 5002" using fl_int [of 5002] by simp
  ultimately show ?thesis by (simp add: evaluate_events)
qed

lemmas sample_answered =
  reachable.step [OF reachable.step [OF reachable.step [OF sample_waiting sample_started] sample_fetched] sample_handled]

section \<open>What the scheduler promises\<close>

text \<open>
  C31: Whatever the options, at most sixteen requests of a scheduler are under way at a time, no more
  than the concurrency the options are clamped to, and the cache holds at most a hundred answers, one per query.
\<close>

theorem scheduler_stays_bounded:
  assumes "reachable (scheduler_limits options) s"
  shows "running_count (sc_entries s) \<le> 16 \<and> length (sc_cache s) \<le> 100 \<and> distinct (map fst (sc_cache s)) \<and>
    (\<forall>n. lim_concurrency (scheduler_limits options) = Fin n \<longrightarrow> of_int (running_count (sc_entries s)) \<le> n)"
proof -
  have ok: "slots_ok (scheduler_limits options) s" "cache_ok (scheduler_limits options) s"
    using reachable_scheduler [OF assms] by (simp_all add: scheduler_ok_def)
  have whole: "whole_limits (scheduler_limits options)" by (rule scheduler_limits_whole)
  have "of_int (running_count (sc_entries s)) \<le> n" if "lim_concurrency (scheduler_limits options) = Fin n" for n
    using ok(1) whole that by (auto simp: slots_ok_def whole_limits_def js_ge_def)
  moreover have "running_count (sc_entries s) \<le> 16" using ok(1) whole by (auto simp: slots_ok_def whole_limits_def js_ge_def)
  moreover have "length (sc_cache s) \<le> 100"
  proof (cases "sc_cache s = []")
    case False
    then have size: "js_ge (lim_cacheSize (scheduler_limits options)) (Fin (of_nat (length (sc_cache s))))"
      using ok(2) by (simp add: cache_ok_def)
    then have "lim_cacheSize (scheduler_limits options) \<noteq> NaN" by (auto simp: js_ge_def)
    then obtain k where k: "lim_cacheSize (scheduler_limits options) = Fin (of_int k)" "k \<le> 100"
      using whole by (auto simp: whole_limits_def)
    then have "of_nat (length (sc_cache s)) \<le> (of_int k :: rat)" using size by (auto simp: js_ge_def)
    then show ?thesis using k(2) by linarith
  qed simp
  ultimately show ?thesis using ok(2) by (simp add: cache_ok_def)
qed

theorem scheduler_stays_bounded_witness:
  "running_count (sc_entries (sample_state Starting [0, 1] None None)) \<le> 16 \<and>
   lim_concurrency (scheduler_limits default_options) = Fin 4 \<and>
   sc_active (sample_state Starting [0, 1] None None) = 1"
  using scheduler_stays_bounded [OF sample_waiting] by (simp add: default_limits sample_state_def)

text \<open>
  A query that callers wait for has one entry: two entries of the same key that both have
  subscribers are the same, and a caller waits for the entry of its own request.
\<close>

theorem one_entry_per_waited_query:
  assumes "reachable (scheduler_limits options) s"
    and "e < length (sc_entries s)" "c \<in> set (en_subscribers (sc_entries s ! e))"
    and "e' < length (sc_entries s)" "c' \<in> set (en_subscribers (sc_entries s ! e'))"
    and "query_key (cl_request (sc_callers s ! c)) = query_key (cl_request (sc_callers s ! c'))"
  shows "e = e' \<and> en_key (sc_entries s ! e) = query_key (cl_request (sc_callers s ! c))"
proof -
  have ok: "pending_ok s" "callers_ok s" using reachable_scheduler [OF assms(1)] by (simp_all add: scheduler_ok_def)
  have keys: "en_key (sc_entries s ! e) = cl_key (sc_callers s ! c)" "en_key (sc_entries s ! e') = cl_key (sc_callers s ! c')"
    using ok(2) assms(2-5) by (auto simp: callers_ok_def)
  then have eq: "en_key (sc_entries s ! e) = en_key (sc_entries s ! e')" using assms(6) by (simp add: cl_key_def)
  have "(en_key (sc_entries s ! e), e) \<in> set (sc_pending s)" "(en_key (sc_entries s ! e'), e') \<in> set (sc_pending s)"
    using ok(1) assms(2-5) unfolding pending_ok_def by fastforce+
  then have "e = e'" using ok(1) eq by (auto simp: pending_ok_def dest: eq_key_imp_eq_value)
  then show ?thesis using keys(1) by (simp add: cl_key_def)
qed

theorem one_entry_per_waited_query_witness:
  "en_key (sc_entries (sample_state Starting [0, 1] None None) ! 0) = query_key sample_request"
  using one_entry_per_waited_query [OF sample_waiting, of 0 0 0 1] by (simp add: sample_state_def numeral_2_eq_2)

text \<open>
  C13: A caller that is given data is given the answer the fetcher gave to a request with the same
  provider, kind and query text, and the same cache key, as its own: neither the cache nor the sharing of
  requests hands one query the answer of another.
\<close>

theorem answers_are_of_own_query:
  assumes "reachable (scheduler_limits options) s" "cl \<in> set (sc_callers s)" "cl_settled cl = Some (Resolved (Some d))"
  shows "\<exists>en \<in> set (sc_entries s). en_result en = Some (Inr d) \<and>
    query_key (en_request en) = query_key (cl_request cl) \<and>
    qr_providerId (en_request en) = qr_providerId (cl_request cl) \<and>
    qr_kind (en_request en) = qr_kind (cl_request cl) \<and> qr_query (en_request en) = qr_query (cl_request cl)"
proof -
  have ok: "data_ok s" "entries_ok s" using reachable_scheduler [OF assms(1)] by (simp_all add: scheduler_ok_def)
  obtain r where r: "answered s (cl_key cl) r" "settlement_of r = Resolved (Some d)"
    using ok(1) assms(2,3) by (fastforce simp: data_ok_def settlement_ok_def)
  then have "r = Inr d" by (auto simp: settlement_of_def split: sum.splits failure.splits option.splits)
  then obtain en where en: "en \<in> set (sc_entries s)" "en_key en = cl_key cl" "en_result en = Some (Inr d)"
    using r(1) by (auto simp: answered_def)
  then have key: "query_key (en_request en) = query_key (cl_request cl)"
    using ok(2) by (auto simp: entries_ok_def entry_ok_def cl_key_def)
  show ?thesis using en(1,3) key query_key_inj [OF key] by blast
qed

theorem answers_are_of_own_query_witness:
  "\<exists>en \<in> set (sc_entries (sample_state Finishing [] (Some (Inr ''1'')) (Some (Resolved (Some ''1''))))).
     en_result en = Some (Inr ''1'') \<and> qr_query (en_request en) = ''up''"
  using answers_are_of_own_query [OF sample_answered, of
      "\<lparr>cl_request = sample_request, cl_entry = Some 0, cl_settled = Some (Resolved (Some ''1''))\<rparr>" "''1''"]
  by (simp add: sample_state_def numeral_2_eq_2 sample_request_def)

text \<open>
  C14: The turns that do not come from a caller, the settling of each fetch among them, come to an end from every reachable state,
  and when none is left, every caller's promise is settled: if the fetches settle, no caller waits for ever, as long as
  the concurrency is not \<open>NaN\<close>.
\<close>

theorem every_caller_is_answered:
  fixes s :: "('d, 'e) scheduler"
  assumes "lim_concurrency (scheduler_limits options) \<noteq> NaN" "reachable (scheduler_limits options) s"
  shows "wf {(s2, s1 :: ('d, 'e) scheduler). reachable (scheduler_limits options) s1 \<and> internal_step (scheduler_limits options) s1 s2} \<and>
    (\<forall>s'. (internal_step (scheduler_limits options))\<^sup>*\<^sup>* s s' \<and> (\<nexists>s''. internal_step (scheduler_limits options) s' s'') \<longrightarrow>
      (\<forall>cl \<in> set (sc_callers s'). cl_settled cl \<noteq> None))"
proof -
  define cfg where "cfg = scheduler_limits options"
  have whole: "whole_limits cfg" by (simp add: cfg_def scheduler_limits_whole)
  have wf: "wf {(s2, s1 :: ('d, 'e) scheduler). reachable cfg s1 \<and> internal_step cfg s1 s2}"
  proof (rule wf_subset [OF wf_measure [of total_turns]], clarify)
    fix s2 s1 :: "('d, 'e) scheduler"
    assume "reachable cfg s1" and step: "internal_step cfg s1 s2"
    then have "scheduler_ok cfg s1" using reachable_ok [OF whole] by blast
    then show "(s2, s1) \<in> measure total_turns" using internal_step_turns [OF whole _ step] by simp
  qed
  have settled: "cl_settled cl \<noteq> None"
    if "(internal_step cfg)\<^sup>*\<^sup>* s s'" "\<nexists>s''. internal_step cfg s' s''" "cl \<in> set (sc_callers s')" for s' cl
  proof -
    have "scheduler_ok cfg s'" "saturated cfg s'"
      using reachable_ok [OF whole reachable_internal [OF that(1)]] assms(2) by (simp_all add: cfg_def)
    then show ?thesis using waiting_enabled [OF whole _ _ _ that(3)] assms(1) that(2) by (auto simp: cfg_def)
  qed
  show ?thesis using wf settled unfolding cfg_def by blast
qed

theorem every_caller_is_answered_witness:
  "lim_concurrency (scheduler_limits default_options) \<noteq> NaN \<and>
   wf {(s2, s1 :: (string, string) scheduler).
     reachable (scheduler_limits default_options) s1 \<and> internal_step (scheduler_limits default_options) s1 s2}"
  using every_caller_is_answered [OF _ sample_waiting] by (simp add: default_limits)

end
