(* ===== verification/QueryVariables.thy ===== *)
theory QueryVariables
  imports JsonText
begin

text \<open>
  Variables in dashboard queries (\<open>ui/src/features/insights/drilldown.ts\<close>): the check of the values,
  their resolution against the dashboard's declarations, and \<open>interpolateLiterals\<close>, which replaces
  the placeholders \<open>{{name}}\<close> of a query by literals. The names and values are those the schemas
  \<open>variableNameSchema\<close> and \<open>variableValueSchema\<close> accept.

  The theorem about the interpolation is that values cannot change the structure of a query: read
  by an automaton for quotes and comments, every placeholder stands in plain code, and the text put
  in its place is one complete literal.
\<close>

section \<open>Names and values\<close>

definition MAX_DASHBOARD_VARIABLES :: nat where
  "MAX_DASHBOARD_VARIABLES = 20"

definition MAX_VARIABLE_VALUE_LENGTH :: nat where
  "MAX_VARIABLE_VALUE_LENGTH = 1024"

definition name_start :: "char \<Rightarrow> bool" where
  "name_start c \<longleftrightarrow> c \<in> set ''ABCDEFGHIJKLMNOPQRSTUVWXYZabcdefghijklmnopqrstuvwxyz_''"

definition name_char :: "char \<Rightarrow> bool" where
  "name_char c \<longleftrightarrow> name_start c \<or> c \<in> set ''0123456789''"

definition variableNameSchema :: "string \<Rightarrow> bool" where
  "variableNameSchema name \<longleftrightarrow>
     1 \<le> length name \<and> length name \<le> 64 \<and> name_start (hd name) \<and> list_all name_char (tl name) \<and>
     name \<notin> set [''__proto__'', ''prototype'', ''constructor'']"

definition variableValueSchema :: "string \<Rightarrow> bool" where
  "variableValueSchema value \<longleftrightarrow> length value \<le> MAX_VARIABLE_VALUE_LENGTH"

text \<open>A value is text or, for a hovered observation, a number.\<close>

datatype literal = Text string | Num js_number

datatype variable_error =
    Not_an_object
  | Too_many_values
  | Invalid_name string
  | Invalid_value string
  | Undeclared string
  | Not_finite string
  | Query_too_long
  | Unfinished_placeholder
  | Invalid_placeholder string
  | Quoted_placeholder string
  | Commented_placeholder string
  | Partial_token string
  | Unset_variable string
  | Output_too_long

type_synonym variable_values = "(string \<times> string) list"

fun check_all :: "('a \<Rightarrow> 'e + 'b) \<Rightarrow> 'a list \<Rightarrow> 'e + 'b list" where
  "check_all f [] = Inr []"
| "check_all f (x # xs) =
     (case f x of Inl e \<Rightarrow> Inl e
      | Inr y \<Rightarrow> (case check_all f xs of Inl e \<Rightarrow> Inl e | Inr ys \<Rightarrow> Inr (y # ys)))"

definition check_entry :: "string \<times> js_value \<Rightarrow> variable_error + string \<times> string" where
  "check_entry e =
     (case e of (key, value) \<Rightarrow>
        if \<not> variableNameSchema key then Inl (Invalid_name key)
        else case value of
            JString s \<Rightarrow> if variableValueSchema s then Inr (key, s) else Inl (Invalid_value key)
          | _ \<Rightarrow> Inl (Invalid_value key))"

definition checkedValues :: "js_value \<Rightarrow> variable_error + variable_values" where
  "checkedValues input =
     (case input of
        JObject entries \<Rightarrow>
          if MAX_DASHBOARD_VARIABLES < length entries then Inl Too_many_values
          else check_all check_entry entries
      | _ \<Rightarrow> Inl Not_an_object)"

text \<open>A typed record of values as the object it is.\<close>

definition values_object :: "variable_values \<Rightarrow> js_value" where
  "values_object vs = JObject (map (\<lambda>(k, s). (k, JString s)) vs)"

record DashboardVariable =
  dv_name :: string
  dv_label :: "string option"
  dv_defaultValue :: "string option"
  dv_options :: "string list option"

definition resolveDashboardVariables ::
    "DashboardVariable list option \<Rightarrow> variable_values \<Rightarrow> variable_error + variable_values" where
  "resolveDashboardVariables variables overrides =
     (case checkedValues (values_object overrides) of
        Inl e \<Rightarrow> Inl e
      | Inr vals \<Rightarrow>
          let definitions = (case variables of Some ds \<Rightarrow> ds | None \<Rightarrow> []);
              known = js_set (map dv_name definitions)
          in case find (\<lambda>key. key \<notin> set known) (map fst vals) of
               Some key \<Rightarrow> Inl (Undeclared key)
             | None \<Rightarrow>
                 (case check_all (\<lambda>v.
                      case (case js_map_get vals (dv_name v) of Some s \<Rightarrow> Some s | None \<Rightarrow> dv_defaultValue v) of
                        None \<Rightarrow> Inr []
                      | Some s \<Rightarrow> if variableValueSchema s then Inr [(dv_name v, s)] else Inl (Invalid_value (dv_name v)))
                    definitions of
                    Inl e \<Rightarrow> Inl e
                  | Inr parts \<Rightarrow> Inr (foldl (\<lambda>m (k, s). js_map_set k s m) [] (concat parts))))"

section \<open>Interpolation\<close>

datatype comment = Line | Block

definition literal_text :: "literal \<Rightarrow> string" where
  "literal_text v = (case v of Text s \<Rightarrow> json_quote s | Num n \<Rightarrow> json_number n)"

definition is_number :: "literal option \<Rightarrow> bool" where
  "is_number v \<longleftrightarrow> (case v of Some (Num n) \<Rightarrow> True | _ \<Rightarrow> False)"

definition before_text :: "char \<Rightarrow> bool" where
  "before_text c \<longleftrightarrow> js_space c \<or> c \<in> set ''[(=~!<>:,|&''"

definition before_number :: "char \<Rightarrow> bool" where
  "before_number c \<longleftrightarrow> before_text c \<or> c \<in> set ''+-*/%^@''"

definition after_literal :: "char \<Rightarrow> bool" where
  "after_literal c \<longleftrightarrow> js_space c \<or> c \<in> set '',})]|&!<>=:+-*/%^''"

text \<open>\<open>query.indexOf("}}", index + 2)\<close>: the name before the first \<open>}}\<close> and the text behind it.\<close>

fun split_close :: "string \<Rightarrow> (string \<times> string) option" where
  "split_close [] = None"
| "split_close [c] = None"
| "split_close (c # d # s) =
     (if c = CHR ''}'' \<and> d = CHR ''}'' then Some ([], s)
      else map_option (\<lambda>(name, rest). (c # name, rest)) (split_close (d # s)))"

lemma split_close_eq: "split_close s = Some (name, rest) \<Longrightarrow> s = name @ ''}}'' @ rest"
  by (induction s arbitrary: name rest rule: split_close.induct) (auto split: if_splits)

lemma split_close_length: "split_close s = Some (name, rest) \<Longrightarrow> length rest < length s"
  using split_close_eq by fastforce

definition quote_char :: "char \<Rightarrow> bool" where
  "quote_char c \<longleftrightarrow> c = CHR 0x22 \<or> c = CHR 0x27 \<or> c = CHR 0x60"

text \<open>
  The loop of \<open>interpolateLiterals\<close> on the rest of the query: \<open>prev\<close> is the character before it,
  \<open>q\<close>, \<open>c\<close> and \<open>esc\<close> are \<open>quote\<close>, \<open>comment\<close> and \<open>escaped\<close>, and \<open>out\<close> is the output so far.
\<close>

function interpolate ::
    "(string, literal) js_map \<Rightarrow> char option \<Rightarrow> char option \<Rightarrow> comment option \<Rightarrow> bool \<Rightarrow> string \<Rightarrow> string \<Rightarrow>
     variable_error + string" where
  "interpolate vals prev q c esc [] out = Inr out"
| "interpolate vals prev q c esc (ch # rest) out =
     (let nxt = (case rest of [] \<Rightarrow> None | d # s \<Rightarrow> Some d) in
      if ch = CHR ''{'' \<and> nxt = Some CHR ''{'' then
        (case split_close (tl rest) of
           None \<Rightarrow> Inl Unfinished_placeholder
         | Some (name, after) \<Rightarrow>
             if \<not> variableNameSchema name then Inl (Invalid_placeholder name)
             else if q \<noteq> None then Inl (Quoted_placeholder name)
             else if c \<noteq> None then Inl (Commented_placeholder name)
             else if (case prev of None \<Rightarrow> False
                      | Some b \<Rightarrow> \<not> (if is_number (js_map_get vals name) then before_number b else before_text b)) \<or>
                     (after \<noteq> [] \<and> \<not> after_literal (hd after))
               then Inl (Partial_token name)
             else (case js_map_get vals name of
                 None \<Rightarrow> Inl (Unset_variable name)
               | Some v \<Rightarrow> interpolate vals (Some CHR ''}'') q c esc after (out @ literal_text v)))
      else if c = Some Line then
        interpolate vals (Some ch) q (if ch = CHR 0x0A \<or> ch = CHR 0x0D then None else c) esc rest (out @ [ch])
      else if c = Some Block then
        (if ch = CHR ''*'' \<and> nxt = Some CHR ''/''
         then interpolate vals (Some CHR ''/'') q None esc (tl rest) (out @ ''*/'')
         else interpolate vals (Some ch) q c esc rest (out @ [ch]))
      else (case q of
          Some qc \<Rightarrow>
            if qc \<noteq> CHR 0x60 \<and> esc then interpolate vals (Some ch) q c False rest (out @ [ch])
            else if qc \<noteq> CHR 0x60 \<and> ch = CHR 0x5C then interpolate vals (Some ch) q c True rest (out @ [ch])
            else interpolate vals (Some ch) (if ch = qc then None else q) c esc rest (out @ [ch])
        | None \<Rightarrow>
            if quote_char ch then interpolate vals (Some ch) (Some ch) c esc rest (out @ [ch])
            else if ch = CHR ''#'' \<or> ch = CHR ''/'' \<and> nxt = Some CHR ''/'' then
              interpolate vals (Some ch) q (Some Line) esc rest (out @ [ch])
            else if ch = CHR ''/'' \<and> nxt = Some CHR ''*'' then
              interpolate vals (Some CHR ''*'') q (Some Block) esc (tl rest) (out @ ''/*'')
            else interpolate vals (Some ch) q c esc rest (out @ [ch])))"
  by pat_completeness auto

termination
  by (relation "measure (\<lambda>(vals, prev, q, c, esc, rest, out). length rest)")
    (auto split: list.splits dest!: split_close_length)

definition interpolateLiterals :: "string \<Rightarrow> (string, literal) js_map \<Rightarrow> variable_error + string" where
  "interpolateLiterals query vals =
     (if 8192 < length query then Inl Query_too_long
      else case interpolate vals None None None False query [] of
          Inl e \<Rightarrow> Inl e
        | Inr output \<Rightarrow> if 8192 < length output then Inl Output_too_long else Inr output)"

definition interpolateQuery :: "string \<Rightarrow> variable_values \<Rightarrow> variable_error + string" where
  "interpolateQuery query variables =
     (case checkedValues (values_object variables) of
        Inl e \<Rightarrow> Inl e
      | Inr vals \<Rightarrow> interpolateLiterals query (map (\<lambda>(k, s). (k, Text s)) vals))"

definition check_literal :: "string \<times> literal \<Rightarrow> variable_error + string \<times> literal" where
  "check_literal e =
     (case e of (name, value) \<Rightarrow>
        if \<not> variableNameSchema name then Inl (Invalid_name name)
        else case value of
            Num n \<Rightarrow> if js_is_finite n then Inr (name, Num n) else Inl (Not_finite name)
          | Text s \<Rightarrow> if variableValueSchema s then Inr (name, Text s) else Inl (Invalid_value name))"

definition interpolateQueryLiterals :: "string \<Rightarrow> (string, literal) js_map \<Rightarrow> variable_error + string" where
  "interpolateQueryLiterals query variables =
     (if MAX_DASHBOARD_VARIABLES < length variables then Inl Too_many_values
      else case check_all check_literal variables of
          Inl e \<Rightarrow> Inl e
        | Inr vals \<Rightarrow> interpolateLiterals query vals)"


declare interpolate.simps [simp del]

section \<open>The structure of a query\<close>

text \<open>
  A reader of queries: plain code, strings in the three kinds of quotes, and comments. \<open>Slash\<close> is
  code behind a slash that may begin a comment.
\<close>

datatype lex = Code | Slash | Str char | Esc char | In_line | In_block | Block_star

definition code_step :: "char \<Rightarrow> lex" where
  "code_step c = (if quote_char c then Str c else if c = CHR ''#'' then In_line
     else if c = CHR ''/'' then Slash else Code)"

fun lex_step :: "lex \<Rightarrow> char \<Rightarrow> lex" where
  "lex_step Code c = code_step c"
| "lex_step Slash c = (if c = CHR ''/'' then In_line else if c = CHR ''*'' then In_block else code_step c)"
| "lex_step (Str q) c = (if q \<noteq> CHR 0x60 \<and> c = CHR 0x5C then Esc q else if c = q then Code else Str q)"
| "lex_step (Esc q) c = Str q"
| "lex_step In_line c = (if c = CHR 0x0A \<or> c = CHR 0x0D then Code else In_line)"
| "lex_step In_block c = (if c = CHR ''*'' then Block_star else In_block)"
| "lex_step Block_star c = (if c = CHR ''/'' then Code else if c = CHR ''*'' then Block_star else In_block)"

definition lex_run :: "lex \<Rightarrow> string \<Rightarrow> lex" where
  "lex_run st s = foldl lex_step st s"

fun all_states :: "(lex \<Rightarrow> bool) \<Rightarrow> lex \<Rightarrow> string \<Rightarrow> bool" where
  "all_states P st [] = True"
| "all_states P st (c # s) = (P (lex_step st c) \<and> all_states P (lex_step st c) s)"

definition in_string :: "lex \<Rightarrow> bool" where
  "in_string st \<longleftrightarrow> st = Str CHR 0x22 \<or> st = Esc CHR 0x22"

text \<open>
  One literal: a string in double quotes that ends at its last character and not before, or a
  number.
\<close>

definition one_literal :: "lex \<Rightarrow> string \<Rightarrow> bool" where
  "one_literal st t \<longleftrightarrow>
     (\<exists>body. t = CHR 0x22 # body @ [CHR 0x22] \<and> lex_step st CHR 0x22 = Str CHR 0x22 \<and>
        all_states in_string (Str CHR 0x22) body \<and> lex_run st t = Code) \<or>
     t \<noteq> [] \<and> list_all number_char t \<and> all_states (\<lambda>s. s = Code) st t"

text \<open>
  What an interpolated query is: the query, with every placeholder, which stands in plain code,
  replaced by its value as one literal, after which the reader is in plain code again.
\<close>

inductive renders :: "(string, literal) js_map \<Rightarrow> lex \<Rightarrow> string \<Rightarrow> string \<Rightarrow> lex \<Rightarrow> bool" for vals where
  empty: "renders vals st [] [] st"
| char: "renders vals (lex_step st c) q t st' \<Longrightarrow> \<not> (c = CHR ''{'' \<and> q \<noteq> [] \<and> hd q = CHR ''{'') \<Longrightarrow>
    renders vals st (c # q) (c # t) st'"
| hole: "st \<in> {Code, Slash} \<Longrightarrow> variableNameSchema name \<Longrightarrow> js_map_get vals name = Some v \<Longrightarrow>
    one_literal st (literal_text v) \<Longrightarrow> renders vals Code q t st' \<Longrightarrow>
    renders vals st (''{{'' @ name @ ''}}'' @ q) (literal_text v @ t) st'"

lemma lex_run_simps [simp]:
  "lex_run st [] = st" "lex_run st (c # s) = lex_run (lex_step st c) s"
  "lex_run st (s @ t) = lex_run (lex_run st s) t"
  by (simp_all add: lex_run_def)

lemma all_states_append [simp]:
  "all_states P st (s @ t) \<longleftrightarrow> all_states P st s \<and> all_states P (lex_run st s) t"
  by (induction s arbitrary: st) auto

lemma all_states_run: "all_states P st s \<Longrightarrow> s \<noteq> [] \<Longrightarrow> P (lex_run st s)"
proof (induction s arbitrary: st)
  case (Cons c s)
  then show ?case by (cases s) auto
qed simp

lemma one_literal_run: "one_literal st t \<Longrightarrow> lex_run st t = Code"
  using all_states_run [of "\<lambda>s. s = Code" st t] by (auto simp: one_literal_def)

text \<open>Reading the result ends where reading the query with its placeholders as code ends.\<close>

lemma renders_run: "renders vals st q t st' \<Longrightarrow> lex_run st t = st'"
  by (induction rule: renders.induct) (auto simp: one_literal_run)

lemma hex_digit_plain: "d < 16 \<Longrightarrow> hex_digit d \<noteq> CHR 0x22 \<and> hex_digit d \<noteq> CHR 0x5C"
proof -
  have "list_all (\<lambda>d. hex_digit d \<noteq> CHR 0x22 \<and> hex_digit d \<noteq> CHR 0x5C) [0..<16]" by code_simp
  then show "d < 16 \<Longrightarrow> hex_digit d \<noteq> CHR 0x22 \<and> hex_digit d \<noteq> CHR 0x5C" by (simp add: list_all_iff)
qed

lemma json_escape_inside:
  "lex_run (Str CHR 0x22) (json_escape c) = Str CHR 0x22 \<and> all_states in_string (Str CHR 0x22) (json_escape c)"
proof -
  have d: "of_char c div 16 < (16 :: nat)" "of_char c mod 16 < (16 :: nat)"
    using less_mult_imp_div_less [of "of_char c" 16 16] nat_of_char_less_256 [of c] by simp_all
  show ?thesis using hex_digit_plain [OF d(1)] hex_digit_plain [OF d(2)] by (simp add: json_escape_def in_string_def)
qed

lemma json_body_inside:
  "lex_run (Str CHR 0x22) (concat (map json_escape s)) = Str CHR 0x22 \<and>
   all_states in_string (Str CHR 0x22) (concat (map json_escape s))"
  by (induction s) (simp_all add: json_escape_inside)

lemma json_quote_literal: "one_literal Code (json_quote s)"
  using json_body_inside [of s] by (auto simp: one_literal_def json_quote_def code_step_def quote_char_def)

lemma number_char_code: "number_char c \<Longrightarrow> code_step c = Code \<and> c \<noteq> CHR ''/'' \<and> c \<noteq> CHR ''*''"
  by (auto simp: number_char_def code_step_def quote_char_def)

lemma number_literal: "st \<in> {Code, Slash} \<Longrightarrow> one_literal st (rat_text x)"
proof -
  have step: "lex_step st c = Code" if "number_char c" "st \<in> {Code, Slash}" for c st
    using that(2) number_char_code [OF that(1)] by auto
  have "all_states (\<lambda>s. s = Code) st t" if "list_all number_char t" "st \<in> {Code, Slash}" for t st
    using that
  proof (induction t arbitrary: st)
    case (Cons c t)
    then show ?case using step [of c st] by simp
  qed simp
  then show "st \<in> {Code, Slash} \<Longrightarrow> one_literal st (rat_text x)"
    using rat_text_chars [of x] rat_text_not_Nil [of x] by (simp add: one_literal_def)
qed


text \<open>The variables of the loop describe the reader's state.\<close>

definition head_in :: "string \<Rightarrow> char list \<Rightarrow> bool" where
  "head_in s cs \<longleftrightarrow> s \<noteq> [] \<and> hd s \<in> set cs"

definition agrees :: "lex \<Rightarrow> char option \<Rightarrow> char option \<Rightarrow> comment option \<Rightarrow> bool \<Rightarrow> string \<Rightarrow> bool" where
  "agrees st prev q c esc rest \<longleftrightarrow>
     (case c of
        Some Line \<Rightarrow> q = None \<and> \<not> esc \<and> (st = In_line \<or> st = Slash \<and> head_in rest ''/'')
      | Some Block \<Rightarrow> q = None \<and> \<not> esc \<and> (st = In_block \<or> st = Block_star \<and> \<not> head_in rest ''/'')
      | None \<Rightarrow>
          (case q of
             Some qc \<Rightarrow> st = (if esc then Esc qc else Str qc) \<and> (esc \<longrightarrow> qc \<noteq> CHR 0x60)
           | None \<Rightarrow> \<not> esc \<and> (st = Code \<or> st = Slash \<and> prev = Some CHR ''/'' \<and> \<not> head_in rest ''/*'')))"

lemma before_text_slash: "\<not> before_text CHR ''/''"
  by (simp add: before_text_def js_space_def)

definition finite_values :: "(string, literal) js_map \<Rightarrow> bool" where
  "finite_values vals \<longleftrightarrow> (\<forall>name n. js_map_get vals name = Some (Num n) \<longrightarrow> js_is_finite n)"

lemma placeholder_literal:
  assumes "finite_values vals" "agrees st prev None None esc rest" "js_map_get vals name = Some v"
    and "\<not> (case prev of None \<Rightarrow> False
          | Some b \<Rightarrow> \<not> (if is_number (js_map_get vals name) then before_number b else before_text b))"
  shows "st \<in> {Code, Slash} \<and> one_literal st (literal_text v)"
proof -
  have st: "st \<in> {Code, Slash}" using assms(2) by (auto simp: agrees_def)
  show ?thesis
  proof (cases v)
    case (Text s)
    then have "st = Code" using assms by (auto simp: agrees_def is_number_def before_text_slash)
    then show ?thesis using Text by (simp add: literal_text_def json_quote_literal)
  next
    case (Num n)
    then have "js_is_finite n" using assms(1,3) by (auto simp: finite_values_def)
    then obtain x where "n = Fin x" by (cases n) auto
    then show ?thesis using st number_literal Num by (simp add: literal_text_def)
  qed
qed

text \<open>One round of the loop that is not a placeholder: what it copies and the state after it.\<close>

definition plain_step ::
    "char option \<Rightarrow> comment option \<Rightarrow> bool \<Rightarrow> char \<Rightarrow> string \<Rightarrow>
     string \<times> char option \<times> comment option \<times> bool \<times> string" where
  "plain_step q c esc ch rest =
     (if c = Some Line then ([ch], q, if ch = CHR 0x0A \<or> ch = CHR 0x0D then None else c, esc, rest)
      else if c = Some Block then
        (if ch = CHR ''*'' \<and> head_in rest ''/'' then (''*/'', q, None, esc, tl rest) else ([ch], q, c, esc, rest))
      else (case q of
          Some qc \<Rightarrow>
            if qc \<noteq> CHR 0x60 \<and> esc then ([ch], q, c, False, rest)
            else if qc \<noteq> CHR 0x60 \<and> ch = CHR 0x5C then ([ch], q, c, True, rest)
            else ([ch], if ch = qc then None else q, c, esc, rest)
        | None \<Rightarrow>
            if quote_char ch then ([ch], Some ch, c, esc, rest)
            else if ch = CHR ''#'' \<or> ch = CHR ''/'' \<and> head_in rest ''/'' then ([ch], q, Some Line, esc, rest)
            else if ch = CHR ''/'' \<and> head_in rest ''*'' then (''/*'', q, Some Block, esc, tl rest)
            else ([ch], q, c, esc, rest)))"

lemma head_in_next: "head_in rest [d] \<longleftrightarrow> (case rest of [] \<Rightarrow> None | e # s \<Rightarrow> Some e) = Some d"
  by (cases rest) (auto simp: head_in_def)

lemma interpolate_plain:
  assumes "\<not> (ch = CHR ''{'' \<and> head_in rest ''{'')" "plain_step q c esc ch rest = (cs, q', c', esc', rest')"
  shows "interpolate vals prev q c esc (ch # rest) out = interpolate vals (Some (last cs)) q' c' esc' rest' (out @ cs)"
proof -
  let ?nxt = "case rest of [] \<Rightarrow> None | e # s \<Rightarrow> Some e"
  have hole: "(ch = CHR ''{'' \<and> ?nxt = Some CHR ''{'') = False" using assms(1) by (simp add: head_in_next)
  note eq = assms(2) [unfolded plain_step_def head_in_next]
  note unf = interpolate.simps(2) Let_def hole if_False
  consider "c = Some Line" | "c = Some Block" | qc where "c = None" "q = Some qc" | "c = None" "q = None"
    by (metis comment.exhaust option.exhaust)
  then show ?thesis
  proof cases
    case 1
    then show ?thesis using eq unfolding unf by auto
  next
    case 2
    then show ?thesis using eq unfolding unf by (cases "ch = CHR ''*'' \<and> ?nxt = Some CHR ''/''") auto
  next
    case (3 qc)
    then show ?thesis using eq unfolding unf
      by (cases "qc \<noteq> CHR 0x60 \<and> esc"; cases "qc \<noteq> CHR 0x60 \<and> ch = CHR 0x5C") auto
  next
    case 4
    then show ?thesis using eq unfolding unf
      by (cases "quote_char ch"; cases "ch = CHR ''#'' \<or> ch = CHR ''/'' \<and> ?nxt = Some CHR ''/''";
          cases "ch = CHR ''/'' \<and> ?nxt = Some CHR ''*''") auto
  qed
qed

lemma plain_step_agrees:
  assumes "agrees st prev q c esc (ch # rest)" "plain_step q c esc ch rest = (cs, q', c', esc', rest')"
  shows "agrees (lex_run st cs) (Some (last cs)) q' c' esc' rest'"
    and "cs = [ch] \<and> rest' = rest \<or> (\<exists>d. cs = [ch, d] \<and> ch \<noteq> CHR ''{'' \<and> d \<noteq> CHR ''{'' \<and> rest = d # rest')"
proof -
  show "cs = [ch] \<and> rest' = rest \<or> (\<exists>d. cs = [ch, d] \<and> ch \<noteq> CHR ''{'' \<and> d \<noteq> CHR ''{'' \<and> rest = d # rest')"
    using assms(2) by (cases rest) (auto simp: plain_step_def head_in_def split: if_splits option.splits)
  consider (line) "c = Some Line" | (block) "c = Some Block" | (quote) qc where "c = None" "q = Some qc"
    | (code) "c = None" "q = None"
    by (metis comment.exhaust option.exhaust)
  then show "agrees (lex_run st cs) (Some (last cs)) q' c' esc' rest'"
  proof cases
    case line
    then show ?thesis using assms by (auto simp: plain_step_def agrees_def head_in_def split: if_splits)
  next
    case block
    then show ?thesis using assms
      by (cases rest) (auto simp: plain_step_def agrees_def head_in_def split: if_splits)
  next
    case quote
    then show ?thesis using assms by (auto simp: plain_step_def agrees_def split: if_splits)
  next
    case code
    then show ?thesis using assms
      by (cases rest) (auto simp: plain_step_def agrees_def head_in_def code_step_def quote_char_def split: if_splits)
  qed
qed


lemma interpolate_hole:
  assumes "interpolate vals prev q c esc (CHR ''{'' # CHR ''{'' # rest) out = Inr res"
  obtains name after v where "split_close rest = Some (name, after)" "variableNameSchema name" "q = None" "c = None"
    "js_map_get vals name = Some v"
    "\<not> (case prev of None \<Rightarrow> False
        | Some b \<Rightarrow> \<not> (if is_number (js_map_get vals name) then before_number b else before_text b))"
    "interpolate vals (Some CHR ''}'') None None esc after (out @ literal_text v) = Inr res"
  using assms by (simp add: interpolate.simps(2) Let_def split: option.splits prod.splits if_splits)

lemma renders_plain:
  assumes "cs = [ch] \<and> rest' = rest \<or> (\<exists>d. cs = [ch, d] \<and> ch \<noteq> CHR ''{'' \<and> d \<noteq> CHR ''{'' \<and> rest = d # rest')"
    and "\<not> (ch = CHR ''{'' \<and> head_in rest ''{'')" "renders vals (lex_run st cs) rest' t st'"
  shows "renders vals st (ch # rest) (cs @ t) st'"
  using assms by (auto simp: head_in_def intro!: renders.char)

lemma interpolate_renders:
  assumes "finite_values vals" "agrees st prev q c esc rest" "interpolate vals prev q c esc rest out = Inr res"
  shows "\<exists>t st'. res = out @ t \<and> renders vals st rest t st'"
  using assms(2,3)
proof (induction rest arbitrary: st prev q c esc out rule: length_induct)
  case (1 rest)
  show ?case
  proof (cases rest)
    case Nil
    then show ?thesis using "1.prems" by (auto simp: interpolate.simps(1) intro: renders.empty)
  next
    case (Cons ch rest1)
    show ?thesis
    proof (cases "ch = CHR ''{'' \<and> head_in rest1 ''{''")
      case True
      then obtain rest2 where rest: "rest = CHR ''{'' # CHR ''{'' # rest2"
        using Cons by (cases rest1) (auto simp: head_in_def)
      from "1.prems"(2) [unfolded rest] show ?thesis
      proof (cases rule: interpolate_hole)
        case (1 name after v)
        have lit: "st \<in> {Code, Slash} \<and> one_literal st (literal_text v)"
          using placeholder_literal [OF assms(1)] "1.prems"(1) 1(3-6) by blast
        have "agrees Code (Some CHR ''}'') None None esc after"
          using "1.prems"(1) 1(3,4) by (simp add: agrees_def)
        moreover have "length after < length rest" using split_close_length [OF 1(1)] by (simp add: rest)
        ultimately obtain t st' where "res = (out @ literal_text v) @ t" "renders vals Code after t st'"
          using "1.IH" 1(7) by blast
        moreover have "rest = ''{{'' @ name @ ''}}'' @ after" using split_close_eq [OF 1(1)] by (simp add: rest)
        ultimately show ?thesis using renders.hole [OF _ 1(2,5)] lit by (metis append_assoc)
      qed
    next
      case False
      obtain cs q' c' esc' rest' where step: "plain_step q c esc ch rest1 = (cs, q', c', esc', rest')"
        by (metis prod_cases5)
      note agr = plain_step_agrees [OF "1.prems"(1) [unfolded Cons] step]
      have "length rest' < length rest" using agr(2) Cons by auto
      moreover have "interpolate vals (Some (last cs)) q' c' esc' rest' (out @ cs) = Inr res"
        using interpolate_plain [OF False step] "1.prems"(2) Cons by simp
      ultimately obtain t st' where "res = (out @ cs) @ t" "renders vals (lex_run st cs) rest' t st'"
        using "1.IH" agr(1) by blast
      then show ?thesis using renders_plain [OF agr(2) False] Cons by (metis append_assoc)
    qed
  qed
qed

lemma check_all_Inr: "check_all f xs = Inr ys \<Longrightarrow> map f xs = map Inr ys"
  by (induction xs arbitrary: ys) (auto split: sum.splits)

lemma check_literals:
  assumes "check_all check_literal variables = Inr vals"
  shows "vals = variables" "finite_values vals"
proof -
  have each: "check_literal e = Inr e' \<Longrightarrow> e' = e" for e e'
    by (auto simp: check_literal_def split: prod.splits if_splits literal.splits)
  have all: "map check_literal variables = map Inr vals" using assms by (rule check_all_Inr)
  then show eq: "vals = variables"
    by (metis (no_types, lifting) each length_map nth_equalityI nth_map)
  show "finite_values vals"
    unfolding finite_values_def
  proof (intro allI impI)
    fix name n assume "js_map_get vals name = Some (Num n)"
    then have "(name, Num n) \<in> set variables" using eq by (simp add: js_map_get_in)
    then have "check_literal (name, Num n) \<in> set (map Inr vals)" using all by (metis image_eqI list.set_map)
    then show "js_is_finite n" by (auto simp: check_literal_def split: if_splits)
  qed
qed

lemma interpolateLiterals_renders:
  assumes "interpolateLiterals query vals = Inr output" "finite_values vals"
  shows "renders vals Code query output (lex_run Code output)" "length output \<le> 8192"
proof -
  have run: "interpolate vals None None None False query [] = Inr output" and "length output \<le> 8192"
    using assms(1) by (auto simp: interpolateLiterals_def split: if_splits sum.splits)
  then show "length output \<le> 8192" by simp
  have "agrees Code None None None False query" by (simp add: agrees_def)
  then obtain st' where "renders vals Code query output st'"
    using interpolate_renders [OF assms(2) _ run] by auto
  then show "renders vals Code query output (lex_run Code output)" using renders_run by blast
qed

section \<open>Properties\<close>

text \<open>
  C10: the values put into a query cannot change its structure. When \<open>interpolateQueryLiterals\<close>
  returns, every placeholder of the query stands in plain code, outside strings and comments, and
  its text in the result is one complete literal: a double-quoted string that ends where the value
  ends, whatever the value contains, or a number. Everything else is copied, and the substituted
  text is not read again for placeholders. The result has at most 8192 characters.
\<close>

theorem interpolated_values_are_literals:
  assumes "interpolateQueryLiterals query variables = Inr output"
  shows "renders variables Code query output (lex_run Code output) \<and> length output \<le> 8192"
proof -
  obtain vals where checked: "check_all check_literal variables = Inr vals"
    and lits: "interpolateLiterals query vals = Inr output"
    using assms by (auto simp: interpolateQueryLiterals_def split: if_splits sum.splits)
  show ?thesis using interpolateLiterals_renders [OF lits] check_literals [OF checked] by simp
qed

theorem interpolated_values_are_literals_witness:
  "interpolateQueryLiterals ''up{job={{job}}}'' [(''job'', Text [CHR 0x22, CHR ''}'', CHR 0x5C])] =
     Inr (''up{job='' @ [CHR 0x22, CHR 0x5C, CHR 0x22, CHR ''}'', CHR 0x5C, CHR 0x5C, CHR 0x22] @ ''}'') \<and>
   renders [(''job'', Text [CHR 0x22, CHR ''}'', CHR 0x5C])] Code ''up{job={{job}}}''
     (''up{job='' @ [CHR 0x22, CHR 0x5C, CHR 0x22, CHR ''}'', CHR 0x5C, CHR 0x5C, CHR 0x22] @ ''}'') Code"
proof -
  let ?vals = "[(''job'', Text [CHR 0x22, CHR ''}'', CHR 0x5C])]"
  let ?out = "''up{job='' @ [CHR 0x22, CHR 0x5C, CHR 0x22, CHR ''}'', CHR 0x5C, CHR 0x5C, CHR 0x22] @ ''}''"
  have run: "interpolateQueryLiterals ''up{job={{job}}}'' ?vals = Inr ?out" by code_simp
  moreover have "lex_run Code ?out = Code" by code_simp
  ultimately show ?thesis using interpolated_values_are_literals [OF run] by simp
qed

end
