(* ===== verification/Drilldown.thy ===== *)
theory Drilldown
  imports QueryVariables
begin

text \<open>
  Drilldowns (\<open>ui/src/features/insights/drilldown.ts\<close> and \<open>widget-context.ts\<close>): the context a
  selected series or trace gives, the reason shown when a link cannot use it, and the resolution of
  a link into a navigation. An instant is the number of milliseconds its ISO text denotes.
\<close>

section \<open>Links and contexts\<close>

datatype binding_source = From_label | From_value | From_series | From_constant

record DrilldownBinding =
  db_variable :: string
  db_source :: binding_source
  db_value :: "string option"

record Drilldown =
  dd_id :: string
  dd_title :: string
  dd_dashboardId :: string
  dd_carryTimeRange :: "bool option"
  dd_bindings :: "DrilldownBinding list option"

text \<open>The value of a context may be absent (\<^const>\<open>None\<close>) or \<open>null\<close> (\<^term>\<open>Some None\<close>).\<close>

record DrilldownContext =
  dc_labels :: "(string, string) js_map option"
  dc_value :: "js_number option option"
  dc_series :: "string option"
  dc_timestamp :: "js_number option"

record DashboardNavigation =
  nav_dashboardId :: string
  nav_variables :: "variable_values option"
  nav_customTimeRange :: "(int \<times> int) option"

definition bindings_of :: "Drilldown \<Rightarrow> DrilldownBinding list" where
  "bindings_of link = (case dd_bindings link of Some bs \<Rightarrow> bs | None \<Rightarrow> [])"

section \<open>What a valid link is\<close>

text \<open>The checks of \<open>drilldownBindingSchema\<close> and \<open>drilldownSchema\<close>.\<close>

definition identifier_ok :: "string \<Rightarrow> bool" where
  "identifier_ok s \<longleftrightarrow>
     1 \<le> length s \<and> length s \<le> 80 \<and> (name_char (hd s) \<and> hd s \<noteq> CHR ''_'') \<and>
     list_all (\<lambda>c. name_char c \<or> c = CHR ''-'') (tl s)"

definition drilldownBindingSchema :: "DrilldownBinding \<Rightarrow> bool" where
  "drilldownBindingSchema b \<longleftrightarrow>
     variableNameSchema (db_variable b) \<and>
     (case db_value b of Some v \<Rightarrow> variableValueSchema v | None \<Rightarrow> True) \<and>
     \<not> (db_source b = From_label \<and>
         (case db_value b of None \<Rightarrow> True | Some v \<Rightarrow> length v = 0 \<or> 128 < length v)) \<and>
     \<not> (db_source b = From_constant \<and> db_value b = None) \<and>
     \<not> ((db_source b = From_value \<or> db_source b = From_series) \<and> db_value b \<noteq> None)"

definition drilldownSchema :: "Drilldown \<Rightarrow> bool" where
  "drilldownSchema link \<longleftrightarrow>
     identifier_ok (dd_id link) \<and> 1 \<le> length (trim (dd_title link)) \<and> length (trim (dd_title link)) \<le> 120 \<and>
     identifier_ok (dd_dashboardId link) \<and>
     (case dd_bindings link of
        None \<Rightarrow> True
      | Some bs \<Rightarrow> length bs \<le> MAX_DASHBOARD_VARIABLES \<and> list_all drilldownBindingSchema bs \<and>
          distinct (map db_variable bs))"

section \<open>Contexts\<close>

record Point =
  pt_timestamp :: js_number
  pt_value :: "js_number option"

record Series =
  se_name :: string
  se_labels :: "(string, string) js_map"
  se_points :: "Point list"

record Trace =
  tr_traceId :: string
  tr_service :: string
  tr_operation :: string
  tr_durationMs :: js_number
  tr_status :: string

definition validTimestamp :: "js_number \<Rightarrow> bool" where
  "validTimestamp v \<longleftrightarrow> (case v of Fin x \<Rightarrow> \<bar>x\<bar> \<le> 8640000000000000 | _ \<Rightarrow> False)"

definition finite_value :: "js_number option \<Rightarrow> bool" where
  "finite_value v \<longleftrightarrow> (case v of Some n \<Rightarrow> js_is_finite n | None \<Rightarrow> False)"

definition number_value :: "js_number option option \<Rightarrow> js_number option" where
  "number_value v = (case v of Some n \<Rightarrow> n | None \<Rightarrow> None)"

definition metricContext :: "Series \<Rightarrow> int \<Rightarrow> bool \<Rightarrow> DrilldownContext" where
  "metricContext s index latestScrape =
     (let name = js_or (se_name s) (js_or (js_join '', '' (map (\<lambda>(k, v). k @ ''='' @ v) (se_labels s)))
            (''Series '' @ int_str (index + 1)));
          point = foldl (\<lambda>latest current.
              if validTimestamp (pt_timestamp current) \<and> (latestScrape \<or> finite_value (pt_value current)) \<and>
                 (case latest of None \<Rightarrow> True | Some l \<Rightarrow> js_ge (pt_timestamp current) (pt_timestamp l))
              then Some current else latest) None (se_points s)
      in \<lparr>dc_labels = Some (se_labels s),
          dc_value = Some (case point of Some p \<Rightarrow> if finite_value (pt_value p) then pt_value p else None | None \<Rightarrow> None),
          dc_series = Some name, dc_timestamp = None\<rparr>)"

definition traceContext :: "Trace \<Rightarrow> DrilldownContext" where
  "traceContext t =
     \<lparr>dc_labels = Some [(''traceId'', tr_traceId t), (''service'', tr_service t), (''operation'', tr_operation t),
        (''status'', tr_status t)],
      dc_value = Some (if js_is_finite (tr_durationMs t) \<and> \<not> js_less (tr_durationMs t) (Fin 0) then Some (tr_durationMs t) else None),
      dc_series = Some (js_or (tr_service t) ''Unknown service'' @ dot_sep @ js_or (tr_operation t) (tr_traceId t)),
      dc_timestamp = None\<rparr>"

section \<open>The reason a link is unavailable\<close>

datatype context_reason = Select_first | No_label string | No_series | No_value

definition has_label :: "DrilldownContext \<Rightarrow> DrilldownBinding \<Rightarrow> bool" where
  "has_label ctx b \<longleftrightarrow>
     (case (dc_labels ctx, db_value b) of (Some ls, Some v) \<Rightarrow> js_map_get ls v \<noteq> None | _ \<Rightarrow> False)"

fun bindings_reason :: "DrilldownContext \<Rightarrow> DrilldownBinding list \<Rightarrow> context_reason option" where
  "bindings_reason ctx [] = None"
| "bindings_reason ctx (b # bs) =
     (if db_source b = From_constant then bindings_reason ctx bs
      else if dc_series ctx = None \<and> dc_labels ctx = None \<and> dc_value ctx = None then Some Select_first
      else if db_source b = From_label \<and> \<not> has_label ctx b then Some (No_label (the (db_value b)))
      else if db_source b = From_series \<and> dc_series ctx = None then Some No_series
      else if db_source b = From_value \<and> \<not> finite_value (number_value (dc_value ctx)) then Some No_value
      else bindings_reason ctx bs)"

definition drilldownContextReason :: "Drilldown \<Rightarrow> DrilldownContext \<Rightarrow> context_reason option" where
  "drilldownContextReason link ctx = bindings_reason ctx (bindings_of link)"

section \<open>Resolving a link\<close>

datatype drilldown_error =
    Invalid_link
  | Wrong_target
  | Missing_label string string
  | Missing_series string
  | Missing_value string
  | Bound_value_too_long string
  | Variable_error variable_error
  | Range_unavailable
  | Range_invalid

text \<open>
  \<open>new Date(seconds * 1000)\<close>: whole milliseconds within the range of dates; \<open>toISOString\<close> refuses
  anything else, and the schema accepts years of four digits only.
\<close>

fun date_ms :: "js_number \<Rightarrow> int option" where
  "date_ms (Fin x) = (if \<bar>x\<bar> \<le> 8640000000000000 then Some (if x < 0 then \<lceil>x\<rceil> else \<lfloor>x\<rfloor>) else None)"
| "date_ms _ = None"

definition four_digit_year :: "int \<Rightarrow> bool" where
  "four_digit_year ms \<longleftrightarrow> - 62167219200000 \<le> ms \<and> ms \<le> 253402300799999"

definition customTimeRangeSchema :: "int \<times> int \<Rightarrow> bool" where
  "customTimeRangeSchema r \<longleftrightarrow>
     (case r of (from, to') \<Rightarrow>
        four_digit_year from \<and> four_digit_year to' \<and>
        0 < from \<and> 0 < to' - from \<and> to' - from \<le> 31 * 24 * 60 * 60 * 1000)"

definition binding_value :: "DrilldownContext \<Rightarrow> DrilldownBinding \<Rightarrow> drilldown_error + string" where
  "binding_value ctx b =
     (case db_source b of
        From_constant \<Rightarrow> Inr (the (db_value b))
      | From_label \<Rightarrow>
          if \<not> has_label ctx b then Inl (Missing_label (the (db_value b)) (db_variable b))
          else Inr (the (js_map_get (the (dc_labels ctx)) (the (db_value b))))
      | From_series \<Rightarrow> (case dc_series ctx of None \<Rightarrow> Inl (Missing_series (db_variable b)) | Some s \<Rightarrow> Inr s)
      | From_value \<Rightarrow>
          if \<not> finite_value (number_value (dc_value ctx)) then Inl (Missing_value (db_variable b))
          else Inr (js_number_text (the (number_value (dc_value ctx)))))"

fun bind_all ::
    "DrilldownContext \<Rightarrow> DrilldownBinding list \<Rightarrow> variable_values \<Rightarrow> drilldown_error + variable_values" where
  "bind_all ctx [] overrides = Inr overrides"
| "bind_all ctx (b # bs) overrides =
     (case binding_value ctx b of
        Inl e \<Rightarrow> Inl e
      | Inr v \<Rightarrow>
          if variableValueSchema v then bind_all ctx bs (js_map_set (db_variable b) v overrides)
          else Inl (Bound_value_too_long (db_variable b)))"

definition carried_range :: "(js_number \<times> js_number) option \<Rightarrow> drilldown_error + (int \<times> int)" where
  "carried_range bounds =
     (case bounds of
        None \<Rightarrow> Inl Range_unavailable
      | Some (start, end') \<Rightarrow>
          if \<not> js_is_finite start \<or> \<not> js_is_finite end' then Inl Range_unavailable
          else case (date_ms (js_mul_const start 1000), date_ms (js_mul_const end' 1000)) of
              (Some from, Some to') \<Rightarrow> if customTimeRangeSchema (from, to') then Inr (from, to') else Inl Range_invalid
            | _ \<Rightarrow> Inl Range_invalid)"

definition resolveDrilldown ::
    "Drilldown \<Rightarrow> DrilldownContext \<Rightarrow> string \<Rightarrow> DashboardVariable list option \<Rightarrow> (js_number \<times> js_number) option \<Rightarrow>
     drilldown_error + DashboardNavigation" where
  "resolveDrilldown link ctx targetId targetVariables currentBounds =
     (if \<not> drilldownSchema link then Inl Invalid_link
      else if targetId \<noteq> dd_dashboardId link then Inl Wrong_target
      else case bind_all ctx (bindings_of link) [] of
          Inl e \<Rightarrow> Inl e
        | Inr overrides \<Rightarrow>
            (case resolveDashboardVariables targetVariables overrides of
               Inl e \<Rightarrow> Inl (Variable_error e)
             | Inr vars \<Rightarrow>
                 let nav = \<lparr>nav_dashboardId = targetId, nav_variables = Some vars, nav_customTimeRange = None\<rparr> in
                 if dd_carryTimeRange link \<noteq> Some False then
                   (case carried_range currentBounds of
                      Inl e \<Rightarrow> Inl e
                    | Inr r \<Rightarrow> Inr (nav\<lparr>nav_customTimeRange := Some r\<rparr>))
                 else Inr nav))"

text \<open>Selections on a dashboard keep the other current filters.\<close>

definition resolveSelectionBindings ::
    "DrilldownBinding list \<Rightarrow> DrilldownContext \<Rightarrow> string \<Rightarrow> DashboardVariable list option \<Rightarrow> variable_values \<Rightarrow>
     drilldown_error + variable_values" where
  "resolveSelectionBindings bindings ctx dashboardId variables current =
     (case resolveDrilldown
         \<lparr>dd_id = ''selection'', dd_title = ''Selection'', dd_dashboardId = dashboardId,
          dd_carryTimeRange = Some False, dd_bindings = Some bindings\<rparr> ctx dashboardId variables None of
        Inl e \<Rightarrow> Inl e
      | Inr nav \<Rightarrow>
          let resolved = the (nav_variables nav);
              selected = map (\<lambda>b. (db_variable b, the (js_map_get resolved (db_variable b)))) bindings;
              merged = foldl (\<lambda>m (k, s). js_map_set k s m) current selected
          in case resolveDashboardVariables variables merged of
               Inl e \<Rightarrow> Inl (Variable_error e)
             | Inr vars \<Rightarrow> Inr vars)"


section \<open>Resolution\<close>

lemma foldl_map_set_get:
  "js_map_get (foldl (\<lambda>m (k, s). js_map_set k s m) m0 ps) k =
     (case map_of (rev ps) k of Some s \<Rightarrow> Some s | None \<Rightarrow> js_map_get m0 k)"
proof (induction ps arbitrary: m0)
  case (Cons p ps)
  then show ?case by (cases p) (auto simp: js_container_simps map_add_def split: option.splits)
qed simp

lemma checkedValues_object:
  assumes "checkedValues (values_object overrides) = Inr vals"
  shows "vals = overrides" "length overrides \<le> MAX_DASHBOARD_VARIABLES"
    "\<forall>(k, s) \<in> set overrides. variableNameSchema k \<and> variableValueSchema s"
proof -
  have len: "length overrides \<le> MAX_DASHBOARD_VARIABLES"
    and all: "check_all check_entry (map (\<lambda>(k, s). (k, JString s)) overrides) = Inr vals"
    using assms by (auto simp: checkedValues_def values_object_def split: if_splits)
  then show "length overrides \<le> MAX_DASHBOARD_VARIABLES" by simp
  have "vals = overrides \<and> (\<forall>(k, s) \<in> set overrides. variableNameSchema k \<and> variableValueSchema s)"
    using all
    by (induction overrides arbitrary: vals) (auto simp: check_entry_def split: sum.splits if_splits)
  then show "vals = overrides" "\<forall>(k, s) \<in> set overrides. variableNameSchema k \<and> variableValueSchema s" by auto
qed

text \<open>A declared variable has its override or else its default.\<close>

definition variable_value :: "variable_values \<Rightarrow> DashboardVariable \<Rightarrow> string option" where
  "variable_value overrides v =
     (case js_map_get overrides (dv_name v) of Some s \<Rightarrow> Some s | None \<Rightarrow> dv_defaultValue v)"

lemma concat_variable_parts:
  assumes "check_all (\<lambda>v. case variable_value overrides v of
        None \<Rightarrow> Inr []
      | Some s \<Rightarrow> if variableValueSchema s then Inr [(dv_name v, s)] else Inl (Invalid_value (dv_name v))) ds = Inr parts"
  shows "concat parts = List.map_filter (\<lambda>v. map_option (Pair (dv_name v)) (variable_value overrides v)) ds"
  using assms
  by (induction ds arbitrary: parts) (auto simp: List.map_filter_simps split: sum.splits option.splits if_splits)

lemma map_filter_get:
  assumes "distinct (map dv_name ds)" "v \<in> set ds"
  shows "map_of (rev (List.map_filter (\<lambda>v. map_option (Pair (dv_name v)) (f v)) ds)) (dv_name v) = f v"
proof -
  let ?ps = "List.map_filter (\<lambda>v. map_option (Pair (dv_name v)) (f v)) ds"
  have keys: "set (map fst ?ps) \<subseteq> dv_name ` set ds" and dist: "distinct (map fst ?ps)"
    using assms(1) by (induction ds) (auto simp: List.map_filter_simps split: option.splits)
  have mem: "(dv_name v, s) \<in> set ?ps \<longleftrightarrow> f v = Some s" for s
  proof -
    have "(dv_name v, s) \<in> set ?ps \<longleftrightarrow> (\<exists>u \<in> set ds. dv_name u = dv_name v \<and> f u = Some s)"
      by (force simp: List.map_filter_def)
    also have "\<dots> \<longleftrightarrow> f v = Some s" using assms by (metis distinct_map inj_onD)
    finally show ?thesis .
  qed
  have "distinct (map fst (rev ?ps))" using dist by (simp add: rev_map [symmetric])
  then have get: "map_of (rev ?ps) (dv_name v) = Some s \<longleftrightarrow> f v = Some s" for s
    using mem by simp
  then show ?thesis by (metis not_Some_eq)
qed

lemma resolveDashboardVariables_Inr:
  assumes "resolveDashboardVariables (Some ds) overrides = Inr vars" "distinct (map dv_name ds)"
  shows "\<forall>v \<in> set ds. js_map_get vars (dv_name v) = variable_value overrides v"
    and "fst ` set overrides \<subseteq> dv_name ` set ds"
proof -
  obtain vals where checked: "checkedValues (values_object overrides) = Inr vals"
    using assms(1) by (auto simp: resolveDashboardVariables_def split: sum.splits)
  note vals = checkedValues_object(1) [OF checked]
  have none: "find (\<lambda>key. key \<notin> dv_name ` set ds) (map fst overrides) = None"
    using assms(1) checked vals
    by (auto simp: resolveDashboardVariables_def Let_def image_image split: option.splits)
  then show "fst ` set overrides \<subseteq> dv_name ` set ds" by (auto simp: find_None_iff)
  obtain parts where parts: "check_all (\<lambda>v. case variable_value overrides v of
        None \<Rightarrow> Inr []
      | Some s \<Rightarrow> if variableValueSchema s then Inr [(dv_name v, s)] else Inl (Invalid_value (dv_name v))) ds = Inr parts"
    and vars: "vars = foldl (\<lambda>m (k, s). js_map_set k s m) [] (concat parts)"
    using assms(1) checked vals none
    by (auto simp: resolveDashboardVariables_def Let_def variable_value_def split: sum.splits option.splits)
  show "\<forall>v \<in> set ds. js_map_get vars (dv_name v) = variable_value overrides v"
    unfolding vars foldl_map_set_get concat_variable_parts [OF parts]
    by (simp add: map_filter_get [OF assms(2)] split: option.split)
qed


text \<open>What the bindings of a link set.\<close>

lemma bind_all_Inr:
  assumes "bind_all ctx bs overrides = Inr vals" "distinct (map db_variable bs)"
  shows "\<forall>b \<in> set bs. \<exists>v. binding_value ctx b = Inr v \<and> js_map_get vals (db_variable b) = Some v"
    and "\<forall>k. k \<notin> db_variable ` set bs \<longrightarrow> js_map_get vals k = js_map_get overrides k"
proof -
  have "(\<forall>b \<in> set bs. \<exists>v. binding_value ctx b = Inr v \<and> js_map_get vals (db_variable b) = Some v) \<and>
      (\<forall>k. k \<notin> db_variable ` set bs \<longrightarrow> js_map_get vals k = js_map_get overrides k)"
    using assms
  proof (induction bs arbitrary: overrides)
    case (Cons b bs)
    obtain v where v: "binding_value ctx b = Inr v" "bind_all ctx bs (js_map_set (db_variable b) v overrides) = Inr vals"
      using Cons.prems(1) by (auto split: sum.splits if_splits)
    have "distinct (map db_variable bs)" "db_variable b \<notin> db_variable ` set bs" using Cons.prems(2) by auto
    with Cons.IH [OF v(2)] v(1) show ?case by (auto simp: js_container_simps)
  qed simp
  then show "\<forall>b \<in> set bs. \<exists>v. binding_value ctx b = Inr v \<and> js_map_get vals (db_variable b) = Some v"
    "\<forall>k. k \<notin> db_variable ` set bs \<longrightarrow> js_map_get vals k = js_map_get overrides k" by auto
qed

text \<open>A reason is shown exactly when some binding has no value in the context.\<close>

lemma bindings_reason_None:
  "bindings_reason ctx bs = None \<longleftrightarrow> (\<forall>b \<in> set bs. \<exists>v. binding_value ctx b = Inr v)"
proof (induction bs)
  case (Cons b bs)
  show ?case
  proof (cases "db_source b")
    case From_label
    then show ?thesis using Cons by (auto simp: binding_value_def has_label_def split: option.splits)
  next
    case From_value
    then show ?thesis using Cons by (auto simp: binding_value_def finite_value_def number_value_def split: option.splits)
  next
    case From_series
    then show ?thesis using Cons by (auto simp: binding_value_def split: option.splits)
  next
    case From_constant
    then show ?thesis using Cons by (auto simp: binding_value_def)
  qed
qed simp

lemma bind_all_missing: "bind_all ctx bs overrides = Inr vals \<Longrightarrow> bindings_reason ctx bs = None"
  unfolding bindings_reason_None by (induction bs arbitrary: overrides) (auto split: sum.splits if_splits)

definition missing_context :: "drilldown_error \<Rightarrow> bool" where
  "missing_context e \<longleftrightarrow> (case e of Missing_label l v \<Rightarrow> True | Missing_series v \<Rightarrow> True | Missing_value v \<Rightarrow> True | _ \<Rightarrow> False)"

lemma bind_all_error:
  "bindings_reason ctx bs = None \<Longrightarrow> bind_all ctx bs overrides = Inl e \<Longrightarrow> \<not> missing_context e"
  unfolding bindings_reason_None
  by (induction bs arbitrary: overrides) (auto simp: missing_context_def split: sum.splits if_splits)

lemma resolveDashboardVariables_declared:
  assumes "resolveDashboardVariables (Some ds) overrides = Inr vars" "distinct (map dv_name ds)" "js_map_get vars k = Some s"
  shows "k \<in> dv_name ` set ds"
proof -
  obtain vals where checked: "checkedValues (values_object overrides) = Inr vals"
    using assms(1) by (auto simp: resolveDashboardVariables_def split: sum.splits)
  note vals = checkedValues_object(1) [OF checked]
  obtain parts where parts: "check_all (\<lambda>v. case variable_value overrides v of
        None \<Rightarrow> Inr []
      | Some s \<Rightarrow> if variableValueSchema s then Inr [(dv_name v, s)] else Inl (Invalid_value (dv_name v))) ds = Inr parts"
    and vars: "vars = foldl (\<lambda>m (k, s). js_map_set k s m) [] (concat parts)"
    using assms(1) checked vals
    by (auto simp: resolveDashboardVariables_def Let_def variable_value_def split: sum.splits option.splits)
  have "map_of (rev (concat parts)) k = Some s"
    using assms(3) unfolding vars foldl_map_set_get by (simp split: option.splits)
  then have "(k, s) \<in> set (concat parts)" by (auto dest: map_of_SomeD)
  then show ?thesis unfolding concat_variable_parts [OF parts] by (auto simp: List.map_filter_def)
qed

text \<open>What a binding gives, by its source: written out over the link and the selected signal.\<close>

definition selected_value :: "DrilldownContext \<Rightarrow> DrilldownBinding \<Rightarrow> string \<Rightarrow> bool" where
  "selected_value ctx b v \<longleftrightarrow>
     (case db_source b of
        From_constant \<Rightarrow> db_value b = Some v
      | From_label \<Rightarrow> \<exists>labels name. dc_labels ctx = Some labels \<and> db_value b = Some name \<and> js_map_get labels name = Some v
      | From_series \<Rightarrow> dc_series ctx = Some v
      | From_value \<Rightarrow> \<exists>x. dc_value ctx = Some (Some (Fin x)) \<and> v = rat_text x)"

lemma binding_value_selected:
  assumes "binding_value ctx b = Inr v" "drilldownBindingSchema b"
  shows "selected_value ctx b v"
proof (cases "db_source b")
  case From_value
  then obtain n where "dc_value ctx = Some (Some n)" "js_is_finite n" "v = js_number_text n"
    using assms(1) by (auto simp: binding_value_def finite_value_def number_value_def split: if_splits option.splits)
  then show ?thesis using From_value by (cases n) (auto simp: selected_value_def)
qed (use assms in \<open>auto simp: binding_value_def selected_value_def has_label_def drilldownBindingSchema_def
      split: if_splits option.splits\<close>)

lemma date_ms_positive: "date_ms n = Some t \<Longrightarrow> 0 < t \<Longrightarrow> \<exists>x. n = Fin x \<and> t = \<lfloor>x\<rfloor>"
  by (cases n) (auto split: if_splits simp: not_less)

lemma carried_range_Inr:
  assumes "carried_range bounds = Inr (t0, t1)"
  shows "0 < t0 \<and> t0 < t1 \<and> t1 - t0 \<le> 2678400000 \<and>
    (\<exists>start end' x y. bounds = Some (Fin start, Fin end') \<and> fl (start * 1000) = Fin x \<and> fl (end' * 1000) = Fin y \<and>
      t0 = \<lfloor>x\<rfloor> \<and> t1 = \<lfloor>y\<rfloor>)"
proof -
  obtain start end' where bounds: "bounds = Some (start, end')" "js_is_finite start" "js_is_finite end'"
    and ms: "date_ms (js_mul_const start 1000) = Some t0" "date_ms (js_mul_const end' 1000) = Some t1"
    and range: "customTimeRangeSchema (t0, t1)"
    using assms by (auto simp: carried_range_def split: option.splits if_splits prod.splits)
  have order: "0 < t0" "t0 < t1" "t1 - t0 \<le> 2678400000" using range by (simp_all add: customTimeRangeSchema_def)
  obtain s e where "start = Fin s" "end' = Fin e" using bounds(2,3) by (cases start; cases end') auto
  moreover obtain x y where "js_mul_const start 1000 = Fin x" "t0 = \<lfloor>x\<rfloor>" "js_mul_const end' 1000 = Fin y" "t1 = \<lfloor>y\<rfloor>"
    using date_ms_positive [OF ms(1)] date_ms_positive [OF ms(2)] order by (meson less_trans)
  ultimately show ?thesis using bounds(1) order by auto
qed

section \<open>Properties\<close>

definition example_link :: Drilldown where
  "example_link = \<lparr>dd_id = ''link'', dd_title = ''Service'', dd_dashboardId = ''service'', dd_carryTimeRange = Some False,
     dd_bindings = Some [\<lparr>db_variable = ''job'', db_source = From_label, db_value = Some ''job''\<rparr>]\<rparr>"

definition example_context :: DrilldownContext where
  "example_context = \<lparr>dc_labels = Some [(''job'', ''api'')], dc_value = None, dc_series = Some ''up'', dc_timestamp = None\<rparr>"

definition example_variables :: "DashboardVariable list" where
  "example_variables =
     [\<lparr>dv_name = ''job'', dv_label = None, dv_defaultValue = None, dv_options = None\<rparr>,
      \<lparr>dv_name = ''env'', dv_label = None, dv_defaultValue = Some ''prod'', dv_options = None\<rparr>]"

text \<open>
  The reason shown for a link agrees with following it. A link shown with a reason cannot be
  followed; a link shown without one never fails for a label, series or value that the selected
  signal lacks.
\<close>

theorem shown_reason_agrees_with_following:
  "(drilldownContextReason link ctx \<noteq> None \<longrightarrow> (\<exists>e. resolveDrilldown link ctx targetId vars bounds = Inl e)) \<and>
   (drilldownContextReason link ctx = None \<longrightarrow>
      (\<forall>e. resolveDrilldown link ctx targetId vars bounds = Inl e \<longrightarrow> \<not> missing_context e))"
proof (intro conjI impI allI)
  assume "drilldownContextReason link ctx \<noteq> None"
  then have "\<exists>e. bind_all ctx (bindings_of link) [] = Inl e"
    using bind_all_missing [of ctx "bindings_of link" "[]"]
    by (cases "bind_all ctx (bindings_of link) []") (auto simp: drilldownContextReason_def)
  then show "\<exists>e. resolveDrilldown link ctx targetId vars bounds = Inl e"
    by (auto simp: resolveDrilldown_def)
next
  fix e assume none: "drilldownContextReason link ctx = None" and err: "resolveDrilldown link ctx targetId vars bounds = Inl e"
  have carried: "carried_range b = Inl x \<Longrightarrow> \<not> missing_context x" for b x
    by (auto simp: carried_range_def missing_context_def split: option.splits if_splits prod.splits)
  show "\<not> missing_context e"
    using err bind_all_error [of ctx "bindings_of link" "[]"] none carried
    by (auto simp: resolveDrilldown_def drilldownContextReason_def Let_def missing_context_def
        split: if_splits sum.splits)
qed

theorem shown_reason_agrees_with_following_witness:
  "drilldownContextReason example_link \<lparr>dc_labels = None, dc_value = None, dc_series = Some ''up'', dc_timestamp = None\<rparr> = Some (No_label ''job'') \<and>
   (\<exists>e. resolveDrilldown example_link \<lparr>dc_labels = None, dc_value = None, dc_series = Some ''up'', dc_timestamp = None\<rparr> ''service'' None None = Inl e)"
proof -
  let ?ctx = "\<lparr>dc_labels = None, dc_value = None, dc_series = Some ''up'', dc_timestamp = None\<rparr>"
  have reason: "drilldownContextReason example_link ?ctx = Some (No_label ''job'')" by code_simp
  then have "drilldownContextReason example_link ?ctx \<noteq> None" by simp
  with shown_reason_agrees_with_following [of example_link ?ctx "''service''" None None] reason
  show ?thesis by blast
qed

text \<open>
  C36: following a link opens the dashboard it names. Every variable the link binds is set to what its binding names:
  a constant as written, the value that the selected signal has for the label, the name of its series, or the
  text of its finite value. Every other declared variable has its default, and only declared variables are set. The
  time range is carried exactly when the link does not switch that off: its ends are the current bounds, in seconds,
  as whole milliseconds, and it is an increasing one of at most 31 days.
\<close>

theorem followed_link_carries_selection:
  assumes "resolveDrilldown link ctx targetId (Some ds) bounds = Inr nav" "distinct (map dv_name ds)"
  shows "nav_dashboardId nav = dd_dashboardId link \<and>
    (\<exists>vars. nav_variables nav = Some vars \<and>
       (\<forall>b \<in> set (bindings_of link). \<exists>v. js_map_get vars (db_variable b) = Some v \<and>
          (case db_source b of
             From_constant \<Rightarrow> db_value b = Some v
           | From_label \<Rightarrow> \<exists>labels name. dc_labels ctx = Some labels \<and> db_value b = Some name \<and> js_map_get labels name = Some v
           | From_series \<Rightarrow> dc_series ctx = Some v
           | From_value \<Rightarrow> \<exists>x. dc_value ctx = Some (Some (Fin x)) \<and> v = rat_text x)) \<and>
       (\<forall>d \<in> set ds. dv_name d \<notin> db_variable ` set (bindings_of link) \<longrightarrow> js_map_get vars (dv_name d) = dv_defaultValue d) \<and>
       (\<forall>k v. js_map_get vars k = Some v \<longrightarrow> k \<in> dv_name ` set ds)) \<and>
    (nav_customTimeRange nav = None \<longleftrightarrow> dd_carryTimeRange link = Some False) \<and>
    (\<forall>from to'. nav_customTimeRange nav = Some (from, to') \<longrightarrow> 0 < from \<and> from < to' \<and> to' - from \<le> 31 * 24 * 60 * 60 * 1000 \<and>
      (\<exists>start end' x y. bounds = Some (Fin start, Fin end') \<and> fl (start * 1000) = Fin x \<and> fl (end' * 1000) = Fin y \<and>
        from = \<lfloor>x\<rfloor> \<and> to' = \<lfloor>y\<rfloor>))"
proof -
  obtain overrides vars where link: "drilldownSchema link" and target: "targetId = dd_dashboardId link"
    and bound: "bind_all ctx (bindings_of link) [] = Inr overrides"
    and resolved: "resolveDashboardVariables (Some ds) overrides = Inr vars"
    and nav: "nav_dashboardId nav = targetId" "nav_variables nav = Some vars"
    and carry: "dd_carryTimeRange link = Some False \<and> nav_customTimeRange nav = None \<or>
      dd_carryTimeRange link \<noteq> Some False \<and> (\<exists>r. carried_range bounds = Inr r \<and> nav_customTimeRange nav = Some r)"
    using assms(1) by (auto simp: resolveDrilldown_def Let_def split: if_splits sum.splits)
  have bindings: "distinct (map db_variable (bindings_of link))" "\<forall>b \<in> set (bindings_of link). drilldownBindingSchema b"
    using link by (auto simp: drilldownSchema_def bindings_of_def list_all_iff split: option.splits)
  note set_by = bind_all_Inr [OF bound bindings(1)]
  note decl = resolveDashboardVariables_Inr [OF resolved assms(2)]
  have "\<exists>v. js_map_get vars (db_variable b) = Some v \<and> selected_value ctx b v" if b: "b \<in> set (bindings_of link)" for b
  proof -
    obtain v where v: "binding_value ctx b = Inr v" "js_map_get overrides (db_variable b) = Some v" using set_by(1) b by blast
    then have "db_variable b \<in> fst ` set overrides" using js_map_get_in by force
    then obtain d where "d \<in> set ds" "dv_name d = db_variable b" using decl(2) by force
    then have "js_map_get vars (db_variable b) = Some v" using decl(1) v(2) by (metis option.simps(5) variable_value_def)
    then show ?thesis using binding_value_selected [OF v(1)] bindings(2) b by blast
  qed
  moreover have "js_map_get vars (dv_name d) = dv_defaultValue d"
    if "d \<in> set ds" "dv_name d \<notin> db_variable ` set (bindings_of link)" for d
    using decl(1) that set_by(2) by (simp add: variable_value_def)
  moreover have "\<forall>k v. js_map_get vars k = Some v \<longrightarrow> k \<in> dv_name ` set ds"
    using resolveDashboardVariables_declared [OF resolved assms(2)] by blast
  moreover have "nav_customTimeRange nav = None \<longleftrightarrow> dd_carryTimeRange link = Some False" using carry by auto
  moreover have "0 < t0 \<and> t0 < t1 \<and> t1 - t0 \<le> 31 * 24 * 60 * 60 * 1000 \<and>
      (\<exists>start end' x y. bounds = Some (Fin start, Fin end') \<and> fl (start * 1000) = Fin x \<and> fl (end' * 1000) = Fin y \<and>
        t0 = \<lfloor>x\<rfloor> \<and> t1 = \<lfloor>y\<rfloor>)" if "nav_customTimeRange nav = Some (t0, t1)" for t0 t1
    using carry that carried_range_Inr [of bounds t0 t1] by auto
  ultimately show ?thesis using nav target unfolding selected_value_def by blast
qed

theorem followed_link_carries_selection_witness:
  "\<exists>nav vars. resolveDrilldown example_link example_context ''service'' (Some example_variables) None = Inr nav \<and>
     nav_variables nav = Some vars \<and> nav_dashboardId nav = ''service'' \<and> js_map_get vars ''job'' = Some ''api'' \<and>
     js_map_get vars ''env'' = Some ''prod''"
proof -
  have "case resolveDrilldown example_link example_context ''service'' (Some example_variables) None of
      Inr nav \<Rightarrow> True | Inl e \<Rightarrow> False" by code_simp
  then obtain nav where nav: "resolveDrilldown example_link example_context ''service'' (Some example_variables) None = Inr nav"
    by (auto split: sum.splits)
  have names: "distinct (map dv_name example_variables)" by code_simp
  show ?thesis
    using followed_link_carries_selection [OF nav names] nav
    by (auto simp: example_link_def example_variables_def example_context_def bindings_of_def js_map_get_def)
qed

end
