(* ===== verification/DashboardTypes.thy ===== *)
theory DashboardTypes
  imports Drilldown QueryScheduler LayoutEdit
begin

text \<open>
  The documents of a dashboard workspace (\<open>ui/src/features/insights/schema.ts\<close>): saved queries with
  typed parameters, the references of widgets to them, widgets and dashboards. A document has its
  declared type: a field the schema does not declare has no place in the records, and the constant
  \<open>schemaVersion\<close> is left out of them.
\<close>

section \<open>Saved queries\<close>

datatype parameter_type = Text_parameter | Number_parameter

record SavedQueryParameter =
  sp_name :: string
  sp_label :: "string option"
  sp_type :: parameter_type
  sp_defaultValue :: "literal option"

record SavedQuery =
  sq_id :: string
  sq_name :: string
  sq_description :: "string option"
  sq_imageUrl :: "string option"
  sq_tags :: "string list option"
  sq_metadata :: "(string \<times> string) list option"
  sq_providerId :: string
  sq_kind :: DataKind
  sq_query :: string
  sq_parameters :: "SavedQueryParameter list option"

datatype observation_field = Field_value | Field_timestamp | Field_series

datatype SavedQueryBinding =
    Bind_variable string string
  | Bind_constant string literal
  | Bind_label string string
  | Bind_field string observation_field

fun binding_parameter :: "SavedQueryBinding \<Rightarrow> string" where
  "binding_parameter (Bind_variable p v) = p"
| "binding_parameter (Bind_constant p v) = p"
| "binding_parameter (Bind_label p l) = p"
| "binding_parameter (Bind_field p f) = p"

record SavedQueryReference =
  sr_id :: string
  sr_bindings :: "SavedQueryBinding list option"

text \<open>\<open>xs ?? []\<close>.\<close>

definition list_of :: "'a list option \<Rightarrow> 'a list" where
  "list_of xs = (case xs of Some ys \<Rightarrow> ys | None \<Rightarrow> [])"

lemma list_of_simps [simp]: "list_of None = []" "list_of (Some xs) = xs"
  by (simp_all add: list_of_def)

section \<open>The schemas of saved queries\<close>

definition RESERVED_NAMES :: "string list" where
  "RESERVED_NAMES = [''__proto__'', ''prototype'', ''constructor'']"

definition default_fits :: "SavedQueryParameter \<Rightarrow> bool" where
  "default_fits p \<longleftrightarrow>
     (case sp_defaultValue p of
        None \<Rightarrow> True
      | Some (Text s) \<Rightarrow> variableValueSchema s \<and> sp_type p = Text_parameter
      | Some (Num n) \<Rightarrow> js_is_finite n \<and> sp_type p = Number_parameter)"

definition savedQueryParameterSchema :: "SavedQueryParameter \<Rightarrow> bool" where
  "savedQueryParameterSchema p \<longleftrightarrow>
     variableNameSchema (sp_name p) \<and>
     (case sp_label p of Some l \<Rightarrow> length l \<le> 80 | None \<Rightarrow> True) \<and> default_fits p"

text \<open>
  \<open>url_ok\<close> is what the platform's URL parser says of an absolute address: it parses, its protocol is
  \<open>https:\<close>, it has a host and no credentials.
\<close>

definition savedQueryImageUrlSchema :: "(string \<Rightarrow> bool) \<Rightarrow> string \<Rightarrow> bool" where
  "savedQueryImageUrlSchema url_ok value \<longleftrightarrow>
     1 \<le> length value \<and> length value \<le> 2048 \<and>
     list_all (\<lambda>c. \<not> js_space c \<and> 32 \<le> (of_char c :: nat) \<and> c \<noteq> CHR 0x7F \<and> c \<noteq> CHR 0x5C) value \<and>
     (if take 1 value = ''/'' then take 2 value \<noteq> ''//''
      else take 8 value = ''https://'' \<and>
        (let authority = takeWhile (\<lambda>c. c \<notin> set ''/?#'') (drop 8 value)
         in authority \<noteq> [] \<and> CHR ''@'' \<notin> set authority) \<and>
        url_ok value)"

definition savedQueryTagSchema :: "string \<Rightarrow> bool" where
  "savedQueryTagSchema t \<longleftrightarrow> 1 \<le> length t \<and> length t \<le> 32 \<and> t = trim t"

definition savedQueryMetadataSchema :: "(string \<times> string) list \<Rightarrow> bool" where
  "savedQueryMetadataSchema m \<longleftrightarrow>
     length m \<le> 12 \<and>
     list_all (\<lambda>(k, v). 1 \<le> length k \<and> length k \<le> 64 \<and> k = trim k \<and> k \<notin> set RESERVED_NAMES \<and> length v \<le> 256) m"

text \<open>\<open>savedQuerySchema.parse\<close> trims the name and the query; \<^const>\<open>None\<close> where it throws.\<close>

definition savedQuerySchema :: "(string \<Rightarrow> bool) \<Rightarrow> SavedQuery \<Rightarrow> SavedQuery option" where
  "savedQuerySchema url_ok q =
     (let checked = q\<lparr>sq_name := trim (sq_name q), sq_query := trim (sq_query q)\<rparr> in
      if identifier_ok (sq_id q) \<and> 1 \<le> length (sq_name checked) \<and> length (sq_name checked) \<le> 120 \<and>
         (case sq_description q of Some d \<Rightarrow> length d \<le> 500 | None \<Rightarrow> True) \<and>
         (case sq_imageUrl q of Some u \<Rightarrow> savedQueryImageUrlSchema url_ok u | None \<Rightarrow> True) \<and>
         (case sq_tags q of Some ts \<Rightarrow> length ts \<le> 12 \<and> list_all savedQueryTagSchema ts \<and> distinct ts | None \<Rightarrow> True) \<and>
         (case sq_metadata q of Some m \<Rightarrow> savedQueryMetadataSchema m | None \<Rightarrow> True) \<and>
         identifier_ok (sq_providerId q) \<and>
         1 \<le> length (sq_query checked) \<and> length (sq_query checked) \<le> 8192 \<and>
         length (list_of (sq_parameters q)) \<le> MAX_DASHBOARD_VARIABLES \<and>
         list_all savedQueryParameterSchema (list_of (sq_parameters q)) \<and>
         distinct (map sp_name (list_of (sq_parameters q)))
      then Some checked else None)"

definition literal_ok :: "literal \<Rightarrow> bool" where
  "literal_ok v \<longleftrightarrow> (case v of Text s \<Rightarrow> variableValueSchema s | Num n \<Rightarrow> js_is_finite n)"

fun savedQueryBindingSchema :: "SavedQueryBinding \<Rightarrow> bool" where
  "savedQueryBindingSchema (Bind_variable p v) = (variableNameSchema p \<and> variableNameSchema v)"
| "savedQueryBindingSchema (Bind_constant p v) = (variableNameSchema p \<and> literal_ok v)"
| "savedQueryBindingSchema (Bind_label p l) = (variableNameSchema p \<and> 1 \<le> length l \<and> length l \<le> 128)"
| "savedQueryBindingSchema (Bind_field p f) = variableNameSchema p"

definition savedQueryReferenceSchema :: "SavedQueryReference \<Rightarrow> bool" where
  "savedQueryReferenceSchema ref \<longleftrightarrow>
     identifier_ok (sr_id ref) \<and> length (list_of (sr_bindings ref)) \<le> MAX_DASHBOARD_VARIABLES \<and>
     list_all savedQueryBindingSchema (list_of (sr_bindings ref)) \<and>
     distinct (map binding_parameter (list_of (sr_bindings ref)))"

section \<open>Widgets and dashboards\<close>

datatype widget_type = Timeseries | Bar | Stat | Table | Traces_widget | Heatmap | Plugin

datatype TooltipBinding =
    Tooltip_label string string
  | Tooltip_field string observation_field

datatype TooltipSource =
    Tooltip_series
  | Tooltip_widget
  | Tooltip_saved SavedQueryReference
  | Tooltip_query string string "TooltipBinding list option"

record TooltipView =
  tv_type :: widget_type
  tv_height :: "js_number option"
  tv_showGrid :: "bool option"
  tv_showAxis :: "bool option"
  tv_showLegend :: "bool option"
  tv_showSparkline :: "bool option"
  tv_title :: "string option"
  tv_unit :: "string option"
  tv_color :: "string option"
  tv_decimals :: "js_number option"
  tv_source :: "TooltipSource option"
  tv_pluginId :: "string option"
  tv_dataKind :: "DataKind option"
  tv_config :: "js_value option"

record Threshold =
  th_value :: js_number
  th_color :: string
  th_label :: "string option"

record ReferenceLine =
  rl_value :: js_number
  rl_label :: "string option"
  rl_color :: "string option"

record SeriesColorRule =
  cr_label :: string
  cr_value :: string
  cr_color :: string

datatype chart_display = Display_line | Display_area
datatype sparkline_placement = Sparkline_background | Sparkline_side
datatype stat_icon = Icon_arrow_down | Icon_arrow_up | Icon_shield | Icon_network | Icon_activity | Icon_target | Icon_pie
datatype tooltip_placement = Place_auto | Place_top | Place_right | Place_bottom | Place_left
datatype chart_curve = Curve_linear | Curve_step | Curve_monotone
datatype time_axis = Axis_linear | Axis_calendar
datatype axis_unit = Unit_auto | Unit_ticks | Unit_caption

record WidgetOptions =
  wo_display :: "chart_display option"
  wo_xAxisLabel :: "string option"
  wo_yAxisLabel :: "string option"
  wo_showLegend :: "bool option"
  wo_showLabels :: "bool option"
  wo_showValues :: "bool option"
  wo_showSparkline :: "bool option"
  wo_showStatBar :: "bool option"
  wo_sparklinePlacement :: "sparkline_placement option"
  wo_statIcon :: "stat_icon option"
  wo_showTooltip :: "bool option"
  wo_tooltipTitle :: "string option"
  wo_tooltipValueLabel :: "string option"
  wo_tooltipShowUnit :: "bool option"
  wo_tooltipDecimals :: "js_number option"
  wo_tooltipPlacement :: "tooltip_placement option"
  wo_tooltipOffset :: "js_number option"
  wo_tooltipMaxWidth :: "js_number option"
  wo_tooltipMaxHeight :: "js_number option"
  wo_tooltipView :: "TooltipView option"
  wo_showGrid :: "bool option"
  wo_decimals :: "js_number option"
  wo_staleAfterSeconds :: "js_number option"
  wo_min :: "js_number option"
  wo_max :: "js_number option"
  wo_lineWidth :: "js_number option"
  wo_seriesColors :: "SeriesColorRule list option"
  wo_fillOpacity :: "js_number option"
  wo_curve :: "chart_curve option"
  wo_background :: "string option"
  wo_textColor :: "string option"
  wo_thresholds :: "Threshold list option"
  wo_gridX :: "bool option"
  wo_timeAxis :: "time_axis option"
  wo_axisUnit :: "axis_unit option"
  wo_referenceLines :: "ReferenceLine list option"
  wo_showZeroLine :: "bool option"
  wo_plotInsetLeft :: "js_number option"
  wo_plotInsetRight :: "js_number option"

record AnnotationSource =
  an_queryRef :: SavedQueryReference
  an_timestampColumn :: string
  an_endColumn :: "string option"
  an_labelColumn :: string
  an_severityColumn :: "string option"

record Widget =
  wi_id :: string
  wi_title :: string
  wi_type :: widget_type
  wi_providerId :: string
  wi_query :: string
  wi_unit :: string
  wi_queryRef :: "SavedQueryReference option"
  wi_annotationSource :: "AnnotationSource option"
  wi_description :: "string option"
  wi_color :: "string option"
  wi_options :: "WidgetOptions option"
  wi_pluginId :: "string option"
  wi_dataKind :: "DataKind option"
  wi_config :: "js_value option"
  wi_drilldowns :: "Drilldown list option"
  wi_selectionBindings :: "DrilldownBinding list option"
  wi_layout :: Box

record Dashboard =
  da_id :: string
  da_title :: string
  da_description :: "string option"
  da_folder :: "string option"
  da_customTimeRange :: "(string \<times> string) option"
  da_timeZone :: "string option"
  da_variables :: "DashboardVariable list option"
  da_timeRange :: string
  da_refreshInterval :: js_number
  da_widgets :: "Widget list"

definition widgetKind :: "widget_type \<Rightarrow> DataKind option \<Rightarrow> DataKind" where
  "widgetKind type dataKind =
     (if type = Plugin then (case dataKind of Some k \<Rightarrow> k | None \<Rightarrow> Metrics)
      else if type = Traces_widget then Traces else Metrics)"

definition tooltip_view :: "Widget \<Rightarrow> TooltipView option" where
  "tooltip_view w = Option.bind (wi_options w) wo_tooltipView"

record Provider =
  pr_id :: string
  pr_name :: string
  pr_capabilities :: "DataKind list"

end
