(* ===== verification/DashboardSchema.thy ===== *)
theory DashboardSchema
  imports DashboardTypes
begin

text \<open>
  The schemas of widgets and dashboards (\<open>ui/src/features/insights/schema.ts\<close>, \<open>series-colors.ts\<close>). What zod
  changes in a document of the declared type is the white space around names and queries; everything
  else is a check. So each schema is the trimmed document and the verdict on it.

  The URL parser, the pattern of an ISO instant, \<open>Date.parse\<close> and the generated list of time zones are
  the fields of a record that the schemas take.
\<close>

section \<open>The platform\<close>

record platform =
  pf_url_ok :: "string \<Rightarrow> bool"
  pf_iso_datetime :: "string \<Rightarrow> bool"
  pf_date_parse :: "string \<Rightarrow> js_number"
  pf_timeZones :: "string list"

text \<open>
  The number of bytes of a text in UTF-8. The code units of a string are below 256 here, so each takes one byte or two; longer
  encodings and surrogate pairs do not occur.
\<close>

definition utf8_length :: "string \<Rightarrow> nat" where
  "utf8_length s = sum_list (map (\<lambda>c. if (of_char c :: nat) < 128 then 1 else 2) s)"

definition byteLength :: "js_value \<Rightarrow> nat" where
  "byteLength v = (case json_stringify v of Some t \<Rightarrow> utf8_length t | None \<Rightarrow> 0)"

text \<open>The check of an optional field.\<close>

fun if_present :: "('a \<Rightarrow> bool) \<Rightarrow> 'a option \<Rightarrow> bool" where
  "if_present P None = True"
| "if_present P (Some x) = P x"

fun between :: "rat \<Rightarrow> rat \<Rightarrow> js_number \<Rightarrow> bool" where
  "between lo hi (Fin x) = (lo \<le> x \<and> x \<le> hi)"
| "between lo hi _ = False"

fun whole_between :: "int \<Rightarrow> int \<Rightarrow> js_number \<Rightarrow> bool" where
  "whole_between lo hi (Fin x) = (of_int \<lfloor>x\<rfloor> = x \<and> lo \<le> \<lfloor>x\<rfloor> \<and> \<lfloor>x\<rfloor> \<le> hi)"
| "whole_between lo hi _ = False"

definition text_between :: "nat \<Rightarrow> nat \<Rightarrow> string \<Rightarrow> bool" where
  "text_between lo hi s \<longleftrightarrow> lo \<le> length s \<and> length s \<le> hi"

section \<open>Parts of widgets\<close>

definition hexColor :: "string \<Rightarrow> bool" where
  "hexColor s \<longleftrightarrow>
     length s = 7 \<and> hd s = CHR ''#'' \<and>
     list_all (\<lambda>c. CHR ''0'' \<le> c \<and> c \<le> CHR ''9'' \<or> CHR ''a'' \<le> c \<and> c \<le> CHR ''f'' \<or> CHR ''A'' \<le> c \<and> c \<le> CHR ''F'') (tl s)"

definition thresholdSchema :: "Threshold \<Rightarrow> bool" where
  "thresholdSchema t \<longleftrightarrow> js_is_finite (th_value t) \<and> hexColor (th_color t) \<and> if_present (text_between 0 80) (th_label t)"

definition referenceLineSchema :: "ReferenceLine \<Rightarrow> bool" where
  "referenceLineSchema r \<longleftrightarrow>
     js_is_finite (rl_value r) \<and> if_present (text_between 1 80) (rl_label r) \<and> if_present hexColor (rl_color r)"

definition seriesColorRulesSchema :: "SeriesColorRule list \<Rightarrow> bool" where
  "seriesColorRulesSchema rules \<longleftrightarrow>
     length rules \<le> 24 \<and>
     list_all (\<lambda>r. cr_label r \<noteq> [] \<and> name_start (hd (cr_label r)) \<and> list_all name_char (tl (cr_label r)) \<and>
       length (cr_label r) \<le> 100 \<and> text_between 1 256 (cr_value r) \<and> hexColor (cr_color r)) rules \<and>
     distinct (map (\<lambda>r. json_stringify (JArray [JString (cr_label r), JString (cr_value r)])) rules)"

definition resolveSeriesColor :: "(string, string) js_map \<Rightarrow> SeriesColorRule list option \<Rightarrow> string \<Rightarrow> string" where
  "resolveSeriesColor labels rules fallback =
     (case find (\<lambda>r. js_map_get labels (cr_label r) = Some (cr_value r)) (list_of rules) of
        Some r \<Rightarrow> cr_color r | None \<Rightarrow> fallback)"

subsection \<open>Plugin configurations\<close>

datatype config_issue = Too_deep | Reserved_key | Too_large | Not_json_record

text \<open>\<open>Object.entries\<close> of a value that is an object.\<close>

fun object_entries :: "js_value \<Rightarrow> (string \<times> js_value) list" where
  "object_entries (JArray xs) = zip (map nat_str [0..<length xs]) xs"
| "object_entries (JObject ps) = ps"
| "object_entries _ = []"

definition config_children :: "js_value \<Rightarrow> nat \<Rightarrow> (js_value \<times> nat) list" where
  "config_children v depth = rev (map (\<lambda>(k, child). (child, Suc depth)) (object_entries v))"

definition scan_weight :: "(js_value \<times> nat) list \<Rightarrow> nat" where
  "scan_weight pending = sum_list (map (\<lambda>(v, d). Suc (size v)) pending)"

lemma weight_children: "scan_weight (config_children v depth) \<le> size v"
proof (cases v)
  case (JArray xs)
  have "scan_weight (rev (map (\<lambda>(k, child). (child, Suc depth)) (zip ns xs))) \<le> size_list size xs" for ns :: "string list"
    by (induction ns xs rule: list_induct2') (auto simp: scan_weight_def)
  from this [of "map nat_str [0..<length xs]"] show ?thesis by (simp add: JArray config_children_def)
next
  case (JObject ps)
  have "scan_weight (rev (map (\<lambda>(k, child). (child, Suc depth)) ps)) \<le> size_list (size_prod (\<lambda>x. 0) size) ps"
    by (induction ps) (auto simp: scan_weight_def)
  then show ?thesis by (simp add: JObject config_children_def)
qed (simp_all add: config_children_def scan_weight_def)

text \<open>The loop over \<open>pending\<close>, whose last element is the head of the list.\<close>

function config_scan :: "(js_value \<times> nat) list \<Rightarrow> config_issue option" where
  "config_scan [] = None"
| "config_scan ((v, depth) # pending) =
     (if 8 < depth then Some Too_deep
      else if list_ex (\<lambda>(k, child). k \<in> set RESERVED_NAMES) (object_entries v) then Some Reserved_key
      else config_scan (config_children v depth @ pending))"
  by pat_completeness auto
termination
proof (relation "measure scan_weight", goal_cases)
  case (2 v depth pending)
  then show ?case using weight_children [of v depth] by (simp add: scan_weight_def)
qed simp

text \<open>\<open>z.json()\<close>: what JSON can carry.\<close>

fun json_data :: "js_value \<Rightarrow> bool" where
  "json_data JUndefined = False"
| "json_data (JBigint i) = False"
| "json_data JNull = True"
| "json_data (JBool b) = True"
| "json_data (JNumber n) = js_is_finite n"
| "json_data (JString s) = True"
| "json_data (JArray xs) = list_all json_data xs"
| "json_data (JObject ps) = list_all (\<lambda>(k, v). json_data v) ps"

definition pluginConfigIssue :: "js_value \<Rightarrow> config_issue option" where
  "pluginConfigIssue config =
     (case config_scan [(config, 0)] of
        Some issue \<Rightarrow> Some issue
      | None \<Rightarrow>
          if 16 * 1024 < byteLength config then Some Too_large
          else if (case config of JObject ps \<Rightarrow> json_data config | _ \<Rightarrow> False) then None
          else Some Not_json_record)"

definition pluginConfigSchema :: "js_value \<Rightarrow> bool" where
  "pluginConfigSchema config \<longleftrightarrow> pluginConfigIssue config = None"

subsection \<open>Tooltips\<close>

fun tooltip_variable :: "TooltipBinding \<Rightarrow> string" where
  "tooltip_variable (Tooltip_label v l) = v"
| "tooltip_variable (Tooltip_field v f) = v"

fun tooltipBindingSchema :: "TooltipBinding \<Rightarrow> bool" where
  "tooltipBindingSchema (Tooltip_label v l) = (variableNameSchema v \<and> text_between 1 128 l)"
| "tooltipBindingSchema (Tooltip_field v f) = variableNameSchema v"

fun trim_source :: "TooltipSource \<Rightarrow> TooltipSource" where
  "trim_source (Tooltip_query p q bs) = Tooltip_query p (trim q) bs"
| "trim_source s = s"

fun tooltipSourceSchema :: "TooltipSource \<Rightarrow> bool" where
  "tooltipSourceSchema Tooltip_series = True"
| "tooltipSourceSchema Tooltip_widget = True"
| "tooltipSourceSchema (Tooltip_saved ref) = savedQueryReferenceSchema ref"
| "tooltipSourceSchema (Tooltip_query p q bs) =
     (identifier_ok p \<and> text_between 1 8192 q \<and> length (list_of bs) \<le> MAX_DASHBOARD_VARIABLES \<and>
      list_all tooltipBindingSchema (list_of bs) \<and> distinct (map tooltip_variable (list_of bs)))"

definition trim_view :: "TooltipView \<Rightarrow> TooltipView" where
  "trim_view v = v\<lparr>tv_title := map_option trim (tv_title v), tv_source := map_option trim_source (tv_source v)\<rparr>"

text \<open>The fields of plugins: required of a plugin, refused for every other type.\<close>

definition plugin_fields_ok :: "widget_type \<Rightarrow> string option \<Rightarrow> DataKind option \<Rightarrow> js_value option \<Rightarrow> bool" where
  "plugin_fields_ok t pluginId dataKind config \<longleftrightarrow>
     (if t = Plugin then pluginId \<noteq> None \<and> dataKind \<noteq> None
      else pluginId = None \<and> dataKind = None \<and> config = None)"

definition tooltipViewSchema :: "TooltipView \<Rightarrow> bool" where
  "tooltipViewSchema v \<longleftrightarrow>
     if_present (\<lambda>h. h \<in> set [Fin 80, Fin 120, Fin 160, Fin 200, Fin 320]) (tv_height v) \<and>
     if_present (text_between 1 120) (tv_title v) \<and> if_present (text_between 0 24) (tv_unit v) \<and>
     if_present hexColor (tv_color v) \<and> if_present (whole_between 0 8) (tv_decimals v) \<and>
     if_present tooltipSourceSchema (tv_source v) \<and> if_present identifier_ok (tv_pluginId v) \<and>
     if_present pluginConfigSchema (tv_config v) \<and>
     plugin_fields_ok (tv_type v) (tv_pluginId v) (tv_dataKind v) (tv_config v) \<and>
     \<not> ((tv_type v = Traces_widget \<or> tv_type v = Plugin \<and> (tv_dataKind v = Some Traces \<or> tv_dataKind v = Some Records)) \<and>
        (tv_source v = None \<or> tv_source v = Some Tooltip_series))"

section \<open>Widgets\<close>

definition increasing_thresholds :: "Threshold list \<Rightarrow> bool" where
  "increasing_thresholds ts \<longleftrightarrow> list_all (\<lambda>i. js_less (th_value (ts ! (i - 1))) (th_value (ts ! i))) [1..<length ts]"

definition trim_options :: "WidgetOptions \<Rightarrow> WidgetOptions" where
  "trim_options o' = o'\<lparr>wo_tooltipView := map_option trim_view (wo_tooltipView o')\<rparr>"

definition widgetOptionsSchema :: "WidgetOptions \<Rightarrow> bool" where
  "widgetOptionsSchema o' \<longleftrightarrow>
     if_present (text_between 0 80) (wo_xAxisLabel o') \<and> if_present (text_between 0 80) (wo_yAxisLabel o') \<and>
     if_present (text_between 0 120) (wo_tooltipTitle o') \<and> if_present (text_between 0 80) (wo_tooltipValueLabel o') \<and>
     if_present (whole_between 0 8) (wo_tooltipDecimals o') \<and> if_present (between 0 40) (wo_tooltipOffset o') \<and>
     if_present (between 220 640) (wo_tooltipMaxWidth o') \<and> if_present (between 160 800) (wo_tooltipMaxHeight o') \<and>
     if_present tooltipViewSchema (wo_tooltipView o') \<and> if_present (whole_between 0 8) (wo_decimals o') \<and>
     if_present (whole_between 1 2678400) (wo_staleAfterSeconds o') \<and>
     if_present js_is_finite (wo_min o') \<and> if_present js_is_finite (wo_max o') \<and>
     if_present (between (1 / 2) 8) (wo_lineWidth o') \<and> if_present seriesColorRulesSchema (wo_seriesColors o') \<and>
     if_present (between 0 1) (wo_fillOpacity o') \<and> if_present hexColor (wo_background o') \<and>
     if_present hexColor (wo_textColor o') \<and>
     length (list_of (wo_thresholds o')) \<le> 12 \<and> list_all thresholdSchema (list_of (wo_thresholds o')) \<and>
     length (list_of (wo_referenceLines o')) \<le> 8 \<and> list_all referenceLineSchema (list_of (wo_referenceLines o')) \<and>
     if_present (between 8 240) (wo_plotInsetLeft o') \<and> if_present (between 8 120) (wo_plotInsetRight o') \<and>
     \<not> (wo_showStatBar o' = Some True \<and> (wo_min o' = None \<or> wo_max o' = None)) \<and>
     (case (wo_min o', wo_max o') of (Some lo, Some hi) \<Rightarrow> \<not> js_ge lo hi | _ \<Rightarrow> True) \<and>
     increasing_thresholds (list_of (wo_thresholds o'))"

definition supportsAnnotationSource :: "widget_type \<Rightarrow> string option \<Rightarrow> bool" where
  "supportsAnnotationSource t pluginId \<longleftrightarrow>
     t = Timeseries \<or>
     t = Plugin \<and> (pluginId = Some ''stacked-timeseries'' \<or> pluginId = Some ''directional-traffic'')"

definition supportsTooltipView :: "widget_type \<Rightarrow> string option \<Rightarrow> bool" where
  "supportsTooltipView t pluginId \<longleftrightarrow>
     t = Heatmap \<or> t = Timeseries \<or> t = Bar \<or> t = Table \<or> t = Plugin \<and> pluginId = Some ''geo-heatmap''"

fun dashboardQueryBindingSchema :: "SavedQueryBinding \<Rightarrow> bool" where
  "dashboardQueryBindingSchema (Bind_variable p v) = savedQueryBindingSchema (Bind_variable p v)"
| "dashboardQueryBindingSchema (Bind_constant p v) = savedQueryBindingSchema (Bind_constant p v)"
| "dashboardQueryBindingSchema _ = False"

definition dashboardQueryReferenceSchema :: "SavedQueryReference \<Rightarrow> bool" where
  "dashboardQueryReferenceSchema ref \<longleftrightarrow>
     identifier_ok (sr_id ref) \<and> length (list_of (sr_bindings ref)) \<le> MAX_DASHBOARD_VARIABLES \<and>
     list_all dashboardQueryBindingSchema (list_of (sr_bindings ref)) \<and>
     distinct (map binding_parameter (list_of (sr_bindings ref)))"

definition trim_annotations :: "AnnotationSource \<Rightarrow> AnnotationSource" where
  "trim_annotations a =
     a\<lparr>an_timestampColumn := trim (an_timestampColumn a), an_endColumn := map_option trim (an_endColumn a),
       an_labelColumn := trim (an_labelColumn a), an_severityColumn := map_option trim (an_severityColumn a)\<rparr>"

definition annotationSourceSchema :: "AnnotationSource \<Rightarrow> bool" where
  "annotationSourceSchema a \<longleftrightarrow>
     dashboardQueryReferenceSchema (an_queryRef a) \<and> text_between 1 128 (an_timestampColumn a) \<and>
     if_present (text_between 1 128) (an_endColumn a) \<and> text_between 1 128 (an_labelColumn a) \<and>
     if_present (text_between 1 128) (an_severityColumn a)"

definition layoutSchema :: "Box \<Rightarrow> bool" where
  "layoutSchema b \<longleftrightarrow>
     0 \<le> box_x b \<and> box_x b \<le> 11 \<and> 0 \<le> box_y b \<and> box_y b \<le> 1000 \<and> 1 \<le> box_w b \<and> box_w b \<le> 12 \<and>
     1 \<le> box_h b \<and> box_h b \<le> 12 \<and> box_x b + box_w b \<le> 12"

definition trim_link :: "Drilldown \<Rightarrow> Drilldown" where
  "trim_link d = d\<lparr>dd_title := trim (dd_title d)\<rparr>"

definition trim_widget :: "Widget \<Rightarrow> Widget" where
  "trim_widget w =
     w\<lparr>wi_title := trim (wi_title w), wi_query := trim (wi_query w),
       wi_annotationSource := map_option trim_annotations (wi_annotationSource w),
       wi_options := map_option trim_options (wi_options w),
       wi_drilldowns := map_option (map trim_link) (wi_drilldowns w)\<rparr>"

definition widget_ok :: "Widget \<Rightarrow> bool" where
  "widget_ok w \<longleftrightarrow>
     identifier_ok (wi_id w) \<and> text_between 1 120 (wi_title w) \<and> identifier_ok (wi_providerId w) \<and>
     text_between 1 8192 (wi_query w) \<and> text_between 0 24 (wi_unit w) \<and>
     if_present dashboardQueryReferenceSchema (wi_queryRef w) \<and>
     if_present annotationSourceSchema (wi_annotationSource w) \<and>
     if_present (text_between 0 500) (wi_description w) \<and> if_present hexColor (wi_color w) \<and>
     if_present widgetOptionsSchema (wi_options w) \<and> if_present identifier_ok (wi_pluginId w) \<and>
     if_present pluginConfigSchema (wi_config w) \<and>
     length (list_of (wi_drilldowns w)) \<le> 8 \<and> list_all drilldownSchema (list_of (wi_drilldowns w)) \<and>
     length (list_of (wi_selectionBindings w)) \<le> MAX_DASHBOARD_VARIABLES \<and>
     list_all drilldownBindingSchema (list_of (wi_selectionBindings w)) \<and>
     layoutSchema (wi_layout w) \<and>
     \<not> (wi_type w \<noteq> Stat \<and> box_h (wi_layout w) < 2) \<and>
     \<not> (wi_annotationSource w \<noteq> None \<and> \<not> supportsAnnotationSource (wi_type w) (wi_pluginId w)) \<and>
     distinct (map db_variable (list_of (wi_selectionBindings w))) \<and>
     distinct (map dd_id (list_of (wi_drilldowns w))) \<and>
     plugin_fields_ok (wi_type w) (wi_pluginId w) (wi_dataKind w) (wi_config w)"

definition widgetSchema :: "Widget \<Rightarrow> Widget option" where
  "widgetSchema w = (if widget_ok (trim_widget w) then Some (trim_widget w) else None)"

section \<open>Dashboards\<close>

definition MAX_WIDGETS :: nat where
  "MAX_WIDGETS = 48"

definition time_range_ok :: "platform \<Rightarrow> string \<times> string \<Rightarrow> bool" where
  "time_range_ok p window =
     (case window of (start, to) \<Rightarrow>
        pf_iso_datetime p start \<and> pf_iso_datetime p to \<and>
        (let duration = js_sub (pf_date_parse p to) (pf_date_parse p start)
         in js_less (Fin 0) (pf_date_parse p start) \<and> js_less (Fin 0) duration \<and>
            js_ge (Fin (31 * 24 * 60 * 60 * 1000)) duration))"

definition dashboardVariableSchema :: "DashboardVariable \<Rightarrow> bool" where
  "dashboardVariableSchema v \<longleftrightarrow>
     variableNameSchema (dv_name v) \<and> if_present (text_between 0 80) (dv_label v) \<and>
     if_present variableValueSchema (dv_defaultValue v) \<and>
     if_present (\<lambda>os. 1 \<le> length os \<and> length os \<le> 100 \<and> list_all variableValueSchema os \<and> distinct os) (dv_options v)"

definition folder_ok :: "string \<Rightarrow> bool" where
  "folder_ok folder \<longleftrightarrow>
     text_between 1 160 folder \<and>
     list_all (\<lambda>c. 32 \<le> (of_char c :: nat) \<and> c \<noteq> CHR 0x7F \<and> c \<noteq> CHR 0x5C) folder \<and>
     list_all (\<lambda>segment. trim segment = segment \<and> segment \<noteq> [] \<and> segment \<noteq> ''.'' \<and> segment \<noteq> ''..'')
       (split_on CHR ''/'' folder)"

definition isCanonicalTimeZone :: "platform \<Rightarrow> string \<Rightarrow> bool" where
  "isCanonicalTimeZone p zone \<longleftrightarrow> zone \<in> set (pf_timeZones p)"

definition timeZoneSchema :: "platform \<Rightarrow> string \<Rightarrow> bool" where
  "timeZoneSchema p zone \<longleftrightarrow> text_between 1 64 zone \<and> isCanonicalTimeZone p zone"

definition timeRanges :: "string list" where
  "timeRanges = [''15m'', ''30m'', ''1h'', ''6h'', ''24h'', ''7d'', ''30d'']"

definition trim_dashboard :: "Dashboard \<Rightarrow> Dashboard" where
  "trim_dashboard d =
     d\<lparr>da_title := trim (da_title d), da_folder := map_option trim (da_folder d),
       da_widgets := map trim_widget (da_widgets d)\<rparr>"

text \<open>Every check but that of the time zone.\<close>

definition dashboard_body_ok :: "platform \<Rightarrow> Dashboard \<Rightarrow> bool" where
  "dashboard_body_ok p d \<longleftrightarrow>
     identifier_ok (da_id d) \<and> text_between 1 120 (da_title d) \<and> if_present (text_between 0 500) (da_description d) \<and>
     if_present folder_ok (da_folder d) \<and> if_present (time_range_ok p) (da_customTimeRange d) \<and>
     length (list_of (da_variables d)) \<le> MAX_DASHBOARD_VARIABLES \<and>
     list_all dashboardVariableSchema (list_of (da_variables d)) \<and>
     da_timeRange d \<in> set timeRanges \<and> da_refreshInterval d \<in> set [Fin 0, Fin 15, Fin 30, Fin 60] \<and>
     length (da_widgets d) \<le> MAX_WIDGETS \<and> list_all widget_ok (da_widgets d) \<and>
     distinct (map dv_name (list_of (da_variables d))) \<and> distinct (map wi_id (da_widgets d))"

definition dashboardSchema :: "platform \<Rightarrow> Dashboard \<Rightarrow> Dashboard option" where
  "dashboardSchema p d =
     (let e = trim_dashboard d in
      if dashboard_body_ok p e \<and> if_present (timeZoneSchema p) (da_timeZone e) then Some e else None)"

text \<open>A stored zone is kept as saved, and dropped when it is not a bounded string.\<close>

definition storedDashboardSchema :: "platform \<Rightarrow> Dashboard \<Rightarrow> Dashboard option" where
  "storedDashboardSchema p d =
     (let e = (trim_dashboard d)
            \<lparr>da_timeZone := (case da_timeZone d of Some z \<Rightarrow> if length z \<le> 64 then Some z else None | None \<Rightarrow> None)\<rparr>
      in if dashboard_body_ok p e then Some e else None)"

definition writableDashboard :: "platform \<Rightarrow> Dashboard \<Rightarrow> Dashboard option" where
  "writableDashboard p input =
     Option.bind (storedDashboardSchema p input) (\<lambda>stored.
       dashboardSchema p
         (case da_timeZone stored of
            None \<Rightarrow> stored
          | Some zone \<Rightarrow> if isCanonicalTimeZone p zone then stored else stored\<lparr>da_timeZone := None\<rparr>))"

section \<open>New documents\<close>

definition newDashboard :: "string \<Rightarrow> Dashboard" where
  "newDashboard uuid =
     \<lparr>da_id = ''dashboard-'' @ uuid, da_title = ''Untitled dashboard'', da_description = Some [], da_folder = None,
      da_customTimeRange = None, da_timeZone = None, da_variables = None, da_timeRange = ''1h'',
      da_refreshInterval = Fin 0, da_widgets = []\<rparr>"

record PluginDefinition =
  pd_id :: string
  pd_label :: string
  pd_dataKind :: DataKind
  pd_defaultOptions :: "WidgetOptions option"
  pd_defaultConfig :: "js_value option"

text \<open>Options of which none is set.\<close>

definition no_options :: WidgetOptions where
  "no_options =
     \<lparr>wo_display = None, wo_xAxisLabel = None, wo_yAxisLabel = None, wo_showLegend = None, wo_showLabels = None,
      wo_showValues = None, wo_showSparkline = None, wo_showStatBar = None, wo_sparklinePlacement = None,
      wo_statIcon = None, wo_showTooltip = None, wo_tooltipTitle = None, wo_tooltipValueLabel = None,
      wo_tooltipShowUnit = None, wo_tooltipDecimals = None, wo_tooltipPlacement = None, wo_tooltipOffset = None,
      wo_tooltipMaxWidth = None, wo_tooltipMaxHeight = None, wo_tooltipView = None, wo_showGrid = None,
      wo_decimals = None, wo_staleAfterSeconds = None, wo_min = None, wo_max = None, wo_lineWidth = None,
      wo_seriesColors = None, wo_fillOpacity = None, wo_curve = None, wo_background = None, wo_textColor = None,
      wo_thresholds = None, wo_gridX = None, wo_timeAxis = None, wo_axisUnit = None, wo_referenceLines = None,
      wo_showZeroLine = None, wo_plotInsetLeft = None, wo_plotInsetRight = None\<rparr>"

fun new_title :: "widget_type \<Rightarrow> PluginDefinition option \<Rightarrow> string" where
  "new_title Timeseries plugin = ''Time series''"
| "new_title Bar plugin = ''Bar chart''"
| "new_title Stat plugin = ''Single value''"
| "new_title Table plugin = ''Metrics table''"
| "new_title Traces_widget plugin = ''Trace explorer''"
| "new_title Heatmap plugin = ''Service heatmap''"
| "new_title Plugin plugin = (case plugin of Some d \<Rightarrow> pd_label d | None \<Rightarrow> ''Plugin widget'')"

definition heatmap_options :: WidgetOptions where
  "heatmap_options = no_options
     \<lparr>wo_thresholds := Some [\<lparr>th_value = Fin 0, th_color = ''#b64a3a'', th_label = Some ''Unhealthy''\<rparr>,
        \<lparr>th_value = Fin 1, th_color = ''#53876a'', th_label = Some ''Healthy''\<rparr>],
      wo_showLegend := Some True, wo_showTooltip := Some True\<rparr>"

definition new_options :: "widget_type \<Rightarrow> PluginDefinition option \<Rightarrow> WidgetOptions option" where
  "new_options t plugin =
     (if t = Stat then Some (no_options\<lparr>wo_sparklinePlacement := Some Sparkline_side\<rparr>)
      else if t = Heatmap then Some heatmap_options
      else if t = Plugin then Option.bind plugin pd_defaultOptions
      else None)"

definition bottom :: "Widget list \<Rightarrow> int" where
  "bottom widgets = min 1000 (foldl max 0 (map (\<lambda>w. box_y (wi_layout w) + box_h (wi_layout w)) widgets))"

text \<open>\<^const>\<open>None\<close> where \<open>newWidget\<close> throws: a plugin widget needs its plugin.\<close>

definition newWidget ::
    "string \<Rightarrow> widget_type \<Rightarrow> Provider list \<Rightarrow> Widget list \<Rightarrow> PluginDefinition option \<Rightarrow> Widget option" where
  "newWidget uuid t providers widgets plugin =
     (if t = Plugin \<and> plugin = None then None
      else
        let kind = (case (t, plugin) of (Plugin, Some d) \<Rightarrow> pd_dataKind d
                    | _ \<Rightarrow> if t = Traces_widget then Traces else Metrics);
            provider = find (\<lambda>p. kind \<in> set (pr_capabilities p)) providers
        in Some \<lparr>wi_id = ''widget-'' @ uuid, wi_title = new_title t plugin, wi_type = t,
            wi_providerId = (case provider of Some p \<Rightarrow> pr_id p | None \<Rightarrow> ''unconfigured''),
            wi_query = (if kind = Traces then ''{}'' else ''up''), wi_unit = [], wi_queryRef = None,
            wi_annotationSource = None, wi_description = None, wi_color = None, wi_options = new_options t plugin,
            wi_pluginId = (if t = Plugin then map_option pd_id plugin else None),
            wi_dataKind = (if t = Plugin then map_option pd_dataKind plugin else None),
            wi_config = (if t = Plugin then Option.bind plugin
                (\<lambda>d. case pd_defaultConfig d of Some c \<Rightarrow> if js_truthy c then Some c else None | None \<Rightarrow> None) else None),
            wi_drilldowns = None, wi_selectionBindings = None,
            wi_layout = \<lparr>box_x = 0, box_y = bottom widgets, box_w = (if t = Stat then 3 else 6),
              box_h = (if t = Stat then 2 else 4)\<rparr>\<rparr>)"

section \<open>Parsing twice\<close>

lemma trim_source_twice [simp]: "trim_source (trim_source s) = trim_source s"
  by (cases s) simp_all

lemma trim_view_twice [simp]: "trim_view (trim_view v) = trim_view v"
  by (simp add: trim_view_def option.map_comp comp_def)

lemma trim_parts_twice [simp]:
  "trim_options (trim_options o') = trim_options o'" "trim_annotations (trim_annotations a) = trim_annotations a"
  "trim_link (trim_link l) = trim_link l"
  by (simp_all add: trim_options_def trim_annotations_def trim_link_def option.map_comp comp_def)

lemma trim_widget_twice [simp]: "trim_widget (trim_widget w) = trim_widget w"
  by (simp add: trim_widget_def option.map_comp comp_def)

lemma trim_dashboard_twice [simp]: "trim_dashboard (trim_dashboard d) = trim_dashboard d"
  by (simp add: trim_dashboard_def option.map_comp comp_def)

lemma trim_dashboard_zone [simp]:
  "da_timeZone (trim_dashboard d) = da_timeZone d"
  "trim_dashboard (d\<lparr>da_timeZone := z\<rparr>) = (trim_dashboard d)\<lparr>da_timeZone := z\<rparr>"
  by (simp_all add: trim_dashboard_def)

lemma zone_same: "da_timeZone d = z \<Longrightarrow> d\<lparr>da_timeZone := z\<rparr> = d"
  by (cases d) simp

lemma body_zone [simp]: "dashboard_body_ok p (d\<lparr>da_timeZone := z\<rparr>) = dashboard_body_ok p d"
  by (simp add: dashboard_body_ok_def)

lemma trim_dashboard_id:
  "trim_dashboard d = d \<longleftrightarrow>
     trim (da_title d) = da_title d \<and> map_option trim (da_folder d) = da_folder d \<and> map trim_widget (da_widgets d) = da_widgets d"
  by (cases d) (simp add: trim_dashboard_def)

lemma dashboardSchema_Some:
  "dashboardSchema p d = Some e \<longleftrightarrow>
     e = trim_dashboard d \<and> dashboard_body_ok p e \<and> if_present (timeZoneSchema p) (da_timeZone d)"
  by (auto simp: dashboardSchema_def Let_def)

lemma dashboardSchema_twice: "dashboardSchema p d = Some e \<Longrightarrow> dashboardSchema p e = Some e"
  by (auto simp: dashboardSchema_Some)

lemma widgetSchema_fixed: "widgetSchema w = Some w \<longleftrightarrow> trim_widget w = w \<and> widget_ok w"
  by (auto simp: widgetSchema_def)

lemma dashboardSchema_fixed:
  "dashboardSchema p d = Some d \<longleftrightarrow>
     trim_dashboard d = d \<and> dashboard_body_ok p d \<and> if_present (timeZoneSchema p) (da_timeZone d)"
  by (auto simp: dashboardSchema_Some)

section \<open>Plugin configurations\<close>

text \<open>How deep values are nested, and whether a key that reaches the prototype occurs anywhere.\<close>

fun config_depth :: "js_value \<Rightarrow> nat" where
  "config_depth (JArray xs) = foldr (\<lambda>x n. max (Suc (config_depth x)) n) xs 0"
| "config_depth (JObject ps) = foldr (\<lambda>(k, x) n. max (Suc (config_depth x)) n) ps 0"
| "config_depth _ = 0"

fun reserved_free :: "js_value \<Rightarrow> bool" where
  "reserved_free (JArray xs) = list_all reserved_free xs"
| "reserved_free (JObject ps) = list_all (\<lambda>(k, x). k \<notin> set RESERVED_NAMES \<and> reserved_free x) ps"
| "reserved_free _ = True"

lemma nat_str_not_reserved: "nat_str n \<notin> set RESERVED_NAMES"
proof
  assume "nat_str n \<in> set RESERVED_NAMES"
  then have "\<not> list_all number_char (nat_str n)" by (auto simp: RESERVED_NAMES_def number_char_def)
  then show False using nat_str_chars by blast
qed

lemma foldr_max_le: "foldr (\<lambda>x n. max (f x) n) xs 0 \<le> (b :: nat) \<longleftrightarrow> (\<forall>x\<in>set xs. f x \<le> b)"
  by (induction xs) auto

lemma array_key_not_reserved: "(k, c) \<in> set (object_entries (JArray xs)) \<Longrightarrow> k \<notin> set RESERVED_NAMES"
  using nat_str_not_reserved by (auto dest!: set_zip_leftD)

lemma entries_reserved:
  "list_ex (\<lambda>(k, child). k \<in> set RESERVED_NAMES) (object_entries v) \<Longrightarrow> \<not> reserved_free v"
  using array_key_not_reserved by (cases v) (auto simp: list_ex_iff list_all_iff)

lemma entries_values: "snd ` set (object_entries (JArray xs)) = set xs"
proof -
  have "map snd (object_entries (JArray xs)) = xs" by simp
  then show ?thesis by (metis set_map)
qed

lemma depth_entries:
  "config_depth v \<le> b \<longleftrightarrow> (\<forall>(k, c)\<in>set (object_entries v). Suc (config_depth c) \<le> b)"
proof (cases v)
  case (JArray xs)
  have "(\<forall>(k, c)\<in>set (object_entries v). Suc (config_depth c) \<le> b) \<longleftrightarrow> (\<forall>c\<in>snd ` set (object_entries v). Suc (config_depth c) \<le> b)"
    by (auto simp: split_beta)
  also have "\<dots> \<longleftrightarrow> (\<forall>c\<in>set xs. Suc (config_depth c) \<le> b)" using JArray entries_values by simp
  finally show ?thesis using foldr_max_le [of "\<lambda>x. Suc (config_depth x)" xs b] JArray by simp
next
  case (JObject ps)
  then show ?thesis using foldr_max_le [of "\<lambda>(k, x). Suc (config_depth x)" ps b] by (simp add: split_def)
qed simp_all

lemma reserved_entries:
  "reserved_free v \<longleftrightarrow> (\<forall>(k, c)\<in>set (object_entries v). k \<notin> set RESERVED_NAMES \<and> reserved_free c)"
proof (cases v)
  case (JArray xs)
  have "(\<forall>(k, c)\<in>set (object_entries v). k \<notin> set RESERVED_NAMES \<and> reserved_free c) \<longleftrightarrow>
      (\<forall>c\<in>snd ` set (object_entries v). reserved_free c)"
    using JArray array_key_not_reserved [of _ _ xs] by (auto simp: split_beta)
  also have "\<dots> \<longleftrightarrow> (\<forall>c\<in>set xs. reserved_free c)" unfolding JArray entries_values by (rule refl)
  finally show ?thesis by (simp add: JArray list_all_iff)
qed (auto simp: list_all_iff)

lemma config_scan_None:
  "config_scan pending = None \<longleftrightarrow> (\<forall>(v, d)\<in>set pending. d + config_depth v \<le> 8 \<and> reserved_free v)"
proof (induction pending rule: config_scan.induct)
  case (2 v depth pending)
  have children: "(\<forall>(c, d)\<in>set (config_children v depth). d + config_depth c \<le> 8 \<and> reserved_free c) \<longleftrightarrow>
      (\<forall>(k, c)\<in>set (object_entries v). Suc (config_depth c) \<le> 8 - depth \<and> reserved_free c)" if "depth \<le> 8"
    using that by (auto simp: config_children_def)
  show ?case
  proof (cases "depth \<le> 8 \<and> \<not> list_ex (\<lambda>(k, child). k \<in> set RESERVED_NAMES) (object_entries v)")
    case True
    have "(\<forall>(c, d)\<in>set (config_children v depth). d + config_depth c \<le> 8 \<and> reserved_free c) \<longleftrightarrow>
        depth + config_depth v \<le> 8 \<and> reserved_free v"
      using True children depth_entries [of v "8 - depth"] reserved_entries [of v] by (auto simp: list_ex_iff)
    then show ?thesis using 2 True by auto
  next
    case False
    then show ?thesis using entries_reserved [of v] by auto
  qed
qed simp

section \<open>Properties\<close>

text \<open>
  C21: A plugin configuration is accepted exactly when it is a JSON record with values nested at most eight
  levels deep, without a key that reaches a prototype, and of at most 16384 bytes. The scan with an
  explicit stack decides what the recursive reading of the two limits says.
\<close>

theorem plugin_config_exact:
  "pluginConfigSchema config \<longleftrightarrow>
     config_depth config \<le> 8 \<and> reserved_free config \<and> byteLength config \<le> 16384 \<and>
     (\<exists>ps. config = JObject ps) \<and> json_data config"
proof -
  have "config_scan [(config, 0)] = None \<longleftrightarrow> config_depth config \<le> 8 \<and> reserved_free config"
    using config_scan_None [of "[(config, 0)]"] by simp
  moreover have "(case config of JObject ps \<Rightarrow> json_data config | _ \<Rightarrow> False) \<longleftrightarrow>
      (\<exists>ps. config = JObject ps) \<and> json_data config"
    by (cases config) simp_all
  ultimately show ?thesis by (auto simp: pluginConfigSchema_def pluginConfigIssue_def split: option.splits)
qed

text \<open>
  A stored dashboard can always be copied or moved: the form a write accepts exists whatever zone was
  saved, it passes the schema of writes unchanged, and it differs from the stored document at most in
  the zone, which is kept exactly when the canonical list has it. The names of the list are between 1 and
  64 characters long.
\<close>

theorem stored_dashboard_writable:
  assumes "storedDashboardSchema p d = Some stored" and "\<forall>zone\<in>set (pf_timeZones p). text_between 1 64 zone"
  shows "\<exists>w. writableDashboard p d = Some w \<and> dashboardSchema p w = Some w \<and>
    w = stored\<lparr>da_timeZone := (case da_timeZone stored of
        Some zone \<Rightarrow> if isCanonicalTimeZone p zone then Some zone else None | None \<Rightarrow> None)\<rparr>"
proof -
  have stored: "trim_dashboard stored = stored" "dashboard_body_ok p stored"
    using assms(1) by (auto simp: storedDashboardSchema_def Let_def split: if_splits)
  let ?w = "stored\<lparr>da_timeZone := (case da_timeZone stored of
        Some zone \<Rightarrow> if isCanonicalTimeZone p zone then Some zone else None | None \<Rightarrow> None)\<rparr>"
  have "dashboardSchema p ?w = Some ?w"
    using stored assms(2) by (auto simp: dashboardSchema_fixed timeZoneSchema_def isCanonicalTimeZone_def split: option.split)
  moreover have "writableDashboard p d = dashboardSchema p ?w"
    using assms(1) by (auto simp: writableDashboard_def zone_same split: option.split)
  ultimately show ?thesis by auto
qed

definition sample_platform :: platform where
  "sample_platform = \<lparr>pf_url_ok = (\<lambda>u. False), pf_iso_datetime = (\<lambda>s. False), pf_date_parse = (\<lambda>s. NaN),
     pf_timeZones = [''UTC'', ''Europe/London'']\<rparr>"

theorem stored_dashboard_writable_witness:
  "\<exists>w. writableDashboard sample_platform ((newDashboard ''1'')\<lparr>da_timeZone := Some ''Mars''\<rparr>) = Some w \<and> da_timeZone w = None"
proof -
  let ?d = "(newDashboard ''1'')\<lparr>da_timeZone := Some ''Mars''\<rparr>"
  have "storedDashboardSchema sample_platform ?d = Some ?d" by code_simp
  moreover have "\<forall>zone\<in>set (pf_timeZones sample_platform). text_between 1 64 zone" by code_simp
  moreover have "\<not> isCanonicalTimeZone sample_platform ''Mars''" by code_simp
  ultimately show ?thesis using stored_dashboard_writable [of sample_platform ?d ?d] by auto
qed

section \<open>New widgets\<close>

lemma bottom_bounds: "0 \<le> bottom ws" "bottom ws \<le> 1000"
proof -
  have "0 \<le> foldl max 0 (map (\<lambda>w. box_y (wi_layout w) + box_h (wi_layout w)) ws)"
    by (induction ws rule: rev_induct) auto
  then show "0 \<le> bottom ws" "bottom ws \<le> 1000" by (auto simp: bottom_def)
qed

lemma foldl_max_ge: "(x :: int) \<in> set xs \<Longrightarrow> x \<le> foldl max a xs"
  by (induction xs rule: rev_induct) auto

lemma below_bottom:
  assumes "w \<in> set ws" and "box_y (wi_layout w) + box_h (wi_layout w) \<le> 1000"
  shows "box_y (wi_layout w) + box_h (wi_layout w) \<le> bottom ws"
  using foldl_max_ge [of "box_y (wi_layout w) + box_h (wi_layout w)" "map (\<lambda>w. box_y (wi_layout w) + box_h (wi_layout w)) ws" 0]
    assms by (auto simp: bottom_def)

lemma new_titles: "t \<noteq> Plugin \<Longrightarrow> trim (new_title t plugin) = new_title t plugin \<and> text_between 1 120 (new_title t plugin)"
  by (cases t) (simp_all add: trim_def js_space_def text_between_def)

lemma no_options_ok: "widgetOptionsSchema no_options"
  by (simp add: widgetOptionsSchema_def no_options_def increasing_thresholds_def)

lemma new_options_ok:
  assumes "t \<noteq> Plugin"
  shows "if_present widgetOptionsSchema (new_options t plugin)"
    and "map_option trim_options (new_options t plugin) = new_options t plugin"
  using assms by (auto simp: new_options_def widgetOptionsSchema_def no_options_def heatmap_options_def trim_options_def
      increasing_thresholds_def thresholdSchema_def hexColor_def text_between_def upt_rec)

end
