(* ===== verification/ImportDiff.thy ===== *)
theory ImportDiff
  imports JsonText
begin

text \<open>
  The comparison of an imported document with the one in the workspace
  (\<open>diffImportDocuments\<close> and \<open>review\<close> in \<open>ui/src/features/insights/import-review.ts\<close>, with
  \<open>documentFingerprint\<close> of \<open>fingerprint.ts\<close>). Documents are the values \<open>JSON.parse\<close> gives. The two
  sides of a comparison are parsed apart, so \<open>===\<close> holds only of equal primitives.

  The review counts no change exactly when the two documents have the same canonical form, so a
  conflict always shows what differs.
\<close>

section \<open>Canonical form\<close>

text \<open>
  The property order of an object: array indices in ascending order, then the other keys in the
  order they were set.
\<close>

definition array_index :: "string \<Rightarrow> bool" where
  "array_index s \<longleftrightarrow>
     s \<noteq> [] \<and> list_all digit_char_ok s \<and> (hd s = CHR ''0'' \<longrightarrow> s = ''0'') \<and>
     digits_value s < 4294967295"

definition object_order :: "(string \<times> 'a) list \<Rightarrow> (string \<times> 'a) list" where
  "object_order ps =
     sort_by (\<lambda>p q. cmp_ord (digits_value (fst p)) (digits_value (fst q))) (filter (\<lambda>p. array_index (fst p)) ps) @
     filter (\<lambda>p. \<not> array_index (fst p)) ps"

text \<open>The replacer of \<open>documentFingerprint\<close>: every object has its keys sorted.\<close>

definition sorted_object :: "(string \<times> 'a) list \<Rightarrow> (string \<times> 'a) list" where
  "sorted_object ps = object_order (sort_by (\<lambda>p q. cmp_ord (fst p) (fst q)) ps)"

fun canonical :: "js_value \<Rightarrow> js_value" where
  "canonical (JArray xs) = JArray (map canonical xs)"
| "canonical (JObject ps) = JObject (sorted_object (map (\<lambda>(k, v). (k, canonical v)) ps))"
| "canonical v = v"

definition documentFingerprint :: "js_value \<Rightarrow> string option" where
  "documentFingerprint document = json_stringify (canonical document)"

section \<open>Comparing\<close>

datatype change_kind = Added | Removed | Changed | Reordered

record ImportFieldChange =
  fc_path :: string
  fc_kind :: change_kind
  fc_before :: js_value
  fc_after :: js_value

record ImportDiff =
  id_changes :: "ImportFieldChange list"
  id_totalChanges :: nat
  id_truncated :: bool

definition MAX_IMPORT_DIFF_CHANGES :: nat where
  "MAX_IMPORT_DIFF_CHANGES = 200"

fun isObject :: "js_value \<Rightarrow> bool" where
  "isObject (JObject ps) = True"
| "isObject _ = False"

definition plain_key :: "string \<Rightarrow> bool" where
  "plain_key key \<longleftrightarrow>
     (let letter = (\<lambda>c. CHR ''A'' \<le> c \<and> c \<le> CHR ''Z'' \<or> CHR ''a'' \<le> c \<and> c \<le> CHR ''z'' \<or> c = CHR ''_'') in
      key \<noteq> [] \<and> letter (hd key) \<and> list_all (\<lambda>c. letter c \<or> CHR ''0'' \<le> c \<and> c \<le> CHR ''9'') (tl key))"

definition propertyPath :: "string \<Rightarrow> string \<Rightarrow> string" where
  "propertyPath path key =
     (if plain_key key then if path \<noteq> [] then path @ ''.'' @ key else key
      else path @ ''['' @ json_quote key @ '']'')"

text \<open>\<open>item[key]\<close> of an object, where it is text.\<close>

definition text_property :: "string \<Rightarrow> js_value \<Rightarrow> string option" where
  "text_property key item =
     (case item of
        JObject ps \<Rightarrow> (case js_property item key of JString s \<Rightarrow> Some s | _ \<Rightarrow> None)
      | _ \<Rightarrow> None)"

fun identified :: "string \<Rightarrow> string list \<Rightarrow> js_value list \<Rightarrow> bool" where
  "identified key seen [] = True"
| "identified key seen (item # items) =
     (case text_property key item of
        None \<Rightarrow> False
      | Some s \<Rightarrow> s \<notin> set seen \<and> identified key (js_set_add seen s) items)"

definition key_candidates :: "string \<Rightarrow> string list" where
  "key_candidates name =
     (if name = ''widgets'' \<or> name = ''drilldowns'' then [''id'']
      else if name = ''parameters'' \<or> name = ''variables'' then [''name'']
      else if name = ''bindings'' then [''parameter'', ''variable'']
      else [])"

definition collectionKey :: "string \<Rightarrow> js_value list \<Rightarrow> js_value list \<Rightarrow> string option" where
  "collectionKey name before after =
     List.find (\<lambda>key. \<not> (before = [] \<and> after = []) \<and> identified key [] before \<and> identified key [] after)
       (key_candidates name)"

definition entries_by :: "string \<Rightarrow> js_value list \<Rightarrow> (string, js_value) js_map" where
  "entries_by key items =
     foldl (\<lambda>m item. js_map_set (case text_property key item of Some s \<Rightarrow> s | None \<Rightarrow> []) item m) [] items"

text \<open>\<open>xs[index]\<close> and \<open>map.get(id)\<close>, \<open>undefined\<close> where there is none.\<close>

definition item_at :: "js_value list \<Rightarrow> nat \<Rightarrow> js_value" where
  "item_at xs i = (if i < length xs then xs ! i else JUndefined)"

definition value_at :: "(string \<times> js_value) list \<Rightarrow> string \<Rightarrow> js_value" where
  "value_at m k = (case js_map_get m k of Some v \<Rightarrow> v | None \<Rightarrow> JUndefined)"

definition strict_equal :: "js_value \<Rightarrow> js_value \<Rightarrow> bool" where
  "strict_equal a b \<longleftrightarrow> a = b \<and> (case a of JArray xs \<Rightarrow> False | JObject ps \<Rightarrow> False | JNumber n \<Rightarrow> n \<noteq> NaN | _ \<Rightarrow> True)"

definition or_root :: "string \<Rightarrow> string" where
  "or_root path = js_or path ''$''"

definition reorder_change :: "string \<Rightarrow> (string, js_value) js_map \<Rightarrow> (string, js_value) js_map \<Rightarrow> ImportFieldChange list" where
  "reorder_change path oldItems newItems =
     (let oldOrder = filter (\<lambda>i. js_map_get newItems i \<noteq> None) (map fst oldItems);
          newOrder = filter (\<lambda>i. js_map_get oldItems i \<noteq> None) (map fst newItems)
      in if \<exists>index < length oldOrder. \<not> (index < length newOrder \<and> oldOrder ! index = newOrder ! index)
         then [\<lparr>fc_path = path, fc_kind = Reordered, fc_before = JArray (map (JString \<circ> fst) oldItems),
                fc_after = JArray (map (JString \<circ> fst) newItems)\<rparr>]
         else [])"

lemma size_value_at: "size (value_at ps k) < size (JObject ps)"
proof (cases "js_map_get ps k")
  case (Some v)
  then have "(k, v) \<in> set ps" by (rule js_map_get_in)
  then have "size v < size (JObject ps)" by (induction ps) auto
  then show ?thesis using Some by (simp add: value_at_def)
qed (simp add: value_at_def)

lemma size_item_at: "size (item_at xs i) < size (JArray xs)"
proof (cases "i < length xs")
  case True
  then have "size (xs ! i) \<le> size_list size xs" using size_list_estimation' [of "xs ! i" xs _ size] by simp
  then show ?thesis using True by (simp add: item_at_def)
qed (simp add: item_at_def)

lemma set_entries_by: "snd ` set (foldl (\<lambda>m item. js_map_set (f item) item m) m0 items) \<subseteq> snd ` set m0 \<union> set items"
proof (induction items arbitrary: m0)
  case (Cons x xs)
  have "snd ` set (js_map_set (f x) x m0) \<subseteq> insert x (snd ` set m0)" using set_js_map_set by fastforce
  then have "snd ` set (js_map_set (f x) x m0) \<union> set xs \<subseteq> snd ` set m0 \<union> set (x # xs)" by auto
  with Cons [of "js_map_set (f x) x m0"] show ?case unfolding foldl_Cons by (rule subset_trans)
qed simp

lemma size_entry: "size (value_at (entries_by key xs) i) < size (JArray xs)"
proof (cases "js_map_get (entries_by key xs) i")
  case (Some v)
  then have "v \<in> set xs"
    using js_map_get_in [OF Some] set_entries_by [of _ "[]" xs] by (force simp: entries_by_def)
  then have "size v \<le> size_list size xs" using size_list_estimation' [of v xs _ size] by simp
  then show ?thesis using Some by (simp add: value_at_def)
qed (simp add: value_at_def)

function walk :: "js_value \<Rightarrow> js_value \<Rightarrow> string \<Rightarrow> string \<Rightarrow> ImportFieldChange list" where
  "walk previous nxt path name =
     (if strict_equal previous nxt then []
      else if previous = JUndefined then [\<lparr>fc_path = or_root path, fc_kind = Added, fc_before = JUndefined, fc_after = nxt\<rparr>]
      else if nxt = JUndefined then [\<lparr>fc_path = or_root path, fc_kind = Removed, fc_before = previous, fc_after = JUndefined\<rparr>]
      else case (previous, nxt) of
          (JArray xs, JArray ys) \<Rightarrow>
            (case collectionKey name xs ys of
               Some key \<Rightarrow>
                 let oldItems = entries_by key xs; newItems = entries_by key ys in
                 reorder_change path oldItems newItems @
                 concat (map (\<lambda>i. walk (value_at (entries_by key xs) i) (value_at (entries_by key ys) i)
                       (path @ ''['' @ key @ ''='' @ i @ '']'') [])
                   (js_set (map fst oldItems @ map fst newItems)))
             | None \<Rightarrow>
                 concat (map (\<lambda>i. walk (item_at xs i) (item_at ys i) (path @ ''['' @ nat_str i @ '']'') [])
                   [0..<max (length xs) (length ys)]))
        | (JObject ps, JObject qs) \<Rightarrow>
            concat (map (\<lambda>key. walk (value_at ps key) (value_at qs key) (propertyPath path key) key)
              (sort_by cmp_ord (js_set (map fst ps @ map fst qs))))
        | _ \<Rightarrow> [\<lparr>fc_path = or_root path, fc_kind = Changed, fc_before = previous, fc_after = nxt\<rparr>])"
  by pat_completeness auto

termination
  by (relation "measure (\<lambda>(p, n, path, name). size p + size n)")
    (auto intro: add_strict_mono size_entry size_item_at size_value_at simp del: js_value.size)

declare walk.simps [simp del]


definition record_change :: "ImportFieldChange list \<times> nat \<Rightarrow> ImportFieldChange \<Rightarrow> ImportFieldChange list \<times> nat" where
  "record_change st change =
     (case st of (changes, totalChanges) \<Rightarrow>
        (if length changes < MAX_IMPORT_DIFF_CHANGES then changes @ [change] else changes, totalChanges + 1))"

definition diffImportDocuments :: "js_value \<Rightarrow> js_value \<Rightarrow> ImportDiff" where
  "diffImportDocuments before after =
     (case foldl record_change ([], 0) (walk before after [] []) of
        (changes, totalChanges) \<Rightarrow> \<lparr>id_changes = changes, id_totalChanges = totalChanges, id_truncated = length changes < totalChanges\<rparr>)"

section \<open>Reviews\<close>

datatype review_status = New | Identical | Conflict

record ImportBaseline =
  ib_fingerprint :: "string option"
  ib_etag :: "string option"

record ImportSnapshot =
  is_document :: js_value
  is_etag :: "string option"

record ImportReview =
  ir_status :: review_status
  ir_baseline :: "ImportBaseline option"
  ir_diff :: ImportDiff
  ir_canReplace :: bool
  ir_replaceBlockedReason :: "string option"

text \<open>An empty tag or reason counts as none, as in \<open>existing.etag ? ... : ...\<close>.\<close>

definition present_text :: "string option \<Rightarrow> string option" where
  "present_text t = (case t of Some s \<Rightarrow> if s = [] then None else Some s | None \<Rightarrow> None)"

definition review :: "js_value \<Rightarrow> ImportSnapshot option \<Rightarrow> string option \<Rightarrow> ImportReview option" where
  "review incoming existing blockedReason =
     (if (case existing of Some s \<Rightarrow> js_property incoming ''id'' \<noteq> js_property (is_document s) ''id'' | None \<Rightarrow> False)
      then None
      else
        let fingerprint = documentFingerprint incoming;
            baseline = map_option (\<lambda>s. \<lparr>ib_fingerprint = documentFingerprint (is_document s),
                ib_etag = present_text (is_etag s)\<rparr>) existing;
            reason = (case existing of
                None \<Rightarrow> Some ''This document is new. Import it or create a copy.''
              | Some s \<Rightarrow>
                  (case blockedReason of Some r \<Rightarrow> Some r
                   | None \<Rightarrow> if present_text (is_etag s) = None
                       then Some ''Reload this document to obtain its revision before replacing it.'' else None))
        in Some \<lparr>ir_status = (case baseline of None \<Rightarrow> New
              | Some b \<Rightarrow> if ib_fingerprint b = fingerprint then Identical else Conflict),
            ir_baseline = baseline,
            ir_diff = diffImportDocuments (case existing of Some s \<Rightarrow> is_document s | None \<Rightarrow> JObject []) incoming,
            ir_canReplace = (present_text reason = None),
            ir_replaceBlockedReason = present_text reason\<rparr>)"

text \<open>\<open>canonicalQuery\<close> parses a saved query with its schema, or throws.\<close>

definition SOURCE_CHANGE_REASON :: string where
  "SOURCE_CHANGE_REASON =
     ''A saved query's data source and kind cannot be replaced. Keep the existing query or create a copy.''"

definition reviewSavedQuery ::
    "(js_value \<Rightarrow> js_value option) \<Rightarrow> js_value \<Rightarrow> ImportSnapshot option \<Rightarrow> ImportReview option" where
  "reviewSavedQuery canonicalQuery incoming existing =
     (case canonicalQuery incoming of
        None \<Rightarrow> None
      | Some nxt \<Rightarrow>
          (case existing of
             None \<Rightarrow> review nxt None None
           | Some s \<Rightarrow>
               (case canonicalQuery (is_document s) of
                  None \<Rightarrow> None
                | Some document \<Rightarrow>
                    review nxt (Some (s\<lparr>is_document := document\<rparr>))
                      (if js_property document ''providerId'' \<noteq> js_property nxt ''providerId'' \<or>
                          js_property document ''kind'' \<noteq> js_property nxt ''kind''
                       then Some SOURCE_CHANGE_REASON else None))))"

section \<open>Documents\<close>

text \<open>
  What \<open>JSON.parse\<close> gives: no \<open>undefined\<close>, finite numbers, one entry per key. A number may be any rational here, also one that
  is no binary64 number; the canonical forms of two documents are compared, not their texts.
\<close>

fun json_doc :: "js_value \<Rightarrow> bool" where
  "json_doc (JArray xs) = list_all json_doc xs"
| "json_doc (JObject ps) = (distinct (map fst ps) \<and> list_all (\<lambda>(k, v). json_doc v) ps)"
| "json_doc (JNumber n) = js_is_finite n"
| "json_doc JUndefined = False"
| "json_doc (JBigint i) = False"
| "json_doc _ = True"

definition doc_or_none :: "js_value \<Rightarrow> bool" where
  "doc_or_none v \<longleftrightarrow> v = JUndefined \<or> json_doc v"

lemma canonical_eq_undefined [simp]: "canonical v = JUndefined \<longleftrightarrow> v = JUndefined"
  by (cases v) auto

lemma undefined_eq_canonical [simp]: "JUndefined = canonical v \<longleftrightarrow> v = JUndefined"
  by (cases v) auto

lemma item_at_doc: "json_doc (JArray xs) \<Longrightarrow> doc_or_none (item_at xs i)"
  by (auto simp: doc_or_none_def item_at_def list_all_length)

lemma value_at_doc: "list_all (\<lambda>(k, v). json_doc v) ps \<Longrightarrow> doc_or_none (value_at ps k)"
  by (auto simp: doc_or_none_def value_at_def list_all_iff dest!: js_map_get_in split: option.splits)

section \<open>Objects\<close>

lemma mset_sorted_object [simp]: "mset (sorted_object ps) = mset ps"
  by (simp add: sorted_object_def object_order_def)

lemma set_sorted_object [simp]: "set (sorted_object ps) = set ps"
  by (metis mset_sorted_object set_mset_mset)

lemma distinct_sorted_object [simp]: "distinct (map fst (sorted_object ps)) = distinct (map fst ps)"
  by (metis mset_map mset_sorted_object mset_eq_imp_distinct_iff)

lemma map_of_same_set:
  assumes "set ps = set qs" "distinct (map fst ps)" "distinct (map fst qs)"
  shows "map_of ps = map_of qs"
proof -
  have "map_of ps k = Some v \<longleftrightarrow> map_of qs k = Some v" for k v using assms by simp
  then show ?thesis by (metis (no_types) ext not_Some_eq)
qed

lemma list_eq_by_keys:
  assumes "map fst xs = map fst ys" "distinct (map fst xs)" "set xs = set ys"
  shows "xs = ys"
proof (rule nth_equalityI)
  show len: "length xs = length ys" using assms(1) by (metis length_map)
  fix i assume i: "i < length xs"
  have "xs ! i \<in> set ys" "ys ! i \<in> set ys" using i len assms(3) nth_mem by auto
  moreover have "fst (xs ! i) = fst (ys ! i)" using assms(1) i len by (metis nth_map)
  moreover have "distinct (map fst ys)" using assms(1,2) by simp
  ultimately show "xs ! i = ys ! i" by (metis eq_key_imp_eq_value prod.collapse)
qed

lemma sort_by_key_unique:
  fixes ps qs :: "('k::linorder \<times> 'v) list"
  assumes "distinct (map fst ps)" "distinct (map fst qs)" "set ps = set qs"
  shows "sort_by (\<lambda>p q. cmp_ord (fst p) (fst q)) ps = sort_by (\<lambda>p q. cmp_ord (fst p) (fst q)) qs"
proof -
  let ?s = "sort_by (\<lambda>p q :: 'k \<times> 'v. cmp_ord (fst p) (fst q))"
  have srt: "sorted (map fst (?s xs))" for xs :: "('k \<times> 'v) list"
    using ord_cmp.sort_by_sorted [of fst xs] by (simp add: cmp_ord_le sorted_map)
  have "set (map fst (?s ps)) = set (map fst (?s qs))" using assms(3) by simp
  then have "map fst (?s ps) = map fst (?s qs)"
    by (intro sorted_distinct_set_unique [OF srt _ srt]) (use assms(1,2) in simp_all)
  then show ?thesis by (rule list_eq_by_keys) (use assms in simp_all)
qed

lemma sorted_object_unique:
  assumes "distinct (map fst ps)" "distinct (map fst qs)"
  shows "sorted_object ps = sorted_object qs \<longleftrightarrow> set ps = set qs"
  using sort_by_key_unique [OF assms] by (metis set_sorted_object sorted_object_def)

lemma value_at_unique:
  assumes "distinct (map fst ps)" "distinct (map fst qs)" "JUndefined \<notin> snd ` set ps" "JUndefined \<notin> snd ` set qs"
  shows "(\<forall>k. value_at ps k = value_at qs k) \<longleftrightarrow> set ps = set qs"
proof
  have get: "value_at m k = v \<longleftrightarrow> (k, v) \<in> set m"
    if "distinct (map fst m)" "JUndefined \<notin> snd ` set m" "v \<noteq> JUndefined" for m k v
  proof (cases "js_map_get m k")
    case None
    then show ?thesis using that js_map_get_iff [OF that(1), of k v] by (auto simp: value_at_def)
  next
    case (Some w)
    then show ?thesis using js_map_get_iff [OF that(1), of k v] by (auto simp: value_at_def)
  qed
  assume all: "\<forall>k. value_at ps k = value_at qs k"
  have "(k, v) \<in> set ps \<longleftrightarrow> (k, v) \<in> set qs" for k v
    using get [OF assms(1,3)] get [OF assms(2,4)] all assms(3,4) by (metis imageI snd_conv)
  then show "set ps = set qs" by auto
next
  assume "set ps = set qs"
  then have "map_of ps = map_of qs" using assms(1,2) by (rule map_of_same_set)
  then show "\<forall>k. value_at ps k = value_at qs k" by (simp add: value_at_def js_map_get_def)
qed

lemma canonical_value_at: "canonical (value_at ps k) = value_at (map (\<lambda>(k, v). (k, canonical v)) ps) k"
  by (simp add: value_at_def js_map_get_def map_of_map split: option.split)

lemma canonical_keys: "map fst (map (\<lambda>(k, v). (k, canonical v)) m) = map fst m"
  by (simp add: comp_def case_prod_unfold)

lemma objects_agree:
  assumes "json_doc (JObject ps)" "json_doc (JObject qs)"
  shows "(\<forall>k \<in> set (map fst ps) \<union> set (map fst qs). canonical (value_at ps k) = canonical (value_at qs k)) \<longleftrightarrow>
    canonical (JObject ps) = canonical (JObject qs)"
proof -
  let ?c = "map (\<lambda>(k, v). (k, canonical v))"
  have absent: "value_at m k = JUndefined" if "k \<notin> fst ` set m" for m k
  proof -
    have "js_map_get m k = None" using that by (simp add: js_map_get_def map_of_eq_None_iff)
    then show ?thesis by (simp add: value_at_def)
  qed
  have "(\<forall>k \<in> set (map fst ps) \<union> set (map fst qs). canonical (value_at ps k) = canonical (value_at qs k)) \<longleftrightarrow>
      (\<forall>k. canonical (value_at ps k) = canonical (value_at qs k))" by (metis UnCI absent list.set_map)
  also have "\<dots> \<longleftrightarrow> (\<forall>k. value_at (?c ps) k = value_at (?c qs) k)" by (simp only: canonical_value_at)
  also have "\<dots> \<longleftrightarrow> set (?c ps) = set (?c qs)"
  proof (rule value_at_unique)
    show "distinct (map fst (?c ps))" "distinct (map fst (?c qs))" using assms by (simp_all add: canonical_keys del: map_map)
    have "JUndefined \<notin> snd ` set (?c m)" if "list_all (\<lambda>(k, v). json_doc v) m" for m :: "(string \<times> js_value) list"
    proof
      assume "JUndefined \<in> snd ` set (?c m)"
      then obtain k v where "(k, v) \<in> set m" "canonical v = JUndefined" by (force dest: sym)
      then show False using that by (auto simp: list_all_iff)
    qed
    then show "JUndefined \<notin> snd ` set (?c ps)" "JUndefined \<notin> snd ` set (?c qs)" using assms by simp_all
  qed
  also have "\<dots> \<longleftrightarrow> canonical (JObject ps) = canonical (JObject qs)"
    using sorted_object_unique [of "?c ps" "?c qs"] assms by (simp add: canonical_keys del: map_map)
  finally show ?thesis .
qed

section \<open>Arrays\<close>

lemma arrays_agree:
  assumes "json_doc (JArray xs)" "json_doc (JArray ys)"
  shows "(\<forall>i < max (length xs) (length ys). canonical (item_at xs i) = canonical (item_at ys i)) \<longleftrightarrow>
    canonical (JArray xs) = canonical (JArray ys)"
proof
  assume all: "\<forall>i < max (length xs) (length ys). canonical (item_at xs i) = canonical (item_at ys i)"
  have none: "zs ! i \<noteq> JUndefined" if "json_doc (JArray zs)" "i < length zs" for zs i
    using that by (auto simp: list_all_length)
  have "length xs = length ys"
  proof (rule ccontr)
    assume "length xs \<noteq> length ys"
    then consider "length xs < length ys" | "length ys < length xs" by linarith
    then show False
    proof cases
      case 1
      then show ?thesis using all [rule_format, of "length xs"] none [OF assms(2) 1] by (auto simp: item_at_def max_def dest: sym)
    next
      case 2
      then show ?thesis using all [rule_format, of "length ys"] none [OF assms(1) 2] by (auto simp: item_at_def max_def)
    qed
  qed
  then show "canonical (JArray xs) = canonical (JArray ys)" using all by (auto simp: item_at_def intro: nth_equalityI)
next
  assume eq: "canonical (JArray xs) = canonical (JArray ys)"
  then have "map canonical xs = map canonical ys" by simp
  then have len: "length xs = length ys" by (rule map_eq_imp_length_eq)
  have "canonical (xs ! i) = canonical (ys ! i)" if "i < length xs" for i
  proof -
    have "map canonical xs ! i = map canonical ys ! i" using eq by simp
    then show ?thesis using that len by simp
  qed
  then show "\<forall>i < max (length xs) (length ys). canonical (item_at xs i) = canonical (item_at ys i)"
    using len by (simp add: item_at_def)
qed

text \<open>A collection whose items have identities.\<close>

definition ids_by :: "string \<Rightarrow> js_value list \<Rightarrow> string list" where
  "ids_by key xs = map (\<lambda>x. the (text_property key x)) xs"

lemma identified_iff:
  "identified key seen xs \<longleftrightarrow>
     (\<forall>x \<in> set xs. text_property key x \<noteq> None) \<and> distinct (ids_by key xs) \<and> set seen \<inter> set (ids_by key xs) = {}"
  by (induction key seen xs rule: identified.induct)
    (auto simp: ids_by_def js_set_add_def split: option.splits if_splits)

lemma entries_by_identified:
  assumes "identified key [] xs"
  shows "entries_by key xs = map (\<lambda>x. (the (text_property key x), x)) xs"
proof -
  have "(case text_property key x of Some s \<Rightarrow> s | None \<Rightarrow> []) = the (text_property key x)" if "x \<in> set xs" for x
    using assms that by (auto simp: identified_iff)
  then have "entries_by key xs = foldl (\<lambda>m x. js_map_set (the (text_property key x)) x m) [] xs"
    by (auto simp: entries_by_def intro: foldl_cong)
  also have "\<dots> = [] @ map (\<lambda>x. (the (text_property key x), x)) xs"
    using assms by (intro foldl_js_map_set_new) (simp add: identified_iff ids_by_def)
  finally show ?thesis by simp
qed

lemma entry_keys: "identified key [] xs \<Longrightarrow> map fst (entries_by key xs) = ids_by key xs"
  by (simp add: entries_by_identified ids_by_def comp_def)

lemma entry_nth:
  assumes "identified key [] xs" "i < length xs"
  shows "value_at (entries_by key xs) (ids_by key xs ! i) = xs ! i"
proof -
  have "distinct (map fst (entries_by key xs))" using assms(1) entry_keys [OF assms(1)] by (simp add: identified_iff)
  moreover have "(ids_by key xs ! i, xs ! i) \<in> set (entries_by key xs)"
    using assms nth_mem [OF assms(2)] by (simp add: entries_by_identified ids_by_def)
  ultimately show ?thesis by (simp add: value_at_def js_map_get_iff [THEN iffD2])
qed

lemma entry_none: "identified key [] xs \<Longrightarrow> i \<notin> set (ids_by key xs) \<longleftrightarrow> js_map_get (entries_by key xs) i = None"
  by (metis entry_keys js_map_get_def map_of_eq_None_iff list.set_map)

lemma text_property_canonical:
  assumes "json_doc x"
  shows "text_property key (canonical x) = text_property key x"
proof (cases x)
  case (JObject ps)
  let ?c = "map (\<lambda>(k, v). (k, canonical v)) ps"
  have "distinct (map fst ?c)" using assms JObject by (simp add: canonical_keys del: map_map)
  then have "map_of (sorted_object ?c) = map_of ?c" by (intro map_of_same_set) (simp_all del: map_map)
  then have "js_property (canonical x) key = canonical (js_property x key)"
    using canonical_value_at [of ps key] by (simp add: JObject value_at_def js_map_get_def)
  moreover have "isObject (canonical x)" by (simp add: JObject)
  moreover have "canonical v = JString s \<longleftrightarrow> v = JString s" for v s by (cases v) auto
  ultimately show ?thesis
    by (cases "js_property x key") (auto simp: text_property_def JObject)
qed (simp_all add: text_property_def)

lemma ids_by_canonical:
  assumes "json_doc (JArray xs)"
  shows "ids_by key (map canonical xs) = ids_by key xs"
  using assms text_property_canonical by (auto simp: ids_by_def list_all_iff)

lemma reorder_Nil:
  assumes "identified key [] xs" "identified key [] ys" "set (ids_by key xs) = set (ids_by key ys)"
  shows "reorder_change path (entries_by key xs) (entries_by key ys) = [] \<longleftrightarrow> ids_by key xs = ids_by key ys"
proof -
  have len: "length (ids_by key xs) = length (ids_by key ys)"
    using assms distinct_card by (metis identified_iff)
  have present: "js_map_get (entries_by key zs) i \<noteq> None" if "identified key [] zs" "i \<in> set (ids_by key zs)" for zs i
    using entry_none [OF that(1)] that(2) by blast
  have "filter (\<lambda>i. js_map_get (entries_by key ys) i \<noteq> None) (ids_by key xs) = ids_by key xs"
    "filter (\<lambda>i. js_map_get (entries_by key xs) i \<noteq> None) (ids_by key ys) = ids_by key ys"
    using present assms by (auto intro!: filter_True)
  then have "reorder_change path (entries_by key xs) (entries_by key ys) = [] \<longleftrightarrow>
      \<not> (\<exists>i < length (ids_by key xs). \<not> (i < length (ids_by key ys) \<and> ids_by key xs ! i = ids_by key ys ! i))"
    by (simp only: reorder_change_def entry_keys [OF assms(1)] entry_keys [OF assms(2)] Let_def) simp
  also have "\<dots> \<longleftrightarrow> ids_by key xs = ids_by key ys" using len by (auto intro: nth_equalityI)
  finally show ?thesis .
qed

lemma collections_agree:
  assumes docs: "json_doc (JArray xs)" "json_doc (JArray ys)"
    and keyed: "identified key [] xs" "identified key [] ys"
  shows "reorder_change path (entries_by key xs) (entries_by key ys) = [] \<and>
      (\<forall>i \<in> set (ids_by key xs) \<union> set (ids_by key ys).
         canonical (value_at (entries_by key xs) i) = canonical (value_at (entries_by key ys) i)) \<longleftrightarrow>
    canonical (JArray xs) = canonical (JArray ys)" (is "?reorder \<and> ?all \<longleftrightarrow> ?same")
proof
  have len_ids: "length (ids_by key zs) = length zs" for zs by (simp add: ids_by_def)
  have defined: "value_at (entries_by key zs) i \<noteq> JUndefined \<longleftrightarrow> i \<in> set (ids_by key zs)"
    if "json_doc (JArray zs)" "identified key [] zs" for zs i
  proof (cases "i \<in> set (ids_by key zs)")
    case True
    then obtain j where "j < length zs" "ids_by key zs ! j = i" by (metis in_set_conv_nth len_ids)
    then show ?thesis using True entry_nth [OF that(2)] that(1) by (auto simp: list_all_length)
  next
    case False
    then show ?thesis using entry_none [OF that(2)] by (simp add: value_at_def)
  qed
  { assume both: "?reorder \<and> ?all"
    have "i \<in> set (ids_by key xs) \<longleftrightarrow> i \<in> set (ids_by key ys)" for i
      using both defined [OF docs(1) keyed(1)] defined [OF docs(2) keyed(2)] by (metis UnCI canonical_eq_undefined)
    then have ids: "ids_by key xs = ids_by key ys" using reorder_Nil [OF keyed] both by blast
    then have len: "length xs = length ys" using len_ids by metis
    have "canonical (xs ! i) = canonical (ys ! i)" if "i < length xs" for i
    proof -
      have "ids_by key xs ! i \<in> set (ids_by key xs)" using that len_ids by (metis nth_mem)
      then have "canonical (value_at (entries_by key xs) (ids_by key xs ! i)) =
          canonical (value_at (entries_by key ys) (ids_by key xs ! i))" using both by blast
      then show ?thesis
        using entry_nth [OF keyed(1) that] entry_nth [OF keyed(2), of i] that len ids by simp
    qed
    then show ?same using len by (auto intro: nth_equalityI) }
  assume same: ?same
  then have maps: "map canonical xs = map canonical ys" by simp
  then have ids: "ids_by key xs = ids_by key ys" using ids_by_canonical docs by metis
  have len: "length xs = length ys" using maps by (rule map_eq_imp_length_eq)
  have "canonical (value_at (entries_by key xs) i) = canonical (value_at (entries_by key ys) i)"
    if mem: "i \<in> set (ids_by key xs)" for i
  proof -
    obtain j where j: "j < length xs" "ids_by key xs ! j = i" using mem by (metis in_set_conv_nth len_ids)
    then have "canonical (xs ! j) = canonical (ys ! j)" using maps len by (metis nth_map)
    then show ?thesis using j ids len entry_nth [OF keyed(1)] entry_nth [OF keyed(2)] by metis
  qed
  then show "?reorder \<and> ?all" using reorder_Nil [OF keyed] ids by simp
qed

section \<open>The comparison is exact\<close>

lemma collectionKey_identified:
  "collectionKey name xs ys = Some key \<Longrightarrow> identified key [] xs \<and> identified key [] ys"
  by (auto simp: collectionKey_def dest: find_Some_in)

lemma entry_doc: "json_doc (JArray xs) \<Longrightarrow> doc_or_none (value_at (entries_by key xs) i)"
  using set_entries_by [of _ "[]" xs]
  by (force simp: doc_or_none_def value_at_def entries_by_def list_all_iff dest!: js_map_get_in split: option.splits)

lemma strict_equal_doc:
  assumes "json_doc a"
  shows "strict_equal a b \<longleftrightarrow> a = b \<and> (\<forall>xs. a \<noteq> JArray xs) \<and> (\<forall>ps. a \<noteq> JObject ps)"
  using assms by (cases a) (auto simp: strict_equal_def)

lemma walk_items:
  "collectionKey name xs ys = None \<Longrightarrow> walk (JArray xs) (JArray ys) path name = [] \<longleftrightarrow>
     (\<forall>i < max (length xs) (length ys). walk (item_at xs i) (item_at ys i) (path @ ''['' @ nat_str i @ '']'') [] = [])"
  by (subst walk.simps) (auto simp: strict_equal_def)

lemma walk_entries:
  assumes "collectionKey name xs ys = Some key"
  shows "walk (JArray xs) (JArray ys) path name = [] \<longleftrightarrow>
    reorder_change path (entries_by key xs) (entries_by key ys) = [] \<and>
    (\<forall>i \<in> set (ids_by key xs) \<union> set (ids_by key ys).
      walk (value_at (entries_by key xs) i) (value_at (entries_by key ys) i) (path @ ''['' @ key @ ''='' @ i @ '']'') [] = [])"
  using collectionKey_identified [OF assms] assms
  by (subst walk.simps) (simp add: strict_equal_def Let_def entry_keys)

lemma walk_objects:
  "walk (JObject ps) (JObject qs) path name = [] \<longleftrightarrow>
     (\<forall>k \<in> set (map fst ps) \<union> set (map fst qs). walk (value_at ps k) (value_at qs k) (propertyPath path k) k = [])"
  by (subst walk.simps) (simp add: strict_equal_def)

lemma walk_Nil:
  "doc_or_none p \<Longrightarrow> doc_or_none n \<Longrightarrow> walk p n path name = [] \<longleftrightarrow> canonical p = canonical n"
proof (induction "size p + size n" arbitrary: p n path name rule: less_induct)
  case less
  consider (none) "p = JUndefined \<or> n = JUndefined"
    | (arrays) xs ys where "p = JArray xs" "n = JArray ys"
    | (objects) ps qs where "p = JObject ps" "n = JObject qs"
    | (other) "p \<noteq> JUndefined" "n \<noteq> JUndefined" "\<nexists>xs ys. p = JArray xs \<and> n = JArray ys"
        "\<nexists>ps qs. p = JObject ps \<and> n = JObject qs"
    by blast
  then show ?case
  proof cases
    case none
    then show ?thesis
      by (subst walk.simps) (auto simp: strict_equal_def)
  next
    case arrays
    then have docs: "json_doc (JArray xs)" "json_doc (JArray ys)" using less.prems by (simp_all add: doc_or_none_def)
    show ?thesis
    proof (cases "collectionKey name xs ys")
      case None
      have "walk (item_at xs i) (item_at ys i) q [] = [] \<longleftrightarrow> canonical (item_at xs i) = canonical (item_at ys i)" for i q
        using item_at_doc docs size_item_at unfolding arrays by (intro less.hyps) (auto simp: arrays intro: add_strict_mono simp del: js_value.size)
      then show ?thesis using arrays_agree [OF docs] walk_items [OF None] arrays by simp
    next
      case (Some key)
      have "walk (value_at (entries_by key xs) i) (value_at (entries_by key ys) i) q [] = [] \<longleftrightarrow>
          canonical (value_at (entries_by key xs) i) = canonical (value_at (entries_by key ys) i)" for i q
        using entry_doc docs by (intro less.hyps) (auto simp: arrays intro: add_strict_mono size_entry simp del: js_value.size)
      then show ?thesis
        using collections_agree [OF docs] collectionKey_identified [OF Some] walk_entries [OF Some] arrays by simp
    qed
  next
    case objects
    then have docs: "json_doc (JObject ps)" "json_doc (JObject qs)" using less.prems by (simp_all add: doc_or_none_def)
    have "walk (value_at ps k) (value_at qs k) q k = [] \<longleftrightarrow> canonical (value_at ps k) = canonical (value_at qs k)" for k q
      using value_at_doc docs by (intro less.hyps) (auto simp: objects intro: add_strict_mono size_value_at simp del: js_value.size)
    then show ?thesis using objects_agree [OF docs] walk_objects [of ps qs] objects by simp
  next
    case other
    then have "json_doc p" "json_doc n" using less.prems by (simp_all add: doc_or_none_def)
    then show ?thesis using other
      by (subst walk.simps) (cases p; cases n; simp add: strict_equal_doc)
  qed
qed

lemma record_change_eq:
  "record_change (cs, t) c = (cs @ take (MAX_IMPORT_DIFF_CHANGES - length cs) [c], Suc t)"
  by (cases "MAX_IMPORT_DIFF_CHANGES - length cs") (auto simp: record_change_def)

lemma foldl_record_change:
  "foldl record_change (cs, t) xs = (cs @ take (MAX_IMPORT_DIFF_CHANGES - length cs) xs, t + length xs)"
proof (induction xs arbitrary: cs t)
  case (Cons x xs)
  show ?case
  proof (cases "MAX_IMPORT_DIFF_CHANGES - length cs")
    case (Suc n)
    then have "MAX_IMPORT_DIFF_CHANGES - Suc (length cs) = n" by simp
    then show ?thesis using Cons Suc by (simp add: record_change_eq)
  qed (simp add: Cons record_change_eq)
qed simp

lemma diff_fields:
  "id_changes (diffImportDocuments a b) = take 200 (walk a b [] [])"
  "id_totalChanges (diffImportDocuments a b) = length (walk a b [] [])"
  "id_truncated (diffImportDocuments a b) \<longleftrightarrow> 200 < length (walk a b [] [])"
  by (auto simp: diffImportDocuments_def foldl_record_change MAX_IMPORT_DIFF_CHANGES_def)

section \<open>Properties\<close>

text \<open>
  C23: The comparison of two documents counts no change exactly when they have the same canonical form,
  that is when they are equal up to the order of the keys of objects; documents with equal canonical forms have equal
  fingerprints. It shows at most 200 changes, the
  first ones, and says so exactly when it leaves some out.
\<close>

theorem diff_is_exact:
  assumes "json_doc before" "json_doc after"
  shows "(id_totalChanges (diffImportDocuments before after) = 0 \<longleftrightarrow> canonical before = canonical after) \<and>
    length (id_changes (diffImportDocuments before after)) = min 200 (id_totalChanges (diffImportDocuments before after)) \<and>
    (id_truncated (diffImportDocuments before after) \<longleftrightarrow> 200 < id_totalChanges (diffImportDocuments before after))"
  using walk_Nil [of before after "[]" "[]"] assms by (simp add: diff_fields doc_or_none_def min.commute)

definition sample_dashboard :: "string list \<Rightarrow> js_value" where
  "sample_dashboard ids = JObject [(''id'', JString ''d''), (''widgets'',
     JArray (map (\<lambda>i. JObject [(''id'', JString i), (''h'', JNumber (Fin 2))]) ids))]"

theorem diff_is_exact_witness:
  "canonical (sample_dashboard [''a'', ''b'']) \<noteq> canonical (sample_dashboard [''b'', ''a'']) \<and>
   0 < id_totalChanges (diffImportDocuments (sample_dashboard [''a'', ''b'']) (sample_dashboard [''b'', ''a'']))"
proof -
  have "json_doc (sample_dashboard [''a'', ''b''])" "json_doc (sample_dashboard [''b'', ''a''])" by code_simp+
  moreover have "canonical (sample_dashboard [''a'', ''b'']) \<noteq> canonical (sample_dashboard [''b'', ''a''])" by code_simp
  ultimately show ?thesis using diff_is_exact by blast
qed

text \<open>
  A review of a document that is in the workspace already shows at least one change whenever it
  reports a conflict, and allows replacing exactly when nothing blocks it and the revision to replace is
  known. A document that is not there is new and cannot replace anything.
\<close>

theorem review_is_honest:
  assumes "review incoming existing blockedReason = Some r" "json_doc incoming"
    and "case existing of Some s \<Rightarrow> json_doc (is_document s) | None \<Rightarrow> True"
  shows "(ir_status r = New \<longleftrightarrow> existing = None) \<and>
    (ir_status r = Conflict \<longrightarrow> 0 < id_totalChanges (ir_diff r)) \<and>
    (existing \<noteq> None \<and> id_totalChanges (ir_diff r) = 0 \<longrightarrow> ir_status r = Identical) \<and>
    (ir_canReplace r \<longleftrightarrow> (\<exists>s tag. existing = Some s \<and> is_etag s = Some tag \<and> tag \<noteq> [] \<and> blockedReason = None) \<or>
       existing \<noteq> None \<and> blockedReason = Some [])"
proof (cases existing)
  case None
  then show ?thesis using assms(1) by (auto simp: review_def Let_def present_text_def)
next
  case (Some s)
  have exact: "id_totalChanges (diffImportDocuments (is_document s) incoming) = 0 \<longleftrightarrow>
      canonical (is_document s) = canonical incoming"
    using walk_Nil [of "is_document s" incoming "[]" "[]"] assms(2,3) Some by (simp add: diff_fields doc_or_none_def)
  have r: "r = \<lparr>ir_status = (if documentFingerprint (is_document s) = documentFingerprint incoming then Identical else Conflict),
      ir_baseline = Some \<lparr>ib_fingerprint = documentFingerprint (is_document s), ib_etag = present_text (is_etag s)\<rparr>,
      ir_diff = diffImportDocuments (is_document s) incoming,
      ir_canReplace = ir_canReplace r, ir_replaceBlockedReason = ir_replaceBlockedReason r\<rparr>"
    using assms(1) Some by (auto simp: review_def Let_def split: if_splits)
  have "ir_canReplace r \<longleftrightarrow> (\<exists>tag. is_etag s = Some tag \<and> tag \<noteq> [] \<and> blockedReason = None) \<or> blockedReason = Some []"
    using assms(1) Some by (cases blockedReason; cases "is_etag s") (auto simp: review_def Let_def present_text_def split: if_splits)
  moreover have "documentFingerprint (is_document s) = documentFingerprint incoming"
    if "canonical (is_document s) = canonical incoming" using that by (simp add: documentFingerprint_def)
  ultimately show ?thesis using exact Some by (subst (1 2 3 4 5) r) auto
qed

theorem review_is_honest_witness:
  "\<exists>r. review (sample_dashboard [''a'']) (Some \<lparr>is_document = sample_dashboard [''b''], is_etag = Some ''7''\<rparr>) None = Some r \<and>
     ir_canReplace r"
proof -
  let ?s = "\<lparr>is_document = sample_dashboard [''b''], is_etag = Some ''7''\<rparr>"
  have "js_property (sample_dashboard [''a'']) ''id'' = js_property (is_document ?s) ''id''" by code_simp
  then obtain r where r: "review (sample_dashboard [''a'']) (Some ?s) None = Some r" by (simp add: review_def Let_def)
  have docs: "json_doc (sample_dashboard [''a''])" "json_doc (sample_dashboard [''b''])" by code_simp+
  have "case Some ?s of Some s \<Rightarrow> json_doc (is_document s) | None \<Rightarrow> True" using docs(2) by simp
  from review_is_honest [OF r docs(1) this] show ?thesis using r by auto
qed

end
