(* ===== verification/DashboardJson.thy ===== *)
theory DashboardJson
  imports DashboardSchema ImportDiff
begin

text \<open>
  The documents of a workspace as values (\<open>ui/src/features/insights/schema.ts\<close>): the object a saved query or
  a dashboard is, with an optional field only where it is set. \<open>JSON.stringify\<close> of it gives the fingerprints
  and the sizes that imports check (\<open>fingerprint.ts\<close>, \<open>workspace-transfer.ts\<close>).
\<close>

section \<open>Fields\<close>

definition optional :: "string \<Rightarrow> ('a \<Rightarrow> js_value) \<Rightarrow> 'a option \<Rightarrow> (string \<times> js_value) list" where
  "optional key encode x = (case x of Some v \<Rightarrow> [(key, encode v)] | None \<Rightarrow> [])"

definition array_of :: "('a \<Rightarrow> js_value) \<Rightarrow> 'a list \<Rightarrow> js_value" where
  "array_of encode xs = JArray (map encode xs)"

definition kind_value :: "DataKind \<Rightarrow> js_value" where
  "kind_value k = JString (kind_name k)"

fun literal_value :: "literal \<Rightarrow> js_value" where
  "literal_value (Text s) = JString s"
| "literal_value (Num n) = JNumber n"

fun field_name :: "observation_field \<Rightarrow> string" where
  "field_name Field_value = ''value''"
| "field_name Field_timestamp = ''timestamp''"
| "field_name Field_series = ''series''"

section \<open>Saved queries\<close>

definition parameter_value :: "SavedQueryParameter \<Rightarrow> js_value" where
  "parameter_value p = JObject ([(''name'', JString (sp_name p))] @ optional ''label'' JString (sp_label p) @
     [(''type'', JString (if sp_type p = Text_parameter then ''string'' else ''number''))] @
     optional ''defaultValue'' literal_value (sp_defaultValue p))"

definition query_value :: "SavedQuery \<Rightarrow> js_value" where
  "query_value q = JObject ([(''schemaVersion'', JNumber (Fin 1)), (''id'', JString (sq_id q)), (''name'', JString (sq_name q))] @
     optional ''description'' JString (sq_description q) @ optional ''imageUrl'' JString (sq_imageUrl q) @
     optional ''tags'' (array_of JString) (sq_tags q) @
     optional ''metadata'' (\<lambda>m. JObject (map (\<lambda>(k, v). (k, JString v)) m)) (sq_metadata q) @
     [(''providerId'', JString (sq_providerId q)), (''kind'', kind_value (sq_kind q)), (''query'', JString (sq_query q))] @
     optional ''parameters'' (array_of parameter_value) (sq_parameters q))"

fun query_binding_value :: "SavedQueryBinding \<Rightarrow> js_value" where
  "query_binding_value (Bind_variable p v) =
     JObject [(''parameter'', JString p), (''source'', JString ''variable''), (''variable'', JString v)]"
| "query_binding_value (Bind_constant p v) =
     JObject [(''parameter'', JString p), (''source'', JString ''constant''), (''value'', literal_value v)]"
| "query_binding_value (Bind_label p l) =
     JObject [(''parameter'', JString p), (''source'', JString ''label''), (''label'', JString l)]"
| "query_binding_value (Bind_field p f) =
     JObject [(''parameter'', JString p), (''source'', JString ''field''), (''field'', JString (field_name f))]"

definition reference_value :: "SavedQueryReference \<Rightarrow> js_value" where
  "reference_value r = JObject ([(''id'', JString (sr_id r))] @ optional ''bindings'' (array_of query_binding_value) (sr_bindings r))"

section \<open>Widgets\<close>

fun widget_type_name :: "widget_type \<Rightarrow> string" where
  "widget_type_name Timeseries = ''timeseries''"
| "widget_type_name Bar = ''bar''"
| "widget_type_name Stat = ''stat''"
| "widget_type_name Table = ''table''"
| "widget_type_name Traces_widget = ''traces''"
| "widget_type_name Heatmap = ''heatmap''"
| "widget_type_name Plugin = ''plugin''"

fun tooltip_binding_value :: "TooltipBinding \<Rightarrow> js_value" where
  "tooltip_binding_value (Tooltip_label v l) = JObject [(''variable'', JString v), (''label'', JString l)]"
| "tooltip_binding_value (Tooltip_field v f) = JObject [(''variable'', JString v), (''field'', JString (field_name f))]"

fun tooltip_source_value :: "TooltipSource \<Rightarrow> js_value" where
  "tooltip_source_value Tooltip_series = JObject [(''type'', JString ''series'')]"
| "tooltip_source_value Tooltip_widget = JObject [(''type'', JString ''widget'')]"
| "tooltip_source_value (Tooltip_saved r) = JObject [(''type'', JString ''saved''), (''ref'', reference_value r)]"
| "tooltip_source_value (Tooltip_query p q bs) =
     JObject ([(''type'', JString ''query''), (''providerId'', JString p), (''query'', JString q)] @
       optional ''bindings'' (array_of tooltip_binding_value) bs)"

definition tooltip_view_value :: "TooltipView \<Rightarrow> js_value" where
  "tooltip_view_value v = JObject ([(''type'', JString (widget_type_name (tv_type v)))] @
     optional ''height'' JNumber (tv_height v) @ optional ''showGrid'' JBool (tv_showGrid v) @
     optional ''showAxis'' JBool (tv_showAxis v) @ optional ''showLegend'' JBool (tv_showLegend v) @
     optional ''showSparkline'' JBool (tv_showSparkline v) @ optional ''title'' JString (tv_title v) @
     optional ''unit'' JString (tv_unit v) @ optional ''color'' JString (tv_color v) @
     optional ''decimals'' JNumber (tv_decimals v) @ optional ''source'' tooltip_source_value (tv_source v) @
     optional ''pluginId'' JString (tv_pluginId v) @ optional ''dataKind'' kind_value (tv_dataKind v) @
     optional ''config'' (\<lambda>c. c) (tv_config v))"

definition threshold_value :: "Threshold \<Rightarrow> js_value" where
  "threshold_value t = JObject ([(''value'', JNumber (th_value t)), (''color'', JString (th_color t))] @
     optional ''label'' JString (th_label t))"

definition reference_line_value :: "ReferenceLine \<Rightarrow> js_value" where
  "reference_line_value r = JObject ([(''value'', JNumber (rl_value r))] @ optional ''label'' JString (rl_label r) @
     optional ''color'' JString (rl_color r))"

definition color_rule_value :: "SeriesColorRule \<Rightarrow> js_value" where
  "color_rule_value r =
     JObject [(''label'', JString (cr_label r)), (''value'', JString (cr_value r)), (''color'', JString (cr_color r))]"

fun display_name :: "chart_display \<Rightarrow> string" where
  "display_name Display_line = ''line''" | "display_name Display_area = ''area''"

fun sparkline_name :: "sparkline_placement \<Rightarrow> string" where
  "sparkline_name Sparkline_background = ''background''" | "sparkline_name Sparkline_side = ''side''"

fun icon_name :: "stat_icon \<Rightarrow> string" where
  "icon_name Icon_arrow_down = ''arrow-down''" | "icon_name Icon_arrow_up = ''arrow-up''"
| "icon_name Icon_shield = ''shield''" | "icon_name Icon_network = ''network''"
| "icon_name Icon_activity = ''activity''" | "icon_name Icon_target = ''target''" | "icon_name Icon_pie = ''pie''"

fun placement_name :: "tooltip_placement \<Rightarrow> string" where
  "placement_name Place_auto = ''auto''" | "placement_name Place_top = ''top''" | "placement_name Place_right = ''right''"
| "placement_name Place_bottom = ''bottom''" | "placement_name Place_left = ''left''"

fun curve_name :: "chart_curve \<Rightarrow> string" where
  "curve_name Curve_linear = ''linear''" | "curve_name Curve_step = ''step''" | "curve_name Curve_monotone = ''monotone''"

fun time_axis_name :: "time_axis \<Rightarrow> string" where
  "time_axis_name Axis_linear = ''linear''" | "time_axis_name Axis_calendar = ''calendar''"

fun axis_unit_name :: "axis_unit \<Rightarrow> string" where
  "axis_unit_name Unit_auto = ''auto''" | "axis_unit_name Unit_ticks = ''ticks''" | "axis_unit_name Unit_caption = ''caption''"

definition options_value :: "WidgetOptions \<Rightarrow> js_value" where
  "options_value o' = JObject (
     optional ''display'' (\<lambda>d. JString (display_name d)) (wo_display o') @
     optional ''xAxisLabel'' JString (wo_xAxisLabel o') @ optional ''yAxisLabel'' JString (wo_yAxisLabel o') @
     optional ''showLegend'' JBool (wo_showLegend o') @ optional ''showLabels'' JBool (wo_showLabels o') @
     optional ''showValues'' JBool (wo_showValues o') @ optional ''showSparkline'' JBool (wo_showSparkline o') @
     optional ''showStatBar'' JBool (wo_showStatBar o') @
     optional ''sparklinePlacement'' (\<lambda>s. JString (sparkline_name s)) (wo_sparklinePlacement o') @
     optional ''statIcon'' (\<lambda>i. JString (icon_name i)) (wo_statIcon o') @
     optional ''showTooltip'' JBool (wo_showTooltip o') @ optional ''tooltipTitle'' JString (wo_tooltipTitle o') @
     optional ''tooltipValueLabel'' JString (wo_tooltipValueLabel o') @
     optional ''tooltipShowUnit'' JBool (wo_tooltipShowUnit o') @
     optional ''tooltipDecimals'' JNumber (wo_tooltipDecimals o') @
     optional ''tooltipPlacement'' (\<lambda>p. JString (placement_name p)) (wo_tooltipPlacement o') @
     optional ''tooltipOffset'' JNumber (wo_tooltipOffset o') @ optional ''tooltipMaxWidth'' JNumber (wo_tooltipMaxWidth o') @
     optional ''tooltipMaxHeight'' JNumber (wo_tooltipMaxHeight o') @
     optional ''tooltipView'' tooltip_view_value (wo_tooltipView o') @ optional ''showGrid'' JBool (wo_showGrid o') @
     optional ''decimals'' JNumber (wo_decimals o') @ optional ''staleAfterSeconds'' JNumber (wo_staleAfterSeconds o') @
     optional ''min'' JNumber (wo_min o') @ optional ''max'' JNumber (wo_max o') @
     optional ''lineWidth'' JNumber (wo_lineWidth o') @
     optional ''seriesColors'' (array_of color_rule_value) (wo_seriesColors o') @
     optional ''fillOpacity'' JNumber (wo_fillOpacity o') @
     optional ''curve'' (\<lambda>c. JString (curve_name c)) (wo_curve o') @
     optional ''background'' JString (wo_background o') @ optional ''textColor'' JString (wo_textColor o') @
     optional ''thresholds'' (array_of threshold_value) (wo_thresholds o') @ optional ''gridX'' JBool (wo_gridX o') @
     optional ''timeAxis'' (\<lambda>a. JString (time_axis_name a)) (wo_timeAxis o') @
     optional ''axisUnit'' (\<lambda>u. JString (axis_unit_name u)) (wo_axisUnit o') @
     optional ''referenceLines'' (array_of reference_line_value) (wo_referenceLines o') @
     optional ''showZeroLine'' JBool (wo_showZeroLine o') @ optional ''plotInsetLeft'' JNumber (wo_plotInsetLeft o') @
     optional ''plotInsetRight'' JNumber (wo_plotInsetRight o'))"

definition annotation_value :: "AnnotationSource \<Rightarrow> js_value" where
  "annotation_value a = JObject ([(''queryRef'', reference_value (an_queryRef a)),
     (''timestampColumn'', JString (an_timestampColumn a))] @ optional ''endColumn'' JString (an_endColumn a) @
     [(''labelColumn'', JString (an_labelColumn a))] @ optional ''severityColumn'' JString (an_severityColumn a))"

fun source_name :: "binding_source \<Rightarrow> string" where
  "source_name From_label = ''label''" | "source_name From_value = ''value''"
| "source_name From_series = ''series''" | "source_name From_constant = ''constant''"

definition drilldown_binding_value :: "DrilldownBinding \<Rightarrow> js_value" where
  "drilldown_binding_value b = JObject ([(''variable'', JString (db_variable b)),
     (''source'', JString (source_name (db_source b)))] @ optional ''value'' JString (db_value b))"

definition drilldown_value :: "Drilldown \<Rightarrow> js_value" where
  "drilldown_value d = JObject ([(''id'', JString (dd_id d)), (''title'', JString (dd_title d)),
     (''dashboardId'', JString (dd_dashboardId d))] @ optional ''carryTimeRange'' JBool (dd_carryTimeRange d) @
     optional ''bindings'' (array_of drilldown_binding_value) (dd_bindings d))"

definition whole :: "int \<Rightarrow> js_value" where
  "whole n = JNumber (Fin (of_int n))"

definition layout_value :: "Box \<Rightarrow> js_value" where
  "layout_value b = JObject [(''x'', whole (box_x b)), (''y'', whole (box_y b)), (''w'', whole (box_w b)), (''h'', whole (box_h b))]"

definition widget_value :: "Widget \<Rightarrow> js_value" where
  "widget_value w = JObject ([(''id'', JString (wi_id w)), (''title'', JString (wi_title w)),
     (''type'', JString (widget_type_name (wi_type w))), (''providerId'', JString (wi_providerId w)),
     (''query'', JString (wi_query w)), (''unit'', JString (wi_unit w))] @
     optional ''queryRef'' reference_value (wi_queryRef w) @ optional ''annotationSource'' annotation_value (wi_annotationSource w) @
     optional ''description'' JString (wi_description w) @ optional ''color'' JString (wi_color w) @
     optional ''options'' options_value (wi_options w) @ optional ''pluginId'' JString (wi_pluginId w) @
     optional ''dataKind'' kind_value (wi_dataKind w) @ optional ''config'' (\<lambda>c. c) (wi_config w) @
     optional ''drilldowns'' (array_of drilldown_value) (wi_drilldowns w) @
     optional ''selectionBindings'' (array_of drilldown_binding_value) (wi_selectionBindings w) @
     [(''layout'', layout_value (wi_layout w))])"

section \<open>Dashboards\<close>

definition variable_document :: "DashboardVariable \<Rightarrow> js_value" where
  "variable_document v = JObject ([(''name'', JString (dv_name v))] @ optional ''label'' JString (dv_label v) @
     optional ''defaultValue'' JString (dv_defaultValue v) @ optional ''options'' (array_of JString) (dv_options v))"

definition dashboard_value :: "Dashboard \<Rightarrow> js_value" where
  "dashboard_value d = JObject ([(''schemaVersion'', JNumber (Fin 1)), (''id'', JString (da_id d)), (''title'', JString (da_title d))] @
     optional ''description'' JString (da_description d) @ optional ''folder'' JString (da_folder d) @
     optional ''customTimeRange'' (\<lambda>(start, to). JObject [(''from'', JString start), (''to'', JString to)]) (da_customTimeRange d) @
     optional ''timeZone'' JString (da_timeZone d) @ optional ''variables'' (array_of variable_document) (da_variables d) @
     [(''timeRange'', JString (da_timeRange d)), (''refreshInterval'', JNumber (da_refreshInterval d)),
      (''widgets'', array_of widget_value (da_widgets d))])"

text \<open>\<open>documentFingerprint\<close> of a dashboard: an object always has a text.\<close>

definition dashboard_fingerprint :: "Dashboard \<Rightarrow> string" where
  "dashboard_fingerprint d = (case documentFingerprint (dashboard_value d) of Some t \<Rightarrow> t | None \<Rightarrow> [])"

lemma dashboard_has_text: "documentFingerprint (dashboard_value d) = Some (dashboard_fingerprint d)"
  by (simp add: dashboard_fingerprint_def documentFingerprint_def dashboard_value_def)

end
