(* ===== verification/SavedQueries.thy ===== *)
theory SavedQueries
  imports DashboardTypes
begin

text \<open>
  Saved queries (\<open>ui/src/features/insights/saved-queries.ts\<close>): typed parameters, the template with
  its parameters put in, and the reference of a widget, whose bindings take values from dashboard
  variables, constants, and the labels and fields of a hovered observation.
\<close>

datatype saved_query_error =
    Invalid_document
  | Needs_text string
  | Needs_number string
  | Unknown_parameter string
  | Unset_parameter string
  | Template_error variable_error
  | Invalid_reference
  | Unavailable_query string
  | Wrong_kind string
  | Unset_dashboard_variable string string
  | No_such_label string string
  | Needs_observation string
  | No_finite_value string
  | No_valid_timestamp string

section \<open>Templates\<close>

definition queryDocument :: "(string \<Rightarrow> bool) \<Rightarrow> SavedQuery \<Rightarrow> saved_query_error + SavedQuery" where
  "queryDocument url_ok query =
     (case savedQuerySchema url_ok query of Some q \<Rightarrow> Inr q | None \<Rightarrow> Inl Invalid_document)"

definition savedQueryParameterValue :: "SavedQueryParameter \<Rightarrow> literal \<Rightarrow> saved_query_error + literal" where
  "savedQueryParameterValue parameter value =
     (case sp_type parameter of
        Text_parameter \<Rightarrow>
          (case value of
             Text s \<Rightarrow> if 1024 < length s then Inl (Needs_text (sp_name parameter)) else Inr (Text s)
           | Num n \<Rightarrow> Inl (Needs_text (sp_name parameter)))
      | Number_parameter \<Rightarrow>
          (case (case value of Num n \<Rightarrow> Some n | Text s \<Rightarrow> map_option fl (number_literal s)) of
             None \<Rightarrow> Inl (Needs_number (sp_name parameter))
           | Some n \<Rightarrow> if js_is_finite n then Inr (Num n) else Inl (Needs_number (sp_name parameter))))"

definition run_template :: "string \<Rightarrow> (string, literal) js_map \<Rightarrow> saved_query_error + string" where
  "run_template query vals =
     (case interpolateQueryLiterals query vals of Inl e \<Rightarrow> Inl (Template_error e) | Inr t \<Rightarrow> Inr t)"

definition validateSavedQueryTemplate :: "(string \<Rightarrow> bool) \<Rightarrow> SavedQuery \<Rightarrow> saved_query_error + string" where
  "validateSavedQueryTemplate url_ok query =
     (case queryDocument url_ok query of
        Inl e \<Rightarrow> Inl e
      | Inr checked \<Rightarrow>
          run_template (sq_query checked)
            (map (\<lambda>p. (sp_name p, if sp_type p = Number_parameter then Num (Fin 1) else Text []))
              (list_of (sq_parameters checked))))"

fun parameter_values ::
    "(string, literal) js_map \<Rightarrow> SavedQueryParameter list \<Rightarrow> (string, literal) js_map \<Rightarrow>
     saved_query_error + (string, literal) js_map" where
  "parameter_values supplied [] vals = Inr vals"
| "parameter_values supplied (p # ps) vals =
     (case (case js_map_get supplied (sp_name p) of Some v \<Rightarrow> Some v | None \<Rightarrow> sp_defaultValue p) of
        None \<Rightarrow> Inl (Unset_parameter (sp_name p))
      | Some v \<Rightarrow>
          (case savedQueryParameterValue p v of
             Inl e \<Rightarrow> Inl e
           | Inr x \<Rightarrow> parameter_values supplied ps (js_map_set (sp_name p) x vals)))"

definition resolveSavedQueryTemplate ::
    "(string \<Rightarrow> bool) \<Rightarrow> SavedQuery \<Rightarrow> (string, literal) js_map \<Rightarrow> saved_query_error + string" where
  "resolveSavedQueryTemplate url_ok query supplied =
     (case queryDocument url_ok query of
        Inl e \<Rightarrow> Inl e
      | Inr checked \<Rightarrow>
          let parameters = list_of (sq_parameters checked) in
          case List.find (\<lambda>key. key \<notin> set (map sp_name parameters)) (map fst supplied) of
            Some key \<Rightarrow> Inl (Unknown_parameter key)
          | None \<Rightarrow>
              (case parameter_values supplied parameters [] of
                 Inl e \<Rightarrow> Inl e
               | Inr vals \<Rightarrow> run_template (sq_query checked) vals))"

section \<open>References\<close>

record SavedQueryObservation =
  ob_series :: Series
  ob_point :: "Point option"
  ob_seriesIndex :: "int option"

definition seriesName :: "Series \<Rightarrow> int \<Rightarrow> string" where
  "seriesName s index =
     js_or (se_name s) (js_or (js_join '', '' (map (\<lambda>(k, v). k @ ''='' @ v) (se_labels s)))
       (''Series '' @ int_str (index + 1)))"

fun field_value :: "string \<Rightarrow> SavedQueryObservation \<Rightarrow> observation_field \<Rightarrow> saved_query_error + literal" where
  "field_value p obs Field_series =
     Inr (Text (seriesName (ob_series obs) (case ob_seriesIndex obs of Some i \<Rightarrow> i | None \<Rightarrow> 0)))"
| "field_value p obs Field_value =
     (case ob_point obs of
        Some pt \<Rightarrow> if finite_value (pt_value pt) then Inr (Num (the (pt_value pt))) else Inl (No_finite_value p)
      | None \<Rightarrow> Inl (No_finite_value p))"
| "field_value p obs Field_timestamp =
     (case ob_point obs of
        Some pt \<Rightarrow>
          if validTimestamp (pt_timestamp pt) then Inr (Num (js_div_const (pt_timestamp pt) 1000))
          else Inl (No_valid_timestamp p)
      | None \<Rightarrow> Inl (No_valid_timestamp p))"

fun bound_value ::
    "variable_values \<Rightarrow> SavedQueryObservation option \<Rightarrow> SavedQueryBinding \<Rightarrow> saved_query_error + literal" where
  "bound_value vars obs (Bind_constant p v) = Inr v"
| "bound_value vars obs (Bind_variable p v) =
     (case js_map_get vars v of Some s \<Rightarrow> Inr (Text s) | None \<Rightarrow> Inl (Unset_dashboard_variable v p))"
| "bound_value vars obs (Bind_label p l) =
     (case obs of
        None \<Rightarrow> Inl (No_such_label l p)
      | Some ob \<Rightarrow>
          (case js_map_get (se_labels (ob_series ob)) l of Some s \<Rightarrow> Inr (Text s) | None \<Rightarrow> Inl (No_such_label l p)))"
| "bound_value vars obs (Bind_field p f) =
     (case obs of None \<Rightarrow> Inl (Needs_observation p) | Some ob \<Rightarrow> field_value p ob f)"

fun bound_values ::
    "variable_values \<Rightarrow> SavedQueryObservation option \<Rightarrow> SavedQueryBinding list \<Rightarrow> (string, literal) js_map \<Rightarrow>
     saved_query_error + (string, literal) js_map" where
  "bound_values vars obs [] vals = Inr vals"
| "bound_values vars obs (b # bs) vals =
     (case bound_value vars obs b of
        Inl e \<Rightarrow> Inl e
      | Inr v \<Rightarrow> bound_values vars obs bs (js_map_set (binding_parameter b) v vals))"

record resolved_query =
  rq_providerId :: string
  rq_kind :: DataKind
  rq_query :: string

definition resolveSavedQueryReference ::
    "(string \<Rightarrow> bool) \<Rightarrow> SavedQueryReference \<Rightarrow> SavedQuery list \<Rightarrow> variable_values \<Rightarrow> DataKind \<Rightarrow>
     SavedQueryObservation option \<Rightarrow> saved_query_error + resolved_query" where
  "resolveSavedQueryReference url_ok ref queries variableValues expectedKind observation =
     (if \<not> savedQueryReferenceSchema ref then Inl Invalid_reference
      else case List.find (\<lambda>q. sq_id q = sr_id ref) queries of
          None \<Rightarrow> Inl (Unavailable_query (sr_id ref))
        | Some saved \<Rightarrow>
            if sq_kind saved \<noteq> expectedKind then Inl (Wrong_kind (sq_name saved))
            else
              (case bound_values variableValues observation (list_of (sr_bindings ref)) [] of
                 Inl e \<Rightarrow> Inl e
               | Inr vals \<Rightarrow>
                   (case resolveSavedQueryTemplate url_ok saved vals of
                      Inl e \<Rightarrow> Inl e
                    | Inr t \<Rightarrow> Inr \<lparr>rq_providerId = sq_providerId saved, rq_kind = sq_kind saved, rq_query = t\<rparr>)))"

definition uses_saved :: "string \<Rightarrow> SavedQueryReference option \<Rightarrow> bool" where
  "uses_saved i ref \<longleftrightarrow> (case ref of Some r \<Rightarrow> sr_id r = i | None \<Rightarrow> False)"

definition tooltip_reference :: "Widget \<Rightarrow> SavedQueryReference option" where
  "tooltip_reference w =
     (case Option.bind (tooltip_view w) tv_source of Some (Tooltip_saved ref) \<Rightarrow> Some ref | _ \<Rightarrow> None)"

definition dashboardUsesSavedQuery :: "Dashboard \<Rightarrow> string \<Rightarrow> bool" where
  "dashboardUsesSavedQuery dashboard i \<longleftrightarrow>
     list_ex (\<lambda>w. uses_saved i (wi_queryRef w) \<or> uses_saved i (map_option an_queryRef (wi_annotationSource w)) \<or>
       uses_saved i (tooltip_reference w)) (da_widgets dashboard)"

section \<open>Values\<close>

text \<open>A value that passes has the type of its parameter.\<close>

definition value_fits :: "SavedQueryParameter \<Rightarrow> literal \<Rightarrow> bool" where
  "value_fits p v \<longleftrightarrow>
     (case v of Text s \<Rightarrow> sp_type p = Text_parameter \<and> length s \<le> 1024
      | Num n \<Rightarrow> sp_type p = Number_parameter \<and> js_is_finite n)"

lemma savedQueryParameterValue_fits: "savedQueryParameterValue p v = Inr x \<Longrightarrow> value_fits p x"
  by (auto simp: savedQueryParameterValue_def value_fits_def split: parameter_type.splits literal.splits
      option.splits if_splits)

lemma savedQueryParameterValue_id: "value_fits p v \<Longrightarrow> savedQueryParameterValue p v = Inr v"
  by (auto simp: savedQueryParameterValue_def value_fits_def split: literal.splits)

lemma parameter_values_Inr:
  assumes "parameter_values supplied ps vals0 = Inr vals"
  shows "\<forall>p \<in> set ps. \<exists>v. js_map_get vals (sp_name p) = Some v"
    and "set (map fst vals) = set (map fst vals0) \<union> sp_name ` set ps"
    and "\<forall>(k, v) \<in> set vals. (k, v) \<in> set vals0 \<or> (\<exists>p \<in> set ps. sp_name p = k \<and> value_fits p v)"
proof -
  have "set (map fst vals) = set (map fst vals0) \<union> sp_name ` set ps \<and>
      (\<forall>(k, v) \<in> set vals. (k, v) \<in> set vals0 \<or> (\<exists>p \<in> set ps. sp_name p = k \<and> value_fits p v))"
    using assms
  proof (induction ps arbitrary: vals0)
    case (Cons p ps)
    obtain x where x: "value_fits p x" "parameter_values supplied ps (js_map_set (sp_name p) x vals0) = Inr vals"
      using Cons.prems by (auto dest: savedQueryParameterValue_fits split: option.splits sum.splits)
    then show ?case
      using Cons.IH [OF x(2)] fst_set_js_map_set [of "sp_name p" x vals0] set_js_map_set by fastforce
  qed auto
  then have keys: "set (map fst vals) = set (map fst vals0) \<union> sp_name ` set ps"
    and fits: "\<forall>(k, v) \<in> set vals. (k, v) \<in> set vals0 \<or> (\<exists>p \<in> set ps. sp_name p = k \<and> value_fits p v)" by auto
  show "set (map fst vals) = set (map fst vals0) \<union> sp_name ` set ps" by (rule keys)
  show "\<forall>(k, v) \<in> set vals. (k, v) \<in> set vals0 \<or> (\<exists>p \<in> set ps. sp_name p = k \<and> value_fits p v)" by (rule fits)
  show "\<forall>p \<in> set ps. \<exists>v. js_map_get vals (sp_name p) = Some v"
  proof
    fix p assume "p \<in> set ps"
    then have "sp_name p \<in> fst ` set vals" using keys by auto
    then show "\<exists>v. js_map_get vals (sp_name p) = Some v"
      by (metis js_map_get_def map_of_eq_None_iff not_None_eq)
  qed
qed

text \<open>What the bindings of a reference supply.\<close>

lemma bound_values_keys:
  "bound_values vars obs bs vals0 = Inr vals \<Longrightarrow> fst ` set vals = fst ` set vals0 \<union> binding_parameter ` set bs"
  by (induction bs arbitrary: vals0) (auto simp: fst_set_js_map_set split: sum.splits)

lemma bound_values_error:
  "bound_values vars obs bs vals0 = Inl e \<Longrightarrow> \<exists>b \<in> set bs. bound_value vars obs b = Inl e"
  by (induction bs arbitrary: vals0) (auto split: sum.splits)

end
