(* ===== verification/BundleTransfer.thy ===== *)
theory BundleTransfer
  imports SavedQueries
begin

text \<open>
  Dashboard bundles (\<open>ui/src/features/insights/workspace-transfer.ts\<close>) and the compatibility of saved
  queries with the dashboards that use them (\<open>import-review.ts\<close>). A bundle is closed when every
  reference of its dashboards has a definition that fits it and every definition is used. The two
  files check the fit of a reference separately, one to accept or reject a bundle, the other to list what
  is wrong; the theory shows that they agree, and that selecting dashboards, renaming
  queries and replacing a query by a compatible one keep a bundle closed.
\<close>

section \<open>References\<close>

record reference_use =
  ru_dashboard :: Dashboard
  ru_reference :: SavedQueryReference
  ru_kind :: DataKind

definition widget_references :: "Dashboard \<Rightarrow> Widget \<Rightarrow> reference_use list" where
  "widget_references d w =
     (case wi_queryRef w of
        Some r \<Rightarrow> [\<lparr>ru_dashboard = d, ru_reference = r, ru_kind = widgetKind (wi_type w) (wi_dataKind w)\<rparr>]
      | None \<Rightarrow> []) @
     (case wi_annotationSource w of
        Some a \<Rightarrow> [\<lparr>ru_dashboard = d, ru_reference = an_queryRef a, ru_kind = Records\<rparr>]
      | None \<Rightarrow> []) @
     (case tooltip_view w of
        Some view \<Rightarrow>
          (case tv_source view of
             Some (Tooltip_saved r) \<Rightarrow>
               [\<lparr>ru_dashboard = d, ru_reference = r, ru_kind = widgetKind (tv_type view) (tv_dataKind view)\<rparr>]
           | _ \<Rightarrow> [])
      | None \<Rightarrow> [])"

definition references :: "Dashboard list \<Rightarrow> reference_use list" where
  "references dashboards = concat (map (\<lambda>d. concat (map (widget_references d) (da_widgets d))) dashboards)"

record DashboardBundle =
  db_dashboards :: "Dashboard list"
  db_savedQueries :: "SavedQuery list option"

section \<open>Closed bundles\<close>

datatype closure_error =
    Missing_definition string string
  | Kind_mismatch string string
  | No_such_parameter string string
  | Undeclared_variable string string
  | Bad_constant saved_query_error
  | Field_mismatch string string
  | Unbound_parameter string string
  | Unreferenced string

fun first_error :: "('a \<Rightarrow> 'e option) \<Rightarrow> 'a list \<Rightarrow> 'e option" where
  "first_error f [] = None"
| "first_error f (x # xs) = (case f x of Some e \<Rightarrow> Some e | None \<Rightarrow> first_error f xs)"

definition find_parameter :: "SavedQuery \<Rightarrow> string \<Rightarrow> SavedQueryParameter option" where
  "find_parameter q name = List.find (\<lambda>p. sp_name p = name) (list_of (sq_parameters q))"

definition declares :: "Dashboard \<Rightarrow> string \<Rightarrow> bool" where
  "declares d v \<longleftrightarrow> list_ex (\<lambda>x. dv_name x = v) (list_of (da_variables d))"

definition field_mismatch :: "SavedQueryParameter \<Rightarrow> observation_field \<Rightarrow> bool" where
  "field_mismatch p f \<longleftrightarrow> (if f = Field_series then sp_type p \<noteq> Text_parameter else sp_type p \<noteq> Number_parameter)"

definition binding_error :: "Dashboard \<Rightarrow> SavedQuery \<Rightarrow> SavedQueryBinding \<Rightarrow> closure_error option" where
  "binding_error d q b =
     (case find_parameter q (binding_parameter b) of
        None \<Rightarrow> Some (No_such_parameter (sq_name q) (binding_parameter b))
      | Some p \<Rightarrow>
          (case b of
             Bind_variable _ v \<Rightarrow> if declares d v then None else Some (Undeclared_variable (da_title d) v)
           | Bind_constant _ v \<Rightarrow> (case savedQueryParameterValue p v of Inl e \<Rightarrow> Some (Bad_constant e) | Inr x \<Rightarrow> None)
           | Bind_field _ f \<Rightarrow> if field_mismatch p f then Some (Field_mismatch (sp_name p) (sq_name q)) else None
           | Bind_label _ l \<Rightarrow> None))"

definition unbound :: "SavedQueryReference \<Rightarrow> SavedQueryParameter \<Rightarrow> bool" where
  "unbound r p \<longleftrightarrow>
     sp_defaultValue p = None \<and> \<not> list_ex (\<lambda>b. binding_parameter b = sp_name p) (list_of (sr_bindings r))"

definition reference_error :: "(string, SavedQuery) js_map \<Rightarrow> reference_use \<Rightarrow> closure_error option" where
  "reference_error definitions use =
     (case js_map_get definitions (sr_id (ru_reference use)) of
        None \<Rightarrow> Some (Missing_definition (da_title (ru_dashboard use)) (sr_id (ru_reference use)))
      | Some q \<Rightarrow>
          if sq_kind q \<noteq> ru_kind use then Some (Kind_mismatch (sq_name q) (da_title (ru_dashboard use)))
          else case first_error (binding_error (ru_dashboard use) q) (list_of (sr_bindings (ru_reference use))) of
              Some e \<Rightarrow> Some e
            | None \<Rightarrow>
                first_error (\<lambda>p. if unbound (ru_reference use) p then Some (Unbound_parameter (sp_name p) (sq_name q)) else None)
                  (list_of (sq_parameters q)))"

text \<open>\<open>new Map(queries.map(query => [query.id, query]))\<close>, and the loop; \<^const>\<open>None\<close> accepts.\<close>

definition definitions_of :: "SavedQuery list \<Rightarrow> (string, SavedQuery) js_map" where
  "definitions_of qs = foldl (\<lambda>m q. js_map_set (sq_id q) q m) [] qs"

definition validateClosure :: "DashboardBundle \<Rightarrow> closure_error option" where
  "validateClosure bundle =
     (case db_savedQueries bundle of
        None \<Rightarrow> None
      | Some qs \<Rightarrow>
          let uses = references (db_dashboards bundle); used = map (\<lambda>u. sr_id (ru_reference u)) uses in
          case first_error (reference_error (definitions_of qs)) uses of
            Some e \<Rightarrow> Some e
          | None \<Rightarrow> first_error (\<lambda>q. if sq_id q \<in> set used then None else Some (Unreferenced (sq_id q))) qs)"

section \<open>Compatibility\<close>

datatype use_location = In_widget | In_tooltip | In_annotations

record ReferenceUse =
  us_dashboard :: Dashboard
  us_widgetId :: string
  us_location :: use_location
  us_reference :: SavedQueryReference
  us_kind :: DataKind

definition widget_uses :: "string \<Rightarrow> Dashboard \<Rightarrow> Widget \<Rightarrow> ReferenceUse list" where
  "widget_uses i d w =
     (case wi_queryRef w of
        Some r \<Rightarrow>
          if sr_id r = i then
            [\<lparr>us_dashboard = d, us_widgetId = wi_id w, us_location = In_widget, us_reference = r,
              us_kind = widgetKind (wi_type w) (wi_dataKind w)\<rparr>]
          else []
      | None \<Rightarrow> []) @
     (case wi_annotationSource w of
        Some a \<Rightarrow>
          if sr_id (an_queryRef a) = i then
            [\<lparr>us_dashboard = d, us_widgetId = wi_id w, us_location = In_annotations, us_reference = an_queryRef a,
              us_kind = Records\<rparr>]
          else []
      | None \<Rightarrow> []) @
     (case tooltip_view w of
        Some view \<Rightarrow>
          (case tv_source view of
             Some (Tooltip_saved r) \<Rightarrow>
               if sr_id r = i then
                 [\<lparr>us_dashboard = d, us_widgetId = wi_id w, us_location = In_tooltip, us_reference = r,
                   us_kind = widgetKind (tv_type view) (tv_dataKind view)\<rparr>]
               else []
           | _ \<Rightarrow> [])
      | None \<Rightarrow> [])"

definition queryUses :: "Dashboard list \<Rightarrow> string \<Rightarrow> ReferenceUse list" where
  "queryUses dashboards i = concat (map (\<lambda>d. concat (map (widget_uses i d) (da_widgets d))) dashboards)"

datatype issue_code = Code_kind | Code_missing string | Code_variable string | Code_constant string
  | Code_field string | Code_required string | Code_binding_type string

datatype issue_reason =
    Does_not_provide DataKind
  | Parameter_not_declared string
  | Variable_not_declared string
  | Constant_rejected saved_query_error
  | Field_incompatible observation_field parameter_type string
  | Required_unbound string
  | Type_changes string parameter_type parameter_type

type_synonym issues = "(issue_code, issue_reason) js_map"

definition binding_issue :: "SavedQuery \<Rightarrow> Dashboard \<Rightarrow> issues \<Rightarrow> SavedQueryBinding \<Rightarrow> issues" where
  "binding_issue q d issues b =
     (let name = binding_parameter b in
      case find_parameter q name of
        None \<Rightarrow> js_map_set (Code_missing name) (Parameter_not_declared name) issues
      | Some p \<Rightarrow>
          (case b of
             Bind_variable _ v \<Rightarrow>
               if declares d v then issues else js_map_set (Code_variable name) (Variable_not_declared v) issues
           | Bind_constant _ v \<Rightarrow>
               (case savedQueryParameterValue p v of
                  Inl e \<Rightarrow> js_map_set (Code_constant name) (Constant_rejected e) issues
                | Inr x \<Rightarrow> issues)
           | Bind_field _ f \<Rightarrow>
               if field_mismatch p f then js_map_set (Code_field name) (Field_incompatible f (sp_type p) name) issues
               else issues
           | Bind_label _ l \<Rightarrow> issues))"

definition referenceIssues :: "SavedQuery \<Rightarrow> ReferenceUse \<Rightarrow> issues" where
  "referenceIssues q use =
     (let start = (if sq_kind q \<noteq> us_kind use then js_map_set Code_kind (Does_not_provide (us_kind use)) [] else []);
          bound = foldl (binding_issue q (us_dashboard use)) start (list_of (sr_bindings (us_reference use)))
      in foldl (\<lambda>issues p. if unbound (us_reference use) p
             then js_map_set (Code_required (sp_name p)) (Required_unbound (sp_name p)) issues else issues)
           bound (list_of (sq_parameters q)))"

definition type_change :: "SavedQuery \<Rightarrow> SavedQuery \<Rightarrow> issues \<Rightarrow> SavedQueryBinding \<Rightarrow> issues" where
  "type_change old nxt issues b =
     (let name = binding_parameter b in
      if (case b of Bind_variable _ v \<Rightarrow> True | Bind_label _ l \<Rightarrow> True | _ \<Rightarrow> False) then
        (case (find_parameter old name, find_parameter nxt name) of
           (Some p, Some p') \<Rightarrow>
             if sp_type p \<noteq> sp_type p'
             then js_map_set (Code_binding_type name) (Type_changes name (sp_type p) (sp_type p')) issues
             else issues
         | _ \<Rightarrow> issues)
      else issues)"

record ImportCompatibilityIssue =
  ci_dashboardId :: string
  ci_dashboardTitle :: string
  ci_widgetId :: string
  ci_location :: use_location
  ci_reason :: issue_reason

record ImportCompatibility =
  ic_compatible :: bool
  ic_issues :: "ImportCompatibilityIssue list"
  ic_affectedDashboardIds :: "string list"

definition new_issues :: "SavedQuery option \<Rightarrow> SavedQuery \<Rightarrow> ReferenceUse \<Rightarrow> issues" where
  "new_issues previous q use =
     (let current = referenceIssues q use in
      case previous of
        None \<Rightarrow> current
      | Some old \<Rightarrow>
          filter (\<lambda>(code, reason). js_map_get (referenceIssues old use) code = None)
            (foldl (type_change old q) current (list_of (sr_bindings (us_reference use)))))"

text \<open>
  On definitions that \<open>canonicalQuery\<close> has parsed, as \<open>checked_compatibility\<close> of \<open>BundleCheck\<close> does first; \<^const>\<open>None\<close> is the error
  for different ids.
\<close>

definition savedQueryCompatibility ::
    "SavedQuery \<Rightarrow> Dashboard list \<Rightarrow> SavedQuery option \<Rightarrow> ImportCompatibility option" where
  "savedQueryCompatibility query dashboards previous =
     (if (case previous of Some old \<Rightarrow> sq_id old \<noteq> sq_id query | None \<Rightarrow> False) then None
      else
        let uses = queryUses dashboards (sq_id query);
            issues = concat (map (\<lambda>use. map (\<lambda>(code, reason).
                \<lparr>ci_dashboardId = da_id (us_dashboard use), ci_dashboardTitle = da_title (us_dashboard use),
                 ci_widgetId = us_widgetId use, ci_location = us_location use, ci_reason = reason\<rparr>)
              (new_issues previous query use)) uses)
        in Some \<lparr>ic_compatible = (issues = []), ic_issues = issues,
             ic_affectedDashboardIds = js_set (map (\<lambda>use. da_id (us_dashboard use)) uses)\<rparr>)"

section \<open>Selecting and renaming\<close>

datatype transfer_error = Chosen_twice | Not_in_bundle string | No_compatible_source string

definition select_dashboards :: "DashboardBundle \<Rightarrow> string list \<Rightarrow> transfer_error + DashboardBundle" where
  "select_dashboards bundle ids =
     (if \<not> distinct ids then Inl Chosen_twice
      else case List.find (\<lambda>i. \<not> list_ex (\<lambda>d. da_id d = i) (db_dashboards bundle)) ids of
          Some i \<Rightarrow> Inl (Not_in_bundle i)
        | None \<Rightarrow>
            let dashboards = filter (\<lambda>d. da_id d \<in> set ids) (db_dashboards bundle);
                queries = js_set (map (\<lambda>u. sr_id (ru_reference u)) (references dashboards))
            in Inr \<lparr>db_dashboards = dashboards,
                 db_savedQueries = map_option (filter (\<lambda>q. sq_id q \<in> set queries)) (db_savedQueries bundle)\<rparr>)"

definition mappedId :: "(string, string) js_map \<Rightarrow> string \<Rightarrow> string" where
  "mappedId idMap i = (case js_map_get idMap i of Some j \<Rightarrow> j | None \<Rightarrow> i)"

definition map_reference :: "(string, string) js_map \<Rightarrow> SavedQueryReference \<Rightarrow> SavedQueryReference" where
  "map_reference m r = r\<lparr>sr_id := mappedId m (sr_id r)\<rparr>"

fun map_source :: "(string, string) js_map \<Rightarrow> TooltipSource \<Rightarrow> TooltipSource" where
  "map_source m (Tooltip_saved r) = Tooltip_saved (map_reference m r)"
| "map_source m s = s"

definition map_widget_references :: "(string, string) js_map \<Rightarrow> Widget \<Rightarrow> Widget" where
  "map_widget_references m w =
     w\<lparr>wi_queryRef := map_option (map_reference m) (wi_queryRef w),
       wi_annotationSource := map_option (\<lambda>a. a\<lparr>an_queryRef := map_reference m (an_queryRef a)\<rparr>) (wi_annotationSource w),
       wi_options := map_option (\<lambda>o'. o'\<lparr>wo_tooltipView :=
           map_option (\<lambda>v. v\<lparr>tv_source := map_option (map_source m) (tv_source v)\<rparr>) (wo_tooltipView o')\<rparr>) (wi_options w)\<rparr>"

definition remap_references :: "DashboardBundle \<Rightarrow> (string, string) js_map \<Rightarrow> DashboardBundle" where
  "remap_references bundle idMap =
     \<lparr>db_dashboards = map (\<lambda>d. d\<lparr>da_widgets := map (map_widget_references idMap) (da_widgets d)\<rparr>) (db_dashboards bundle),
      db_savedQueries = map_option (map (\<lambda>q. q\<lparr>sq_id := mappedId idMap (sq_id q)\<rparr>)) (db_savedQueries bundle)\<rparr>"

section \<open>Data sources\<close>

definition require :: "string \<Rightarrow> DataKind \<Rightarrow> (string, DataKind list) js_map \<Rightarrow> (string, DataKind list) js_map" where
  "require p k m = js_map_set p (js_set_add (case js_map_get m p of Some ks \<Rightarrow> ks | None \<Rightarrow> []) k) m"

definition widget_requires :: "Widget \<Rightarrow> (string \<times> DataKind) list" where
  "widget_requires w =
     (if wi_queryRef w = None then [(wi_providerId w, widgetKind (wi_type w) (wi_dataKind w))] else []) @
     (case tooltip_view w of
        Some view \<Rightarrow>
          (case tv_source view of
             Some (Tooltip_query p query bs) \<Rightarrow> [(p, widgetKind (tv_type view) (tv_dataKind view))]
           | _ \<Rightarrow> [])
      | None \<Rightarrow> [])"

definition requiredProviders :: "Dashboard list \<Rightarrow> (string, DataKind list) js_map" where
  "requiredProviders documents =
     foldl (\<lambda>m d. foldl (\<lambda>m w. foldl (\<lambda>m (p, k). require p k m) m (widget_requires w)) m (da_widgets d)) [] documents"

definition requiredBundleProviders :: "DashboardBundle \<Rightarrow> (string, DataKind list) js_map" where
  "requiredBundleProviders bundle =
     foldl (\<lambda>m q. require (sq_providerId q) (sq_kind q) m) (requiredProviders (db_dashboards bundle))
       (list_of (db_savedQueries bundle))"

definition capable :: "Provider list \<Rightarrow> string \<Rightarrow> DataKind \<Rightarrow> bool" where
  "capable providers p k \<longleftrightarrow>
     (case List.find (\<lambda>x. pr_id x = p) providers of Some x \<Rightarrow> k \<in> set (pr_capabilities x) | None \<Rightarrow> False)"

definition remap_widget ::
    "(string, string) js_map \<Rightarrow> Provider list \<Rightarrow> Widget \<Rightarrow> transfer_error + Widget" where
  "remap_widget mapping providers w =
     (let providerId = (if wi_queryRef w = None then mappedId mapping (wi_providerId w) else wi_providerId w) in
      if wi_queryRef w = None \<and> \<not> capable providers providerId (widgetKind (wi_type w) (wi_dataKind w))
      then Inl (No_compatible_source (wi_providerId w))
      else case tooltip_view w of
          Some view \<Rightarrow>
            (case tv_source view of
               Some (Tooltip_query p query bs) \<Rightarrow>
                 let tooltipProviderId = mappedId mapping p in
                 if \<not> capable providers tooltipProviderId (widgetKind (tv_type view) (tv_dataKind view))
                 then Inl (No_compatible_source p)
                 else Inr (w\<lparr>wi_providerId := providerId,
                        wi_options := map_option (\<lambda>o'. o'\<lparr>wo_tooltipView :=
                          Some (view\<lparr>tv_source := Some (Tooltip_query tooltipProviderId query bs)\<rparr>)\<rparr>) (wi_options w)\<rparr>)
             | _ \<Rightarrow> Inr (w\<lparr>wi_providerId := providerId\<rparr>))
        | None \<Rightarrow> Inr (w\<lparr>wi_providerId := providerId\<rparr>))"

definition remap_dashboard ::
    "(string, string) js_map \<Rightarrow> Provider list \<Rightarrow> Dashboard \<Rightarrow> transfer_error + Dashboard" where
  "remap_dashboard mapping providers d =
     (case check_all (remap_widget mapping providers) (da_widgets d) of
        Inl e \<Rightarrow> Inl e
      | Inr ws \<Rightarrow> Inr (d\<lparr>da_widgets := ws\<rparr>))"

definition remapDashboardProviders ::
    "Dashboard list \<Rightarrow> (string, string) js_map \<Rightarrow> Provider list \<Rightarrow> transfer_error + Dashboard list" where
  "remapDashboardProviders documents mapping providers = check_all (remap_dashboard mapping providers) documents"


section \<open>When a reference fits\<close>

definition binding_fits :: "Dashboard \<Rightarrow> SavedQuery \<Rightarrow> SavedQueryBinding \<Rightarrow> bool" where
  "binding_fits d q b \<longleftrightarrow> binding_error d q b = None"

definition reference_fits :: "SavedQuery \<Rightarrow> Dashboard \<Rightarrow> SavedQueryReference \<Rightarrow> DataKind \<Rightarrow> bool" where
  "reference_fits q d r k \<longleftrightarrow>
     sq_kind q = k \<and> (\<forall>b \<in> set (list_of (sr_bindings r)). binding_fits d q b) \<and>
     (\<forall>p \<in> set (list_of (sq_parameters q)). \<not> unbound r p)"

lemma first_error_None: "first_error f xs = None \<longleftrightarrow> (\<forall>x \<in> set xs. f x = None)"
  by (induction xs) (auto split: option.splits)

lemma reference_error_None:
  "reference_error defs use = None \<longleftrightarrow>
     (\<exists>q. js_map_get defs (sr_id (ru_reference use)) = Some q \<and>
        reference_fits q (ru_dashboard use) (ru_reference use) (ru_kind use))"
proof (cases "js_map_get defs (sr_id (ru_reference use))")
  case (Some q)
  have "first_error f xs = None \<or> (\<exists>e. first_error f xs = Some e \<and> \<not> (\<forall>x \<in> set xs. f x = None))"
    for f :: "SavedQueryBinding \<Rightarrow> closure_error option" and xs
    using first_error_None [of f xs] by (cases "first_error f xs") auto
  then show ?thesis using Some
    by (fastforce simp: reference_error_def reference_fits_def binding_fits_def first_error_None split: option.splits if_splits)
qed (simp add: reference_error_def)

lemma js_map_set_not_Nil [simp]: "js_map_set k v m \<noteq> []"
  by (cases m) (auto simp: js_map_set_def)

lemma foldl_Nil_iff:
  assumes "\<And>acc x. f acc x = [] \<longleftrightarrow> acc = [] \<and> P x"
  shows "foldl f acc xs = [] \<longleftrightarrow> acc = [] \<and> (\<forall>x \<in> set xs. P x)"
  by (induction xs arbitrary: acc) (auto simp: assms)

lemma binding_issue_Nil: "binding_issue q d issues b = [] \<longleftrightarrow> issues = [] \<and> binding_fits d q b"
  by (auto simp: binding_issue_def binding_fits_def binding_error_def Let_def
      split: option.splits SavedQueryBinding.splits sum.splits)

lemma referenceIssues_Nil:
  "referenceIssues q use = [] \<longleftrightarrow> reference_fits q (us_dashboard use) (us_reference use) (us_kind use)"
proof -
  have "foldl (\<lambda>issues p. if unbound (us_reference use) p
      then js_map_set (Code_required (sp_name p)) (Required_unbound (sp_name p)) issues else issues) acc ps = [] \<longleftrightarrow>
    acc = [] \<and> (\<forall>p \<in> set ps. \<not> unbound (us_reference use) p)" for acc :: issues and ps
    by (rule foldl_Nil_iff) auto
  moreover have "foldl (binding_issue q (us_dashboard use)) acc bs = [] \<longleftrightarrow>
      acc = [] \<and> (\<forall>b \<in> set bs. binding_fits (us_dashboard use) q b)" for acc bs
    by (rule foldl_Nil_iff) (rule binding_issue_Nil)
  ultimately show ?thesis by (auto simp: referenceIssues_def reference_fits_def Let_def)
qed

section \<open>The two collections of uses\<close>

definition use_of :: "ReferenceUse \<Rightarrow> reference_use" where
  "use_of u = \<lparr>ru_dashboard = us_dashboard u, ru_reference = us_reference u, ru_kind = us_kind u\<rparr>"

lemma widget_uses_references:
  "map use_of (widget_uses i d w) = filter (\<lambda>u. sr_id (ru_reference u) = i) (widget_references d w)"
  by (auto simp: widget_uses_def widget_references_def use_of_def split: option.splits TooltipSource.splits)

lemma queryUses_references:
  "map use_of (queryUses ds i) = filter (\<lambda>u. sr_id (ru_reference u) = i) (references ds)"
  by (simp add: queryUses_def references_def map_concat filter_concat comp_def widget_uses_references)

lemma references_dashboard: "u \<in> set (references ds) \<Longrightarrow> ru_dashboard u \<in> set ds"
  by (auto simp: references_def widget_references_def split: option.splits TooltipSource.splits)

definition fits_uses :: "SavedQuery \<Rightarrow> Dashboard list \<Rightarrow> bool" where
  "fits_uses q ds \<longleftrightarrow>
     (\<forall>u \<in> set (references ds). sr_id (ru_reference u) = sq_id q \<longrightarrow>
        reference_fits q (ru_dashboard u) (ru_reference u) (ru_kind u))"

lemma fits_uses_queryUses: "fits_uses q ds \<longleftrightarrow> (\<forall>u \<in> set (queryUses ds (sq_id q)). referenceIssues q u = [])"
proof -
  have "fits_uses q ds \<longleftrightarrow> (\<forall>u \<in> set (map use_of (queryUses ds (sq_id q))).
      reference_fits q (ru_dashboard u) (ru_reference u) (ru_kind u))"
    by (auto simp: fits_uses_def queryUses_references)
  then show ?thesis by (simp add: referenceIssues_Nil use_of_def)
qed

lemma compatible_iff:
  "savedQueryCompatibility q ds previous = Some c \<Longrightarrow>
     ic_compatible c \<longleftrightarrow> (\<forall>u \<in> set (queryUses ds (sq_id q)). new_issues previous q u = [])"
  by (auto simp: savedQueryCompatibility_def Let_def split: if_splits)

lemma compatible_new: "\<exists>c. savedQueryCompatibility q ds None = Some c \<and> (ic_compatible c \<longleftrightarrow> fits_uses q ds)"
proof -
  obtain c where c: "savedQueryCompatibility q ds None = Some c" by (simp add: savedQueryCompatibility_def Let_def)
  then show ?thesis using compatible_iff [OF c] by (simp add: fits_uses_queryUses new_issues_def)
qed

section \<open>Definitions\<close>

lemma definitions_of_get:
  assumes "distinct (map sq_id qs)"
  shows "js_map_get (definitions_of qs) i = Some q \<longleftrightarrow> q \<in> set qs \<and> sq_id q = i"
proof -
  have eq: "definitions_of qs = map (\<lambda>q. (sq_id q, q)) qs"
    using foldl_js_map_set_new [of "[]" sq_id qs "\<lambda>q. q"] assms by (simp add: definitions_of_def)
  have "distinct (map fst (definitions_of qs))" using assms by (simp add: eq comp_def)
  then show ?thesis using js_map_get_iff [of "definitions_of qs" i q] by (auto simp: eq)
qed

lemma validateClosure_None:
  assumes "distinct (map sq_id qs)"
  shows "validateClosure \<lparr>db_dashboards = ds, db_savedQueries = Some qs\<rparr> = None \<longleftrightarrow>
    (\<forall>u \<in> set (references ds). sr_id (ru_reference u) \<in> sq_id ` set qs) \<and>
    (\<forall>q \<in> set qs. fits_uses q ds) \<and>
    sq_id ` set qs \<subseteq> (\<lambda>u. sr_id (ru_reference u)) ` set (references ds)"
proof -
  have "first_error (reference_error (definitions_of qs)) (references ds) = None \<longleftrightarrow>
      (\<forall>u \<in> set (references ds). \<exists>q \<in> set qs. sq_id q = sr_id (ru_reference u) \<and>
        reference_fits q (ru_dashboard u) (ru_reference u) (ru_kind u))"
    by (auto simp: first_error_None reference_error_None definitions_of_get [OF assms])
  also have "\<dots> \<longleftrightarrow> (\<forall>u \<in> set (references ds). sr_id (ru_reference u) \<in> sq_id ` set qs) \<and> (\<forall>q \<in> set qs. fits_uses q ds)"
  proof (intro iffI conjI ballI)
    assume all: "\<forall>u \<in> set (references ds). \<exists>q \<in> set qs. sq_id q = sr_id (ru_reference u) \<and>
        reference_fits q (ru_dashboard u) (ru_reference u) (ru_kind u)"
    show "sr_id (ru_reference u) \<in> sq_id ` set qs" if "u \<in> set (references ds)" for u using all that by force
    show "fits_uses q ds" if q: "q \<in> set qs" for q unfolding fits_uses_def
    proof (intro ballI impI)
      fix u assume u: "u \<in> set (references ds)" "sr_id (ru_reference u) = sq_id q"
      then obtain q' where "q' \<in> set qs" "sq_id q' = sq_id q"
        "reference_fits q' (ru_dashboard u) (ru_reference u) (ru_kind u)" using all by force
      then show "reference_fits q (ru_dashboard u) (ru_reference u) (ru_kind u)"
        using assms q by (metis distinct_map inj_onD)
    qed
  qed (fastforce simp: fits_uses_def)
  finally have fits: "first_error (reference_error (definitions_of qs)) (references ds) = None \<longleftrightarrow>
      (\<forall>u \<in> set (references ds). sr_id (ru_reference u) \<in> sq_id ` set qs) \<and> (\<forall>q \<in> set qs. fits_uses q ds)" .
  show ?thesis
  proof (cases "first_error (reference_error (definitions_of qs)) (references ds)")
    case None
    have "first_error (\<lambda>q. if sq_id q \<in> set (map (\<lambda>u. sr_id (ru_reference u)) (references ds)) then None
        else Some (Unreferenced (sq_id q))) qs = None \<longleftrightarrow>
      sq_id ` set qs \<subseteq> (\<lambda>u. sr_id (ru_reference u)) ` set (references ds)"
      by (auto simp: first_error_None split: if_splits)
    then show ?thesis using fits None by (simp add: validateClosure_def Let_def)
  next
    case (Some e)
    then show ?thesis using fits by (auto simp: validateClosure_def Let_def)
  qed
qed


section \<open>Operations on closed bundles\<close>

lemma references_filter: "set (references (filter P ds)) \<subseteq> set (references ds)"
  by (auto simp: references_def)

lemma select_closed:
  assumes "distinct (map sq_id qs)" "validateClosure \<lparr>db_dashboards = ds, db_savedQueries = Some qs\<rparr> = None"
    and "select_dashboards \<lparr>db_dashboards = ds, db_savedQueries = Some qs\<rparr> ids = Inr b"
  shows "validateClosure b = None"
proof -
  let ?ds = "filter (\<lambda>d. da_id d \<in> set ids) ds"
  let ?used = "(\<lambda>u. sr_id (ru_reference u)) ` set (references ?ds)"
  have b: "b = \<lparr>db_dashboards = ?ds, db_savedQueries = Some (filter (\<lambda>q. sq_id q \<in> ?used) qs)\<rparr>"
    using assms(3) by (auto simp: select_dashboards_def Let_def split: if_splits option.splits)
  have closed: "\<forall>u \<in> set (references ds). sr_id (ru_reference u) \<in> sq_id ` set qs" "\<forall>q \<in> set qs. fits_uses q ds"
    using assms(1,2) validateClosure_None by blast+
  have "distinct (map sq_id (filter (\<lambda>q. sq_id q \<in> ?used) qs))" using assms(1) by (simp add: distinct_map_filter)
  moreover have "fits_uses q ?ds" if "q \<in> set qs" for q
    using closed(2) that references_filter by (fastforce simp: fits_uses_def)
  moreover have "sr_id (ru_reference u) \<in> sq_id ` set (filter (\<lambda>q. sq_id q \<in> ?used) qs)" if "u \<in> set (references ?ds)" for u
  proof -
    have "u \<in> set (references ds)" using references_filter that by blast
    then obtain q where "q \<in> set qs" "sr_id (ru_reference u) = sq_id q" using closed(1) by blast
    moreover from this have "sq_id q \<in> ?used" using that by (metis image_eqI)
    ultimately show ?thesis by simp
  qed
  ultimately show ?thesis unfolding b by (subst validateClosure_None) auto
qed

text \<open>Renaming keeps the fit of every reference.\<close>

definition rename_use :: "(string, string) js_map \<Rightarrow> reference_use \<Rightarrow> reference_use" where
  "rename_use m u =
     \<lparr>ru_dashboard = (ru_dashboard u)\<lparr>da_widgets := map (map_widget_references m) (da_widgets (ru_dashboard u))\<rparr>,
      ru_reference = map_reference m (ru_reference u), ru_kind = ru_kind u\<rparr>"

lemma widget_references_rename:
  "widget_references (d\<lparr>da_widgets := map (map_widget_references m) (da_widgets d)\<rparr>) (map_widget_references m w) =
     map (rename_use m) (widget_references d w)"
  by (auto simp: widget_references_def map_widget_references_def tooltip_view_def rename_use_def
      split: option.splits TooltipSource.splits Option.bind_splits)

lemma references_rename:
  "references (map (\<lambda>d. d\<lparr>da_widgets := map (map_widget_references m) (da_widgets d)\<rparr>) ds) =
     map (rename_use m) (references ds)"
  by (simp add: references_def map_concat comp_def widget_references_rename)

lemma binding_fits_cong:
  assumes "da_variables d = da_variables d'" "sq_parameters q = sq_parameters q'"
  shows "binding_fits d q b = binding_fits d' q' b"
  using assms by (auto simp: binding_fits_def binding_error_def declares_def find_parameter_def
      split: option.splits SavedQueryBinding.splits sum.splits)

lemma reference_fits_rename:
  "reference_fits (q\<lparr>sq_id := i\<rparr>) (ru_dashboard (rename_use m u)) (ru_reference (rename_use m u)) (ru_kind (rename_use m u)) =
     reference_fits q (ru_dashboard u) (ru_reference u) (ru_kind u)"
proof -
  have "binding_fits (ru_dashboard (rename_use m u)) (q\<lparr>sq_id := i\<rparr>) b = binding_fits (ru_dashboard u) q b" for b
    by (rule binding_fits_cong) (simp_all add: rename_use_def)
  then show ?thesis by (simp add: reference_fits_def rename_use_def map_reference_def unbound_def)
qed

lemma remap_closed:
  assumes dist: "distinct (map sq_id qs)" and closed: "validateClosure \<lparr>db_dashboards = ds, db_savedQueries = Some qs\<rparr> = None"
    and inj: "inj_on (mappedId m) (sq_id ` set qs)"
  shows "validateClosure (remap_references \<lparr>db_dashboards = ds, db_savedQueries = Some qs\<rparr> m) = None"
proof -
  let ?qs = "map (\<lambda>q. q\<lparr>sq_id := mappedId m (sq_id q)\<rparr>) qs"
  let ?ds = "map (\<lambda>d. d\<lparr>da_widgets := map (map_widget_references m) (da_widgets d)\<rparr>) ds"
  have parts: "\<forall>u \<in> set (references ds). sr_id (ru_reference u) \<in> sq_id ` set qs" "\<forall>q \<in> set qs. fits_uses q ds"
    "sq_id ` set qs \<subseteq> (\<lambda>u. sr_id (ru_reference u)) ` set (references ds)"
    using closed validateClosure_None [OF dist] by blast+
  have name: "sr_id (ru_reference (rename_use m u)) = mappedId m (sr_id (ru_reference u))" for u
    by (simp add: rename_use_def map_reference_def)
  have ids: "map sq_id ?qs = map (mappedId m) (map sq_id qs)" by simp
  have "distinct (map sq_id ?qs)" unfolding ids using dist inj by (subst distinct_map) simp
  moreover have "fits_uses (q\<lparr>sq_id := mappedId m (sq_id q)\<rparr>) ?ds" if q: "q \<in> set qs" for q
    unfolding fits_uses_def references_rename
  proof (intro ballI impI)
    fix u' assume "u' \<in> set (map (rename_use m) (references ds))"
      and same: "sr_id (ru_reference u') = sq_id (q\<lparr>sq_id := mappedId m (sq_id q)\<rparr>)"
    then obtain u where u: "u \<in> set (references ds)" "u' = rename_use m u" by auto
    then have "sr_id (ru_reference u) = sq_id q"
      using same name parts(1) q inj by (auto dest: inj_onD)
    then show "reference_fits (q\<lparr>sq_id := mappedId m (sq_id q)\<rparr>) (ru_dashboard u') (ru_reference u') (ru_kind u')"
      using parts(2) q u by (simp add: fits_uses_def reference_fits_rename)
  qed
  moreover have "sr_id (ru_reference u') \<in> sq_id ` set ?qs" if "u' \<in> set (references ?ds)" for u'
    using that parts(1) by (auto simp: references_rename name image_image)
  moreover have "sq_id ` set ?qs \<subseteq> (\<lambda>u. sr_id (ru_reference u)) ` set (references ?ds)"
    using parts(3) by (auto simp: references_rename name image_image)
  ultimately show ?thesis unfolding remap_references_def by (simp add: validateClosure_None)
qed

text \<open>A query that \<open>savedQueryCompatibility\<close> accepts in place of another keeps what fitted.\<close>

lemma type_change_Nil: "foldl (type_change old q) issues bs = [] \<Longrightarrow> issues = []"
proof (induction bs arbitrary: issues)
  case (Cons b bs)
  then have "type_change old q issues b = []" by simp
  then show ?case by (auto simp: type_change_def Let_def split: if_splits option.splits)
qed simp

lemma compatible_replaces:
  assumes "savedQueryCompatibility q ds (Some old) = Some c" "ic_compatible c" "fits_uses old ds"
  shows "sq_id q = sq_id old \<and> fits_uses q ds"
proof -
  have same: "sq_id q = sq_id old" using assms(1) by (auto simp: savedQueryCompatibility_def split: if_splits)
  have "referenceIssues q u = []" if u: "u \<in> set (queryUses ds (sq_id q))" for u
  proof -
    have "referenceIssues old u = []" using assms(3) u same by (simp add: fits_uses_queryUses)
    moreover have "new_issues (Some old) q u = []" using compatible_iff [OF assms(1)] assms(2) u by blast
    ultimately have "foldl (type_change old q) (referenceIssues q u) (list_of (sr_bindings (us_reference u))) = []"
      by (simp add: new_issues_def Let_def)
    then show ?thesis by (rule type_change_Nil)
  qed
  then show ?thesis using same by (simp add: fits_uses_queryUses)
qed

lemma replace_closed:
  assumes dist: "distinct (map sq_id qs)" and closed: "validateClosure \<lparr>db_dashboards = ds, db_savedQueries = Some qs\<rparr> = None"
    and old: "old \<in> set qs" and compatible: "savedQueryCompatibility q ds (Some old) = Some c" "ic_compatible c"
  shows "validateClosure \<lparr>db_dashboards = ds, db_savedQueries = Some (map (\<lambda>x. if sq_id x = sq_id q then q else x) qs)\<rparr> = None"
proof -
  have parts: "\<forall>u \<in> set (references ds). sr_id (ru_reference u) \<in> sq_id ` set qs" "\<forall>q \<in> set qs. fits_uses q ds"
    "sq_id ` set qs \<subseteq> (\<lambda>u. sr_id (ru_reference u)) ` set (references ds)"
    using closed validateClosure_None [OF dist] by blast+
  have fits: "fits_uses q ds" using compatible_replaces [OF compatible] parts(2) old by blast
  have ids: "map sq_id (map (\<lambda>x. if sq_id x = sq_id q then q else x) qs) = map sq_id qs" by simp
  then have "sq_id ` set (map (\<lambda>x. if sq_id x = sq_id q then q else x) qs) = sq_id ` set qs" by (metis list.set_map)
  moreover have "distinct (map sq_id (map (\<lambda>x. if sq_id x = sq_id q then q else x) qs))" unfolding ids by (rule dist)
  moreover have "\<forall>x \<in> set (map (\<lambda>x. if sq_id x = sq_id q then q else x) qs). fits_uses x ds" using parts(2) fits by auto
  ultimately show ?thesis using parts(1,3) by (simp only: validateClosure_None)
qed

section \<open>References of a closed bundle resolve\<close>

text \<open>The errors that closing a bundle is meant to exclude.\<close>

fun unresolved :: "saved_query_error \<Rightarrow> bool" where
  "unresolved (Unavailable_query i) = True"
| "unresolved (Wrong_kind n) = True"
| "unresolved (Unknown_parameter p) = True"
| "unresolved (Unset_parameter p) = True"
| "unresolved (Unset_dashboard_variable v p) = True"
| "unresolved _ = False"

lemma savedQueryParameterValue_error: "savedQueryParameterValue p v = Inl e \<Longrightarrow> \<not> unresolved e"
  by (auto simp: savedQueryParameterValue_def split: parameter_type.splits literal.splits option.splits if_splits)

lemma parameter_values_error:
  assumes "parameter_values supplied ps vals = Inl e"
    and "\<forall>p \<in> set ps. sp_defaultValue p \<noteq> None \<or> js_map_get supplied (sp_name p) \<noteq> None"
  shows "\<not> unresolved e"
  using assms by (induction ps arbitrary: vals) (auto dest: savedQueryParameterValue_error split: option.splits sum.splits)

lemma bound_value_error:
  assumes "bound_value vars obs b = Inl e" "\<And>p v. b = Bind_variable p v \<Longrightarrow> js_map_get vars v \<noteq> None"
  shows "\<not> unresolved e"
proof (cases b)
  case (Bind_field p f)
  then show ?thesis using assms(1) by (cases f) (auto split: option.splits if_splits)
qed (use assms in \<open>auto split: option.splits\<close>)

lemma parse_keeps_parameters: "savedQuerySchema url_ok q = Some q' \<Longrightarrow> sq_parameters q' = sq_parameters q"
  by (auto simp: savedQuerySchema_def Let_def split: if_splits)

lemma template_error:
  assumes "resolveSavedQueryTemplate url_ok q vals = Inl e"
    and "fst ` set vals \<subseteq> sp_name ` set (list_of (sq_parameters q))"
    and "\<forall>p \<in> set (list_of (sq_parameters q)). sp_defaultValue p \<noteq> None \<or> sp_name p \<in> fst ` set vals"
  shows "\<not> unresolved e"
proof (cases "savedQuerySchema url_ok q")
  case None
  then show ?thesis using assms(1) by (auto simp: resolveSavedQueryTemplate_def queryDocument_def)
next
  case (Some q')
  let ?ps = "list_of (sq_parameters q)"
  have "List.find (\<lambda>key. key \<notin> set (map sp_name ?ps)) (map fst vals) = None"
    using assms(2) by (auto simp: find_None_iff)
  moreover have "\<forall>p \<in> set ?ps. sp_defaultValue p \<noteq> None \<or> js_map_get vals (sp_name p) \<noteq> None"
    using assms(3) by (metis js_map_get_def map_of_eq_None_iff)
  ultimately show ?thesis
    using assms(1) Some parse_keeps_parameters [OF Some] parameter_values_error [of vals ?ps "[]"]
    by (auto simp: resolveSavedQueryTemplate_def queryDocument_def run_template_def Let_def split: sum.splits)
qed

lemma reference_resolves:
  assumes fits: "reference_fits q d r k" and found: "List.find (\<lambda>x. sq_id x = sr_id r) qs = Some q"
    and vars: "\<forall>v. declares d v \<longrightarrow> js_map_get vars v \<noteq> None"
    and err: "resolveSavedQueryReference url_ok r qs vars k obs = Inl e"
  shows "\<not> unresolved e"
proof (cases "bound_values vars obs (list_of (sr_bindings r)) []")
  case (Inl x)
  then obtain b where b: "b \<in> set (list_of (sr_bindings r))" "bound_value vars obs b = Inl x"
    using bound_values_error by blast
  have "js_map_get vars v \<noteq> None" if "b = Bind_variable p v" for p v
    using fits b(1) that vars by (auto simp: reference_fits_def binding_fits_def binding_error_def split: option.splits if_splits)
  then have "\<not> unresolved x" using bound_value_error [OF b(2)] by blast
  then show ?thesis using err found fits Inl
    by (auto simp: resolveSavedQueryReference_def reference_fits_def split: if_splits)
next
  case (Inr vals)
  have keys: "fst ` set vals = binding_parameter ` set (list_of (sr_bindings r))" using bound_values_keys [OF Inr] by simp
  have "binding_parameter b \<in> sp_name ` set (list_of (sq_parameters q))" if "b \<in> set (list_of (sr_bindings r))" for b
    using fits that
    by (force simp: reference_fits_def binding_fits_def binding_error_def find_parameter_def dest: find_Some_in split: option.splits)
  then have "fst ` set vals \<subseteq> sp_name ` set (list_of (sq_parameters q))" using keys by auto
  moreover have "\<forall>p \<in> set (list_of (sq_parameters q)). sp_defaultValue p \<noteq> None \<or> sp_name p \<in> fst ` set vals"
  proof
    fix p assume "p \<in> set (list_of (sq_parameters q))"
    then have "\<not> unbound r p" using fits by (simp add: reference_fits_def)
    then show "sp_defaultValue p \<noteq> None \<or> sp_name p \<in> fst ` set vals"
      unfolding keys unbound_def list_ex_iff by (metis imageI)
  qed
  ultimately show ?thesis using err found fits Inr template_error [of url_ok q vals]
    by (auto simp: resolveSavedQueryReference_def reference_fits_def split: if_splits sum.splits)
qed

section \<open>Data sources\<close>

definition requires :: "(string, DataKind list) js_map \<Rightarrow> string \<Rightarrow> DataKind \<Rightarrow> bool" where
  "requires m p k \<longleftrightarrow> (case js_map_get m p of Some ks \<Rightarrow> k \<in> set ks | None \<Rightarrow> False)"

lemma requires_require: "requires (require p k m) p' k' \<longleftrightarrow> p' = p \<and> k' = k \<or> requires m p' k'"
  by (auto simp: requires_def require_def js_container_simps js_set_add_def split: option.splits)

lemma requires_foldl: "requires (foldl (\<lambda>m (p, k). require p k m) m xs) p k \<longleftrightarrow> (p, k) \<in> set xs \<or> requires m p k"
proof (induction xs arbitrary: m)
  case (Cons x xs)
  obtain p' k' where x: "x = (p', k')" by (cases x)
  show ?case unfolding foldl_Cons Cons x prod.case requires_require by auto
qed simp

lemma requires_widgets:
  "requires (foldl (\<lambda>m w. foldl (\<lambda>m (p, k). require p k m) m (widget_requires w)) m ws) p k \<longleftrightarrow>
     (\<exists>w \<in> set ws. (p, k) \<in> set (widget_requires w)) \<or> requires m p k"
proof (induction ws arbitrary: m)
  case (Cons w ws)
  show ?case unfolding foldl_Cons Cons requires_foldl by auto
qed simp

lemma requires_dashboards:
  "requires (requiredProviders ds) p k \<longleftrightarrow> (\<exists>d \<in> set ds. \<exists>w \<in> set (da_widgets d). (p, k) \<in> set (widget_requires w))"
proof -
  have "requires (foldl (\<lambda>m d. foldl (\<lambda>m w. foldl (\<lambda>m (p, k). require p k m) m (widget_requires w)) m (da_widgets d)) m ds) p k \<longleftrightarrow>
      (\<exists>d \<in> set ds. \<exists>w \<in> set (da_widgets d). (p, k) \<in> set (widget_requires w)) \<or> requires m p k" for m
  proof (induction ds arbitrary: m)
    case (Cons d ds)
    show ?case unfolding foldl_Cons Cons requires_widgets by auto
  qed simp
  moreover have "\<not> requires [] p k" by (simp add: requires_def)
  ultimately show ?thesis by (simp add: requiredProviders_def)
qed

lemma remap_widget_Inr:
  "(\<exists>w'. remap_widget m ps w = Inr w') \<longleftrightarrow> (\<forall>(p, k) \<in> set (widget_requires w). capable ps (mappedId m p) k)"
  by (auto simp: remap_widget_def widget_requires_def Let_def split: option.splits TooltipSource.splits)

lemma remap_widget_requires:
  assumes "remap_widget m ps w = Inr w'"
  shows "widget_requires w' = map (\<lambda>(p, k). (mappedId m p, k)) (widget_requires w)"
proof (cases "\<exists>view p query bs. tooltip_view w = Some view \<and> tv_source view = Some (Tooltip_query p query bs)")
  case True
  then obtain view p query bs where view: "tooltip_view w = Some view" "tv_source view = Some (Tooltip_query p query bs)" by blast
  then obtain o' where o': "wi_options w = Some o'" by (auto simp: tooltip_view_def bind_eq_Some_conv)
  show ?thesis using assms view o'
    by (cases "wi_queryRef w") (auto simp: remap_widget_def widget_requires_def tooltip_view_def Let_def split: if_splits)
next
  case False
  then have "w' = w\<lparr>wi_providerId := (if wi_queryRef w = None then mappedId m (wi_providerId w) else wi_providerId w)\<rparr>"
    using assms by (simp add: remap_widget_def Let_def split: if_splits option.splits TooltipSource.splits)
  then show ?thesis using False
    by (auto simp: widget_requires_def tooltip_view_def split: option.splits TooltipSource.splits)
qed

lemma check_all_succeeds: "(\<exists>ys. check_all f xs = Inr ys) \<longleftrightarrow> (\<forall>x \<in> set xs. \<exists>y. f x = Inr y)"
  by (induction xs) (auto split: sum.splits)

lemma check_all_list_all2: "check_all f xs = Inr ys \<Longrightarrow> list_all2 (\<lambda>x y. f x = Inr y) xs ys"
  by (induction xs arbitrary: ys) (auto split: sum.splits)


lemma remap_dashboard_Inr:
  "(\<exists>d'. remap_dashboard m ps d = Inr d') \<longleftrightarrow>
     (\<forall>w \<in> set (da_widgets d). \<forall>(p, k) \<in> set (widget_requires w). capable ps (mappedId m p) k)"
proof -
  have "(\<exists>d'. remap_dashboard m ps d = Inr d') \<longleftrightarrow> (\<exists>ws. check_all (remap_widget m ps) (da_widgets d) = Inr ws)"
    by (auto simp: remap_dashboard_def split: sum.splits)
  then show ?thesis by (simp only: check_all_succeeds remap_widget_Inr)
qed

lemma remap_dashboard_requires:
  assumes "remap_dashboard m ps d = Inr d'"
  shows "(\<exists>w \<in> set (da_widgets d'). (p', k) \<in> set (widget_requires w)) \<longleftrightarrow>
    (\<exists>p. \<exists>w \<in> set (da_widgets d). (p, k) \<in> set (widget_requires w) \<and> p' = mappedId m p)"
proof -
  obtain ws where ws: "check_all (remap_widget m ps) (da_widgets d) = Inr ws" "da_widgets d' = ws"
    using assms by (auto simp: remap_dashboard_def split: sum.splits)
  have "list_all2 (\<lambda>w w'. widget_requires w' = map (\<lambda>(p, k). (mappedId m p, k)) (widget_requires w)) (da_widgets d) ws"
    using check_all_list_all2 [OF ws(1)] by (rule list_all2_mono) (rule remap_widget_requires)
  then have "map widget_requires ws = map (map (\<lambda>(p, k). (mappedId m p, k)) \<circ> widget_requires) (da_widgets d)"
    by (induction rule: list_all2_induct) auto
  then have "widget_requires ` set ws = (map (\<lambda>(p, k). (mappedId m p, k)) \<circ> widget_requires) ` set (da_widgets d)"
    by (metis list.set_map)
  then have "(\<exists>l \<in> widget_requires ` set ws. (p', k) \<in> set l) \<longleftrightarrow>
      (\<exists>l \<in> (map (\<lambda>(p, k). (mappedId m p, k)) \<circ> widget_requires) ` set (da_widgets d). (p', k) \<in> set l)"
    by (simp only:)
  then show ?thesis unfolding ws(2) by auto
qed

section \<open>Samples\<close>

text \<open>A dashboard with one widget that takes its query from the workspace.\<close>

definition sample_query :: SavedQuery where
  "sample_query = \<lparr>sq_id = ''q'', sq_name = ''Errors'', sq_description = None, sq_imageUrl = None, sq_tags = None,
     sq_metadata = None, sq_providerId = ''p'', sq_kind = Metrics, sq_query = ''up'',
     sq_parameters = Some [\<lparr>sp_name = ''app'', sp_label = None, sp_type = Text_parameter, sp_defaultValue = None\<rparr>]\<rparr>"

definition sample_widget :: "SavedQueryReference option \<Rightarrow> Widget" where
  "sample_widget ref = \<lparr>wi_id = ''w'', wi_title = ''Errors'', wi_type = Stat, wi_providerId = ''p'', wi_query = ''up'', wi_unit = [], wi_queryRef = ref,
     wi_annotationSource = None, wi_description = None, wi_color = None, wi_options = None, wi_pluginId = None, wi_dataKind = None,
     wi_config = None, wi_drilldowns = None, wi_selectionBindings = None,
     wi_layout = \<lparr>box_x = 0, box_y = 0, box_w = 4, box_h = 2\<rparr>\<rparr>"

definition sample_reference :: SavedQueryReference where
  "sample_reference = \<lparr>sr_id = ''q'', sr_bindings = Some [Bind_constant ''app'' (Text ''web'')]\<rparr>"

definition sample_use :: Dashboard where
  "sample_use = \<lparr>da_id = ''d'', da_title = ''Fleet'', da_description = None, da_folder = None, da_customTimeRange = None,
     da_timeZone = None, da_variables = None, da_timeRange = ''1h'', da_refreshInterval = Fin 0,
     da_widgets = [sample_widget (Some sample_reference)]\<rparr>"

definition sample_direct :: Dashboard where
  "sample_direct = \<lparr>da_id = ''d'', da_title = ''Fleet'', da_description = None, da_folder = None, da_customTimeRange = None,
     da_timeZone = None, da_variables = None, da_timeRange = ''1h'', da_refreshInterval = Fin 0,
     da_widgets = [sample_widget None]\<rparr>"

section \<open>Properties\<close>

text \<open>
  C17: A bundle is accepted exactly when every reference of its dashboards has a definition,
  the compatibility check of the import review finds no issue with any definition, and every
  definition is used. So the check that rejects a bundle and the review that explains what is wrong
  with a query agree on every reference.
\<close>

theorem closure_agrees_with_compatibility:
  assumes "distinct (map sq_id qs)"
  shows "validateClosure \<lparr>db_dashboards = ds, db_savedQueries = Some qs\<rparr> = None \<longleftrightarrow>
    (\<forall>u \<in> set (references ds). \<exists>q \<in> set qs. sq_id q = sr_id (ru_reference u)) \<and>
    (\<forall>q \<in> set qs. \<exists>c. savedQueryCompatibility q ds None = Some c \<and> ic_compatible c \<and> ic_issues c = []) \<and>
    (\<forall>q \<in> set qs. \<exists>u \<in> set (references ds). sr_id (ru_reference u) = sq_id q)"
proof -
  have issues: "savedQueryCompatibility q ds None = Some c \<Longrightarrow> ic_compatible c \<longleftrightarrow> ic_issues c = []" for q c
    by (auto simp: savedQueryCompatibility_def Let_def)
  have "(\<exists>c. savedQueryCompatibility q ds None = Some c \<and> ic_compatible c \<and> ic_issues c = []) \<longleftrightarrow> fits_uses q ds" for q
    using compatible_new [of q ds] issues by auto
  then show ?thesis using validateClosure_None [OF assms, of ds] by (auto simp: image_iff subset_iff) metis+
qed

theorem closure_agrees_with_compatibility_witness:
  "\<exists>c. savedQueryCompatibility sample_query [sample_use] None = Some c \<and> ic_compatible c"
proof -
  have "distinct (map sq_id [sample_query])" by simp
  moreover have "validateClosure \<lparr>db_dashboards = [sample_use], db_savedQueries = Some [sample_query]\<rparr> = None" by code_simp
  ultimately show ?thesis using closure_agrees_with_compatibility [of "[sample_query]" "[sample_use]"] by auto
qed

text \<open>
  C18: A closed bundle stays closed when dashboards are selected from it, when its queries are renamed
  without merging two of them, and when a query is replaced by one the compatibility check accepts.
\<close>

theorem closed_bundles_stay_closed:
  assumes "distinct (map sq_id qs)" "validateClosure \<lparr>db_dashboards = ds, db_savedQueries = Some qs\<rparr> = None"
  shows "(\<forall>ids b. select_dashboards \<lparr>db_dashboards = ds, db_savedQueries = Some qs\<rparr> ids = Inr b \<longrightarrow> validateClosure b = None) \<and>
    (\<forall>m. inj_on (mappedId m) (sq_id ` set qs) \<longrightarrow>
       validateClosure (remap_references \<lparr>db_dashboards = ds, db_savedQueries = Some qs\<rparr> m) = None) \<and>
    (\<forall>old \<in> set qs. \<forall>q c. savedQueryCompatibility q ds (Some old) = Some c \<and> ic_compatible c \<longrightarrow>
       validateClosure \<lparr>db_dashboards = ds, db_savedQueries = Some (map (\<lambda>x. if sq_id x = sq_id q then q else x) qs)\<rparr> = None)"
  using select_closed [OF assms] remap_closed [OF assms] replace_closed [OF assms] by blast

theorem closed_bundles_stay_closed_witness:
  "validateClosure (remap_references \<lparr>db_dashboards = [sample_use], db_savedQueries = Some [sample_query]\<rparr> [(''q'', ''r'')]) = None"
proof -
  have "distinct (map sq_id [sample_query])" by simp
  moreover have "validateClosure \<lparr>db_dashboards = [sample_use], db_savedQueries = Some [sample_query]\<rparr> = None" by code_simp
  moreover have "inj_on (mappedId [(''q'', ''r'')]) (sq_id ` set [sample_query])" by simp
  ultimately show ?thesis using closed_bundles_stay_closed [of "[sample_query]" "[sample_use]"] by blast
qed

text \<open>
  C19: In a closed bundle the reference of a widget resolves whenever the variables its dashboard declares
  have values: it never fails because the query, its kind, a parameter or a value for one is missing.
  What can still fail are the values themselves and the observation that they come from.
\<close>

theorem closed_references_resolve:
  assumes "distinct (map sq_id qs)" "validateClosure \<lparr>db_dashboards = ds, db_savedQueries = Some qs\<rparr> = None"
    and "u \<in> set (references ds)" "\<forall>v. declares (ru_dashboard u) v \<longrightarrow> js_map_get vars v \<noteq> None"
    and "resolveSavedQueryReference url_ok (ru_reference u) qs vars (ru_kind u) obs = Inl e"
  shows "\<not> unresolved e"
proof -
  have closed: "sr_id (ru_reference u) \<in> sq_id ` set qs" "\<forall>q \<in> set qs. fits_uses q ds"
    using assms(2,3) validateClosure_None [OF assms(1)] by blast+
  then obtain q where q: "List.find (\<lambda>x. sq_id x = sr_id (ru_reference u)) qs = Some q"
    using find_None_iff [of "\<lambda>x. sq_id x = sr_id (ru_reference u)" qs] by (cases "List.find (\<lambda>x. sq_id x = sr_id (ru_reference u)) qs") auto
  then have "q \<in> set qs" "sq_id q = sr_id (ru_reference u)" by (auto dest: find_Some_in)
  then have "reference_fits q (ru_dashboard u) (ru_reference u) (ru_kind u)"
    using closed(2) assms(3) by (simp add: fits_uses_def)
  then show ?thesis using reference_resolves [OF _ q assms(4,5)] by blast
qed

text \<open>An address that is not absolute makes the definition invalid, which is not an error of the reference.\<close>

theorem closed_references_resolve_witness:
  "\<exists>e. resolveSavedQueryReference (\<lambda>u. False) sample_reference [sample_query\<lparr>sq_imageUrl := Some ''http://x''\<rparr>] [] Metrics None = Inl e \<and>
     \<not> unresolved e"
proof -
  let ?q = "sample_query\<lparr>sq_imageUrl := Some ''http://x''\<rparr>"
  let ?u = "\<lparr>ru_dashboard = sample_use, ru_reference = sample_reference, ru_kind = Metrics\<rparr>"
  have e: "resolveSavedQueryReference (\<lambda>u. False) (ru_reference ?u) [?q] [] (ru_kind ?u) None = Inl Invalid_document" by code_simp
  have "distinct (map sq_id [?q])" by simp
  moreover have "validateClosure \<lparr>db_dashboards = [sample_use], db_savedQueries = Some [?q]\<rparr> = None" by code_simp
  moreover have "?u \<in> set (references [sample_use])"
    by (simp add: references_def widget_references_def sample_use_def sample_widget_def tooltip_view_def widgetKind_def)
  moreover have "\<forall>v. declares (ru_dashboard ?u) v \<longrightarrow> js_map_get [] v \<noteq> None"
    by (simp add: declares_def sample_use_def)
  ultimately have "\<not> unresolved Invalid_document" using e by (rule closed_references_resolve)
  then show ?thesis using e by auto
qed

text \<open>
  C27: Mapping the data sources of imported dashboards succeeds exactly when every source they require is
  mapped to one that provides the kind of data asked of it, and the result requires exactly the mapped
  sources, each for the same kinds.
\<close>

theorem provider_mapping_exact:
  "((\<exists>ds'. remapDashboardProviders ds m ps = Inr ds') \<longleftrightarrow>
     (\<forall>p k. requires (requiredProviders ds) p k \<longrightarrow> capable ps (mappedId m p) k)) \<and>
   (\<forall>ds' p' k. remapDashboardProviders ds m ps = Inr ds' \<longrightarrow>
     (requires (requiredProviders ds') p' k \<longleftrightarrow> (\<exists>p. requires (requiredProviders ds) p k \<and> p' = mappedId m p)))"
proof (intro conjI allI impI)
  show "(\<exists>ds'. remapDashboardProviders ds m ps = Inr ds') \<longleftrightarrow>
      (\<forall>p k. requires (requiredProviders ds) p k \<longrightarrow> capable ps (mappedId m p) k)"
    unfolding remapDashboardProviders_def check_all_succeeds remap_dashboard_Inr requires_dashboards by fastforce
  fix ds' p' k assume "remapDashboardProviders ds m ps = Inr ds'"
  then have "list_all2 (\<lambda>d d'. remap_dashboard m ps d = Inr d') ds ds'"
    unfolding remapDashboardProviders_def by (rule check_all_list_all2)
  then show "requires (requiredProviders ds') p' k \<longleftrightarrow> (\<exists>p. requires (requiredProviders ds) p k \<and> p' = mappedId m p)"
    unfolding requires_dashboards
  proof (induction rule: list_all2_induct)
    case (Cons d ds d' ds')
    then show ?case using remap_dashboard_requires [OF Cons(1), of p' k] by auto blast+
  qed simp
qed

theorem provider_mapping_exact_witness:
  "\<exists>ds'. remapDashboardProviders [sample_direct] [(''p'', ''r'')]
       [\<lparr>pr_id = ''r'', pr_name = ''R'', pr_capabilities = [Metrics]\<rparr>] = Inr ds' \<and> requires (requiredProviders ds') ''r'' Metrics"
proof -
  let ?m = "[(''p'', ''r'')]" and ?ps = "[\<lparr>pr_id = ''r'', pr_name = ''R'', pr_capabilities = [Metrics]\<rparr>]"
  have needs: "requires (requiredProviders [sample_direct]) p k \<longleftrightarrow> p = ''p'' \<and> k = Metrics" for p k
    by (auto simp: requires_dashboards sample_direct_def sample_widget_def widget_requires_def tooltip_view_def widgetKind_def)
  have id: "mappedId ?m ''p'' = ''r''" by code_simp
  have "capable ?ps (mappedId ?m ''p'') Metrics" by code_simp
  then obtain ds' where ds': "remapDashboardProviders [sample_direct] ?m ?ps = Inr ds'"
    using provider_mapping_exact [of "[sample_direct]" ?m ?ps] needs by auto
  then have "requires (requiredProviders ds') ''r'' Metrics \<longleftrightarrow>
      (\<exists>p. requires (requiredProviders [sample_direct]) p Metrics \<and> ''r'' = mappedId ?m p)"
    using provider_mapping_exact by blast
  then show ?thesis using ds' needs id by auto
qed

end
