(* ===== verification/BundleCheck.thy ===== *)
theory BundleCheck
  imports DashboardJson BundleTransfer
begin

text \<open>
  The checks around a dashboard bundle (\<open>ui/src/features/insights/workspace-transfer.ts\<close> and \<open>import-review.ts\<close>):
  the canonical form of a saved query and its fingerprint, the check of a whole bundle with its limits on
  counts and bytes, building the bundle of an export, and the operations of \<open>BundleTransfer\<close> with the check
  of what they take and give.
\<close>

section \<open>Results\<close>

datatype bundle_error =
    Wrong_count
  | Dashboard_too_large
  | Invalid_dashboard
  | Duplicate_dashboard string
  | Too_many_queries
  | Query_too_large
  | Invalid_query saved_query_error
  | Duplicate_query string
  | Not_closed closure_error
  | Library_too_large
  | Transfer_failed transfer_error
  | Query_unavailable string
  | Ambiguous_query string
  | Other_query
  | Invalid_library
  | Unreadable_text

definition and_then :: "'e + 'a \<Rightarrow> ('a \<Rightarrow> 'e + 'b) \<Rightarrow> 'e + 'b" where
  "and_then r f = (case r of Inl e \<Rightarrow> Inl e | Inr x \<Rightarrow> f x)"

definition guard :: "bool \<Rightarrow> 'e \<Rightarrow> 'e + unit" where
  "guard ok e = (if ok then Inr () else Inl e)"

definition map_error :: "('d \<Rightarrow> 'e) \<Rightarrow> 'd + 'a \<Rightarrow> 'e + 'a" where
  "map_error f r = (case r of Inl e \<Rightarrow> Inl (f e) | Inr x \<Rightarrow> Inr x)"

lemma and_then_Inr [simp]: "and_then r f = Inr y \<longleftrightarrow> (\<exists>x. r = Inr x \<and> f x = Inr y)"
  by (cases r) (simp_all add: and_then_def)

lemma guard_Inr [simp]: "guard ok e = Inr u \<longleftrightarrow> ok"
  by (simp add: guard_def)

lemma map_error_Inr [simp]: "map_error f r = Inr x \<longleftrightarrow> r = Inr x"
  by (cases r) (simp_all add: map_error_def)

section \<open>Saved queries\<close>

definition MAX_SAVED_QUERY_BYTES :: nat where
  "MAX_SAVED_QUERY_BYTES = 32 * 1024"

text \<open>The revision of an entry is not part of the query, so there is none to strip.\<close>

definition canonicalQuery :: "platform \<Rightarrow> SavedQuery \<Rightarrow> bundle_error + SavedQuery" where
  "canonicalQuery p input =
     and_then (guard (byteLength (query_value input) \<le> MAX_SAVED_QUERY_BYTES) Query_too_large) (\<lambda>_.
     and_then (map_error Invalid_query (queryDocument (pf_url_ok p) input)) (\<lambda>query.
     and_then (map_error Invalid_query (validateSavedQueryTemplate (pf_url_ok p) query)) (\<lambda>_.
     Inr query)))"

definition savedQueryFingerprint :: "platform \<Rightarrow> SavedQuery \<Rightarrow> bundle_error + string" where
  "savedQueryFingerprint p query =
     and_then (canonicalQuery p query) (\<lambda>q.
       Inr (case documentFingerprint (query_value q) of Some t \<Rightarrow> t | None \<Rightarrow> []))"

text \<open>
  \<open>canonicalQuery\<close> of \<open>import-review.ts\<close> reads the fingerprint back: the keys of the metadata come out sorted.
\<close>

definition canonical_definition :: "platform \<Rightarrow> SavedQuery \<Rightarrow> bundle_error + SavedQuery" where
  "canonical_definition p input =
     and_then (canonicalQuery p input) (\<lambda>q. Inr (q\<lparr>sq_metadata := map_option sorted_object (sq_metadata q)\<rparr>))"

datatype import_status = Status_new | Status_identical | Status_conflict

definition queryImportStatus :: "platform \<Rightarrow> SavedQuery \<Rightarrow> SavedQuery list \<Rightarrow> bundle_error + import_status" where
  "queryImportStatus p query destination =
     (case filter (\<lambda>item. sq_id item = sq_id query) destination of
        [] \<Rightarrow> and_then (savedQueryFingerprint p query) (\<lambda>_. Inr Status_new)
      | [item] \<Rightarrow>
          and_then (savedQueryFingerprint p query) (\<lambda>incoming.
          and_then (savedQueryFingerprint p item) (\<lambda>existing.
          Inr (if incoming = existing then Status_identical else Status_conflict)))
      | _ \<Rightarrow> Inl (Ambiguous_query (sq_id query)))"

definition checked_compatibility ::
    "platform \<Rightarrow> SavedQuery \<Rightarrow> Dashboard list \<Rightarrow> SavedQuery option \<Rightarrow> bundle_error + ImportCompatibility" where
  "checked_compatibility p query dashboards previous =
     and_then (canonical_definition p query) (\<lambda>nxt.
     and_then (case previous of None \<Rightarrow> Inr None | Some old \<Rightarrow> and_then (canonical_definition p old) (\<lambda>q. Inr (Some q))) (\<lambda>old.
     (case savedQueryCompatibility nxt dashboards old of Some c \<Rightarrow> Inr c | None \<Rightarrow> Inl Other_query)))"

section \<open>Bundles\<close>

definition MAX_DOCUMENT_BYTES :: nat where
  "MAX_DOCUMENT_BYTES = 256 * 1024"

definition MAX_LIBRARY_BYTES :: nat where
  "MAX_LIBRARY_BYTES = 4 * 1024 * 1024"

definition checked_dashboard :: "platform \<Rightarrow> Dashboard \<Rightarrow> bundle_error + Dashboard" where
  "checked_dashboard p document =
     and_then (guard (byteLength (dashboard_value document) \<le> MAX_DOCUMENT_BYTES) Dashboard_too_large) (\<lambda>_.
     (case dashboardSchema p document of Some d \<Rightarrow> Inr d | None \<Rightarrow> Inl Invalid_dashboard))"

text \<open>The loops that parse each element and refuse a repeated id.\<close>

fun check_distinct :: "('a \<Rightarrow> bundle_error + 'a) \<Rightarrow> ('a \<Rightarrow> string) \<Rightarrow> (string \<Rightarrow> bundle_error) \<Rightarrow> string list \<Rightarrow> 'a list \<Rightarrow>
    bundle_error + 'a list" where
  "check_distinct parse key repeated seen [] = Inr []"
| "check_distinct parse key repeated seen (x # xs) =
     and_then (parse x) (\<lambda>y.
     if key y \<in> set seen then Inl (repeated (key y))
     else and_then (check_distinct parse key repeated (key y # seen) xs) (\<lambda>ys. Inr (y # ys)))"

definition bundle_value :: "DashboardBundle \<Rightarrow> js_value" where
  "bundle_value b = JObject ([(''kind'', JString ''PaprikaDashboardLibrary''), (''schemaVersion'', JNumber (Fin 1)),
     (''dashboards'', array_of dashboard_value (db_dashboards b))] @
     optional ''savedQueries'' (array_of query_value) (db_savedQueries b))"

definition checkedBundle :: "platform \<Rightarrow> DashboardBundle \<Rightarrow> bundle_error + DashboardBundle" where
  "checkedBundle p input =
     and_then (guard (1 \<le> length (db_dashboards input) \<and> length (db_dashboards input) \<le> 100) Wrong_count) (\<lambda>_.
     and_then (check_distinct (checked_dashboard p) da_id Duplicate_dashboard [] (db_dashboards input)) (\<lambda>dashboards.
     and_then (case db_savedQueries input of
         None \<Rightarrow> Inr None
       | Some qs \<Rightarrow> and_then (guard (length qs \<le> 256) Too_many_queries) (\<lambda>_.
           and_then (check_distinct (canonicalQuery p) sq_id Duplicate_query [] qs) (\<lambda>qs'. Inr (Some qs')))) (\<lambda>savedQueries.
     let bundle = \<lparr>db_dashboards = dashboards, db_savedQueries = savedQueries\<rparr> in
     and_then (case validateClosure bundle of None \<Rightarrow> Inr () | Some e \<Rightarrow> Inl (Not_closed e)) (\<lambda>_.
     and_then (guard (byteLength (bundle_value bundle) \<le> MAX_LIBRARY_BYTES) Library_too_large) (\<lambda>_.
     Inr bundle)))))"

text \<open>\<open>JSON.stringify(value, null, 2)\<close>, for a value nested in \<open>n\<close> others.\<close>

definition indent :: "nat \<Rightarrow> string" where
  "indent n = CHR 0x0A # replicate (2 * n) CHR '' ''"

fun json_pretty :: "nat \<Rightarrow> js_value \<Rightarrow> string option" where
  "json_pretty n (JArray xs) =
     Some (if xs = [] then ''[]''
       else ''['' @ indent (Suc n) @
         js_join ('','' @ indent (Suc n)) (map (\<lambda>x. case json_pretty (Suc n) x of Some t \<Rightarrow> t | None \<Rightarrow> ''null'') xs) @
         indent n @ '']'')"
| "json_pretty n (JObject ps) =
     (let fields = concat (map (\<lambda>(k, v). case json_pretty (Suc n) v of
          Some t \<Rightarrow> [json_quote k @ '': '' @ t] | None \<Rightarrow> []) ps)
      in Some (if fields = [] then ''{}''
        else ''{'' @ indent (Suc n) @ js_join ('','' @ indent (Suc n)) fields @ indent n @ ''}''))"
| "json_pretty n v = json_stringify v"

definition library_text :: "DashboardBundle \<Rightarrow> string" where
  "library_text b = (case json_pretty 0 (bundle_value b) of Some t \<Rightarrow> t | None \<Rightarrow> [])"

text \<open>\<open>serializeDashboardBundle(bundle, "json")\<close>.\<close>

definition serializeDashboardBundle :: "platform \<Rightarrow> DashboardBundle \<Rightarrow> bundle_error + string" where
  "serializeDashboardBundle p bundle =
     and_then (checkedBundle p bundle) (\<lambda>checked.
     and_then (guard (utf8_length (library_text checked) \<le> MAX_LIBRARY_BYTES) Library_too_large) (\<lambda>_.
     Inr (library_text checked)))"

text \<open>
  What \<open>parseDashboardBundle\<close> sees of a decoded text: the fields of the value that it tests, its arrays with their
  elements read as documents, and the value itself read as one dashboard. \<open>JSON.parse\<close>, the YAML reader and the reading
  of untyped values as documents are the argument \<open>decode\<close>.
\<close>

record library_value =
  lv_kind :: "js_value option"
  lv_schemaVersion :: "js_value option"
  lv_keys :: "string list"
  lv_dashboards :: "Dashboard list option"
  lv_savedQueries :: "SavedQuery list option option"
  lv_document :: "Dashboard option"

definition parseDashboardBundle ::
    "platform \<Rightarrow> (string \<Rightarrow> bundle_error + library_value) \<Rightarrow> string \<Rightarrow> bundle_error + DashboardBundle" where
  "parseDashboardBundle p decode source =
     and_then (guard (utf8_length source \<le> MAX_LIBRARY_BYTES) Library_too_large) (\<lambda>_.
     and_then (decode source) (\<lambda>value.
     if lv_kind value = Some (JString ''PaprikaDashboardLibrary'') then
       if lv_schemaVersion value \<noteq> Some (JNumber (Fin 1)) \<or>
          list_ex (\<lambda>key. key \<notin> set [''kind'', ''schemaVersion'', ''dashboards'', ''savedQueries'']) (lv_keys value)
       then Inl Invalid_library
       else case lv_dashboards value of
           None \<Rightarrow> Inl Invalid_library
         | Some dashboards \<Rightarrow>
             (case lv_savedQueries value of
                None \<Rightarrow> checkedBundle p \<lparr>db_dashboards = dashboards, db_savedQueries = None\<rparr>
              | Some None \<Rightarrow>
                  and_then (guard (1 \<le> length dashboards \<and> length dashboards \<le> 100) Wrong_count) (\<lambda>_.
                  and_then (check_distinct (checked_dashboard p) da_id Duplicate_dashboard [] dashboards) (\<lambda>_.
                  Inl Too_many_queries))
              | Some (Some queries) \<Rightarrow> checkedBundle p \<lparr>db_dashboards = dashboards, db_savedQueries = Some queries\<rparr>)
     else case lv_document value of
         None \<Rightarrow> Inl Invalid_dashboard
       | Some document \<Rightarrow> checkedBundle p \<lparr>db_dashboards = [document], db_savedQueries = None\<rparr>))"

text \<open>The value that \<open>serializeDashboardBundle\<close> prints.\<close>

definition printed_value :: "DashboardBundle \<Rightarrow> library_value" where
  "printed_value b =
     \<lparr>lv_kind = Some (JString ''PaprikaDashboardLibrary''), lv_schemaVersion = Some (JNumber (Fin 1)),
      lv_keys = [''kind'', ''schemaVersion'', ''dashboards''] @ (if db_savedQueries b = None then [] else [''savedQueries'']),
      lv_dashboards = Some (db_dashboards b), lv_savedQueries = map_option Some (db_savedQueries b), lv_document = None\<rparr>"

lemma parse_printed:
  "parseDashboardBundle p (\<lambda>_. Inr (printed_value b)) source =
     and_then (guard (utf8_length source \<le> MAX_LIBRARY_BYTES) Library_too_large) (\<lambda>_. checkedBundle p b)"
proof -
  have again: "\<lparr>db_dashboards = db_dashboards b, db_savedQueries = db_savedQueries b\<rparr> = b" by (cases b) simp
  show ?thesis
  proof (cases "db_savedQueries b")
    case None
    then have "checkedBundle p \<lparr>db_dashboards = db_dashboards b, db_savedQueries = None\<rparr> = checkedBundle p b" using again by metis
    then show ?thesis using None by (simp add: parseDashboardBundle_def printed_value_def and_then_def)
  next
    case (Some queries)
    then have "checkedBundle p \<lparr>db_dashboards = db_dashboards b, db_savedQueries = Some queries\<rparr> = checkedBundle p b" using again by metis
    then show ?thesis using Some by (simp add: parseDashboardBundle_def printed_value_def and_then_def)
  qed
qed

definition library_match :: "platform \<Rightarrow> SavedQuery list \<Rightarrow> string \<Rightarrow> bundle_error + SavedQuery" where
  "library_match p library i =
     (case filter (\<lambda>q. sq_id q = i) library of
        [] \<Rightarrow> Inl (Query_unavailable i)
      | [q] \<Rightarrow> canonicalQuery p q
      | _ \<Rightarrow> Inl (Ambiguous_query i))"

definition buildDashboardBundle :: "platform \<Rightarrow> Dashboard list \<Rightarrow> SavedQuery list \<Rightarrow> bundle_error + DashboardBundle" where
  "buildDashboardBundle p dashboards library =
     and_then (checkedBundle p \<lparr>db_dashboards = dashboards, db_savedQueries = None\<rparr>) (\<lambda>checked.
     let ids = js_set (map (\<lambda>u. sr_id (ru_reference u)) (references (db_dashboards checked))) in
     and_then (check_all (library_match p library) ids) (\<lambda>savedQueries.
     checkedBundle p \<lparr>db_dashboards = db_dashboards checked, db_savedQueries = Some savedQueries\<rparr>))"

definition selectBundleDashboards :: "platform \<Rightarrow> DashboardBundle \<Rightarrow> string list \<Rightarrow> bundle_error + DashboardBundle" where
  "selectBundleDashboards p bundle ids =
     and_then (checkedBundle p bundle) (\<lambda>source.
     and_then (map_error Transfer_failed (select_dashboards source ids)) (checkedBundle p))"

definition remapBundleQueryReferences :: "platform \<Rightarrow> DashboardBundle \<Rightarrow> (string, string) js_map \<Rightarrow> bundle_error + DashboardBundle" where
  "remapBundleQueryReferences p bundle idMap =
     and_then (checkedBundle p bundle) (\<lambda>source. checkedBundle p (remap_references source idMap))"

text \<open>The data source of one definition.\<close>

definition remap_query ::
    "(string, string) js_map \<Rightarrow> Provider list \<Rightarrow> SavedQuery \<Rightarrow> bundle_error + SavedQuery" where
  "remap_query mapping providers query =
     (let providerId = mappedId mapping (sq_providerId query) in
      if capable providers providerId (sq_kind query) then Inr (query\<lparr>sq_providerId := providerId\<rparr>)
      else Inl (Transfer_failed (No_compatible_source (sq_providerId query))))"

definition remapBundleProviders ::
    "platform \<Rightarrow> DashboardBundle \<Rightarrow> (string, string) js_map \<Rightarrow> Provider list \<Rightarrow> bundle_error + DashboardBundle" where
  "remapBundleProviders p bundle mapping providers =
     and_then (checkedBundle p bundle) (\<lambda>source.
     and_then (map_error Transfer_failed (remapDashboardProviders (db_dashboards source) mapping providers)) (\<lambda>dashboards.
     and_then (case db_savedQueries source of None \<Rightarrow> Inr None
       | Some qs \<Rightarrow> and_then (check_all (remap_query mapping providers) qs) (\<lambda>qs'. Inr (Some qs'))) (\<lambda>savedQueries.
     checkedBundle p \<lparr>db_dashboards = dashboards, db_savedQueries = savedQueries\<rparr>)))"

section \<open>Imports\<close>

definition canKeepSavedQuery :: "platform \<Rightarrow> DashboardBundle \<Rightarrow> string \<Rightarrow> SavedQuery \<Rightarrow> bundle_error + ImportCompatibility" where
  "canKeepSavedQuery p bundle i existing =
     (if sq_id existing \<noteq> i then Inl Other_query else checked_compatibility p existing (db_dashboards bundle) None)"

definition requiredImportProviders :: "DashboardBundle \<Rightarrow> string list \<Rightarrow> (string, DataKind list) js_map" where
  "requiredImportProviders bundle keptIds =
     foldl (\<lambda>m q. if sq_id q \<in> set keptIds then m else require (sq_providerId q) (sq_kind q) m)
       (requiredProviders (db_dashboards bundle)) (list_of (db_savedQueries bundle))"

definition provides :: "Provider list \<Rightarrow> SavedQuery \<Rightarrow> bool" where
  "provides providers q \<longleftrightarrow> list_ex (\<lambda>x. pr_id x = sq_providerId q \<and> sq_kind q \<in> set (pr_capabilities x)) providers"

definition import_definition ::
    "platform \<Rightarrow> (string, string) js_map \<Rightarrow> Provider list \<Rightarrow> (string, SavedQuery) js_map \<Rightarrow> SavedQuery \<Rightarrow>
     bundle_error + SavedQuery" where
  "import_definition p mapping providers kept incoming =
     (case js_map_get kept (sq_id incoming) of
        Some k \<Rightarrow>
          if sq_id k \<noteq> sq_id incoming then Inl Other_query
          else and_then (canonical_definition p k) (\<lambda>document.
            if provides providers document then Inr document
            else Inl (Transfer_failed (No_compatible_source (sq_providerId document))))
      | None \<Rightarrow>
          and_then (canonical_definition p (incoming\<lparr>sq_providerId := mappedId mapping (sq_providerId incoming)\<rparr>)) (\<lambda>document.
            if provides providers document then Inr document
            else Inl (Transfer_failed (No_compatible_source (sq_providerId document)))))"

definition remapImportBundle ::
    "platform \<Rightarrow> DashboardBundle \<Rightarrow> (string, string) js_map \<Rightarrow> Provider list \<Rightarrow> (string, SavedQuery) js_map \<Rightarrow>
     bundle_error + DashboardBundle" where
  "remapImportBundle p bundle mapping providers kept =
     and_then (map_error Transfer_failed (remapDashboardProviders (db_dashboards bundle) mapping providers)) (\<lambda>dashboards.
     (case db_savedQueries bundle of
        None \<Rightarrow> Inr \<lparr>db_dashboards = dashboards, db_savedQueries = None\<rparr>
      | Some qs \<Rightarrow>
          and_then (check_all (import_definition p mapping providers kept) qs) (\<lambda>definitions.
          buildDashboardBundle p dashboards definitions)))"

section \<open>Sizes\<close>

text \<open>
  A value that is not longer than another as JSON text, and has a text exactly when the other does.
  Trimming a document never makes it longer, so a document that passed its size check passes it again.
\<close>

definition no_longer :: "js_value \<Rightarrow> js_value \<Rightarrow> bool" where
  "no_longer v w \<longleftrightarrow> (json_stringify v = None \<longleftrightarrow> json_stringify w = None) \<and> byteLength v \<le> byteLength w"

definition text_length :: "js_value \<Rightarrow> nat" where
  "text_length v = utf8_length (json_element v)"

lemma utf8_simps [simp]:
  "utf8_length [] = 0" "utf8_length (s @ t) = utf8_length s + utf8_length t"
  "utf8_length (c # s) = (if (of_char c :: nat) < 128 then 1 else 2) + utf8_length s"
  by (simp_all add: utf8_length_def)

lemma utf8_join:
  "utf8_length (js_join '','' xs) = sum_list (map utf8_length xs) + (length xs - 1)"
  by (induction "'',''" xs rule: js_join.induct) simp_all

definition members :: "(string \<times> js_value) list \<Rightarrow> string list" where
  "members ps = concat (map (\<lambda>(k, v). case json_stringify v of Some t \<Rightarrow> [json_quote k @ '':'' @ t] | None \<Rightarrow> []) ps)"

lemma byteLength_containers:
  "byteLength (JObject ps) = 2 + (sum_list (map utf8_length (members ps)) + (length (members ps) - 1))"
  "byteLength (JArray xs) = 2 + (sum_list (map text_length xs) + (length xs - 1))"
  by (simp_all add: byteLength_def utf8_join members_def text_length_def [abs_def] json_element_def comp_def)

lemma no_longer_refl [simp]: "no_longer v v"
  by (simp add: no_longer_def)

lemma no_longer_JString: "utf8_length (concat (map json_escape s)) \<le> utf8_length (concat (map json_escape t)) \<Longrightarrow>
    no_longer (JString s) (JString t)"
  by (simp add: no_longer_def byteLength_def json_quote_def)

lemma no_longer_trim [simp]: "no_longer (JString (trim s)) (JString s)"
proof -
  obtain a where a: "s = a @ dropWhile js_space s" using takeWhile_dropWhile_id by metis
  obtain b where b: "rev (dropWhile js_space s) = b @ dropWhile js_space (rev (dropWhile js_space s))"
    using takeWhile_dropWhile_id by metis
  then have "dropWhile js_space s = trim s @ rev b" by (metis rev_append rev_rev_ident trim_def)
  then have "s = a @ trim s @ rev b" using a by simp
  then have "concat (map json_escape s) = concat (map json_escape a) @ concat (map json_escape (trim s)) @ concat (map json_escape (rev b))"
    by (metis concat_append map_append)
  then show ?thesis by (intro no_longer_JString) simp
qed

lemma text_length_mono: "no_longer v w \<Longrightarrow> text_length v \<le> text_length w"
  by (auto simp: no_longer_def text_length_def json_element_def byteLength_def split: option.splits)

lemma no_longer_JArray: "list_all2 no_longer xs ys \<Longrightarrow> no_longer (JArray xs) (JArray ys)"
proof -
  assume "list_all2 no_longer xs ys"
  then have "sum_list (map text_length xs) \<le> sum_list (map text_length ys) \<and> length xs = length ys"
    by (induction rule: list_all2_induct) (auto dest: text_length_mono)
  then show ?thesis by (simp add: no_longer_def byteLength_containers)
qed

definition field_no_longer :: "string \<times> js_value \<Rightarrow> string \<times> js_value \<Rightarrow> bool" where
  "field_no_longer f g \<longleftrightarrow> fst f = fst g \<and> no_longer (snd f) (snd g)"

lemma no_longer_JObject: "list_all2 field_no_longer ps qs \<Longrightarrow> no_longer (JObject ps) (JObject qs)"
proof -
  assume "list_all2 field_no_longer ps qs"
  then have "sum_list (map utf8_length (members ps)) \<le> sum_list (map utf8_length (members qs)) \<and>
      length (members ps) = length (members qs)"
    by (induction rule: list_all2_induct)
       (auto simp: members_def field_no_longer_def no_longer_def byteLength_def split: option.splits)
  then show ?thesis by (simp add: no_longer_def byteLength_containers)
qed

lemma field_no_longer_Pair [simp]: "field_no_longer (k, v) (k', w) \<longleftrightarrow> k = k' \<and> no_longer v w"
  by (simp add: field_no_longer_def)

lemma fields_refl [simp]: "list_all2 field_no_longer ps ps"
  by (rule list_all2_refl) (simp add: field_no_longer_def)

lemma optional_shorter:
  assumes "\<And>x. no_longer (encode (f x)) (encode x)"
  shows "list_all2 field_no_longer (optional key encode (map_option f x)) (optional key encode x)"
  using assms by (cases x) (simp_all add: optional_def)

lemma array_shorter:
  assumes "\<And>x. no_longer (encode (f x)) (encode x)"
  shows "no_longer (array_of encode (map f xs)) (array_of encode xs)"
  unfolding array_of_def using assms by (intro no_longer_JArray) (simp add: list_all2_conv_all_nth)

lemmas shorter_fields = no_longer_JObject list_all2_appendI optional_shorter array_shorter

lemma trim_source_shorter: "no_longer (tooltip_source_value (trim_source s)) (tooltip_source_value s)"
  by (cases s) (auto intro!: no_longer_JObject list_all2_appendI)

lemma trim_view_shorter: "no_longer (tooltip_view_value (trim_view v)) (tooltip_view_value v)"
  unfolding tooltip_view_value_def trim_view_def
  by (intro shorter_fields) (simp_all add: optional_shorter trim_source_shorter)

lemma trim_options_shorter: "no_longer (options_value (trim_options o')) (options_value o')"
  unfolding options_value_def trim_options_def
  by (intro shorter_fields) (simp_all add: optional_shorter trim_view_shorter)

lemma trim_annotations_shorter: "no_longer (annotation_value (trim_annotations a)) (annotation_value a)"
  unfolding annotation_value_def trim_annotations_def
  by (intro shorter_fields) (simp_all add: optional_shorter)

lemma trim_link_shorter: "no_longer (drilldown_value (trim_link d)) (drilldown_value d)"
  unfolding drilldown_value_def trim_link_def by (intro shorter_fields) simp_all

lemma trim_widget_shorter: "no_longer (widget_value (trim_widget w)) (widget_value w)"
  unfolding widget_value_def trim_widget_def
  by (intro shorter_fields) (simp_all add: optional_shorter trim_options_shorter trim_annotations_shorter trim_link_shorter array_shorter)

lemma trim_dashboard_shorter: "no_longer (dashboard_value (trim_dashboard d)) (dashboard_value d)"
  unfolding dashboard_value_def trim_dashboard_def
  by (intro shorter_fields) (simp_all add: optional_shorter trim_widget_shorter array_shorter)

lemma trim_query_shorter: "no_longer (query_value (q\<lparr>sq_name := trim (sq_name q), sq_query := trim (sq_query q)\<rparr>)) (query_value q)"
  unfolding query_value_def by (intro shorter_fields) simp_all

section \<open>Checking twice\<close>

lemma checked_dashboard_twice: "checked_dashboard p d = Inr e \<Longrightarrow> checked_dashboard p e = Inr e"
  using trim_dashboard_shorter [of d] dashboardSchema_twice [of p d e]
  by (auto simp: checked_dashboard_def no_longer_def dashboardSchema_Some split: option.splits)

lemma savedQuerySchema_twice: "savedQuerySchema url_ok q = Some r \<Longrightarrow> savedQuerySchema url_ok r = Some r"
  by (auto simp: savedQuerySchema_def Let_def split: if_splits)

lemma savedQuerySchema_trims:
  "savedQuerySchema url_ok q = Some r \<Longrightarrow> r = q\<lparr>sq_name := trim (sq_name q), sq_query := trim (sq_query q)\<rparr>"
  by (simp add: savedQuerySchema_def Let_def split: if_splits)

lemma canonicalQuery_Inr:
  "canonicalQuery p q = Inr r \<longleftrightarrow>
     byteLength (query_value q) \<le> MAX_SAVED_QUERY_BYTES \<and> savedQuerySchema (pf_url_ok p) q = Some r \<and>
     (\<exists>t. validateSavedQueryTemplate (pf_url_ok p) r = Inr t)"
  by (auto simp: canonicalQuery_def queryDocument_def split: option.splits)

lemma canonicalQuery_twice: "canonicalQuery p q = Inr r \<Longrightarrow> canonicalQuery p r = Inr r"
  using trim_query_shorter [of q]
  by (auto simp: canonicalQuery_Inr no_longer_def dest: savedQuerySchema_twice savedQuerySchema_trims)

lemma canonicalQuery_fields: "canonicalQuery p q = Inr r \<Longrightarrow> sq_id r = sq_id q \<and> sq_providerId r = sq_providerId q \<and> sq_kind r = sq_kind q"
  by (auto simp: canonicalQuery_Inr dest: savedQuerySchema_trims)

lemma check_distinct_Inr:
  "check_distinct parse key repeated seen xs = Inr ys \<longleftrightarrow>
     list_all2 (\<lambda>x y. parse x = Inr y) xs ys \<and> distinct (map key ys) \<and> (\<forall>y\<in>set ys. key y \<notin> set seen)"
proof (induction xs arbitrary: seen ys)
  case (Cons x xs)
  show ?case
  proof (cases "parse x")
    case (Inr y)
    show ?thesis
    proof (cases "key y \<in> set seen")
      case False
      then have "check_distinct parse key repeated seen (x # xs) = Inr ys \<longleftrightarrow>
          (\<exists>zs. check_distinct parse key repeated (key y # seen) xs = Inr zs \<and> ys = y # zs)"
        by (auto simp: Inr)
      moreover have "(\<forall>z\<in>set zs. key z \<notin> set (key y # seen)) \<longleftrightarrow> key y \<notin> key ` set zs \<and> (\<forall>z\<in>set zs. key z \<notin> set seen)" for zs
        by (metis image_iff list.set_intros(1) set_ConsD list.set_intros(2))
      ultimately show ?thesis using False unfolding Cons by (cases ys) (auto simp del: set_simps(2) simp: Inr set_simps(2) [of y])
    qed (auto simp: Inr list_all2_Cons1)
  qed (auto simp: and_then_def list_all2_Cons1)
qed auto

lemma checkedBundle_Inr:
  "checkedBundle p b = Inr c \<longleftrightarrow>
     1 \<le> length (db_dashboards b) \<and> length (db_dashboards b) \<le> 100 \<and>
     list_all2 (\<lambda>x y. checked_dashboard p x = Inr y) (db_dashboards b) (db_dashboards c) \<and>
     distinct (map da_id (db_dashboards c)) \<and>
     (case (db_savedQueries b, db_savedQueries c) of
        (None, None) \<Rightarrow> True
      | (Some qs, Some rs) \<Rightarrow> length qs \<le> 256 \<and> list_all2 (\<lambda>x y. canonicalQuery p x = Inr y) qs rs \<and> distinct (map sq_id rs)
      | _ \<Rightarrow> False) \<and>
     validateClosure c = None \<and> byteLength (bundle_value c) \<le> MAX_LIBRARY_BYTES"
  by (cases c; cases "db_savedQueries b")
     (auto simp: checkedBundle_def check_distinct_Inr Let_def split: option.splits)

definition bundle_checked :: "platform \<Rightarrow> DashboardBundle \<Rightarrow> bool" where
  "bundle_checked p b \<longleftrightarrow> checkedBundle p b = Inr b"

lemma list_all2_twice: "(\<And>x y. R x y \<Longrightarrow> R y y) \<Longrightarrow> list_all2 R xs ys \<Longrightarrow> list_all2 R ys ys"
  by (auto simp: list_all2_conv_all_nth)

lemma checkedBundle_twice:
  assumes "checkedBundle p b = Inr c"
  shows "checkedBundle p c = Inr c"
proof -
  have "list_all2 (\<lambda>x y. checked_dashboard p x = Inr y) (db_dashboards c) (db_dashboards c)"
    using assms list_all2_twice [of "\<lambda>x y. checked_dashboard p x = Inr y"] checked_dashboard_twice
    unfolding checkedBundle_Inr by blast
  moreover have "list_all2 (\<lambda>x y. canonicalQuery p x = Inr y) rs rs" if "list_all2 (\<lambda>x y. canonicalQuery p x = Inr y) qs rs" for qs rs
    using that list_all2_twice [of "\<lambda>x y. canonicalQuery p x = Inr y"] canonicalQuery_twice by blast
  moreover have "length (db_dashboards c) = length (db_dashboards b)"
    using assms unfolding checkedBundle_Inr by (metis list_all2_lengthD)
  moreover have "length rs = length qs" if "list_all2 (\<lambda>x y. canonicalQuery p x = Inr y) qs rs" for qs rs
    using list_all2_lengthD [OF that] by simp
  ultimately show ?thesis using assms
    unfolding checkedBundle_Inr by (cases "db_savedQueries b"; cases "db_savedQueries c") auto
qed

lemma sum_list_filter_le: "sum_list (map f (filter P xs)) \<le> (sum_list (map f xs) :: nat)"
  by (induction xs) auto

lemma array_filter_shorter: "no_longer (array_of encode (filter P xs)) (array_of encode xs)"
proof -
  have "length (filter P xs) - 1 \<le> length xs - 1" by (simp add: diff_le_mono)
  then show ?thesis using sum_list_filter_le [of "\<lambda>x. text_length (encode x)" P xs]
    by (auto simp: no_longer_def array_of_def byteLength_containers comp_def intro: add_mono)
qed

lemma select_shorter: "no_longer (bundle_value \<lparr>db_dashboards = filter P ds, db_savedQueries = map_option (filter Q) qs\<rparr>)
    (bundle_value \<lparr>db_dashboards = ds, db_savedQueries = qs\<rparr>)"
  unfolding bundle_value_def by (intro shorter_fields) (simp_all add: optional_shorter array_filter_shorter)

lemma list_all2_filter_same: "list_all2 R xs xs \<Longrightarrow> list_all2 R (filter P xs) (filter P xs)"
  by (simp add: list.rel_refl_strong list_all2_same)

lemma select_Inr:
  assumes "distinct ids" "set ids \<subseteq> da_id ` set (db_dashboards b)"
  shows "\<exists>Q. select_dashboards b ids = Inr \<lparr>db_dashboards = filter (\<lambda>d. da_id d \<in> set ids) (db_dashboards b),
    db_savedQueries = map_option (filter Q) (db_savedQueries b)\<rparr>"
proof -
  have "List.find (\<lambda>i. \<not> list_ex (\<lambda>d. da_id d = i) (db_dashboards b)) ids = None"
    using assms(2) by (auto simp: find_None_iff list_ex_iff)
  then show ?thesis using assms(1) by (auto simp: select_dashboards_def Let_def)
qed

section \<open>Properties\<close>

text \<open>
  C20: Choosing dashboards of a bundle that has been checked never fails: a selection of some of its
  dashboards, each named once, is a bundle that passes every check again, and holds the chosen
  dashboards in their order, unchanged.
\<close>

theorem selection_of_checked_succeeds:
  assumes "checkedBundle p bundle = Inr source" and "ids \<noteq> []" "distinct ids"
    and "set ids \<subseteq> da_id ` set (db_dashboards source)"
  shows "\<exists>b. selectBundleDashboards p source ids = Inr b \<and> checkedBundle p b = Inr b \<and>
    db_dashboards b = filter (\<lambda>d. da_id d \<in> set ids) (db_dashboards source)"
proof -
  have source: "checkedBundle p source = Inr source" by (rule checkedBundle_twice [OF assms(1)])
  obtain Q where Q: "select_dashboards source ids =
      Inr \<lparr>db_dashboards = filter (\<lambda>d. da_id d \<in> set ids) (db_dashboards source),
        db_savedQueries = map_option (filter Q) (db_savedQueries source)\<rparr>" (is "_ = Inr ?b")
    using select_Inr [OF assms(3,4)] by blast
  have closed: "validateClosure ?b = None"
  proof (cases "db_savedQueries source")
    case (Some qs)
    then have "distinct (map sq_id qs)" "validateClosure \<lparr>db_dashboards = db_dashboards source, db_savedQueries = Some qs\<rparr> = None"
      using source by (cases source, auto simp: checkedBundle_Inr)+
    then show ?thesis using select_closed [of qs "db_dashboards source" ids ?b] Q Some by (cases source) auto
  qed (simp add: validateClosure_def)
  have "filter (\<lambda>d. da_id d \<in> set ids) (db_dashboards source) \<noteq> []"
    using assms(2,4) by (cases ids) (auto simp: filter_empty_conv)
  moreover have "length (filter (\<lambda>d. da_id d \<in> set ids) (db_dashboards source)) \<le> 100"
    using source le_trans [OF length_filter_le] unfolding checkedBundle_Inr by blast
  moreover have "length (filter Q qs) \<le> 256" if "length qs \<le> 256" for qs
    using le_trans [OF length_filter_le that] .
  moreover have "byteLength (bundle_value ?b) \<le> MAX_LIBRARY_BYTES"
    using source select_shorter [of "\<lambda>d. da_id d \<in> set ids" "db_dashboards source" Q "db_savedQueries source"]
    unfolding checkedBundle_Inr no_longer_def by (cases source) auto
  ultimately have "checkedBundle p ?b = Inr ?b"
    using source closed unfolding checkedBundle_Inr
    by (cases "db_savedQueries source") (auto simp: list_all2_filter_same distinct_map_filter Suc_le_eq)
  then show ?thesis using source Q by (auto simp: selectBundleDashboards_def and_then_def map_error_def)
qed

definition plain_bundle :: DashboardBundle where
  "plain_bundle = \<lparr>db_dashboards = [newDashboard ''1''], db_savedQueries = None\<rparr>"

lemma rat_text_one: "rat_text 1 = ''1''"
proof -
  have "decimal_point 1 = 1" by code_simp
  moreover have "decimal_candidates 1 1 1 = [(1, 1)]"
    using fl_int [of 1] fl_int [of 2] by (simp add: decimal_candidates_def ten_pow_def js_round_def Let_def floor_eq_iff)
  moreover have "nat_str 1 = ''1''" by code_simp
  ultimately show ?thesis by (simp add: rat_text_def numeral_eq_Suc decimal_text_def Let_def)
qed

lemmas document_text = optional_def array_of_def json_quote_def json_escape_def rat_text_one rat_text_def [of 0]

lemma plain_sizes:
  "byteLength (dashboard_value (newDashboard ''1'')) \<le> MAX_DOCUMENT_BYTES"
  "byteLength (bundle_value plain_bundle) \<le> MAX_LIBRARY_BYTES"
  "utf8_length (library_text plain_bundle) \<le> MAX_LIBRARY_BYTES"
proof -
  have "indent 0 = [CHR 0x0A]" "indent (Suc 0) = CHR 0x0A # ''  ''" "indent (Suc (Suc 0)) = CHR 0x0A # ''    ''"
    "indent (Suc (Suc (Suc 0))) = CHR 0x0A # ''      ''" by code_simp+
  then show "byteLength (dashboard_value (newDashboard ''1'')) \<le> MAX_DOCUMENT_BYTES"
    "byteLength (bundle_value plain_bundle) \<le> MAX_LIBRARY_BYTES"
    "utf8_length (library_text plain_bundle) \<le> MAX_LIBRARY_BYTES"
    by (simp_all add: byteLength_def library_text_def bundle_value_def plain_bundle_def dashboard_value_def newDashboard_def
      MAX_DOCUMENT_BYTES_def MAX_LIBRARY_BYTES_def document_text Let_def)
qed

lemma plain_bundle_checked: "checkedBundle sample_platform plain_bundle = Inr plain_bundle"
proof -
  have "dashboardSchema sample_platform (newDashboard ''1'') = Some (newDashboard ''1'')" by code_simp
  then have "checked_dashboard sample_platform (newDashboard ''1'') = Inr (newDashboard ''1'')"
    using plain_sizes(1) by (simp add: checked_dashboard_def)
  then show ?thesis using plain_sizes(2) by (simp add: checkedBundle_Inr plain_bundle_def validateClosure_def)
qed

theorem selection_of_checked_succeeds_witness:
  "\<exists>b. selectBundleDashboards sample_platform plain_bundle [''dashboard-1''] = Inr b \<and>
     db_dashboards b = [newDashboard ''1'']"
proof -
  have "set [''dashboard-1''] \<subseteq> da_id ` set (db_dashboards plain_bundle)" by code_simp
  moreover have "filter (\<lambda>d. da_id d \<in> set [''dashboard-1'']) (db_dashboards plain_bundle) = [newDashboard ''1'']"
    by code_simp
  ultimately show ?thesis
    using selection_of_checked_succeeds [OF plain_bundle_checked, of "[''dashboard-1'']"] by auto
qed

end
