(* ===== verification/ClientProgram.thy ===== *)
theory ClientProgram
  imports BundleCheck
begin

text \<open>
  Programs that call the workspace client (\<open>ui/src/features/insights/client.ts\<close>) and wait for its answers. A
  program is finished or makes one call, with what it does for each answer; the server, and whoever
  else writes to the workspace between two calls, are the answers. On top of that, an action has a
  state and may throw; what it changed before it threw stays changed, as in the source.

  The reasoning is by weakest preconditions over the history of calls: \<open>ok P Q h m\<close> says that \<open>m\<close>, started
  after the history \<open>h\<close>, makes only calls that \<open>P\<close> allows after the history they are made in, and ends in
  a result with \<open>Q\<close>. It is sound for the traces of the program.
\<close>

section \<open>Calls\<close>

type_synonym etag = "string option"

type_synonym SavedQueryEntry = "SavedQuery \<times> etag"

datatype 'a prog =
    Done 'a
  | List_dashboards "string + Dashboard list \<Rightarrow> 'a prog"
  | List_queries "string + SavedQueryEntry list \<Rightarrow> 'a prog"
  | Get_dashboard string "string + Dashboard \<times> etag \<Rightarrow> 'a prog"
  | Get_query string "string + SavedQuery \<times> etag \<Rightarrow> 'a prog"
  | Save_dashboard Dashboard etag "string + etag \<Rightarrow> 'a prog"
  | Save_query SavedQuery etag "string + etag \<Rightarrow> 'a prog"

text \<open>A call with its answer: a rejection, or what the promise resolves to.\<close>

datatype client_event =
    Listed "string + Dashboard list"
  | Listed_queries "string + SavedQueryEntry list"
  | Read_dashboard string "string + Dashboard \<times> etag"
  | Read_query string "string + SavedQuery \<times> etag"
  | Wrote_dashboard Dashboard etag "string + etag"
  | Wrote_query SavedQuery etag "string + etag"

primrec prog_bind :: "'a prog \<Rightarrow> ('a \<Rightarrow> 'b prog) \<Rightarrow> 'b prog" where
  "prog_bind (Done x) f = f x"
| "prog_bind (List_dashboards k) f = List_dashboards (\<lambda>r. prog_bind (k r) f)"
| "prog_bind (List_queries k) f = List_queries (\<lambda>r. prog_bind (k r) f)"
| "prog_bind (Get_dashboard i k) f = Get_dashboard i (\<lambda>r. prog_bind (k r) f)"
| "prog_bind (Get_query i k) f = Get_query i (\<lambda>r. prog_bind (k r) f)"
| "prog_bind (Save_dashboard d t k) f = Save_dashboard d t (\<lambda>r. prog_bind (k r) f)"
| "prog_bind (Save_query q t k) f = Save_query q t (\<lambda>r. prog_bind (k r) f)"

text \<open>The calls a program can have made so far, in their order.\<close>

inductive trace :: "'a prog \<Rightarrow> client_event list \<Rightarrow> bool" where
  start: "trace m []"
| list: "trace (k r) es \<Longrightarrow> trace (List_dashboards k) (Listed r # es)"
| list_queries: "trace (k r) es \<Longrightarrow> trace (List_queries k) (Listed_queries r # es)"
| get: "trace (k r) es \<Longrightarrow> trace (Get_dashboard i k) (Read_dashboard i r # es)"
| get_query: "trace (k r) es \<Longrightarrow> trace (Get_query i k) (Read_query i r # es)"
| save: "trace (k r) es \<Longrightarrow> trace (Save_dashboard d t k) (Wrote_dashboard d t r # es)"
| save_query: "trace (k r) es \<Longrightarrow> trace (Save_query q t k) (Wrote_query q t r # es)"

text \<open>A run to the end, and its result.\<close>

inductive runs :: "'a prog \<Rightarrow> client_event list \<Rightarrow> 'a \<Rightarrow> bool" where
  finish: "runs (Done x) [] x"
| list: "runs (k r) es x \<Longrightarrow> runs (List_dashboards k) (Listed r # es) x"
| list_queries: "runs (k r) es x \<Longrightarrow> runs (List_queries k) (Listed_queries r # es) x"
| get: "runs (k r) es x \<Longrightarrow> runs (Get_dashboard i k) (Read_dashboard i r # es) x"
| get_query: "runs (k r) es x \<Longrightarrow> runs (Get_query i k) (Read_query i r # es) x"
| save: "runs (k r) es x \<Longrightarrow> runs (Save_dashboard d t k) (Wrote_dashboard d t r # es) x"
| save_query: "runs (k r) es x \<Longrightarrow> runs (Save_query q t k) (Wrote_query q t r # es) x"

section \<open>Weakest preconditions\<close>

type_synonym call_ok = "client_event list \<Rightarrow> client_event \<Rightarrow> bool"

primrec ok :: "call_ok \<Rightarrow> (client_event list \<Rightarrow> 'a \<Rightarrow> bool) \<Rightarrow> 'a prog \<Rightarrow> client_event list \<Rightarrow> bool" where
  "ok P Q (Done x) h = Q h x"
| "ok P Q (List_dashboards k) h = (\<forall>r. P h (Listed r) \<and> ok P Q (k r) (h @ [Listed r]))"
| "ok P Q (List_queries k) h = (\<forall>r. P h (Listed_queries r) \<and> ok P Q (k r) (h @ [Listed_queries r]))"
| "ok P Q (Get_dashboard i k) h = (\<forall>r. P h (Read_dashboard i r) \<and> ok P Q (k r) (h @ [Read_dashboard i r]))"
| "ok P Q (Get_query i k) h = (\<forall>r. P h (Read_query i r) \<and> ok P Q (k r) (h @ [Read_query i r]))"
| "ok P Q (Save_dashboard d t k) h = (\<forall>r. P h (Wrote_dashboard d t r) \<and> ok P Q (k r) (h @ [Wrote_dashboard d t r]))"
| "ok P Q (Save_query q t k) h = (\<forall>r. P h (Wrote_query q t r) \<and> ok P Q (k r) (h @ [Wrote_query q t r]))"

lemma ok_bind: "ok P Q (prog_bind m f) h \<longleftrightarrow> ok P (\<lambda>h' x. ok P Q (f x) h') m h"
  by (induction m arbitrary: h) auto

lemma ok_mono: "ok P Q m h \<Longrightarrow> (\<And>h' x. Q h' x \<Longrightarrow> Q' h' x) \<Longrightarrow> ok P Q' m h"
  by (induction m arbitrary: h) auto

lemma ok_trace:
  assumes "trace m es" and "ok P Q m h" and "es = pre @ e # post"
  shows "P (h @ pre) e"
  using assms
proof (induction arbitrary: h pre rule: trace.induct)
  case (list k r es)
  then show ?case using list.IH [of "h @ [Listed r]" "tl pre"] by (cases pre) auto
next
  case (list_queries k r es)
  then show ?case using list_queries.IH [of "h @ [Listed_queries r]" "tl pre"] by (cases pre) auto
next
  case (get k r es i)
  then show ?case using get.IH [of "h @ [Read_dashboard i r]" "tl pre"] by (cases pre) auto
next
  case (get_query k r es i)
  then show ?case using get_query.IH [of "h @ [Read_query i r]" "tl pre"] by (cases pre) auto
next
  case (save k r es d t)
  then show ?case using save.IH [of "h @ [Wrote_dashboard d t r]" "tl pre"] by (cases pre) auto
next
  case (save_query k r es q t)
  then show ?case using save_query.IH [of "h @ [Wrote_query q t r]" "tl pre"] by (cases pre) auto
qed simp

lemma ok_runs: "runs m es x \<Longrightarrow> ok P Q m h \<Longrightarrow> Q (h @ es) x"
  by (induction arbitrary: h rule: runs.induct) force+

section \<open>Actions\<close>

type_synonym ('s, 'e, 'a) action = "'s \<Rightarrow> (('e + 'a) \<times> 's) prog"

definition act_return :: "'a \<Rightarrow> ('s, 'e, 'a) action" where
  "act_return x = (\<lambda>s. Done (Inr x, s))"

definition act_throw :: "'e \<Rightarrow> ('s, 'e, 'a) action" where
  "act_throw e = (\<lambda>s. Done (Inl e, s))"

definition act_bind :: "('s, 'e, 'a) action \<Rightarrow> ('a \<Rightarrow> ('s, 'e, 'b) action) \<Rightarrow> ('s, 'e, 'b) action" where
  "act_bind m f = (\<lambda>s. prog_bind (m s) (\<lambda>(r, s'). case r of Inl e \<Rightarrow> Done (Inl e, s') | Inr x \<Rightarrow> f x s'))"

definition act_then :: "('s, 'e, unit) action \<Rightarrow> ('s, 'e, 'b) action \<Rightarrow> ('s, 'e, 'b) action" where
  "act_then m n = act_bind m (\<lambda>_. n)"

definition act_catch :: "('s, 'e, 'a) action \<Rightarrow> ('e \<Rightarrow> ('s, 'e, 'a) action) \<Rightarrow> ('s, 'e, 'a) action" where
  "act_catch m f = (\<lambda>s. prog_bind (m s) (\<lambda>(r, s'). case r of Inl e \<Rightarrow> f e s' | Inr x \<Rightarrow> Done (Inr x, s')))"

definition act_read :: "('s \<Rightarrow> 'a) \<Rightarrow> ('s, 'e, 'a) action" where
  "act_read f = (\<lambda>s. Done (Inr (f s), s))"

definition act_update :: "('s \<Rightarrow> 's) \<Rightarrow> ('s, 'e, unit) action" where
  "act_update f = (\<lambda>s. Done (Inr (), f s))"

definition act_lift :: "('d \<Rightarrow> 'e) \<Rightarrow> 'd + 'a \<Rightarrow> ('s, 'e, 'a) action" where
  "act_lift g r = (case r of Inl e \<Rightarrow> act_throw (g e) | Inr x \<Rightarrow> act_return x)"

primrec act_for :: "('a \<Rightarrow> ('s, 'e, unit) action) \<Rightarrow> 'a list \<Rightarrow> ('s, 'e, unit) action" where
  "act_for f [] = act_return ()"
| "act_for f (x # xs) = act_then (f x) (act_for f xs)"

primrec act_map :: "('a \<Rightarrow> ('s, 'e, 'b) action) \<Rightarrow> 'a list \<Rightarrow> ('s, 'e, 'b list) action" where
  "act_map f [] = act_return []"
| "act_map f (x # xs) = act_bind (f x) (\<lambda>y. act_bind (act_map f xs) (\<lambda>ys. act_return (y # ys)))"

subsection \<open>Contracts\<close>

text \<open>
  The result of an action: the postcondition holds of what it returns, or the exceptional one of what it
  throws. The rules compute the weakest precondition of an action from its parts.
\<close>

named_theorems wp

definition outcome :: "('a \<Rightarrow> client_event list \<Rightarrow> 's \<Rightarrow> bool) \<Rightarrow> ('e \<Rightarrow> client_event list \<Rightarrow> 's \<Rightarrow> bool) \<Rightarrow>
    client_event list \<Rightarrow> ('e + 'a) \<times> 's \<Rightarrow> bool" where
  "outcome R E h rs = (case rs of (Inl e, s) \<Rightarrow> E e h s | (Inr x, s) \<Rightarrow> R x h s)"

lemma outcome_simps [simp]: "outcome R E h (Inl e, s) = E e h s" "outcome R E h (Inr x, s) = R x h s"
  by (simp_all add: outcome_def)

lemma wp_basic [wp]:
  "ok P (outcome R E) (act_return x s) h \<longleftrightarrow> R x h s"
  "ok P (outcome R E) (act_throw e s) h \<longleftrightarrow> E e h s"
  "ok P (outcome R E) (act_read f s) h \<longleftrightarrow> R (f s) h s"
  "ok P (outcome R E) (act_lift k r s) h \<longleftrightarrow> (\<forall>e. r = Inl e \<longrightarrow> E (k e) h s) \<and> (\<forall>x. r = Inr x \<longrightarrow> R x h s)"
  by (simp_all add: act_return_def act_throw_def act_read_def act_lift_def split: sum.split)

lemma wp_update [wp]: "ok P (outcome R E) (act_update g s) h \<longleftrightarrow> R () h (g s)"
  by (simp add: act_update_def)

lemma ok_cong: "(\<And>h x. Q h x \<longleftrightarrow> Q' h x) \<Longrightarrow> ok P Q m h \<longleftrightarrow> ok P Q' m h"
  using ok_mono [of P Q m h Q'] ok_mono [of P Q' m h Q] by blast

lemma wp_bind [wp]:
  "ok P (outcome R E) (act_bind m f s) h \<longleftrightarrow> ok P (outcome (\<lambda>x h' s'. ok P (outcome R E) (f x s') h') E) (m s) h"
  unfolding act_bind_def ok_bind by (rule ok_cong) (auto simp: outcome_def split: sum.split prod.split)

lemma wp_then [wp]:
  "ok P (outcome R E) (act_then m n s) h \<longleftrightarrow> ok P (outcome (\<lambda>_ h' s'. ok P (outcome R E) (n s') h') E) (m s) h"
  unfolding act_then_def by (rule wp_bind)

lemma wp_catch [wp]:
  "ok P (outcome R E) (act_catch m f s) h \<longleftrightarrow> ok P (outcome R (\<lambda>e h' s'. ok P (outcome R E) (f e s') h')) (m s) h"
  unfolding act_catch_def ok_bind by (rule ok_cong) (auto simp: outcome_def split: sum.split prod.split)

lemma wp_if [wp]:
  "ok P Q ((if b then m else n) s) h \<longleftrightarrow> (b \<longrightarrow> ok P Q (m s) h) \<and> (\<not> b \<longrightarrow> ok P Q (n s) h)"
  by simp

text \<open>
  From a state and history with the precondition, the action makes only calls that \<open>P\<close> allows, and ends with
  the postcondition or, when it throws, with the exceptional one.
\<close>

definition keeps :: "call_ok \<Rightarrow> (client_event list \<Rightarrow> 's \<Rightarrow> bool) \<Rightarrow> ('s, 'e, 'a) action \<Rightarrow>
    ('a \<Rightarrow> client_event list \<Rightarrow> 's \<Rightarrow> bool) \<Rightarrow> (client_event list \<Rightarrow> 's \<Rightarrow> bool) \<Rightarrow> bool" where
  "keeps P I m R E \<longleftrightarrow> (\<forall>h s. I h s \<longrightarrow> ok P (outcome R (\<lambda>_. E)) (m s) h)"

lemma keepsI: "(\<And>h s. I h s \<Longrightarrow> ok P (outcome R (\<lambda>_. E)) (m s) h) \<Longrightarrow> keeps P I m R E"
  by (simp add: keeps_def)

lemma keepsD: "keeps P I m R E \<Longrightarrow> I h s \<Longrightarrow> ok P (outcome R (\<lambda>_. E)) (m s) h"
  by (simp add: keeps_def)

text \<open>Using a contract inside a computed precondition.\<close>

lemma keeps_use:
  assumes "keeps P I m R E" and "I h s" and "\<And>x h s. R x h s \<Longrightarrow> R' x h s" and "\<And>e h s. E h s \<Longrightarrow> E' e h s"
  shows "ok P (outcome R' E') (m s) h"
  using keepsD [OF assms(1,2)] by (rule ok_mono) (auto simp: outcome_def assms(3,4) split: sum.splits prod.splits)

lemma keeps_bind:
  assumes "keeps P I m J E" and "\<And>x. keeps P (J x) (f x) R E"
  shows "keeps P I (act_bind m f) R E"
  by (rule keepsI) (auto simp: wp_bind intro!: keeps_use [OF assms(1)] keepsD [OF assms(2)])

lemma keeps_then: "keeps P I m (\<lambda>_. J) E \<Longrightarrow> keeps P J n R E \<Longrightarrow> keeps P I (act_then m n) R E"
  unfolding act_then_def by (rule keeps_bind)

lemma keeps_catch:
  assumes "keeps P I m R F" and "\<And>e. keeps P F (f e) R E"
  shows "keeps P I (act_catch m f) R E"
  by (rule keepsI) (auto simp: wp_catch intro!: keeps_use [OF assms(1)] keepsD [OF assms(2)])

lemma keeps_return: "(\<And>h s. I h s \<Longrightarrow> R x h s) \<Longrightarrow> keeps P I (act_return x) R E"
  by (simp add: keeps_def wp)

lemma keeps_weaken:
  assumes "keeps P J m R E" and "\<And>h s. I h s \<Longrightarrow> J h s" and "\<And>x h s. R x h s \<Longrightarrow> R' x h s" and "\<And>h s. E h s \<Longrightarrow> E' h s"
  shows "keeps P I m R' E'"
  by (rule keepsI) (auto intro: keeps_use [OF assms(1)] assms(2-4))

subsection \<open>Loops\<close>

lemma keeps_for:
  assumes "\<And>x. x \<in> set xs \<Longrightarrow> keeps P I (f x) (\<lambda>_. I) E"
  shows "keeps P I (act_for f xs) (\<lambda>_. I) E"
  using assms by (induction xs) (auto intro: keeps_return keeps_then)

text \<open>Loops that gather a fact for each element.\<close>

lemma keeps_for_all:
  assumes "\<And>A x. x \<in> set xs \<Longrightarrow> keeps P (\<lambda>h s. I h s \<and> (\<forall>y\<in>A. D y h s)) (f x) (\<lambda>_ h s. I h s \<and> (\<forall>y\<in>insert x A. D y h s)) E"
  shows "keeps P (\<lambda>h s. I h s \<and> (\<forall>y\<in>A. D y h s)) (act_for f xs) (\<lambda>_ h s. I h s \<and> (\<forall>y\<in>A \<union> set xs. D y h s)) E"
  using assms
proof (induction xs arbitrary: A)
  case (Cons x xs)
  have "keeps P (\<lambda>h s. I h s \<and> (\<forall>y\<in>insert x A. D y h s)) (act_for f xs)
      (\<lambda>_ h s. I h s \<and> (\<forall>y\<in>insert x A \<union> set xs. D y h s)) E"
    by (rule Cons.IH) (use Cons.prems in auto)
  then show ?case using Cons.prems [of x A] by (auto intro!: keeps_then)
qed (simp add: keeps_return)

lemma keeps_map_all:
  assumes "\<And>A x. x \<in> set xs \<Longrightarrow> keeps P (\<lambda>h s. I h s \<and> (\<forall>y\<in>A. D y h s)) (f x) (\<lambda>_ h s. I h s \<and> (\<forall>y\<in>insert x A. D y h s)) E"
  shows "keeps P (\<lambda>h s. I h s \<and> (\<forall>y\<in>A. D y h s)) (act_map f xs) (\<lambda>_ h s. I h s \<and> (\<forall>y\<in>A \<union> set xs. D y h s)) E"
  using assms
proof (induction xs arbitrary: A)
  case (Cons x xs)
  have "keeps P (\<lambda>h s. I h s \<and> (\<forall>y\<in>insert x A. D y h s)) (act_map f xs)
      (\<lambda>_ h s. I h s \<and> (\<forall>y\<in>insert x A \<union> set xs. D y h s)) E"
    by (rule Cons.IH) (use Cons.prems in auto)
  then show ?case using Cons.prems [of x A] by (auto intro!: keeps_bind keeps_return)
qed (simp add: keeps_return)

end
