(* ===== verification/BundleImport.thy ===== *)
theory BundleImport
  imports ClientProgram
begin

text \<open>
  The importer of dashboard bundles (\<open>ui/src/features/insights/bundle-import.ts\<close>): a review loads the saved
  documents, and an import writes saved queries and dashboards one by one, each write conditional on the
  revision that was reviewed, with sessions that remember what an interrupted import has done.

  The variables of one call are a record beside the session object; random identifiers are taken from a
  sequence, by a counter. The error of a rejected call is its message.
\<close>

section \<open>Requests, sessions and results\<close>

datatype import_choice = Keep | Replace | Copy | Reuse | Unknown_choice string

record BundleImportRequest =
  rq_sessionId :: string
  rq_bundle :: DashboardBundle
  rq_providerMapping :: "(string, string) js_map"
  rq_queryChoices :: "(string, import_choice) js_map"
  rq_dashboardChoices :: "(string, import_choice) js_map option"
  rq_dashboardBaselines :: "(string, ImportBaseline) js_map option"
  rq_queryBaselines :: "(string, ImportBaseline) js_map option"

datatype import_error =
    Client_failed string
  | Bundle_failed bundle_error
  | Import_running
  | Review_again
  | Document_changed
  | Invalid_dashboard_action
  | Destinations_fixed
  | Workspace_full
  | Dashboard_changed string
  | Dashboard_unsaved string
  | Query_changed string
  | Query_unsaved string
  | Incompatible issue_reason
  | Invalid_query_action
  | Source_or_kind_changed
  | Query_conflict string
  | Query_gone string
  | Query_changed_during string
  | Query_source string

record BundleImportResult =
  br_added :: nat
  br_totalAdded :: nat
  br_failed :: "Dashboard list"
  br_errors :: "(string \<times> import_error) list"
  br_queriesAdded :: nat
  br_queriesReused :: nat
  br_dashboardsKept :: nat
  br_dashboardsReplaced :: nat
  br_queriesReplaced :: nat
  br_dashboardTargetsLocked :: "bool option"
  br_complete :: bool

record ImportSession =
  im_source :: string
  im_dashboardIds :: "(string, string) js_map"
  im_dashboardActions :: "(string, import_choice) js_map"
  im_completed :: "string list"
  im_queryCopies :: "(string, string) js_map"
  im_attempted :: "string list"
  im_targetsLocked :: bool

datatype callback = Queries_change "SavedQueryEntry list" | Dashboard_saved Dashboard etag

record BundleImportEnvironment =
  en_providers :: "Provider list"
  en_dashboards :: "Dashboard list"

text \<open>The variables of a running call; \<open>mr_uuids\<close> counts the identifiers drawn.\<close>

record import_run =
  mr_session :: ImportSession
  mr_uuids :: nat
  mr_current :: "SavedQueryEntry list"
  mr_keptQueries :: "(string, SavedQuery) js_map"
  mr_prepared :: "(string, SavedQuery) js_map"
  mr_queryTargets :: "(string, string) js_map"
  mr_queryErrors :: "(string, import_error) js_map"
  mr_result :: BundleImportResult
  mr_callbacks :: "callback list"

type_synonym 'a import_action = "(import_run, import_error, 'a) action"

definition update_session :: "(ImportSession \<Rightarrow> ImportSession) \<Rightarrow> unit import_action" where
  "update_session f = act_update (\<lambda>s. s\<lparr>mr_session := f (mr_session s)\<rparr>)"

definition update_result :: "(BundleImportResult \<Rightarrow> BundleImportResult) \<Rightarrow> unit import_action" where
  "update_result f = act_update (\<lambda>s. s\<lparr>mr_result := f (mr_result s)\<rparr>)"

text \<open>The callbacks of the environment are those of the page and do not throw.\<close>

definition call_back :: "callback \<Rightarrow> unit import_action" where
  "call_back c = act_update (\<lambda>s. s\<lparr>mr_callbacks := mr_callbacks s @ [c]\<rparr>)"

definition lift_bundle :: "bundle_error + 'a \<Rightarrow> 'a import_action" where
  "lift_bundle = act_lift Bundle_failed"

definition throw_some :: "import_error option \<Rightarrow> unit import_action" where
  "throw_some e = (case e of Some e' \<Rightarrow> act_throw e' | None \<Rightarrow> act_return ())"

text \<open>The calls of the client.\<close>

definition answered :: "string + 'a \<Rightarrow> import_error + 'a" where
  "answered r = (case r of Inl m \<Rightarrow> Inl (Client_failed m) | Inr x \<Rightarrow> Inr x)"

definition client_list :: "Dashboard list import_action" where
  "client_list = (\<lambda>s. List_dashboards (\<lambda>r. Done (answered r, s)))"

definition client_listSavedQueries :: "SavedQueryEntry list import_action" where
  "client_listSavedQueries = (\<lambda>s. List_queries (\<lambda>r. Done (answered r, s)))"

definition client_get :: "string \<Rightarrow> (Dashboard \<times> etag) import_action" where
  "client_get i = (\<lambda>s. Get_dashboard i (\<lambda>r. Done (answered r, s)))"

definition client_getSavedQuery :: "string \<Rightarrow> (SavedQuery \<times> etag) import_action" where
  "client_getSavedQuery i = (\<lambda>s. Get_query i (\<lambda>r. Done (answered r, s)))"

definition client_save :: "Dashboard \<Rightarrow> etag \<Rightarrow> etag import_action" where
  "client_save d t = (\<lambda>s. Save_dashboard d t (\<lambda>r. Done (answered r, s)))"

definition client_saveSavedQuery :: "SavedQuery \<Rightarrow> etag \<Rightarrow> etag import_action" where
  "client_saveSavedQuery q t = (\<lambda>s. Save_query q t (\<lambda>r. Done (answered r, s)))"

text \<open>\<open>checkBaseline\<close>, with the two errors it throws.\<close>

definition checkBaseline ::
    "import_error \<Rightarrow> import_error \<Rightarrow> string \<Rightarrow> etag \<Rightarrow> ImportBaseline option \<Rightarrow> bool \<Rightarrow> import_error option" where
  "checkBaseline changed unsaved fingerprint tag baseline replacing =
     (case baseline of
        None \<Rightarrow> Some changed
      | Some b \<Rightarrow>
          if ib_fingerprint b \<noteq> Some fingerprint \<or> ib_etag b \<noteq> None \<and> ib_etag b \<noteq> tag then Some changed
          else if replacing \<and> (present_text (ib_etag b) = None \<or> present_text tag = None) then Some unsaved
          else None)"

definition baseline_of :: "(string, ImportBaseline) js_map option \<Rightarrow> string \<Rightarrow> ImportBaseline option" where
  "baseline_of baselines i = (case baselines of Some m \<Rightarrow> js_map_get m i | None \<Rightarrow> None)"

definition referencedQueries :: "Dashboard \<Rightarrow> string list" where
  "referencedQueries d = js_set (concat (map (\<lambda>w.
     (case wi_queryRef w of Some r \<Rightarrow> [sr_id r] | None \<Rightarrow> []) @
     (case wi_annotationSource w of Some a \<Rightarrow> [sr_id (an_queryRef a)] | None \<Rightarrow> []) @
     (case Option.bind (tooltip_view w) tv_source of Some (Tooltip_saved r) \<Rightarrow> [sr_id r] | _ \<Rightarrow> [])) (da_widgets d)))"

section \<open>Reviews\<close>

record BundleImportReview =
  rv_dashboards :: "(Dashboard \<times> etag) list"
  rv_queries :: "(SavedQuery \<times> etag) list"

text \<open>
  \<open>loadBundleImportReview\<close>. \<open>Promise.all\<close> rejects when one of its promises does; the order in which the
  reads are answered does not matter to the result.
\<close>

definition loadBundleImportReview :: "DashboardBundle \<Rightarrow> BundleImportReview import_action" where
  "loadBundleImportReview b =
     (let usesLibrary = list_ex (\<lambda>d. referencedQueries d \<noteq> []) (db_dashboards b);
          importedIds = map da_id (db_dashboards b) in
      act_bind client_list (\<lambda>documents.
      act_bind (if usesLibrary then client_listSavedQueries else act_return []) (\<lambda>queries.
      act_bind (act_map (\<lambda>d. if da_id d \<in> set importedIds then client_get (da_id d) else act_return (d, None)) documents) (\<lambda>dashboards.
      act_return \<lparr>rv_dashboards = dashboards, rv_queries = queries\<rparr>))))"

section \<open>Destinations\<close>

text \<open>The first loop of an import: every dashboard not yet completed gets its action and its destination.\<close>

definition dashboard_choice :: "BundleImportRequest \<Rightarrow> string \<Rightarrow> import_choice" where
  "dashboard_choice req i =
     (case Option.bind (rq_dashboardChoices req) (\<lambda>m. js_map_get m i) of Some a \<Rightarrow> a | None \<Rightarrow> Copy)"

definition assign_destination :: "(nat \<Rightarrow> string) \<Rightarrow> BundleImportRequest \<Rightarrow> Dashboard \<Rightarrow> unit import_action" where
  "assign_destination uuid req document =
     act_bind (act_read (\<lambda>s. (mr_session s, mr_uuids s))) (\<lambda>(session, n).
     let i = da_id document; action = dashboard_choice req i; previous = js_map_get (im_dashboardActions session) i in
     if i \<in> set (im_completed session) then act_return ()
     else if action \<notin> {Keep, Replace, Copy} then act_throw Invalid_dashboard_action
     else if im_targetsLocked session \<and> previous \<noteq> None \<and> (previous = Some Copy) \<noteq> (action = Copy) then act_throw Destinations_fixed
     else
       act_then
         (if js_map_get (im_dashboardIds session) i = None \<or> (previous = Some Copy) \<noteq> (action = Copy)
          then if action = Copy
            then act_update (\<lambda>s. s\<lparr>mr_uuids := Suc n,
                   mr_session := session\<lparr>im_dashboardIds := js_map_set i (''dashboard-'' @ uuid n) (im_dashboardIds session)\<rparr>\<rparr>)
            else update_session (\<lambda>ses. ses\<lparr>im_dashboardIds := js_map_set i i (im_dashboardIds ses)\<rparr>)
          else act_return ())
         (update_session (\<lambda>ses. ses\<lparr>im_dashboardActions := js_map_set i action (im_dashboardActions ses)\<rparr>)))"

text \<open>A stale review of a dashboard fails before anything is written.\<close>

definition dashboard_receipt :: "string \<Rightarrow> string \<Rightarrow> string" where
  "dashboard_receipt i fingerprint = ''dashboard:'' @ i @ '':'' @ fingerprint"

definition session_action :: "string \<Rightarrow> import_choice option import_action" where
  "session_action i = act_read (\<lambda>s. js_map_get (im_dashboardActions (mr_session s)) i)"

definition preflight :: "BundleImportRequest \<Rightarrow> Dashboard \<Rightarrow> unit import_action" where
  "preflight req document =
     (let i = da_id document in
      act_bind (session_action i) (\<lambda>action.
      if action = Some Copy then act_return ()
      else
        act_bind (client_get i) (\<lambda>(fresh, tag).
        act_bind (act_read (\<lambda>s. im_attempted (mr_session s))) (\<lambda>attempted.
        let fingerprint = dashboard_fingerprint fresh in
        if action = Some Replace \<and> dashboard_receipt i fingerprint \<in> set attempted then act_return ()
        else throw_some (checkBaseline (Dashboard_changed (da_title document)) (Dashboard_unsaved (da_title document))
               fingerprint tag (baseline_of (rq_dashboardBaselines req) i) (action = Some Replace))))))"

section \<open>Saved queries\<close>

definition keep_query :: "platform \<Rightarrow> BundleImportRequest \<Rightarrow> Dashboard list \<Rightarrow> SavedQuery \<Rightarrow> unit import_action" where
  "keep_query p req dashboards query =
     (if js_map_get (rq_queryChoices req) (sq_id query) \<noteq> Some Keep then act_return ()
      else
        act_bind (client_getSavedQuery (sq_id query)) (\<lambda>(fresh, tag).
        act_bind (lift_bundle (savedQueryFingerprint p fresh)) (\<lambda>fingerprint.
        act_then (throw_some (checkBaseline (Query_changed (sq_name query)) (Query_unsaved (sq_name query))
            fingerprint tag (baseline_of (rq_queryBaselines req) (sq_id query)) False))
        (act_bind (lift_bundle (checked_compatibility p fresh dashboards None)) (\<lambda>compatibility.
        if \<not> ic_compatible compatibility then act_throw (Incompatible (ci_reason (hd (ic_issues compatibility))))
        else act_update (\<lambda>s. s\<lparr>mr_keptQueries := js_map_set (sq_id query) fresh (mr_keptQueries s)\<rparr>))))))"

text \<open>\<open>publish\<close>: an empty tag is dropped.\<close>

definition publish_query :: "SavedQuery \<Rightarrow> etag \<Rightarrow> unit import_action" where
  "publish_query query tag =
     act_then (act_update (\<lambda>s. s\<lparr>mr_current :=
         filter (\<lambda>(q, t). sq_id q \<noteq> sq_id query) (mr_current s) @ [(query, present_text tag)]\<rparr>))
     (act_bind (act_read mr_current) (\<lambda>current. call_back (Queries_change current)))"

text \<open>A write whose answer was lost is looked up: the document as written confirms it.\<close>

definition save_query_confirmed :: "platform \<Rightarrow> SavedQuery \<Rightarrow> etag \<Rightarrow> string \<Rightarrow> etag import_action" where
  "save_query_confirmed p target tag fingerprint =
     act_catch (client_saveSavedQuery target tag) (\<lambda>writeError.
       act_bind (act_catch (client_getSavedQuery (sq_id target)) (\<lambda>_. act_throw writeError)) (\<lambda>(confirmed, tag').
       act_bind (lift_bundle (savedQueryFingerprint p confirmed)) (\<lambda>found.
       if found \<noteq> fingerprint then act_throw writeError else act_return tag')))"

definition query_receipt :: "string \<Rightarrow> string \<Rightarrow> string" where
  "query_receipt i fingerprint = ''query:'' @ i @ '':'' @ fingerprint"

definition attempt :: "string \<Rightarrow> unit import_action" where
  "attempt receipt = update_session (\<lambda>ses. ses\<lparr>im_attempted := js_set_add (im_attempted ses) receipt\<rparr>)"

text \<open>The branch of the action Replace.\<close>

definition replace_query ::
    "platform \<Rightarrow> BundleImportRequest \<Rightarrow> Dashboard list \<Rightarrow> SavedQuery \<Rightarrow> SavedQuery \<Rightarrow> string \<Rightarrow> unit import_action" where
  "replace_query p req destinations query target targetFingerprint =
     act_bind (client_getSavedQuery (sq_id target)) (\<lambda>(fresh, tag).
     act_bind (act_read (\<lambda>s. im_attempted (mr_session s))) (\<lambda>attempted.
     let receipt = query_receipt (sq_id target) targetFingerprint in
     act_bind (lift_bundle (savedQueryFingerprint p fresh)) (\<lambda>found.
     if receipt \<in> set attempted \<and> found = targetFingerprint
     then act_then (publish_query fresh tag) (update_result (\<lambda>r. r\<lparr>br_queriesReused := Suc (br_queriesReused r)\<rparr>))
     else
       act_then (throw_some (checkBaseline (Query_changed (sq_name query)) (Query_unsaved (sq_name query))
           found tag (baseline_of (rq_queryBaselines req) (sq_id query)) True))
       (if sq_providerId fresh \<noteq> sq_providerId target \<or> sq_kind fresh \<noteq> sq_kind target then act_throw Source_or_kind_changed
        else
          act_bind (lift_bundle (checked_compatibility p target destinations (Some fresh))) (\<lambda>compatibility.
          if \<not> ic_compatible compatibility then act_throw (Incompatible (ci_reason (hd (ic_issues compatibility))))
          else
            act_then (attempt receipt)
            (act_bind (save_query_confirmed p target tag targetFingerprint) (\<lambda>tag'.
            act_then (publish_query target tag')
            (update_result (\<lambda>r. r\<lparr>br_queriesReplaced := Suc (br_queriesReplaced r)\<rparr>)))))))))"

definition reuse_query :: "platform \<Rightarrow> SavedQuery \<Rightarrow> string \<Rightarrow> unit import_action" where
  "reuse_query p target targetFingerprint =
     act_bind (client_getSavedQuery (sq_id target)) (\<lambda>(fresh, tag).
     act_bind (lift_bundle (savedQueryFingerprint p fresh)) (\<lambda>found.
     if found \<noteq> targetFingerprint then act_throw (Query_changed (sq_id target))
     else act_then (publish_query fresh tag) (update_result (\<lambda>r. r\<lparr>br_queriesReused := Suc (br_queriesReused r)\<rparr>))))"

definition create_query ::
    "platform \<Rightarrow> import_choice option \<Rightarrow> import_status \<Rightarrow> SavedQuery \<Rightarrow> SavedQuery \<Rightarrow> string \<Rightarrow> unit import_action" where
  "create_query p action status query target targetFingerprint =
     (if status = Status_conflict then act_throw (Query_conflict (sq_id query))
      else if action = Some Reuse \<or> action = Some Keep then act_throw (Query_gone (sq_id query))
      else
        act_bind (save_query_confirmed p target None targetFingerprint) (\<lambda>tag.
        act_then (publish_query target tag)
        (update_result (\<lambda>r. r\<lparr>br_queriesAdded := Suc (br_queriesAdded r)\<rparr>))))"

text \<open>The copy of a query keeps its identifier across retries.\<close>

definition copy_target :: "platform \<Rightarrow> (nat \<Rightarrow> string) \<Rightarrow> SavedQuery \<Rightarrow> SavedQuery import_action" where
  "copy_target p uuid query =
     act_bind (lift_bundle (savedQueryFingerprint p query)) (\<lambda>fingerprint.
     act_bind (act_read (\<lambda>s. (mr_session s, mr_uuids s))) (\<lambda>(session, n).
     let key = sq_id query @ '':'' @ fingerprint in
     case Option.bind (js_map_get (im_queryCopies session) key) (\<lambda>i. if i = [] then None else Some i) of
       Some i \<Rightarrow> act_return (query\<lparr>sq_id := i\<rparr>)
     | None \<Rightarrow>
         act_then (act_update (\<lambda>s. s\<lparr>mr_uuids := Suc n,
             mr_session := session\<lparr>im_queryCopies := js_map_set key (''query-'' @ uuid n) (im_queryCopies session)\<rparr>\<rparr>))
         (act_return (query\<lparr>sq_id := ''query-'' @ uuid n\<rparr>))))"

definition settle_query ::
    "platform \<Rightarrow> BundleImportRequest \<Rightarrow> Dashboard list \<Rightarrow> import_choice option \<Rightarrow> SavedQuery \<Rightarrow> SavedQuery \<Rightarrow> unit import_action" where
  "settle_query p req destinations action query target =
     act_then (act_update (\<lambda>s. s\<lparr>mr_queryTargets := js_map_set (sq_id query) (sq_id target) (mr_queryTargets s)\<rparr>))
     (act_bind (lift_bundle (savedQueryFingerprint p target)) (\<lambda>targetFingerprint.
     act_bind (act_read mr_current) (\<lambda>current.
     act_bind (lift_bundle (queryImportStatus p target (map fst current))) (\<lambda>status.
     act_then
       (if action = Some Replace then replace_query p req destinations query target targetFingerprint
        else if status = Status_identical then reuse_query p target targetFingerprint
        else create_query p action status query target targetFingerprint)
     (act_update (\<lambda>s. s\<lparr>mr_prepared := js_map_set (sq_id target) target (mr_prepared s)\<rparr>))))))"

definition prepare_query ::
    "platform \<Rightarrow> (nat \<Rightarrow> string) \<Rightarrow> BundleImportRequest \<Rightarrow> Dashboard list \<Rightarrow> SavedQuery \<Rightarrow> unit import_action" where
  "prepare_query p uuid req destinations query =
     (let action = js_map_get (rq_queryChoices req) (sq_id query) in
      act_catch
        (act_then (if action \<notin> {None, Some Copy, Some Reuse, Some Keep, Some Replace} then act_throw Invalid_query_action else act_return ())
        (act_bind (if action = Some Copy then copy_target p uuid query else act_return query)
          (settle_query p req destinations action query)))
        (\<lambda>e. act_then (act_update (\<lambda>s. s\<lparr>mr_queryErrors := js_map_set (sq_id query) e (mr_queryErrors s)\<rparr>))
           (update_result (\<lambda>r. r\<lparr>br_errors := br_errors r @ [(sq_name query, e)]\<rparr>))))"

section \<open>Dashboards\<close>

text \<open>A referenced definition is read again and is the one that was prepared.\<close>

definition verify_query :: "platform \<Rightarrow> BundleImportEnvironment \<Rightarrow> string \<Rightarrow> SavedQuery import_action" where
  "verify_query p env i =
     act_bind (client_getSavedQuery i) (\<lambda>(fresh, tag).
     act_bind (act_read (\<lambda>s. case js_map_get (mr_prepared s) i of
         Some q \<Rightarrow> Some q
       | None \<Rightarrow> map_option fst (List.find (\<lambda>(q, t). sq_id q = i) (mr_current s)))) (\<lambda>expected.
     case expected of
       None \<Rightarrow> act_throw (Query_changed_during i)
     | Some e \<Rightarrow>
         act_bind (lift_bundle (savedQueryFingerprint p fresh)) (\<lambda>found.
         act_bind (lift_bundle (savedQueryFingerprint p e)) (\<lambda>wanted.
         if found \<noteq> wanted then act_throw (Query_changed_during i)
         else if \<not> provides (en_providers env) fresh then act_throw (Query_source (sq_name fresh))
         else act_return fresh))))"

definition retarget :: "(string, string) js_map \<Rightarrow> string \<Rightarrow> Dashboard \<Rightarrow> Dashboard" where
  "retarget dashboardIds i resolved =
     resolved\<lparr>da_id := mappedId dashboardIds i,
       da_widgets := map (\<lambda>w. w\<lparr>wi_drilldowns := map_option (map (\<lambda>link.
           link\<lparr>dd_dashboardId := mappedId dashboardIds (dd_dashboardId link)\<rparr>)) (wi_drilldowns w)\<rparr>) (da_widgets resolved)\<rparr>"

definition save_dashboard_confirmed :: "Dashboard \<Rightarrow> etag \<Rightarrow> string \<Rightarrow> etag import_action" where
  "save_dashboard_confirmed target tag fingerprint =
     act_catch (client_save target tag) (\<lambda>writeError.
       act_bind (act_catch (client_get (da_id target)) (\<lambda>_. act_throw writeError)) (\<lambda>(confirmed, tag').
       if dashboard_fingerprint confirmed \<noteq> fingerprint then act_throw writeError else act_return tag'))"

text \<open>The revision to write over, and whether the document is there already.\<close>

definition replaced_revision ::
    "BundleImportRequest \<Rightarrow> Dashboard \<Rightarrow> Dashboard \<Rightarrow> string \<Rightarrow> (etag \<times> bool) import_action" where
  "replaced_revision req document target fingerprint =
     act_bind (client_get (da_id target)) (\<lambda>(fresh, tag).
     act_bind (act_read (\<lambda>s. im_attempted (mr_session s))) (\<lambda>attempted.
     if dashboard_receipt (da_id target) fingerprint \<in> set attempted \<and> dashboard_fingerprint fresh = fingerprint
     then act_return (tag, True)
     else
       act_then (throw_some (checkBaseline (Dashboard_changed (da_title document)) (Dashboard_unsaved (da_title document))
           (dashboard_fingerprint fresh) tag (baseline_of (rq_dashboardBaselines req) (da_id document)) True))
       (act_return (tag, False))))"

definition resolve_dashboard :: "platform \<Rightarrow> BundleImportEnvironment \<Rightarrow> DashboardBundle \<Rightarrow> Dashboard \<Rightarrow> Dashboard import_action" where
  "resolve_dashboard p env mapped document =
     act_bind (act_read mr_queryTargets) (\<lambda>targets.
     act_bind (lift_bundle (selectBundleDashboards p mapped [da_id document])) (\<lambda>selected.
     act_bind (lift_bundle (remapBundleQueryReferences p selected targets)) (\<lambda>remapped.
     let resolved = hd (db_dashboards remapped) in
     act_bind (act_map (verify_query p env) (referencedQueries resolved)) (\<lambda>verified.
     act_bind (lift_bundle (buildDashboardBundle p [resolved] verified)) (\<lambda>_.
     act_return resolved)))))"

text \<open>The write itself, unless the document is there already, and the marks of its success.\<close>

definition complete_write :: "Dashboard \<Rightarrow> import_choice option \<Rightarrow> Dashboard \<Rightarrow> etag \<Rightarrow> bool \<Rightarrow> unit import_action" where
  "complete_write document action target tag confirmed =
     (let fingerprint = dashboard_fingerprint target in
      act_bind
        (if confirmed then act_return tag
         else act_then (attempt (dashboard_receipt (da_id target) fingerprint))
              (act_then (update_session (\<lambda>ses. ses\<lparr>im_targetsLocked := True\<rparr>))
              (save_dashboard_confirmed target tag fingerprint))) (\<lambda>tag'.
      act_then (update_session (\<lambda>ses. ses\<lparr>im_completed := js_set_add (im_completed ses) (da_id document)\<rparr>))
      (act_then (update_result (\<lambda>r. if action = Some Replace then r\<lparr>br_dashboardsReplaced := Suc (br_dashboardsReplaced r)\<rparr>
          else r\<lparr>br_added := Suc (br_added r)\<rparr>))
      (call_back (Dashboard_saved target tag')))))"

definition commit_dashboard :: "BundleImportRequest \<Rightarrow> Dashboard \<Rightarrow> import_choice option \<Rightarrow> Dashboard \<Rightarrow> unit import_action" where
  "commit_dashboard req document action target =
     act_bind (if action = Some Replace then replaced_revision req document target (dashboard_fingerprint target)
         else act_return (None, False)) (\<lambda>(tag, confirmed).
     complete_write document action target tag confirmed)"

definition write_dashboard ::
    "platform \<Rightarrow> BundleImportRequest \<Rightarrow> BundleImportEnvironment \<Rightarrow> DashboardBundle \<Rightarrow> Dashboard \<Rightarrow> unit import_action" where
  "write_dashboard p req env mapped document =
     act_bind (resolve_dashboard p env mapped document) (\<lambda>resolved.
     act_bind (act_read mr_session) (\<lambda>session.
     case dashboardSchema p (retarget (im_dashboardIds session) (da_id document) resolved) of
       None \<Rightarrow> act_throw (Bundle_failed Invalid_dashboard)
     | Some target \<Rightarrow> commit_dashboard req document (js_map_get (im_dashboardActions session) (da_id document)) target))"

definition import_dashboard ::
    "platform \<Rightarrow> BundleImportRequest \<Rightarrow> BundleImportEnvironment \<Rightarrow> DashboardBundle \<Rightarrow> Dashboard \<Rightarrow> unit import_action" where
  "import_dashboard p req env mapped document =
     act_bind (act_read mr_queryErrors) (\<lambda>queryErrors.
     if list_ex (\<lambda>i. js_map_get queryErrors i \<noteq> None) (referencedQueries document) then act_return ()
     else act_catch (write_dashboard p req env mapped document)
       (\<lambda>e. update_result (\<lambda>r. r\<lparr>br_errors := br_errors r @ [(da_title document, e)]\<rparr>)))"

section \<open>Imports\<close>

definition import_active ::
    "platform \<Rightarrow> (nat \<Rightarrow> string) \<Rightarrow> BundleImportRequest \<Rightarrow> BundleImportEnvironment \<Rightarrow> DashboardBundle \<Rightarrow> Dashboard list \<Rightarrow>
     Dashboard list \<Rightarrow> unit import_action" where
  "import_active p uuid req env original destinations active =
     act_bind (lift_bundle (selectBundleDashboards p original (map da_id active))) (\<lambda>selected.
     let usesLibrary = list_ex (\<lambda>d. referencedQueries d \<noteq> []) (db_dashboards selected) in
     act_bind (if usesLibrary then client_listSavedQueries else act_return []) (\<lambda>current.
     act_then (act_update (\<lambda>s. s\<lparr>mr_current := current\<rparr>))
     (act_then (if usesLibrary then call_back (Queries_change current) else act_return ())
     (act_then (act_for (keep_query p req (db_dashboards selected)) (list_of (db_savedQueries selected)))
     (act_bind (act_read mr_keptQueries) (\<lambda>kept.
     act_bind (lift_bundle (remapImportBundle p selected (rq_providerMapping req) (en_providers env) kept)) (\<lambda>mapped.
     act_then (act_for (prepare_query p uuid req destinations) (list_of (db_savedQueries mapped)))
     (act_for (import_dashboard p req env mapped) (db_dashboards mapped)))))))))"

definition mark_kept :: "Dashboard \<Rightarrow> unit import_action" where
  "mark_kept document =
     act_bind (session_action (da_id document)) (\<lambda>action.
     if action \<noteq> Some Keep then act_return ()
     else act_then (update_session (\<lambda>ses. ses\<lparr>im_completed := js_set_add (im_completed ses) (da_id document)\<rparr>))
       (update_result (\<lambda>r. r\<lparr>br_dashboardsKept := Suc (br_dashboardsKept r)\<rparr>)))"

text \<open>The counts and lists that the result takes from the session.\<close>

definition conclude :: "DashboardBundle \<Rightarrow> BundleImportResult import_action" where
  "conclude original =
     act_bind (act_read (\<lambda>s. (mr_session s, mr_result s))) (\<lambda>(session, result).
     let failed = filter (\<lambda>d. da_id d \<notin> set (im_completed session)) (db_dashboards original) in
     act_return (result\<lparr>br_totalAdded := length (im_completed session), br_failed := failed, br_complete := (failed = []),
       br_dashboardTargetsLocked := Some (im_targetsLocked session)\<rparr>))"

definition import_pending ::
    "platform \<Rightarrow> (nat \<Rightarrow> string) \<Rightarrow> BundleImportRequest \<Rightarrow> BundleImportEnvironment \<Rightarrow> DashboardBundle \<Rightarrow> Dashboard list \<Rightarrow>
     BundleImportResult import_action" where
  "import_pending p uuid req env original pending =
     act_bind client_list (\<lambda>destinations.
     act_bind (act_read mr_session) (\<lambda>session.
     let action = (\<lambda>d. js_map_get (im_dashboardActions session) (da_id d));
         newCount = length (filter (\<lambda>d. action d = Some Copy \<and>
           \<not> list_ex (\<lambda>item. Some (da_id item) = js_map_get (im_dashboardIds session) (da_id d)) destinations) pending);
         active = filter (\<lambda>d. action d \<noteq> Some Keep) pending in
     if 100 < max (length destinations) (length (en_dashboards env)) + newCount then act_throw Workspace_full
     else
       act_then (act_for (preflight req) pending)
       (act_then (if active = [] then act_return () else import_active p uuid req env original destinations active)
       (act_then (act_for mark_kept pending)
       (conclude original)))))"

definition import_body ::
    "platform \<Rightarrow> (nat \<Rightarrow> string) \<Rightarrow> BundleImportRequest \<Rightarrow> BundleImportEnvironment \<Rightarrow> DashboardBundle \<Rightarrow>
     BundleImportResult import_action" where
  "import_body p uuid req env original =
     act_then (act_for (assign_destination uuid req) (db_dashboards original))
     (act_bind (act_read (\<lambda>s. im_completed (mr_session s))) (\<lambda>completed.
     let pending = filter (\<lambda>d. da_id d \<notin> set completed) (db_dashboards original);
         result = \<lparr>br_added = 0, br_totalAdded = length completed, br_failed = pending, br_errors = [], br_queriesAdded = 0,
           br_queriesReused = 0, br_dashboardsKept = 0, br_dashboardsReplaced = 0, br_queriesReplaced = 0,
           br_dashboardTargetsLocked = None, br_complete = (pending = [])\<rparr> in
     act_then (update_result (\<lambda>_. result))
     (if pending = [] then act_return result else import_pending p uuid req env original pending)))"

text \<open>The importer that \<open>createBundleImporter\<close> makes: its sessions, oldest first, and whether an import runs.\<close>

record importer =
  ip_sessions :: "(string, ImportSession) js_map"
  ip_running :: bool
  ip_uuids :: nat

definition new_importer :: importer where
  "new_importer = \<lparr>ip_sessions = [], ip_running = False, ip_uuids = 0\<rparr>"

fun evict_sessions :: "(string, ImportSession) js_map \<Rightarrow> (string, ImportSession) js_map" where
  "evict_sessions sessions = (if 8 < length sessions then evict_sessions (tl sessions) else sessions)"

declare evict_sessions.simps [simp del]

definition new_session :: "string \<Rightarrow> ImportSession" where
  "new_session source = \<lparr>im_source = source, im_dashboardIds = [], im_dashboardActions = [], im_completed = [],
     im_queryCopies = [], im_attempted = [], im_targetsLocked = False\<rparr>"

text \<open>
  The checks before the session is used: the session to continue, the checked bundle, and the sessions with
  a new one added. A call while an import runs is refused before it looks at anything, so the sessions of
  a running import are its own until it ends. The text is one that \<open>JSON.stringify\<close> has just printed, so \<open>JSON.parse\<close>
  gives back the value it was printed from.
\<close>

definition open_session ::
    "platform \<Rightarrow> BundleImportRequest \<Rightarrow> importer \<Rightarrow> import_error + (DashboardBundle \<times> ImportSession \<times> (string, ImportSession) js_map)" where
  "open_session p req imp =
     (if ip_running imp then Inl Import_running
      else if rq_sessionId req = [] \<or> 128 < length (rq_sessionId req) then Inl Review_again
      else
        and_then (map_error Bundle_failed (serializeDashboardBundle p (rq_bundle req))) (\<lambda>source.
        and_then (map_error Bundle_failed (and_then (checkedBundle p (rq_bundle req)) (\<lambda>checked.
          parseDashboardBundle p (\<lambda>_. Inr (printed_value checked)) source))) (\<lambda>original.
        case js_map_get (ip_sessions imp) (rq_sessionId req) of
          Some session \<Rightarrow>
            if im_source session \<noteq> source then Inl Document_changed else Inr (original, session, ip_sessions imp)
        | None \<Rightarrow>
            Inr (original, new_session source, evict_sessions (js_map_set (rq_sessionId req) (new_session source) (ip_sessions imp))))))"

definition start_run :: "ImportSession \<Rightarrow> nat \<Rightarrow> import_run" where
  "start_run session n =
     \<lparr>mr_session = session, mr_uuids = n, mr_current = [], mr_keptQueries = [], mr_prepared = [], mr_queryTargets = [],
      mr_queryErrors = [], mr_result = \<lparr>br_added = 0, br_totalAdded = 0, br_failed = [], br_errors = [], br_queriesAdded = 0,
        br_queriesReused = 0, br_dashboardsKept = 0, br_dashboardsReplaced = 0, br_queriesReplaced = 0,
        br_dashboardTargetsLocked = None, br_complete = False\<rparr>, mr_callbacks = []\<rparr>"

definition importBundle ::
    "platform \<Rightarrow> (nat \<Rightarrow> string) \<Rightarrow> BundleImportRequest \<Rightarrow> BundleImportEnvironment \<Rightarrow> importer \<Rightarrow>
     ((import_error + BundleImportResult) \<times> importer \<times> callback list) prog" where
  "importBundle p uuid req env imp =
     (case open_session p req imp of
        Inl e \<Rightarrow> Done (Inl e, imp, [])
      | Inr (original, session, sessions) \<Rightarrow>
          prog_bind (import_body p uuid req env original (start_run session (ip_uuids imp))) (\<lambda>(r, s).
            Done (r, \<lparr>ip_sessions = js_map_set (rq_sessionId req) (mr_session s) sessions, ip_running = False,
              ip_uuids = mr_uuids s\<rparr>, mr_callbacks s)))"

end
