(* ===== verification/ImportLaws.thy ===== *)
theory ImportLaws
  imports BundleImport
begin

text \<open>
  The laws of the importer, for every answer the server may give and whatever others write to the
  workspace meanwhile: nothing is written before every reviewed dashboard was read again and found
  unchanged; a write over a document carries the revision that was reviewed, which the read just before
  it returned; every other write creates a document under a new identifier; a dashboard is written only
  after the definitions it refers to were read again; and a dashboard counts as done only when the server
  has shown it.
\<close>

section \<open>Sessions\<close>

definition fresh_dashboard :: "(nat \<Rightarrow> string) \<Rightarrow> string \<Rightarrow> bool" where
  "fresh_dashboard uuid i \<longleftrightarrow> (\<exists>n. i = ''dashboard-'' @ uuid n)"

definition fresh_query :: "(nat \<Rightarrow> string) \<Rightarrow> string \<Rightarrow> bool" where
  "fresh_query uuid i \<longleftrightarrow> (\<exists>n. i = ''query-'' @ uuid n)"

text \<open>A copy goes to a new identifier, every other action to the document itself.\<close>

definition destination_ok :: "(nat \<Rightarrow> string) \<Rightarrow> string \<Rightarrow> import_choice option \<Rightarrow> string option \<Rightarrow> bool" where
  "destination_ok uuid i action destination \<longleftrightarrow>
     (case action of
        None \<Rightarrow> destination = None
      | Some a \<Rightarrow> \<exists>j. destination = Some j \<and> (if a = Copy then fresh_dashboard uuid j else j = i))"

definition session_ok :: "(nat \<Rightarrow> string) \<Rightarrow> ImportSession \<Rightarrow> bool" where
  "session_ok uuid ses \<longleftrightarrow>
     (\<forall>i. destination_ok uuid i (js_map_get (im_dashboardActions ses) i) (js_map_get (im_dashboardIds ses) i)) \<and>
     (\<forall>key i. js_map_get (im_queryCopies ses) key = Some i \<longrightarrow> fresh_query uuid i)"

text \<open>
  What a later state of a session keeps: completed dashboards and attempted writes are not forgotten, a copied
  query keeps its identifier, and once a dashboard may have been written no destination changes.
\<close>

definition continues :: "ImportSession \<Rightarrow> ImportSession \<Rightarrow> bool" where
  "continues ses ses' \<longleftrightarrow>
     set (im_completed ses) \<subseteq> set (im_completed ses') \<and> set (im_attempted ses) \<subseteq> set (im_attempted ses') \<and>
     (\<forall>key i. js_map_get (im_queryCopies ses) key = Some i \<longrightarrow> i \<noteq> [] \<longrightarrow> js_map_get (im_queryCopies ses') key = Some i) \<and>
     (im_targetsLocked ses \<longrightarrow> im_targetsLocked ses' \<and>
       (\<forall>i j. js_map_get (im_dashboardIds ses) i = Some j \<longrightarrow> js_map_get (im_dashboardIds ses') i = Some j))"

lemma continues_refl [simp]: "continues ses ses"
  by (simp add: continues_def)

lemma continues_trans: "continues a b \<Longrightarrow> continues b c \<Longrightarrow> continues a c"
  unfolding continues_def by (meson order_trans)

text \<open>At rest, an importer has at most eight sessions, one for each identifier.\<close>

definition importer_ok :: "(nat \<Rightarrow> string) \<Rightarrow> importer \<Rightarrow> bool" where
  "importer_ok uuid imp \<longleftrightarrow>
     \<not> ip_running imp \<and> distinct (map fst (ip_sessions imp)) \<and> length (ip_sessions imp) \<le> 8 \<and>
     (\<forall>(k, ses)\<in>set (ip_sessions imp). session_ok uuid ses)"

section \<open>The rule for writes\<close>

text \<open>What stays fixed during one import.\<close>

record import_case =
  ca_platform :: platform
  ca_uuid :: "nat \<Rightarrow> string"
  ca_request :: BundleImportRequest
  ca_env :: BundleImportEnvironment
  ca_documents :: "Dashboard list"
  ca_session :: ImportSession

abbreviation ca_completed :: "import_case \<Rightarrow> string list" where
  "ca_completed c \<equiv> im_completed (ca_session c)"

abbreviation ca_attempted :: "import_case \<Rightarrow> string list" where
  "ca_attempted c \<equiv> im_attempted (ca_session c)"

definition unchanged_since_review :: "BundleImportRequest \<Rightarrow> string \<Rightarrow> Dashboard \<Rightarrow> etag \<Rightarrow> bool" where
  "unchanged_since_review req i fresh tag \<longleftrightarrow>
     (\<exists>b. baseline_of (rq_dashboardBaselines req) i = Some b \<and> ib_fingerprint b = Some (dashboard_fingerprint fresh) \<and>
       (ib_etag b = None \<or> ib_etag b = tag))"

text \<open>
  Every dashboard that is to be kept or replaced has been read and is the one that was reviewed, or the
  one that an earlier attempt of this session wrote.
\<close>

definition preflighted :: "import_case \<Rightarrow> client_event list \<Rightarrow> bool" where
  "preflighted c h \<longleftrightarrow>
     (\<forall>d\<in>set (ca_documents c).
        da_id d \<notin> set (ca_completed c) \<longrightarrow> dashboard_choice (ca_request c) (da_id d) \<noteq> Copy \<longrightarrow>
        (\<exists>fresh tag. Read_dashboard (da_id d) (Inr (fresh, tag)) \<in> set h \<and>
           (unchanged_since_review (ca_request c) (da_id d) fresh tag \<or>
            dashboard_choice (ca_request c) (da_id d) = Replace \<and>
              dashboard_receipt (da_id d) (dashboard_fingerprint fresh) \<in> set (ca_attempted c))))"

text \<open>The revision \<open>etag\<close> is the one that was reviewed with a document of that fingerprint.\<close>

definition reviewed_revision :: "(string, ImportBaseline) js_map option \<Rightarrow> string \<Rightarrow> string \<Rightarrow> string \<Rightarrow> bool" where
  "reviewed_revision baselines i fingerprint revision \<longleftrightarrow>
     revision \<noteq> [] \<and>
     (\<exists>b. baseline_of baselines i = Some b \<and> ib_fingerprint b = Some fingerprint \<and> ib_etag b = Some revision)"

definition dashboard_write_ok :: "import_case \<Rightarrow> client_event list \<Rightarrow> Dashboard \<Rightarrow> etag \<Rightarrow> bool" where
  "dashboard_write_ok c h d t \<longleftrightarrow>
     (case t of
        None \<Rightarrow> fresh_dashboard (ca_uuid c) (da_id d)
      | Some revision \<Rightarrow>
          (\<exists>fresh. h \<noteq> [] \<and> last h = Read_dashboard (da_id d) (Inr (fresh, Some revision)) \<and>
            reviewed_revision (rq_dashboardBaselines (ca_request c)) (da_id d) (dashboard_fingerprint fresh) revision)) \<and>
     dashboardSchema (ca_platform c) d = Some d \<and>
     (\<forall>i\<in>set (referencedQueries d). \<exists>q tag. Read_query i (Inr (q, tag)) \<in> set h \<and> provides (en_providers (ca_env c)) q)"

definition query_write_ok :: "import_case \<Rightarrow> client_event list \<Rightarrow> SavedQuery \<Rightarrow> etag \<Rightarrow> bool" where
  "query_write_ok c h q t \<longleftrightarrow>
     (case t of
        None \<Rightarrow>
          (js_map_get (rq_queryChoices (ca_request c)) (sq_id q) = None \<or> fresh_query (ca_uuid c) (sq_id q)) \<and>
          (\<forall>entries. Listed_queries (Inr entries) \<in> set h \<longrightarrow> sq_id q \<notin> (\<lambda>(e, tag). sq_id e) ` set entries)
      | Some revision \<Rightarrow>
          (\<exists>fresh fingerprint ds compatibility. h \<noteq> [] \<and> last h = Read_query (sq_id q) (Inr (fresh, Some revision)) \<and>
            savedQueryFingerprint (ca_platform c) fresh = Inr fingerprint \<and>
            reviewed_revision (rq_queryBaselines (ca_request c)) (sq_id q) fingerprint revision \<and>
            sq_providerId fresh = sq_providerId q \<and> sq_kind fresh = sq_kind q \<and>
            Listed (Inr ds) \<in> set h \<and>
            checked_compatibility (ca_platform c) q ds (Some fresh) = Inr compatibility \<and> ic_compatible compatibility))"

definition allowed :: "import_case \<Rightarrow> client_event list \<Rightarrow> client_event \<Rightarrow> bool" where
  "allowed c h e =
     (case e of
        Wrote_dashboard d t r \<Rightarrow> preflighted c h \<and> dashboard_write_ok c h d t
      | Wrote_query q t r \<Rightarrow> preflighted c h \<and> query_write_ok c h q t
      | _ \<Rightarrow> True)"

lemma allowed_reads [simp]:
  "allowed c h (Listed r)" "allowed c h (Listed_queries r')" "allowed c h (Read_dashboard i r'')" "allowed c h (Read_query i r''')"
  by (simp_all add: allowed_def)

section \<open>The invariant\<close>

text \<open>
  The session has attempted to write a document to a destination, and the server has shown it there: it took
  the write, or a read returned a document with its fingerprint.
\<close>

definition shown :: "ImportSession \<Rightarrow> string \<Rightarrow> client_event list \<Rightarrow> bool" where
  "shown ses i h \<longleftrightarrow>
     (\<exists>target. da_id target = i \<and> dashboard_receipt i (dashboard_fingerprint target) \<in> set (im_attempted ses) \<and>
       ((\<exists>t tag. Wrote_dashboard target t (Inr tag) \<in> set h) \<or>
        (\<exists>found tag. Read_dashboard i (Inr (found, tag)) \<in> set h \<and> dashboard_fingerprint found = dashboard_fingerprint target)))"

definition accounted :: "import_case \<Rightarrow> client_event list \<Rightarrow> ImportSession \<Rightarrow> bool" where
  "accounted c h ses \<longleftrightarrow>
     (\<forall>i\<in>set (im_completed ses). i \<in> set (ca_completed c) \<or> dashboard_choice (ca_request c) i = Keep \<or>
        (\<exists>j. js_map_get (im_dashboardIds ses) i = Some j \<and> shown ses j h))"

definition assigned :: "import_case \<Rightarrow> ImportSession \<Rightarrow> bool" where
  "assigned c ses \<longleftrightarrow>
     (\<forall>d\<in>set (ca_documents c). da_id d \<notin> set (ca_completed c) \<longrightarrow>
        js_map_get (im_dashboardActions ses) (da_id d) = Some (dashboard_choice (ca_request c) (da_id d)) \<and>
        dashboard_choice (ca_request c) (da_id d) \<in> {Keep, Replace, Copy})"

text \<open>
  Every dashboard written so far went to the destination that the session has for a document of the bundle, and the
  destinations are locked.
\<close>

definition lodged :: "import_case \<Rightarrow> client_event list \<Rightarrow> ImportSession \<Rightarrow> bool" where
  "lodged c h ses \<longleftrightarrow>
     (\<forall>d t r. Wrote_dashboard d t r \<in> set h \<longrightarrow> im_targetsLocked ses \<and>
        (\<exists>i\<in>da_id ` set (ca_documents c). js_map_get (im_dashboardIds ses) i = Some (da_id d)))"

definition base_inv :: "import_case \<Rightarrow> client_event list \<Rightarrow> import_run \<Rightarrow> bool" where
  "base_inv c h s \<longleftrightarrow>
     session_ok (ca_uuid c) (mr_session s) \<and> continues (ca_session c) (mr_session s) \<and> assigned c (mr_session s) \<and>
     accounted c h (mr_session s) \<and> lodged c h (mr_session s)"

definition failed_inv :: "import_case \<Rightarrow> client_event list \<Rightarrow> import_run \<Rightarrow> bool" where
  "failed_inv c h s \<longleftrightarrow>
     session_ok (ca_uuid c) (mr_session s) \<and> continues (ca_session c) (mr_session s) \<and> lodged c h (mr_session s)"

definition library_known :: "client_event list \<Rightarrow> import_run \<Rightarrow> bool" where
  "library_known h s \<longleftrightarrow>
     (\<forall>entries. Listed_queries (Inr entries) \<in> set h \<longrightarrow>
        (\<lambda>(e, tag). sq_id e) ` set entries \<subseteq> (\<lambda>(e, tag). sq_id e) ` set (mr_current s))"

definition run_inv :: "import_case \<Rightarrow> Dashboard list \<Rightarrow> client_event list \<Rightarrow> import_run \<Rightarrow> bool" where
  "run_inv c ds h s \<longleftrightarrow> base_inv c h s \<and> preflighted c h \<and> Listed (Inr ds) \<in> set h \<and> library_known h s"

text \<open>Whatever is known of the history stays known.\<close>

lemma shown_mono:
  assumes "shown ses i h" and "set h \<subseteq> set h'" and "set (im_attempted ses) \<subseteq> set (im_attempted ses')"
  shows "shown ses' i h'"
proof -
  obtain target where target: "da_id target = i" "dashboard_receipt i (dashboard_fingerprint target) \<in> set (im_attempted ses)"
    "(\<exists>t tag. Wrote_dashboard target t (Inr tag) \<in> set h) \<or>
     (\<exists>found tag. Read_dashboard i (Inr (found, tag)) \<in> set h \<and> dashboard_fingerprint found = dashboard_fingerprint target)"
    using assms(1) unfolding shown_def by blast
  then show ?thesis unfolding shown_def using assms(2,3) by (intro exI [of _ target] conjI) blast+
qed

lemma accounted_mono: "accounted c h ses \<Longrightarrow> set h \<subseteq> set h' \<Longrightarrow> accounted c h' ses"
  unfolding accounted_def using shown_mono by blast

lemma preflighted_mono: "preflighted c h \<Longrightarrow> set h \<subseteq> set h' \<Longrightarrow> preflighted c h'"
  unfolding preflighted_def by blast

text \<open>A write of a dashboard, and a call that neither is one nor lists the library.\<close>

definition dashboard_write :: "client_event \<Rightarrow> bool" where
  "dashboard_write e \<longleftrightarrow> (case e of Wrote_dashboard d t r \<Rightarrow> True | _ \<Rightarrow> False)"

definition plain_call :: "client_event \<Rightarrow> bool" where
  "plain_call e \<longleftrightarrow> \<not> dashboard_write e \<and> (case e of Listed_queries r \<Rightarrow> False | _ \<Rightarrow> True)"

lemma call_simps [simp]:
  "\<not> dashboard_write (Listed r1)" "\<not> dashboard_write (Listed_queries r2)" "\<not> dashboard_write (Read_dashboard i r3)"
  "\<not> dashboard_write (Read_query i r4)" "dashboard_write (Wrote_dashboard d t r5)" "\<not> dashboard_write (Wrote_query q t r6)"
  "plain_call (Listed r1)" "\<not> plain_call (Listed_queries r2)" "plain_call (Read_dashboard i r3)" "plain_call (Read_query i r4)"
  "\<not> plain_call (Wrote_dashboard d t r5)" "plain_call (Wrote_query q t r6)"
  by (simp_all add: plain_call_def dashboard_write_def)

lemma lodged_step: "lodged c h ses \<Longrightarrow> \<not> dashboard_write e \<Longrightarrow> lodged c (h @ [e]) ses"
  by (cases e) (auto simp: lodged_def)

lemma base_inv_step: "base_inv c h s \<Longrightarrow> \<not> dashboard_write e \<Longrightarrow> base_inv c (h @ [e]) s"
  unfolding base_inv_def using accounted_mono [of c h "mr_session s" "h @ [e]"] lodged_step by auto

lemma run_inv_step: "run_inv c ds h s \<Longrightarrow> plain_call e \<Longrightarrow> run_inv c ds (h @ [e]) s"
  unfolding run_inv_def using base_inv_step [of c h s e] preflighted_mono [of c h "h @ [e]"]
  by (cases e) (auto simp: library_known_def)

lemma run_inv_steps: "run_inv c ds h s \<Longrightarrow> (\<forall>e\<in>set es. plain_call e) \<Longrightarrow> run_inv c ds (h @ es) s"
proof (induction es arbitrary: h)
  case (Cons e es)
  then show ?case using run_inv_step [of c ds h s e] Cons.IH [of "h @ [e]"] by simp
qed simp

text \<open>A dashboard is written to a locked destination.\<close>

lemma run_inv_wrote:
  assumes "run_inv c ds h s" and "im_targetsLocked (mr_session s)"
    and "\<exists>i\<in>da_id ` set (ca_documents c). js_map_get (im_dashboardIds (mr_session s)) i = Some (da_id d)"
  shows "run_inv c ds (h @ [Wrote_dashboard d t r]) s"
proof -
  have "lodged c (h @ [Wrote_dashboard d t r]) (mr_session s)"
    using assms by (auto simp: run_inv_def base_inv_def lodged_def)
  then show ?thesis
    using assms(1) accounted_mono [of c h "mr_session s" "h @ [Wrote_dashboard d t r]"]
      preflighted_mono [of c h "h @ [Wrote_dashboard d t r]"]
    by (auto simp: run_inv_def base_inv_def library_known_def)
qed

text \<open>Updates of fields that the invariant does not read.\<close>

lemma run_inv_frame [simp]:
  "run_inv c ds h (s\<lparr>mr_result := r\<rparr>) = run_inv c ds h s"
  "run_inv c ds h (s\<lparr>mr_callbacks := cs\<rparr>) = run_inv c ds h s"
  "run_inv c ds h (s\<lparr>mr_keptQueries := k\<rparr>) = run_inv c ds h s"
  "run_inv c ds h (s\<lparr>mr_prepared := q\<rparr>) = run_inv c ds h s"
  "run_inv c ds h (s\<lparr>mr_queryTargets := m\<rparr>) = run_inv c ds h s"
  "run_inv c ds h (s\<lparr>mr_queryErrors := qe\<rparr>) = run_inv c ds h s"
  "run_inv c ds h (s\<lparr>mr_uuids := n\<rparr>) = run_inv c ds h s"
  by (simp_all add: run_inv_def base_inv_def library_known_def)

lemma base_inv_session:
  assumes "base_inv c h s" and "im_dashboardActions ses = im_dashboardActions (mr_session s)"
    and "im_dashboardIds ses = im_dashboardIds (mr_session s)"
    and "\<And>key i. js_map_get (im_queryCopies ses) key = Some i \<Longrightarrow>
      js_map_get (im_queryCopies (mr_session s)) key = Some i \<or> fresh_query (ca_uuid c) i"
    and "\<And>i. i \<in> set (im_completed ses) \<Longrightarrow> i \<in> set (im_completed (mr_session s)) \<or> dashboard_choice (ca_request c) i = Keep \<or>
      (\<exists>j. js_map_get (im_dashboardIds ses) i = Some j \<and> shown ses j h)"
    and "continues (mr_session s) ses"
  shows "base_inv c h (s\<lparr>mr_session := ses\<rparr>)"
proof -
  have attempted: "set (im_attempted (mr_session s)) \<subseteq> set (im_attempted ses)" using assms(6) by (simp add: continues_def)
  have "session_ok (ca_uuid c) ses"
    using assms(1-4) unfolding base_inv_def session_ok_def by metis
  moreover have "assigned c ses" using assms(1,2) by (simp add: base_inv_def assigned_def)
  moreover have "accounted c h ses"
    unfolding accounted_def
  proof
    fix i
    assume "i \<in> set (im_completed ses)"
    then consider "i \<in> set (im_completed (mr_session s))" | "dashboard_choice (ca_request c) i = Keep"
      | j where "js_map_get (im_dashboardIds ses) i = Some j" "shown ses j h"
      using assms(5) by blast
    then show "i \<in> set (ca_completed c) \<or> dashboard_choice (ca_request c) i = Keep \<or>
        (\<exists>j. js_map_get (im_dashboardIds ses) i = Some j \<and> shown ses j h)"
      using assms(1,3) shown_mono [OF _ order_refl attempted] unfolding base_inv_def accounted_def by cases auto
  qed
  moreover have "continues (ca_session c) ses" using assms(1,6) continues_trans by (auto simp: base_inv_def)
  moreover have "lodged c h ses" using assms(1,3,6) unfolding base_inv_def lodged_def continues_def by metis
  ultimately show ?thesis by (simp add: base_inv_def)
qed

lemma run_inv_update:
  assumes "run_inv c ds h s" and "base_inv c h (s\<lparr>mr_session := ses\<rparr>)"
  shows "run_inv c ds h (s\<lparr>mr_session := ses\<rparr>)"
  using assms by (simp add: run_inv_def library_known_def)

lemma run_inv_session:
  assumes "run_inv c ds h s" and "im_dashboardActions ses = im_dashboardActions (mr_session s)"
    and "im_dashboardIds ses = im_dashboardIds (mr_session s)" and "im_queryCopies ses = im_queryCopies (mr_session s)"
    and "im_completed ses = im_completed (mr_session s)" and "set (im_attempted (mr_session s)) \<subseteq> set (im_attempted ses)"
    and "im_targetsLocked (mr_session s) \<longrightarrow> im_targetsLocked ses"
  shows "run_inv c ds h (s\<lparr>mr_session := ses\<rparr>)"
  using assms by (intro run_inv_update base_inv_session) (auto simp: run_inv_def continues_def)

section \<open>Rules for the calls\<close>

lemma wp_calls [wp]:
  "ok P (outcome R1 E) (client_list s) h \<longleftrightarrow>
     (\<forall>r. P h (Listed r)) \<and> (\<forall>m. E (Client_failed m) (h @ [Listed (Inl m)]) s) \<and> (\<forall>ds. R1 ds (h @ [Listed (Inr ds)]) s)"
  "ok P (outcome R2 E) (client_listSavedQueries s) h \<longleftrightarrow>
     (\<forall>r. P h (Listed_queries r)) \<and> (\<forall>m. E (Client_failed m) (h @ [Listed_queries (Inl m)]) s) \<and>
     (\<forall>es. R2 es (h @ [Listed_queries (Inr es)]) s)"
  "ok P (outcome R3 E) (client_get i s) h \<longleftrightarrow>
     (\<forall>r. P h (Read_dashboard i r)) \<and> (\<forall>m. E (Client_failed m) (h @ [Read_dashboard i (Inl m)]) s) \<and>
     (\<forall>d t. R3 (d, t) (h @ [Read_dashboard i (Inr (d, t))]) s)"
  "ok P (outcome R4 E) (client_getSavedQuery i s) h \<longleftrightarrow>
     (\<forall>r. P h (Read_query i r)) \<and> (\<forall>m. E (Client_failed m) (h @ [Read_query i (Inl m)]) s) \<and>
     (\<forall>q t. R4 (q, t) (h @ [Read_query i (Inr (q, t))]) s)"
  "ok P (outcome R5 E) (client_save d t s) h \<longleftrightarrow>
     (\<forall>r. P h (Wrote_dashboard d t r)) \<and> (\<forall>m. E (Client_failed m) (h @ [Wrote_dashboard d t (Inl m)]) s) \<and>
     (\<forall>tag. R5 tag (h @ [Wrote_dashboard d t (Inr tag)]) s)"
  "ok P (outcome R5 E) (client_saveSavedQuery q t s) h \<longleftrightarrow>
     (\<forall>r. P h (Wrote_query q t r)) \<and> (\<forall>m. E (Client_failed m) (h @ [Wrote_query q t (Inl m)]) s) \<and>
     (\<forall>tag. R5 tag (h @ [Wrote_query q t (Inr tag)]) s)"
  unfolding client_list_def client_listSavedQueries_def client_get_def client_getSavedQuery_def client_save_def
    client_saveSavedQuery_def
  by (auto simp: answered_def split_sum_all)

lemma wp_throw_some [wp]:
  "ok P (outcome R E) (throw_some e s) h \<longleftrightarrow> (e = None \<longrightarrow> R () h s) \<and> (\<forall>x. e = Some x \<longrightarrow> E x h s)"
  by (cases e) (simp_all add: throw_some_def wp)

lemmas [wp] = update_session_def update_result_def call_back_def lift_bundle_def attempt_def session_action_def

section \<open>Saved queries\<close>

lemma publish_keeps: "keeps P (run_inv c ds) (publish_query q tag) (\<lambda>_. run_inv c ds) (run_inv c ds)"
proof (rule keepsI)
  fix h s
  assume inv: "run_inv c ds h s"
  let ?current = "filter (\<lambda>(e, t). sq_id e \<noteq> sq_id q) (mr_current s) @ [(q, present_text tag)]"
  have "(\<lambda>(e, t). sq_id e) ` set (mr_current s) \<subseteq> (\<lambda>(e, t). sq_id e) ` set ?current" by force
  then have "run_inv c ds h (s\<lparr>mr_current := ?current\<rparr>)"
    using inv unfolding run_inv_def base_inv_def library_known_def by simp (meson order_trans)
  then show "ok P (outcome (\<lambda>_. run_inv c ds) (\<lambda>_. run_inv c ds)) (publish_query q tag s) h"
    by (simp add: publish_query_def wp)
qed

lemma save_query_keeps:
  assumes "\<And>h s. I h s \<Longrightarrow> run_inv c ds h s \<and> query_write_ok c h target tag"
  shows "keeps (allowed c) I (save_query_confirmed p target tag fp) (\<lambda>_. run_inv c ds) (run_inv c ds)"
proof (rule keepsI)
  fix h s
  assume "I h s"
  note inv = assms [OF this]
  then have "\<And>r. allowed c h (Wrote_query target tag r)" by (simp add: allowed_def run_inv_def)
  then show "ok (allowed c) (outcome (\<lambda>_. run_inv c ds) (\<lambda>_. run_inv c ds)) (save_query_confirmed p target tag fp s) h"
    using inv by (simp add: save_query_confirmed_def wp run_inv_steps)
qed

lemma reviewed_check:
  assumes "checkBaseline e e' fingerprint tag (baseline_of baselines i) True = None"
  shows "\<exists>revision. tag = Some revision \<and> reviewed_revision baselines i fingerprint revision"
  using assms unfolding checkBaseline_def reviewed_revision_def present_text_def
  by (auto split: option.splits if_splits)

lemma attempt_inv:
  "run_inv c ds h s \<Longrightarrow> run_inv c ds h (s\<lparr>mr_session := (mr_session s)\<lparr>im_attempted := js_set_add (im_attempted (mr_session s)) receipt\<rparr>\<rparr>)"
  by (rule run_inv_session) (auto simp: js_set_add_def)

lemma replace_write_ok:
  assumes "run_inv c ds h s" and "savedQueryFingerprint (ca_platform c) fresh = Inr fingerprint"
    and "checkBaseline e e' fingerprint tag (baseline_of (rq_queryBaselines (ca_request c)) (sq_id q)) True = None"
    and "sq_providerId fresh = sq_providerId q" "sq_kind fresh = sq_kind q"
    and "checked_compatibility (ca_platform c) q ds (Some fresh) = Inr compatibility" "ic_compatible compatibility"
  shows "query_write_ok c (h @ [Read_query (sq_id q) (Inr (fresh, tag))]) q tag"
proof -
  obtain revision where "tag = Some revision" "reviewed_revision (rq_queryBaselines (ca_request c)) (sq_id q) fingerprint revision"
    using reviewed_check [OF assms(3)] by blast
  moreover have "Listed (Inr ds) \<in> set h" using assms(1) by (simp add: run_inv_def)
  ultimately show ?thesis unfolding query_write_ok_def using assms(2,4-7) by auto
qed

lemma replace_query_keeps:
  "keeps (allowed c) (run_inv c ds) (replace_query (ca_platform c) (ca_request c) ds query query fp) (\<lambda>_. run_inv c ds) (run_inv c ds)"
proof (rule keepsI)
  fix h s
  assume inv: "run_inv c ds h s"
  have saved: "ok (allowed c) (outcome (\<lambda>tag' h' s'. ok (allowed c) (outcome (\<lambda>_. run_inv c ds) (\<lambda>_. run_inv c ds))
        (publish_query query tag' s') h') (\<lambda>_. run_inv c ds)) (save_query_confirmed (ca_platform c) query tag fp s') h'"
    if "run_inv c ds h' s'" "query_write_ok c h' query tag" for tag h' s'
    using that by (intro keeps_use [OF save_query_keeps [of "\<lambda>h s. h = h' \<and> s = s'" c ds]] keepsD [OF publish_keeps]) auto
  show "ok (allowed c) (outcome (\<lambda>_. run_inv c ds) (\<lambda>_. run_inv c ds))
      (replace_query (ca_platform c) (ca_request c) ds query query fp s) h"
    unfolding replace_query_def using inv
    by (auto simp: wp Let_def run_inv_steps attempt_inv intro!: saved keepsD [OF publish_keeps] intro: replace_write_ok)
qed

lemma reuse_query_keeps:
  "keeps (allowed c) (run_inv c ds) (reuse_query p target fp) (\<lambda>_. run_inv c ds) (run_inv c ds)"
  by (rule keepsI) (auto simp: reuse_query_def wp run_inv_steps intro!: keepsD [OF publish_keeps])

text \<open>A definition that is new to the library is created under an identifier that the library does not have.\<close>

lemma status_new:
  assumes "queryImportStatus p target (map fst current) = Inr Status_new"
  shows "sq_id target \<notin> (\<lambda>(e, tag). sq_id e) ` set current"
proof -
  have "filter (\<lambda>item. sq_id item = sq_id target) (map fst current) = []"
    using assms by (auto simp: queryImportStatus_def split: list.splits if_splits)
  then show ?thesis by (auto simp: filter_empty_conv)
qed

lemma create_write_ok:
  assumes "run_inv c ds h s" and "sq_id target \<notin> (\<lambda>(e, tag). sq_id e) ` set (mr_current s)"
    and "js_map_get (rq_queryChoices (ca_request c)) (sq_id target) = None \<or> fresh_query (ca_uuid c) (sq_id target)"
  shows "query_write_ok c h target None"
  using assms unfolding query_write_ok_def run_inv_def library_known_def option.case by blast

lemma create_query_keeps:
  assumes "action \<noteq> Some Replace"
    and "\<And>h s. I h s \<Longrightarrow> run_inv c ds h s \<and> (status = Status_new \<longrightarrow> sq_id target \<notin> (\<lambda>(e, tag). sq_id e) ` set (mr_current s))"
    and "status \<noteq> Status_identical"
    and "action \<noteq> Some Reuse \<Longrightarrow> action \<noteq> Some Keep \<Longrightarrow>
      js_map_get (rq_queryChoices (ca_request c)) (sq_id target) = None \<or> fresh_query (ca_uuid c) (sq_id target)"
  shows "keeps (allowed c) I (create_query p action status query target fp) (\<lambda>_. run_inv c ds) (run_inv c ds)"
proof (rule keepsI)
  fix h s
  assume "I h s"
  note inv = assms(2) [OF this]
  have "ok (allowed c) (outcome (\<lambda>tag' h' s'. ok (allowed c) (outcome (\<lambda>_. run_inv c ds) (\<lambda>_. run_inv c ds))
        (publish_query target tag' s') h') (\<lambda>_. run_inv c ds)) (save_query_confirmed p target None fp s) h"
    if "status = Status_new" "action \<noteq> Some Reuse" "action \<noteq> Some Keep"
    using inv that assms(4) create_write_ok [of c ds h s target]
    by (intro keeps_use [OF save_query_keeps [of "\<lambda>h' s'. h' = h \<and> s' = s" c ds]] keepsD [OF publish_keeps]) auto
  then show "ok (allowed c) (outcome (\<lambda>_. run_inv c ds) (\<lambda>_. run_inv c ds)) (create_query p action status query target fp s) h"
    using inv assms(3) by (cases status) (auto simp: create_query_def wp)
qed

lemma copy_target_keeps:
  "keeps P (run_inv c ds) (copy_target p (ca_uuid c) query) (\<lambda>target h s. run_inv c ds h s \<and> fresh_query (ca_uuid c) (sq_id target))
     (run_inv c ds)"
proof (rule keepsI)
  fix h s
  assume inv: "run_inv c ds h s"
  have known: "fresh_query (ca_uuid c) i" if "js_map_get (im_queryCopies (mr_session s)) key = Some i" for key i
    using inv that by (auto simp: run_inv_def base_inv_def session_ok_def)
  have new: "run_inv c ds h (s\<lparr>mr_uuids := m, mr_session := (mr_session s)
      \<lparr>im_queryCopies := js_map_set key (''query-'' @ ca_uuid c n) (im_queryCopies (mr_session s))\<rparr>\<rparr>)"
    if "\<forall>i. js_map_get (im_queryCopies (mr_session s)) key = Some i \<longrightarrow> i = []" for key n m
  proof -
    have "run_inv c ds h (s\<lparr>mr_session := (mr_session s)
        \<lparr>im_queryCopies := js_map_set key (''query-'' @ ca_uuid c n) (im_queryCopies (mr_session s))\<rparr>\<rparr>)"
      using inv by (intro run_inv_update base_inv_session)
        (use that in \<open>auto simp: run_inv_def fresh_query_def js_map_get_set continues_def split: if_splits\<close>)
    then show ?thesis by (simp add: run_inv_def base_inv_def library_known_def)
  qed
  have unknown: "\<forall>i. m = Some i \<longrightarrow> i = []" if "Option.bind m (\<lambda>i. if i = [] then None else Some i) = None" for m :: "string option"
    using that by (cases m) (auto split: if_splits)
  show "ok P (outcome (\<lambda>target h s. run_inv c ds h s \<and> fresh_query (ca_uuid c) (sq_id target)) (\<lambda>_. run_inv c ds))
      (copy_target p (ca_uuid c) query s) h"
    unfolding copy_target_def using inv new [simplified, OF unknown]
    by (auto simp: wp Let_def bind_eq_Some_conv fresh_query_def dest!: known split: option.split if_splits)
qed

lemma settle_query_keeps:
  assumes "action = js_map_get (rq_queryChoices (ca_request c)) (sq_id query)"
    and "if action = Some Copy then fresh_query (ca_uuid c) (sq_id target) else target = query"
    and "action \<in> {None, Some Copy, Some Reuse, Some Keep, Some Replace}"
  shows "keeps (allowed c) (run_inv c ds) (settle_query (ca_platform c) (ca_request c) ds action query target) (\<lambda>_. run_inv c ds) (run_inv c ds)"
proof (rule keepsI)
  fix h s
  assume inv: "run_inv c ds h s"
  let ?s = "s\<lparr>mr_queryTargets := js_map_set (sq_id query) (sq_id target) (mr_queryTargets s)\<rparr>"
  let ?R = "\<lambda>(_ :: unit) h' s'. run_inv c ds h' (s'\<lparr>mr_prepared := js_map_set (sq_id target) target (mr_prepared s')\<rparr>)"
  have inv': "run_inv c ds h ?s" using inv by simp
  have "ok (allowed c) (outcome ?R (\<lambda>_. run_inv c ds)) (replace_query (ca_platform c) (ca_request c) ds query target fp ?s) h"
    if "action = Some Replace" for fp
    using assms(2) that inv' keeps_use [OF replace_query_keeps, of c ds h ?s ?R] by simp
  moreover have "ok (allowed c) (outcome ?R (\<lambda>_. run_inv c ds)) (reuse_query (ca_platform c) target fp ?s) h" for fp
    using inv' by (intro keeps_use [OF reuse_query_keeps]) auto
  moreover have "ok (allowed c) (outcome ?R (\<lambda>_. run_inv c ds)) (create_query (ca_platform c) action status query target fp ?s) h"
    if status: "queryImportStatus (ca_platform c) target (map fst (mr_current ?s)) = Inr status" "status \<noteq> Status_identical"
      and "action \<noteq> Some Replace" for fp status
  proof -
    have "keeps (allowed c) (\<lambda>h' s'. h' = h \<and> s' = ?s) (create_query (ca_platform c) action status query target fp)
        (\<lambda>_. run_inv c ds) (run_inv c ds)"
      using that assms inv' status_new [of "ca_platform c" target "mr_current ?s"]
      by (intro create_query_keeps) (auto split: if_splits)
    then show ?thesis by (rule keeps_use) auto
  qed
  ultimately show "ok (allowed c) (outcome (\<lambda>_. run_inv c ds) (\<lambda>_. run_inv c ds))
      (settle_query (ca_platform c) (ca_request c) ds action query target s) h"
    unfolding settle_query_def using inv' by (auto simp: wp)
qed

lemma prepare_query_keeps:
  "keeps (allowed c) (run_inv c ds) (prepare_query (ca_platform c) (ca_uuid c) (ca_request c) ds query) (\<lambda>_. run_inv c ds) (run_inv c ds)"
proof (rule keepsI)
  fix h s
  assume inv: "run_inv c ds h s"
  define action where "action = js_map_get (rq_queryChoices (ca_request c)) (sq_id query)"
  let ?E = "\<lambda>e h' s'. run_inv c ds h' (s'\<lparr>mr_queryErrors := js_map_set (sq_id query) e (mr_queryErrors s'),
      mr_result := (mr_result s')\<lparr>br_errors := br_errors (mr_result s') @ [(sq_name query, e)]\<rparr>\<rparr>)"
  have settle: "ok (allowed c) (outcome (\<lambda>_. run_inv c ds) ?E)
      (settle_query (ca_platform c) (ca_request c) ds action query target s') h'"
    if "run_inv c ds h' s'" "if action = Some Copy then fresh_query (ca_uuid c) (sq_id target) else target = query"
      "action \<in> {None, Some Copy, Some Reuse, Some Keep, Some Replace}" for target h' s'
    by (rule keeps_use [OF settle_query_keeps [OF action_def that(2,3)] that(1)]) simp_all
  have copy: "ok (allowed c) (outcome (\<lambda>target h' s'. ok (allowed c) (outcome (\<lambda>_. run_inv c ds) ?E)
        (settle_query (ca_platform c) (ca_request c) ds action query target s') h') ?E)
      (copy_target (ca_platform c) (ca_uuid c) query s) h" if "action = Some Copy"
    by (rule keeps_use [OF copy_target_keeps inv]) (use settle that in auto)
  show "ok (allowed c) (outcome (\<lambda>_. run_inv c ds) (\<lambda>_. run_inv c ds))
      (prepare_query (ca_platform c) (ca_uuid c) (ca_request c) ds query s) h"
    unfolding prepare_query_def action_def [symmetric] Let_def using inv copy settle by (auto simp: wp)
qed

section \<open>Dashboards\<close>

text \<open>A definition has been read, from a data source that can run it.\<close>

definition definition_read :: "import_case \<Rightarrow> string \<Rightarrow> client_event list \<Rightarrow> bool" where
  "definition_read c i h \<longleftrightarrow> (\<exists>q tag. Read_query i (Inr (q, tag)) \<in> set h \<and> provides (en_providers (ca_env c)) q)"

lemma definition_read_step: "definition_read c i h \<Longrightarrow> definition_read c i (h @ es)"
  by (auto simp: definition_read_def)

lemma verify_query_keeps:
  "keeps (allowed c) (\<lambda>h s. run_inv c ds h s \<and> (\<forall>j\<in>A. definition_read c j h)) (verify_query p (ca_env c) i)
     (\<lambda>_ h s. run_inv c ds h s \<and> (\<forall>j\<in>insert i A. definition_read c j h)) (run_inv c ds)"
proof (rule keepsI)
  fix h s
  assume "run_inv c ds h s \<and> (\<forall>j\<in>A. definition_read c j h)"
  then show "ok (allowed c) (outcome (\<lambda>_ h s. run_inv c ds h s \<and> (\<forall>j\<in>insert i A. definition_read c j h)) (\<lambda>_. run_inv c ds))
      (verify_query p (ca_env c) i s) h"
    unfolding verify_query_def
    by (auto simp: wp run_inv_steps definition_read_step split: option.split) (auto simp: definition_read_def)
qed

lemma outcome_mono:
  assumes "ok P (outcome R E) m h" and "\<And>x h' s'. R x h' s' \<Longrightarrow> R' x h' s'" and "\<And>e h' s'. E e h' s' \<Longrightarrow> E' e h' s'"
  shows "ok P (outcome R' E') m h"
  using assms(1) by (rule ok_mono) (auto simp: outcome_def assms(2,3) split: sum.splits prod.splits)

lemma widget_references_kept:
  "wi_queryRef (trim_widget w) = wi_queryRef w"
  "map_option (\<lambda>a. sr_id (an_queryRef a)) (wi_annotationSource (trim_widget w)) = map_option (\<lambda>a. sr_id (an_queryRef a)) (wi_annotationSource w)"
  "tooltip_reference (trim_widget w) = tooltip_reference w"
proof -
  show "wi_queryRef (trim_widget w) = wi_queryRef w" by (simp add: trim_widget_def)
  show "map_option (\<lambda>a. sr_id (an_queryRef a)) (wi_annotationSource (trim_widget w)) = map_option (\<lambda>a. sr_id (an_queryRef a)) (wi_annotationSource w)"
    by (simp add: trim_widget_def trim_annotations_def option.map_comp comp_def)
  show "tooltip_reference (trim_widget w) = tooltip_reference w"
    by (cases "wi_options w")
       (auto simp: tooltip_reference_def tooltip_view_def trim_widget_def trim_options_def trim_view_def bind_eq_Some_conv
         split: option.splits TooltipSource.splits elim!: trim_source.elims)
qed

definition widget_query_ids :: "Widget \<Rightarrow> string list" where
  "widget_query_ids w =
     (case wi_queryRef w of Some r \<Rightarrow> [sr_id r] | None \<Rightarrow> []) @
     (case map_option (\<lambda>a. sr_id (an_queryRef a)) (wi_annotationSource w) of Some i \<Rightarrow> [i] | None \<Rightarrow> []) @
     (case tooltip_reference w of Some r \<Rightarrow> [sr_id r] | None \<Rightarrow> [])"

lemma widget_query_ids_kept:
  "widget_query_ids (trim_widget w) = widget_query_ids w" "widget_query_ids (w\<lparr>wi_drilldowns := ls\<rparr>) = widget_query_ids w"
  unfolding widget_query_ids_def widget_references_kept by (simp_all add: tooltip_reference_def tooltip_view_def)

lemma referencedQueries_eq: "referencedQueries d = js_set (concat (map widget_query_ids (da_widgets d)))"
  unfolding referencedQueries_def widget_query_ids_def tooltip_reference_def
  by (intro arg_cong [where f = js_set] arg_cong [where f = concat] map_cong refl)
     (auto split: option.split TooltipSource.split)

lemma retarget_target:
  assumes "dashboardSchema p (retarget ids i resolved) = Some target"
  shows "da_id target = mappedId ids i" "referencedQueries target = referencedQueries resolved" "dashboardSchema p target = Some target"
proof -
  have target: "target = trim_dashboard (retarget ids i resolved)" using assms by (simp add: dashboardSchema_Some)
  then show "da_id target = mappedId ids i" by (simp add: trim_dashboard_def retarget_def)
  show "referencedQueries target = referencedQueries resolved"
    unfolding referencedQueries_eq target
    by (simp add: trim_dashboard_def retarget_def widget_query_ids_kept comp_def)
  show "dashboardSchema p target = Some target" using assms by (rule dashboardSchema_twice)
qed

lemma save_dashboard_ok:
  assumes inv: "run_inv c ds h s" and "dashboard_write_ok c h target tag"
    and receipt: "dashboard_receipt (da_id target) (dashboard_fingerprint target) \<in> set (im_attempted (mr_session s))"
    and locked: "im_targetsLocked (mr_session s)"
      "\<exists>i\<in>da_id ` set (ca_documents c). js_map_get (im_dashboardIds (mr_session s)) i = Some (da_id target)"
  shows "ok (allowed c) (outcome (\<lambda>_ h' s'. s' = s \<and> run_inv c ds h' s \<and> shown (mr_session s) (da_id target) h') (\<lambda>_. run_inv c ds))
    (save_dashboard_confirmed target tag (dashboard_fingerprint target) s) h"
proof -
  have "\<And>r. allowed c h (Wrote_dashboard target tag r)" using assms(1,2) by (simp add: allowed_def run_inv_def)
  moreover have "shown (mr_session s) (da_id target) (h @ [Wrote_dashboard target tag (Inr tag')])" for tag'
    using receipt unfolding shown_def by (intro exI [of _ target]) auto
  moreover have "shown (mr_session s) (da_id target) (h @ [e, Read_dashboard (da_id target) (Inr (found, tag'))])"
    if "dashboard_fingerprint found = dashboard_fingerprint target" for e found tag'
    using receipt that unfolding shown_def by (intro exI [of _ target]) auto
  moreover have "run_inv c ds (h @ [Wrote_dashboard target tag r]) s" for r using inv locked by (rule run_inv_wrote)
  moreover from this have "run_inv c ds (h @ [Wrote_dashboard target tag r, Read_dashboard i r']) s" for r i r'
    using run_inv_step [of c ds "h @ [Wrote_dashboard target tag r]" s "Read_dashboard i r'"] by simp
  ultimately show ?thesis
    unfolding save_dashboard_confirmed_def using assms(1) by (auto simp: wp)
qed

lemma replaced_revision_ok:
  assumes "run_inv c ds h s"
  shows "ok (allowed c) (outcome (\<lambda>(tag, confirmed) h' s'. s' = s \<and> run_inv c ds h' s \<and> set h \<subseteq> set h' \<and>
      (if confirmed then shown (mr_session s) (da_id target) h'
       else \<exists>fresh revision. tag = Some revision \<and> h' \<noteq> [] \<and> last h' = Read_dashboard (da_id target) (Inr (fresh, Some revision)) \<and>
         reviewed_revision (rq_dashboardBaselines (ca_request c)) (da_id document) (dashboard_fingerprint fresh) revision))
     (\<lambda>_. run_inv c ds))
    (replaced_revision (ca_request c) document target (dashboard_fingerprint target) s) h"
proof -
  have "shown (mr_session s) (da_id target) (h @ [Read_dashboard (da_id target) (Inr (found, tag))])"
    if "dashboard_fingerprint found = dashboard_fingerprint target"
      "dashboard_receipt (da_id target) (dashboard_fingerprint target) \<in> set (im_attempted (mr_session s))" for found tag
    using that unfolding shown_def by (intro exI [of _ target]) auto
  then show ?thesis
    unfolding replaced_revision_def using assms by (auto simp: wp run_inv_steps dest: reviewed_check)
qed

lemma resolve_dashboard_ok:
  assumes "run_inv c ds h s"
  shows "ok (allowed c) (outcome (\<lambda>resolved h' s'. run_inv c ds h' s' \<and> (\<forall>i\<in>set (referencedQueries resolved). definition_read c i h'))
     (\<lambda>_. run_inv c ds)) (resolve_dashboard p (ca_env c) mapped document s) h"
proof -
  have verified: "ok (allowed c) (outcome (\<lambda>_ h' s'. run_inv c ds h' s' \<and> (\<forall>i\<in>set ids. definition_read c i h')) (\<lambda>_. run_inv c ds))
      (act_map (verify_query p (ca_env c)) ids s) h" for ids
    using keepsD [OF keeps_map_all [where A = "{}" and I = "run_inv c ds" and D = "\<lambda>i h s. definition_read c i h",
        OF verify_query_keeps]] assms by simp
  show ?thesis unfolding resolve_dashboard_def using assms
    by (auto simp: wp Let_def intro!: outcome_mono [OF verified])
qed

lemma completed_inv:
  assumes "run_inv c ds h s" and "dashboard_choice (ca_request c) i = Keep \<or>
      (\<exists>j. js_map_get (im_dashboardIds (mr_session s)) i = Some j \<and> shown (mr_session s) j h)"
  shows "run_inv c ds h (s\<lparr>mr_session := (mr_session s)\<lparr>im_completed := js_set_add (im_completed (mr_session s)) i\<rparr>\<rparr>)"
proof (rule run_inv_update [OF assms(1)], rule base_inv_session)
  fix k
  let ?ses = "(mr_session s)\<lparr>im_completed := js_set_add (im_completed (mr_session s)) i\<rparr>"
  assume "k \<in> set (im_completed ?ses)"
  moreover have "shown ?ses j h" if "shown (mr_session s) j h" for j using that by (simp add: shown_def)
  ultimately show "k \<in> set (im_completed (mr_session s)) \<or> dashboard_choice (ca_request c) k = Keep \<or>
      (\<exists>j. js_map_get (im_dashboardIds ?ses) k = Some j \<and> shown ?ses j h)"
    using assms(2) by (auto simp: js_set_add_def split: if_splits)
qed (use assms(1) in \<open>auto simp: run_inv_def continues_def js_set_add_def\<close>)

definition active_document :: "import_case \<Rightarrow> string \<Rightarrow> bool" where
  "active_document c i \<longleftrightarrow>
     i \<in> da_id ` set (ca_documents c) \<and> i \<notin> set (ca_completed c) \<and> dashboard_choice (ca_request c) i \<in> {Replace, Copy}"

lemma active_destination:
  assumes "run_inv c ds h s" and "active_document c i"
  shows "js_map_get (im_dashboardActions (mr_session s)) i = Some (dashboard_choice (ca_request c) i)"
    and "js_map_get (im_dashboardIds (mr_session s)) i = Some (mappedId (im_dashboardIds (mr_session s)) i)"
    and "dashboard_choice (ca_request c) i = Replace \<Longrightarrow> mappedId (im_dashboardIds (mr_session s)) i = i"
    and "dashboard_choice (ca_request c) i = Copy \<Longrightarrow> fresh_dashboard (ca_uuid c) (mappedId (im_dashboardIds (mr_session s)) i)"
proof -
  show action: "js_map_get (im_dashboardActions (mr_session s)) i = Some (dashboard_choice (ca_request c) i)"
    using assms by (auto simp: run_inv_def base_inv_def assigned_def active_document_def)
  have "destination_ok (ca_uuid c) i (js_map_get (im_dashboardActions (mr_session s)) i) (js_map_get (im_dashboardIds (mr_session s)) i)"
    using assms(1) by (simp add: run_inv_def base_inv_def session_ok_def)
  then obtain j where "js_map_get (im_dashboardIds (mr_session s)) i = Some j"
    "if dashboard_choice (ca_request c) i = Copy then fresh_dashboard (ca_uuid c) j else j = i"
    unfolding action destination_ok_def by auto
  then show "js_map_get (im_dashboardIds (mr_session s)) i = Some (mappedId (im_dashboardIds (mr_session s)) i)"
    "dashboard_choice (ca_request c) i = Replace \<Longrightarrow> mappedId (im_dashboardIds (mr_session s)) i = i"
    "dashboard_choice (ca_request c) i = Copy \<Longrightarrow> fresh_dashboard (ca_uuid c) (mappedId (im_dashboardIds (mr_session s)) i)"
    by (auto simp: mappedId_def split: if_splits)
qed

text \<open>Everything after the target is known: the write, and the marks of its success.\<close>

lemma finish_dashboard_ok:
  assumes "run_inv c ds h s" and "shown (mr_session s) (mappedId (im_dashboardIds (mr_session s)) i) h" and "active_document c i"
  shows "run_inv c ds h (s\<lparr>mr_session := (mr_session s)\<lparr>im_completed := js_set_add (im_completed (mr_session s)) i\<rparr>,
    mr_result := r, mr_callbacks := cs\<rparr>)"
proof -
  have "run_inv c ds h (s\<lparr>mr_session := (mr_session s)\<lparr>im_completed := js_set_add (im_completed (mr_session s)) i\<rparr>\<rparr>)"
    using completed_inv [OF assms(1)] active_destination(2) [OF assms(1,3)] assms(2) by blast
  then show ?thesis by simp
qed

lemma lock_inv:
  "run_inv c ds h s \<Longrightarrow> run_inv c ds h (s\<lparr>mr_session := (mr_session s)
     \<lparr>im_attempted := js_set_add (im_attempted (mr_session s)) receipt, im_targetsLocked := True\<rparr>\<rparr>)"
  by (rule run_inv_session) (auto simp: js_set_add_def)

lemma complete_write_ok:
  assumes inv: "run_inv c ds h s" and active: "active_document c (da_id document)"
    and target: "da_id target = mappedId (im_dashboardIds (mr_session s)) (da_id document)"
    and write_ok: "\<not> confirmed \<Longrightarrow> dashboard_write_ok c h target tag"
    and confirmed: "confirmed \<Longrightarrow> shown (mr_session s) (da_id target) h"
  shows "ok (allowed c) (outcome (\<lambda>_. run_inv c ds) (\<lambda>_. run_inv c ds)) (complete_write document action target tag confirmed s) h"
proof (cases confirmed)
  case True
  then show ?thesis
    using finish_dashboard_ok [OF inv _ active] confirmed target by (simp add: complete_write_def wp Let_def)
next
  case False
  let ?s = "s\<lparr>mr_session := (mr_session s)\<lparr>im_attempted := js_set_add (im_attempted (mr_session s))
      (dashboard_receipt (da_id target) (dashboard_fingerprint target)), im_targetsLocked := True\<rparr>\<rparr>"
  have inv': "run_inv c ds h ?s" using inv by (rule lock_inv)
  have saved: "ok (allowed c) (outcome (\<lambda>_ h' s'. s' = ?s \<and> run_inv c ds h' ?s \<and> shown (mr_session ?s) (da_id target) h') (\<lambda>_. run_inv c ds))
      (save_dashboard_confirmed target tag (dashboard_fingerprint target) ?s) h"
  proof (rule save_dashboard_ok [OF inv' write_ok [OF False]])
    show "\<exists>i\<in>da_id ` set (ca_documents c). js_map_get (im_dashboardIds (mr_session ?s)) i = Some (da_id target)"
      using active_destination(2) [OF inv active] active target by (auto simp: active_document_def)
  qed (simp_all add: js_set_add_def)
  have "ok (allowed c) (outcome (\<lambda>_ h' s'. run_inv c ds h' (s'\<lparr>mr_session := (mr_session s')
      \<lparr>im_completed := js_set_add (im_completed (mr_session s')) (da_id document)\<rparr>\<rparr>)) (\<lambda>_. run_inv c ds))
      (save_dashboard_confirmed target tag (dashboard_fingerprint target) ?s) h"
  proof (rule outcome_mono [OF saved])
    fix h' s'
    assume finished: "s' = ?s \<and> run_inv c ds h' ?s \<and> shown (mr_session ?s) (da_id target) h'"
    then have "shown (mr_session s') (mappedId (im_dashboardIds (mr_session s')) (da_id document)) h'" using target by simp
    then show "run_inv c ds h' (s'\<lparr>mr_session := (mr_session s')\<lparr>im_completed := js_set_add (im_completed (mr_session s')) (da_id document)\<rparr>\<rparr>)"
      using finished finish_dashboard_ok [of c ds h' s' "da_id document", OF _ _ active] by simp
  qed simp
  then show ?thesis using False by (simp add: complete_write_def wp Let_def)
qed

lemma commit_dashboard_ok:
  assumes inv: "run_inv c ds h s" and active: "active_document c (da_id document)"
    and refs: "\<forall>i\<in>set (referencedQueries resolved). definition_read c i h"
    and schema: "dashboardSchema (ca_platform c) (retarget (im_dashboardIds (mr_session s)) (da_id document) resolved) = Some target"
  shows "ok (allowed c) (outcome (\<lambda>_. run_inv c ds) (\<lambda>_. run_inv c ds))
    (commit_dashboard (ca_request c) document (js_map_get (im_dashboardActions (mr_session s)) (da_id document)) target s) h"
proof -
  note target = retarget_target [OF schema]
  note destination = active_destination [OF inv active]
  have write_ok: "dashboard_write_ok c h' target tag"
    if "set h \<subseteq> set h'" and "case tag of None \<Rightarrow> fresh_dashboard (ca_uuid c) (da_id target) | Some revision \<Rightarrow>
        (\<exists>fresh. h' \<noteq> [] \<and> last h' = Read_dashboard (da_id target) (Inr (fresh, Some revision)) \<and>
          reviewed_revision (rq_dashboardBaselines (ca_request c)) (da_id target) (dashboard_fingerprint fresh) revision)" for h' tag
    using that target refs unfolding dashboard_write_ok_def definition_read_def by (metis subsetD)
  show ?thesis
  proof (cases "dashboard_choice (ca_request c) (da_id document) = Replace")
    case True
    then have same: "da_id target = da_id document" using target(1) destination(3) by simp
    have "ok (allowed c) (outcome (\<lambda>(tag, confirmed) h' s'. ok (allowed c) (outcome (\<lambda>_. run_inv c ds) (\<lambda>_. run_inv c ds))
          (complete_write document action target tag confirmed s') h') (\<lambda>_. run_inv c ds))
        (replaced_revision (ca_request c) document target (dashboard_fingerprint target) s) h" for action
    proof (rule outcome_mono [OF replaced_revision_ok [OF inv]], clarify)
      fix tag confirmed h' and s' :: import_run
      assume inv': "run_inv c ds h' s" and more: "set h \<subseteq> set h'"
        and cases: "if confirmed then shown (mr_session s) (da_id target) h'
          else \<exists>fresh revision. tag = Some revision \<and> h' \<noteq> [] \<and> last h' = Read_dashboard (da_id target) (Inr (fresh, Some revision)) \<and>
            reviewed_revision (rq_dashboardBaselines (ca_request c)) (da_id document) (dashboard_fingerprint fresh) revision"
      show "ok (allowed c) (outcome (\<lambda>_. run_inv c ds) (\<lambda>_. run_inv c ds)) (complete_write document action target tag confirmed s) h'"
        using cases same by (intro complete_write_ok [OF inv' active target(1)] write_ok [OF more]) (auto split: if_splits)
    qed
    then show ?thesis unfolding destination(1) True commit_dashboard_def by (simp add: wp case_prod_beta')
  next
    case False
    then have "dashboard_choice (ca_request c) (da_id document) = Copy" using active by (auto simp: active_document_def)
    then have "dashboard_write_ok c h target None" using write_ok [of h None] destination(4) target(1) by simp
    then show ?thesis
      using False complete_write_ok [OF inv active target(1), of False None] by (simp add: commit_dashboard_def destination(1) wp)
  qed
qed

lemma import_dashboard_keeps:
  assumes "active_document c (da_id document)"
  shows "keeps (allowed c) (run_inv c ds) (import_dashboard (ca_platform c) (ca_request c) (ca_env c) mapped document)
    (\<lambda>_. run_inv c ds) (run_inv c ds)"
proof (rule keepsI)
  fix h s
  assume inv: "run_inv c ds h s"
  have "ok (allowed c) (outcome (\<lambda>_. run_inv c ds) (\<lambda>_. run_inv c ds))
      (write_dashboard (ca_platform c) (ca_request c) (ca_env c) mapped document s) h"
    unfolding write_dashboard_def wp
    by (rule outcome_mono [OF resolve_dashboard_ok [OF inv]])
       (auto simp: wp commit_dashboard_ok [OF _ assms] split: option.split)
  then show "ok (allowed c) (outcome (\<lambda>_. run_inv c ds) (\<lambda>_. run_inv c ds))
      (import_dashboard (ca_platform c) (ca_request c) (ca_env c) mapped document s) h"
    unfolding import_dashboard_def using inv by (auto simp: wp elim: outcome_mono)
qed

section \<open>The phases of an import\<close>

text \<open>The library has not been listed yet.\<close>

definition unlisted :: "client_event list \<Rightarrow> bool" where
  "unlisted h \<longleftrightarrow> (\<forall>r. Listed_queries r \<notin> set h)"

lemma keep_query_keeps:
  "keeps (allowed c) (run_inv c ds) (keep_query p req dashboards query) (\<lambda>_. run_inv c ds) (run_inv c ds)"
  by (rule keepsI) (auto simp: keep_query_def wp run_inv_steps)

lemma remap_dashboard_ids:
  assumes "remapDashboardProviders ds mapping providers = Inr es"
  shows "map da_id es = map da_id ds"
proof -
  have "map (remap_dashboard mapping providers) ds = map Inr es"
    using assms unfolding remapDashboardProviders_def by (rule check_all_Inr)
  moreover have "da_id e = da_id d" if "remap_dashboard mapping providers d = Inr e" for d e
    using that by (auto simp: remap_dashboard_def split: sum.splits)
  ultimately show ?thesis by (metis (mono_tags, lifting) length_map nth_equalityI nth_map)
qed

lemma checked_ids: "checkedBundle p b = Inr b' \<Longrightarrow> map da_id (db_dashboards b') = map da_id (db_dashboards b)"
proof -
  assume "checkedBundle p b = Inr b'"
  then have "list_all2 (\<lambda>x y. checked_dashboard p x = Inr y) (db_dashboards b) (db_dashboards b')"
    by (simp add: checkedBundle_Inr)
  moreover have "da_id y = da_id x" if "checked_dashboard p x = Inr y" for x y
    using that by (auto simp: checked_dashboard_def dashboardSchema_Some trim_dashboard_def split: option.splits)
  ultimately show ?thesis by (auto simp: list_all2_conv_all_nth intro: nth_equalityI)
qed

lemma remapImportBundle_ids:
  assumes "remapImportBundle p b mapping providers kept = Inr mapped"
  shows "map da_id (db_dashboards mapped) = map da_id (db_dashboards b)"
  using assms remap_dashboard_ids checked_ids
  by (fastforce simp: remapImportBundle_def buildDashboardBundle_def Let_def split: option.splits)

lemma select_ids:
  assumes "selectBundleDashboards p b ids = Inr selected"
  shows "da_id ` set (db_dashboards selected) \<subseteq> set ids"
proof -
  obtain source chosen where "select_dashboards source ids = Inr chosen" "checkedBundle p chosen = Inr selected"
    using assms by (auto simp: selectBundleDashboards_def)
  moreover from this(1) have "da_id ` set (db_dashboards chosen) \<subseteq> set ids"
    by (auto simp: select_dashboards_def Let_def split: if_splits option.splits)
  ultimately show ?thesis using checked_ids by (metis list.set_map)
qed

lemma listing_inv:
  assumes "run_inv c ds h s" and "unlisted h"
  shows "run_inv c ds (h @ [Listed_queries (Inl m)]) s"
    and "run_inv c ds (h @ [Listed_queries (Inr es)]) (s\<lparr>mr_current := es\<rparr>)"
    and "run_inv c ds h (s\<lparr>mr_current := es'\<rparr>)"
proof -
  have "preflighted c (h @ [e])" for e using assms(1) preflighted_mono [of c h "h @ [e]"] by (auto simp: run_inv_def)
  moreover have "base_inv c h (s\<lparr>mr_current := es\<rparr>)" for es using assms(1) by (simp add: run_inv_def base_inv_def)
  ultimately show "run_inv c ds (h @ [Listed_queries (Inl m)]) s"
    "run_inv c ds (h @ [Listed_queries (Inr es)]) (s\<lparr>mr_current := es\<rparr>)" "run_inv c ds h (s\<lparr>mr_current := es'\<rparr>)"
    using assms base_inv_step by (auto simp: run_inv_def library_known_def unlisted_def)
qed

lemma import_active_keeps:
  assumes "\<And>d. d \<in> set active \<Longrightarrow> active_document c (da_id d)"
  shows "keeps (allowed c) (\<lambda>h s. run_inv c ds h s \<and> unlisted h)
    (import_active (ca_platform c) (ca_uuid c) (ca_request c) (ca_env c) original ds active) (\<lambda>_. run_inv c ds) (run_inv c ds)"
proof (rule keepsI)
  fix h s
  assume inv: "run_inv c ds h s \<and> unlisted h"
  have dashboards: "keeps (allowed c) (run_inv c ds) (act_for (import_dashboard (ca_platform c) (ca_request c) (ca_env c) mapped) (db_dashboards mapped))
      (\<lambda>_. run_inv c ds) (run_inv c ds)"
    if "selectBundleDashboards (ca_platform c) original (map da_id active) = Inr selected"
      "remapImportBundle (ca_platform c) selected mapping providers kept = Inr mapped" for selected mapping providers kept mapped
  proof (rule keeps_for, rule import_dashboard_keeps)
    fix d
    assume "d \<in> set (db_dashboards mapped)"
    then have "da_id d \<in> set (map da_id (db_dashboards mapped))" by simp
    then have "da_id d \<in> set (map da_id active)" using select_ids [OF that(1)] remapImportBundle_ids [OF that(2)] by auto
    then show "active_document c (da_id d)" using assms by auto
  qed
  have queries: "keeps (allowed c) (run_inv c ds) (act_for (prepare_query (ca_platform c) (ca_uuid c) (ca_request c) ds) qs)
      (\<lambda>_. run_inv c ds) (run_inv c ds)" for qs
    by (rule keeps_for [OF prepare_query_keeps])
  have kept: "keeps (allowed c) (run_inv c ds) (act_for (keep_query p req docs) qs) (\<lambda>_. run_inv c ds) (run_inv c ds)" for p req docs qs
    by (rule keeps_for [OF keep_query_keeps])
  have rest: "ok (allowed c) (outcome (\<lambda>_ h s.
        ((\<exists>e. remapImportBundle (ca_platform c) selected mapping providers (mr_keptQueries s) = Inl e) \<longrightarrow> run_inv c ds h s) \<and>
        (\<forall>x. remapImportBundle (ca_platform c) selected mapping providers (mr_keptQueries s) = Inr x \<longrightarrow>
          ok (allowed c) (outcome (\<lambda>_ h' s'. ok (allowed c) (outcome (\<lambda>_. run_inv c ds) (\<lambda>_. run_inv c ds))
              (act_for (import_dashboard (ca_platform c) (ca_request c) (ca_env c) x) (db_dashboards x) s') h') (\<lambda>_. run_inv c ds))
            (act_for (prepare_query (ca_platform c) (ca_uuid c) (ca_request c) ds) (list_of (db_savedQueries x)) s) h))
        (\<lambda>_. run_inv c ds)) (act_for (keep_query (ca_platform c) (ca_request c) docs) qs s') h'"
    if "selectBundleDashboards (ca_platform c) original (map da_id active) = Inr selected" "run_inv c ds h' s'"
    for selected mapping providers docs qs h' s'
    using that(2) keepsD [OF dashboards [OF that(1)]]
    by (auto intro!: keeps_use [OF kept] keeps_use [OF queries])
  show "ok (allowed c) (outcome (\<lambda>_. run_inv c ds) (\<lambda>_. run_inv c ds))
      (import_active (ca_platform c) (ca_uuid c) (ca_request c) (ca_env c) original ds active s) h"
    unfolding import_active_def using inv
    by (auto simp: wp Let_def listing_inv intro!: rest)
qed

subsection \<open>Destinations and the preflight\<close>

text \<open>Before the first call: nothing but the destinations of the session has changed.\<close>

definition start_inv :: "import_case \<Rightarrow> client_event list \<Rightarrow> import_run \<Rightarrow> bool" where
  "start_inv c h s \<longleftrightarrow>
     h = [] \<and> session_ok (ca_uuid c) (mr_session s) \<and> continues (ca_session c) (mr_session s) \<and> im_completed (mr_session s) = ca_completed c \<and>
     im_attempted (mr_session s) = ca_attempted c"

definition chosen :: "import_case \<Rightarrow> Dashboard \<Rightarrow> client_event list \<Rightarrow> import_run \<Rightarrow> bool" where
  "chosen c d h s \<longleftrightarrow>
     (da_id d \<notin> set (ca_completed c) \<longrightarrow>
        js_map_get (im_dashboardActions (mr_session s)) (da_id d) = Some (dashboard_choice (ca_request c) (da_id d)) \<and>
        dashboard_choice (ca_request c) (da_id d) \<in> {Keep, Replace, Copy})"

lemma session_ok_set:
  assumes "session_ok uuid ses" and "destination_ok uuid i (Some a) (js_map_get ids i)"
    and "\<And>j. j \<noteq> i \<Longrightarrow> js_map_get ids j = js_map_get (im_dashboardIds ses) j"
  shows "session_ok uuid (ses\<lparr>im_dashboardIds := ids, im_dashboardActions := js_map_set i a (im_dashboardActions ses)\<rparr>)"
  using assms by (auto simp: session_ok_def js_map_get_set)

lemma assign_destination_keeps:
  "keeps P (\<lambda>h s. start_inv c h s \<and> (\<forall>y\<in>A. chosen c y h s)) (assign_destination (ca_uuid c) (ca_request c) document)
     (\<lambda>_ h s. start_inv c h s \<and> (\<forall>y\<in>insert document A. chosen c y h s)) (failed_inv c)"
proof (rule keepsI)
  fix h s
  assume pre: "start_inv c h s \<and> (\<forall>y\<in>A. chosen c y h s)"
  let ?i = "da_id document" and ?a = "dashboard_choice (ca_request c) (da_id document)" and ?ses = "mr_session s"
  have ok: "session_ok (ca_uuid c) ?ses" using pre by (simp add: start_inv_def)
  have dest: "destination_ok (ca_uuid c) ?i (js_map_get (im_dashboardActions ?ses) ?i) (js_map_get (im_dashboardIds ?ses) ?i)"
    using ok by (simp add: session_ok_def)
  define post where "post h' s' \<longleftrightarrow> start_inv c h' s' \<and> (\<forall>y\<in>insert document A. chosen c y h' s')" for h' s'
  have set: "post h (s\<lparr>mr_uuids := m, mr_session := ?ses\<lparr>im_dashboardIds := ids, im_dashboardActions := js_map_set ?i ?a (im_dashboardActions ?ses)\<rparr>\<rparr>)"
    if "destination_ok (ca_uuid c) ?i (Some ?a) (js_map_get ids ?i)" "\<And>j. j \<noteq> ?i \<Longrightarrow> js_map_get ids j = js_map_get (im_dashboardIds ?ses) j"
      "?a \<in> {Keep, Replace, Copy}" "im_targetsLocked ?ses \<Longrightarrow> js_map_get (im_dashboardIds ?ses) ?i \<noteq> None \<Longrightarrow>
        js_map_get ids ?i = js_map_get (im_dashboardIds ?ses) ?i" for ids m
  proof -
    let ?new = "?ses\<lparr>im_dashboardIds := ids, im_dashboardActions := js_map_set ?i ?a (im_dashboardActions ?ses)\<rparr>"
    have "js_map_get ids j = Some k" if "im_targetsLocked ?ses" "js_map_get (im_dashboardIds ?ses) j = Some k" for j k
      using that \<open>\<And>j. j \<noteq> ?i \<Longrightarrow> _\<close> \<open>_ \<Longrightarrow> _ \<Longrightarrow> js_map_get ids ?i = _\<close> by (cases "j = ?i") auto
    then have "continues ?ses ?new" by (simp add: continues_def)
    then have "continues (ca_session c) ?new" using pre continues_trans by (auto simp: start_inv_def)
    then show ?thesis
      using pre that(3) session_ok_set [OF ok that(1,2)] by (auto simp: post_def start_inv_def chosen_def js_map_get_set)
  qed
  have copied: "post h (s\<lparr>mr_uuids := Suc (mr_uuids s), mr_session := ?ses\<lparr>im_dashboardIds :=
      js_map_set ?i (''dashboard-'' @ ca_uuid c (mr_uuids s)) (im_dashboardIds ?ses), im_dashboardActions := js_map_set ?i Copy (im_dashboardActions ?ses)\<rparr>\<rparr>)"
    if "?a = Copy" "im_targetsLocked ?ses \<Longrightarrow> js_map_get (im_dashboardIds ?ses) ?i = None"
    using that set [of "js_map_set ?i (''dashboard-'' @ ca_uuid c (mr_uuids s)) (im_dashboardIds ?ses)" "Suc (mr_uuids s)"]
    by (auto simp: destination_ok_def fresh_dashboard_def js_map_get_set)
  have itself: "post h (s\<lparr>mr_session := ?ses\<lparr>im_dashboardIds := js_map_set ?i ?i (im_dashboardIds ?ses),
      im_dashboardActions := js_map_set ?i ?a (im_dashboardActions ?ses)\<rparr>\<rparr>)"
    if "?a \<noteq> Copy" "?a \<in> {Keep, Replace, Copy}" "im_targetsLocked ?ses \<Longrightarrow> js_map_get (im_dashboardIds ?ses) ?i = None"
    using that set [of "js_map_set ?i ?i (im_dashboardIds ?ses)" "mr_uuids s"] by (simp add: destination_ok_def js_map_get_set)
  have same: "post h (s\<lparr>mr_session := ?ses\<lparr>im_dashboardActions := js_map_set ?i ?a (im_dashboardActions ?ses)\<rparr>\<rparr>)"
    if "js_map_get (im_dashboardIds ?ses) ?i \<noteq> None" "(js_map_get (im_dashboardActions ?ses) ?i = Some Copy) = (?a = Copy)"
      "?a \<in> {Keep, Replace, Copy}"
    using that dest set [of "im_dashboardIds ?ses" "mr_uuids s"] by (auto simp: destination_ok_def split: option.splits if_splits)
  have "js_map_get (im_dashboardActions ?ses) ?i = None \<Longrightarrow> js_map_get (im_dashboardIds ?ses) ?i = None"
    using dest by (simp add: destination_ok_def)
  moreover have "failed_inv c h s" using pre by (simp add: start_inv_def failed_inv_def lodged_def)
  moreover have "?i \<in> set (im_completed ?ses) \<Longrightarrow> post h s" using pre by (auto simp: post_def start_inv_def chosen_def)
  ultimately have "ok P (outcome (\<lambda>_. post) (\<lambda>_. failed_inv c))
      (assign_destination (ca_uuid c) (ca_request c) document s) h"
    unfolding assign_destination_def using ok copied itself same by (auto simp: wp Let_def)
  then show "ok P (outcome (\<lambda>_ h s. start_inv c h s \<and> (\<forall>y\<in>insert document A. chosen c y h s)) (\<lambda>_. failed_inv c))
      (assign_destination (ca_uuid c) (ca_request c) document s) h"
    unfolding post_def .
qed

text \<open>The reads of the preflight.\<close>

definition preflight_inv :: "import_case \<Rightarrow> Dashboard list \<Rightarrow> client_event list \<Rightarrow> import_run \<Rightarrow> bool" where
  "preflight_inv c ds h s \<longleftrightarrow>
     base_inv c h s \<and> im_attempted (mr_session s) = ca_attempted c \<and> Listed (Inr ds) \<in> set h \<and> unlisted h"

definition examined :: "import_case \<Rightarrow> Dashboard \<Rightarrow> client_event list \<Rightarrow> bool" where
  "examined c d h \<longleftrightarrow>
     dashboard_choice (ca_request c) (da_id d) \<noteq> Copy \<longrightarrow>
     (\<exists>fresh tag. Read_dashboard (da_id d) (Inr (fresh, tag)) \<in> set h \<and>
        (unchanged_since_review (ca_request c) (da_id d) fresh tag \<or>
         dashboard_choice (ca_request c) (da_id d) = Replace \<and>
           dashboard_receipt (da_id d) (dashboard_fingerprint fresh) \<in> set (ca_attempted c)))"

lemma examined_step: "examined c d h \<Longrightarrow> examined c d (h @ es)"
  unfolding examined_def set_append by blast

lemma preflight_inv_step: "preflight_inv c ds h s \<Longrightarrow> plain_call e \<Longrightarrow> preflight_inv c ds (h @ [e]) s"
  using base_inv_step [of c h s e] by (cases e) (auto simp: preflight_inv_def unlisted_def)

lemma unchanged_check:
  "checkBaseline e e' (dashboard_fingerprint fresh) tag (baseline_of (rq_dashboardBaselines req) i) replacing = None \<Longrightarrow>
     unchanged_since_review req i fresh tag"
  by (auto simp: checkBaseline_def unchanged_since_review_def split: option.splits if_splits)

lemma preflight_keeps:
  assumes "document \<in> set (ca_documents c)" and "da_id document \<notin> set (ca_completed c)"
  shows "keeps (allowed c) (\<lambda>h s. preflight_inv c ds h s \<and> (\<forall>d\<in>A. examined c d h)) (preflight (ca_request c) document)
    (\<lambda>_ h s. preflight_inv c ds h s \<and> (\<forall>d\<in>insert document A. examined c d h)) (base_inv c)"
proof (rule keepsI)
  fix h s
  assume pre: "preflight_inv c ds h s \<and> (\<forall>d\<in>A. examined c d h)"
  let ?choice = "dashboard_choice (ca_request c) (da_id document)"
  have action: "js_map_get (im_dashboardActions (mr_session s)) (da_id document) = Some ?choice"
    using pre assms by (simp add: preflight_inv_def base_inv_def assigned_def)
  have read: "examined c document (h @ [Read_dashboard (da_id document) (Inr (fresh, tag))])"
    if "unchanged_since_review (ca_request c) (da_id document) fresh tag \<or>
      ?choice = Replace \<and> dashboard_receipt (da_id document) (dashboard_fingerprint fresh) \<in> set (im_attempted (mr_session s))" for fresh tag
    using that pre unfolding examined_def preflight_inv_def by auto
  have "?choice = Copy \<Longrightarrow> examined c document h" by (simp add: examined_def)
  moreover have "preflight_inv c ds (h @ [Read_dashboard i r]) s" "base_inv c (h @ [Read_dashboard i r]) s" for i r
    using pre preflight_inv_step [of c ds h s] base_inv_step [of c h s] by (auto simp: preflight_inv_def)
  ultimately show "ok (allowed c) (outcome (\<lambda>_ h s. preflight_inv c ds h s \<and> (\<forall>d\<in>insert document A. examined c d h)) (\<lambda>_. base_inv c))
      (preflight (ca_request c) document s) h"
    unfolding preflight_def using pre read
    by (auto simp: wp Let_def action examined_step dest: unchanged_check)
qed

subsection \<open>The whole import\<close>

definition result_inv :: "import_case \<Rightarrow> BundleImportResult \<Rightarrow> client_event list \<Rightarrow> import_run \<Rightarrow> bool" where
  "result_inv c result h s \<longleftrightarrow>
     failed_inv c h s \<and> accounted c h (mr_session s) \<and>
     br_failed result = filter (\<lambda>d. da_id d \<notin> set (im_completed (mr_session s))) (ca_documents c) \<and>
     (br_complete result \<longleftrightarrow> br_failed result = [])"

lemma inv_failed: "run_inv c ds h s \<Longrightarrow> failed_inv c h s" "base_inv c h s \<Longrightarrow> failed_inv c h s"
  by (simp_all add: run_inv_def base_inv_def failed_inv_def)

lemma mark_kept_keeps:
  assumes "document \<in> set (ca_documents c)" and "da_id document \<notin> set (ca_completed c)"
  shows "keeps P (run_inv c ds) (mark_kept document) (\<lambda>_. run_inv c ds) (run_inv c ds)"
proof (rule keepsI)
  fix h s
  assume inv: "run_inv c ds h s"
  then have "js_map_get (im_dashboardActions (mr_session s)) (da_id document) = Some (dashboard_choice (ca_request c) (da_id document))"
    using assms by (simp add: run_inv_def base_inv_def assigned_def)
  then show "ok P (outcome (\<lambda>_. run_inv c ds) (\<lambda>_. run_inv c ds)) (mark_kept document s) h"
    unfolding mark_kept_def using inv completed_inv [OF inv, of "da_id document"] by (auto simp: wp)
qed

lemma conclude_ok:
  assumes "run_inv c ds h s" and "db_dashboards original = ca_documents c"
  shows "ok P (outcome (result_inv c) (\<lambda>_. failed_inv c)) (conclude original s) h"
  using assms by (simp add: conclude_def wp Let_def result_inv_def failed_inv_def run_inv_def base_inv_def)

lemma preflighted_all:
  assumes "preflight_inv c ds h s" and "\<forall>d\<in>set (filter (\<lambda>d. da_id d \<notin> set (ca_completed c)) (ca_documents c)). examined c d h"
  shows "run_inv c ds h s \<and> unlisted h"
  using assms by (auto simp: run_inv_def preflight_inv_def preflighted_def examined_def library_known_def unlisted_def)

lemma import_pending_ok:
  assumes base: "base_inv c h s" and "im_attempted (mr_session s) = ca_attempted c" and "unlisted h"
    and documents: "db_dashboards original = ca_documents c"
    and pending: "pending = filter (\<lambda>d. da_id d \<notin> set (ca_completed c)) (ca_documents c)"
  shows "ok (allowed c) (outcome (result_inv c) (\<lambda>_. failed_inv c))
    (import_pending (ca_platform c) (ca_uuid c) (ca_request c) (ca_env c) original pending s) h"
proof -
  let ?action = "\<lambda>d. js_map_get (im_dashboardActions (mr_session s)) (da_id d)"
  let ?active = "filter (\<lambda>d. ?action d \<noteq> Some Keep) pending"
  have active: "active_document c (da_id d)" if "d \<in> set ?active" for d
    using that base pending by (auto simp: active_document_def base_inv_def assigned_def)
  have marked: "keeps (allowed c) (run_inv c ds) (act_for mark_kept pending) (\<lambda>_. run_inv c ds) (run_inv c ds)" for ds
    using pending by (intro keeps_for mark_kept_keeps) auto
  have finish: "ok (allowed c) (outcome (\<lambda>_ h s. ok (allowed c) (outcome (result_inv c) (\<lambda>_. failed_inv c)) (conclude original s) h)
      (\<lambda>_. failed_inv c)) (act_for mark_kept pending s') h'" if "run_inv c ds h' s'" for ds h' s'
    using that by (auto intro!: keeps_use [OF marked] conclude_ok documents dest: inv_failed)
  have written: "ok (allowed c) (outcome (\<lambda>_ h s. ok (allowed c) (outcome (\<lambda>_ h s. ok (allowed c) (outcome (result_inv c) (\<lambda>_. failed_inv c))
        (conclude original s) h) (\<lambda>_. failed_inv c)) (act_for mark_kept pending s) h) (\<lambda>_. failed_inv c))
      (import_active (ca_platform c) (ca_uuid c) (ca_request c) (ca_env c) original ds ?active s') h'"
    if "run_inv c ds h' s' \<and> unlisted h'" for ds h' s'
    using that by (intro keeps_use [OF import_active_keeps [OF active]]) (auto intro: finish dest: inv_failed)
  have reviewed: "keeps (allowed c) (\<lambda>h s. preflight_inv c ds h s) (act_for (preflight (ca_request c)) pending)
      (\<lambda>_ h s. run_inv c ds h s \<and> unlisted h) (base_inv c)" for ds
  proof -
    have "keeps (allowed c) (\<lambda>h s. preflight_inv c ds h s \<and> (\<forall>d\<in>{}. examined c d h)) (act_for (preflight (ca_request c)) pending)
        (\<lambda>_ h s. preflight_inv c ds h s \<and> (\<forall>d\<in>{} \<union> set pending. examined c d h)) (base_inv c)"
      by (rule keeps_for_all, rule preflight_keeps) (auto simp: pending)
    then show ?thesis by (rule keeps_weaken) (auto simp: pending dest: preflighted_all)
  qed
  have start: "preflight_inv c ds (h @ [Listed (Inr ds)]) s" for ds
    using assms(1-3) by (auto simp: preflight_inv_def unlisted_def base_inv_step)
  have "failed_inv c (h @ [Listed r]) s" for r using base_inv_step [OF base] by (intro inv_failed) simp
  then show ?thesis
    unfolding import_pending_def
    by (auto simp: wp Let_def intro!: keeps_use [OF reviewed] start finish written dest: inv_failed)
qed

lemma assigned_destinations:
  "keeps (allowed c) (start_inv c) (act_for (assign_destination (ca_uuid c) (ca_request c)) (ca_documents c))
     (\<lambda>_ h s. start_inv c h s \<and> base_inv c h s) (failed_inv c)"
proof -
  have "keeps (allowed c) (\<lambda>h s. start_inv c h s \<and> (\<forall>y\<in>{}. chosen c y h s))
      (act_for (assign_destination (ca_uuid c) (ca_request c)) (ca_documents c))
      (\<lambda>_ h s. start_inv c h s \<and> (\<forall>y\<in>{} \<union> set (ca_documents c). chosen c y h s)) (failed_inv c)"
    by (rule keeps_for_all, rule assign_destination_keeps)
  then show ?thesis
    by (rule keeps_weaken) (auto simp: start_inv_def base_inv_def chosen_def assigned_def accounted_def failed_inv_def lodged_def)
qed

lemma import_body_ok:
  assumes "start_inv c [] s" and documents: "db_dashboards original = ca_documents c"
  shows "ok (allowed c) (outcome (result_inv c) (\<lambda>_. failed_inv c))
    (import_body (ca_platform c) (ca_uuid c) (ca_request c) (ca_env c) original s) []"
proof -
  have pending: "ok (allowed c) (outcome (result_inv c) (\<lambda>_. failed_inv c))
      (import_pending (ca_platform c) (ca_uuid c) (ca_request c) (ca_env c) original
        (filter (\<lambda>d. da_id d \<notin> set (im_completed (mr_session s'))) (ca_documents c)) (s'\<lparr>mr_result := r\<rparr>)) h"
    if "start_inv c h s' \<and> base_inv c h s'" for h s' r
    using that documents by (intro import_pending_ok) (auto simp: start_inv_def base_inv_def unlisted_def)
  have "result_inv c r h (s'\<lparr>mr_result := r'\<rparr>)"
    if "start_inv c h s' \<and> base_inv c h s'" "br_failed r = []" "br_complete r"
      "filter (\<lambda>d. da_id d \<notin> set (im_completed (mr_session s'))) (ca_documents c) = []" for h s' r r'
    using that by (simp add: result_inv_def failed_inv_def base_inv_def)
  then show ?thesis
    unfolding import_body_def documents
    by (auto simp: wp Let_def assms(1) pending intro!: keeps_use [OF assigned_destinations])
qed

section \<open>Importers\<close>

text \<open>The importers that arise when one import runs after the other, from the one without sessions.\<close>

inductive used_importer :: "platform \<Rightarrow> (nat \<Rightarrow> string) \<Rightarrow> importer \<Rightarrow> bool" for p uuid where
  initial: "used_importer p uuid new_importer"
| import: "used_importer p uuid imp \<Longrightarrow> runs (importBundle p uuid req env imp) es (r, imp', cs) \<Longrightarrow> used_importer p uuid imp'"

definition opened_case ::
    "platform \<Rightarrow> (nat \<Rightarrow> string) \<Rightarrow> BundleImportRequest \<Rightarrow> BundleImportEnvironment \<Rightarrow> DashboardBundle \<Rightarrow> ImportSession \<Rightarrow> import_case" where
  "opened_case p uuid req env original session =
     \<lparr>ca_platform = p, ca_uuid = uuid, ca_request = req, ca_env = env, ca_documents = db_dashboards original,
      ca_session = session\<rparr>"

lemma opened_case_simps [simp]:
  "ca_platform (opened_case p uuid req env b ses) = p" "ca_uuid (opened_case p uuid req env b ses) = uuid"
  "ca_request (opened_case p uuid req env b ses) = req" "ca_env (opened_case p uuid req env b ses) = env"
  "ca_documents (opened_case p uuid req env b ses) = db_dashboards b"
  "ca_session (opened_case p uuid req env b ses) = ses"
  by (simp_all add: opened_case_def)

lemma evict_eq: "evict_sessions sessions = drop (length sessions - 8) sessions"
proof (induction sessions rule: evict_sessions.induct)
  case (1 sessions)
  show ?case
  proof (cases "8 < length sessions")
    case True
    then have "length sessions - 8 = Suc (length (tl sessions) - 8)" by simp
    then show ?thesis using 1 True by (simp add: evict_sessions.simps [of sessions] drop_Suc)
  next
    case False
    then show ?thesis by (simp add: evict_sessions.simps [of sessions])
  qed
qed

lemma new_session_ok [simp]: "session_ok uuid (new_session source)"
  by (simp add: session_ok_def new_session_def destination_ok_def)

text \<open>The sessions once the one to run is among them.\<close>

definition sessions_ok :: "(nat \<Rightarrow> string) \<Rightarrow> string \<Rightarrow> (string, ImportSession) js_map \<Rightarrow> bool" where
  "sessions_ok uuid key sessions \<longleftrightarrow>
     distinct (map fst sessions) \<and> length sessions \<le> 8 \<and> key \<in> fst ` set sessions \<and> (\<forall>(k, ses)\<in>set sessions. session_ok uuid ses)"

lemma added_session_ok:
  assumes "importer_ok uuid imp" and "js_map_get (ip_sessions imp) key = None"
  shows "sessions_ok uuid key (evict_sessions (js_map_set key (new_session source) (ip_sessions imp)))"
proof -
  let ?old = "ip_sessions imp" and ?new = "(key, new_session source)"
  have unknown: "key \<notin> fst ` set ?old" using assms(2) by (simp add: js_map_get_def map_of_eq_None_iff)
  have "length ?old \<le> 8" and distinct: "distinct (map fst ?old)" and sessions: "\<forall>(k, ses)\<in>set ?old. session_ok uuid ses"
    using assms(1) by (simp_all add: importer_ok_def)
  then have "evict_sessions (js_map_set key (new_session source) ?old) = drop (length ?old - 7) ?old @ [?new]"
    using unknown by (simp add: js_map_set_new evict_eq)
  moreover have "set (drop n ?old) \<subseteq> set ?old" "distinct (map fst (drop n ?old))" for n
    using distinct by (simp_all add: set_drop_subset drop_map [symmetric])
  moreover have "length (drop (length ?old - 7) ?old) \<le> 7" by simp
  ultimately show ?thesis
    using sessions unknown unfolding sessions_ok_def by (force dest!: in_set_dropD)
qed

lemma open_session_ok:
  assumes "importer_ok uuid imp" and "open_session p req imp = Inr (original, session, sessions)"
  shows "session_ok uuid session \<and> sessions_ok uuid (rq_sessionId req) sessions"
proof (cases "js_map_get (ip_sessions imp) (rq_sessionId req)")
  case None
  then show ?thesis using assms added_session_ok [OF assms(1) None] by (auto simp: open_session_def split: if_splits)
next
  case (Some ses)
  then have "(rq_sessionId req, ses) \<in> set (ip_sessions imp)" by (rule js_map_get_in)
  then show ?thesis
    using assms Some by (force simp: open_session_def importer_ok_def sessions_ok_def split: if_splits)
qed

lemma stored_session_ok:
  assumes "sessions_ok uuid key sessions" and "session_ok uuid session"
  shows "importer_ok uuid \<lparr>ip_sessions = js_map_set key session sessions, ip_running = False, ip_uuids = n\<rparr>"
proof -
  have "length (js_map_set key session sessions) = length sessions"
    using assms(1) by (metis sessions_ok_def fst_set_js_map_set insert_absorb distinct_keys_js_map_set distinct_card length_map list.set_map)
  then show ?thesis
    using assms by (auto simp: importer_ok_def sessions_ok_def dest!: set_js_map_set)
qed

text \<open>An import makes only allowed calls, ends with an accurate result and leaves an importer at rest.\<close>

definition import_post :: "import_case \<Rightarrow> string \<Rightarrow> client_event list \<Rightarrow> (import_error + BundleImportResult) \<times> importer \<times> callback list \<Rightarrow> bool" where
  "import_post c key h = (\<lambda>(r, imp', cs). importer_ok (ca_uuid c) imp' \<and>
     (\<exists>s. js_map_get (ip_sessions imp') key = Some (mr_session s) \<and> failed_inv c h s \<and>
        (\<forall>result. r = Inr result \<longrightarrow> result_inv c result h s)))"

lemma importBundle_ok:
  fixes env :: BundleImportEnvironment
  assumes importer: "importer_ok uuid imp" and opened: "open_session p req imp = Inr (original, session, sessions)"
  defines "c \<equiv> opened_case p uuid req env original session"
  shows "ok (allowed c) (import_post c (rq_sessionId req)) (importBundle p uuid req env imp) []"
proof -
  have sessions: "session_ok uuid session" "sessions_ok uuid (rq_sessionId req) sessions"
    using open_session_ok [OF importer opened] by auto
  have "start_inv c [] (start_run session (ip_uuids imp))"
    using sessions(1) by (simp add: c_def start_inv_def start_run_def)
  then have "ok (allowed c) (outcome (result_inv c) (\<lambda>_. failed_inv c))
      (import_body p uuid req env original (start_run session (ip_uuids imp))) []"
    using import_body_ok [of c "start_run session (ip_uuids imp)" original] by (simp add: c_def)
  then show ?thesis
    unfolding importBundle_def opened sum.case prod.case ok_bind
  proof (rule ok_mono)
    fix h and rs :: "(import_error + BundleImportResult) \<times> import_run"
    assume post: "outcome (result_inv c) (\<lambda>_. failed_inv c) h rs"
    obtain r s where rs: "rs = (r, s)" by (cases rs)
    have failed: "failed_inv c h s" using post rs by (cases r) (simp_all add: result_inv_def)
    then have "session_ok uuid (mr_session s)" by (simp add: failed_inv_def c_def)
    moreover have "r = Inr result \<Longrightarrow> result_inv c result h s" for result using post rs by simp
    ultimately show "ok (allowed c) (import_post c (rq_sessionId req)) (case rs of (r, s) \<Rightarrow>
        Done (r, \<lparr>ip_sessions = js_map_set (rq_sessionId req) (mr_session s) sessions, ip_running = False, ip_uuids = mr_uuids s\<rparr>,
          mr_callbacks s)) h"
      using failed stored_session_ok [OF sessions(2)] by (auto simp: rs import_post_def js_map_get_set c_def)
  qed
qed

lemma importBundle_refused:
  "open_session p req imp = Inl e \<Longrightarrow> importBundle p uuid req env imp = Done (Inl e, imp, [])"
  by (simp add: importBundle_def)

inductive_cases trace_DoneE: "trace (Done x) es"
inductive_cases runs_DoneE: "runs (Done x) es y"

lemma used_importer_ok: "used_importer p uuid imp \<Longrightarrow> importer_ok uuid imp"
proof (induction rule: used_importer.induct)
  case initial
  show ?case by (simp add: importer_ok_def new_importer_def)
next
  case (import imp req env es r imp' cs)
  show ?case
  proof (cases "open_session p req imp")
    case (Inl e)
    then show ?thesis using import by (auto simp: importBundle_refused elim: runs_DoneE)
  next
    case (Inr opened)
    obtain original session sessions where "opened = (original, session, sessions)" by (cases opened)
    then have "ok (allowed (opened_case p uuid req env original session)) (import_post (opened_case p uuid req env original session)
        (rq_sessionId req)) (importBundle p uuid req env imp) []"
      using Inr importBundle_ok [OF import.IH] by blast
    from ok_runs [OF import.hyps(2) this] show ?thesis by (simp add: import_post_def)
  qed
qed

lemma import_calls_allowed:
  assumes "used_importer p uuid imp" and "trace (importBundle p uuid req env imp) (pre @ e # post)"
  shows "\<exists>original session sessions. open_session p req imp = Inr (original, session, sessions) \<and>
    allowed (opened_case p uuid req env original session) pre e"
proof (cases "open_session p req imp")
  case (Inl error)
  then show ?thesis using assms(2) by (auto simp: importBundle_refused elim: trace_DoneE)
next
  case (Inr opened)
  obtain original session sessions where opened: "opened = (original, session, sessions)" by (cases opened)
  have "allowed (opened_case p uuid req env original session) ([] @ pre) e"
    by (rule ok_trace [OF assms(2) importBundle_ok [OF used_importer_ok [OF assms(1)]] refl]) (use Inr opened in simp)
  then show ?thesis using Inr opened by auto
qed

end
