(* ===== verification/ImportSafety.thy ===== *)
theory ImportSafety
  imports ImportLaws
begin

text \<open>
  What an import does to a workspace, for every answer of the server, for whatever others write meanwhile,
  and for an importer that any sequence of imports has left: the laws of \<open>ImportLaws\<close> written out over the
  calls an import makes and the result it returns, each with a run that has the property.
\<close>

section \<open>Two imports\<close>

definition old_revision :: string where
  "old_revision = [CHR 0x22, CHR ''7'', CHR 0x22]"

lemma old_revision_nonempty [simp]: "old_revision \<noteq> []"
  by (simp add: old_revision_def)

text \<open>An import that replaces the one dashboard of a bundle, which nobody changed since the review.\<close>

definition replace_request :: BundleImportRequest where
  "replace_request = \<lparr>rq_sessionId = ''review'', rq_bundle = plain_bundle, rq_providerMapping = [], rq_queryChoices = [],
     rq_dashboardChoices = Some [(''dashboard-1'', Replace)],
     rq_dashboardBaselines = Some [(''dashboard-1'',
       \<lparr>ib_fingerprint = Some (dashboard_fingerprint (newDashboard ''1'')), ib_etag = Some old_revision\<rparr>)],
     rq_queryBaselines = None\<rparr>"

definition no_environment :: BundleImportEnvironment where
  "no_environment = \<lparr>en_providers = [], en_dashboards = []\<rparr>"

definition unchanged_read :: client_event where
  "unchanged_read = Read_dashboard ''dashboard-1'' (Inr (newDashboard ''1'', Some old_revision))"

definition replace_calls :: "client_event list" where
  "replace_calls = [Listed (Inr []), unchanged_read, unchanged_read]"

lemma plain_source: "serializeDashboardBundle sample_platform plain_bundle = Inr (library_text plain_bundle)"
  using plain_bundle_checked plain_sizes(3) by (simp add: serializeDashboardBundle_def)

lemma plain_opened:
  assumes "rq_bundle req = plain_bundle" "rq_sessionId req = ''review''"
  shows "open_session sample_platform req new_importer =
    Inr (plain_bundle, new_session (library_text plain_bundle), [(''review'', new_session (library_text plain_bundle))])"
proof -
  have "parseDashboardBundle sample_platform (\<lambda>_. Inr (printed_value plain_bundle)) (library_text plain_bundle) = Inr plain_bundle"
    using plain_bundle_checked plain_sizes(3) by (simp add: parse_printed)
  then show ?thesis
    using plain_source plain_bundle_checked assms
    by (simp add: open_session_def new_importer_def and_then_def map_error_def js_map_set_def evict_sessions.simps)
qed


inductive_simps runs_simps:
  "runs (Done x) es y" "runs (List_dashboards k1) es y" "runs (List_queries k2) es y" "runs (Get_dashboard i k3) es y"
  "runs (Get_query i k4) es y" "runs (Save_dashboard d t k5) es y" "runs (Save_query q t k6) es y"

inductive_simps trace_simps:
  "trace (Done x) es" "trace (List_dashboards k1) es" "trace (List_queries k2) es" "trace (Get_dashboard i k3) es"
  "trace (Get_query i k4) es" "trace (Save_dashboard d t k5) es" "trace (Save_query q t k6) es"

lemma runs_trace: "runs m es x \<Longrightarrow> trace m es"
  by (induction rule: runs.induct) (auto intro: trace.intros)

lemmas action_defs = act_return_def act_throw_def act_bind_def act_then_def act_catch_def act_read_def act_update_def act_lift_def
  update_session_def update_result_def call_back_def lift_bundle_def throw_some_def answered_def client_list_def
  client_listSavedQueries_def client_get_def client_getSavedQuery_def client_save_def client_saveSavedQuery_def
  session_action_def attempt_def

lemma plain_selected: "selectBundleDashboards sample_platform plain_bundle [''dashboard-1''] = Inr plain_bundle"
proof -
  have "select_dashboards plain_bundle [''dashboard-1''] = Inr plain_bundle" by code_simp
  then show ?thesis using plain_bundle_checked by (simp add: selectBundleDashboards_def)
qed

lemma plain_remapped:
  "remapImportBundle sample_platform plain_bundle [] [] [] = Inr plain_bundle"
  "remapBundleQueryReferences sample_platform plain_bundle [] = Inr plain_bundle"
  "buildDashboardBundle sample_platform [newDashboard ''1''] [] = Inr (plain_bundle\<lparr>db_savedQueries := Some []\<rparr>)"
proof -
  show "remapImportBundle sample_platform plain_bundle [] [] [] = Inr plain_bundle" by code_simp
  have "remap_references plain_bundle [] = plain_bundle" by code_simp
  then show "remapBundleQueryReferences sample_platform plain_bundle [] = Inr plain_bundle"
    using plain_bundle_checked by (simp add: remapBundleQueryReferences_def)
  have "byteLength (bundle_value (plain_bundle\<lparr>db_savedQueries := Some []\<rparr>)) \<le> MAX_LIBRARY_BYTES"
    by (simp add: byteLength_def bundle_value_def plain_bundle_def dashboard_value_def newDashboard_def
      MAX_LIBRARY_BYTES_def document_text)
  moreover have "checked_dashboard sample_platform (newDashboard ''1'') = Inr (newDashboard ''1'')"
    using plain_bundle_checked by (simp add: checkedBundle_Inr plain_bundle_def)
  ultimately have "checkedBundle sample_platform (plain_bundle\<lparr>db_savedQueries := Some []\<rparr>) = Inr (plain_bundle\<lparr>db_savedQueries := Some []\<rparr>)"
    by (simp add: checkedBundle_Inr plain_bundle_def validateClosure_def references_def newDashboard_def)
  then show "buildDashboardBundle sample_platform [newDashboard ''1''] [] = Inr (plain_bundle\<lparr>db_savedQueries := Some []\<rparr>)"
    using plain_bundle_checked by (simp add: buildDashboardBundle_def plain_bundle_def references_def newDashboard_def js_set_def)
qed

lemma plain_target: "dashboardSchema sample_platform (retarget [(''dashboard-1'', ''dashboard-1'')] ''dashboard-1'' (newDashboard ''1'')) =
    Some (newDashboard ''1'')"
  by code_simp

lemma plain_fields:
  "da_id (newDashboard ''1'') = ''dashboard-1''" "db_dashboards plain_bundle = [newDashboard ''1'']" "db_savedQueries plain_bundle = None"
  "referencedQueries (newDashboard ''1'') = []"
  by code_simp+

lemma replace_fields:
  "rq_sessionId replace_request = ''review''" "rq_bundle replace_request = plain_bundle" "rq_providerMapping replace_request = []"
  "dashboard_choice replace_request ''dashboard-1'' = Replace"
  "checkBaseline e e' (dashboard_fingerprint (newDashboard ''1'')) (Some old_revision)
     (baseline_of (rq_dashboardBaselines replace_request) ''dashboard-1'') True = None"
  by (simp_all add: replace_request_def dashboard_choice_def checkBaseline_def baseline_of_def present_text_def js_map_get_def)

lemmas import_defs = importBundle_def import_body_def start_run_def new_session_def
    assign_destination_def js_map_get_def js_map_set_def action_defs Let_def
    import_pending_def preflight_def import_active_def import_dashboard_def write_dashboard_def
    resolve_dashboard_def commit_dashboard_def replaced_revision_def complete_write_def save_dashboard_confirmed_def
    js_set_add_def mark_kept_def conclude_def

lemma replace_run:
  "\<exists>result imp' cs. runs (importBundle sample_platform nat_str replace_request no_environment new_importer)
     (replace_calls @ [Wrote_dashboard (newDashboard ''1'') (Some old_revision) (Inr (Some ''8''))]) (Inr result, imp', cs) \<and>
     br_failed result = []"
  by (simp add: import_defs plain_opened replace_fields plain_fields no_environment_def replace_calls_def unchanged_read_def
    runs_simps plain_selected plain_remapped plain_target)

text \<open>
  The same import when the server takes the write and the answer is lost, and the retry that finds the dashboard
  as written.
\<close>

definition lost_calls :: "client_event list" where
  "lost_calls = replace_calls @ [Wrote_dashboard (newDashboard ''1'') (Some old_revision) (Inl ''lost''), Read_dashboard ''dashboard-1'' (Inl ''lost'')]"

definition lost_importer :: importer where
  "lost_importer = \<lparr>ip_sessions = [(''review'', \<lparr>im_source = library_text plain_bundle,
     im_dashboardIds = [(''dashboard-1'', ''dashboard-1'')], im_dashboardActions = [(''dashboard-1'', Replace)], im_completed = [],
     im_queryCopies = [], im_attempted = [dashboard_receipt ''dashboard-1'' (dashboard_fingerprint (newDashboard ''1''))],
     im_targetsLocked = True\<rparr>)], ip_running = False, ip_uuids = 0\<rparr>"

definition written_read :: client_event where
  "written_read = Read_dashboard ''dashboard-1'' (Inr (newDashboard ''1'', Some ''8''))"

lemma lost_run:
  "\<exists>result cs. runs (importBundle sample_platform nat_str replace_request no_environment new_importer) lost_calls
     (Inr result, lost_importer, cs)"
  by (simp add: import_defs plain_opened replace_fields plain_fields no_environment_def replace_calls_def unchanged_read_def
    runs_simps plain_selected plain_remapped plain_target lost_calls_def lost_importer_def new_importer_def [THEN arg_cong, of ip_uuids])

lemma lost_opened:
  "open_session sample_platform replace_request lost_importer =
    Inr (plain_bundle, snd (hd (ip_sessions lost_importer)), ip_sessions lost_importer)"
proof -
  have "parseDashboardBundle sample_platform (\<lambda>_. Inr (printed_value plain_bundle)) (library_text plain_bundle) = Inr plain_bundle"
    using plain_bundle_checked plain_sizes(3) by (simp add: parse_printed)
  then show ?thesis
    using plain_source plain_bundle_checked
    by (simp add: open_session_def lost_importer_def replace_fields and_then_def map_error_def js_map_get_def)
qed

lemma retry_run:
  "\<exists>result imp' cs. runs (importBundle sample_platform nat_str replace_request no_environment lost_importer)
     [Listed (Inr []), written_read, written_read] (Inr result, imp', cs)"
  by (simp add: import_defs lost_opened replace_fields plain_fields no_environment_def written_read_def
    runs_simps plain_selected plain_remapped plain_target lost_importer_def [THEN arg_cong, of ip_sessions])

text \<open>An import of a dashboard as a copy, with the saved query that its widget shows.\<close>

definition library_query :: SavedQuery where
  "library_query = sample_query\<lparr>sq_parameters := None\<rparr>"

definition library_dashboard :: Dashboard where
  "library_dashboard = (newDashboard ''1'')\<lparr>da_widgets := [(sample_widget (Some \<lparr>sr_id = ''q'', sr_bindings = None\<rparr>))
     \<lparr>wi_layout := \<lparr>box_x = 0, box_y = 0, box_w = 1, box_h = 1\<rparr>\<rparr>]\<rparr>"

definition library_bundle :: DashboardBundle where
  "library_bundle = \<lparr>db_dashboards = [library_dashboard], db_savedQueries = Some [library_query]\<rparr>"

definition library_request :: BundleImportRequest where
  "library_request = \<lparr>rq_sessionId = ''review'', rq_bundle = library_bundle, rq_providerMapping = [], rq_queryChoices = [],
     rq_dashboardChoices = None, rq_dashboardBaselines = None, rq_queryBaselines = None\<rparr>"

definition library_environment :: BundleImportEnvironment where
  "library_environment = \<lparr>en_providers = [\<lparr>pr_id = ''p'', pr_name = ''P'', pr_capabilities = [Metrics]\<rparr>], en_dashboards = []\<rparr>"

lemmas library_documents = library_bundle_def library_dashboard_def library_query_def newDashboard_def sample_widget_def sample_query_def

lemma library_sizes:
  "byteLength (query_value library_query) \<le> MAX_SAVED_QUERY_BYTES"
  "byteLength (dashboard_value library_dashboard) \<le> MAX_DOCUMENT_BYTES"
  "byteLength (bundle_value library_bundle) \<le> MAX_LIBRARY_BYTES"
  "byteLength (bundle_value (library_bundle\<lparr>db_savedQueries := None\<rparr>)) \<le> MAX_LIBRARY_BYTES"
  "utf8_length (library_text library_bundle) \<le> MAX_LIBRARY_BYTES"
proof -
  have spaces: "utf8_length (replicate n (CHR '' '')) = n" for n by (induction n) simp_all
  show "byteLength (query_value library_query) \<le> MAX_SAVED_QUERY_BYTES"
    "byteLength (dashboard_value library_dashboard) \<le> MAX_DOCUMENT_BYTES"
    "byteLength (bundle_value library_bundle) \<le> MAX_LIBRARY_BYTES"
    "byteLength (bundle_value (library_bundle\<lparr>db_savedQueries := None\<rparr>)) \<le> MAX_LIBRARY_BYTES"
    "utf8_length (library_text library_bundle) \<le> MAX_LIBRARY_BYTES"
    by (simp_all add: byteLength_def library_text_def bundle_value_def library_documents dashboard_value_def query_value_def
      widget_value_def reference_value_def layout_value_def whole_def kind_value_def indent_def spaces
      MAX_SAVED_QUERY_BYTES_def MAX_DOCUMENT_BYTES_def MAX_LIBRARY_BYTES_def document_text Let_def)
qed

lemma library_query_canonical:
  "canonicalQuery sample_platform library_query = Inr library_query"
  "canonical_definition sample_platform library_query = Inr library_query"
proof -
  have "queryDocument (pf_url_ok sample_platform) library_query = Inr library_query"
    "validateSavedQueryTemplate (pf_url_ok sample_platform) library_query = Inr ''up''" by code_simp+
  then show "canonicalQuery sample_platform library_query = Inr library_query"
    using library_sizes(1) by (simp add: canonicalQuery_def)
  then show "canonical_definition sample_platform library_query = Inr library_query"
    by (simp add: canonical_definition_def library_query_def sample_query_def)
qed

lemma library_checked:
  "checkedBundle sample_platform library_bundle = Inr library_bundle"
  "checkedBundle sample_platform (library_bundle\<lparr>db_savedQueries := None\<rparr>) = Inr (library_bundle\<lparr>db_savedQueries := None\<rparr>)"
proof -
  have "dashboardSchema sample_platform library_dashboard = Some library_dashboard" by code_simp
  then have "checked_dashboard sample_platform library_dashboard = Inr library_dashboard"
    using library_sizes(2) by (simp add: checked_dashboard_def)
  moreover have "validateClosure library_bundle = None" "validateClosure (library_bundle\<lparr>db_savedQueries := None\<rparr>) = None" by code_simp+
  ultimately show "checkedBundle sample_platform library_bundle = Inr library_bundle"
    "checkedBundle sample_platform (library_bundle\<lparr>db_savedQueries := None\<rparr>) = Inr (library_bundle\<lparr>db_savedQueries := None\<rparr>)"
    using library_sizes(3,4) library_query_canonical(1) unfolding checkedBundle_Inr by (simp_all add: library_bundle_def)
qed

lemma library_opened:
  "open_session sample_platform library_request new_importer =
    Inr (library_bundle, new_session (library_text library_bundle), [(''review'', new_session (library_text library_bundle))])"
proof -
  have "parseDashboardBundle sample_platform (\<lambda>_. Inr (printed_value library_bundle)) (library_text library_bundle) = Inr library_bundle"
    "serializeDashboardBundle sample_platform library_bundle = Inr (library_text library_bundle)"
    using library_checked(1) library_sizes(5) by (simp_all add: parse_printed serializeDashboardBundle_def)
  then show ?thesis
    using library_checked(1)
    by (simp add: open_session_def library_request_def new_importer_def and_then_def map_error_def js_map_set_def evict_sessions.simps)
qed

lemma library_remapped:
  "selectBundleDashboards sample_platform library_bundle [''dashboard-1''] = Inr library_bundle"
  "remapImportBundle sample_platform library_bundle [] (en_providers library_environment) [] = Inr library_bundle"
proof -
  have "select_dashboards library_bundle [''dashboard-1''] = Inr library_bundle" by code_simp
  then show "selectBundleDashboards sample_platform library_bundle [''dashboard-1''] = Inr library_bundle"
    using library_checked(1) by (simp add: selectBundleDashboards_def)
  let ?providers = "en_providers library_environment"
  have "remapDashboardProviders [library_dashboard] [] ?providers = Inr [library_dashboard]" "provides ?providers library_query"
    "js_set (map (\<lambda>u. sr_id (ru_reference u)) (references [library_dashboard])) = [''q'']" "sq_id library_query = ''q''"
    "library_query\<lparr>sq_providerId := mappedId [] (sq_providerId library_query)\<rparr> = library_query"
    by code_simp+
  then show "remapImportBundle sample_platform library_bundle [] ?providers [] = Inr library_bundle"
    using library_checked library_query_canonical
    by (simp add: remapImportBundle_def buildDashboardBundle_def library_bundle_def import_definition_def library_match_def and_then_def map_error_def)
qed

lemma library_fields:
  "da_id library_dashboard = ''dashboard-1''" "db_dashboards library_bundle = [library_dashboard]"
  "db_savedQueries library_bundle = Some [library_query]" "referencedQueries library_dashboard = [''q'']" "sq_id library_query = ''q''"
  "rq_sessionId library_request = ''review''" "rq_providerMapping library_request = []"
  "rq_queryChoices library_request = []" "dashboard_choice library_request ''dashboard-1'' = Copy" "en_dashboards library_environment = []"
  by code_simp+

lemma library_query_new:
  "\<exists>fingerprint. savedQueryFingerprint sample_platform library_query = Inr fingerprint \<and>
     queryImportStatus sample_platform library_query [] = Inr Status_new"
  using library_query_canonical(1) by (auto simp: savedQueryFingerprint_def queryImportStatus_def)

lemma library_trace:
  "trace (importBundle sample_platform nat_str library_request library_environment new_importer)
     [Listed (Inr []), Listed_queries (Inr []), Wrote_query library_query None (Inr (Some ''1''))]"
  using library_query_new
  by (clarsimp simp: import_defs library_opened library_fields trace_simps trace.start library_remapped keep_query_def
    prepare_query_def settle_query_def create_query_def save_query_confirmed_def)

section \<open>The end of an import\<close>

lemma import_ends:
  assumes "used_importer p uuid imp" and "runs (importBundle p uuid req env imp) es (r, imp', cs)"
  shows "(\<exists>error. open_session p req imp = Inl error \<and> r = Inl error \<and> imp' = imp) \<or>
    (\<exists>original session sessions. open_session p req imp = Inr (original, session, sessions) \<and>
      import_post (opened_case p uuid req env original session) (rq_sessionId req) es (r, imp', cs))"
proof (cases "open_session p req imp")
  case (Inl error)
  then show ?thesis using assms(2) by (auto simp: importBundle_refused elim: runs_DoneE)
next
  case (Inr opened)
  obtain original session sessions where opened: "opened = (original, session, sessions)" by (cases opened)
  have "import_post (opened_case p uuid req env original session) (rq_sessionId req) ([] @ es) (r, imp', cs)"
    by (rule ok_runs [OF assms(2) importBundle_ok [OF used_importer_ok [OF assms(1)]]]) (use Inr opened in simp)
  then show ?thesis using Inr opened by simp
qed

section \<open>Retries\<close>

text \<open>
  What happens to one session of an importer: imports of its bundle under its identifier, in any number and however they end,
  and imports of other sessions in between, as long as these do not push the session out of the eight that are kept. The list
  holds the calls of the session's own imports.
\<close>

inductive retries :: "platform \<Rightarrow> (nat \<Rightarrow> string) \<Rightarrow> string \<Rightarrow> DashboardBundle \<Rightarrow> importer \<Rightarrow> client_event list \<Rightarrow> importer \<Rightarrow> bool"
  for p uuid key original imp where
  none: "retries p uuid key original imp [] imp"
| again: "retries p uuid key original imp es imp' \<Longrightarrow> rq_sessionId req = key \<Longrightarrow> rq_bundle req = original \<Longrightarrow>
    runs (importBundle p uuid req env imp') es' (r, imp'', cs) \<Longrightarrow> retries p uuid key original imp (es @ es') imp''"
| other: "retries p uuid key original imp es imp' \<Longrightarrow> rq_sessionId req \<noteq> key \<Longrightarrow>
    runs (importBundle p uuid req env imp') es' (r, imp'', cs) \<Longrightarrow> js_map_get (ip_sessions imp'') key \<noteq> None \<Longrightarrow>
    retries p uuid key original imp es imp''"

lemma ok_trivial: "ok (\<lambda>_ _. True) (\<lambda>_ _. True) m h"
  by (induction m arbitrary: h) simp_all

text \<open>An import of another session leaves a session as it was, unless it pushes it out.\<close>

lemma evicted_get:
  assumes "distinct (map fst sessions)" and "js_map_get (evict_sessions sessions) key = Some ses"
  shows "js_map_get sessions key = Some ses"
  using assms js_map_get_in [OF assms(2)] by (auto simp: evict_eq js_map_get_iff dest: in_set_dropD)

lemma opened_get:
  assumes "importer_ok uuid imp" and "open_session p req imp = Inr (original, session, sessions)"
    and "key \<noteq> rq_sessionId req" and "js_map_get sessions key = Some ses"
  shows "js_map_get (ip_sessions imp) key = Some ses"
proof (cases "js_map_get (ip_sessions imp) (rq_sessionId req)")
  case None
  then obtain source where sessions: "sessions = evict_sessions (js_map_set (rq_sessionId req) (new_session source) (ip_sessions imp))"
    using assms(2) by (auto simp: open_session_def split: if_splits)
  have "js_map_get (js_map_set (rq_sessionId req) (new_session source) (ip_sessions imp)) key = Some ses"
  proof (rule evicted_get)
    show "distinct (map fst (js_map_set (rq_sessionId req) (new_session source) (ip_sessions imp)))"
      using assms(1) by (simp add: importer_ok_def distinct_keys_js_map_set)
  qed (use assms(4) sessions in simp)
  then show ?thesis using assms(3) by (simp add: js_map_get_set)
next
  case (Some s)
  then show ?thesis using assms(2,4) by (auto simp: open_session_def split: if_splits)
qed

lemma other_session_kept:
  assumes "importer_ok uuid imp" and "runs (importBundle p uuid req env imp) es (r, imp', cs)"
    and "key \<noteq> rq_sessionId req" and "js_map_get (ip_sessions imp') key = Some ses"
  shows "js_map_get (ip_sessions imp) key = Some ses"
proof (cases "open_session p req imp")
  case (Inl error)
  then show ?thesis using assms by (auto simp: importBundle_refused elim: runs_DoneE)
next
  case (Inr opened)
  obtain original session sessions where opened: "opened = (original, session, sessions)" by (cases opened)
  have "ok (\<lambda>_ _. True) (\<lambda>_ (r, imp', cs). \<exists>s. ip_sessions imp' = js_map_set (rq_sessionId req) s sessions)
      (importBundle p uuid req env imp) []"
    unfolding importBundle_def Inr opened sum.case prod.case ok_bind
    by (rule ok_mono [OF ok_trivial]) (auto split: prod.split)
  from ok_runs [OF assms(2) this] obtain s where "ip_sessions imp' = js_map_set (rq_sessionId req) s sessions" by auto
  then have "js_map_get sessions key = Some ses" using assms(3,4) by (simp add: js_map_get_set)
  then show ?thesis using opened_get [OF assms(1)] Inr opened assms(3) by blast
qed

lemma opened_ids:
  assumes "open_session p req imp = Inr (original, session, sessions)"
  shows "map da_id (db_dashboards original) = map da_id (db_dashboards (rq_bundle req))"
  using assms by (auto simp: open_session_def parse_printed checked_ids split: if_splits option.splits)

text \<open>
  A session through its retries: every dashboard written so far went to the destination that the session has for a document of
  the bundle, and the session is locked once there is such a write.
\<close>

definition written_to :: "DashboardBundle \<Rightarrow> client_event list \<Rightarrow> ImportSession \<Rightarrow> bool" where
  "written_to original es session \<longleftrightarrow>
     (\<forall>d t r. Wrote_dashboard d t r \<in> set es \<longrightarrow> im_targetsLocked session \<and>
        (\<exists>i\<in>da_id ` set (db_dashboards original). js_map_get (im_dashboardIds session) i = Some (da_id d)))"

definition retry_inv :: "DashboardBundle \<Rightarrow> client_event list \<Rightarrow> ImportSession option \<Rightarrow> bool" where
  "retry_inv original es session \<longleftrightarrow>
     (case session of None \<Rightarrow> \<forall>d t r. Wrote_dashboard d t r \<notin> set es | Some ses \<Rightarrow> written_to original es ses)"

lemma written_to_continues:
  "written_to original es session \<Longrightarrow> continues session session' \<Longrightarrow> written_to original es session'"
  unfolding written_to_def continues_def by metis

lemma retry_step:
  assumes used: "used_importer p uuid imp" and run: "runs (importBundle p uuid req env imp) es' (r, imp', cs)"
    and inv: "retry_inv (rq_bundle req) es (js_map_get (ip_sessions imp) (rq_sessionId req))"
  shows "retry_inv (rq_bundle req) (es @ es') (js_map_get (ip_sessions imp') (rq_sessionId req))"
    and "js_map_get (ip_sessions imp) (rq_sessionId req) = Some session \<Longrightarrow>
      \<exists>session'. js_map_get (ip_sessions imp') (rq_sessionId req) = Some session' \<and> continues session session'"
proof -
  let ?before = "js_map_get (ip_sessions imp) (rq_sessionId req)" and ?after = "js_map_get (ip_sessions imp') (rq_sessionId req)"
  have "retry_inv (rq_bundle req) (es @ es') ?after \<and>
      (\<forall>session. ?before = Some session \<longrightarrow> (\<exists>session'. ?after = Some session' \<and> continues session session'))"
  proof (cases "open_session p req imp")
    case (Inl error)
    then show ?thesis using run inv by (auto simp: importBundle_refused elim!: runs_DoneE)
  next
    case (Inr opened)
    then obtain original session sessions where opened: "open_session p req imp = Inr (original, session, sessions)"
      by (cases opened) auto
    then have begun: "session' = session" if "?before = Some session'" for session'
      using that by (auto simp: open_session_def split: if_splits)
    obtain s where s: "?after = Some (mr_session s)" "failed_inv (opened_case p uuid req env original session) es' s"
      using import_ends [OF used run] opened by (auto simp: import_post_def)
    have "set (map da_id (db_dashboards original)) = set (map da_id (db_dashboards (rq_bundle req)))"
      using opened_ids [OF opened] by simp
    then have new: "written_to (rq_bundle req) es' (mr_session s)" and old: "continues session (mr_session s)"
      using s(2) by (auto simp: failed_inv_def lodged_def written_to_def)
    have "written_to (rq_bundle req) es (mr_session s)"
    proof (cases ?before)
      case None
      then show ?thesis using inv by (simp add: retry_inv_def written_to_def)
    next
      case (Some session')
      then show ?thesis using inv begun old written_to_continues by (auto simp: retry_inv_def)
    qed
    then have "written_to (rq_bundle req) (es @ es') (mr_session s)" using new unfolding written_to_def set_append by blast
    then show ?thesis using s(1) begun old by (auto simp: retry_inv_def)
  qed
  then show "retry_inv (rq_bundle req) (es @ es') ?after"
    "?before = Some session \<Longrightarrow> \<exists>session'. ?after = Some session' \<and> continues session session'" by blast+
qed

lemma retries_inv:
  assumes "retries p uuid key original imp es imp'" and "used_importer p uuid imp" and "js_map_get (ip_sessions imp) key = None"
  shows "used_importer p uuid imp' \<and> retry_inv original es (js_map_get (ip_sessions imp') key)"
  using assms(1)
proof (induction rule: retries.induct)
  case none
  then show ?case using assms(2,3) by (simp add: retry_inv_def)
next
  case (again es imp' req env es' r imp'' cs)
  then show ?case using retry_step(1) [of p uuid imp' req env es' r imp'' cs es] used_importer.import by metis
next
  case (other es imp' req env es' r imp'' cs)
  then obtain ses where "js_map_get (ip_sessions imp'') key = Some ses" "js_map_get (ip_sessions imp') key = Some ses"
    using other_session_kept [OF used_importer_ok] by (metis not_Some_eq)
  then show ?case using other used_importer.import by metis
qed

text \<open>At most one destination for each document of the bundle.\<close>

lemma written_destinations:
  assumes "written_to original es session"
  shows "card (da_id ` {d. \<exists>t r. Wrote_dashboard d t r \<in> set es}) \<le> length (db_dashboards original)"
proof -
  have "da_id ` {d. \<exists>t r. Wrote_dashboard d t r \<in> set es} \<subseteq>
      (\<lambda>d. the (js_map_get (im_dashboardIds session) (da_id d))) ` set (db_dashboards original)"
    using assms unfolding written_to_def by force
  then have "card (da_id ` {d. \<exists>t r. Wrote_dashboard d t r \<in> set es}) \<le>
      card ((\<lambda>d. the (js_map_get (im_dashboardIds session) (da_id d))) ` set (db_dashboards original))"
    by (intro card_mono) auto
  also have "\<dots> \<le> length (db_dashboards original)" using card_image_le card_length le_trans by (metis finite_set)
  finally show ?thesis .
qed

section \<open>Properties\<close>

text \<open>
  C4: An import never writes over a dashboard it has not just seen unchanged. A write with a revision follows
  directly on a read of that dashboard which returned that revision, and the document read has the fingerprint
  and the revision that were reviewed; every other write creates a dashboard under an identifier drawn by
  an import. Whatever is written passes the dashboard schema, and each saved query it refers to was read before by this
  import and has a data source that can run it.
\<close>

theorem import_dashboard_writes:
  assumes "used_importer p uuid imp"
    and "trace (importBundle p uuid req env imp) (pre @ Wrote_dashboard d t r # post)"
  shows "(case t of
      None \<Rightarrow> \<exists>n. da_id d = ''dashboard-'' @ uuid n
    | Some revision \<Rightarrow> \<exists>before fresh b. pre = before @ [Read_dashboard (da_id d) (Inr (fresh, Some revision))] \<and>
        baseline_of (rq_dashboardBaselines req) (da_id d) = Some b \<and> ib_fingerprint b = Some (dashboard_fingerprint fresh) \<and>
        ib_etag b = Some revision \<and> revision \<noteq> []) \<and>
    dashboardSchema p d = Some d \<and>
    (\<forall>i\<in>set (referencedQueries d). \<exists>q tag. Read_query i (Inr (q, tag)) \<in> set pre \<and> provides (en_providers env) q)"
proof -
  obtain c where c: "allowed c pre (Wrote_dashboard d t r)" "ca_platform c = p" "ca_uuid c = uuid" "ca_request c = req" "ca_env c = env"
    using import_calls_allowed [OF assms] by force
  then have "dashboard_write_ok c pre d t" by (simp add: allowed_def)
  then show ?thesis
    using c(2-5) unfolding dashboard_write_ok_def fresh_dashboard_def reviewed_revision_def
    by (cases t) (auto, metis append_butlast_last_id)
qed

theorem import_dashboard_writes_witness:
  "\<exists>b. baseline_of (rq_dashboardBaselines replace_request) ''dashboard-1'' = Some b \<and> ib_etag b = Some old_revision \<and>
     ib_fingerprint b = Some (dashboard_fingerprint (newDashboard ''1''))"
proof -
  have "trace (importBundle sample_platform nat_str replace_request no_environment new_importer)
      (replace_calls @ Wrote_dashboard (newDashboard ''1'') (Some old_revision) (Inr (Some ''8'')) # [])"
    using replace_run by (auto intro: runs_trace)
  from import_dashboard_writes [OF used_importer.initial this] show ?thesis
    by (auto simp: replace_calls_def unchanged_read_def plain_fields)
qed

text \<open>
  C6: An import creates a saved query only under an identifier that the library it listed does not have, and
  replaces one only directly after a read that returned the reviewed revision of the reviewed definition, with the same data
  source and kind, and only when the new definition fits every use in the dashboards of the workspace.
\<close>

theorem import_query_writes:
  assumes "used_importer p uuid imp"
    and "trace (importBundle p uuid req env imp) (pre @ Wrote_query q t r # post)"
  shows "case t of
      None \<Rightarrow>
        (js_map_get (rq_queryChoices req) (sq_id q) = None \<or> (\<exists>n. sq_id q = ''query-'' @ uuid n)) \<and>
        (\<forall>entries. Listed_queries (Inr entries) \<in> set pre \<longrightarrow> sq_id q \<notin> (\<lambda>(e, tag). sq_id e) ` set entries)
    | Some revision \<Rightarrow> \<exists>before fresh b ds compatibility.
        pre = before @ [Read_query (sq_id q) (Inr (fresh, Some revision))] \<and>
        baseline_of (rq_queryBaselines req) (sq_id q) = Some b \<and> ib_etag b = Some revision \<and>
        savedQueryFingerprint p fresh = Inr (the (ib_fingerprint b)) \<and>
        sq_providerId fresh = sq_providerId q \<and> sq_kind fresh = sq_kind q \<and> Listed (Inr ds) \<in> set before \<and>
        checked_compatibility p q ds (Some fresh) = Inr compatibility \<and> ic_compatible compatibility"
proof -
  obtain c where c: "allowed c pre (Wrote_query q t r)" "ca_platform c = p" "ca_uuid c = uuid" "ca_request c = req"
    using import_calls_allowed [OF assms] by force
  then have written: "query_write_ok c pre q t" by (simp add: allowed_def)
  show ?thesis
  proof (cases t)
    case None
    then show ?thesis using written c(2-4) by (simp add: query_write_ok_def fresh_query_def)
  next
    case (Some revision)
    then obtain fresh fingerprint ds compatibility where found: "pre \<noteq> []" "last pre = Read_query (sq_id q) (Inr (fresh, Some revision))"
      "savedQueryFingerprint p fresh = Inr fingerprint" "reviewed_revision (rq_queryBaselines req) (sq_id q) fingerprint revision"
      "sq_providerId fresh = sq_providerId q" "sq_kind fresh = sq_kind q" "Listed (Inr ds) \<in> set pre"
      "checked_compatibility p q ds (Some fresh) = Inr compatibility" "ic_compatible compatibility"
      using written c(2-4) by (auto simp: query_write_ok_def)
    moreover from found(1,2) have pre: "pre = butlast pre @ [Read_query (sq_id q) (Inr (fresh, Some revision))]"
      by (metis append_butlast_last_id)
    moreover have "Listed (Inr ds) \<in> set (butlast pre)" using found(7) by (subst (asm) pre) simp
    ultimately show ?thesis unfolding Some option.case reviewed_revision_def by (metis option.sel)
  qed
qed

theorem import_query_writes_witness:
  "js_map_get (rq_queryChoices library_request) (sq_id library_query) = None \<or> (\<exists>n. sq_id library_query = ''query-'' @ nat_str n)"
  using import_query_writes [OF used_importer.initial, of sample_platform nat_str library_request library_environment
    "[Listed (Inr []), Listed_queries (Inr [])]" library_query None "Inr (Some ''1'')" "[]"] library_trace
  by simp

text \<open>
  C7: An import writes nothing, neither a query nor a dashboard, before it has read every dashboard it is to keep
  or replace. Each of them is still the one that was reviewed; one that is to be replaced may also already be
  what an earlier attempt of the same session wrote.
\<close>

theorem import_reviews_first:
  assumes "used_importer p uuid imp"
    and "trace (importBundle p uuid req env imp) (pre @ e # post)"
    and "(\<exists>d t r. e = Wrote_dashboard d t r) \<or> (\<exists>q t r. e = Wrote_query q t r)"
  shows "\<exists>original session sessions. open_session p req imp = Inr (original, session, sessions) \<and>
    (\<forall>d\<in>set (db_dashboards original). da_id d \<notin> set (im_completed session) \<longrightarrow> dashboard_choice req (da_id d) \<noteq> Copy \<longrightarrow>
      (\<exists>fresh tag. Read_dashboard (da_id d) (Inr (fresh, tag)) \<in> set pre \<and>
        ((\<exists>b. baseline_of (rq_dashboardBaselines req) (da_id d) = Some b \<and>
            ib_fingerprint b = Some (dashboard_fingerprint fresh) \<and> (ib_etag b = None \<or> ib_etag b = tag)) \<or>
         dashboard_choice req (da_id d) = Replace \<and>
           dashboard_receipt (da_id d) (dashboard_fingerprint fresh) \<in> set (im_attempted session))))"
proof -
  obtain original session sessions where opened: "open_session p req imp = Inr (original, session, sessions)"
    and allowed: "allowed (opened_case p uuid req env original session) pre e"
    using import_calls_allowed [OF assms(1,2)] by blast
  have "preflighted (opened_case p uuid req env original session) pre"
    using allowed assms(3) by (auto simp: allowed_def)
  then show ?thesis using opened unfolding preflighted_def unchanged_since_review_def opened_case_simps by blast
qed

theorem import_reviews_first_witness:
  "\<exists>fresh tag. Read_dashboard ''dashboard-1'' (Inr (fresh, tag)) \<in> set replace_calls \<and>
     (\<exists>b. baseline_of (rq_dashboardBaselines replace_request) ''dashboard-1'' = Some b \<and>
        ib_fingerprint b = Some (dashboard_fingerprint fresh))"
proof -
  let ?e = "Wrote_dashboard (newDashboard ''1'') (Some old_revision) (Inr (Some ''8''))"
  have "trace (importBundle sample_platform nat_str replace_request no_environment new_importer) (replace_calls @ ?e # [])"
    using replace_run by (auto intro: runs_trace)
  moreover have "open_session sample_platform replace_request new_importer =
      Inr (plain_bundle, new_session (library_text plain_bundle), [(''review'', new_session (library_text plain_bundle))])"
    by (rule plain_opened) (simp_all add: replace_fields)
  ultimately show ?thesis
    using import_reviews_first [OF used_importer.initial, of sample_platform nat_str replace_request no_environment replace_calls ?e "[]"]
    by (auto simp: plain_fields replace_fields new_session_def)
qed

text \<open>
  C8: The result of an import is accurate. It is complete exactly when it lists no failed dashboard, and every
  dashboard of the bundle it does not list as failed was completed by an earlier import of the session, is kept
  as the workspace has it, or has been seen at its destination: the server accepted the write, or a read
  returned a document with the fingerprint of what this session tried to write there.
\<close>

theorem import_result_accurate:
  assumes "used_importer p uuid imp"
    and "runs (importBundle p uuid req env imp) es (Inr result, imp', cs)"
  shows "\<exists>original session sessions session'. open_session p req imp = Inr (original, session, sessions) \<and>
    js_map_get (ip_sessions imp') (rq_sessionId req) = Some session' \<and>
    (br_complete result \<longleftrightarrow> br_failed result = []) \<and> set (br_failed result) \<subseteq> set (db_dashboards original) \<and>
    (\<forall>d\<in>set (db_dashboards original). d \<in> set (br_failed result) \<or> da_id d \<in> set (im_completed session) \<or>
      dashboard_choice req (da_id d) = Keep \<or>
      (\<exists>j. js_map_get (im_dashboardIds session') (da_id d) = Some j \<and> shown session' j es))"
proof -
  obtain original session sessions where opened: "open_session p req imp = Inr (original, session, sessions)"
    and "import_post (opened_case p uuid req env original session) (rq_sessionId req) es (Inr result, imp', cs)"
    using import_ends [OF assms] by auto
  then obtain s where s: "js_map_get (ip_sessions imp') (rq_sessionId req) = Some (mr_session s)"
    "result_inv (opened_case p uuid req env original session) result es s"
    by (auto simp: import_post_def)
  let ?session = "mr_session s"
  have failed: "br_complete result \<longleftrightarrow> br_failed result = []" "set (br_failed result) \<subseteq> set (db_dashboards original)"
    using s(2) by (auto simp: result_inv_def)
  have "\<exists>j. js_map_get (im_dashboardIds ?session) (da_id d) = Some j \<and> shown ?session j es"
    if "d \<in> set (db_dashboards original)" "d \<notin> set (br_failed result)" "da_id d \<notin> set (im_completed session)"
      "dashboard_choice req (da_id d) \<noteq> Keep" for d
    using s(2) that by (auto simp: result_inv_def accounted_def)
  then have "\<forall>d\<in>set (db_dashboards original). d \<in> set (br_failed result) \<or> da_id d \<in> set (im_completed session) \<or>
      dashboard_choice req (da_id d) = Keep \<or>
      (\<exists>j. js_map_get (im_dashboardIds ?session) (da_id d) = Some j \<and> shown ?session j es)"
    by blast
  with opened s(1) failed show ?thesis by blast
qed

theorem import_result_accurate_witness:
  "\<exists>es result imp' cs. runs (importBundle sample_platform nat_str replace_request no_environment new_importer) es (Inr result, imp', cs) \<and>
     br_complete result"
proof -
  obtain result imp' cs where run: "runs (importBundle sample_platform nat_str replace_request no_environment new_importer)
      (replace_calls @ [Wrote_dashboard (newDashboard ''1'') (Some old_revision) (Inr (Some ''8''))]) (Inr result, imp', cs)"
    and "br_failed result = []"
    using replace_run by auto
  then have "br_complete result" using import_result_accurate [OF used_importer.initial run] by auto
  then show ?thesis using run by blast
qed

text \<open>
  C9: A retry goes where the attempts before it went. Take a session from its first import on, through any number of imports of
  its bundle, however each of them ends, and through imports of other sessions in between that do not push it out of the eight
  an importer keeps. Another import of the session keeps every completed dashboard, every attempted write and the
  identifier of every copied query. If any import before it sent a dashboard to the server, whether or not the answer came, no
  dashboard changes its destination. All dashboards that all these imports sent, the last one included, went to the destinations that the session
  has for the documents of the bundle, so there are never more destinations than documents: no retry makes a second copy.
\<close>

theorem import_retry_stable:
  assumes "used_importer p uuid imp0" and "js_map_get (ip_sessions imp0) key = None"
    and history: "retries p uuid key original imp0 es imp" and session: "js_map_get (ip_sessions imp) key = Some session"
    and retry: "rq_sessionId req = key" "rq_bundle req = original" and run: "runs (importBundle p uuid req env imp) es' (r, imp', cs)"
  shows "\<exists>session'. js_map_get (ip_sessions imp') key = Some session' \<and>
    set (im_completed session) \<subseteq> set (im_completed session') \<and> set (im_attempted session) \<subseteq> set (im_attempted session') \<and>
    (\<forall>k i. js_map_get (im_queryCopies session) k = Some i \<longrightarrow> js_map_get (im_queryCopies session') k = Some i) \<and>
    ((\<exists>d t r. Wrote_dashboard d t r \<in> set es) \<longrightarrow>
      (\<forall>i j. js_map_get (im_dashboardIds session) i = Some j \<longrightarrow> js_map_get (im_dashboardIds session') i = Some j)) \<and>
    (\<forall>d t r. Wrote_dashboard d t r \<in> set (es @ es') \<longrightarrow>
      (\<exists>document\<in>set (db_dashboards original). js_map_get (im_dashboardIds session') (da_id document) = Some (da_id d))) \<and>
    card (da_id ` {d. \<exists>t r. Wrote_dashboard d t r \<in> set (es @ es')}) \<le> length (db_dashboards original)"
proof -
  have used: "used_importer p uuid imp" and inv: "retry_inv original es (js_map_get (ip_sessions imp) key)"
    using retries_inv [OF history assms(1,2)] by auto
  note step = retry_step [OF used run, unfolded retry, OF inv]
  obtain session' where session': "js_map_get (ip_sessions imp') key = Some session'" "continues session session'"
    using step(2) [OF session] by blast
  have written: "written_to original (es @ es') session'" using step(1) session'(1) by (simp add: retry_inv_def)
  have named: "i \<noteq> []" if "js_map_get (im_queryCopies session) k = Some i" for k i
    using used_importer_ok [OF used] js_map_get_in [OF session] that
    by (fastforce simp: importer_ok_def session_ok_def fresh_query_def)
  have locked: "im_targetsLocked session" if "\<exists>d t r. Wrote_dashboard d t r \<in> set es"
    using inv session that by (auto simp: retry_inv_def written_to_def)
  have copies: "\<forall>k i. js_map_get (im_queryCopies session) k = Some i \<longrightarrow> js_map_get (im_queryCopies session') k = Some i"
    using session'(2) named unfolding continues_def by blast
  have kept: "(\<exists>d t r. Wrote_dashboard d t r \<in> set es) \<longrightarrow>
      (\<forall>i j. js_map_get (im_dashboardIds session) i = Some j \<longrightarrow> js_map_get (im_dashboardIds session') i = Some j)"
    using session'(2) locked unfolding continues_def by blast
  have "\<forall>d t r. Wrote_dashboard d t r \<in> set (es @ es') \<longrightarrow>
      (\<exists>document\<in>set (db_dashboards original). js_map_get (im_dashboardIds session') (da_id document) = Some (da_id d))"
    using written unfolding written_to_def by (simp only: bex_simps) blast
  moreover have "set (im_completed session) \<subseteq> set (im_completed session')" "set (im_attempted session) \<subseteq> set (im_attempted session')"
    using session'(2) by (simp_all add: continues_def)
  ultimately show ?thesis using session'(1) copies kept written_destinations [OF written] by blast
qed

theorem import_retry_stable_witness:
  "\<exists>es r imp' cs session'. runs (importBundle sample_platform nat_str replace_request no_environment lost_importer) es (r, imp', cs) \<and>
     js_map_get (ip_sessions imp') ''review'' = Some session' \<and>
     js_map_get (im_dashboardIds session') ''dashboard-1'' = Some ''dashboard-1'' \<and>
     card (da_id ` {d. \<exists>t r. Wrote_dashboard d t r \<in> set (lost_calls @ es)}) \<le> 1"
proof -
  obtain r cs where lost: "runs (importBundle sample_platform nat_str replace_request no_environment new_importer) lost_calls (r, lost_importer, cs)"
    using lost_run by blast
  have history: "retries sample_platform nat_str ''review'' plain_bundle new_importer lost_calls lost_importer"
    using retries.again [OF retries.none _ _ lost, of "''review''" plain_bundle] by (simp add: replace_fields)
  obtain es r imp' cs where run: "runs (importBundle sample_platform nat_str replace_request no_environment lost_importer) es (r, imp', cs)"
    using retry_run by blast
  let ?session = "snd (hd (ip_sessions lost_importer))"
  have session: "js_map_get (ip_sessions lost_importer) ''review'' = Some ?session" "js_map_get (ip_sessions new_importer) ''review'' = None"
    "js_map_get (im_dashboardIds ?session) ''dashboard-1'' = Some ''dashboard-1''"
    by (simp_all add: lost_importer_def new_importer_def js_map_get_def)
  have sent: "\<exists>d t r. Wrote_dashboard d t r \<in> set lost_calls" and single: "length (db_dashboards plain_bundle) = 1"
    by (auto simp: lost_calls_def plain_fields)
  obtain session' where after: "js_map_get (ip_sessions imp') ''review'' = Some session'"
    and kept: "(\<exists>d t r. Wrote_dashboard d t r \<in> set lost_calls) \<longrightarrow>
      (\<forall>i j. js_map_get (im_dashboardIds ?session) i = Some j \<longrightarrow> js_map_get (im_dashboardIds session') i = Some j)"
    and bound: "card (da_id ` {d. \<exists>t r. Wrote_dashboard d t r \<in> set (lost_calls @ es)}) \<le> length (db_dashboards plain_bundle)"
    using import_retry_stable [OF used_importer.initial session(2) history session(1) replace_fields(1,2) run] by (elim exE conjE)
  have "js_map_get (im_dashboardIds session') ''dashboard-1'' = Some ''dashboard-1''" using kept sent session(3) by blast
  then show ?thesis using run after bound unfolding single by blast
qed

end
