(* ===== verification/ImportServer.thy ===== *)
theory ImportServer
  imports ImportSafety
begin

text \<open>
  An import against the workspace service, while others write and delete: the document store
  (\<open>internal/insights/store.go\<close>) with its conditional writes, the headers the workspace client sends
  (\<open>ui/src/features/insights/client.ts\<close>), and the two parts together: an import overwrites nothing but what
  was reviewed. The digest of a document is a parameter, \<open>hex\<close>.
\<close>

section \<open>The document store\<close>

type_synonym store = "string \<rightharpoonup> Dashboard"

definition etag_of :: "(Dashboard \<Rightarrow> string) \<Rightarrow> Dashboard \<Rightarrow> string" where
  "etag_of hex document = CHR 0x22 # hex document @ [CHR 0x22]"

definition preconditions :: "(Dashboard \<Rightarrow> string) \<Rightarrow> Dashboard option \<Rightarrow> string \<Rightarrow> string \<Rightarrow> bool" where
  "preconditions hex previous ifMatch ifNoneMatch \<longleftrightarrow>
     \<not> (ifMatch \<noteq> [] \<and> (case previous of None \<Rightarrow> True | Some d \<Rightarrow> ifMatch \<noteq> ''*'' \<and> ifMatch \<noteq> etag_of hex d)) \<and>
     \<not> (ifNoneMatch \<noteq> [] \<and> (case previous of None \<Rightarrow> False | Some d \<Rightarrow> ifNoneMatch = ''*'' \<or> ifNoneMatch = etag_of hex d))"

text \<open>
  A document that the store does not validate, has no room for or cannot persist is refused; \<open>accepts\<close> is
  what it decides on these.
\<close>

definition store_put ::
    "(Dashboard \<Rightarrow> string) \<Rightarrow> (store \<Rightarrow> Dashboard \<Rightarrow> bool) \<Rightarrow> string \<Rightarrow> Dashboard \<Rightarrow> string \<Rightarrow> string \<Rightarrow> store \<Rightarrow>
     (string \<times> store) option" where
  "store_put hex accepts i document ifMatch ifNoneMatch documents =
     (if preconditions hex (documents i) ifMatch ifNoneMatch \<and> accepts documents document
      then Some (etag_of hex document, documents(i \<mapsto> document)) else None)"

definition store_delete :: "(Dashboard \<Rightarrow> string) \<Rightarrow> string \<Rightarrow> string \<Rightarrow> store \<Rightarrow> store option" where
  "store_delete hex i ifMatch documents =
     (if documents i \<noteq> None \<and> preconditions hex (documents i) ifMatch [] then Some (documents(i := None)) else None)"

section \<open>The client\<close>

text \<open>\<open>save\<close> sends \<open>If-Match\<close> with a revision, and \<open>If-None-Match: *\<close> without one.\<close>

definition save_headers :: "etag \<Rightarrow> string \<times> string" where
  "save_headers tag = (case present_text tag of Some revision \<Rightarrow> (revision, []) | None \<Rightarrow> ([], ''*''))"

definition save_at :: "(Dashboard \<Rightarrow> string) \<Rightarrow> (store \<Rightarrow> Dashboard \<Rightarrow> bool) \<Rightarrow> Dashboard \<Rightarrow> etag \<Rightarrow> store \<Rightarrow> (string \<times> store) option" where
  "save_at hex accepts d tag = store_put hex accepts (da_id d) d (fst (save_headers tag)) (snd (save_headers tag))"

text \<open>
  \<open>get\<close> parses the stored document; its revision is missing when a proxy drops the headers. A read that is revalidated and answered
  with 304 gives the document and the revision that were read together before, so it is a read of the store at that moment.
\<close>

definition get_from :: "(Dashboard \<Rightarrow> string) \<Rightarrow> platform \<Rightarrow> string \<Rightarrow> store \<Rightarrow> (Dashboard \<times> string) option" where
  "get_from hex p i documents =
     (case documents i of
        None \<Rightarrow> None
      | Some d \<Rightarrow> (case storedDashboardSchema p d of None \<Rightarrow> None | Some parsed \<Rightarrow> Some (parsed, etag_of hex d)))"

section \<open>Served imports\<close>

text \<open>
  The calls of an import as the store answers them, with the writes and deletions of others between them. The
  answer of a write may be lost whether or not the store took it. The third argument lists the writes of the
  import that took effect on a stored document, each with the document that was there.
\<close>

inductive served ::
    "(Dashboard \<Rightarrow> string) \<Rightarrow> (store \<Rightarrow> Dashboard \<Rightarrow> bool) \<Rightarrow> platform \<Rightarrow> store \<Rightarrow> client_event list \<Rightarrow> (Dashboard \<times> Dashboard) list \<Rightarrow>
     store \<Rightarrow> bool"
  for hex accepts p initial where
  start: "served hex accepts p initial [] [] initial"
| get: "served hex accepts p initial es over documents \<Longrightarrow> get_from hex p i documents = Some (parsed, revision) \<Longrightarrow> tag \<in> {None, Some revision} \<Longrightarrow>
    served hex accepts p initial (es @ [Read_dashboard i (Inr (parsed, tag))]) over documents"
| get_failed: "served hex accepts p initial es over documents \<Longrightarrow> served hex accepts p initial (es @ [Read_dashboard i (Inl m)]) over documents"
| save: "served hex accepts p initial es over documents \<Longrightarrow> save_at hex accepts d tag documents = Some (revision, documents') \<Longrightarrow>
    r \<in> {Inr None, Inr (Some revision), Inl m} \<Longrightarrow>
    served hex accepts p initial (es @ [Wrote_dashboard d tag r]) (over @ (case documents (da_id d) of Some old \<Rightarrow> [(d, old)] | None \<Rightarrow> [])) documents'"
| save_failed: "served hex accepts p initial es over documents \<Longrightarrow> served hex accepts p initial (es @ [Wrote_dashboard d tag (Inl m)]) over documents"
| list: "served hex accepts p initial es over documents \<Longrightarrow> served hex accepts p initial (es @ [Listed r']) over documents"
| queries: "served hex accepts p initial es over documents \<Longrightarrow> served hex accepts p initial (es @ [Listed_queries r'']) over documents"
| get_query: "served hex accepts p initial es over documents \<Longrightarrow> served hex accepts p initial (es @ [Read_query i r''']) over documents"
| save_query: "served hex accepts p initial es over documents \<Longrightarrow> served hex accepts p initial (es @ [Wrote_query q tag r'''']) over documents"
| other_put: "served hex accepts p initial es over documents \<Longrightarrow> store_put hex accepts i d ifMatch ifNoneMatch documents = Some (revision, documents') \<Longrightarrow>
    served hex accepts p initial es over documents'"
| other_delete: "served hex accepts p initial es over documents \<Longrightarrow> store_delete hex i ifMatch documents = Some documents' \<Longrightarrow>
    served hex accepts p initial es over documents'"

lemma trace_prefix: "trace m es \<Longrightarrow> es = pre @ post \<Longrightarrow> trace m pre"
  by (induction arbitrary: pre rule: trace.induct) (auto simp: Cons_eq_append_conv intro: trace.intros)

text \<open>
  The documents that come into the store are among \<open>D\<close>. A digest is assumed to tell these documents apart,
  not all that could ever be written.
\<close>

definition stores_only :: "Dashboard set \<Rightarrow> (store \<Rightarrow> Dashboard \<Rightarrow> bool) \<Rightarrow> store \<Rightarrow> bool" where
  "stores_only D accepts documents \<longleftrightarrow> (\<forall>i d. documents i = Some d \<longrightarrow> d \<in> D) \<and> (\<forall>documents d. accepts documents d \<longrightarrow> d \<in> D)"

lemma put_stores: "store_put hex accepts i d ifMatch ifNoneMatch documents = Some (revision, documents') \<Longrightarrow>
    stores_only D accepts documents \<Longrightarrow> stores_only D accepts documents'"
  by (auto simp: store_put_def stores_only_def split: if_splits)

lemma delete_stores: "store_delete hex i ifMatch documents = Some documents' \<Longrightarrow>
    stores_only D accepts documents \<Longrightarrow> stores_only D accepts documents'"
  by (auto simp: store_delete_def stores_only_def split: if_splits)

lemma served_stores: "served hex accepts p initial es over documents \<Longrightarrow> stores_only D accepts initial \<Longrightarrow> stores_only D accepts documents"
proof (induction rule: served.induct)
  case (save es over documents d tag revision documents' r m)
  then show ?case unfolding save_at_def by (blast intro: put_stores)
next
  case (other_put es over documents i d ifMatch ifNoneMatch revision documents')
  then show ?case by (blast intro: put_stores)
next
  case (other_delete es over documents i ifMatch documents')
  then show ?case by (blast intro: delete_stores)
qed simp_all

text \<open>A revision that was read names the document it was read with.\<close>

lemma served_read:
  assumes "served hex accepts p initial es over documents" and "stores_only D accepts initial"
    and "Read_dashboard i (Inr (parsed, Some revision)) \<in> set es"
  shows "\<exists>d\<in>D. storedDashboardSchema p d = Some parsed \<and> revision = etag_of hex d"
  using assms(1,3)
proof (induction rule: served.induct)
  case (get es over documents i parsed revision tag)
  then show ?case
    using served_stores [OF get.hyps(1) assms(2)] by (auto simp: get_from_def stores_only_def split: option.splits)
qed auto

lemma etag_of_inj: "inj_on hex D \<Longrightarrow> etag_of hex d = etag_of hex d' \<Longrightarrow> d \<in> D \<Longrightarrow> d' \<in> D \<Longrightarrow> d = d'"
  by (auto simp: etag_of_def dest: inj_onD)

text \<open>A write that takes effect on a stored document carried its revision.\<close>

lemma save_over:
  assumes "save_at hex accepts d tag documents = Some (revision, documents')" and "documents (da_id d) = Some old"
  shows "tag = Some (etag_of hex old) \<or> tag = Some ''*''"
  using assms by (auto simp: save_at_def store_put_def save_headers_def preconditions_def present_text_def split: option.splits if_splits)

definition overwrites_reviewed :: "platform \<Rightarrow> BundleImportRequest \<Rightarrow> Dashboard \<times> Dashboard \<Rightarrow> bool" where
  "overwrites_reviewed p req = (\<lambda>(d, old). \<exists>parsed b. storedDashboardSchema p old = Some parsed \<and>
     baseline_of (rq_dashboardBaselines req) (da_id d) = Some b \<and> ib_fingerprint b = Some (dashboard_fingerprint parsed))"

lemma write_reviewed:
  assumes "inj_on hex D" and "stores_only D accepts initial" and "used_importer p uuid imp"
    and served: "served hex accepts p initial es over documents"
    and trace: "trace (importBundle p uuid req env imp) (es @ [Wrote_dashboard d tag r])"
    and saved: "save_at hex accepts d tag documents = Some (revision, documents')" and old: "documents (da_id d) = Some old"
  shows "overwrites_reviewed p req (d, old)"
proof -
  obtain c where c: "allowed c es (Wrote_dashboard d tag r)" "ca_platform c = p" "ca_request c = req"
    using import_calls_allowed [OF assms(3) trace] by force
  then have written: "dashboard_write_ok c es d tag" by (simp add: allowed_def)
  obtain rev where tag: "tag = Some rev" using save_over [OF saved old] by auto
  then obtain fresh where fresh: "Read_dashboard (da_id d) (Inr (fresh, Some rev)) \<in> set es"
    "reviewed_revision (rq_dashboardBaselines req) (da_id d) (dashboard_fingerprint fresh) rev"
    using written c(3) last_in_set by (force simp: dashboard_write_ok_def)
  obtain d' where d': "d' \<in> D" "storedDashboardSchema p d' = Some fresh" "rev = etag_of hex d'"
    using served_read [OF served assms(2) fresh(1)] by blast
  have "old \<in> D" using served_stores [OF served assms(2)] old by (auto simp: stores_only_def)
  then have "d' = old" using save_over [OF saved old] tag d' etag_of_inj [OF assms(1)] by (auto simp: etag_of_def)
  then show ?thesis using d' fresh(2) by (auto simp: overwrites_reviewed_def reviewed_revision_def)
qed

text \<open>The import whose answer is lost, against a store that holds the reviewed dashboard.\<close>

abbreviation same_digest :: "Dashboard \<Rightarrow> string" where
  "same_digest \<equiv> \<lambda>d. ''7''"

abbreviation accepts_plain :: "store \<Rightarrow> Dashboard \<Rightarrow> bool" where
  "accepts_plain \<equiv> \<lambda>documents d. d = newDashboard ''1''"

abbreviation plain_store :: store where
  "plain_store \<equiv> [''dashboard-1'' \<mapsto> newDashboard ''1'']"

lemma lost_served: "served same_digest accepts_plain sample_platform plain_store lost_calls [(newDashboard ''1'', newDashboard ''1'')] plain_store"
proof -
  let ?served = "served same_digest accepts_plain sample_platform plain_store" and ?d = "newDashboard ''1''"
  have revision: "etag_of same_digest d = old_revision" for d by (simp add: etag_of_def old_revision_def)
  have "storedDashboardSchema sample_platform ?d = Some ?d" by code_simp
  then have read: "get_from same_digest sample_platform ''dashboard-1'' plain_store = Some (?d, old_revision)"
    by (simp add: get_from_def revision)
  have saved: "save_at same_digest accepts_plain ?d (Some old_revision) plain_store = Some (old_revision, plain_store)"
    by (simp add: save_at_def store_put_def save_headers_def present_text_def preconditions_def revision plain_fields)
  have "?served ([] @ [Listed (Inr [])]) [] plain_store" by (intro served.list served.start)
  then have "?served (([] @ [Listed (Inr [])]) @ [unchanged_read]) [] plain_store"
    unfolding unchanged_read_def using read by (rule served.get) simp
  then have "?served ((([] @ [Listed (Inr [])]) @ [unchanged_read]) @ [unchanged_read]) [] plain_store"
    unfolding unchanged_read_def using read by (rule served.get) simp
  then have "?served replace_calls [] plain_store" by (simp add: replace_calls_def)
  then have "?served (replace_calls @ [Wrote_dashboard ?d (Some old_revision) (Inl ''lost'')])
      ([] @ (case plain_store (da_id ?d) of Some old \<Rightarrow> [(?d, old)] | None \<Rightarrow> [])) plain_store"
    using saved by (rule served.save) simp
  then have "?served ((replace_calls @ [Wrote_dashboard ?d (Some old_revision) (Inl ''lost'')]) @
      [Read_dashboard ''dashboard-1'' (Inl ''lost'')]) [(?d, ?d)] plain_store"
    by (intro served.get_failed) (simp add: plain_fields)
  then show ?thesis by (simp add: lost_calls_def)
qed

section \<open>Properties\<close>

text \<open>
  C5: Whatever others write and delete meanwhile, and whichever answers are lost, an import writes over no document but one whose content
  was reviewed: the document that stood in the store when the write took effect reads as the one
  whose fingerprint the review recorded. The digests in the revisions are assumed not to collide.
\<close>

theorem import_overwrites_only_reviewed:
  assumes "inj_on hex D" and "stores_only D accepts initial" and "used_importer p uuid imp"
    and "served hex accepts p initial es over documents" and "trace (importBundle p uuid req env imp) es"
  shows "\<forall>(d, old)\<in>set over. \<exists>parsed b. storedDashboardSchema p old = Some parsed \<and>
    baseline_of (rq_dashboardBaselines req) (da_id d) = Some b \<and> ib_fingerprint b = Some (dashboard_fingerprint parsed)"
proof -
  have "\<forall>x\<in>set over. overwrites_reviewed p req x" using assms(4,5)
  proof (induction rule: served.induct)
    case (save es over documents d tag revision documents' r m)
    then have "\<forall>x\<in>set over. overwrites_reviewed p req x" using trace_prefix by blast
    then show ?case
      using write_reviewed [OF assms(1-3) save.hyps(1) save.prems save.hyps(2)] by (auto split: option.splits)
  qed (auto dest: trace_prefix)
  then show ?thesis by (auto simp: overwrites_reviewed_def)
qed

theorem import_overwrites_only_reviewed_witness:
  "\<exists>over documents. served (\<lambda>d. ''7'') (\<lambda>documents d. d = newDashboard ''1'') sample_platform
       [''dashboard-1'' \<mapsto> newDashboard ''1''] lost_calls over documents \<and>
     (newDashboard ''1'', newDashboard ''1'') \<in> set over \<and>
     (\<exists>parsed b. storedDashboardSchema sample_platform (newDashboard ''1'') = Some parsed \<and>
        baseline_of (rq_dashboardBaselines replace_request) ''dashboard-1'' = Some b \<and> ib_fingerprint b = Some (dashboard_fingerprint parsed))"
proof -
  have "trace (importBundle sample_platform nat_str replace_request no_environment new_importer) lost_calls"
    using lost_run by (auto intro: runs_trace)
  moreover have "stores_only {newDashboard ''1''} accepts_plain plain_store" "inj_on same_digest {newDashboard ''1''}"
    by (auto simp: stores_only_def split: if_splits)
  ultimately have "\<forall>(d, old)\<in>set [(newDashboard ''1'', newDashboard ''1'')]. \<exists>parsed b. storedDashboardSchema sample_platform old = Some parsed \<and>
      baseline_of (rq_dashboardBaselines replace_request) (da_id d) = Some b \<and> ib_fingerprint b = Some (dashboard_fingerprint parsed)"
    using import_overwrites_only_reviewed [OF _ _ used_importer.initial lost_served] by blast
  then show ?thesis using lost_served by (auto simp: plain_fields)
qed

end
