(* ===== verification/WidgetRegistry.thy ===== *)
theory WidgetRegistry
  imports DashboardSchema
begin

text \<open>
  The registry of widget plugins (\<open>ui/src/features/insights/widget-registry.tsx\<close>) and the widgets made from it
  (\<open>newWidget\<close> of \<open>schema.ts\<close>): which plugins the registry admits, that its entries keep what it has checked, and when a
  new widget leaves its dashboard valid.
\<close>

section \<open>Definitions\<close>

record WidgetSizing =
  ws_mode :: string
  ws_minWidth :: "js_number option"
  ws_minHeight :: "js_number option"

record WidgetFieldBinding =
  fb_types :: "string list"
  fb_acceptedUnits :: "string list option"

record WidgetConfigField =
  cf_key :: string
  cf_binding :: "WidgetFieldBinding option"

text \<open>
  A plugin is what a new widget takes from it, with what only the registry reads. Its renderer and its data check are
  functions, and its data kind is one of the three, as their types say.
\<close>

record WidgetPlugin =
  wp_definition :: PluginDefinition
  wp_description :: string
  wp_sizing :: "WidgetSizing option"
  wp_configFields :: "WidgetConfigField list option"

datatype registry_error =
    Bad_plugin_id
  | Already_registered string
  | No_label_or_description
  | Bad_sizing_mode
  | Bad_sizing string
  | Bad_binding_types string
  | No_accepted_units string
  | Bad_default_options

definition recordTypes :: "string list" where
  "recordTypes = [''string'', ''number'', ''boolean'', ''timestamp'']"

definition bad_size :: "js_number option \<Rightarrow> bool" where
  "bad_size v \<longleftrightarrow> (case v of Some n \<Rightarrow> \<not> js_is_finite n \<or> js_less n (Fin 0) | None \<Rightarrow> False)"

definition validateSizing :: "WidgetSizing option \<Rightarrow> registry_error option" where
  "validateSizing sizing =
     (case sizing of
        None \<Rightarrow> None
      | Some s \<Rightarrow>
          if ws_mode s \<noteq> ''intrinsic'' \<and> ws_mode s \<noteq> ''fill'' then Some Bad_sizing_mode
          else if bad_size (ws_minWidth s) then Some (Bad_sizing ''minWidth'')
          else if bad_size (ws_minHeight s) then Some (Bad_sizing ''minHeight'')
          else None)"

fun validate_fields :: "WidgetConfigField list \<Rightarrow> registry_error option" where
  "validate_fields [] = None"
| "validate_fields (field # rest) =
     (case cf_binding field of
        None \<Rightarrow> validate_fields rest
      | Some binding \<Rightarrow>
          if fb_types binding = [] \<or> list_ex (\<lambda>t. t \<notin> set recordTypes) (fb_types binding) then Some (Bad_binding_types (cf_key field))
          else if fb_acceptedUnits binding = Some [] then Some (No_accepted_units (cf_key field))
          else validate_fields rest)"

definition validateConfigFields :: "WidgetConfigField list option \<Rightarrow> registry_error option" where
  "validateConfigFields fs = validate_fields (list_of fs)"

text \<open>The identifiers of \<open>widgetDefinitions\<close>.\<close>

definition builtin_ids :: "string list" where
  "builtin_ids = [''timeseries'', ''stat'', ''bar'', ''heatmap'', ''table'', ''traces'']"

text \<open>The plugins of the module, each with a number that stands for the identity of its frozen object.\<close>

record widget_registry =
  rg_plugins :: "(string, nat \<times> WidgetPlugin) js_map"
  rg_next :: nat

definition no_plugins :: widget_registry where
  "no_plugins = \<lparr>rg_plugins = [], rg_next = 0\<rparr>"

definition parsed_options :: "WidgetOptions option \<Rightarrow> registry_error + WidgetOptions option" where
  "parsed_options o' =
     (case o' of
        None \<Rightarrow> Inr None
      | Some v \<Rightarrow> if widgetOptionsSchema (trim_options v) then Inr (Some (trim_options v)) else Inl Bad_default_options)"

definition registerWidgetPlugin :: "widget_registry \<Rightarrow> WidgetPlugin \<Rightarrow> registry_error + widget_registry" where
  "registerWidgetPlugin R plugin =
     (let d = wp_definition plugin in
      if \<not> identifier_ok (pd_id d) then Inl Bad_plugin_id
      else if js_map_get (rg_plugins R) (pd_id d) \<noteq> None \<or> pd_id d \<in> set builtin_ids then Inl (Already_registered (pd_id d))
      else if trim (pd_label d) = [] \<or> trim (wp_description plugin) = [] then Inl No_label_or_description
      else case validateSizing (wp_sizing plugin) of
          Some e \<Rightarrow> Inl e
        | None \<Rightarrow>
            (case validateConfigFields (wp_configFields plugin) of
               Some e \<Rightarrow> Inl e
             | None \<Rightarrow>
                 (case parsed_options (pd_defaultOptions d) of
                    Inl e \<Rightarrow> Inl e
                  | Inr parsed \<Rightarrow>
                      Inr \<lparr>rg_plugins = js_map_set (pd_id d)
                             (rg_next R, plugin\<lparr>wp_definition := d\<lparr>pd_defaultOptions := parsed\<rparr>\<rparr>) (rg_plugins R),
                           rg_next = Suc (rg_next R)\<rparr>)))"

text \<open>The function that \<open>registerWidgetPlugin\<close> returns removes the plugin it registered, and no later one of that name.\<close>

definition unregister :: "widget_registry \<Rightarrow> string \<Rightarrow> nat \<Rightarrow> widget_registry" where
  "unregister R i n =
     (case js_map_get (rg_plugins R) i of
        Some (m, plugin) \<Rightarrow>
          if m = n then R\<lparr>rg_plugins := filter (\<lambda>entry. fst entry \<noteq> i) (rg_plugins R)\<rparr> else R
      | None \<Rightarrow> R)"

text \<open>\<open>getWidgetDefinition\<close> of a plugin widget.\<close>

definition plugin_definition :: "widget_registry \<Rightarrow> string option \<Rightarrow> PluginDefinition option" where
  "plugin_definition R i =
     map_option (\<lambda>(n, plugin). wp_definition plugin) (js_map_get (rg_plugins R) (case i of Some s \<Rightarrow> s | None \<Rightarrow> []))"

section \<open>Registries\<close>

inductive registry :: "widget_registry \<Rightarrow> bool" where
  empty: "registry no_plugins"
| registered: "registry R \<Longrightarrow> registerWidgetPlugin R plugin = Inr R' \<Longrightarrow> registry R'"
| unregistered: "registry R \<Longrightarrow> registry (unregister R i n)"

text \<open>What the registry has checked of a plugin. It neither bounds the label nor looks at the default configuration.\<close>

definition admitted :: "PluginDefinition \<Rightarrow> bool" where
  "admitted d \<longleftrightarrow>
     identifier_ok (pd_id d) \<and> trim (pd_label d) \<noteq> [] \<and> if_present widgetOptionsSchema (pd_defaultOptions d) \<and>
     map_option trim_options (pd_defaultOptions d) = pd_defaultOptions d"

lemma registered_plugin:
  assumes "registerWidgetPlugin R plugin = Inr R'"
  obtains d where "pd_id d = pd_id (wp_definition plugin)" "admitted d"
    "rg_plugins R' = js_map_set (pd_id d) (rg_next R, plugin\<lparr>wp_definition := d\<rparr>) (rg_plugins R)"
proof -
  let ?d = "wp_definition plugin"
  obtain parsed where parsed: "parsed_options (pd_defaultOptions ?d) = Inr parsed"
    and R': "rg_plugins R' = js_map_set (pd_id ?d) (rg_next R, plugin\<lparr>wp_definition := ?d\<lparr>pd_defaultOptions := parsed\<rparr>\<rparr>) (rg_plugins R)"
    and "identifier_ok (pd_id ?d)" "trim (pd_label ?d) \<noteq> []"
    using assms by (auto simp: registerWidgetPlugin_def Let_def split: if_splits option.splits sum.splits)
  moreover have "if_present widgetOptionsSchema parsed" "map_option trim_options parsed = parsed"
    using parsed by (auto simp: parsed_options_def split: option.splits if_splits)
  ultimately have "admitted (?d\<lparr>pd_defaultOptions := parsed\<rparr>)" by (simp add: admitted_def)
  then show thesis using that [of "?d\<lparr>pd_defaultOptions := parsed\<rparr>"] R' by simp
qed

lemma registry_admitted:
  "registry R \<Longrightarrow> (i, (n, plugin)) \<in> set (rg_plugins R) \<Longrightarrow> admitted (wp_definition plugin) \<and> pd_id (wp_definition plugin) = i"
proof (induction arbitrary: i n plugin rule: registry.induct)
  case empty
  then show ?case by (simp add: no_plugins_def)
next
  case (registered R new R')
  then show ?case by (elim registered_plugin) (auto dest!: set_js_map_set)
next
  case (unregistered R j m)
  then show ?case by (auto simp: unregister_def split: option.splits if_splits)
qed

lemma plugin_definition_admitted: "registry R \<Longrightarrow> plugin_definition R i = Some d \<Longrightarrow> admitted d"
  unfolding plugin_definition_def using registry_admitted by (fastforce dest: js_map_get_in)

section \<open>New widgets\<close>

text \<open>What the schema still asks of a registered plugin: the length of its label, and its default configuration.\<close>

definition widget_defaults_ok :: "PluginDefinition \<Rightarrow> bool" where
  "widget_defaults_ok d \<longleftrightarrow>
     length (trim (pd_label d)) \<le> 120 \<and> (\<forall>c. pd_defaultConfig d = Some c \<and> js_truthy c \<longrightarrow> pluginConfigSchema c)"

lemma new_widget_fields:
  assumes "newWidget uuid t providers widgets plugin = Some w"
  shows "wi_id w = ''widget-'' @ uuid" "wi_type w = t" "wi_title w = new_title t plugin" "wi_options w = new_options t plugin"
    "trim (wi_query w) = wi_query w" "text_between 1 8192 (wi_query w)" "wi_unit w = []" "wi_queryRef w = None"
    "wi_annotationSource w = None" "wi_description w = None" "wi_color w = None" "wi_drilldowns w = None"
    "wi_selectionBindings w = None"
    "wi_layout w = \<lparr>box_x = 0, box_y = bottom widgets, box_w = (if t = Stat then 3 else 6), box_h = (if t = Stat then 2 else 4)\<rparr>"
    "list_all (\<lambda>p. identifier_ok (pr_id p)) providers \<Longrightarrow> identifier_ok (wi_providerId w)"
proof -
  have "identifier_ok ''unconfigured''" by code_simp
  then show "list_all (\<lambda>p. identifier_ok (pr_id p)) providers \<Longrightarrow> identifier_ok (wi_providerId w)"
    using assms by (auto simp: newWidget_def Let_def list_all_iff find_Some_iff split: if_splits option.split)
  have "wi_query w \<in> {''{}'', ''up''}" using assms by (auto simp: newWidget_def Let_def split: if_splits)
  then show "trim (wi_query w) = wi_query w" "text_between 1 8192 (wi_query w)"
    by (auto simp: text_between_def trim_def js_space_def)
qed (use assms in \<open>auto simp: newWidget_def Let_def split: if_splits\<close>)

lemma new_widget_plugin:
  assumes "newWidget uuid t providers widgets plugin = Some w" and "if t = Plugin then if_present admitted plugin else plugin = None"
  shows "if_present widgetOptionsSchema (wi_options w)" "map_option trim_options (wi_options w) = wi_options w"
    "if_present identifier_ok (wi_pluginId w)" "plugin_fields_ok t (wi_pluginId w) (wi_dataKind w) (wi_config w)"
    "text_between 1 120 (trim (wi_title w)) \<and> if_present pluginConfigSchema (wi_config w) \<longleftrightarrow> if_present widget_defaults_ok plugin"
proof -
  have w: "wi_title w = new_title t plugin" "wi_options w = new_options t plugin"
    "wi_pluginId w = (if t = Plugin then map_option pd_id plugin else None)"
    "wi_dataKind w = (if t = Plugin then map_option pd_dataKind plugin else None)"
    "wi_config w = (if t = Plugin then Option.bind plugin
       (\<lambda>d. case pd_defaultConfig d of Some c \<Rightarrow> if js_truthy c then Some c else None | None \<Rightarrow> None) else None)"
    "\<not> (t = Plugin \<and> plugin = None)"
    using assms(1) by (auto simp: newWidget_def Let_def split: if_splits)
  have "if_present widgetOptionsSchema (wi_options w) \<and> map_option trim_options (wi_options w) = wi_options w \<and>
      if_present identifier_ok (wi_pluginId w) \<and> plugin_fields_ok t (wi_pluginId w) (wi_dataKind w) (wi_config w) \<and>
      (text_between 1 120 (trim (wi_title w)) \<and> if_present pluginConfigSchema (wi_config w) \<longleftrightarrow> if_present widget_defaults_ok plugin)"
  proof (cases "t = Plugin")
    case True
    then obtain d where "plugin = Some d" "admitted d" using w(6) assms(2) by auto
    moreover from this(2) have "1 \<le> length (trim (pd_label d))" by (cases "trim (pd_label d)") (simp_all add: admitted_def)
    ultimately show ?thesis
      using True w by (auto simp: admitted_def new_options_def plugin_fields_ok_def widget_defaults_ok_def text_between_def
        split: option.splits)
  next
    case False
    then show ?thesis
      using w assms(2) new_titles [of t plugin] new_options_ok [of t plugin] by (simp add: plugin_fields_ok_def)
  qed
  then show "if_present widgetOptionsSchema (wi_options w)" "map_option trim_options (wi_options w) = wi_options w"
    "if_present identifier_ok (wi_pluginId w)" "plugin_fields_ok t (wi_pluginId w) (wi_dataKind w) (wi_config w)"
    "text_between 1 120 (trim (wi_title w)) \<and> if_present pluginConfigSchema (wi_config w) \<longleftrightarrow> if_present widget_defaults_ok plugin"
    by blast+
qed

lemma new_widget_schema:
  assumes new: "newWidget uuid t providers widgets plugin = Some w"
    and plugin: "if t = Plugin then if_present admitted plugin else plugin = None"
    and "list_all (\<lambda>p. identifier_ok (pr_id p)) providers" and "identifier_ok (''widget-'' @ uuid)"
  shows "trim_widget w = w\<lparr>wi_title := trim (wi_title w)\<rparr>" and "widget_ok (trim_widget w) \<longleftrightarrow> if_present widget_defaults_ok plugin"
proof -
  note fields = new_widget_fields [OF new]
  show trimmed: "trim_widget w = w\<lparr>wi_title := trim (wi_title w)\<rparr>"
    using fields new_widget_plugin(2) [OF new plugin] by (cases w) (simp add: trim_widget_def)
  show "widget_ok (trim_widget w) \<longleftrightarrow> if_present widget_defaults_ok plugin"
    unfolding trimmed new_widget_plugin(5) [OF new plugin, symmetric]
    using fields(1,2,4-14) fields(15) [OF assms(3)] assms(4) new_widget_plugin(1,3,4) [OF new plugin] bottom_bounds [of widgets]
    by (auto simp: widget_ok_def layoutSchema_def text_between_def)
qed

lemma added_widget_schema:
  assumes "dashboardSchema p d = Some d" "length (da_widgets d) < MAX_WIDGETS" "wi_id w \<notin> wi_id ` set (da_widgets d)"
  shows "dashboardSchema p (d\<lparr>da_widgets := da_widgets d @ [w]\<rparr>) =
    (if widget_ok (trim_widget w) then Some (d\<lparr>da_widgets := da_widgets d @ [trim_widget w]\<rparr>) else None)"
proof -
  have "trim_dashboard (d\<lparr>da_widgets := da_widgets d @ [w]\<rparr>) = (trim_dashboard d)\<lparr>da_widgets := da_widgets (trim_dashboard d) @ [trim_widget w]\<rparr>"
    by (simp add: trim_dashboard_def)
  moreover have "wi_id (trim_widget w) = wi_id w" by (simp add: trim_widget_def)
  ultimately show ?thesis
    using assms by (auto simp: dashboardSchema_def [of p "d\<lparr>da_widgets := da_widgets d @ [w]\<rparr>"] dashboardSchema_fixed dashboard_body_ok_def)
qed

section \<open>Properties\<close>

text \<open>
  C22: When a new widget leaves its dashboard valid. Whatever was registered and removed before, a widget of a built-in type
  added to a valid dashboard that is not full leaves it valid, as it is. A widget of a registered plugin leaves it valid
  exactly when the trimmed label of the plugin has at most 120 characters and its default configuration, if it has one, is one
  the schema accepts; the registry checks neither. The schema then changes nothing but the spaces around the title. As long as
  no widget ends below row 1000, the new one overlaps none.
\<close>

theorem new_widget_keeps_dashboard_valid:
  assumes "registry R" and "plugin = (if t = Plugin then plugin_definition R pluginId else None)" and "t = Plugin \<Longrightarrow> plugin \<noteq> None"
    and "dashboardSchema p d = Some d" and "length (da_widgets d) < MAX_WIDGETS"
    and "list_all (\<lambda>p. identifier_ok (pr_id p)) providers"
    and "identifier_ok (''widget-'' @ uuid)" and "''widget-'' @ uuid \<notin> wi_id ` set (da_widgets d)"
  shows "\<exists>w. newWidget uuid t providers (da_widgets d) plugin = Some w \<and>
    dashboardSchema p (d\<lparr>da_widgets := da_widgets d @ [w]\<rparr>) =
      (if t = Plugin \<and> \<not> (length (trim (pd_label (the plugin))) \<le> 120 \<and>
          (\<forall>c. pd_defaultConfig (the plugin) = Some c \<and> js_truthy c \<longrightarrow> pluginConfigSchema c)) then None
       else Some (d\<lparr>da_widgets := da_widgets d @ [w\<lparr>wi_title := trim (wi_title w)\<rparr>]\<rparr>)) \<and>
    (t \<noteq> Plugin \<longrightarrow> trim (wi_title w) = wi_title w) \<and>
    (\<forall>v\<in>set (da_widgets d). box_y (wi_layout v) + box_h (wi_layout v) \<le> 1000 \<longrightarrow> \<not> overlaps (wi_layout v) (wi_layout w))"
proof -
  obtain w where w: "newWidget uuid t providers (da_widgets d) plugin = Some w"
    using assms(3) by (auto simp: newWidget_def Let_def)
  have plugin: "if t = Plugin then if_present admitted plugin else plugin = None"
    using assms(2) plugin_definition_admitted [OF assms(1), of pluginId] by (cases "plugin_definition R pluginId") auto
  note fields = new_widget_fields [OF w]
  note schema = new_widget_schema [OF w plugin assms(6,7)]
  have "if_present widget_defaults_ok plugin \<longleftrightarrow> \<not> (t = Plugin \<and> \<not> widget_defaults_ok (the plugin))"
    using assms(2,3) by (cases plugin) auto
  then have "dashboardSchema p (d\<lparr>da_widgets := da_widgets d @ [w]\<rparr>) =
      (if t = Plugin \<and> \<not> widget_defaults_ok (the plugin) then None
       else Some (d\<lparr>da_widgets := da_widgets d @ [w\<lparr>wi_title := trim (wi_title w)\<rparr>]\<rparr>))"
    using added_widget_schema [OF assms(4,5), of w, unfolded schema(2), unfolded schema(1)] assms(8) fields(1) by simp
  moreover have "t \<noteq> Plugin \<longrightarrow> trim (wi_title w) = wi_title w" using fields(3) new_titles by simp
  moreover have "\<not> overlaps (wi_layout v) (wi_layout w)"
    if "v \<in> set (da_widgets d)" "box_y (wi_layout v) + box_h (wi_layout v) \<le> 1000" for v
    using below_bottom [OF that] fields(14) by (simp add: overlaps_def)
  ultimately show ?thesis using w unfolding widget_defaults_ok_def by blast
qed

text \<open>A plugin that the registry admits, with a label of 130 characters.\<close>

definition long_plugin :: WidgetPlugin where
  "long_plugin = \<lparr>wp_definition = \<lparr>pd_id = ''gauge'', pd_label = replicate 130 (CHR ''g''), pd_dataKind = Metrics,
     pd_defaultOptions = None, pd_defaultConfig = None\<rparr>, wp_description = ''Gauge'', wp_sizing = None, wp_configFields = None\<rparr>"

definition long_registry :: widget_registry where
  "long_registry = \<lparr>rg_plugins = [(''gauge'', (0, long_plugin))], rg_next = 1\<rparr>"

lemma long_registered: "registry long_registry"
proof -
  have "registerWidgetPlugin no_plugins long_plugin = Inr long_registry" by code_simp
  then show ?thesis using registry.registered [OF registry.empty] by blast
qed

theorem new_widget_keeps_dashboard_valid_witness:
  "(\<exists>w. newWidget ''1'' Heatmap [] [] None = Some w \<and>
     dashboardSchema sample_platform ((newDashboard ''1'')\<lparr>da_widgets := [w]\<rparr>) \<noteq> None) \<and>
   (\<exists>w. newWidget ''1'' Plugin [] [] (plugin_definition long_registry (Some ''gauge'')) = Some w \<and>
     dashboardSchema sample_platform ((newDashboard ''1'')\<lparr>da_widgets := [w]\<rparr>) = None)"
proof
  have start: "dashboardSchema sample_platform (newDashboard ''1'') = Some (newDashboard ''1'')"
    "length (da_widgets (newDashboard ''1'')) < MAX_WIDGETS" "list_all (\<lambda>p. identifier_ok (pr_id p)) []"
    "identifier_ok (''widget-'' @ ''1'')" "''widget-'' @ ''1'' \<notin> wi_id ` set (da_widgets (newDashboard ''1''))"
    by code_simp+
  have none: "da_widgets (newDashboard ''1'') = []" by (simp add: newDashboard_def)
  show "\<exists>w. newWidget ''1'' Heatmap [] [] None = Some w \<and>
     dashboardSchema sample_platform ((newDashboard ''1'')\<lparr>da_widgets := [w]\<rparr>) \<noteq> None"
    using new_widget_keeps_dashboard_valid [OF registry.empty _ _ start, of None Heatmap] by (auto simp: none)
  have "plugin_definition long_registry (Some ''gauge'') = Some (wp_definition long_plugin)"
    "\<not> length (trim (pd_label (wp_definition long_plugin))) \<le> 120" by code_simp+
  then show "\<exists>w. newWidget ''1'' Plugin [] [] (plugin_definition long_registry (Some ''gauge'')) = Some w \<and>
     dashboardSchema sample_platform ((newDashboard ''1'')\<lparr>da_widgets := [w]\<rparr>) = None"
    using new_widget_keeps_dashboard_valid [OF long_registered _ _ start, of "plugin_definition long_registry (Some ''gauge'')" Plugin "Some ''gauge''"]
    by (auto simp: none)
qed

end
