(* ===== verification/ChartData.thy ===== *)
theory ChartData
  imports Drilldown JsonText
begin

text \<open>
  The points of a chart (\<open>ui/src/features/insights/chart-data.ts\<close>): downsampling to a bounded number of
  points, the gaps and the coverage of a series, the breaks of its line and the holes that no series
  observes. Index arithmetic is on natural numbers: the quotients are floors of quotients of integers
  below \<open>2^52\<close>, which are exact (\<open>floor_div_eq\<close>).
\<close>

section \<open>Points\<close>

definition MAX_POINTS :: nat where
  "MAX_POINTS = 480"

definition time_order :: "Point \<Rightarrow> Point \<Rightarrow> int" where
  "time_order p q = num_order (pt_timestamp p) (pt_timestamp q)"

definition observed :: "Point \<Rightarrow> bool" where
  "observed p \<longleftrightarrow> finite_value (pt_value p)"

definition normalize_points :: "Point list \<Rightarrow> Point list" where
  "normalize_points input =
     sort_by time_order
       (map (\<lambda>p. p\<lparr>pt_value := (if observed p then pt_value p else None)\<rparr>)
         (filter (\<lambda>p. validTimestamp (pt_timestamp p)) input))"

definition point_limit :: "js_number \<Rightarrow> nat" where
  "point_limit maximum = (case maximum of Fin m \<Rightarrow> nat (max 2 \<lfloor>m\<rfloor>) | _ \<Rightarrow> MAX_POINTS)"

section \<open>Downsampling\<close>

definition point_value :: "Point list \<Rightarrow> nat \<Rightarrow> js_number option" where
  "point_value points i = pt_value (points ! i)"

definition observedAt :: "Point list \<Rightarrow> nat \<Rightarrow> bool" where
  "observedAt points i \<longleftrightarrow> i < length points \<and> point_value points i \<noteq> None"

definition isolated_indexes :: "Point list \<Rightarrow> nat list" where
  "isolated_indexes points =
     filter (\<lambda>i. point_value points i \<noteq> None \<and> \<not> (0 < i \<and> observedAt points (i - 1)) \<and> \<not> observedAt points (i + 1))
       [0..<length points]"

definition keep_isolated :: "nat \<Rightarrow> nat list \<Rightarrow> nat list \<Rightarrow> nat list" where
  "keep_isolated budget isolated selected =
     (let room = budget - length selected in
      if length isolated \<le> room then foldl js_set_add selected isolated
      else foldl (\<lambda>s slot. js_set_add s (isolated ! (slot * length isolated div room))) selected [0..<room])"

definition largest_interior :: "Point list \<Rightarrow> nat list \<Rightarrow> nat option" where
  "largest_interior points selected =
     foldl (\<lambda>extreme i.
         case point_value points i of
           None \<Rightarrow> extreme
         | Some v \<Rightarrow>
             if i \<in> set selected then extreme
             else case extreme of
                 None \<Rightarrow> Some i
               | Some e \<Rightarrow> if js_less (js_abs (the (point_value points e))) (js_abs v) then Some i else extreme)
       None [1..<length points - 1]"

definition bucket_extremes :: "Point list \<Rightarrow> nat \<Rightarrow> nat \<Rightarrow> nat option \<times> nat option" where
  "bucket_extremes points start stop =
     foldl (\<lambda>(mn, mx) i.
         case point_value points i of
           None \<Rightarrow> (mn, mx)
         | Some v \<Rightarrow>
             ((case mn of None \<Rightarrow> Some i | Some j \<Rightarrow> if js_less v (the (point_value points j)) then Some i else mn),
              (case mx of None \<Rightarrow> Some i | Some j \<Rightarrow> if js_less (the (point_value points j)) v then Some i else mx)))
       (None, None) [start..<stop]"

fun add_some :: "nat list \<Rightarrow> nat option \<Rightarrow> nat list" where
  "add_some s None = s"
| "add_some s (Some i) = js_set_add s i"

definition bucket_start :: "nat \<Rightarrow> nat \<Rightarrow> nat \<Rightarrow> nat" where
  "bucket_start n buckets bucket = 1 + bucket * (n - 2) div buckets"

definition add_bucket :: "Point list \<Rightarrow> nat \<Rightarrow> nat list \<Rightarrow> nat \<Rightarrow> nat list" where
  "add_bucket points buckets selected bucket =
     (let (mn, mx) = bucket_extremes points (bucket_start (length points) buckets bucket)
        (bucket_start (length points) buckets (bucket + 1))
      in add_some (add_some selected mn) mx)"

definition add_extremes :: "Point list \<Rightarrow> nat \<Rightarrow> nat list \<Rightarrow> nat list" where
  "add_extremes points budget selected =
     (let remaining = budget - length selected in
      if remaining = 1 then add_some selected (largest_interior points selected)
      else foldl (add_bucket points (remaining div 2)) selected [0..<remaining div 2])"

definition point_budget :: "Point list \<Rightarrow> nat \<Rightarrow> nat" where
  "point_budget points limit =
     (if \<exists>p \<in> set points. pt_value p = None then max 2 ((limit + 1) div 2) else limit)"

definition select_indexes :: "Point list \<Rightarrow> nat \<Rightarrow> nat list" where
  "select_indexes points limit =
     (let budget = point_budget points limit;
          ends = js_set [0, length points - 1]
      in sort_by (\<lambda>a b. int a - int b)
           (add_extremes points budget (keep_isolated budget (isolated_indexes points) ends)))"

text \<open>The last loop, on the indexes of the points that it pushes.\<close>

definition first_missing :: "Point list \<Rightarrow> nat \<Rightarrow> nat \<Rightarrow> nat option" where
  "first_missing points previous current = List.find (\<lambda>i. point_value points i = None) [previous + 1..<current]"

fun join_indexes :: "Point list \<Rightarrow> nat \<Rightarrow> nat \<Rightarrow> nat list \<Rightarrow> nat list \<Rightarrow> nat list" where
  "join_indexes points limit previous [] result = result"
| "join_indexes points limit previous (current # rest) result =
     (let bridged =
            (if point_value points previous \<noteq> None \<and> point_value points current \<noteq> None
             then (case first_missing points previous current of Some i \<Rightarrow> result @ [i] | None \<Rightarrow> result)
             else result)
      in join_indexes points limit current rest (if length bridged < limit then bridged @ [current] else bridged))"

definition downsample_normalized :: "Point list \<Rightarrow> nat \<Rightarrow> Point list" where
  "downsample_normalized points limit =
     (if length points \<le> limit then points
      else case select_indexes points limit of
          [] \<Rightarrow> []
        | first # rest \<Rightarrow> map ((!) points) (join_indexes points limit first rest [first]))"

definition downsamplePoints :: "Point list \<Rightarrow> js_number \<Rightarrow> Point list" where
  "downsamplePoints input maximum = downsample_normalized (normalize_points input) (point_limit maximum)"

definition latestPoint :: "Series \<Rightarrow> Point option" where
  "latestPoint series =
     foldl (\<lambda>latest p.
         if observed p \<and> validTimestamp (pt_timestamp p) \<and>
            (case latest of None \<Rightarrow> True | Some l \<Rightarrow> js_ge (pt_timestamp p) (pt_timestamp l))
         then Some p else latest) None (se_points series)"

text \<open>\<open>Number.MAX_SAFE_INTEGER\<close>; the loop back over the missing tail.\<close>

definition MAX_SAFE_INTEGER :: js_number where
  "MAX_SAFE_INTEGER = Fin (2 ^ 53 - 1)"

definition boundHistoryPoints :: "Point list \<Rightarrow> js_number \<Rightarrow> Point list" where
  "boundHistoryPoints input maximum =
     (let normalized = downsamplePoints input MAX_SAFE_INTEGER;
          upto_valid = rev (dropWhile (\<lambda>p. pt_value p = None) (rev normalized))
      in if upto_valid \<noteq> [] \<and> length upto_valid < length normalized
         then downsamplePoints upto_valid (js_sub maximum (Fin 1)) @ [last normalized]
         else downsamplePoints normalized maximum)"

section \<open>Gaps and coverage\<close>

record TimeInterval =
  iv_from :: js_number
  iv_to :: js_number

record time_step =
  ts_from :: js_number
  ts_to :: js_number
  ts_gap :: bool

definition inTimeOrder :: "Point list \<Rightarrow> Point list" where
  "inTimeOrder points = sort_by time_order (filter (\<lambda>p. validTimestamp (pt_timestamp p)) points)"

definition isGapStep :: "js_number \<Rightarrow> js_number option \<Rightarrow> bool" where
  "isGapStep step cadence \<longleftrightarrow>
     (case cadence of None \<Rightarrow> False | Some c \<Rightarrow> js_less (js_mul_const c (3 / 2)) step)"

fun time_steps :: "js_number list \<Rightarrow> js_number list" where
  "time_steps (a # b # ts) = js_sub b a # time_steps (b # ts)"
| "time_steps _ = []"

definition sampleCadence :: "Point list \<Rightarrow> js_number option" where
  "sampleCadence points =
     (let times = map pt_timestamp (filter observed (inTimeOrder points)) in
      if length times < 3 then None
      else let steps = sort_by num_order (filter (js_less (Fin 0)) (time_steps times))
        in if steps = [] then None else Some (steps ! ((length steps - 1) div 2)))"

fun steps_from :: "js_number option \<Rightarrow> Point option \<Rightarrow> bool \<Rightarrow> Point list \<Rightarrow> time_step list" where
  "steps_from cadence previous missingSince [] = []"
| "steps_from cadence previous missingSince (p # ps) =
     (if \<not> observed p then steps_from cadence previous True ps
      else (case previous of
              Some q \<Rightarrow>
                [\<lparr>ts_from = pt_timestamp q, ts_to = pt_timestamp p,
                  ts_gap = (missingSince \<or> isGapStep (js_sub (pt_timestamp p) (pt_timestamp q)) cadence)\<rparr>]
            | None \<Rightarrow> []) @ steps_from cadence (Some p) False ps)"

definition observedSteps :: "Point list \<Rightarrow> js_number option \<Rightarrow> time_step list" where
  "observedSteps points cadence = steps_from cadence None False (inTimeOrder points)"

definition step_interval :: "time_step \<Rightarrow> TimeInterval" where
  "step_interval s = \<lparr>iv_from = ts_from s, iv_to = ts_to s\<rparr>"

definition interval_order :: "TimeInterval \<Rightarrow> TimeInterval \<Rightarrow> int" where
  "interval_order a b =
     (let c = num_order (iv_from a) (iv_from b) in if c \<noteq> 0 then c else num_order (iv_to a) (iv_to b))"

definition seriesCoverage :: "Point list \<Rightarrow> js_number option \<Rightarrow> TimeInterval list" where
  "seriesCoverage points cadence =
     (let steps = observedSteps points cadence;
          samples = filter observed (inTimeOrder points);
          covered = (\<lambda>i. 0 < i \<and> \<not> ts_gap (steps ! (i - 1)) \<or> i < length steps \<and> \<not> ts_gap (steps ! i));
          alone = map (\<lambda>i. \<lparr>iv_from = pt_timestamp (samples ! i), iv_to = pt_timestamp (samples ! i)\<rparr>)
                    (filter (\<lambda>i. \<not> covered i) [0..<length samples])
      in sort_by interval_order (map step_interval (filter (\<lambda>s. \<not> ts_gap s) steps) @ alone))"

definition seriesGaps :: "Point list \<Rightarrow> js_number option \<Rightarrow> TimeInterval list" where
  "seriesGaps points cadence = map step_interval (filter ts_gap (observedSteps points cadence))"

fun breaks_from :: "js_number option \<Rightarrow> Point option \<Rightarrow> bool \<Rightarrow> Point list \<Rightarrow> Point list" where
  "breaks_from cadence previous missingSince [] = []"
| "breaks_from cadence previous missingSince (p # ps) =
     (if \<not> observed p then p # breaks_from cadence previous True ps
      else (case previous of
              Some q \<Rightarrow>
                if \<not> missingSince \<and> isGapStep (js_sub (pt_timestamp p) (pt_timestamp q)) cadence
                then [\<lparr>pt_timestamp = js_div_const (js_add (pt_timestamp q) (pt_timestamp p)) 2, pt_value = None\<rparr>]
                else []
            | None \<Rightarrow> []) @ p # breaks_from cadence (Some p) False ps)"

definition withGapBreaks :: "Point list \<Rightarrow> js_number option \<Rightarrow> Point list" where
  "withGapBreaks points cadence = breaks_from cadence None False (inTimeOrder points)"

fun runs_from :: "Point list \<Rightarrow> Point list \<Rightarrow> Point list list" where
  "runs_from run [] = (if run \<noteq> [] then [run] else [])"
| "runs_from run (p # ps) =
     (if observed p then runs_from (run @ [p]) ps
      else (if run \<noteq> [] then [run] else []) @ runs_from [] ps)"

definition observedRuns :: "Point list \<Rightarrow> Point list list" where
  "observedRuns points = runs_from [] points"

definition isolatedPlotPoints :: "Point list \<Rightarrow> Point list" where
  "isolatedPlotPoints points =
     (let seen = (\<lambda>i. i < length points \<and> observed (points ! i)) in
      map (\<lambda>i. if observed (points ! i) \<and> \<not> (0 < i \<and> seen (i - 1)) \<and> \<not> seen (i + 1)
               then points ! i else (points ! i)\<lparr>pt_value := None\<rparr>) [0..<length points])"

fun holes_from :: "js_number \<Rightarrow> js_number \<Rightarrow> TimeInterval list \<Rightarrow> TimeInterval list" where
  "holes_from stop cursor [] = (if js_less cursor stop then [\<lparr>iv_from = cursor, iv_to = stop\<rparr>] else [])"
| "holes_from stop cursor (i # is) =
     (if js_less cursor (iv_from i) then [\<lparr>iv_from = cursor, iv_to = iv_from i\<rparr>] else []) @
     holes_from stop (js_max cursor (iv_to i)) is"

definition uncoveredIntervals :: "TimeInterval list list \<Rightarrow> js_number \<Rightarrow> js_number \<Rightarrow> TimeInterval list" where
  "uncoveredIntervals coverages start stop =
     (if \<not> js_less start stop then []
      else let covered = sort_by (\<lambda>a b. num_order (iv_from a) (iv_from b))
                 (filter (\<lambda>i. js_ge (iv_to i) (iv_from i))
                   (map (\<lambda>i. \<lparr>iv_from = js_max start (iv_from i), iv_to = js_min stop (iv_to i)\<rparr>) (concat coverages)))
        in holes_from stop start covered)"

definition plotTimeDomain :: "js_number \<Rightarrow> js_number \<Rightarrow> js_number \<times> js_number" where
  "plotTimeDomain start stop =
     (if js_less start stop then (start, stop)
      else let scaled = js_mul_const (js_abs start) (1 / 20);
               offset = (if scaled = Fin 0 \<or> scaled = NaN then Fin 1 else scaled)
        in (js_sub start offset, js_add stop offset))"

section \<open>Order of numbers\<close>

lemma sort_by_finite:
  assumes "\<And>x. x \<in> set xs \<Longrightarrow> js_is_finite (f x)"
  shows "sorted (map (finite_part \<circ> f) (sort_by (\<lambda>a b. num_order (f a) (f b)) xs))"
proof -
  have "sort_by (\<lambda>a b. num_order (f a) (f b)) xs = sort_by (\<lambda>a b. cmp_ord ((finite_part \<circ> f) a) ((finite_part \<circ> f) b)) xs"
    using assms by (intro sort_by_cong) (simp add: num_order_finite)
  then show ?thesis using ord_cmp.sort_by_sorted [of "finite_part \<circ> f" xs] by (simp add: cmp_ord_le sorted_map)
qed

interpretation index_order: consistent_comparator "\<lambda>a b. int a - int b"
  by unfold_locales auto

section \<open>Selecting points\<close>

text \<open>After normalization a value is missing or finite.\<close>

definition normal :: "Point list \<Rightarrow> bool" where
  "normal points \<longleftrightarrow> (\<forall>p \<in> set points. js_is_finite (pt_timestamp p) \<and> (\<forall>v. pt_value p = Some v \<longrightarrow> js_is_finite v))"

lemma validTimestamp_finite: "validTimestamp t \<Longrightarrow> js_is_finite t"
  by (cases t) (auto simp: validTimestamp_def)

lemma normal_normalize: "normal (normalize_points input)"
  by (auto simp: normal_def normalize_points_def observed_def finite_value_def validTimestamp_finite split: option.splits if_splits)

lemma set_foldl_add: "set (foldl js_set_add s xs) = set s \<union> set xs"
  by (induction xs arbitrary: s) (auto simp: js_set_add_def)

lemma distinct_foldl_add: "distinct s \<Longrightarrow> distinct (foldl js_set_add s xs)"
  by (induction xs arbitrary: s) (auto simp: js_set_add_def)

lemma length_foldl_add: "length (foldl js_set_add s xs) \<le> length s + length xs"
proof (induction xs arbitrary: s)
  case (Cons x xs)
  have "length (js_set_add s x) \<le> length s + 1" by (simp add: js_set_add_def)
  then show ?case using Cons [of "js_set_add s x"] by simp
qed simp

lemma foldl_add_map: "foldl (\<lambda>s x. js_set_add s (f x)) s xs = foldl js_set_add s (map f xs)"
  by (induction xs arbitrary: s) auto

lemma slot_in_range: "slot < room \<Longrightarrow> xs \<noteq> [] \<Longrightarrow> xs ! (slot * length xs div room) \<in> set xs"
  by (rule nth_mem) (simp add: less_mult_imp_div_less)

lemma keep_isolated_facts:
  fixes isolated selected :: "nat list" and budget :: nat
  assumes "distinct selected"
  defines "s \<equiv> keep_isolated budget isolated selected"
  shows "distinct s" and "length selected \<le> budget \<Longrightarrow> length s \<le> budget"
    and "set selected \<subseteq> set s" and "set s \<subseteq> set selected \<union> set isolated"
    and "length selected + length isolated \<le> budget \<Longrightarrow> set isolated \<subseteq> set s \<and> length s \<le> length selected + length isolated"
proof -
  let ?room = "budget - length selected"
  define xs where "xs = (if length isolated \<le> ?room then isolated
      else map (\<lambda>slot. isolated ! (slot * length isolated div ?room)) [0..<?room])"
  have s: "s = foldl js_set_add selected xs"
    by (simp add: s_def xs_def keep_isolated_def Let_def
        foldl_add_map [of "\<lambda>slot. isolated ! (slot * length isolated div ?room)" selected "[0..<?room]"])
  have "isolated ! (slot * length isolated div ?room) \<in> set isolated" if "slot < ?room" "\<not> length isolated \<le> ?room" for slot
    using slot_in_range [OF that(1), of isolated] that(2) by force
  then have xs: "set xs \<subseteq> set isolated" by (auto simp: xs_def)
  have xs_len: "length xs \<le> ?room" by (auto simp: xs_def)
  show "distinct s" "set selected \<subseteq> set s" "set s \<subseteq> set selected \<union> set isolated"
    using assms(1) xs by (auto simp: s distinct_foldl_add set_foldl_add)
  show "length s \<le> budget" if "length selected \<le> budget"
    using xs_len that length_foldl_add [of selected xs] by (simp add: s)
  show "set isolated \<subseteq> set s \<and> length s \<le> length selected + length isolated" if "length selected + length isolated \<le> budget"
  proof -
    have "length isolated \<le> ?room" using that by linarith
    then have "xs = isolated" by (simp add: xs_def)
    then show ?thesis using length_foldl_add [of selected isolated] by (simp add: s set_foldl_add)
  qed
qed

text \<open>The smallest and the largest value of a bucket.\<close>

definition value_of :: "Point list \<Rightarrow> nat \<Rightarrow> rat" where
  "value_of points i = finite_part (the (point_value points i))"

lemma normal_less:
  assumes "normal points" "observedAt points i" "observedAt points j"
  shows "js_less (the (point_value points i)) (the (point_value points j)) \<longleftrightarrow> value_of points i < value_of points j"
proof -
  have "js_is_finite (the (point_value points k))" if "observedAt points k" for k
  proof -
    have "points ! k \<in> set points" using that by (simp add: observedAt_def)
    then have "\<forall>v. pt_value (points ! k) = Some v \<longrightarrow> js_is_finite v" using assms(1) unfolding normal_def by blast
    then show ?thesis using that by (auto simp: observedAt_def point_value_def)
  qed
  then obtain a b where "the (point_value points i) = Fin a" "the (point_value points j) = Fin b"
    using assms(2,3) by (meson js_is_finite.elims(2))
  then show ?thesis by (simp add: value_of_def)
qed

lemma bucket_extremes_snoc:
  "start \<le> stop \<Longrightarrow> bucket_extremes points start (Suc stop) =
     (let (mn, mx) = bucket_extremes points start stop in
      case point_value points stop of
        None \<Rightarrow> (mn, mx)
      | Some v \<Rightarrow>
          ((case mn of None \<Rightarrow> Some stop | Some j \<Rightarrow> if js_less v (the (point_value points j)) then Some stop else mn),
           (case mx of None \<Rightarrow> Some stop | Some j \<Rightarrow> if js_less (the (point_value points j)) v then Some stop else mx)))"
  by (simp add: bucket_extremes_def Let_def split: prod.splits option.splits)

definition extreme_in :: "Point list \<Rightarrow> nat \<Rightarrow> nat \<Rightarrow> (rat \<Rightarrow> rat \<Rightarrow> bool) \<Rightarrow> nat option \<Rightarrow> bool" where
  "extreme_in points start stop le e \<longleftrightarrow>
     (case e of
        None \<Rightarrow> \<forall>k. start \<le> k \<and> k < stop \<longrightarrow> \<not> observedAt points k
      | Some i \<Rightarrow> start \<le> i \<and> i < stop \<and> observedAt points i \<and>
          (\<forall>k. start \<le> k \<and> k < stop \<and> observedAt points k \<longrightarrow> le (value_of points i) (value_of points k)))"

lemma bucket_extremes_spec:
  assumes "normal points" "start \<le> stop" "stop \<le> length points"
  shows "extreme_in points start stop (\<le>) (fst (bucket_extremes points start stop)) \<and>
    extreme_in points start stop (\<ge>) (snd (bucket_extremes points start stop))"
  using assms(2,3)
proof (induction stop rule: dec_induct)
  case base
  show ?case by (auto simp: bucket_extremes_def extreme_in_def)
next
  case (step m)
  obtain mn mx where b: "bucket_extremes points start m = (mn, mx)" by fastforce
  have IH: "extreme_in points start m (\<le>) mn" "extreme_in points start m (\<ge>) mx" using step b by auto
  show ?case
  proof (cases "point_value points m")
    case None
    then have "\<not> observedAt points m" by (simp add: observedAt_def)
    then show ?thesis using IH None step.hyps
      by (auto simp: bucket_extremes_snoc b extreme_in_def less_Suc_eq split: option.splits)
  next
    case (Some v)
    then have m: "observedAt points m" using step.prems by (simp add: observedAt_def)
    have less: "js_less v (the (point_value points j)) \<longleftrightarrow> value_of points m < value_of points j"
      "js_less (the (point_value points j)) v \<longleftrightarrow> value_of points j < value_of points m" if "observedAt points j" for j
      using normal_less [OF assms(1) m that] normal_less [OF assms(1) that m] Some by simp_all
    have "extreme_in points start (Suc m) (\<le>) (case mn of None \<Rightarrow> Some m | Some j \<Rightarrow> if js_less v (the (point_value points j)) then Some m else mn)"
      using IH(1) m less(1) step.hyps by (cases mn) (fastforce simp: extreme_in_def less_Suc_eq)+
    moreover have "extreme_in points start (Suc m) (\<ge>) (case mx of None \<Rightarrow> Some m | Some j \<Rightarrow> if js_less (the (point_value points j)) v then Some m else mx)"
      using IH(2) m less(2) step.hyps by (cases mx) (fastforce simp: extreme_in_def less_Suc_eq)+
    ultimately show ?thesis using step.hyps Some by (simp add: bucket_extremes_snoc b)
  qed
qed

text \<open>The buckets cover the interior.\<close>

lemma between_steps:
  fixes f :: "nat \<Rightarrow> nat"
  shows "f 0 \<le> k \<Longrightarrow> k < f n \<Longrightarrow> \<exists>b<n. f b \<le> k \<and> k < f (Suc b)"
proof (induction n)
  case (Suc n)
  show ?case
  proof (cases "k < f n")
    case True
    then show ?thesis using Suc less_SucI by blast
  next
    case False
    then show ?thesis using Suc.prems by (intro exI [of _ n]) simp
  qed
qed simp

lemma bucket_start_ends: "0 < buckets \<Longrightarrow> bucket_start n buckets 0 = 1 \<and> bucket_start n buckets buckets = 1 + (n - 2)"
  by (simp add: bucket_start_def)

lemma bucket_start_mono: "b \<le> c \<Longrightarrow> bucket_start n buckets b \<le> bucket_start n buckets c"
  by (simp add: bucket_start_def div_le_mono)

lemma bucket_start_le: "b \<le> buckets \<Longrightarrow> 2 \<le> n \<Longrightarrow> bucket_start n buckets b \<le> n - 1"
proof (cases "buckets = 0")
  case False
  assume "b \<le> buckets" "2 \<le> n"
  then show ?thesis using bucket_start_mono [of b buckets n buckets] bucket_start_ends [of buckets n] False by simp
qed (simp add: bucket_start_def)

text \<open>What adding the extremes does: interior observed indexes only, two of each bucket.\<close>

lemma add_some_facts:
  shows "distinct s \<Longrightarrow> distinct (add_some s e)" and "set (add_some s e) = set s \<union> set_option e"
    and "length (add_some s e) \<le> length s + 1"
  by (cases e; auto simp: js_set_add_def)+

definition interior :: "Point list \<Rightarrow> nat set" where
  "interior points = {i. 0 < i \<and> i < length points - 1 \<and> observedAt points i}"

lemma add_bucket_facts:
  assumes "normal points" "distinct s" "bucket < buckets" "2 \<le> length points"
  shows "distinct (add_bucket points buckets s bucket)" and "set s \<subseteq> set (add_bucket points buckets s bucket)"
    and "set (add_bucket points buckets s bucket) \<subseteq> set s \<union> interior points"
    and "length (add_bucket points buckets s bucket) \<le> length s + 2"
    and "\<And>k. observedAt points k \<Longrightarrow> bucket_start (length points) buckets bucket \<le> k \<Longrightarrow> k < bucket_start (length points) buckets (bucket + 1) \<Longrightarrow>
      \<exists>i \<in> set (add_bucket points buckets s bucket). \<exists>j \<in> set (add_bucket points buckets s bucket).
        observedAt points i \<and> observedAt points j \<and> value_of points i \<le> value_of points k \<and> value_of points k \<le> value_of points j"
proof -
  let ?a = "bucket_start (length points) buckets bucket" and ?b = "bucket_start (length points) buckets (bucket + 1)"
  obtain mn mx where m: "bucket_extremes points ?a ?b = (mn, mx)" by fastforce
  have range: "?a \<le> ?b" "?b \<le> length points - 1" "1 \<le> ?a"
    using assms(3,4) bucket_start_le [of "bucket + 1" buckets "length points"]
    by (auto simp: bucket_start_mono) (simp add: bucket_start_def)
  then have ext: "extreme_in points ?a ?b (\<le>) mn" "extreme_in points ?a ?b (\<ge>) mx"
    using bucket_extremes_spec [OF assms(1), of ?a ?b] m by auto
  have eq: "add_bucket points buckets s bucket = add_some (add_some s mn) mx" using m by (simp add: add_bucket_def)
  have inner: "set_option mn \<union> set_option mx \<subseteq> interior points"
    using ext range by (auto simp: extreme_in_def interior_def split: option.splits)
  show "distinct (add_bucket points buckets s bucket)" "set s \<subseteq> set (add_bucket points buckets s bucket)"
    "set (add_bucket points buckets s bucket) \<subseteq> set s \<union> interior points"
    using assms(2) inner by (auto simp: eq add_some_facts)
  show "length (add_bucket points buckets s bucket) \<le> length s + 2"
    using add_some_facts(3) [of "add_some s mn" mx] add_some_facts(3) [of s mn] by (simp add: eq)
  fix k assume k: "observedAt points k" "?a \<le> k" "k < ?b"
  then obtain i j where ij: "mn = Some i" "mx = Some j" using ext by (auto simp: extreme_in_def split: option.splits)
  have "observedAt points i \<and> value_of points i \<le> value_of points k" "observedAt points j \<and> value_of points k \<le> value_of points j"
    using ext k ij by (auto simp: extreme_in_def)
  moreover have "i \<in> set (add_bucket points buckets s bucket)" "j \<in> set (add_bucket points buckets s bucket)"
    using ij add_some_facts(2) [of s mn] add_some_facts(2) [of "add_some s mn" mx] by (simp_all add: eq)
  ultimately show "\<exists>i \<in> set (add_bucket points buckets s bucket). \<exists>j \<in> set (add_bucket points buckets s bucket).
        observedAt points i \<and> observedAt points j \<and> value_of points i \<le> value_of points k \<and> value_of points k \<le> value_of points j"
    by blast
qed

definition spans :: "Point list \<Rightarrow> nat list \<Rightarrow> nat \<Rightarrow> bool" where
  "spans points s k \<longleftrightarrow> (\<exists>i \<in> set s. \<exists>j \<in> set s. observedAt points i \<and> observedAt points j \<and>
     value_of points i \<le> value_of points k \<and> value_of points k \<le> value_of points j)"

lemma spans_mono: "spans points s k \<Longrightarrow> set s \<subseteq> set s' \<Longrightarrow> spans points s' k"
  unfolding spans_def by blast

lemma foldl_buckets:
  assumes "normal points" "2 \<le> length points" "m \<le> buckets" "distinct s"
  defines "r \<equiv> foldl (add_bucket points buckets) s [0..<m]"
  shows "distinct r \<and> set s \<subseteq> set r \<and> set r \<subseteq> set s \<union> interior points \<and> length r \<le> length s + 2 * m \<and>
    (\<forall>k. observedAt points k \<and> bucket_start (length points) buckets 0 \<le> k \<and> k < bucket_start (length points) buckets m \<longrightarrow>
       spans points r k)"
  using assms(3) unfolding r_def
proof (induction m)
  case (Suc m)
  let ?r = "foldl (add_bucket points buckets) s [0..<m]"
  let ?r' = "add_bucket points buckets ?r m"
  have IH: "distinct ?r" "set s \<subseteq> set ?r" "set ?r \<subseteq> set s \<union> interior points" "length ?r \<le> length s + 2 * m"
    "\<And>k. observedAt points k \<Longrightarrow> bucket_start (length points) buckets 0 \<le> k \<Longrightarrow> k < bucket_start (length points) buckets m \<Longrightarrow> spans points ?r k"
    using Suc by auto
  have "m < buckets" using Suc.prems by simp
  note new = add_bucket_facts [OF assms(1) IH(1) this assms(2)]
  have "spans points ?r' k"
    if "observedAt points k" "bucket_start (length points) buckets 0 \<le> k" "k < bucket_start (length points) buckets (Suc m)" for k
  proof (cases "k < bucket_start (length points) buckets m")
    case True
    then show ?thesis using IH(5) that new(2) spans_mono by blast
  next
    case False
    then show ?thesis using new(5) [of k] that by (simp add: spans_def)
  qed
  then show ?case using IH(1-4) new(1-4) by auto
qed (use assms(4) in \<open>auto simp: bucket_start_def\<close>)

lemma largest_interior_in:
  "largest_interior points s = Some i \<Longrightarrow> i \<in> interior points"
proof -
  let ?f = "\<lambda>extreme i. case point_value points i of None \<Rightarrow> extreme | Some v \<Rightarrow>
      if i \<in> set s then extreme else case extreme of None \<Rightarrow> Some i
        | Some e \<Rightarrow> if js_less (js_abs (the (point_value points e))) (js_abs v) then Some i else extreme"
  have "foldl ?f e xs = Some i \<Longrightarrow> e = Some i \<or> i \<in> set xs \<and> point_value points i \<noteq> None" for e xs
    by (induction xs arbitrary: e) (fastforce split: option.splits if_splits)+
  from this [of None "[1..<length points - 1]"] show "largest_interior points s = Some i \<Longrightarrow> i \<in> interior points"
    unfolding largest_interior_def by (auto simp: interior_def observedAt_def)
qed

lemma add_extremes_facts:
  assumes "normal points" "2 \<le> length points" "distinct s" "length s \<le> budget"
  shows "distinct (add_extremes points budget s)" and "set s \<subseteq> set (add_extremes points budget s)"
    and "set (add_extremes points budget s) \<subseteq> set s \<union> interior points" and "length (add_extremes points budget s) \<le> budget"
    and "length s + 2 \<le> budget \<Longrightarrow> k \<in> interior points \<Longrightarrow> spans points (add_extremes points budget s) k"
proof -
  let ?m = "(budget - length s) div 2"
  note buckets = foldl_buckets [OF assms(1,2) order.refl assms(3), of ?m]
  have one: "set_option (largest_interior points s) \<subseteq> interior points"
    using largest_interior_in by (cases "largest_interior points s") auto
  show "distinct (add_extremes points budget s)" "set s \<subseteq> set (add_extremes points budget s)"
    "set (add_extremes points budget s) \<subseteq> set s \<union> interior points"
    using buckets one assms(3) by (auto simp: add_extremes_def Let_def add_some_facts)
  show "length (add_extremes points budget s) \<le> budget"
  proof (cases "budget - length s = 1")
    case True
    then show ?thesis using add_some_facts(3) [of s "largest_interior points s"] assms(4) by (simp add: add_extremes_def)
  next
    case False
    have "2 * ?m \<le> budget - length s" by simp
    moreover have "length (add_extremes points budget s) \<le> length s + 2 * ?m"
      using buckets False by (simp add: add_extremes_def Let_def)
    ultimately show ?thesis using assms(4) by linarith
  qed
  assume "length s + 2 \<le> budget" "k \<in> interior points"
  moreover from this have "k < bucket_start (length points) ?m ?m" "bucket_start (length points) ?m 0 \<le> k"
    using bucket_start_ends [of ?m "length points"] by (auto simp: interior_def)
  ultimately show "spans points (add_extremes points budget s) k" using buckets by (auto simp: add_extremes_def Let_def interior_def)
qed

section \<open>The selected indexes\<close>

lemma isolated_indexes_in: "i \<in> set (isolated_indexes points) \<longleftrightarrow>
    observedAt points i \<and> \<not> (0 < i \<and> observedAt points (i - 1)) \<and> \<not> observedAt points (i + 1)"
  by (auto simp: isolated_indexes_def observedAt_def)

lemma point_budget_bounds: "2 \<le> limit \<Longrightarrow> 2 \<le> point_budget points limit \<and> point_budget points limit \<le> limit"
  by (auto simp: point_budget_def)

lemma js_set_ends: "set (js_set [0, n - 1]) = {0, n - 1}" "length (js_set [0, n - 1]) \<le> 2" "distinct (js_set [0, n - 1])" for n :: nat
  by (auto simp: js_set_def js_set_add_def)

lemma strictly_sorted:
  fixes xs :: "nat list"
  assumes "distinct xs"
  shows "sorted_wrt (<) (sort_by (\<lambda>a b. int a - int b) xs)"
proof -
  have "sorted_wrt (\<le>) (sort_by (\<lambda>a b. int a - int b) xs)"
    using index_order.sort_by_sorted [of xs] by (simp add: sorted_wrt_iff_nth_less)
  then show ?thesis using assms strict_sorted_iff [of "sort_by (\<lambda>a b. int a - int b) xs"] by simp
qed

lemma select_indexes_facts:
  assumes "normal points" "limit < length points" "2 \<le> limit"
  defines "idx \<equiv> select_indexes points limit"
  shows "sorted_wrt (<) idx" and "set idx \<subseteq> {..<length points}" and "{0, length points - 1} \<subseteq> set idx"
    and "length idx \<le> point_budget points limit"
    and "length (isolated_indexes points) + 2 \<le> point_budget points limit \<Longrightarrow> set (isolated_indexes points) \<subseteq> set idx"
    and "length (isolated_indexes points) + 4 \<le> point_budget points limit \<Longrightarrow> observedAt points k \<Longrightarrow> spans points idx k"
proof -
  let ?budget = "point_budget points limit" and ?ends = "js_set [0, length points - 1]"
  let ?kept = "keep_isolated ?budget (isolated_indexes points) ?ends"
  have n: "2 \<le> length points" "2 \<le> ?budget" using assms(2,3) point_budget_bounds [OF assms(3), of points] by auto
  have ends: "length ?ends \<le> ?budget" using js_set_ends(2) [of "length points"] n(2) by linarith
  note kept = keep_isolated_facts [OF js_set_ends(3) [of "length points"], where budget = ?budget and isolated = "isolated_indexes points"]
  note ext = add_extremes_facts [OF assms(1) n(1) kept(1) kept(2) [OF ends]]
  have set_idx: "set idx = set (add_extremes points ?budget ?kept)"
    and len_idx: "length idx = length (add_extremes points ?budget ?kept)"
    by (simp_all add: idx_def select_indexes_def Let_def)
  have "interior points \<subseteq> {..<length points}" "set (isolated_indexes points) \<subseteq> {..<length points}" "set ?ends \<subseteq> {..<length points}"
    using n(1) by (auto simp: interior_def isolated_indexes_in observedAt_def js_set_ends)
  then show "set idx \<subseteq> {..<length points}" using ext(3) kept(4) set_idx by blast
  show "sorted_wrt (<) idx" using strictly_sorted [OF ext(1)] by (simp add: idx_def select_indexes_def Let_def)
  show "{0, length points - 1} \<subseteq> set idx" using ext(2) kept(3) set_idx js_set_ends(1) by blast
  show "length idx \<le> ?budget" using ext(4) len_idx by simp
  show "set (isolated_indexes points) \<subseteq> set idx" if "length (isolated_indexes points) + 2 \<le> ?budget"
  proof -
    have "length ?ends + length (isolated_indexes points) \<le> ?budget" using that js_set_ends(2) [of "length points"] by linarith
    then show ?thesis using kept(5) ext(2) set_idx by blast
  qed
  show "spans points idx k" if "length (isolated_indexes points) + 4 \<le> ?budget" "observedAt points k"
  proof (cases "k \<in> interior points")
    case True
    have "length ?ends + length (isolated_indexes points) \<le> ?budget" "length ?ends + length (isolated_indexes points) + 2 \<le> ?budget"
      using that js_set_ends(2) [of "length points"] by linarith+
    then have "length ?kept + 2 \<le> ?budget" using kept(5) by linarith
    then show ?thesis using ext(5) [OF _ True] set_idx spans_mono by blast
  next
    case False
    then have "k \<in> {0, length points - 1}" using that(2) by (auto simp: interior_def observedAt_def)
    then have "k \<in> set idx" using \<open>{0, length points - 1} \<subseteq> set idx\<close> by blast
    then show ?thesis using that(2) unfolding spans_def by blast
  qed
qed

section \<open>Joining the indexes\<close>

fun bridge :: "Point list \<Rightarrow> nat \<Rightarrow> nat list \<Rightarrow> nat list" where
  "bridge points previous [] = []"
| "bridge points previous (current # rest) =
     (if point_value points previous \<noteq> None \<and> point_value points current \<noteq> None
      then (case first_missing points previous current of Some i \<Rightarrow> [i] | None \<Rightarrow> []) else []) @
     current # bridge points current rest"

lemma join_indexes_bridge:
  "length result + 2 * length rest \<le> limit \<Longrightarrow>
     join_indexes points limit previous rest result = result @ bridge points previous rest"
proof (induction rest arbitrary: previous result)
  case (Cons c rest)
  let ?mid = "if point_value points previous \<noteq> None \<and> point_value points c \<noteq> None
      then (case first_missing points previous c of Some i \<Rightarrow> [i] | None \<Rightarrow> []) else []"
  have "length ?mid \<le> 1" by (simp split: option.splits)
  then have fits: "length (result @ ?mid) < limit" "length (result @ ?mid @ [c]) + 2 * length rest \<le> limit"
    using Cons.prems by simp_all
  have "join_indexes points limit previous (c # rest) result = join_indexes points limit c rest (result @ ?mid @ [c])"
    using fits(1) by (auto simp: Let_def split: option.splits if_splits)
  then show ?case using Cons.IH [OF fits(2), of c] by simp
qed simp

lemma first_missing_Some:
  assumes "first_missing points i j = Some k"
  shows "i < k" "k < j" "point_value points k = None"
  using find_Some_in [OF assms [unfolded first_missing_def]] by auto

lemma first_missing_None: "first_missing points i j = None \<Longrightarrow> i < k \<Longrightarrow> k < j \<Longrightarrow> point_value points k \<noteq> None"
  by (auto simp: first_missing_def find_None_iff)

lemma join_indexes_whole:
  assumes "\<And>i. i < length points \<Longrightarrow> point_value points i \<noteq> None"
  shows "sorted_wrt (<) (previous # rest) \<Longrightarrow> set rest \<subseteq> {..<length points} \<Longrightarrow> length result + length rest \<le> limit \<Longrightarrow>
    join_indexes points limit previous rest result = result @ bridge points previous rest \<and> bridge points previous rest = rest"
proof (induction rest arbitrary: previous result)
  case (Cons c rest)
  have none: "first_missing points previous c = None"
  proof (rule ccontr)
    assume "first_missing points previous c \<noteq> None"
    then obtain k where "first_missing points previous c = Some k" by blast
    from first_missing_Some [OF this] show False using Cons.prems(2) assms [of k] by simp
  qed
  have step: "length (result @ [c]) + length rest \<le> limit" using Cons.prems(3) by simp
  then have "join_indexes points limit previous (c # rest) result = join_indexes points limit c rest (result @ [c])"
    using none by (simp add: Let_def)
  then show ?case using Cons.IH [OF _ _ step, of c] Cons.prems(1,2) none by simp
qed simp

text \<open>Two observed points that follow one another in the result have no missing one between them.\<close>

definition unbroken :: "Point list \<Rightarrow> nat \<Rightarrow> nat \<Rightarrow> bool" where
  "unbroken points i j \<longleftrightarrow>
     (point_value points i \<noteq> None \<and> point_value points j \<noteq> None \<longrightarrow> (\<forall>k. i < k \<and> k < j \<longrightarrow> point_value points k \<noteq> None))"

lemma bridge_facts:
  "sorted_wrt (<) (i # js) \<Longrightarrow>
     sorted_wrt (<) (i # bridge points i js) \<and> successively (unbroken points) (i # bridge points i js) \<and>
     set js \<subseteq> set (bridge points i js) \<and> last (i # bridge points i js) = last (i # js)"
proof (induction js arbitrary: i)
  case (Cons j js)
  have IH: "sorted_wrt (<) (j # bridge points j js)" "successively (unbroken points) (j # bridge points j js)"
    "set js \<subseteq> set (bridge points j js)" "last (j # bridge points j js) = last (j # js)" using Cons by auto
  show ?case
  proof (cases "point_value points i \<noteq> None \<and> point_value points j \<noteq> None \<and> first_missing points i j \<noteq> None")
    case True
    then obtain k where k: "first_missing points i j = Some k" by blast
    note m = first_missing_Some [OF k]
    have "bridge points i (j # js) = k # j # bridge points j js" using True k by simp
    moreover have "unbroken points i k" "unbroken points k j" using m(3) by (auto simp: unbroken_def)
    moreover have "sorted_wrt (<) (i # k # j # bridge points j js)" using IH(1) m(1,2) by auto
    ultimately show ?thesis using IH by (auto simp: successively_Cons)
  next
    case False
    have "bridge points i (j # js) = j # bridge points j js" using False by (auto split: option.splits)
    moreover have "unbroken points i j" using False first_missing_None [of points i j] by (auto simp: unbroken_def)
    moreover have "i < j" using Cons.prems by simp
    moreover have "sorted_wrt (<) (i # j # bridge points j js)" using IH(1) \<open>i < j\<close> by auto
    ultimately show ?thesis using IH by (auto simp: successively_Cons)
  qed
qed simp

lemma length_bridge: "length (bridge points i js) \<le> 2 * length js"
proof (induction js arbitrary: i)
  case (Cons j js)
  show ?case using Cons [of j] by (auto split: option.splits)
qed simp

lemma sorted_le_last: "sorted_wrt (<) xs \<Longrightarrow> x \<in> set xs \<Longrightarrow> x \<le> last xs" for xs :: "nat list"
  by (cases xs rule: rev_cases) (auto simp: sorted_wrt_append)

lemma bridge_range: "sorted_wrt (<) (i # js) \<Longrightarrow> set (i # js) \<subseteq> {..<n} \<Longrightarrow> set (bridge points i js) \<subseteq> {..<n}"
proof -
  assume sorted: "sorted_wrt (<) (i # js)" and range: "set (i # js) \<subseteq> {..<n}"
  have b: "sorted_wrt (<) (i # bridge points i js)" "last (i # bridge points i js) = last (i # js)"
    using bridge_facts [OF sorted] by auto
  have "x \<le> last (i # bridge points i js)" if "x \<in> set (bridge points i js)" for x
    using sorted_le_last [OF b(1)] that by simp
  moreover have "last (i # js) < n" using range last_in_set [of "i # js"] by blast
  ultimately show ?thesis using b(2) by fastforce
qed

definition has_missing :: "Point list \<Rightarrow> bool" where
  "has_missing points \<longleftrightarrow> (\<exists>p \<in> set points. pt_value p = None)"

lemma no_missing: "\<not> has_missing points \<Longrightarrow> i < length points \<Longrightarrow> point_value points i \<noteq> None"
  by (auto simp: has_missing_def point_value_def)

text \<open>The last loop never drops a selected index once three points may be shown.\<close>

lemma joined_indexes:
  assumes idx: "sorted_wrt (<) (i # js)" "set (i # js) \<subseteq> {..<length points}" "length (i # js) \<le> point_budget points limit"
    and limit: "3 \<le> limit \<or> \<not> has_missing points"
  shows "join_indexes points limit i js [i] = i # bridge points i js \<and> length (i # bridge points i js) \<le> limit"
proof (cases "has_missing points")
  case True
  then have "point_budget points limit = max 2 ((limit + 1) div 2)" by (simp add: point_budget_def has_missing_def)
  then have len: "1 + 2 * length js \<le> limit" using idx(3) limit True by auto
  then show ?thesis using join_indexes_bridge [of "[i]" js limit points i] length_bridge [of points i js] by simp
next
  case False
  then have "point_budget points limit = limit" by (auto simp: point_budget_def has_missing_def)
  then have len: "length [i] + length js \<le> limit" using idx(3) by simp
  have "set js \<subseteq> {..<length points}" using idx(2) by auto
  from join_indexes_whole [OF no_missing [OF False] idx(1) this len] show ?thesis using len by simp
qed

lemma two_indexes:
  fixes idx :: "nat list"
  assumes "sorted_wrt (<) idx" "{0, m} \<subseteq> set idx" "length idx \<le> 2" "0 < m"
  shows "idx = [0, m]"
proof -
  have "card {0, m} \<le> card (set idx)" using assms(2) by (intro card_mono) auto
  then have "length idx = 2" using assms(3,4) card_length [of idx] by simp
  then obtain a b where ab: "idx = [a, b]" by (auto simp: length_Suc_conv numeral_2_eq_2)
  then show ?thesis using assms(1,2,4) by auto
qed

lemma successively_upt: "(\<And>i. P i (Suc i)) \<Longrightarrow> successively P [m..<n]"
proof (induction n)
  case (Suc n)
  show ?case
  proof (cases "m < n")
    case True
    then have "last [m..<n] = n - 1" "0 < n" by auto
    then show ?thesis using Suc.IH [OF Suc.prems] Suc.prems [of "n - 1"] True by (auto simp: successively_append_iff)
  qed auto
qed simp

lemma downsample_indexes:
  assumes "normal points" "2 \<le> limit"
  obtains kept where "downsample_normalized points limit = map ((!) points) kept" "sorted_wrt (<) kept"
    "set kept \<subseteq> {..<length points}" "length kept \<le> limit" "successively (unbroken points) kept"
    "points \<noteq> [] \<Longrightarrow> 3 \<le> limit \<or> \<not> has_missing points \<Longrightarrow> hd kept = 0 \<and> last kept = length points - 1"
    "limit < length points \<Longrightarrow> 3 \<le> limit \<Longrightarrow> set (select_indexes points limit) \<subseteq> set kept"
    "length points \<le> limit \<Longrightarrow> kept = [0..<length points]" "points \<noteq> [] \<Longrightarrow> kept \<noteq> []"
proof (cases "length points \<le> limit")
  case True
  have "successively (unbroken points) [0..<length points]" by (rule successively_upt) (auto simp: unbroken_def)
  moreover have "hd [0..<length points] = 0 \<and> last [0..<length points] = length points - 1" if "points \<noteq> []"
    using that by simp
  ultimately show ?thesis using True
    by (intro that [of "[0..<length points]"]) (auto simp: downsample_normalized_def map_nth)
next
  case False
  then have big: "limit < length points" by simp
  note idx = select_indexes_facts [OF assms(1) big assms(2)]
  obtain i js where ij: "select_indexes points limit = i # js" using idx(3) by (cases "select_indexes points limit") auto
  have i: "i = 0" using idx(1,3) ij by (cases "i = 0") auto
  have "length points - 1 \<in> set (i # js)" using idx(3) ij by auto
  moreover have "x \<le> last (i # js)" if "x \<in> set (i # js)" for x
    using sorted_le_last [of "i # js" x] idx(1) ij that by simp
  moreover have "last (i # js) < length points" using idx(2) ij last_in_set [of "i # js"] by auto
  ultimately have last: "last (i # js) = length points - 1" by fastforce
  show ?thesis
  proof (cases "3 \<le> limit \<or> \<not> has_missing points")
    case True
    have join: "join_indexes points limit i js [i] = i # bridge points i js \<and> length (i # bridge points i js) \<le> limit"
      using joined_indexes [of i js points limit] idx(1,2,4) ij True by simp
    have b: "sorted_wrt (<) (i # bridge points i js)" "successively (unbroken points) (i # bridge points i js)"
      "set js \<subseteq> set (bridge points i js)" "last (i # bridge points i js) = last (i # js)"
      using bridge_facts [of i js points] idx(1) ij by auto
    have range: "set (i # bridge points i js) \<subseteq> {..<length points}"
      using bridge_range [of i js "length points" points] idx(1,2) ij by auto
    show ?thesis
      using big join b range i last ij by (intro that [of "i # bridge points i js"]) (auto simp: downsample_normalized_def)
  next
    case few: False
    then have "limit = 2" "has_missing points" using assms(2) by auto
    then have "point_budget points limit = 2" by (auto simp: point_budget_def has_missing_def)
    then have two: "select_indexes points limit = [0, length points - 1]"
      using two_indexes [OF idx(1,3)] idx(4) big \<open>limit = 2\<close> by simp
    let ?kept = "join_indexes points 2 0 [length points - 1] [0]"
    have kept: "?kept = [0, length points - 1] \<and> unbroken points 0 (length points - 1) \<or>
        (\<exists>k. ?kept = [0, k] \<and> 0 < k \<and> k < length points - 1 \<and> point_value points k = None)"
    proof (cases "first_missing points 0 (length points - 1)")
      case None
      then show ?thesis using first_missing_None [OF None] by (auto simp: Let_def unbroken_def)
    next
      case (Some k)
      then show ?thesis using first_missing_Some [OF Some] by (auto simp: Let_def unbroken_def)
    qed
    have eq: "downsample_normalized points limit = map ((!) points) ?kept"
      using big two \<open>limit = 2\<close> by (simp add: downsample_normalized_def)
    show ?thesis
    proof (rule that [OF eq])
      show "sorted_wrt (<) ?kept" "set ?kept \<subseteq> {..<length points}" "length ?kept \<le> limit" "successively (unbroken points) ?kept"
        using kept big \<open>limit = 2\<close> by (auto simp: unbroken_def)
    qed (use few big kept in auto)
  qed
qed

section \<open>Drawn segments\<close>

text \<open>A line joins two points that follow one another and are both observed.\<close>

fun segments :: "Point list \<Rightarrow> (js_number \<times> js_number) list" where
  "segments (p # q # ps) =
     (if observed p \<and> observed q then [(pt_timestamp p, pt_timestamp q)] else []) @ segments (q # ps)"
| "segments _ = []"

definition drawn :: "time_step list \<Rightarrow> (js_number \<times> js_number) list" where
  "drawn steps = map (\<lambda>s. (ts_from s, ts_to s)) (filter (\<lambda>s. \<not> ts_gap s) steps)"

lemma segments_unobserved: "\<not> observed e \<Longrightarrow> segments (e # ps) = segments ps"
  by (cases ps) auto

lemma segments_breaks:
  shows "segments (breaks_from cadence None False ps) = drawn (steps_from cadence None False ps)"
    and "observed q \<Longrightarrow> segments (q # breaks_from cadence (Some q) False ps) = drawn (steps_from cadence (Some q) False ps)"
    and "segments (breaks_from cadence previous True ps) = drawn (steps_from cadence previous True ps)"
proof (induction ps arbitrary: q previous)
  case (Cons p ps)
  have mid: "\<not> observed \<lparr>pt_timestamp = t, pt_value = None\<rparr>" for t by (simp add: observed_def finite_value_def)
  {
    case 1
    show ?case using Cons.IH by (auto simp: segments_unobserved drawn_def)
  next
    case 2
    then show ?case using Cons.IH by (auto simp: segments_unobserved mid drawn_def)
  next
    case 3
    show ?case using Cons.IH by (auto simp: segments_unobserved drawn_def split: option.splits)
  }
qed (simp_all add: drawn_def)

lemma observed_breaks:
  "filter observed (breaks_from cadence previous missing ps) = filter observed ps"
proof (induction ps arbitrary: previous missing)
  case (Cons p ps)
  have mid: "\<not> observed \<lparr>pt_timestamp = t, pt_value = None\<rparr>" for t by (simp add: observed_def finite_value_def)
  show ?case using Cons by (auto simp: mid split: option.splits)
qed simp

section \<open>Coverage\<close>

lemma steps_ends:
  "map (\<lambda>s. (ts_from s, ts_to s)) (steps_from cadence (Some q) missing ps) =
     zip (pt_timestamp q # map pt_timestamp (filter observed ps)) (map pt_timestamp (filter observed ps))"
  "map (\<lambda>s. (ts_from s, ts_to s)) (steps_from cadence None missing ps) =
     zip (map pt_timestamp (filter observed ps)) (tl (map pt_timestamp (filter observed ps)))"
proof -
  have *: "map (\<lambda>s. (ts_from s, ts_to s)) (steps_from cadence (Some q) missing ps) =
     zip (pt_timestamp q # map pt_timestamp (filter observed ps)) (map pt_timestamp (filter observed ps))" for q missing ps
    by (induction ps arbitrary: q missing) auto
  show "map (\<lambda>s. (ts_from s, ts_to s)) (steps_from cadence (Some q) missing ps) =
     zip (pt_timestamp q # map pt_timestamp (filter observed ps)) (map pt_timestamp (filter observed ps))" by (rule *)
  show "map (\<lambda>s. (ts_from s, ts_to s)) (steps_from cadence None missing ps) =
     zip (map pt_timestamp (filter observed ps)) (tl (map pt_timestamp (filter observed ps)))"
    by (induction ps arbitrary: missing) (auto simp: *)
qed

definition in_closed :: "TimeInterval \<Rightarrow> rat \<Rightarrow> bool" where
  "in_closed i t \<longleftrightarrow> js_ge (Fin t) (iv_from i) \<and> js_ge (iv_to i) (Fin t)"

definition in_open :: "TimeInterval \<Rightarrow> rat \<Rightarrow> bool" where
  "in_open i t \<longleftrightarrow> js_less (iv_from i) (Fin t) \<and> js_less (Fin t) (iv_to i)"

lemma time_order_sorted:
  "sorted (map (finite_part \<circ> pt_timestamp) (inTimeOrder points))"
  "p \<in> set (inTimeOrder points) \<longleftrightarrow> p \<in> set points \<and> validTimestamp (pt_timestamp p)"
proof -
  have cmp: "time_order = (\<lambda>a b. num_order (pt_timestamp a) (pt_timestamp b))" by (simp add: time_order_def fun_eq_iff)
  show "sorted (map (finite_part \<circ> pt_timestamp) (inTimeOrder points))"
    unfolding inTimeOrder_def cmp by (rule sort_by_finite) (simp add: validTimestamp_finite)
qed (auto simp: inTimeOrder_def)

lemma coverage_in:
  "i \<in> set (seriesCoverage points cadence) \<longleftrightarrow>
     (\<exists>s \<in> set (observedSteps points cadence). \<not> ts_gap s \<and> i = step_interval s) \<or>
     (\<exists>k < length (filter observed (inTimeOrder points)).
        \<not> (0 < k \<and> \<not> ts_gap (observedSteps points cadence ! (k - 1)) \<or>
           k < length (observedSteps points cadence) \<and> \<not> ts_gap (observedSteps points cadence ! k)) \<and>
        i = \<lparr>iv_from = pt_timestamp (filter observed (inTimeOrder points) ! k), iv_to = pt_timestamp (filter observed (inTimeOrder points) ! k)\<rparr>)"
  by (auto simp: seriesCoverage_def Let_def)

text \<open>Every observed sample is covered.\<close>

lemma sample_covered:
  assumes "p \<in> set points" "observed p" "validTimestamp (pt_timestamp p)" "pt_timestamp p = Fin t"
  shows "\<exists>i \<in> set (seriesCoverage points cadence). in_closed i t"
proof -
  let ?samples = "filter observed (inTimeOrder points)" and ?steps = "observedSteps points cadence"
  have "p \<in> set ?samples" using assms(1-3) by (simp add: time_order_sorted)
  then obtain k where k: "k < length ?samples" "?samples ! k = p" by (meson in_set_conv_nth)
  have ends: "map (\<lambda>s. (ts_from s, ts_to s)) ?steps = zip (map pt_timestamp ?samples) (tl (map pt_timestamp ?samples))"
    by (simp add: observedSteps_def steps_ends)
  have len: "length ?steps = length ?samples - 1" using arg_cong [OF ends, of length] by simp
  have nth: "(ts_from (?steps ! j), ts_to (?steps ! j)) = (pt_timestamp (?samples ! j), pt_timestamp (?samples ! Suc j))"
    if "j < length ?steps" for j
  proof -
    have "(ts_from (?steps ! j), ts_to (?steps ! j)) = map (\<lambda>s. (ts_from s, ts_to s)) ?steps ! j" using that by simp
    also have "\<dots> = (pt_timestamp (?samples ! j), pt_timestamp (?samples ! Suc j))"
      unfolding ends using that len by (simp add: nth_tl)
    finally show ?thesis .
  qed
  have sorted: "sorted (map (finite_part \<circ> pt_timestamp) ?samples)"
    using time_order_sorted(1) sorted_filter by (metis filter_True)
  have fin: "js_is_finite (pt_timestamp (?samples ! j))" if "j < length ?samples" for j
    using nth_mem [OF that] by (auto simp: time_order_sorted validTimestamp_finite)
  have le: "js_ge (pt_timestamp (?samples ! j')) (pt_timestamp (?samples ! j))" if "j \<le> j'" "j' < length ?samples" for j j'
  proof -
    have "finite_part (pt_timestamp (?samples ! j)) \<le> finite_part (pt_timestamp (?samples ! j'))"
      using sorted_nth_mono [OF sorted that(1)] that by simp
    then show ?thesis using fin [of j] fin [of j'] that
      by (cases "pt_timestamp (?samples ! j)"; cases "pt_timestamp (?samples ! j')") (auto simp: js_ge_def)
  qed
  consider (left) "0 < k" "\<not> ts_gap (?steps ! (k - 1))" | (right) "k < length ?steps" "\<not> ts_gap (?steps ! k)"
    | (alone) "\<not> (0 < k \<and> \<not> ts_gap (?steps ! (k - 1)) \<or> k < length ?steps \<and> \<not> ts_gap (?steps ! k))" by blast
  then show ?thesis
  proof cases
    case left
    then have j: "k - 1 < length ?steps" using k(1) len by simp
    then have "step_interval (?steps ! (k - 1)) \<in> set (seriesCoverage points cadence)"
      using left(2) nth_mem [OF j] unfolding coverage_in by blast
    moreover have "in_closed (step_interval (?steps ! (k - 1))) t"
      using nth [OF j] left(1) k le [of "k - 1" k] assms(4) by (simp add: in_closed_def step_interval_def js_ge_def)
    ultimately show ?thesis by blast
  next
    case right
    then have "step_interval (?steps ! k) \<in> set (seriesCoverage points cadence)"
      using nth_mem [OF right(1)] unfolding coverage_in by blast
    moreover have "in_closed (step_interval (?steps ! k)) t"
      using nth [OF right(1)] k le [of k "Suc k"] right(1) len assms(4) by (simp add: in_closed_def step_interval_def js_ge_def)
    ultimately show ?thesis by blast
  next
    case alone
    then have "\<lparr>iv_from = pt_timestamp p, iv_to = pt_timestamp p\<rparr> \<in> set (seriesCoverage points cadence)"
      using k unfolding coverage_in by blast
    moreover have "in_closed \<lparr>iv_from = pt_timestamp p, iv_to = pt_timestamp p\<rparr> t" using assms(4) by (simp add: in_closed_def js_ge_def)
    ultimately show ?thesis by blast
  qed
qed

section \<open>Holes\<close>

lemma holes_from_exact:
  assumes "sorted (map (finite_part \<circ> iv_from) is)" "c \<le> e"
    and "\<And>i. i \<in> set is \<Longrightarrow> \<exists>f u. i = \<lparr>iv_from = Fin f, iv_to = Fin u\<rparr> \<and> f \<le> u \<and> u \<le> e"
  shows "(\<exists>h \<in> set (holes_from (Fin e) (Fin c) is). in_open h t) \<longleftrightarrow> c < t \<and> t < e \<and> (\<forall>i \<in> set is. \<not> in_closed i t)"
  using assms
proof (induction "is" arbitrary: c)
  case (Cons i "is")
  obtain f u where i: "i = \<lparr>iv_from = Fin f, iv_to = Fin u\<rparr>" "f \<le> u" "u \<le> e" using Cons.prems(3) [of i] by auto
  have IH: "(\<exists>h \<in> set (holes_from (Fin e) (Fin (max c u)) is). in_open h t) \<longleftrightarrow>
      max c u < t \<and> t < e \<and> (\<forall>i \<in> set is. \<not> in_closed i t)"
    using Cons.prems i by (intro Cons.IH) auto
  have later: "\<not> in_closed j t" if before: "t < f" and j_in: "j \<in> set is" for j
  proof -
    obtain f' u' where j: "j = \<lparr>iv_from = Fin f', iv_to = Fin u'\<rparr>" using Cons.prems(3) [of j] j_in by auto
    moreover have "f \<le> f'" using Cons.prems(1) j_in i j by auto
    ultimately show ?thesis using before by (simp add: in_closed_def js_ge_def)
  qed
  have mx: "js_max (Fin c) (Fin u) = Fin (max c u)" by (simp add: js_max_def max_def)
  have inner: "in_closed i t \<longleftrightarrow> f \<le> t \<and> t \<le> u" using i by (auto simp: in_closed_def js_ge_def)
  have "(\<exists>h \<in> set (holes_from (Fin e) (Fin c) (i # is)). in_open h t) \<longleftrightarrow>
      c < t \<and> t < f \<or> (\<exists>h \<in> set (holes_from (Fin e) (Fin (max c u)) is). in_open h t)"
    unfolding i(1) by (auto simp: mx in_open_def)
  also have "\<dots> \<longleftrightarrow> c < t \<and> t < e \<and> (\<forall>j \<in> set (i # is). \<not> in_closed j t)"
    unfolding IH using later i(2,3) inner by auto
  finally show ?case .
qed (auto simp: in_open_def)

text \<open>Clamping to a finite domain makes every interval that is kept finite.\<close>

lemma clamped:
  assumes "js_ge (js_min (Fin e) (iv_to i)) (js_max (Fin s) (iv_from i))" "s \<le> e"
  shows "\<exists>f u. js_max (Fin s) (iv_from i) = Fin f \<and> js_min (Fin e) (iv_to i) = Fin u \<and> f \<le> u \<and> u \<le> e"
  using assms by (cases "iv_from i"; cases "iv_to i") (auto simp: js_max_def js_min_def js_ge_def split: if_splits)

lemma in_closed_clamped:
  assumes "s < t" "t < e"
  shows "in_closed i t \<longleftrightarrow> in_closed \<lparr>iv_from = js_max (Fin s) (iv_from i), iv_to = js_min (Fin e) (iv_to i)\<rparr> t \<and>
    js_ge (js_min (Fin e) (iv_to i)) (js_max (Fin s) (iv_from i))"
  using assms by (cases "iv_from i"; cases "iv_to i") (auto simp: in_closed_def js_max_def js_min_def js_ge_def split: if_splits)

lemma holes_exact_finite:
  assumes "s < e"
  shows "(\<exists>h \<in> set (uncoveredIntervals coverages (Fin s) (Fin e)). in_open h t) \<longleftrightarrow>
    s < t \<and> t < e \<and> \<not> (\<exists>c \<in> set coverages. \<exists>i \<in> set c. in_closed i t)"
proof -
  let ?clamp = "\<lambda>i :: TimeInterval. \<lparr>iv_from = js_max (Fin s) (iv_from i), iv_to = js_min (Fin e) (iv_to i)\<rparr>"
  let ?kept = "filter (\<lambda>i. js_ge (iv_to i) (iv_from i)) (map ?clamp (concat coverages))"
  let ?is = "sort_by (\<lambda>a b. num_order (iv_from a) (iv_from b)) ?kept"
  have fin: "\<exists>f u. i = \<lparr>iv_from = Fin f, iv_to = Fin u\<rparr> \<and> f \<le> u \<and> u \<le> e" if kept: "i \<in> set ?kept" for i
  proof -
    have i: "i \<in> ?clamp ` set (concat coverages)" "js_ge (iv_to i) (iv_from i)" using kept by auto
    from i(1) obtain j where j: "i = ?clamp j" by (rule imageE)
    then have "js_ge (js_min (Fin e) (iv_to j)) (js_max (Fin s) (iv_from j))" using i(2) by simp
    then show ?thesis using clamped [of e j s] assms j by auto
  qed
  have "sorted (map (finite_part \<circ> iv_from) ?is)" using fin by (intro sort_by_finite) fastforce
  then have "(\<exists>h \<in> set (holes_from (Fin e) (Fin s) ?is). in_open h t) \<longleftrightarrow> s < t \<and> t < e \<and> (\<forall>i \<in> set ?is. \<not> in_closed i t)"
    using assms fin by (intro holes_from_exact) auto
  moreover have "(\<forall>i \<in> set ?is. \<not> in_closed i t) \<longleftrightarrow> \<not> (\<exists>c \<in> set coverages. \<exists>i \<in> set c. in_closed i t)" if inside: "s < t" "t < e"
  proof -
    have "(\<exists>i \<in> set ?is. in_closed i t) \<longleftrightarrow>
        (\<exists>j \<in> set (concat coverages). in_closed (?clamp j) t \<and> js_ge (js_min (Fin e) (iv_to j)) (js_max (Fin s) (iv_from j)))" by auto
    also have "\<dots> \<longleftrightarrow> (\<exists>j \<in> set (concat coverages). in_closed j t)"
      by (simp only: in_closed_clamped [OF inside, symmetric])
    also have "\<dots> \<longleftrightarrow> (\<exists>c \<in> set coverages. \<exists>i \<in> set c. in_closed i t)" by auto
    finally show ?thesis by blast
  qed
  moreover have "uncoveredIntervals coverages (Fin s) (Fin e) = holes_from (Fin e) (Fin s) ?is"
    using assms by (simp add: uncoveredIntervals_def Let_def)
  ultimately show ?thesis by auto
qed

section \<open>Bounded history\<close>

text \<open>A list without the elements at its end that satisfy \<open>P\<close>.\<close>

lemma trailing_trimmed:
  fixes xs :: "'a list" and P :: "'a \<Rightarrow> bool"
  defines "k \<equiv> length (dropWhile P (rev xs))"
  shows "rev (dropWhile P (rev xs)) = take k xs" and "k \<le> length xs"
    and "k \<le> j \<Longrightarrow> j < length xs \<Longrightarrow> P (xs ! j)" and "0 < k \<Longrightarrow> \<not> P (xs ! (k - 1))"
proof -
  show upto: "rev (dropWhile P (rev xs)) = take k xs" unfolding k_def by (simp add: dropWhile_eq_drop rev_drop)
  show le: "k \<le> length xs" unfolding k_def by (metis length_dropWhile_le length_rev)
  have split: "length (takeWhile P (rev xs)) + k = length xs" unfolding k_def by (metis length_append length_rev takeWhile_dropWhile_id)
  show "P (xs ! j)" if "k \<le> j" "j < length xs"
  proof -
    have i: "length xs - 1 - j < length (takeWhile P (rev xs))" using split that by linarith
    then have "P (rev xs ! (length xs - 1 - j))" using takeWhile_nth [OF i] set_takeWhileD [OF nth_mem [OF i]] by simp
    then show ?thesis using that(2) by (simp add: rev_nth)
  qed
  show "\<not> P (xs ! (k - 1))" if "0 < k"
  proof -
    have ne: "dropWhile P (rev xs) \<noteq> []" using that k_def by auto
    then have "hd (dropWhile P (rev xs)) = last (take k xs)" using upto by (metis hd_rev rev_rev_ident)
    also have "\<dots> = xs ! (k - 1)" using that le by (subst last_conv_nth) auto
    finally show ?thesis using hd_dropWhile [OF ne] by simp
  qed
qed

lemma normalize_again:
  "normalize_points (take k (normalize_points input)) = take k (normalize_points input)"
proof -
  let ?ys = "take k (normalize_points input)"
  have pts: "p \<in> set ?ys \<Longrightarrow> validTimestamp (pt_timestamp p) \<and> (observed p \<or> pt_value p = None)" for p
    by (drule in_set_takeD) (auto simp: normalize_points_def observed_def split: if_splits)
  then have "filter (\<lambda>p. validTimestamp (pt_timestamp p)) ?ys = ?ys" by (intro filter_True) auto
  moreover have "map (\<lambda>p. p\<lparr>pt_value := (if observed p then pt_value p else None)\<rparr>) ?ys = ?ys"
  proof (rule map_idI)
    fix p assume "p \<in> set ?ys"
    from pts [OF this] show "p\<lparr>pt_value := (if observed p then pt_value p else None)\<rparr> = p" by (cases p) auto
  qed
  moreover have "sort_by time_order ?ys = ?ys"
  proof -
    let ?time = "finite_part \<circ> pt_timestamp"
    have cmp: "time_order = (\<lambda>a b. num_order (pt_timestamp a) (pt_timestamp b))" by (simp add: time_order_def fun_eq_iff)
    have "sorted (map ?time (normalize_points input))"
      unfolding normalize_points_def cmp by (rule sort_by_finite) (auto simp: validTimestamp_finite)
    then have "sorted (map ?time ?ys)" by (metis take_map sorted_wrt_take)
    then have "sort_by (\<lambda>a b. cmp_ord (?time a) (?time b)) ?ys = ?ys"
      by (intro ord_cmp.sort_by_id) (simp add: cmp_ord_le sorted_map)
    moreover have "sort_by time_order ?ys = sort_by (\<lambda>a b. cmp_ord (?time a) (?time b)) ?ys"
      using pts unfolding cmp by (intro sort_by_cong) (simp add: num_order_finite validTimestamp_finite)
    ultimately show ?thesis by simp
  qed
  ultimately show ?thesis unfolding normalize_points_def [of ?ys] by (simp only:)
qed

lemma downsample_take:
  assumes "3 \<le> point_limit m" "0 < k" "k \<le> length (normalize_points input)"
  shows "length (downsamplePoints (take k (normalize_points input)) m) \<le> point_limit m \<and>
    downsamplePoints (take k (normalize_points input)) m \<noteq> [] \<and>
    last (downsamplePoints (take k (normalize_points input)) m) = normalize_points input ! (k - 1)"
proof -
  let ?ys = "take k (normalize_points input)"
  have ys: "normalize_points ?ys = ?ys" by (rule normalize_again)
  have ne: "normalize_points ?ys \<noteq> []" unfolding ys using assms(2,3) by auto
  have two: "2 \<le> point_limit m" using assms(1) by simp
  obtain kept where kept: "downsample_normalized ?ys (point_limit m) = map ((!) ?ys) kept"
    "length kept \<le> point_limit m" "set kept \<subseteq> {..<length ?ys}" "last kept = length ?ys - 1" "kept \<noteq> []"
    by (rule downsample_indexes [OF normal_normalize [of ?ys] two, unfolded ys]) (use ne assms(1) ys in auto)
  then show ?thesis using assms(2,3) by (simp add: downsamplePoints_def ys last_map)
qed

section \<open>Properties\<close>

text \<open>
  C24: Downsampling shows a selection of the normalized points in their order and at most as many as asked
  for; two observed points that it puts next to one another have no missing one between them, so a
  missing scrape is never drawn as a line. From three points on, or when nothing is missing, the first and
  the last point are kept. (With room for two points a gap takes the place of the last one.)
\<close>

theorem downsample_honest:
  "\<exists>kept. downsamplePoints input maximum = map ((!) (normalize_points input)) kept \<and>
     sorted_wrt (<) kept \<and> set kept \<subseteq> {..<length (normalize_points input)} \<and>
     length kept \<le> point_limit maximum \<and> successively (unbroken (normalize_points input)) kept \<and>
     (normalize_points input \<noteq> [] \<and> (3 \<le> point_limit maximum \<or> \<not> has_missing (normalize_points input)) \<longrightarrow>
        hd kept = 0 \<and> last kept = length (normalize_points input) - 1)"
proof -
  have "2 \<le> point_limit maximum" by (auto simp: point_limit_def MAX_POINTS_def split: js_number.splits)
  then show ?thesis unfolding downsamplePoints_def
    by (rule downsample_indexes [OF normal_normalize]) blast
qed

definition sample_point :: "int \<Rightarrow> int option \<Rightarrow> Point" where
  "sample_point t v = \<lparr>pt_timestamp = Fin (of_int t), pt_value = map_option (\<lambda>x. Fin (of_int x)) v\<rparr>"

definition sample_points :: "Point list" where
  "sample_points = [sample_point 3 (Some 7), sample_point 1 (Some 5), sample_point 2 None, sample_point 4 (Some 9)]"

theorem downsample_honest_witness:
  "\<exists>kept. downsamplePoints sample_points (Fin 3) = map ((!) (normalize_points sample_points)) kept \<and> length kept \<le> 3 \<and>
     hd kept = 0 \<and> last kept = 3"
proof -
  have "length (normalize_points sample_points) = 4" by code_simp
  then have "length (normalize_points sample_points) - 1 = 3" "normalize_points sample_points \<noteq> []" by auto
  moreover have "point_limit (Fin 3) = 3" by (simp add: point_limit_def)
  ultimately show ?thesis using downsample_honest [of sample_points "Fin 3"] by auto
qed

text \<open>
  When there is room for every isolated observation and one bucket, downsampling keeps every isolated
  observation and, for every observed point, one at most as large and one at least as large: a short
  incident never disappears from the chart.
\<close>

theorem downsample_keeps_incidents:
  assumes "2 * (length (isolated_indexes (normalize_points input)) + 4) \<le> point_limit maximum + 1"
  shows "(\<forall>i \<in> set (isolated_indexes (normalize_points input)). normalize_points input ! i \<in> set (downsamplePoints input maximum)) \<and>
    (\<forall>p v. p \<in> set (normalize_points input) \<and> pt_value p = Some (Fin v) \<longrightarrow>
       (\<exists>q \<in> set (downsamplePoints input maximum). \<exists>r \<in> set (downsamplePoints input maximum).
          \<exists>a b. pt_value q = Some (Fin a) \<and> pt_value r = Some (Fin b) \<and> a \<le> v \<and> v \<le> b))"
proof -
  let ?pts = "normalize_points input" and ?limit = "point_limit maximum"
  have limit: "3 \<le> ?limit" "2 \<le> ?limit" using assms by auto
  have budget: "length (isolated_indexes ?pts) + 4 \<le> point_budget ?pts ?limit"
    using assms by (auto simp: point_budget_def)
  obtain kept where kept: "downsample_normalized ?pts ?limit = map ((!) ?pts) kept" "set kept \<subseteq> {..<length ?pts}"
    "?limit < length ?pts \<Longrightarrow> 3 \<le> ?limit \<Longrightarrow> set (select_indexes ?pts ?limit) \<subseteq> set kept"
    "length ?pts \<le> ?limit \<Longrightarrow> kept = [0..<length ?pts]"
    using downsample_indexes [OF normal_normalize [of input] limit(2)] by metis
  have all: "set (isolated_indexes ?pts) \<subseteq> set kept \<and> (observedAt ?pts k \<longrightarrow> spans ?pts kept k)" for k
  proof (cases "length ?pts \<le> ?limit")
    case True
    then have "kept = [0..<length ?pts]" using kept(4) by simp
    moreover have "spans ?pts [0..<length ?pts] k" if "observedAt ?pts k"
      unfolding spans_def using that by (intro bexI [of _ k]) (auto simp: observedAt_def)
    ultimately show ?thesis by (auto simp: isolated_indexes_def)
  next
    case False
    then have "?limit < length ?pts" by simp
    note idx = select_indexes_facts [OF normal_normalize this limit(2)]
    have sub: "set (select_indexes ?pts ?limit) \<subseteq> set kept" using kept(3) limit(1) False by simp
    have "set (isolated_indexes ?pts) \<subseteq> set kept" using idx(5) budget sub by auto
    moreover have "spans ?pts kept k" if "observedAt ?pts k" using idx(6) [OF budget that] sub by (rule spans_mono)
    ultimately show ?thesis by blast
  qed
  have nth: "?pts ! i \<in> set (downsamplePoints input maximum)" if "i \<in> set kept" for i
    using that kept(1) by (simp add: downsamplePoints_def)
  have fin: "\<exists>a. pt_value (?pts ! i) = Some (Fin a) \<and> value_of ?pts i = a" if obs: "observedAt ?pts i" for i
  proof -
    obtain v where v: "pt_value (?pts ! i) = Some v" "?pts ! i \<in> set ?pts" using obs by (auto simp: observedAt_def point_value_def)
    then have "js_is_finite v" using normal_normalize [of input] unfolding normal_def by blast
    then show ?thesis using v by (cases v) (auto simp: value_of_def point_value_def)
  qed
  show ?thesis
  proof (intro conjI ballI allI impI)
    fix p v assume p: "p \<in> set ?pts \<and> pt_value p = Some (Fin v)"
    then obtain k where k: "k < length ?pts" "?pts ! k = p" by (meson in_set_conv_nth)
    then have obs: "observedAt ?pts k" "value_of ?pts k = v" using p by (auto simp: observedAt_def point_value_def value_of_def)
    then obtain i j where ij: "i \<in> set kept" "j \<in> set kept" "observedAt ?pts i" "observedAt ?pts j"
      "value_of ?pts i \<le> v" "v \<le> value_of ?pts j" using all [of k] by (auto simp: spans_def)
    then show "\<exists>q \<in> set (downsamplePoints input maximum). \<exists>r \<in> set (downsamplePoints input maximum).
        \<exists>a b. pt_value q = Some (Fin a) \<and> pt_value r = Some (Fin b) \<and> a \<le> v \<and> v \<le> b"
      using nth fin [OF ij(3)] fin [OF ij(4)] by blast
  qed (use all nth in blast)
qed

definition sample_run :: "Point list" where
  "sample_run = map (\<lambda>i. sample_point i (Some (i * (13 - i)))) [1, 2, 3, 4, 5, 6, 7, 8, 9, 10, 11, 12]"

theorem downsample_keeps_incidents_witness:
  "\<exists>r \<in> set (downsamplePoints sample_run (Fin 7)). \<exists>b. pt_value r = Some (Fin b) \<and> 42 \<le> b"
proof -
  have "2 * (length (isolated_indexes (normalize_points sample_run)) + 4) \<le> point_limit (Fin 7) + 1" by code_simp
  moreover have "sample_point 6 (Some 42) \<in> set (normalize_points sample_run)" by code_simp
  moreover have "pt_value (sample_point 6 (Some 42)) = Some (Fin 42)" by (simp add: sample_point_def)
  ultimately show ?thesis using downsample_keeps_incidents [of sample_run "Fin 7"] by blast
qed

text \<open>
  C25: The line of a series is drawn over exactly the steps between observed samples that are not gaps: a
  break stands in every gap and nowhere else, and no sample is lost.
\<close>

theorem line_breaks_at_gaps:
  "segments (withGapBreaks points cadence) = drawn (observedSteps points cadence) \<and>
   filter observed (withGapBreaks points cadence) = filter observed (inTimeOrder points) \<and>
   mset (map (\<lambda>i. (iv_from i, iv_to i)) (seriesGaps points cadence)) + mset (segments (withGapBreaks points cadence)) =
     mset (zip (map pt_timestamp (filter observed (inTimeOrder points))) (tl (map pt_timestamp (filter observed (inTimeOrder points)))))"
proof -
  let ?steps = "observedSteps points cadence"
  have seg: "segments (withGapBreaks points cadence) = drawn ?steps"
    by (simp add: withGapBreaks_def observedSteps_def segments_breaks)
  have "mset (map f (filter P xs)) + mset (map f (filter (\<lambda>x. \<not> P x) xs)) = mset (map f xs)" for f :: "time_step \<Rightarrow> js_number \<times> js_number" and P xs
    by (induction xs) auto
  from this [of "\<lambda>s. (ts_from s, ts_to s)" ts_gap ?steps]
  have "mset (map (\<lambda>i. (iv_from i, iv_to i)) (seriesGaps points cadence)) + mset (drawn ?steps) = mset (map (\<lambda>s. (ts_from s, ts_to s)) ?steps)"
    by (simp add: seriesGaps_def drawn_def step_interval_def comp_def)
  then show ?thesis using seg by (simp add: withGapBreaks_def observed_breaks observedSteps_def steps_ends)
qed

text \<open>
  C38: A time inside the domain lies in a hole exactly when no coverage contains it, whatever the coverages
  are; so with the coverages of the series of a chart, no hole contains an observed sample of any of them.
\<close>

theorem holes_exact:
  "((\<exists>h \<in> set (uncoveredIntervals coverages (Fin s) (Fin e)). in_open h t) \<longleftrightarrow>
      s < t \<and> t < e \<and> \<not> (\<exists>c \<in> set coverages. \<exists>i \<in> set c. in_closed i t)) \<and>
   (\<forall>ps \<in> set pss. \<forall>p \<in> set ps. observed p \<and> validTimestamp (pt_timestamp p) \<and> pt_timestamp p = Fin u \<longrightarrow>
      \<not> (\<exists>h \<in> set (uncoveredIntervals (map (\<lambda>ps. seriesCoverage ps (sampleCadence ps)) pss) (Fin s) (Fin e)). in_open h u))"
proof (cases "s < e")
  case True
  have "\<exists>c \<in> set (map (\<lambda>ps. seriesCoverage ps (sampleCadence ps)) pss). \<exists>i \<in> set c. in_closed i u"
    if "ps \<in> set pss" "p \<in> set ps" "observed p" "validTimestamp (pt_timestamp p)" "pt_timestamp p = Fin u" for ps p
    using sample_covered [OF that(2-5), of "sampleCadence ps"] that(1) by auto
  then show ?thesis using holes_exact_finite [OF True] by blast
next
  case False
  then show ?thesis by (auto simp: uncoveredIntervals_def)
qed

theorem holes_exact_witness:
  "\<not> (\<exists>h \<in> set (uncoveredIntervals [seriesCoverage sample_points (sampleCadence sample_points)] (Fin 0) (Fin 9)). in_open h 3) \<and>
   (\<exists>h \<in> set (uncoveredIntervals [[\<lparr>iv_from = Fin 2, iv_to = Fin 2\<rparr>]] (Fin 0) (Fin 9)). in_open h 1)"
proof
  have "sample_point 3 (Some 7) \<in> set sample_points" "observed (sample_point 3 (Some 7))"
    "validTimestamp (pt_timestamp (sample_point 3 (Some 7)))" "pt_timestamp (sample_point 3 (Some 7)) = Fin 3"
    by (simp_all add: sample_points_def sample_point_def observed_def finite_value_def validTimestamp_def)
  then show "\<not> (\<exists>h \<in> set (uncoveredIntervals [seriesCoverage sample_points (sampleCadence sample_points)] (Fin 0) (Fin 9)). in_open h 3)"
    using holes_exact [of "[]" 0 9 0 "[sample_points]" 3] by auto
  show "\<exists>h \<in> set (uncoveredIntervals [[\<lparr>iv_from = Fin 2, iv_to = Fin 2\<rparr>]] (Fin 0) (Fin 9)). in_open h 1"
    using holes_exact [of "[[\<lparr>iv_from = Fin 2, iv_to = Fin 2\<rparr>]]" 0 9 1 "[]" 0] by (simp add: in_closed_def js_ge_def)
qed

text \<open>
  A bounded history has at most the points asked for, ends with the last point, be it missing, and
  still holds the last observed one.
\<close>

theorem history_keeps_latest:
  assumes "4 \<le> n" "n < 2 ^ 52" "length (normalize_points input) < 2 ^ 53"
  shows "length (boundHistoryPoints input (Fin (of_int n))) \<le> nat n \<and>
    (normalize_points input \<noteq> [] \<longrightarrow> last (boundHistoryPoints input (Fin (of_int n))) = last (normalize_points input)) \<and>
    (\<forall>k. k < length (normalize_points input) \<and> pt_value (normalize_points input ! k) \<noteq> None \<and>
       (\<forall>j > k. j < length (normalize_points input) \<longrightarrow> pt_value (normalize_points input ! j) = None) \<longrightarrow>
       normalize_points input ! k \<in> set (boundHistoryPoints input (Fin (of_int n))))"
proof -
  let ?pts = "normalize_points input" and ?missing = "\<lambda>p. pt_value p = None"
  define k where "k = length (dropWhile ?missing (rev ?pts))"
  have whole: "downsamplePoints input MAX_SAFE_INTEGER = ?pts"
    using assms(3) by (simp add: downsamplePoints_def downsample_normalized_def MAX_SAFE_INTEGER_def point_limit_def)
  note trim = trailing_trimmed [of ?missing ?pts, folded k_def]
  note upto = trim(1) and k = trim(2)
  have limits: "point_limit (Fin (of_int n)) = nat n" "point_limit (js_sub (Fin (of_int n)) (Fin 1)) = nat (n - 1)"
    "3 \<le> nat n" "3 \<le> nat (n - 1)"
    using assms(1,2) js_sub_int [of n 1] by (simp_all add: point_limit_def)
  have bound: "boundHistoryPoints input (Fin (of_int n)) =
      (if 0 < k \<and> k < length ?pts then downsamplePoints (take k ?pts) (js_sub (Fin (of_int n)) (Fin 1)) @ [last ?pts]
       else downsamplePoints (take (length ?pts) ?pts) (Fin (of_int n)))"
  proof -
    have "(take k ?pts \<noteq> [] \<and> length (take k ?pts) < length ?pts) \<longleftrightarrow> 0 < k \<and> k < length ?pts" using k by auto
    then show ?thesis unfolding boundHistoryPoints_def Let_def whole upto by simp
  qed
  have latest: "j = k - 1 \<and> 0 < k"
    if "j < length ?pts" "\<not> ?missing (?pts ! j)" "\<forall>i > j. i < length ?pts \<longrightarrow> ?missing (?pts ! i)" for j
  proof -
    have "j < k" using trim(3) that(1,2) by (meson linorder_not_le)
    moreover have "\<not> k - 1 > j" using trim(2,4) that(3) \<open>j < k\<close> by (auto simp: less_imp_diff_less)
    ultimately show ?thesis by simp
  qed
  show ?thesis
  proof (cases "0 < k \<and> k < length ?pts")
    case True
    have ds: "length (downsamplePoints (take k ?pts) (js_sub (Fin (of_int n)) (Fin 1))) \<le> nat (n - 1)"
      "?pts ! (k - 1) \<in> set (downsamplePoints (take k ?pts) (js_sub (Fin (of_int n)) (Fin 1)))"
      using downsample_take [of "js_sub (Fin (of_int n)) (Fin 1)" k input] limits True k last_in_set by force+
    then show ?thesis using True latest assms(1) by (auto simp: bound)
  next
    case False
    show ?thesis
    proof (cases "?pts = []")
      case True
      then have "downsamplePoints [] (Fin (of_int n)) = []"
        by (simp add: downsamplePoints_def normalize_points_def downsample_normalized_def)
      then show ?thesis using True by (simp add: bound)
    next
      case ne: False
      have ds: "length (downsamplePoints (take (length ?pts) ?pts) (Fin (of_int n))) \<le> nat n"
        "downsamplePoints (take (length ?pts) ?pts) (Fin (of_int n)) \<noteq> []"
        "last (downsamplePoints (take (length ?pts) ?pts) (Fin (of_int n))) = ?pts ! (length ?pts - 1)"
        using downsample_take [of "Fin (of_int n)" "length ?pts" input] limits ne by auto
      then have "?pts ! (length ?pts - 1) \<in> set (downsamplePoints (take (length ?pts) ?pts) (Fin (of_int n)))"
        using last_in_set by metis
      moreover have "j = length ?pts - 1"
        if "j < length ?pts" "\<not> ?missing (?pts ! j)" "\<forall>i > j. i < length ?pts \<longrightarrow> ?missing (?pts ! i)" for j
        using latest [OF that] False k by auto
      ultimately show ?thesis using ds False ne by (auto simp: bound last_conv_nth)
    qed
  qed
qed

theorem history_keeps_latest_witness:
  "length (boundHistoryPoints sample_points (Fin 4)) \<le> 4 \<and>
   sample_point 4 (Some 9) \<in> set (boundHistoryPoints sample_points (Fin 4))"
proof -
  have norm: "normalize_points sample_points = [sample_point 1 (Some 5), sample_point 2 None, sample_point 3 (Some 7), sample_point 4 (Some 9)]"
    by code_simp
  have "normalize_points sample_points ! 3 = sample_point 4 (Some 9)" "length (normalize_points sample_points) = 4"
    by (simp_all add: norm)
  moreover have "pt_value (sample_point 4 (Some 9)) \<noteq> None" by (simp add: sample_point_def)
  moreover have "normalize_points sample_points ! 3 \<in> set (boundHistoryPoints sample_points (Fin (of_int 4)))" if
    "length (normalize_points sample_points) = 4" "pt_value (normalize_points sample_points ! 3) \<noteq> None"
    using history_keeps_latest [of 4 sample_points] that by auto
  ultimately show ?thesis using history_keeps_latest [of 4 sample_points] by auto
qed

end
