(* ===== verification/ResponsiveLayout.thy ===== *)
theory ResponsiveLayout
  imports DashboardTypes
begin

text \<open>
  The views of a dashboard on smaller canvases (\<open>ui/src/features/insights/responsive-layout.ts\<close>):
  \<open>canvasLayout\<close> flows the widgets into rows of a compact or stacked canvas, and \<open>denseCanvasLayout\<close>
  compresses a wide canvas, once to two thirds and once onto a finer grid. Both are views; the saved
  layout is their argument and is not changed. Grid units are integers.
\<close>

section \<open>Widgets\<close>

definition canvasMode :: "js_number \<Rightarrow> CanvasMode" where
  "canvasMode width =
     (if js_ge width (Fin 960) then Canvas_wide else if js_ge width (Fin 600) then Canvas_compact else Canvas_stacked)"

definition intrinsicStat :: "Widget \<Rightarrow> bool" where
  "intrinsicStat w \<longleftrightarrow>
     wi_type w = Stat \<and> box_h (wi_layout w) \<le> 2 \<and> wi_description w \<in> {None, Some []} \<and>
     Option.bind (wi_options w) wo_showStatBar \<noteq> Some True \<and>
     list_of (wi_drilldowns w) = [] \<and> list_of (wi_selectionBindings w) = []"

definition config_property :: "Widget \<Rightarrow> string \<Rightarrow> js_value" where
  "config_property w k = (case wi_config w of Some c \<Rightarrow> js_property c k | None \<Rightarrow> JUndefined)"

definition plugin_in :: "string list \<Rightarrow> Widget \<Rightarrow> bool" where
  "plugin_in ids w \<longleftrightarrow> wi_type w = Plugin \<and> (case wi_pluginId w of Some p \<Rightarrow> p \<in> set ids | None \<Rightarrow> False)"

definition heatmapText :: "Widget \<Rightarrow> bool" where
  "heatmapText w \<longleftrightarrow> wi_type w = Heatmap \<and>
     (Option.bind (wi_options w) wo_showLabels \<noteq> Some False \<or> Option.bind (wi_options w) wo_showValues \<noteq> Some False)"

definition statisticsLegend :: "Widget \<Rightarrow> bool" where
  "statisticsLegend w \<longleftrightarrow>
     plugin_in [''stacked-timeseries'', ''directional-traffic''] w \<and> config_property w ''legendDisplay'' = JString ''table''"

definition sparklineTable :: "Widget \<Rightarrow> bool" where
  "sparklineTable w \<longleftrightarrow> plugin_in [''record-table''] w \<and>
     (case config_property w ''cellStyles'' of
        JArray styles \<Rightarrow> list_ex (\<lambda>style. typeof_object style \<and> style \<noteq> JNull \<and> js_property style ''display'' = JString ''sparkline'') styles
      | _ \<Rightarrow> False)"

definition minimumHeight :: "CanvasMode \<Rightarrow> Widget \<Rightarrow> int" where
  "minimumHeight mode w =
     (if wi_type w = Stat then if mode = Canvas_stacked then 2 else 1
      else if heatmapText w then if mode = Canvas_compact then 5 else 6
      else if statisticsLegend w \<or> sparklineTable w then 5 else 4)"

section \<open>Rows of a small canvas\<close>

definition widget_order :: "Widget \<Rightarrow> Widget \<Rightarrow> int" where
  "widget_order a b =
     (let dy = box_y (wi_layout a) - box_y (wi_layout b) in
      if dy \<noteq> 0 then dy else box_x (wi_layout a) - box_x (wi_layout b))"

fun metric_rows :: "nat \<Rightarrow> string list \<Rightarrow> (string \<times> int) list" where
  "metric_rows 0 ids = []"
| "metric_rows (Suc r) ids =
     (let columns = (length ids + r) div Suc r in
      map (\<lambda>i. (i, 12 div int columns)) (take columns ids) @ metric_rows r (drop columns ids))"

fun metric_groups :: "Widget list \<Rightarrow> (string \<times> int) list" where
  "metric_groups [] = []"
| "metric_groups (w # ws) =
     (if wi_type w \<noteq> Stat then metric_groups ws
      else let run = takeWhile (\<lambda>x. wi_type x = Stat) (w # ws) in
        metric_rows ((length run + 2) div 3) (map wi_id run) @ metric_groups (drop (length run) (w # ws)))"

definition metricWidths :: "CanvasMode \<Rightarrow> js_number option \<Rightarrow> Widget list \<Rightarrow> (string, int) js_map" where
  "metricWidths mode width ordered =
     (if mode = Canvas_compact \<and> (case width of Some n \<Rightarrow> js_ge n (Fin 840) | None \<Rightarrow> False)
      then foldl (\<lambda>m (i, w). js_map_set i w m) [] (metric_groups ordered) else [])"

record row_state =
  rs_x :: int
  rs_y :: int
  rs_height :: int

definition canvas_width :: "CanvasMode \<Rightarrow> (string, int) js_map \<Rightarrow> Widget \<Rightarrow> int" where
  "canvas_width mode widths w =
     (case js_map_get widths (wi_id w) of
        Some n \<Rightarrow> n
      | None \<Rightarrow>
          if mode = Canvas_compact \<and> (wi_type w = Stat \<or> wi_type w = Plugin \<and> box_w (wi_layout w) \<le> 4) then 6 else 12)"

definition layout_item :: "Widget \<Rightarrow> Box \<Rightarrow> LayoutItem" where
  "layout_item w b =
     \<lparr>li_i = wi_id w, li_x = box_x b, li_y = box_y b, li_w = box_w b, li_h = box_h b, li_minW = Some 1, li_maxW = Some 12,
      li_minH = Some (if wi_type w = Stat then 1 else 2), li_maxH = Some 12, li_moved = None\<rparr>"

definition place_widget ::
    "CanvasMode \<Rightarrow> (string, int) js_map \<Rightarrow> LayoutItem list \<times> row_state \<Rightarrow> Widget \<Rightarrow> LayoutItem list \<times> row_state" where
  "place_widget mode widths st w =
     (let (items, s) = st in
      if mode = Canvas_wide then (items @ [layout_item w (wi_layout w)], s)
      else
        let width = canvas_width mode widths w;
            h = max (minimumHeight mode w) (box_h (wi_layout w));
            s' = (if 12 < rs_x s + width \<or> js_map_get widths (wi_id w) \<noteq> None \<and> 0 < rs_x s \<and> rs_x s mod width \<noteq> 0
                  then \<lparr>rs_x = 0, rs_y = rs_y s + rs_height s, rs_height = 0\<rparr> else s)
        in (items @ [layout_item w \<lparr>box_x = rs_x s', box_y = rs_y s', box_w = width, box_h = h\<rparr>],
            \<lparr>rs_x = rs_x s' + width, rs_y = rs_y s', rs_height = max (rs_height s') h\<rparr>))"

definition canvasLayout :: "Widget list \<Rightarrow> CanvasMode \<Rightarrow> js_number option \<Rightarrow> LayoutItem list" where
  "canvasLayout widgets mode width =
     (let ordered = sort_by widget_order widgets; widths = metricWidths mode width ordered
      in fst (foldl (place_widget mode widths) ([], \<lparr>rs_x = 0, rs_y = 0, rs_height = 0\<rparr>) ordered))"

section \<open>The dense view\<close>

text \<open>\<open>Math.round(n * c)\<close> and \<open>Math.ceil(n * c)\<close> for a literal \<open>c\<close>, which is the double nearest to it.\<close>

definition literal_value :: "rat \<Rightarrow> rat" where
  "literal_value c = (case fl c of Fin r \<Rightarrow> r | _ \<Rightarrow> 0)"

definition round_mul :: "int \<Rightarrow> rat \<Rightarrow> int" where
  "round_mul n c = js_round_int (fl (of_int n * literal_value c))"

definition ceil_mul :: "int \<Rightarrow> rat \<Rightarrow> int" where
  "ceil_mul n c = (case fl (of_int n * literal_value c) of Fin r \<Rightarrow> \<lceil>r\<rceil> | _ \<Rightarrow> 0)"

definition config_above :: "Widget \<Rightarrow> string \<Rightarrow> rat \<Rightarrow> bool" where
  "config_above w k n \<longleftrightarrow> (case config_property w k of JNumber v \<Rightarrow> js_less (Fin n) v | _ \<Rightarrow> False)"

definition calendar :: "Widget \<Rightarrow> bool" where
  "calendar w \<longleftrightarrow> plugin_in [''incident-calendar'', ''uptime-calendar''] w"

definition heightFor :: "Widget \<Rightarrow> LayoutItem \<Rightarrow> int" where
  "heightFor w item =
     (let needsReadingRoom = wi_type w \<in> {Timeseries, Bar, Table} \<or>
            plugin_in [''stacked-timeseries'', ''directional-traffic'', ''record-table''] w;
          needsTallContent = calendar w \<or> plugin_in [''status-history''] w;
          minimum = (if needsTallContent \<or> plugin_in [''record-table''] w \<and> config_above w ''pageSize'' 7 then 5
            else if needsReadingRoom then 4 else 2)
      in if wi_type w = Stat then li_h item
         else if calendar w \<and> 5 \<le> li_h item then max 6 (round_div (li_h item * 2) 3)
         else min (li_h item) (max minimum (round_div (li_h item * 2) 3)))"

definition needsPlotRoom :: "Widget \<Rightarrow> bool" where
  "needsPlotRoom w \<longleftrightarrow> wi_type w \<in> {Timeseries, Bar} \<or> plugin_in [''stacked-timeseries'', ''directional-traffic''] w"

definition fineHeight :: "bool \<Rightarrow> Widget \<Rightarrow> LayoutItem \<Rightarrow> int" where
  "fineHeight referenceCompact w item =
     (if referenceCompact \<and> plugin_in [''incident-calendar''] w \<and> config_property w ''months'' = JNumber (Fin 1) then 11
      else if referenceCompact \<and> plugin_in [''status-history''] w \<and>
        (case config_property w ''maxSeries'' of JNumber v \<Rightarrow> js_ge (Fin 6) v | _ \<Rightarrow> False) then 8
      else
        let tall = plugin_in [''incident-calendar'', ''uptime-calendar'', ''status-history''] w \<or>
              plugin_in [''record-table''] w \<and> config_above w ''pageSize'' 7;
            protectedTall = (tall \<and> wi_pluginId w \<noteq> Some ''record-table'')
        in if wi_type w = Stat then li_h item * 2
           else max (if calendar w \<and> 4 \<le> li_h item then if 6 \<le> li_h item then 15 else 14 else if needsPlotRoom w then 8 else 0)
             (ceil_mul (li_h item) (if protectedTall then 23 / 10 else if tall then 22 / 10 else 155 / 100)))"

definition widget_of :: "Widget list \<Rightarrow> string \<Rightarrow> Widget" where
  "widget_of widgets i = the (js_map_get (foldl (\<lambda>m w. js_map_set (wi_id w) w m) [] widgets) i)"

type_synonym row_group = "int \<times> int"

definition group_heights :: "(LayoutItem \<Rightarrow> int) \<Rightarrow> LayoutItem list \<Rightarrow> (row_group, int) js_map" where
  "group_heights height items =
     foldl (\<lambda>m item. let g = (li_y item, li_h item) in
       js_map_set g (max (case js_map_get m g of Some h \<Rightarrow> h | None \<Rightarrow> 0) (height item)) m) [] items"

definition clear_row :: "LayoutItem list \<Rightarrow> LayoutItem \<Rightarrow> int \<Rightarrow> int" where
  "clear_row placed item y =
     foldl (\<lambda>y earlier. if li_x earlier < li_x item + li_w item \<and> li_x item < li_x earlier + li_w earlier
       then max y (li_y earlier + li_h earlier) else y) y placed"

text \<open>One pass of compression: the height of each group, the row it starts from, what else changes.\<close>

definition compress ::
    "(LayoutItem \<Rightarrow> int) \<Rightarrow> (int \<Rightarrow> int) \<Rightarrow> (int \<Rightarrow> LayoutItem \<Rightarrow> LayoutItem) \<Rightarrow> LayoutItem list \<Rightarrow> LayoutItem list" where
  "compress height row adjust items =
     (let groups = group_heights height items in
      foldl (\<lambda>placed item.
          let h = the (js_map_get groups (li_y item, li_h item)); y = clear_row placed item (row (li_y item))
          in placed @ [adjust h (item\<lparr>li_y := y, li_h := h\<rparr>)]) [] items)"

definition denseCanvasLayout ::
    "Widget list \<Rightarrow> CanvasMode \<Rightarrow> js_number option \<Rightarrow> bool \<Rightarrow> LayoutItem list" where
  "denseCanvasLayout widgets mode width referenceCompact =
     (let standard = canvasLayout widgets mode width in
      if mode \<noteq> Canvas_wide then standard
      else
        let placed = compress (\<lambda>item. heightFor (widget_of widgets (li_i item)) item) (\<lambda>y. round_div (y * 2) 3)
              (\<lambda>h item. item) standard
        in compress (\<lambda>item. fineHeight referenceCompact (widget_of widgets (li_i item)) item) (\<lambda>y. round_mul y (17 / 10))
             (\<lambda>h item. item\<lparr>li_maxH := Some (max (case li_maxH item of Some m \<Rightarrow> m | None \<Rightarrow> 0) h)\<rparr>) placed)"

section \<open>Balanced rows of metrics\<close>

lemma columns_bounds:
  assumes "a * Suc r \<le> n" "n \<le> b * Suc r"
  shows "a \<le> (n + r) div Suc r \<and> (n + r) div Suc r \<le> b"
proof
  have "a = a * Suc r div Suc r" by (metis nonzero_mult_div_cancel_right nat.simps(3))
  also have "\<dots> \<le> (n + r) div Suc r" using assms(1) by (intro div_le_mono) simp
  finally show "a \<le> (n + r) div Suc r" .
  have "(n + r) div Suc r < Suc b" using assms(2) by (subst div_less_iff_less_mult) auto
  then show "(n + r) div Suc r \<le> b" by simp
qed

text \<open>Two or three metrics to a row, once there are two.\<close>

lemma metric_rows_widths:
  "2 * r \<le> length ids \<Longrightarrow> length ids \<le> 3 * r \<Longrightarrow> (i, w) \<in> set (metric_rows r ids) \<Longrightarrow> w = 6 \<or> w = 4"
proof (induction r ids rule: metric_rows.induct)
  case (2 r ids)
  let ?c = "(length ids + r) div Suc r"
  have c: "?c = 2 \<or> ?c = 3" using columns_bounds [of 2 r "length ids" 3] 2(2,3) by auto
  have rest: "2 * r \<le> length (drop ?c ids) \<and> length (drop ?c ids) \<le> 3 * r"
  proof (cases "?c = 2")
    case True
    then have "(length ids + r) div Suc r < 3" by simp
    then have "length ids + r < 3 * Suc r" by (subst (asm) div_less_iff_less_mult) auto
    then show ?thesis unfolding length_drop True using 2(2) by arith
  next
    case False
    then have "?c = 3" using c by simp
    then have "3 * Suc r \<le> length ids + r" by (metis div_times_less_eq_dividend)
    then show ?thesis unfolding length_drop \<open>?c = 3\<close> using 2(3) by arith
  qed
  then show ?case using 2 c by (auto simp: Let_def)
qed simp

lemma metric_groups_widths: "(i, w) \<in> set (metric_groups ws) \<Longrightarrow> w \<in> {12, 6, 4}"
proof (induction ws rule: metric_groups.induct)
  case (2 x ws)
  let ?run = "takeWhile (\<lambda>x. wi_type x = Stat) (x # ws)"
  show ?case
  proof (cases "wi_type x = Stat")
    case True
    have "w \<in> {12, 6, 4}" if m: "(i, w) \<in> set (metric_rows ((length ?run + 2) div 3) (map wi_id ?run))"
    proof (cases "length ?run = 1")
      case True
      then have "(length ?run + 2) div 3 = Suc 0" by simp
      then show ?thesis using m True by (auto simp: Let_def)
    next
      case False
      moreover have "0 < length ?run" using True by simp
      ultimately have "2 \<le> length ?run" by linarith
      then have "2 * ((length ?run + 2) div 3) \<le> length (map wi_id ?run)" "length (map wi_id ?run) \<le> 3 * ((length ?run + 2) div 3)"
        unfolding length_map by linarith+
      from metric_rows_widths [OF this m] show ?thesis by auto
    qed
    moreover have "w \<in> {12, 6, 4}" if "(i, w) \<in> set (metric_groups (drop (length ?run) (x # ws)))"
      using 2(2) True that by (simp add: Let_def)
    ultimately show ?thesis using 2(3) True by (auto simp: Let_def)
  qed (use 2 in auto)
qed simp

lemma metricWidths_get: "js_map_get (metricWidths mode width ordered) i = Some w \<Longrightarrow> w \<in> {12, 6, 4}"
proof -
  have "\<forall>(i, w) \<in> set (foldl (\<lambda>m (i, w). js_map_set i w m) m ps). (i, w) \<in> set m \<or> (i, w) \<in> set ps" for m and ps :: "(string \<times> int) list"
    by (induction ps arbitrary: m) (fastforce dest: set_js_map_set)+
  then show "js_map_get (metricWidths mode width ordered) i = Some w \<Longrightarrow> w \<in> {12, 6, 4}"
    using metric_groups_widths by (fastforce simp: metricWidths_def dest: js_map_get_in split: if_splits)
qed

lemma canvas_width_bounds: "0 < canvas_width mode (metricWidths mode width ordered) w \<and> canvas_width mode (metricWidths mode width ordered) w \<le> 12"
  using metricWidths_get [of mode width ordered "wi_id w"] by (auto simp: canvas_width_def split: option.splits)

section \<open>Rows do not overlap\<close>

definition reads_before :: "LayoutItem \<Rightarrow> LayoutItem \<Rightarrow> bool" where
  "reads_before a b \<longleftrightarrow> li_y a + li_h a \<le> li_y b \<or> li_y a = li_y b \<and> li_x a + li_w a \<le> li_x b"

definition on_canvas :: "LayoutItem \<Rightarrow> bool" where
  "on_canvas a \<longleftrightarrow> 0 \<le> li_x a \<and> 0 < li_w a \<and> li_x a + li_w a \<le> 12 \<and> 0 \<le> li_y a \<and> 0 < li_h a"

definition rows_ok :: "LayoutItem list \<times> row_state \<Rightarrow> bool" where
  "rows_ok st \<longleftrightarrow>
     (let (items, s) = st in
      0 \<le> rs_x s \<and> rs_x s \<le> 12 \<and> 0 \<le> rs_y s \<and> 0 \<le> rs_height s \<and> sorted_wrt reads_before items \<and>
      (\<forall>a \<in> set items. on_canvas a \<and>
         (li_y a + li_h a \<le> rs_y s \<or> li_y a = rs_y s \<and> li_x a + li_w a \<le> rs_x s \<and> li_h a \<le> rs_height s)))"

lemma place_widget_ok:
  assumes "rows_ok st" "mode \<noteq> Canvas_wide" "0 < canvas_width mode widths w" "canvas_width mode widths w \<le> 12"
  shows "rows_ok (place_widget mode widths st w)"
proof -
  obtain items s where st: "st = (items, s)" by fastforce
  let ?w = "canvas_width mode widths w" and ?h = "max (minimumHeight mode w) (box_h (wi_layout w))"
  define s' where "s' = (if 12 < rs_x s + ?w \<or> js_map_get widths (wi_id w) \<noteq> None \<and> 0 < rs_x s \<and> rs_x s mod ?w \<noteq> 0
      then \<lparr>rs_x = 0, rs_y = rs_y s + rs_height s, rs_height = 0\<rparr> else s)"
  let ?item = "layout_item w \<lparr>box_x = rs_x s', box_y = rs_y s', box_w = ?w, box_h = ?h\<rparr>"
  have h: "0 < ?h" by (auto simp: minimumHeight_def)
  have ok: "rows_ok (items, s')" using assms(1) unfolding st rows_ok_def s'_def Let_def prod.case by auto
  have fits: "rs_x s' + ?w \<le> 12" using assms(4) by (auto simp: s'_def)
  have place: "place_widget mode widths st w =
      (items @ [?item], \<lparr>rs_x = rs_x s' + ?w, rs_y = rs_y s', rs_height = max (rs_height s') ?h\<rparr>)"
    using assms(2) unfolding st place_widget_def s'_def Let_def prod.case by simp
  have "\<forall>a \<in> set items. reads_before a ?item" using ok by (auto simp: rows_ok_def reads_before_def layout_item_def)
  moreover have "on_canvas ?item" using ok h fits assms(3) by (auto simp: rows_ok_def on_canvas_def layout_item_def)
  ultimately show ?thesis using ok fits assms(3) h unfolding place rows_ok_def Let_def prod.case
    by (auto simp: sorted_wrt_append layout_item_def)
qed

lemma canvas_rows:
  assumes "mode \<noteq> Canvas_wide" "\<And>w. w \<in> set ws \<Longrightarrow> 0 < canvas_width mode widths w \<and> canvas_width mode widths w \<le> 12"
  shows "rows_ok (foldl (place_widget mode widths) ([], \<lparr>rs_x = 0, rs_y = 0, rs_height = 0\<rparr>) ws)"
  using assms(2)
proof (induction ws rule: rev_induct)
  case (snoc w ws)
  then show ?case using place_widget_ok [OF _ assms(1), of "foldl (place_widget mode widths) ([], \<lparr>rs_x = 0, rs_y = 0, rs_height = 0\<rparr>) ws" widths w]
    by simp
qed (simp add: rows_ok_def)

lemma place_widget_items:
  "map li_i (fst (foldl (place_widget mode widths) st ws)) = map li_i (fst st) @ map wi_id ws"
proof (induction ws arbitrary: st)
  case (Cons w ws)
  obtain items s where "st = (items, s)" by fastforce
  then show ?case using Cons [of "place_widget mode widths st w"]
    by (simp add: place_widget_def layout_item_def Let_def)
qed simp

lemma place_widget_heights:
  "list_all2 (\<lambda>w a. box_h (wi_layout w) \<le> li_h a) ws (fst (foldl (place_widget mode widths) ([], s) ws))"
proof (induction ws rule: rev_induct)
  case (snoc w ws)
  obtain items s' where st: "foldl (place_widget mode widths) ([], s) ws = (items, s')" by fastforce
  then have "list_all2 (\<lambda>w a. box_h (wi_layout w) \<le> li_h a) ws items" using snoc by simp
  moreover have "\<exists>a. fst (place_widget mode widths (items, s') w) = items @ [a] \<and> box_h (wi_layout w) \<le> li_h a"
    by (auto simp: place_widget_def layout_item_def Let_def)
  ultimately show ?case using st by (auto intro: list_all2_appendI)
qed simp

text \<open>Neither does a compressed canvas.\<close>

definition clears :: "LayoutItem \<Rightarrow> LayoutItem \<Rightarrow> bool" where
  "clears a b \<longleftrightarrow> (sharesColumns (box_of a) (box_of b) \<longrightarrow> li_y a + li_h a \<le> li_y b)"

lemma clear_row_ge:
  "y \<le> clear_row placed item y \<and>
   (\<forall>a \<in> set placed. li_x a < li_x item + li_w item \<and> li_x item < li_x a + li_w a \<longrightarrow> li_y a + li_h a \<le> clear_row placed item y)"
  unfolding clear_row_def by (induction placed rule: rev_induct) auto

lemma compress_items:
  assumes "\<And>h a. li_x (adjust h a) = li_x a \<and> li_y (adjust h a) = li_y a \<and> li_w (adjust h a) = li_w a \<and>
      li_h (adjust h a) = li_h a \<and> li_i (adjust h a) = li_i a"
  shows "map (\<lambda>a. (li_i a, li_x a, li_w a)) (compress height row adjust items) = map (\<lambda>a. (li_i a, li_x a, li_w a)) items \<and>
    sorted_wrt clears (compress height row adjust items)"
proof -
  define gs where "gs = group_heights height items"
  let ?f = "\<lambda>placed item. let h = the (js_map_get gs (li_y item, li_h item)); y = clear_row placed item (row (li_y item))
      in placed @ [adjust h (item\<lparr>li_y := y, li_h := h\<rparr>)]"
  have "map (\<lambda>a. (li_i a, li_x a, li_w a)) (foldl ?f [] xs) = map (\<lambda>a. (li_i a, li_x a, li_w a)) xs \<and> sorted_wrt clears (foldl ?f [] xs)" for xs
  proof (induction xs rule: rev_induct)
    case (snoc x xs)
    let ?placed = "foldl ?f [] xs"
    let ?h = "the (js_map_get gs (li_y x, li_h x))" and ?y = "clear_row ?placed x (row (li_y x))"
    have "clears a (adjust ?h (x\<lparr>li_y := ?y, li_h := ?h\<rparr>))" if "a \<in> set ?placed" for a
      using clear_row_ge [of "row (li_y x)" ?placed x] that assms by (simp add: clears_def sharesColumns_def box_of_def)
    then show ?case using snoc assms by (simp add: sorted_wrt_append Let_def)
  qed simp
  then show ?thesis by (simp add: compress_def gs_def Let_def)
qed

section \<open>Properties\<close>

text \<open>
  C26: A compact or stacked canvas shows every widget once, in reading order (row by row, from left to
  right), inside the twelve columns and at least as high as it was saved; so no two overlap.
\<close>

theorem small_canvas_reads_in_order:
  assumes "mode \<noteq> Canvas_wide"
  shows "map li_i (canvasLayout widgets mode width) = map wi_id (sort_by widget_order widgets) \<and>
    list_all2 (\<lambda>w a. box_h (wi_layout w) \<le> li_h a) (sort_by widget_order widgets) (canvasLayout widgets mode width) \<and>
    (\<forall>a \<in> set (canvasLayout widgets mode width). on_canvas a) \<and>
    sorted_wrt reads_before (canvasLayout widgets mode width) \<and>
    (\<forall>i j. i < j \<and> j < length (canvasLayout widgets mode width) \<longrightarrow>
       \<not> overlaps (box_of (canvasLayout widgets mode width ! i)) (box_of (canvasLayout widgets mode width ! j)))"
proof -
  let ?ordered = "sort_by widget_order widgets"
  let ?widths = "metricWidths mode width ?ordered"
  let ?L = "canvasLayout widgets mode width"
  have L: "?L = fst (foldl (place_widget mode ?widths) ([], \<lparr>rs_x = 0, rs_y = 0, rs_height = 0\<rparr>) ?ordered)"
    by (simp add: canvasLayout_def Let_def)
  have "rows_ok (foldl (place_widget mode ?widths) ([], \<lparr>rs_x = 0, rs_y = 0, rs_height = 0\<rparr>) ?ordered)"
    using canvas_rows [OF assms] canvas_width_bounds by blast
  then have rows: "sorted_wrt reads_before ?L" "\<forall>a \<in> set ?L. on_canvas a"
    unfolding L rows_ok_def Let_def by (auto simp: case_prod_beta)
  have "\<not> overlaps (box_of (?L ! i)) (box_of (?L ! j))" if "i < j" "j < length ?L" for i j
    using sorted_wrt_nth_less [OF rows(1) that] by (auto simp: reads_before_def overlaps_def sharesColumns_def box_of_def)
  moreover have "map li_i ?L = map wi_id ?ordered" unfolding L by (simp add: place_widget_items)
  moreover have "list_all2 (\<lambda>w a. box_h (wi_layout w) \<le> li_h a) ?ordered ?L" unfolding L by (rule place_widget_heights)
  ultimately show ?thesis using rows by blast
qed

definition sample_stat :: "string \<Rightarrow> int \<Rightarrow> Widget" where
  "sample_stat i x = \<lparr>wi_id = i, wi_title = i, wi_type = Stat, wi_providerId = ''p'', wi_query = ''up'', wi_unit = [],
     wi_queryRef = None, wi_annotationSource = None, wi_description = None, wi_color = None, wi_options = None,
     wi_pluginId = None, wi_dataKind = None, wi_config = None, wi_drilldowns = None, wi_selectionBindings = None,
     wi_layout = \<lparr>box_x = x, box_y = 0, box_w = 3, box_h = 2\<rparr>\<rparr>"

theorem small_canvas_reads_in_order_witness:
  "map li_i (canvasLayout [sample_stat ''b'' 3, sample_stat ''a'' 0] Canvas_compact (Some (Fin 900))) = [''a'', ''b''] \<and>
   sorted_wrt reads_before (canvasLayout [sample_stat ''b'' 3, sample_stat ''a'' 0] Canvas_compact (Some (Fin 900)))"
proof -
  have "map wi_id (sort_by widget_order [sample_stat ''b'' 3, sample_stat ''a'' 0]) = [''a'', ''b'']" by code_simp
  then show ?thesis
    using small_canvas_reads_in_order [of Canvas_compact "[sample_stat ''b'' 3, sample_stat ''a'' 0]" "Some (Fin 900)"] by simp
qed

text \<open>
  The dense view of a wide canvas keeps every widget in its columns and the reading order of the
  widgets that share columns: the earlier one always ends before the later one starts. So nothing
  overlaps, even where the saved widgets do.
\<close>

theorem dense_canvas_never_overlaps:
  "map (\<lambda>a. (li_i a, li_x a, li_w a)) (denseCanvasLayout widgets Canvas_wide width referenceCompact) =
     map (\<lambda>w. (wi_id w, box_x (wi_layout w), box_w (wi_layout w))) (sort_by widget_order widgets) \<and>
   sorted_wrt (\<lambda>a b. \<not> overlaps (box_of a) (box_of b) \<and>
       (\<not> sharesColumns (box_of a) (box_of b) \<or> li_y a + li_h a \<le> li_y b))
     (denseCanvasLayout widgets Canvas_wide width referenceCompact)"
proof -
  have wide: "map (\<lambda>a. (li_i a, li_x a, li_w a)) (fst (foldl (place_widget Canvas_wide widths) st ws)) =
      map (\<lambda>a. (li_i a, li_x a, li_w a)) (fst st) @ map (\<lambda>w. (wi_id w, box_x (wi_layout w), box_w (wi_layout w))) ws" for widths st ws
    by (induction ws arbitrary: st) (auto simp: place_widget_def layout_item_def Let_def case_prod_beta)
  let ?D = "denseCanvasLayout widgets Canvas_wide width referenceCompact"
  have "map (\<lambda>a. (li_i a, li_x a, li_w a)) ?D = map (\<lambda>a. (li_i a, li_x a, li_w a)) (canvasLayout widgets Canvas_wide width) \<and> sorted_wrt clears ?D"
    unfolding denseCanvasLayout_def Let_def by (simp add: compress_items)
  moreover have "clears a b \<Longrightarrow> \<not> overlaps (box_of a) (box_of b) \<and> (\<not> sharesColumns (box_of a) (box_of b) \<or> li_y a + li_h a \<le> li_y b)" for a b
    by (auto simp: clears_def overlaps_def box_of_def)
  moreover have "map (\<lambda>a. (li_i a, li_x a, li_w a)) (canvasLayout widgets Canvas_wide width) =
      map (\<lambda>w. (wi_id w, box_x (wi_layout w), box_w (wi_layout w))) (sort_by widget_order widgets)"
    by (simp add: canvasLayout_def Let_def wide)
  ultimately show ?thesis
    using sorted_wrt_mono_rel [of ?D clears "\<lambda>a b. \<not> overlaps (box_of a) (box_of b) \<and>
       (\<not> sharesColumns (box_of a) (box_of b) \<or> li_y a + li_h a \<le> li_y b)"] by simp
qed

theorem dense_canvas_never_overlaps_witness:
  "overlaps (wi_layout (sample_stat ''b'' 0)) (wi_layout (sample_stat ''a'' 0)) \<and>
   length (denseCanvasLayout [sample_stat ''b'' 0, sample_stat ''a'' 0] Canvas_wide None False) = 2 \<and>
   sorted_wrt (\<lambda>a b. \<not> overlaps (box_of a) (box_of b))
     (denseCanvasLayout [sample_stat ''b'' 0, sample_stat ''a'' 0] Canvas_wide None False)"
proof (intro conjI)
  let ?D = "denseCanvasLayout [sample_stat ''b'' 0, sample_stat ''a'' 0] Canvas_wide None False"
  note claim = dense_canvas_never_overlaps [of "[sample_stat ''b'' 0, sample_stat ''a'' 0]" None False]
  show "overlaps (wi_layout (sample_stat ''b'' 0)) (wi_layout (sample_stat ''a'' 0))" by code_simp
  have "length ?D = length (sort_by widget_order [sample_stat ''b'' 0, sample_stat ''a'' 0])"
    using arg_cong [where f = length, OF conjunct1 [OF claim]] by simp
  then show "length ?D = 2" by simp
  show "sorted_wrt (\<lambda>a b. \<not> overlaps (box_of a) (box_of b)) ?D"
    by (rule sorted_wrt_mono_rel [OF _ conjunct2 [OF claim]]) blast
qed

end
