(* ===== verification/Treemap.thy ===== *)
theory Treemap
  imports FleetClient
begin

text \<open>
  The treemap of the fleet (\<open>ui/src/components/fleet/treemap-layout.ts\<close> and \<open>treemap-navigation.ts\<close>):
  the size of the canvas, the part of the tree a zoom shows, the cell under a point and the cell an
  arrow key leads to. The tiling is d3's: it is a parameter of \<open>layoutTreemap\<close>, as are the locale order
  of ids and \<open>Math.hypot\<close>, which the language leaves to the implementation.
\<close>

section \<open>Canvas\<close>

definition MAX_DEVICE_PIXEL_RATIO :: rat where
  "MAX_DEVICE_PIXEL_RATIO = 4"

definition BOUNDARY_EPSILON :: js_number where
  "BOUNDARY_EPSILON = fl (1 / 10 ^ 9)"

fun js_mul :: "js_number \<Rightarrow> js_number \<Rightarrow> js_number" where
  "js_mul (Fin a) (Fin b) = fl (a * b)"
| "js_mul x y = NaN"

fun js_div :: "js_number \<Rightarrow> js_number \<Rightarrow> js_number" where
  "js_div (Fin a) (Fin b) = fl (a / b)"
| "js_div x y = NaN"

text \<open>The two operations are used on finite numbers, and the quotient by one that is positive.\<close>

record TreemapCanvasMetrics =
  tc_cssWidth :: js_number
  tc_cssHeight :: js_number
  tc_pixelWidth :: int
  tc_pixelHeight :: int
  tc_scaleX :: js_number
  tc_scaleY :: js_number
  tc_devicePixelRatio :: js_number

definition normalizedDimension :: "js_number \<Rightarrow> js_number" where
  "normalizedDimension v = (if js_is_finite v then js_max (Fin 0) v else Fin 0)"

definition normalizedDevicePixelRatio :: "js_number \<Rightarrow> js_number" where
  "normalizedDevicePixelRatio v =
     (if \<not> js_is_finite v \<or> js_le_zero v then Fin 1 else js_min v (Fin MAX_DEVICE_PIXEL_RATIO))"

definition normalizedSpacing :: "js_number option \<Rightarrow> js_number \<Rightarrow> js_number" where
  "normalizedSpacing v fallback =
     (case v of None \<Rightarrow> fallback | Some x \<Rightarrow> if js_is_finite x then js_max (Fin 0) x else fallback)"

definition normalizedWeight :: "js_number \<Rightarrow> js_number" where
  "normalizedWeight w = (if js_is_finite w \<and> js_less (Fin 0) w then w else Fin 1)"

definition createTreemapCanvasMetrics :: "js_number \<Rightarrow> js_number \<Rightarrow> js_number option \<Rightarrow> TreemapCanvasMetrics" where
  "createTreemapCanvasMetrics width height requested =
     (let cssWidth = normalizedDimension width; cssHeight = normalizedDimension height;
          ratio = normalizedDevicePixelRatio (case requested of Some r \<Rightarrow> r | None \<Rightarrow> Fin 1);
          pixelWidth = js_round_int (js_mul cssWidth ratio); pixelHeight = js_round_int (js_mul cssHeight ratio)
      in \<lparr>tc_cssWidth = cssWidth, tc_cssHeight = cssHeight, tc_pixelWidth = pixelWidth, tc_pixelHeight = pixelHeight,
          tc_scaleX = (if js_less (Fin 0) cssWidth then js_div (js_Number pixelWidth) cssWidth else ratio),
          tc_scaleY = (if js_less (Fin 0) cssHeight then js_div (js_Number pixelHeight) cssHeight else ratio),
          tc_devicePixelRatio = ratio\<rparr>)"

section \<open>Scope\<close>

text \<open>The stack of \<open>findNodePath\<close>, its top first.\<close>

function find_path :: "(FleetMapNode \<times> FleetMapNode list) list \<Rightarrow> string \<Rightarrow> FleetMapNode list option" where
  "find_path [] stableId = None"
| "find_path ((node, path) # pending) stableId =
     (if node_stableId node = stableId then Some path
      else find_path (map (\<lambda>child. (child, path @ [child])) (node_children node) @ pending) stableId)"
  by pat_completeness auto

lemma children_size [termination_simp]: "size_list size (node_children n) < size n"
  by (cases n) simp

termination find_path
proof (relation "measure (\<lambda>(pending, stableId). size_list (\<lambda>x. size (fst x)) pending)", goal_cases)
  case (2 node path pending stableId)
  have "size_list (\<lambda>x. size (fst x)) (xs @ ys) + 1 \<le> size_list (\<lambda>x. size (fst x)) xs + size_list (\<lambda>x. size (fst x)) ys + 1"
    for xs ys :: "(FleetMapNode \<times> FleetMapNode list) list" by (induction xs) auto
  from this [of "map (\<lambda>child. (child, path @ [child])) (node_children node)" pending]
  show ?case using children_size [of node] by (simp add: comp_def)
qed simp

definition findNodePath :: "FleetMapNode list \<Rightarrow> string \<Rightarrow> FleetMapNode list option" where
  "findNodePath roots stableId = find_path (map (\<lambda>node. (node, [node])) roots) stableId"

record TreemapScope =
  sc_zoom :: string
  sc_roots :: "FleetMapNode list"
  sc_breadcrumbs :: "FleetMapNode list"

definition resolveTreemapScope :: "FleetMapNode list \<Rightarrow> string option \<Rightarrow> TreemapScope" where
  "resolveTreemapScope roots requestedZoom =
     (let zoom = (case requestedZoom of Some z \<Rightarrow> trim z | None \<Rightarrow> []) in
      if zoom = [] then \<lparr>sc_zoom = [], sc_roots = roots, sc_breadcrumbs = []\<rparr>
      else case findNodePath roots zoom of
          None \<Rightarrow> \<lparr>sc_zoom = [], sc_roots = roots, sc_breadcrumbs = []\<rparr>
        | Some breadcrumbs \<Rightarrow> \<lparr>sc_zoom = zoom, sc_roots = [last breadcrumbs], sc_breadcrumbs = breadcrumbs\<rparr>)"

definition semanticZoomPatch :: "string option \<Rightarrow> string" where
  "semanticZoomPatch stableId = (case stableId of Some s \<Rightarrow> trim s | None \<Rightarrow> [])"

section \<open>Rectangles\<close>

record TreemapRectangle =
  re_stableId :: string
  re_parentStableId :: "string option"
  re_node :: FleetMapNode
  re_depth :: int
  re_x :: js_number
  re_y :: js_number
  re_width :: js_number
  re_height :: js_number
  re_selectable :: bool

text \<open>What d3 returns for a node of the fleet: its parent, when that is such a node, its depth and its corners.\<close>

record d3_entry =
  de_node :: FleetMapNode
  de_parent :: "FleetMapNode option"
  de_depth :: int
  de_x0 :: js_number
  de_y0 :: js_number
  de_x1 :: js_number
  de_y1 :: js_number

definition weight_of :: "FleetMapNode \<Rightarrow> js_number" where
  "weight_of node = (if node_children node \<noteq> [] then Fin 0 else normalizedWeight (node_effectiveWeight node))"

definition node_order :: "(string \<Rightarrow> string \<Rightarrow> int) \<Rightarrow> js_number \<times> FleetMapNode \<Rightarrow> js_number \<times> FleetMapNode \<Rightarrow> int" where
  "node_order localeCompare left right =
     (let byWeight = num_order (fst right) (fst left) in
      if byWeight \<noteq> 0 then byWeight else localeCompare (node_stableId (snd left)) (node_stableId (snd right)))"

definition rectangle_of :: "d3_entry \<Rightarrow> TreemapRectangle" where
  "rectangle_of e =
     \<lparr>re_stableId = node_stableId (de_node e), re_parentStableId = map_option node_stableId (de_parent e), re_node = de_node e,
      re_depth = max 0 (de_depth e - 1), re_x = de_x0 e, re_y = de_y0 e,
      re_width = js_max (Fin 0) (js_sub (de_x1 e) (de_x0 e)), re_height = js_max (Fin 0) (js_sub (de_y1 e) (de_y0 e)),
      re_selectable = (node_kind (de_node e) = ''application'')\<rparr>"

record TreemapLayoutResult =
  tl_rectangles :: "TreemapRectangle list"
  tl_scope :: TreemapScope
  tl_canvas :: TreemapCanvasMetrics

type_synonym d3_treemap =
  "FleetMapNode list \<Rightarrow> (FleetMapNode \<Rightarrow> js_number) \<Rightarrow> (js_number \<times> FleetMapNode \<Rightarrow> js_number \<times> FleetMapNode \<Rightarrow> int) \<Rightarrow>
   js_number \<times> js_number \<Rightarrow> js_number \<Rightarrow> js_number \<Rightarrow> d3_entry list"

definition layoutTreemap ::
    "d3_treemap \<Rightarrow> (string \<Rightarrow> string \<Rightarrow> int) \<Rightarrow> FleetMapNode list \<Rightarrow> js_number \<times> js_number \<times> js_number option \<Rightarrow>
     string option \<Rightarrow> js_number option \<Rightarrow> js_number option \<Rightarrow> TreemapLayoutResult" where
  "layoutTreemap d3 localeCompare roots viewport zoom gap groupHeaderHeight =
     (let (width, height, ratio) = viewport;
          canvas = createTreemapCanvasMetrics width height ratio; scope = resolveTreemapScope roots zoom
      in if tc_cssWidth canvas = Fin 0 \<or> tc_cssHeight canvas = Fin 0 \<or> sc_roots scope = []
         then \<lparr>tl_rectangles = [], tl_scope = scope, tl_canvas = canvas\<rparr>
         else \<lparr>tl_rectangles = map rectangle_of
                 (d3 (sc_roots scope) weight_of (node_order localeCompare) (tc_cssWidth canvas, tc_cssHeight canvas)
                   (normalizedSpacing gap (Fin 1)) (normalizedSpacing groupHeaderHeight (Fin 20))),
               tl_scope = scope, tl_canvas = canvas\<rparr>)"

definition resolveTreemapMotion :: "bool \<Rightarrow> bool \<times> nat" where
  "resolveTreemapMotion reducedMotion = (if reducedMotion then (False, 0) else (True, 180))"

definition approximatelyEqual :: "js_number \<Rightarrow> js_number \<Rightarrow> bool" where
  "approximatelyEqual l r \<longleftrightarrow> js_ge BOUNDARY_EPSILON (js_abs (js_sub l r))"

definition containsAxis :: "js_number \<Rightarrow> js_number \<Rightarrow> js_number \<Rightarrow> js_number \<Rightarrow> bool" where
  "containsAxis v start stop outerEnd \<longleftrightarrow>
     (if js_less v start \<or> js_less stop v then False else if js_less v stop then True else approximatelyEqual stop outerEnd)"

definition isPreferredHit :: "(string \<Rightarrow> string \<Rightarrow> int) \<Rightarrow> TreemapRectangle \<Rightarrow> TreemapRectangle \<Rightarrow> bool" where
  "isPreferredHit localeCompare candidate current \<longleftrightarrow>
     (if re_depth candidate \<noteq> re_depth current then re_depth current < re_depth candidate
      else if re_selectable candidate \<noteq> re_selectable current then re_selectable candidate
      else localeCompare (re_stableId candidate) (re_stableId current) < 0)"

definition right_of :: "TreemapRectangle \<Rightarrow> js_number" where
  "right_of r = js_add (re_x r) (re_width r)"

definition bottom_of :: "TreemapRectangle \<Rightarrow> js_number" where
  "bottom_of r = js_add (re_y r) (re_height r)"

definition outer_edges :: "TreemapRectangle list \<Rightarrow> js_number \<times> js_number" where
  "outer_edges rectangles =
     foldl (\<lambda>(mx, my) r. (js_max mx (right_of r), js_max my (bottom_of r))) (NegInf, NegInf) rectangles"

definition contains_point :: "TreemapRectangle list \<Rightarrow> js_number \<Rightarrow> js_number \<Rightarrow> TreemapRectangle \<Rightarrow> bool" where
  "contains_point rectangles x y r \<longleftrightarrow>
     containsAxis x (re_x r) (right_of r) (fst (outer_edges rectangles)) \<and>
     containsAxis y (re_y r) (bottom_of r) (snd (outer_edges rectangles))"

definition hitTestTreemap ::
    "(string \<Rightarrow> string \<Rightarrow> int) \<Rightarrow> TreemapRectangle list \<Rightarrow> js_number \<Rightarrow> js_number \<Rightarrow> TreemapRectangle option" where
  "hitTestTreemap localeCompare rectangles x y =
     (if rectangles = [] \<or> \<not> js_is_finite x \<or> \<not> js_is_finite y then None
      else foldl (\<lambda>match r.
          if \<not> contains_point rectangles x y r then match
          else case match of
              None \<Rightarrow> Some r
            | Some m \<Rightarrow> if isPreferredHit localeCompare r m then Some r else match) None rectangles)"

section \<open>Navigation\<close>

datatype TreemapNavigationKey = ArrowLeft | ArrowRight | ArrowUp | ArrowDown | Home | End

definition POSITION_EPSILON :: js_number where
  "POSITION_EPSILON = fl (1 / 10 ^ 9)"

definition navigableRectangles :: "TreemapRectangle list \<Rightarrow> TreemapRectangle list" where
  "navigableRectangles rectangles =
     filter (\<lambda>r. re_selectable r \<and> js_is_finite (re_x r) \<and> js_is_finite (re_y r) \<and> js_is_finite (re_width r) \<and>
       js_is_finite (re_height r) \<and> js_less (Fin 0) (re_width r) \<and> js_less (Fin 0) (re_height r)) rectangles"

definition compareReadingOrder :: "(string \<Rightarrow> string \<Rightarrow> int) \<Rightarrow> TreemapRectangle \<Rightarrow> TreemapRectangle \<Rightarrow> int" where
  "compareReadingOrder localeCompare l r =
     (let dy = num_order (re_y l) (re_y r); dx = num_order (re_x l) (re_x r) in
      if dy \<noteq> 0 then dy else if dx \<noteq> 0 then dx else localeCompare (re_stableId l) (re_stableId r))"

definition center :: "TreemapRectangle \<Rightarrow> js_number \<times> js_number" where
  "center r = (js_add (re_x r) (js_div_const (re_width r) 2), js_add (re_y r) (js_div_const (re_height r) 2))"

fun liesInDirection :: "TreemapRectangle \<Rightarrow> TreemapRectangle \<Rightarrow> TreemapNavigationKey \<Rightarrow> bool" where
  "liesInDirection current candidate ArrowLeft = js_less (fst (center candidate)) (js_sub (fst (center current)) POSITION_EPSILON)"
| "liesInDirection current candidate ArrowRight = js_less (js_add (fst (center current)) POSITION_EPSILON) (fst (center candidate))"
| "liesInDirection current candidate ArrowUp = js_less (snd (center candidate)) (js_sub (snd (center current)) POSITION_EPSILON)"
| "liesInDirection current candidate ArrowDown = js_less (js_add (snd (center current)) POSITION_EPSILON) (snd (center candidate))"
| "liesInDirection current candidate _ = False"

definition intervalDistance :: "js_number \<Rightarrow> js_number \<Rightarrow> js_number \<Rightarrow> js_number \<Rightarrow> js_number" where
  "intervalDistance firstStart firstEnd secondStart secondEnd =
     (if js_less firstEnd secondStart then js_sub secondStart firstEnd
      else if js_less secondEnd firstStart then js_sub firstStart secondEnd else Fin 0)"

record directional_score =
  ds_distance :: js_number
  ds_centerDistance :: js_number
  ds_primary :: js_number
  ds_cross :: js_number

definition directionalScore ::
    "(js_number \<Rightarrow> js_number \<Rightarrow> js_number) \<Rightarrow> TreemapRectangle \<Rightarrow> TreemapRectangle \<Rightarrow> TreemapNavigationKey \<Rightarrow> directional_score" where
  "directionalScore hypot current candidate key =
     (let rows = intervalDistance (re_y current) (bottom_of current) (re_y candidate) (bottom_of candidate);
          columns = intervalDistance (re_x current) (right_of current) (re_x candidate) (right_of candidate);
          primary = js_max0 (case key of
              ArrowLeft \<Rightarrow> js_sub (re_x current) (right_of candidate)
            | ArrowRight \<Rightarrow> js_sub (re_x candidate) (right_of current)
            | ArrowUp \<Rightarrow> js_sub (re_y current) (bottom_of candidate)
            | _ \<Rightarrow> js_sub (re_y candidate) (bottom_of current));
          cross = (if key = ArrowLeft \<or> key = ArrowRight then rows else columns)
      in \<lparr>ds_distance = hypot primary cross,
          ds_centerDistance = hypot (js_sub (fst (center candidate)) (fst (center current))) (js_sub (snd (center candidate)) (snd (center current))),
          ds_primary = primary, ds_cross = cross\<rparr>)"

definition score_order ::
    "(string \<Rightarrow> string \<Rightarrow> int) \<Rightarrow> TreemapRectangle \<times> directional_score \<Rightarrow> TreemapRectangle \<times> directional_score \<Rightarrow> int" where
  "score_order localeCompare l r =
     (let a = snd l; b = snd r;
          keys = [num_order (ds_distance a) (ds_distance b), num_order (ds_centerDistance a) (ds_centerDistance b),
            num_order (ds_primary a) (ds_primary b), num_order (ds_cross a) (ds_cross b)]
      in case List.find (\<lambda>k. k \<noteq> 0) keys of
          Some k \<Rightarrow> k
        | None \<Rightarrow> localeCompare (re_stableId (fst l)) (re_stableId (fst r)))"

definition navigateTreemapSelection ::
    "(string \<Rightarrow> string \<Rightarrow> int) \<Rightarrow> (js_number \<Rightarrow> js_number \<Rightarrow> js_number) \<Rightarrow> TreemapRectangle list \<Rightarrow> string option \<Rightarrow>
     TreemapNavigationKey \<Rightarrow> string option" where
  "navigateTreemapSelection localeCompare hypot rectangles selected key =
     (let candidates = navigableRectangles rectangles in
      if candidates = [] then None
      else
        let readingOrder = sort_by (compareReadingOrder localeCompare) candidates in
        if key = Home then Some (re_stableId (hd readingOrder))
        else if key = End then Some (re_stableId (last readingOrder))
        else case List.find (\<lambda>r. Some (re_stableId r) = selected) candidates of
            None \<Rightarrow> Some (re_stableId (hd readingOrder))
          | Some current \<Rightarrow>
              (case sort_by (score_order localeCompare)
                  (map (\<lambda>c. (c, directionalScore hypot current c key))
                    (filter (\<lambda>c. re_stableId c \<noteq> re_stableId current \<and> liesInDirection current c key) candidates)) of
                 [] \<Rightarrow> Some (re_stableId current)
               | nearest # _ \<Rightarrow> Some (re_stableId (fst nearest))))"

definition retainTreemapSelection :: "string option \<Rightarrow> TreemapRectangle list \<Rightarrow> string option" where
  "retainTreemapSelection selected rectangles =
     (case selected of
        None \<Rightarrow> None
      | Some i \<Rightarrow> if i \<noteq> [] \<and> list_ex (\<lambda>r. re_stableId r = i) (navigableRectangles rectangles) then Some i else None)"

section \<open>The search\<close>

text \<open>Depth first, the children in order.\<close>

fun search_node :: "string \<Rightarrow> FleetMapNode \<Rightarrow> FleetMapNode list option"
  and search_nodes :: "string \<Rightarrow> FleetMapNode list \<Rightarrow> FleetMapNode list option" where
  "search_node i n = (if node_stableId n = i then Some [n] else map_option ((#) n) (search_nodes i (node_children n)))"
| "search_nodes i [] = None"
| "search_nodes i (n # ns) = (case search_node i n of Some p \<Rightarrow> Some p | None \<Rightarrow> search_nodes i ns)"

lemma find_path_search:
  "find_path ((n, pre @ [n]) # rest) i = (case search_node i n of Some p \<Rightarrow> Some (pre @ p) | None \<Rightarrow> find_path rest i)"
  "find_path (map (\<lambda>c. (c, pre @ [c])) ns @ rest) i = (case search_nodes i ns of Some p \<Rightarrow> Some (pre @ p) | None \<Rightarrow> find_path rest i)"
proof (induction i n and i ns arbitrary: pre rest and pre rest rule: search_node_search_nodes.induct)
  case (1 i n)
  show ?case
  proof (cases "node_stableId n = i")
    case False
    then show ?thesis using 1 [OF False, of "pre @ [n]" rest] by (cases "search_nodes i (node_children n)") simp_all
  qed simp
next
  case (3 i n ns)
  then show ?case by (cases "search_node i n") simp_all
qed simp

text \<open>A path leads from a root through children to the node with the id.\<close>

definition leads_to :: "FleetMapNode list \<Rightarrow> string \<Rightarrow> FleetMapNode list \<Rightarrow> bool" where
  "leads_to ns i p \<longleftrightarrow> p \<noteq> [] \<and> hd p \<in> set ns \<and> node_stableId (last p) = i \<and> successively (\<lambda>a b. b \<in> set (node_children a)) p"

lemma node_ids_eq: "node_ids n = node_stableId n # concat (map node_ids (node_children n))"
  by (cases n) simp

lemma search_spec:
  "(search_node i n = None \<longleftrightarrow> i \<notin> set (node_ids n)) \<and> (\<forall>p. search_node i n = Some p \<longrightarrow> leads_to [n] i p)"
  "(search_nodes i ns = None \<longleftrightarrow> i \<notin> (\<Union>n \<in> set ns. set (node_ids n))) \<and> (\<forall>p. search_nodes i ns = Some p \<longrightarrow> leads_to ns i p)"
proof (induction i n and i ns rule: search_node_search_nodes.induct)
  case (1 i n)
  show ?case
  proof (cases "node_stableId n = i")
    case True
    then show ?thesis by (subst node_ids_eq) (simp add: leads_to_def)
  next
    case False
    note IH = 1 [OF False]
    have "leads_to [n] i (n # p)" if "leads_to (node_children n) i p" for p
      using that by (auto simp: leads_to_def successively_Cons)
    then show ?thesis using IH False by (subst node_ids_eq) auto
  qed
next
  case (3 i n ns)
  then show ?case by (cases "search_node i n") (auto simp: leads_to_def simp del: search_node.simps)
qed (simp add: leads_to_def)

lemma findNodePath_search: "findNodePath roots i = search_nodes i roots"
  using find_path_search(2) [of "[]" roots "[]" i] by (simp add: findNodePath_def split: option.splits)

section \<open>Properties\<close>

text \<open>
  C40: The stack search of a zoom is the depth-first search of the tree: it finds a path exactly when some
  node has the id, and the path leads from a root through children to that node. So the scope of a
  zoom is one subtree with its breadcrumbs, and the whole fleet for a zoom that names no node.
\<close>

theorem zoom_scope_exact:
  "findNodePath roots i = search_nodes i roots \<and>
   (findNodePath roots i = None \<longleftrightarrow> i \<notin> (\<Union>n \<in> set roots. set (node_ids n))) \<and>
   (\<forall>p. findNodePath roots i = Some p \<longrightarrow> leads_to roots i p) \<and>
   (let scope = resolveTreemapScope roots (Some i) in
      if trim i \<noteq> [] \<and> trim i \<in> (\<Union>n \<in> set roots. set (node_ids n))
      then sc_zoom scope = trim i \<and> leads_to roots (trim i) (sc_breadcrumbs scope) \<and> sc_roots scope = [last (sc_breadcrumbs scope)]
      else scope = \<lparr>sc_zoom = [], sc_roots = roots, sc_breadcrumbs = []\<rparr>)"
proof -
  have spec: "(findNodePath roots j = None \<longleftrightarrow> j \<notin> (\<Union>n \<in> set roots. set (node_ids n))) \<and>
      (\<forall>p. findNodePath roots j = Some p \<longrightarrow> leads_to roots j p)" for j
    unfolding findNodePath_search by (rule search_spec(2))
  let ?scope = "resolveTreemapScope roots (Some i)" and ?known = "trim i \<in> (\<Union>n \<in> set roots. set (node_ids n))"
  have "if trim i \<noteq> [] \<and> ?known
      then sc_zoom ?scope = trim i \<and> leads_to roots (trim i) (sc_breadcrumbs ?scope) \<and> sc_roots ?scope = [last (sc_breadcrumbs ?scope)]
      else ?scope = \<lparr>sc_zoom = [], sc_roots = roots, sc_breadcrumbs = []\<rparr>"
  proof (cases "findNodePath roots (trim i)")
    case None
    then have "\<not> ?known" using spec by blast
    then show ?thesis using None by (simp add: resolveTreemapScope_def Let_def)
  next
    case (Some p)
    then have "?known" "leads_to roots (trim i) p" using spec [of "trim i"] by auto
    then show ?thesis using Some by (simp add: resolveTreemapScope_def Let_def)
  qed
  then show ?thesis using spec [of i] findNodePath_search [of roots i] unfolding Let_def by blast
qed

text \<open>
  The cell under a point is one that contains it, and there is one whenever some cell contains it; no
  cell that contains the point is deeper, and of the deepest a selectable one is preferred.
\<close>

theorem hit_is_deepest:
  assumes "js_is_finite x" "js_is_finite y"
  shows "(hitTestTreemap lc rectangles x y = None \<longleftrightarrow> \<not> (\<exists>r \<in> set rectangles. contains_point rectangles x y r)) \<and>
    (\<forall>m. hitTestTreemap lc rectangles x y = Some m \<longrightarrow>
       m \<in> set rectangles \<and> contains_point rectangles x y m \<and>
       (\<forall>r \<in> set rectangles. contains_point rectangles x y r \<longrightarrow>
          re_depth r < re_depth m \<or> re_depth r = re_depth m \<and> (re_selectable r \<longrightarrow> re_selectable m)))"
proof -
  let ?in = "contains_point rectangles x y"
  let ?f = "\<lambda>match r. if \<not> ?in r then match else case match of None \<Rightarrow> Some r
      | Some m \<Rightarrow> if isPreferredHit lc r m then Some r else match"
  have "(foldl ?f None rs = None \<longleftrightarrow> \<not> (\<exists>r \<in> set rs. ?in r)) \<and>
      (\<forall>m. foldl ?f None rs = Some m \<longrightarrow> m \<in> set rs \<and> ?in m \<and>
        (\<forall>r \<in> set rs. ?in r \<longrightarrow> re_depth r < re_depth m \<or> re_depth r = re_depth m \<and> (re_selectable r \<longrightarrow> re_selectable m)))" for rs
  proof (induction rs rule: rev_induct)
    case (snoc r rs)
    show ?case
    proof (cases "?in r")
      case True
      then show ?thesis using snoc by (cases "foldl ?f None rs") (fastforce simp: isPreferredHit_def split: if_splits)+
    next
      case False
      then show ?thesis using snoc by auto
    qed
  qed simp
  from this [of rectangles] show ?thesis using assms by (auto simp: hitTestTreemap_def)
qed

text \<open>
  Navigation always selects a cell that can be navigated to, when there is one. An arrow key moves to a
  cell on that side whenever there is one, and otherwise keeps the selection.
\<close>

theorem arrows_move_in_direction:
  assumes "navigableRectangles rectangles \<noteq> []"
  shows "\<exists>i. navigateTreemapSelection lc hypot rectangles selected key = Some i \<and>
    i \<in> re_stableId ` set (navigableRectangles rectangles) \<and>
    (\<forall>current. key \<noteq> Home \<and> key \<noteq> End \<and> List.find (\<lambda>r. Some (re_stableId r) = selected) (navigableRectangles rectangles) = Some current \<longrightarrow>
       (if \<exists>c \<in> set (navigableRectangles rectangles). re_stableId c \<noteq> re_stableId current \<and> liesInDirection current c key
        then \<exists>c \<in> set (navigableRectangles rectangles). i = re_stableId c \<and> i \<noteq> re_stableId current \<and> liesInDirection current c key
        else i = re_stableId current))"
proof -
  let ?cs = "navigableRectangles rectangles"
  let ?order = "sort_by (compareReadingOrder lc) ?cs"
  have order: "?order \<noteq> []" "hd ?order \<in> set ?cs" "last ?order \<in> set ?cs"
    using assms hd_in_set [of ?order] last_in_set [of ?order] by simp_all
  show ?thesis
  proof (cases "key = Home \<or> key = End")
    case True
    then show ?thesis using order assms by (auto simp: navigateTreemapSelection_def Let_def)
  next
    case arrow: False
    show ?thesis
    proof (cases "List.find (\<lambda>r. Some (re_stableId r) = selected) ?cs")
      case None
      then show ?thesis using order arrow assms by (auto simp: navigateTreemapSelection_def Let_def)
    next
      case (Some current)
      let ?there = "filter (\<lambda>c. re_stableId c \<noteq> re_stableId current \<and> liesInDirection current c key) ?cs"
      let ?sorted = "sort_by (score_order lc) (map (\<lambda>c. (c, directionalScore hypot current c key)) ?there)"
      have cur: "current \<in> set ?cs" using find_Some_in [OF Some] by simp
      have nav: "navigateTreemapSelection lc hypot rectangles selected key =
          (case ?sorted of [] \<Rightarrow> Some (re_stableId current) | nearest # _ \<Rightarrow> Some (re_stableId (fst nearest)))"
        using arrow assms Some by (simp add: navigateTreemapSelection_def Let_def)
      show ?thesis
      proof (cases ?sorted)
        case Nil
        then have "?there = []" by simp
        then show ?thesis using nav Nil Some cur by (auto simp: filter_empty_conv)
      next
        case (Cons nearest rest)
        then have "nearest \<in> set ?sorted" by simp
        then have "fst nearest \<in> set ?there" by auto
        then show ?thesis using nav Cons Some by auto
      qed
    qed
  qed
qed

definition sample_node :: "string \<Rightarrow> FleetMapNode list \<Rightarrow> FleetMapNode" where
  "sample_node i cs = FleetMapNode i (if cs = [] then ''application'' else ''group'') i None None None 1 1 [] 0 (Fin 0) (Fin 1) False cs"

theorem zoom_scope_exact_witness:
  "leads_to [sample_node ''g'' [sample_node ''a'' [], sample_node ''b'' []]] ''b''
     (sc_breadcrumbs (resolveTreemapScope [sample_node ''g'' [sample_node ''a'' [], sample_node ''b'' []]] (Some '' b ''))) "
proof -
  let ?roots = "[sample_node ''g'' [sample_node ''a'' [], sample_node ''b'' []]]"
  have t: "trim '' b '' = ''b''" by code_simp
  have "trim '' b '' \<noteq> [] \<and> trim '' b '' \<in> (\<Union>n \<in> set ?roots. set (node_ids n))" unfolding t by (simp add: sample_node_def)
  then show ?thesis using zoom_scope_exact [of ?roots "'' b ''"] unfolding Let_def t by (simp only: if_True simp_thms)
qed

definition sample_cell :: "string \<Rightarrow> int \<Rightarrow> int \<Rightarrow> TreemapRectangle" where
  "sample_cell i d x = \<lparr>re_stableId = i, re_parentStableId = None, re_node = sample_node i [], re_depth = d,
     re_x = Fin (of_int x), re_y = Fin 0, re_width = Fin 10, re_height = Fin 10, re_selectable = True\<rparr>"

definition code_order :: "string \<Rightarrow> string \<Rightarrow> int" where
  "code_order a b = (if a = b then 0 else if lexordp (\<lambda>x y. (of_char x :: nat) < of_char y) a b then - 1 else 1)"

theorem hit_is_deepest_witness:
  "\<exists>m. hitTestTreemap code_order [sample_cell ''a'' 0 0, sample_cell ''b'' 1 0] (Fin 5) (Fin 5) = Some m \<and> 1 \<le> re_depth m"
proof -
  let ?rs = "[sample_cell ''a'' 0 0, sample_cell ''b'' 1 0]"
  have "fl 10 = Fin 10" using fl_int [of 10] by simp
  then have inside: "contains_point ?rs (Fin 5) (Fin 5) (sample_cell ''b'' 1 0)"
    by (simp add: contains_point_def containsAxis_def right_of_def bottom_of_def sample_cell_def)
  then obtain m where m: "hitTestTreemap code_order ?rs (Fin 5) (Fin 5) = Some m"
    using hit_is_deepest [of "Fin 5" "Fin 5" code_order ?rs] by fastforce
  moreover have "re_depth (sample_cell ''b'' 1 0) = 1" by (simp add: sample_cell_def)
  ultimately have "1 \<le> re_depth m" using hit_is_deepest [of "Fin 5" "Fin 5" code_order ?rs] inside by fastforce
  then show ?thesis using m by blast
qed

lemma fl_small: "1 \<le> x \<Longrightarrow> x \<le> 10 \<Longrightarrow> \<exists>r. fl x = Fin r \<and> r < 25"
proof -
  assume x: "1 \<le> x" "x \<le> 10"
  have "two_pow (- 1000) \<le> x" using two_pow_mono [of "- 1000" 0] x(1) by (simp add: two_pow_def)
  moreover have "x < two_pow 1000" using x(2) by (intro small_range) simp
  ultimately obtain r where r: "fl x = Fin r" "\<bar>r - x\<bar> \<le> x / 2 ^ 53" using fl_near by blast
  have "x / 2 ^ 53 \<le> 10" using x by simp
  then have "\<bar>r - x\<bar> \<le> 10" using r(2) by linarith
  then have "r < 25" using x(2) by linarith
  then show ?thesis using r(1) by blast
qed

lemma epsilon_small: "\<exists>e. POSITION_EPSILON = Fin e \<and> 0 \<le> e \<and> e \<le> 1"
proof -
  let ?x = "1 / 10 ^ 9 :: rat"
  have "two_pow (- 1000) \<le> ?x" using two_pow_small [of 1 "10 ^ 9"] by simp
  moreover have "?x < two_pow 1000" by (intro small_range) simp
  ultimately obtain r where r: "fl ?x = Fin r" "\<bar>r - ?x\<bar> \<le> ?x / 2 ^ 53" using fl_near by blast
  have "?x / 2 ^ 53 \<le> ?x" "?x \<le> 1 / 2" by simp_all
  then have "0 \<le> r \<and> r \<le> 1" using r(2) by linarith
  then show ?thesis using r(1) by (simp add: POSITION_EPSILON_def)
qed

theorem arrows_move_in_direction_witness:
  "navigateTreemapSelection code_order (\<lambda>a b. js_max (js_abs a) (js_abs b)) [sample_cell ''a'' 0 0, sample_cell ''b'' 0 20] (Some ''a'') ArrowRight = Some ''b''"
proof -
  let ?rs = "[sample_cell ''a'' 0 0, sample_cell ''b'' 0 20]"
  have nav: "navigableRectangles ?rs = ?rs" by (simp add: navigableRectangles_def sample_cell_def)
  have "List.find (\<lambda>r. Some (re_stableId r) = Some ''a'') ?rs = Some (sample_cell ''a'' 0 0)" by (simp add: sample_cell_def)
  moreover have "liesInDirection (sample_cell ''a'' 0 0) (sample_cell ''b'' 0 20) ArrowRight"
  proof -
    have five: "fl 5 = Fin 5" "fl 25 = Fin 25" using fl_int [of 5] fl_int [of 25] by simp_all
    obtain e where e: "POSITION_EPSILON = Fin e" "0 \<le> e" "e \<le> 1" using epsilon_small by blast
    obtain r where "fl (5 + e) = Fin r" "r < 25" using fl_small [of "5 + e"] e(2,3) by auto
    then have "js_less (js_add (Fin 5) POSITION_EPSILON) (Fin 25)" unfolding e(1) by simp
    then show ?thesis using five by (simp add: center_def sample_cell_def)
  qed
  moreover have "re_stableId (sample_cell ''a'' 0 0) = ''a''" "re_stableId (sample_cell ''b'' 0 20) = ''b''" by (simp_all add: sample_cell_def)
  ultimately show ?thesis
    using arrows_move_in_direction [of ?rs code_order "\<lambda>a b. js_max (js_abs a) (js_abs b)" "Some ''a''" ArrowRight] unfolding nav by auto
qed

end
