(* ===== verification/Spec2Isabelle.thy ===== *)
theory Spec2Isabelle
  imports FleetData DataGate StatusTone FleetRows FleetRefresh FleetFocus PipelineModel RolloutModel
    SessionRequest LayoutOrder DashboardHistory SchedulerLaws ImportServer WidgetRegistry ImportDiff ChartData ResponsiveLayout Treemap
begin

text \<open>
  Verification of the Paprika console.

  \<^bold>\<open>The program.\<close> Paprika is a continuous-delivery operator with a web console. This development
  verifies the logic of the console (TypeScript, under \<open>ui/src\<close>): the code between the control
  plane's protobuf API and the React views. Its parts are three.

  \<^enum> The \<^emph>\<open>fleet\<close>: a query state that lives in the URL, the requests built from it, the pages read
    with cursors, the cache entry the views share, the refresh loop, the focus that follows a row
    across views, and what rows, pipelines, rollouts and the treemap derive from the wire. What may
    be drawn when data is missing, partial or stale is decided by one gate.
  \<^enum> The \<^emph>\<open>session\<close> of a browser tab: tokens in two storages that may refuse, renewal shared with the
    other tabs under a lock, fencing of late answers by an epoch, and the requests that carry it.
  \<^enum> The \<^emph>\<open>insights\<close> dashboards: their layout and its edits, the undo history, saved queries with
    typed parameters, drilldown links, the scheduler that shares running queries among widgets, the
    points a chart draws, and the transfer of dashboards between workspaces.

  \<^bold>\<open>Language.\<close> \<open>Prelude\<close> has the parts of JavaScript that all of it uses: strings as lists of code
  units, insertion-ordered maps, stable sorting with a comparator, trimming, searching, decimal text.
  \<open>JsNumber\<close> has binary64 numbers (rationals rounded by \<^term>\<open>fl\<close>, with infinities and NaN), \<open>JsValue\<close>
  the values of \<open>JSON.parse\<close>, \<open>JsonText\<close> the text \<open>JSON.stringify\<close> gives.
  A failing call is \<^term>\<open>Inl\<close> of an error or \<^term>\<open>None\<close>; state is a record that is passed and returned;
  an asynchronous function is a task whose steps interleave with everything else.

  \<^bold>\<open>Fleet.\<close>
  \<^item> \<open>FleetQuery\<close> (\<open>lib/fleet-query.ts\<close>): parsing, canonical form, serialization, merging,
    reconciliation. Serializing and parsing is the identity on canonical states; the notices are
    exactly the values the canonical form refuses. The locale \<open>query_field\<close> is the contract of one
    field of the URL, interpreted for each kind of field.
  \<^item> \<open>Wire\<close> (\<open>gen/paprika/v1/api_pb.d.ts\<close>, the messages that are read) and \<open>FleetClient\<close>
    (\<open>lib/fleet-client.ts\<close>): requests and decoders; \<open>enum_codec\<close> is the contract of the five
    enumerations, open on the wire.
  \<^item> \<open>FleetPages\<close> (\<open>lib/fleet-pages.ts\<close>): the page merge and the loader with concurrent calls; pages
    are chained and restarts bounded.
  \<^item> \<open>FleetData\<close> (\<open>lib/use-fleet-data.ts\<close>): which request a state makes, and the shared cache entry as
    a state machine whose pages stay chained; \<open>FleetRefresh\<close> and \<open>FleetFocus\<close> are the refresh and focus
    machines.
  \<^item> \<open>StatusTone\<close>, \<open>DataGate\<close>, \<open>FleetRows\<close>, \<open>PipelineModel\<close>, \<open>RolloutModel\<close>, \<open>Treemap\<close>: the view models.
    \<open>degraded_mode\<close> is the contract of a gate, met by the console's gate and by the fleet views.

  \<^bold>\<open>Session.\<close> \<open>BrowserStorage\<close> and \<open>BrowserSession\<close> (\<open>lib/browser-session.ts\<close>), \<open>AuthReturnTo\<close>
  (\<open>lib/auth-return-to.ts\<close>), \<open>SessionRequest\<close> (\<open>lib/session-request.ts\<close>, \<open>lib/transport.ts\<close>): operations
  and tasks. \<open>SessionLaws\<close> has the step relation of a tab among other tabs and its invariants: the
  epoch determines the identity, tasks of an earlier session have no effect, a request is sent under one identity and
  its answer given only under that identity, but for the 401 that a failed recovery leaves. The locale \<open>session_relation\<close> is what all operations
  keep, interpreted for the history of epochs and for the snapshot.

  \<^bold>\<open>Insights\<close> (\<open>ui/src/features/insights\<close>).
  \<^item> \<open>LayoutEdit\<close> and \<open>LayoutOrder\<close> (\<open>layout-edit.ts\<close>): edits keep a canvas without overlaps and on the
    grid so, and move the widget the way they report; on an overlapping layout the constraints of a move
    may form a cycle; \<open>ResponsiveLayout\<close>
    (\<open>responsive-layout.ts\<close>): smaller canvases keep the reading order and never overlap;
    \<open>DashboardHistory\<close> (\<open>history.ts\<close>): the hook refines a bounded time line of undo and redo.
  \<^item> \<open>QueryVariables\<close> and \<open>Drilldown\<close> (\<open>drilldown.ts\<close>, \<open>widget-context.ts\<close>): values never leave the
    literal they are interpolated into; links carry the selected values and the time range, and the reason shown is the one
    following gives.
  \<^item> \<open>QueryScheduler\<close> and \<open>SchedulerLaws\<close> (\<open>createQueryScheduler\<close> in \<open>query.ts\<close>): slots, queue, waiters and cache as
    a machine over turns of the event loop; bounds, answers of the own query, every caller answered.
  \<^item> \<open>DashboardTypes\<close>, \<open>SavedQueries\<close>, \<open>BundleTransfer\<close>, \<open>ImportDiff\<close> (\<open>schema.ts\<close>, \<open>saved-queries.ts\<close>,
    \<open>workspace-transfer.ts\<close>, \<open>import-review.ts\<close>, \<open>fingerprint.ts\<close>): closure of bundles agrees with the
    compatibility check, is kept by selection and renaming, and makes references resolve; the
    difference of two documents is empty exactly when their canonical forms agree, and then so do their fingerprints.
  \<^item> \<open>DashboardSchema\<close>, \<open>WidgetRegistry\<close>, \<open>DashboardJson\<close>, \<open>BundleCheck\<close> (\<open>schema.ts\<close>, \<open>series-colors.ts\<close>,
    \<open>widget-registry.tsx\<close>, \<open>workspace-transfer.ts\<close>, \<open>import-review.ts\<close>): the schemas of dashboards with their trimming, the JSON text of a document, and the
    checks of bundles with their size limits. Plugin configurations are accepted exactly when they are small records
    of JSON data; stored dashboards can be written back; a new widget keeps a dashboard valid, for a registered plugin exactly when
    the label and the default configuration, which the registry does not check, are within the limits of the schema; checking a bundle
    twice changes nothing, and selecting from a checked bundle succeeds.
  \<^item> \<open>ClientProgram\<close>, \<open>BundleImport\<close>, \<open>ImportLaws\<close>, \<open>ImportSafety\<close> (\<open>bundle-import.ts\<close>): a program is a tree
    of calls to the workspace client over all answers, with a calculus of weakest preconditions over the
    history of calls; the importer is such a program, statement by statement. Whatever the server answers and others write,
    it reviews before it writes, writes over nothing it has not just seen as reviewed, reports as done only
    what the server has shown, and over all retries of a session writes to one destination for each document of the bundle. \<open>ImportServer\<close>
    (\<open>internal/insights/store.go\<close>) composes it with the conditional writes of the store: among other writers, an import
    overwrites nothing but what was reviewed.
  \<^item> \<open>ChartData\<close> (\<open>chart-data.ts\<close>): downsampling invents no point and keeps the incidents; lines break
    exactly at the gaps.

  \<^bold>\<open>Bounds and fuel.\<close> Loops are recursive functions with a termination proof. The one search with a
  bound is that of the shortest decimal digits of a number in \<open>JsonText\<close>: seventeen digits tell any two
  binary64 numbers apart. The
  asynchronous parts are machines that run by steps, so no fuel is needed; a statement that something
  happens is stated of runs in which the pending steps are taken, and a statement that they end
  gives a decreasing measure.

  \<^bold>\<open>Parameters.\<close> Code outside the repository, or of the browser, is an argument of the definitions
  that use it: the Connect client, \<open>fetch\<close>, the URL parser, the locale order, \<open>Math.hypot\<close>, the d3
  treemap tiling, the formats of URLs, dates and time zones (\<^typ>\<open>platform\<close>), the answers of the workspace
  client, the reader of library texts, the digest in a revision, random identifiers, and the text of a dashboard in the undo history. What a theorem needs of
  one is a hypothesis, met in its witness by a concrete function.

  \<^bold>\<open>Not modelled.\<close>
  \<^item> React components and hooks beyond the state they keep (\<open>app/**\<close>, \<open>components/**\<close>, the widget editor,
    the widget query hook, tooltip positions): rendering and event wiring over the modelled logic.
  \<^item> \<open>Intl\<close> formats, class names, colours and label widths: presentation.
  \<^item> The parsing of JSON and YAML text and the reading of untyped values as documents: \<open>parseDashboardBundle\<close> takes them as
    an argument, and an import reads back the value it has just printed. Nothing is claimed of texts that are read.
  \<^item> The transport of the workspace client (\<open>client.ts\<close>) and its revalidated reads: an import sees only its answers. Callbacks of
    the page do not throw.
  \<^item> Code units from 256 on: a string is a list of characters below 256, so sizes in bytes are those of such texts.
  \<^item> The scanner of analysis messages in \<open>rollout-model.ts\<close>, written with regular expressions, and
    the set of listeners of the session; the lease loop of the session lock is its result, granted
    later or given up.
  \<^item> Generated protocol code, the Go operator, the landing site and its press kit.
\<close>

end
